(* ===== verification/Prelude.thy ===== *)
theory Prelude
  imports Main "HOL-Library.AList" "HOL-Library.Char_ord" "HOL-Library.List_Lexorder"
    "HOL-Library.Sublist"
begin

text \<open>
  The vocabulary every component theory shares: the types that stand for Go's built-in types
  (\<open>int64\<close> with its wrap-around, \<open>time.Time\<close>, byte strings, maps, \<open>error\<close> values), the functions
  of \<open>strings\<close>, \<open>strconv\<close> and \<open>errors\<close> that the sources call, and the generic lemmas about them.

  \<^item> \<open>int64\<close> is an \<^typ>\<open>int\<close>; an addition that can leave the 64-bit range is written \<open>i64_add\<close>,
    which wraps as Go's does.
  \<^item> \<open>time.Time\<close> is the \<^typ>\<open>int\<close> number of nanoseconds since Go's zero time, so \<open>IsZero\<close> is \<open>= 0\<close>.
  \<^item> A string is its bytes; the case mappings act on ASCII letters, the only letters the tokens and
    identifiers of the repository are made of.
  \<^item> A Go map is an association list with distinct keys; its order stands for the unspecified
    order of \<open>range\<close>.
  \<^item> An \<open>error\<close> is the list of the sentinels it wraps: \<open>errors.Is\<close> is membership and
    \<open>errors.Join\<close> is concatenation.
\<close>

section \<open>Machine integers and time\<close>

definition wrap64 :: "int \<Rightarrow> int" where
  "wrap64 x = (x + 2 ^ 63) mod 2 ^ 64 - 2 ^ 63"

definition in_i64 :: "int \<Rightarrow> bool" where
  "in_i64 x \<longleftrightarrow> - (2 ^ 63) \<le> x \<and> x < 2 ^ 63"

definition i64_add :: "int \<Rightarrow> int \<Rightarrow> int" where
  "i64_add a b = wrap64 (a + b)"

fun i64_sum :: "int list \<Rightarrow> int" where
  "i64_sum [] = 0"
| "i64_sum (x # xs) = i64_add x (i64_sum xs)"

type_synonym time = int

definition unix_epoch :: time where
  "unix_epoch = 62135596800 * 1000000000"

abbreviation IsZero :: "time \<Rightarrow> bool" where
  "IsZero t \<equiv> t = 0"

section \<open>Maps\<close>

type_synonym ('k, 'v) gomap = "('k \<times> 'v) list"

abbreviation gm_get :: "('k, 'v) gomap \<Rightarrow> 'k \<Rightarrow> 'v option" where
  "gm_get \<equiv> map_of"

abbreviation gm_put :: "'k \<Rightarrow> 'v \<Rightarrow> ('k, 'v) gomap \<Rightarrow> ('k, 'v) gomap" where
  "gm_put \<equiv> AList.update"

abbreviation gm_del :: "'k \<Rightarrow> ('k, 'v) gomap \<Rightarrow> ('k, 'v) gomap" where
  "gm_del \<equiv> AList.delete"

abbreviation gm_ok :: "('k, 'v) gomap \<Rightarrow> bool" where
  "gm_ok m \<equiv> distinct (map fst m)"

section \<open>Errors\<close>

text \<open>
  The codes of the two error types that carry data: \<open>engine.PlanningError\<close>, which is known by its code, its
  operation and its attribute, and \<open>ports.LoadPlanningError\<close>, known by its code and its capability.
\<close>

datatype PlanningErrorCode =
    PlanningCodeInvalidDescriptor | PlanningCodeUnsupported | PlanningCodeEngineMismatch
  | PlanningCodeMutationMismatch | PlanningCodeCapabilityDrift | PlanningCodePlannerMismatch
  | PlanningCodePhysicalStateDrift

datatype LoadPlanningErrorCode = LoadPlanningInvalid | LoadPlanningUnsupported | LoadPlanningPrecondition

datatype sentinel =
    ContextCanceled | ContextDeadlineExceeded
  | ErrNotFound | ErrConflict | ErrInvalid | ErrInvalidQuery | ErrPrecondition | ErrUnsupported
  | ErrBackend
  | ErrStateNotFound | ErrStateConflict | ErrReceiptConflict | ErrExactReceipt
  | ErrCommitGroupConflict
  | ErrTableNotFound | ErrUnsupportedSchema | ErrResourceExhausted | ErrQueueWaitTimeout
  | ErrOperationTimeout | ErrInvalidRows
  | ErrSessionStateNotFound | ErrSessionStateConflict
  | LoadErrNotFound | LoadErrConflict | LoadErrInvalid | LoadErrPrecondition | LoadErrUnsupported
  | ErrPlanning PlanningErrorCode string string
  | ErrLoadPlanning LoadPlanningErrorCode string
  | ErrText string

type_synonym go_error = "sentinel list"

abbreviation errors_New :: "string \<Rightarrow> go_error" where
  "errors_New m \<equiv> [ErrText m]"

definition errors_Is :: "go_error \<Rightarrow> sentinel \<Rightarrow> bool" where
  "errors_Is e s \<longleftrightarrow> s \<in> set e"

abbreviation errors_Join :: "go_error \<Rightarrow> go_error \<Rightarrow> go_error" where
  "errors_Join a b \<equiv> a @ b"

text \<open>
  The variable texts of an error's message: its own texts, and what a planning error prints of itself. The fixed words of the
  messages and of the sentinels hold none of the capability names that the code looks for.
\<close>

fun sentinel_text :: "sentinel \<Rightarrow> string" where
  "sentinel_text (ErrText t) = t"
| "sentinel_text (ErrLoadPlanning _ capability) = capability"
| "sentinel_text (ErrPlanning _ operation attribute) = operation @ '' '' @ attribute"
| "sentinel_text _ = []"

text \<open>The verb \<open>%v\<close> keeps the text of an error and drops what it wraps.\<close>

definition error_as_text :: "go_error \<Rightarrow> go_error" where
  "error_as_text e = map (\<lambda>s. ErrText (sentinel_text s)) e"

section \<open>Strings\<close>

fun strings_Split :: "char \<Rightarrow> string \<Rightarrow> string list" where
  "strings_Split c [] = [[]]"
| "strings_Split c (x # xs) =
     (if x = c then [] # strings_Split c xs
      else (case strings_Split c xs of [] \<Rightarrow> [[x]] | y # ys \<Rightarrow> (x # y) # ys))"

fun strings_Join :: "string list \<Rightarrow> string \<Rightarrow> string" where
  "strings_Join [] sep = []"
| "strings_Join [x] sep = x"
| "strings_Join (x # y # ys) sep = x @ sep @ strings_Join (y # ys) sep"

definition strings_HasSuffix :: "string \<Rightarrow> string \<Rightarrow> bool" where
  "strings_HasSuffix s suf \<longleftrightarrow>
     length suf \<le> length s \<and> drop (length s - length suf) s = suf"

definition strings_TrimSuffix :: "string \<Rightarrow> string \<Rightarrow> string" where
  "strings_TrimSuffix s suf =
     (if strings_HasSuffix s suf then take (length s - length suf) s else s)"

definition strings_HasPrefix :: "string \<Rightarrow> string \<Rightarrow> bool" where
  "strings_HasPrefix s pre \<longleftrightarrow> take (length pre) s = pre"

definition strings_TrimPrefix :: "string \<Rightarrow> string \<Rightarrow> string" where
  "strings_TrimPrefix s pre = (if strings_HasPrefix s pre then drop (length pre) s else s)"

definition upper_char :: "char \<Rightarrow> char" where
  "upper_char c = (if CHR ''a'' \<le> c \<and> c \<le> CHR ''z'' then char_of (of_char c - (32::nat)) else c)"

definition lower_char :: "char \<Rightarrow> char" where
  "lower_char c = (if CHR ''A'' \<le> c \<and> c \<le> CHR ''Z'' then char_of (of_char c + (32::nat)) else c)"

definition strings_ToUpper :: "string \<Rightarrow> string" where
  "strings_ToUpper s = map upper_char s"

definition strings_ToLower :: "string \<Rightarrow> string" where
  "strings_ToLower s = map lower_char s"

definition strings_EqualFold :: "string \<Rightarrow> string \<Rightarrow> bool" where
  "strings_EqualFold a b \<longleftrightarrow> strings_ToLower a = strings_ToLower b"

text \<open>\<open>strings.TrimSpace(s) == ""\<close>: the bytes are a sequence of UTF-8 encoded white space.\<close>

definition ascii_space :: "char \<Rightarrow> bool" where
  "ascii_space c \<longleftrightarrow> of_char c \<in> {9, 10, 11, 12, 13, 32 :: nat}"

definition space2 :: "char \<Rightarrow> char \<Rightarrow> bool" where
  "space2 a b \<longleftrightarrow> of_char a = (0xC2::nat) \<and> of_char b \<in> {0x85, 0xA0 :: nat}"

definition space3 :: "char \<Rightarrow> char \<Rightarrow> char \<Rightarrow> bool" where
  "space3 a b c \<longleftrightarrow>
     (let x = of_char a :: nat; y = of_char b :: nat; z = of_char c :: nat in
      x = 0xE1 \<and> y = 0x9A \<and> z = 0x80
      \<or> x = 0xE2 \<and> y = 0x80 \<and> (0x80 \<le> z \<and> z \<le> 0x8A \<or> z = 0xA8 \<or> z = 0xA9 \<or> z = 0xAF)
      \<or> x = 0xE2 \<and> y = 0x81 \<and> z = 0x9F
      \<or> x = 0xE3 \<and> y = 0x80 \<and> z = 0x80)"

fun blank :: "string \<Rightarrow> bool" where
  "blank [] = True"
| "blank [a] = ascii_space a"
| "blank [a, b] = (if ascii_space a then blank [b] else space2 a b)"
| "blank (a # b # c # cs) =
     (if ascii_space a then blank (b # c # cs)
      else if space2 a b then blank (c # cs)
      else space3 a b c \<and> blank cs)"

section \<open>strconv\<close>

definition digit_char :: "nat \<Rightarrow> char" where
  "digit_char d = char_of (48 + d)"

definition is_digit :: "char \<Rightarrow> bool" where
  "is_digit c \<longleftrightarrow> 48 \<le> (of_char c :: nat) \<and> (of_char c :: nat) \<le> 57"

definition digit_val :: "char \<Rightarrow> nat" where
  "digit_val c = of_char c - 48"

fun format_nat :: "nat \<Rightarrow> string" where
  "format_nat n =
     (if n < 10 then [digit_char n] else format_nat (n div 10) @ [digit_char (n mod 10)])"

declare format_nat.simps [simp del]

definition FormatInt :: "int \<Rightarrow> string" where
  "FormatInt n = (if n < 0 then CHR ''-'' # format_nat (nat (- n)) else format_nat (nat n))"

definition digits_value :: "string \<Rightarrow> nat" where
  "digits_value s = foldl (\<lambda>acc c. 10 * acc + digit_val c) 0 s"

definition parse_digits :: "string \<Rightarrow> nat option" where
  "parse_digits s = (if s \<noteq> [] \<and> list_all is_digit s then Some (digits_value s) else None)"

definition ParseInt :: "string \<Rightarrow> int option" where
  "ParseInt s =
     (case s of
        [] \<Rightarrow> None
      | c # cs \<Rightarrow>
          (let neg = (c = CHR ''-''); body = (if c = CHR ''-'' \<or> c = CHR ''+'' then cs else s) in
           case parse_digits body of
             None \<Rightarrow> None
           | Some n \<Rightarrow> (let v = (if neg then - int n else int n) in
                        if in_i64 v then Some v else None)))"

section \<open>Shared lemmas\<close>

lemma wrap64_id [simp]: "in_i64 x \<Longrightarrow> wrap64 x = x"
  by (simp add: wrap64_def in_i64_def)

lemma wrap64_in_i64 [simp]: "in_i64 (wrap64 x)"
  by (simp add: wrap64_def in_i64_def)

lemma in_i64_0 [simp]: "in_i64 0" by (simp add: in_i64_def)

lemma i64_add_in_i64 [simp]: "in_i64 (i64_add a b)"
  by (simp add: i64_add_def)

lemma i64_add_exact: "in_i64 (a + b) \<Longrightarrow> i64_add a b = a + b"
  by (simp add: i64_add_def)

lemma wrap64_mod: "wrap64 x mod 2 ^ 64 = x mod 2 ^ 64"
  by (simp add: wrap64_def mod_simps)

lemma wrap64_cong: "x mod 2 ^ 64 = y mod 2 ^ 64 \<Longrightarrow> wrap64 x = wrap64 y"
  unfolding wrap64_def by (metis mod_add_left_eq)

lemma i64_add_0 [simp]: "in_i64 a \<Longrightarrow> i64_add a 0 = a" "in_i64 a \<Longrightarrow> i64_add 0 a = a"
  by (simp_all add: i64_add_def)

lemma i64_add_commute: "i64_add a b = i64_add b a"
  by (simp add: i64_add_def add.commute)

lemma i64_add_assoc: "i64_add (i64_add a b) c = i64_add a (i64_add b c)"
  unfolding i64_add_def
  by (rule wrap64_cong) (metis wrap64_mod mod_add_left_eq mod_add_right_eq add.assoc)

lemma i64_add_cancel: "in_i64 b \<Longrightarrow> in_i64 c \<Longrightarrow> i64_add a b = i64_add a c \<longleftrightarrow> b = c"
proof
  assume b: "in_i64 b" and c: "in_i64 c" and e: "i64_add a b = i64_add a c"
  have "(a + b) mod 2 ^ 64 = (a + c) mod 2 ^ 64"
    using e wrap64_mod [of "a + b"] wrap64_mod [of "a + c"] by (simp add: i64_add_def)
  then have "b mod 2 ^ 64 = c mod 2 ^ 64"
    by (simp add: mod_eq_dvd_iff)
  then have "wrap64 b = wrap64 c" by (rule wrap64_cong)
  then show "b = c" using b c by simp
qed simp

lemma i64_sum_in_i64 [simp]: "in_i64 (i64_sum xs)"
  by (cases xs) simp_all

lemma i64_sum_append: "i64_sum (xs @ ys) = i64_add (i64_sum xs) (i64_sum ys)"
  by (induction xs) (simp_all add: i64_add_assoc)

lemma i64_sum_exact: "list_all (\<lambda>x. 0 \<le> x) xs \<Longrightarrow> in_i64 (sum_list xs) \<Longrightarrow> i64_sum xs = sum_list xs"
proof (induction xs)
  case (Cons x xs)
  then have s: "0 \<le> sum_list xs" by (simp add: list_all_iff sum_list_nonneg)
  with Cons.prems have "in_i64 (sum_list xs)" by (auto simp: in_i64_def)
  with Cons show ?case by (simp add: i64_add_def)
qed simp

subsection \<open>Maps\<close>

lemma gm_get_put [simp]: "gm_get (gm_put k v m) = (gm_get m)(k \<mapsto> v)"
  by (rule update_conv')

lemma gm_get_del [simp]: "gm_get (gm_del k m) = (gm_get m)(k := None)"
  by (rule delete_conv')

lemma gm_ok_put [simp]: "gm_ok m \<Longrightarrow> gm_ok (gm_put k v m)"
  by (rule distinct_update)

lemma gm_ok_del [simp]: "gm_ok m \<Longrightarrow> gm_ok (gm_del k m)"
  by (rule distinct_delete)

lemma gm_get_filter: "gm_ok m \<Longrightarrow> gm_get (filter P m) k = (case gm_get m k of None \<Rightarrow> None | Some v \<Rightarrow> if P (k, v) then Some v else None)"
proof (induction m)
  case (Cons p m)
  have "gm_get (filter P m) k = None" if "k \<notin> fst ` set m" using that by (force simp: map_of_eq_None_iff)
  with Cons show ?case by (cases p) (auto simp: map_of_eq_None_iff split: option.splits)
qed simp

lemma gm_get_in: "gm_ok m \<Longrightarrow> gm_get m k = Some v \<longleftrightarrow> (k, v) \<in> set m"
  by (rule map_of_eq_Some_iff)

subsection \<open>Strings\<close>

lemma strings_Split_nonempty [simp]: "strings_Split c s \<noteq> []"
  by (induction s) (auto split: list.splits)

lemma strings_Split_nosep: "c \<notin> set s \<Longrightarrow> strings_Split c s = [s]"
  by (induction s) auto

lemma strings_Split_append: "c \<notin> set s \<Longrightarrow> strings_Split c (s @ c # t) = s # strings_Split c t"
  by (induction s) auto

lemma strings_Split_Join:
  "ps \<noteq> [] \<Longrightarrow> list_all (\<lambda>p. c \<notin> set p) ps \<Longrightarrow> strings_Split c (strings_Join ps [c]) = ps"
  by (induction ps "[c]" rule: strings_Join.induct)
     (simp_all add: strings_Split_nosep strings_Split_append)

lemma strings_Join_Split [simp]: "strings_Join (strings_Split c s) [c] = s"
proof (induction s)
  case (Cons x xs)
  show ?case
  proof (cases "strings_Split c xs")
    case (Cons y ys)
    then show ?thesis using Cons.IH by (cases ys) auto
  qed simp
qed simp

lemma strings_Split_sep: "strings_Split c (x @ c # s) = strings_Split c x @ strings_Split c s"
  by (induction x) (auto split: list.splits)

lemma strings_Split_single: "strings_Split c s = [p] \<Longrightarrow> p = s"
  using strings_Join_Split [of c s] by simp

lemma strings_Split_no_sep: "p \<in> set (strings_Split c s) \<Longrightarrow> c \<notin> set p"
proof (induction s arbitrary: p)
  case (Cons x xs)
  then show ?case by (auto split: if_splits list.splits)
qed simp

lemma strings_HasSuffix_iff: "strings_HasSuffix s suf \<longleftrightarrow> (\<exists>p. s = p @ suf)"
  unfolding strings_HasSuffix_def
  by (metis append_take_drop_id diff_add_inverse2 append_eq_conv_conj le_add2 length_append)

lemma strings_HasSuffix_append [simp]: "strings_HasSuffix (p @ suf) suf"
  by (auto simp: strings_HasSuffix_iff)

lemma strings_TrimSuffix_append [simp]: "strings_TrimSuffix (p @ suf) suf = p"
  by (simp add: strings_TrimSuffix_def)

subsection \<open>Decimal numerals\<close>
lemma of_char_digit [simp]: "d < 10 \<Longrightarrow> (of_char (digit_char d) :: nat) = 48 + d"
  by (simp add: digit_char_def)

lemma is_digit_digit_char [simp]: "d < 10 \<Longrightarrow> is_digit (digit_char d)"
  by (simp add: is_digit_def)

lemma digit_val_digit_char [simp]: "d < 10 \<Longrightarrow> digit_val (digit_char d) = d"
  by (simp add: digit_val_def)

lemma format_nat_nonempty [simp]: "format_nat n \<noteq> []"
  by (subst format_nat.simps) simp

lemma digits_value_snoc [simp]: "digits_value (s @ [c]) = 10 * digits_value s + digit_val c"
  by (simp add: digits_value_def)

lemma format_nat_digits [simp]: "list_all is_digit (format_nat n)"
proof (induction n rule: format_nat.induct)
  case (1 n)
  then show ?case by (cases "n < 10") (simp_all add: format_nat.simps [of n])
qed

lemma digits_value_format_nat [simp]: "digits_value (format_nat n) = n"
proof (induction n rule: format_nat.induct)
  case (1 n)
  show ?case
  proof (cases "n < 10")
    case True
    then show ?thesis by (simp add: format_nat.simps [of n] digits_value_def)
  next
    case False
    then show ?thesis using 1 by (simp add: format_nat.simps [of n])
  qed
qed

lemma parse_digits_format_nat [simp]: "parse_digits (format_nat n) = Some n"
  by (simp add: parse_digits_def)

lemma format_nat_hd: "is_digit (hd (format_nat n))"
  using format_nat_digits [of n] format_nat_nonempty [of n] by (cases "format_nat n") auto

lemma ParseInt_FormatInt: "in_i64 n \<Longrightarrow> ParseInt (FormatInt n) = Some n"
proof (cases "n < 0")
  case True
  assume "in_i64 n"
  with True show ?thesis by (simp add: ParseInt_def FormatInt_def Let_def)
next
  case False
  assume n: "in_i64 n"
  obtain c cs where f: "format_nat (nat n) = c # cs"
    using format_nat_nonempty by (meson list.exhaust)
  have "is_digit c" using format_nat_hd [of "nat n"] f by simp
  then have "c \<noteq> CHR ''-''" "c \<noteq> CHR ''+''" by (auto simp: is_digit_def)
  then show ?thesis using False n f parse_digits_format_nat [of "nat n"]
    by (simp add: ParseInt_def FormatInt_def Let_def)
qed

lemma format_nat_inj: "format_nat a = format_nat b \<Longrightarrow> a = b"
  by (metis digits_value_format_nat)

lemma FormatInt_nonempty [simp]: "FormatInt n \<noteq> []"
  by (simp add: FormatInt_def)

lemma errors_Is_Join: "errors_Is (errors_Join a b) s \<longleftrightarrow> errors_Is a s \<or> errors_Is b s"
  by (simp add: errors_Is_def)

end
