(* ===== verification/Domain_Catalog.thy ===== *)
theory Domain_Catalog
  imports Prelude Complex_Main
begin

text \<open>
  \<open>internal/domain/catalog.go\<close> and \<open>internal/domain/decimal.go\<close>: the catalog entities with the
  validation every mutation goes through, and the exact decimal normalisation of NUMERIC and
  BIGNUMERIC values. The lemmas show that a validated schema has case-insensitively distinct names
  at every level and valid decimal shapes, that the rounding is to nearest with the field's tie
  rule, and that a normalised value is a fixed point of the normalisation.

  The texts of error messages are not modelled: an error is the sentinel it wraps. Regular
  expressions are written out as the character classes they name.
\<close>

section \<open>Identifiers\<close>

definition in_class :: "nat \<Rightarrow> nat \<Rightarrow> char \<Rightarrow> bool" where
  "in_class lo hi c \<longleftrightarrow> lo \<le> of_char c \<and> of_char c \<le> hi"

definition is_lower :: "char \<Rightarrow> bool" where "is_lower = in_class 97 122"

definition is_alpha :: "char \<Rightarrow> bool" where
  "is_alpha c \<longleftrightarrow> in_class 97 122 c \<or> in_class 65 90 c"

definition projectIDPattern :: "string \<Rightarrow> bool" where
  "projectIDPattern s \<longleftrightarrow>
     (case s of [] \<Rightarrow> False
      | c # cs \<Rightarrow> is_lower c \<and> 2 \<le> length cs \<and> length cs \<le> 62
                 \<and> list_all (\<lambda>x. is_lower x \<or> is_digit x \<or> x = CHR ''-'') cs)"

definition resourceIDPattern :: "string \<Rightarrow> bool" where
  "resourceIDPattern s \<longleftrightarrow>
     (case s of [] \<Rightarrow> False
      | c # cs \<Rightarrow> (is_alpha c \<or> c = CHR ''_'')
                 \<and> list_all (\<lambda>x. is_alpha x \<or> is_digit x \<or> x = CHR ''_'') cs)"

section \<open>Entities\<close>

type_synonym RoundingMode = string

definition RoundingModeUnspecified :: RoundingMode where
  "RoundingModeUnspecified = ''ROUNDING_MODE_UNSPECIFIED''"

definition RoundingModeHalfAwayFromZero :: RoundingMode where
  "RoundingModeHalfAwayFromZero = ''ROUND_HALF_AWAY_FROM_ZERO''"

definition RoundingModeHalfEven :: RoundingMode where
  "RoundingModeHalfEven = ''ROUND_HALF_EVEN''"

datatype Field = MkField
  (FName: string) (FType: string) (FMode: string) (FDescription: string)
  (FPrecision: "int option") (FScale: "int option") (FRoundingMode: RoundingMode)
  (FFields: "Field list")

record Project =
  PrID :: string
  PrFriendlyName :: string
  PrDescription :: string
  PrCreatedAt :: time
  PrUpdatedAt :: time

record Dataset =
  DsProjectID :: string
  DsID :: string
  DsFriendlyName :: string
  DsDescription :: string
  DsLocation :: string
  DsLabels :: "(string, string) gomap option"
  DefaultTableExpirationMs :: "int option"
  DefaultPartitionExpirationMs :: "int option"
  DsCreatedAt :: time
  DsUpdatedAt :: time
  DsHidden :: bool

record TimePartitioning =
  TpType :: string
  TpField :: string
  TpExpirationMs :: int

record Range =
  RgStart :: int
  RgEnd :: int
  RgInterval :: int

record RangePartitioning =
  RpField :: string
  RpRange :: Range

record Table =
  TbProjectID :: string
  TbDatasetID :: string
  TbID :: string
  TbFriendlyName :: string
  TbDescription :: string
  TbLabels :: "(string, string) gomap option"
  TbType :: string
  TbSchema :: "Field list"
  TbLocation :: string
  TbExpirationTime :: "time option"
  TbTimePartitioning :: "TimePartitioning option"
  TbRangePartitioning :: "RangePartitioning option"
  TbClusteringFields :: "string list"
  TbCreatedAt :: time
  TbUpdatedAt :: time

definition Project_Validate :: "Project \<Rightarrow> go_error option" where
  "Project_Validate p = (if \<not> projectIDPattern (PrID p) then Some [ErrInvalid] else None)"

definition Dataset_Validate :: "Dataset \<Rightarrow> go_error option" where
  "Dataset_Validate d =
     (if \<not> projectIDPattern (DsProjectID d) then Some [ErrInvalid]
      else if 1024 < length (DsID d) \<or> \<not> resourceIDPattern (DsID d) then Some [ErrInvalid]
      else if (case DefaultTableExpirationMs d of Some v \<Rightarrow> v < 0 | None \<Rightarrow> False) then Some [ErrInvalid]
      else if (case DefaultPartitionExpirationMs d of Some v \<Rightarrow> v < 0 | None \<Rightarrow> False)
      then Some [ErrInvalid]
      else None)"

section \<open>Decimal parameters\<close>

definition CapabilityEngineSchemaV1 :: string where
  "CapabilityEngineSchemaV1 = ''schema.engine-capabilities-v1''"

definition SparkDecimalMaxPrecision :: int where "SparkDecimalMaxPrecision = 38"
definition SparkDecimalMaxScale :: int where "SparkDecimalMaxScale = 38"

record DecimalParameters =
  DpPrecision :: int
  DpScale :: int

definition EffectiveRoundingMode :: "Field \<Rightarrow> go_error + RoundingMode" where
  "EffectiveRoundingMode f =
     (let t = strings_ToUpper (FType f) in
      if t \<noteq> ''NUMERIC'' \<and> t \<noteq> ''BIGNUMERIC'' then Inl [ErrInvalid]
      else if FRoundingMode f \<in> {[], RoundingModeUnspecified, RoundingModeHalfAwayFromZero}
      then Inr RoundingModeHalfAwayFromZero
      else if FRoundingMode f = RoundingModeHalfEven then Inr RoundingModeHalfEven
      else Inl [ErrInvalid])"

definition EffectiveDecimalParameters :: "Field \<Rightarrow> go_error + DecimalParameters" where
  "EffectiveDecimalParameters f =
     (let t = strings_ToUpper (FType f) in
      if t \<noteq> ''NUMERIC'' \<and> t \<noteq> ''BIGNUMERIC'' then Inl [ErrInvalid]
      else case FPrecision f of
        None \<Rightarrow>
          (if FScale f = None
           then Inr \<lparr>DpPrecision = 38, DpScale = (if t = ''NUMERIC'' then 9 else 18)\<rparr>
           else Inl [ErrInvalid])
      | Some precision \<Rightarrow>
          (let scale = (case FScale f of None \<Rightarrow> 0 | Some s \<Rightarrow> s) in
           if precision < 1 then Inl [ErrInvalid]
           else if precision > SparkDecimalMaxPrecision then Inl [ErrUnsupported]
           else if scale < 0 \<or> scale > SparkDecimalMaxScale then Inl [ErrInvalid]
           else if scale > precision then Inl [ErrInvalid]
           else if t = ''NUMERIC'' \<and> scale > 9 then Inl [ErrInvalid]
           else if t = ''NUMERIC'' \<and> precision - scale > 29 then Inl [ErrInvalid]
           else Inr \<lparr>DpPrecision = precision, DpScale = scale\<rparr>))"

section \<open>Field and table validation\<close>

definition scalar_types :: "string list" where
  "scalar_types = [''BOOL'', ''BOOLEAN'', ''INT64'', ''INTEGER'', ''FLOAT64'', ''FLOAT'',
     ''NUMERIC'', ''BIGNUMERIC'', ''STRING'', ''BYTES'', ''DATE'', ''DATETIME'', ''TIME'',
     ''TIMESTAMP'', ''JSON'']"

definition field_types :: "string list" where
  "field_types = scalar_types @ [''RECORD'', ''STRUCT'']"

text \<open>The checks of \<open>Field.Validate\<close> that precede the loop over the nested fields.\<close>

definition Field_Validate_head :: "Field \<Rightarrow> go_error option" where
  "Field_Validate_head f =
     (let t = strings_ToUpper (FType f); mode = strings_ToUpper (FMode f);
          isrec = (t = ''RECORD'' \<or> t = ''STRUCT'') in
      if 1024 < length (FName f) \<or> \<not> resourceIDPattern (FName f) then Some [ErrInvalid]
      else if t = ''GEOGRAPHY'' then Some [ErrUnsupported]
      else if t \<notin> set field_types then Some [ErrInvalid]
      else case (if t = ''NUMERIC'' \<or> t = ''BIGNUMERIC''
                 then (case EffectiveDecimalParameters f of
                         Inl e \<Rightarrow> Some e
                       | Inr _ \<Rightarrow> (case EffectiveRoundingMode f of Inl e \<Rightarrow> Some e | Inr _ \<Rightarrow> None))
                 else if FPrecision f \<noteq> None \<or> FScale f \<noteq> None \<or> FRoundingMode f \<noteq> []
                 then Some [ErrInvalid] else None) of
        Some e \<Rightarrow> Some e
      | None \<Rightarrow>
          if mode \<notin> {[], ''NULLABLE'', ''REQUIRED'', ''REPEATED''} then Some [ErrInvalid]
          else if isrec \<and> FFields f = [] then Some [ErrInvalid]
          else if \<not> isrec \<and> FFields f \<noteq> [] then Some [ErrInvalid]
          else None)"

fun Field_Validate :: "Field \<Rightarrow> go_error option"
and Fields_Validate :: "Field list \<Rightarrow> go_error option" where
  "Field_Validate (MkField n t m d p s r fs) =
     (case Field_Validate_head (MkField n t m d p s r fs) of
        Some e \<Rightarrow> Some e | None \<Rightarrow> Fields_Validate fs)"
| "Fields_Validate [] = None"
| "Fields_Validate (f # fs) =
     (case Field_Validate f of Some e \<Rightarrow> Some e | None \<Rightarrow> Fields_Validate fs)"

text \<open>The loop of \<open>validateFieldList\<close>, \<open>seen\<close> the lower-cased names met so far.\<close>

fun validateFieldList_from :: "string list \<Rightarrow> Field list \<Rightarrow> go_error option" where
  "validateFieldList_from seen [] = None"
| "validateFieldList_from seen (MkField n t m d p s r nested # rest) =
     (case Field_Validate (MkField n t m d p s r nested) of
        Some e \<Rightarrow> Some e
      | None \<Rightarrow>
          (if strings_ToLower n \<in> set seen then Some [ErrInvalid]
           else case validateFieldList_from [] nested of
             Some e \<Rightarrow> Some e
           | None \<Rightarrow> validateFieldList_from (strings_ToLower n # seen) rest))"

definition validateFieldList :: "Field list \<Rightarrow> go_error option" where
  "validateFieldList fs = validateFieldList_from [] fs"

definition Table_Validate :: "Table \<Rightarrow> go_error option" where
  "Table_Validate t =
     (if \<not> projectIDPattern (TbProjectID t) \<or> 1024 < length (TbDatasetID t)
         \<or> 1024 < length (TbID t) \<or> \<not> resourceIDPattern (TbDatasetID t)
         \<or> \<not> resourceIDPattern (TbID t) then Some [ErrInvalid]
      else if TbSchema t = [] then Some [ErrInvalid]
      else validateFieldList (TbSchema t))"

fun CloneFields :: "Field list \<Rightarrow> Field list" where
  "CloneFields [] = []"
| "CloneFields (MkField n t m d p s r nested # rest) =
     MkField n t m d p s r (CloneFields nested) # CloneFields rest"

section \<open>Decimal values\<close>

text \<open>
  \<open>decimalLiteralPattern\<close> with what \<open>big.Rat.SetString\<close> reads from a string of that grammar: the
  sign, the digits before and after the point, and the exponent.
\<close>

definition split_sign :: "string \<Rightarrow> bool \<times> string" where
  "split_sign s = (case s of [] \<Rightarrow> (False, [])
     | c # cs \<Rightarrow> if c = CHR ''-'' then (True, cs) else if c = CHR ''+'' then (False, cs) else (False, s))"

definition mantissa_digits :: "string \<Rightarrow> (string \<times> string) option" where
  "mantissa_digits s =
     (let ip = takeWhile (\<lambda>c. c \<noteq> CHR ''.'') s; rest = dropWhile (\<lambda>c. c \<noteq> CHR ''.'') s;
          fp = drop 1 rest in
      if list_all is_digit ip \<and> list_all is_digit fp
         \<and> (ip \<noteq> [] \<or> (rest \<noteq> [] \<and> fp \<noteq> []))
      then Some (ip, fp) else None)"

definition exponent_digits :: "string \<Rightarrow> (bool \<times> string) option" where
  "exponent_digits s =
     (case s of [] \<Rightarrow> Some (False, ''0'')
      | e # es \<Rightarrow> (case split_sign es of (neg, ds) \<Rightarrow>
          if ds \<noteq> [] \<and> list_all is_digit ds then Some (neg, ds) else None))"

definition decimal_literal :: "string \<Rightarrow> (bool \<times> string \<times> string \<times> bool \<times> string) option" where
  "decimal_literal input =
     (case split_sign input of (neg, body) \<Rightarrow>
        (let not_e = (\<lambda>c. c \<noteq> CHR ''e'' \<and> c \<noteq> CHR ''E'') in
         case (mantissa_digits (takeWhile not_e body), exponent_digits (dropWhile not_e body)) of
           (Some (ip, fp), Some (eneg, es)) \<Rightarrow> Some (neg, ip, fp, eneg, es)
         | _ \<Rightarrow> None))"

definition pow10 :: "int \<Rightarrow> rat" where
  "pow10 e = (if 0 \<le> e then 10 ^ nat e else 1 / 10 ^ nat (- e))"

text \<open>
  \<open>(*big.Rat).SetString\<close> on a literal of the grammar. The exponent must fit an \<open>int64\<close>; a non-zero
  mantissa is refused when the power of ten it is scaled by is beyond one million.
\<close>

definition Rat_SetString :: "bool \<times> string \<times> string \<times> bool \<times> string \<Rightarrow> rat option" where
  "Rat_SetString lit =
     (case lit of (neg, ip, fp, eneg, es) \<Rightarrow>
        (let mant = int (digits_value (ip @ fp));
             ex = (if eneg then - int (digits_value es) else int (digits_value es));
             exp5 = ex - int (length fp) in
         if \<not> in_i64 ex then None
         else if mant = 0 then Some 0
         else if 1000000 < \<bar>exp5\<bar> then None
         else Some (of_int (if neg then - mant else mant) * pow10 exp5)))"

text \<open>\<open>QuoRem\<close> truncates towards zero.\<close>

definition quo :: "int \<Rightarrow> int \<Rightarrow> int" where
  "quo n d = (if n < 0 then - ((- n) div d) else n div d)"

definition round_scaled :: "RoundingMode \<Rightarrow> rat \<Rightarrow> int" where
  "round_scaled roundingMode scaled =
     (case quotient_of scaled of (num, denom) \<Rightarrow>
        (let quotient = quo num denom; remainder = num - quotient * denom in
         if remainder \<noteq> 0 then
           (let twice = 2 * \<bar>remainder\<bar>;
                increment = (if twice = denom
                             then roundingMode = RoundingModeHalfAwayFromZero \<or> odd quotient
                             else denom < twice) in
            if increment then (if scaled < 0 then quotient - 1 else quotient + 1) else quotient)
         else quotient))"

definition formatScaledDecimal :: "int \<Rightarrow> int \<Rightarrow> string" where
  "formatScaledDecimal v scale =
     (let ds = format_nat (nat \<bar>v\<bar>);
          digits =
            (if scale > 0 then
               (let minimum = nat scale + 1;
                    padded = (if length ds < minimum
                              then replicate (minimum - length ds) CHR ''0'' @ ds else ds);
                    point = length padded - nat scale in
                take point padded @ ''.'' @ drop point padded)
             else ds) in
      if v < 0 then CHR ''-'' # digits else digits)"

definition NormalizeDecimalValue :: "Field \<Rightarrow> string \<Rightarrow> go_error + string" where
  "NormalizeDecimalValue f input =
     (case EffectiveDecimalParameters f of Inl e \<Rightarrow> Inl e | Inr parameters \<Rightarrow>
      (case EffectiveRoundingMode f of Inl e \<Rightarrow> Inl e | Inr roundingMode \<Rightarrow>
       (case decimal_literal input of None \<Rightarrow> Inl [ErrInvalid] | Some lit \<Rightarrow>
        (case Rat_SetString lit of None \<Rightarrow> Inl [ErrInvalid] | Some rational \<Rightarrow>
         (let factor = 10 ^ nat (DpScale parameters);
              quotient = round_scaled roundingMode (rational * factor);
              digits = length (format_nat (nat \<bar>quotient\<bar>)) in
          if int digits > DpPrecision parameters then Inl [ErrInvalid]
          else Inr (formatScaledDecimal quotient (DpScale parameters)))))))"

section \<open>Validated schemas\<close>

function schema_ok :: "Field list \<Rightarrow> bool" where
  "schema_ok fs \<longleftrightarrow>
     distinct (map (strings_ToLower \<circ> FName) fs) \<and>
     (\<forall>f \<in> set fs. Field_Validate_head f = None \<and> schema_ok (FFields f))"
  by pat_completeness auto
termination
proof (relation "measure (size_list size)")
  fix fs :: "Field list" and f assume "f \<in> set fs"
  moreover have "size_list size (FFields f) < size f" by (cases f) simp
  ultimately show "(FFields f, fs) \<in> measure (size_list size)"
    using size_list_estimation [of f fs "size_list size (FFields f)" size] by simp
qed simp

declare schema_ok.simps [simp del]

section \<open>Rounding\<close>

text \<open>The reference: \<open>q\<close> is an integer nearest to \<open>x\<close>, and a tie is settled by the mode.\<close>

definition nearest :: "RoundingMode \<Rightarrow> rat \<Rightarrow> int \<Rightarrow> bool" where
  "nearest mode x q \<longleftrightarrow>
     2 * \<bar>x - of_int q\<bar> \<le> 1 \<and>
     (2 * \<bar>x - of_int q\<bar> = 1 \<longrightarrow>
        (if mode = RoundingModeHalfAwayFromZero then \<bar>x\<bar> \<le> of_int \<bar>q\<bar> else even q))"

lemma Fields_Validate_iff: "Fields_Validate fs = None \<longleftrightarrow> (\<forall>f \<in> set fs. Field_Validate f = None)"
  by (induction fs) (auto split: option.splits)

lemma Field_Validate_iff:
  "Field_Validate f = None \<longleftrightarrow>
     Field_Validate_head f = None \<and> (\<forall>g \<in> set (FFields f). Field_Validate g = None)"
  by (cases f) (auto simp: Fields_Validate_iff split: option.splits)

lemma schema_ok_Field_Validate: "schema_ok (FFields f) \<Longrightarrow> Field_Validate_head f = None \<Longrightarrow> Field_Validate f = None"
proof (induction f)
  case (MkField n t m d p s r fs)
  have "schema_ok fs" using MkField.prems by simp
  then have "\<forall>g \<in> set fs. Field_Validate_head g = None \<and> schema_ok (FFields g)"
    by (simp add: schema_ok.simps [of fs])
  then have "\<forall>g \<in> set fs. Field_Validate g = None" using MkField.IH by blast
  then show ?case using MkField.prems by (simp add: Fields_Validate_iff)
qed

lemma schema_ok_Nil [simp]: "schema_ok []"
  by (simp add: schema_ok.simps [of "[]"])

lemma schema_ok_Cons [simp]:
  "schema_ok (f # fs) \<longleftrightarrow>
     Field_Validate_head f = None \<and> schema_ok (FFields f) \<and>
     (\<forall>g \<in> set fs. strings_ToLower (FName g) \<noteq> strings_ToLower (FName f)) \<and> schema_ok fs"
  unfolding schema_ok.simps [of "f # fs"] schema_ok.simps [of fs] by (auto simp: image_iff)

lemma validateFieldList_from_iff:
  "validateFieldList_from seen fs = None \<longleftrightarrow>
     schema_ok fs \<and> (\<forall>f \<in> set fs. strings_ToLower (FName f) \<notin> set seen)"
proof (induction seen fs rule: validateFieldList_from.induct)
  case (2 seen n t m d p s r nested rest)
  let ?f = "MkField n t m d p s r nested"
  show ?case
  proof (cases "Field_Validate ?f")
    case None
    then have "Field_Validate_head ?f = None" using Field_Validate_iff [of ?f] by blast
    with None 2 show ?thesis
      by (auto simp del: Field_Validate.simps split: option.splits)
  next
    case (Some e)
    then have "\<not> (schema_ok nested \<and> Field_Validate_head ?f = None)"
      using schema_ok_Field_Validate [of ?f] by (auto simp del: Field_Validate.simps)
    then show ?thesis using Some by (auto simp del: Field_Validate.simps)
  qed
qed simp

lemma validateFieldList_iff: "validateFieldList fs = None \<longleftrightarrow> schema_ok fs"
  by (simp add: validateFieldList_def validateFieldList_from_iff)

lemma CloneFields_id: "CloneFields fs = fs"
  by (induction fs rule: CloneFields.induct) simp_all

section \<open>Decimals\<close>

lemma quo_bounds:
  assumes "0 < d"
  shows "0 \<le> n \<Longrightarrow> 0 \<le> n - quo n d * d \<and> n - quo n d * d < d \<and> 0 \<le> quo n d"
    and "n < 0 \<Longrightarrow> - d < n - quo n d * d \<and> n - quo n d * d \<le> 0 \<and> quo n d \<le> 0"
proof -
  have m: "k - k div d * d = k mod d" for k by (simp add: minus_div_mult_eq_mod)
  show "0 \<le> n \<Longrightarrow> 0 \<le> n - quo n d * d \<and> n - quo n d * d < d \<and> 0 \<le> quo n d"
    using assms m [of n] by (simp add: quo_def pos_imp_zdiv_nonneg_iff)
  assume n: "n < 0"
  then have "n - quo n d * d = - ((- n) mod d)" using m [of "- n"] by (simp add: quo_def)
  moreover have "quo n d \<le> 0" using n assms by (simp add: quo_def pos_imp_zdiv_nonneg_iff)
  ultimately show "- d < n - quo n d * d \<and> n - quo n d * d \<le> 0 \<and> quo n d \<le> 0"
    using assms by simp
qed

lemma round_scaled_int:
  assumes "quotient_of x = (n, d)" and "q = round_scaled mode x"
  shows "2 * \<bar>n - q * d\<bar> \<le> d"
    and "2 * \<bar>n - q * d\<bar> = d \<Longrightarrow>
      (if mode = RoundingModeHalfAwayFromZero then \<bar>n\<bar> \<le> \<bar>q * d\<bar> else even q)"
proof -
  have d: "0 < d" using assms(1) quotient_of_denom_pos by blast
  have sgn: "x < 0 \<longleftrightarrow> n < 0"
    using d quotient_of_div [OF assms(1)] by (simp add: divide_less_0_iff)
  define t where "t = quo n d"
  define r where "r = n - t * d"
  let ?inc = "r \<noteq> 0 \<and>
      (if 2 * \<bar>r\<bar> = d then mode = RoundingModeHalfAwayFromZero \<or> odd t else d < 2 * \<bar>r\<bar>)"
  have q: "q = (if ?inc then (if n < 0 then t - 1 else t + 1) else t)"
    using assms sgn by (simp add: round_scaled_def t_def r_def Let_def)
  have b: "0 \<le> n \<Longrightarrow> 0 \<le> r \<and> r < d" "n < 0 \<Longrightarrow> - d < r \<and> r \<le> 0"
    using quo_bounds [OF d, of n] by (auto simp: t_def r_def)
  have nr: "n = t * d + r" by (simp add: r_def)
  have k: "n - q * d = (if ?inc then (if n < 0 then r + d else r - d) else r)"
    unfolding q r_def by (simp add: algebra_simps)
  show "2 * \<bar>n - q * d\<bar> \<le> d"
    unfolding k using b d by (cases "n < 0") auto
  assume "2 * \<bar>n - q * d\<bar> = d"
  then have tie: "2 * \<bar>r\<bar> = d" "r \<noteq> 0" unfolding k using b d by (cases "n < 0"; auto split: if_splits)+
  show "if mode = RoundingModeHalfAwayFromZero then \<bar>n\<bar> \<le> \<bar>q * d\<bar> else even q"
  proof (cases "mode = RoundingModeHalfAwayFromZero")
    case True
    then have "n - q * d = (if n < 0 then r + d else r - d)" using tie unfolding k by simp
    then show ?thesis using True b d by (cases "n < 0") auto
  next
    case False
    then show ?thesis using tie unfolding q by auto
  qed
qed

lemma round_scaled_nearest: "nearest mode x (round_scaled mode x)"
proof -
  obtain n d where nd: "quotient_of x = (n, d)" by fastforce
  define q where "q = round_scaled mode x"
  have d: "0 < d" using nd quotient_of_denom_pos by blast
  have x: "x = of_int n / of_int d" by (rule quotient_of_div [OF nd])
  have "x - of_int q = of_int (n - q * d) / of_int d" using d by (simp add: x field_simps)
  then have e: "2 * \<bar>x - of_int q\<bar> = of_int (2 * \<bar>n - q * d\<bar>) / of_int d"
    using d by (simp add: abs_divide)
  note r = round_scaled_int [OF nd q_def]
  have "2 * \<bar>x - of_int q\<bar> \<le> 1" 
  proof -
    have "(of_int (2 * \<bar>n - q * d\<bar>) :: rat) \<le> of_int d" using r(1) by (simp only: of_int_le_iff)
    then show ?thesis using d unfolding e by (simp add: divide_le_eq)
  qed
  moreover have "if mode = RoundingModeHalfAwayFromZero then \<bar>x\<bar> \<le> of_int \<bar>q\<bar> else even q"
    if "2 * \<bar>x - of_int q\<bar> = 1"
  proof -
    have "of_int (2 * \<bar>n - q * d\<bar>) = (of_int d :: rat)" using that d unfolding e by simp
    then have "2 * \<bar>n - q * d\<bar> = d" by (simp only: of_int_eq_iff)
    then have c: "if mode = RoundingModeHalfAwayFromZero then \<bar>n\<bar> \<le> \<bar>q * d\<bar> else even q" by (rule r(2))
    have "\<bar>x\<bar> \<le> of_int \<bar>q\<bar>" if "\<bar>n\<bar> \<le> \<bar>q * d\<bar>"
    proof -
      have "(of_int \<bar>n\<bar> :: rat) \<le> of_int \<bar>q * d\<bar>" using that by (simp only: of_int_le_iff)
      then show ?thesis using d by (simp add: x abs_divide divide_le_eq abs_mult)
    qed
    with c show ?thesis by (simp split: if_splits)
  qed
  ultimately show ?thesis unfolding nearest_def q_def by blast
qed

subsection \<open>Printing and reading back\<close>

definition decimal_value :: "string \<Rightarrow> rat option" where
  "decimal_value s = (case decimal_literal s of None \<Rightarrow> None | Some lit \<Rightarrow> Rat_SetString lit)"

lemma digit_not_special:
  "is_digit c \<Longrightarrow> c \<noteq> CHR ''.'' \<and> c \<noteq> CHR ''e'' \<and> c \<noteq> CHR ''E'' \<and> c \<noteq> CHR ''-'' \<and> c \<noteq> CHR ''+''"
  by (auto simp: is_digit_def)

lemma digits_value_zeros [simp]: "digits_value (replicate k CHR ''0'' @ s) = digits_value s"
proof -
  have "foldl (\<lambda>acc c. 10 * acc + digit_val c) 0 (replicate k CHR ''0'') = 0"
    by (induction k) (simp_all add: digit_val_def)
  then show ?thesis by (simp add: digits_value_def)
qed

lemma takeWhile_all_digits:
  assumes "list_all is_digit ip" "\<And>c. is_digit c \<Longrightarrow> P c" "\<not> P x"
  shows "takeWhile P (ip @ x # ys) = ip" "dropWhile P (ip @ x # ys) = x # ys"
  using assms by (induction ip) auto

lemma takeWhile_digits:
  assumes "list_all is_digit ip" "\<And>c. is_digit c \<Longrightarrow> P c"
  shows "takeWhile P ip = ip" "dropWhile P ip = []"
  using assms by (induction ip) auto

lemma split_sign_digits:
  "ip \<noteq> [] \<Longrightarrow> list_all is_digit ip \<Longrightarrow> split_sign (ip @ s) = (False, ip @ s)"
  by (cases ip) (auto simp: split_sign_def dest: digit_not_special)

lemma decimal_literal_digits:
  assumes "ip \<noteq> []" "list_all is_digit ip" "list_all is_digit fp"
  shows "decimal_literal (ip @ CHR ''.'' # fp) = Some (False, ip, fp, False, ''0'')"
    and "decimal_literal (CHR ''-'' # ip @ CHR ''.'' # fp) = Some (True, ip, fp, False, ''0'')"
    and "decimal_literal ip = Some (False, ip, [], False, ''0'')"
    and "decimal_literal (CHR ''-'' # ip) = Some (True, ip, [], False, ''0'')"
proof -
  let ?ne = "\<lambda>c. c \<noteq> CHR ''e'' \<and> c \<noteq> CHR ''E''" and ?np = "\<lambda>c. c \<noteq> CHR ''.''"
  have ne: "\<And>c. is_digit c \<Longrightarrow> ?ne c" and np: "\<And>c. is_digit c \<Longrightarrow> ?np c"
    using digit_not_special by blast+
  have tw: "takeWhile ?ne (ip @ CHR ''.'' # fp) = ip @ CHR ''.'' # fp"
    "dropWhile ?ne (ip @ CHR ''.'' # fp) = []"
    using assms(2,3) ne by (auto simp: list_all_iff intro!: takeWhile_eq_all_conv [THEN iffD2])
  have p1: "takeWhile ?np (ip @ CHR ''.'' # fp) = ip" "dropWhile ?np (ip @ CHR ''.'' # fp) = CHR ''.'' # fp"
    by (rule takeWhile_all_digits [OF assms(2)]; simp add: np)+
  have m1: "mantissa_digits (ip @ CHR ''.'' # fp) = Some (ip, fp)"
    using assms p1 by (simp add: mantissa_digits_def)
  have p2: "takeWhile ?np ip = ip" "dropWhile ?np ip = []"
    by (rule takeWhile_digits [OF assms(2)]; simp add: np)+
  have m2: "mantissa_digits ip = Some (ip, [])"
    using assms by (simp add: mantissa_digits_def p2)
  have tw2: "takeWhile ?ne ip = ip" "dropWhile ?ne ip = []"
    by (rule takeWhile_digits [OF assms(2)]; simp add: ne)+
  have neg: "split_sign (CHR ''-'' # s) = (True, s)" for s by (simp add: split_sign_def)
  have e: "exponent_digits [] = Some (False, ''0'')" by (simp add: exponent_digits_def)
  note s = split_sign_digits [OF assms(1,2)] split_sign_digits [OF assms(1,2), of "[]", simplified]
  show "decimal_literal (ip @ CHR ''.'' # fp) = Some (False, ip, fp, False, ''0'')"
    by (simp add: decimal_literal_def s tw m1 e Let_def)
  show "decimal_literal (CHR ''-'' # ip @ CHR ''.'' # fp) = Some (True, ip, fp, False, ''0'')"
    by (simp add: decimal_literal_def neg tw m1 e Let_def)
  show "decimal_literal ip = Some (False, ip, [], False, ''0'')"
    by (simp add: decimal_literal_def s tw2 m2 e Let_def)
  show "decimal_literal (CHR ''-'' # ip) = Some (True, ip, [], False, ''0'')"
    by (simp add: decimal_literal_def neg tw2 m2 e Let_def)
qed

lemma Rat_SetString_digits:
  assumes "length fp \<le> 1000000" "int (digits_value (ip @ fp)) = \<bar>v\<bar>" "neg = (v < 0)"
  shows "Rat_SetString (neg, ip, fp, False, ''0'') = Some (of_int v / 10 ^ length fp)"
proof -
  have z: "digits_value ''0'' = 0" by (simp add: digits_value_def digit_val_def)
  have p: "pow10 (- int (length fp)) = 1 / 10 ^ length fp" by (simp add: pow10_def)
  show ?thesis
  proof (cases "v = 0")
    case True
    then show ?thesis using assms z by (simp add: Rat_SetString_def Let_def)
  next
    case False
    have "of_int (if neg then - int (digits_value (ip @ fp)) else int (digits_value (ip @ fp))) = (of_int v :: rat)"
      using assms by simp
    then show ?thesis using assms False z p by (simp add: Rat_SetString_def Let_def)
  qed
qed

lemma decimal_value_formatScaledDecimal:
  assumes "0 \<le> scale" "scale \<le> 1000000"
  shows "decimal_value (formatScaledDecimal v scale) = Some (of_int v / 10 ^ nat scale)"
proof -
  let ?ds = "format_nat (nat \<bar>v\<bar>)"
  have dv: "int (digits_value ?ds) = \<bar>v\<bar>" by simp
  show ?thesis
  proof (cases "scale > 0")
    case False
    then have s: "scale = 0" using assms by simp
    show ?thesis using decimal_literal_digits(3,4) [of ?ds "[]"] Rat_SetString_digits [of "[]" ?ds v]
      by (cases "v < 0") (simp_all add: s formatScaledDecimal_def decimal_value_def Let_def)
  next
    case True
    define padded where "padded = (if length ?ds < nat scale + 1
      then replicate (nat scale + 1 - length ?ds) CHR ''0'' @ ?ds else ?ds)"
    define pt where "pt = length padded - nat scale"
    have len: "nat scale + 1 \<le> length padded" by (simp add: padded_def)
    have dig: "list_all is_digit padded" by (simp add: padded_def list_all_iff is_digit_def) (auto simp: list_all_iff [symmetric] is_digit_def [symmetric])
    have val: "int (digits_value padded) = \<bar>v\<bar>" by (simp add: padded_def)
    have fp: "length (drop pt padded) = nat scale" "take pt padded \<noteq> []"
      using len by (auto simp: pt_def)
    have d: "list_all is_digit (take pt padded)" "list_all is_digit (drop pt padded)"
      using dig by (auto simp: list_all_iff dest: in_set_takeD in_set_dropD)
    have f: "formatScaledDecimal v scale =
        (if v < 0 then CHR ''-'' # take pt padded @ CHR ''.'' # drop pt padded
         else take pt padded @ CHR ''.'' # drop pt padded)"
      using True by (simp add: formatScaledDecimal_def Let_def padded_def pt_def)
    show ?thesis
      using Rat_SetString_digits [of "drop pt padded" "take pt padded" v "v < 0"] fp assms val
        decimal_literal_digits(1,2) [OF fp(2) d]
      by (auto simp: f decimal_value_def)
  qed
qed

lemma round_scaled_of_int: "round_scaled mode (of_int v) = v"
  by (simp add: round_scaled_def quo_def)

lemma format_nat_length: "0 < p \<Longrightarrow> length (format_nat n) \<le> p \<longleftrightarrow> n < 10 ^ p"
proof (induction n arbitrary: p rule: format_nat.induct)
  case (1 n)
  show ?case
  proof (cases "n < 10")
    case True
    then have "n < 10 ^ p" using 1(2) less_le_trans [of n 10 "10 ^ p"] self_le_power [of "10::nat" p] by simp
    then show ?thesis using True 1(2) by (simp add: format_nat.simps [of n])
  next
    case False
    obtain k where k: "p = Suc k" using 1(2) gr0_conv_Suc by blast
    show ?thesis
    proof (cases k)
      case 0
      then show ?thesis using False k by (simp add: format_nat.simps [of n])
    next
      case (Suc j)
      have "n div 10 < 10 ^ k \<longleftrightarrow> n < 10 ^ p" by (simp add: k div_less_iff_less_mult mult.commute)
      then show ?thesis using 1(1) [OF False, of k] False Suc k by (simp add: format_nat.simps [of n])
    qed
  qed
qed

lemma EffectiveDecimalParameters_bounds:
  assumes "EffectiveDecimalParameters f = Inr p"
  shows "1 \<le> DpPrecision p" "DpPrecision p \<le> 38" "0 \<le> DpScale p" "DpScale p \<le> DpPrecision p"
  using assms
  by (auto simp: EffectiveDecimalParameters_def SparkDecimalMaxPrecision_def Let_def
      split: if_splits option.splits)

lemma NormalizeDecimalValue_cases:
  assumes "NormalizeDecimalValue f s = Inr t"
  obtains p mode x where "EffectiveDecimalParameters f = Inr p" "EffectiveRoundingMode f = Inr mode"
    "decimal_value s = Some x"
    "t = formatScaledDecimal (round_scaled mode (x * 10 ^ nat (DpScale p))) (DpScale p)"
    "int (length (format_nat (nat \<bar>round_scaled mode (x * 10 ^ nat (DpScale p))\<bar>))) \<le> DpPrecision p"
  using assms
  by (auto simp: NormalizeDecimalValue_def decimal_value_def Let_def
      split: sum.splits option.splits if_splits)

text \<open>
  C13. Whenever \<open>NormalizeDecimalValue\<close> accepts a literal, the string it returns denotes exactly
  \<open>q / 10^scale\<close> for the integer \<open>q\<close> nearest to \<open>x * 10^scale\<close> (\<open>x\<close> the value of the literal), ties
  settled by the field's effective rounding mode, and \<open>q\<close> fits in the field's precision.
\<close>

theorem NormalizeDecimalValue_correct:
  assumes "NormalizeDecimalValue f s = Inr t"
  shows "\<exists>p mode x q. EffectiveDecimalParameters f = Inr p \<and> EffectiveRoundingMode f = Inr mode
      \<and> decimal_value s = Some x \<and> nearest mode (x * 10 ^ nat (DpScale p)) q
      \<and> \<bar>q\<bar> < 10 ^ nat (DpPrecision p) \<and> decimal_value t = Some (of_int q / 10 ^ nat (DpScale p))"
  using assms
proof (rule NormalizeDecimalValue_cases)
  fix p mode x
  assume p: "EffectiveDecimalParameters f = Inr p" and m: "EffectiveRoundingMode f = Inr mode"
    and x: "decimal_value s = Some x"
    and t: "t = formatScaledDecimal (round_scaled mode (x * 10 ^ nat (DpScale p))) (DpScale p)"
    and l: "int (length (format_nat (nat \<bar>round_scaled mode (x * 10 ^ nat (DpScale p))\<bar>))) \<le> DpPrecision p"
  define q where "q = round_scaled mode (x * 10 ^ nat (DpScale p))"
  note b = EffectiveDecimalParameters_bounds [OF p]
  have "length (format_nat (nat \<bar>q\<bar>)) \<le> nat (DpPrecision p)" using l unfolding q_def by linarith
  then have "nat \<bar>q\<bar> < 10 ^ nat (DpPrecision p)"
    using b(1) by (simp only: format_nat_length)
  then have "\<bar>q\<bar> < 10 ^ nat (DpPrecision p)" by (simp add: nat_less_iff)
  moreover have "decimal_value t = Some (of_int q / 10 ^ nat (DpScale p))"
    using decimal_value_formatScaledDecimal [of "DpScale p" q] b t by (simp add: q_def)
  moreover have "nearest mode (x * 10 ^ nat (DpScale p)) q" unfolding q_def by (rule round_scaled_nearest)
  ultimately show ?thesis using p m x by blast
qed

definition sample_numeric :: Field where
  "sample_numeric = MkField ''amount'' ''NUMERIC'' [] [] (Some 4) (Some 1) RoundingModeHalfEven []"

lemma sample_normalize: "NormalizeDecimalValue sample_numeric ''-2.25'' = Inr ''-2.2''"
  by code_simp

theorem NormalizeDecimalValue_correct_witness:
  "\<exists>p mode x q. EffectiveDecimalParameters sample_numeric = Inr p
      \<and> EffectiveRoundingMode sample_numeric = Inr mode
      \<and> decimal_value ''-2.25'' = Some x \<and> nearest mode (x * 10 ^ nat (DpScale p)) q
      \<and> \<bar>q\<bar> < 10 ^ nat (DpPrecision p) \<and> decimal_value ''-2.2'' = Some (of_int q / 10 ^ nat (DpScale p))"
  using NormalizeDecimalValue_correct [OF sample_normalize] .

text \<open>A normalised decimal is a fixed point of the normalisation of its field.\<close>

theorem NormalizeDecimalValue_idempotent:
  assumes "NormalizeDecimalValue f s = Inr t"
  shows "NormalizeDecimalValue f t = Inr t"
  using assms
proof (rule NormalizeDecimalValue_cases)
  fix p mode x
  assume p: "EffectiveDecimalParameters f = Inr p" and m: "EffectiveRoundingMode f = Inr mode"
    and t: "t = formatScaledDecimal (round_scaled mode (x * 10 ^ nat (DpScale p))) (DpScale p)"
    and l: "int (length (format_nat (nat \<bar>round_scaled mode (x * 10 ^ nat (DpScale p))\<bar>))) \<le> DpPrecision p"
  define q where "q = round_scaled mode (x * 10 ^ nat (DpScale p))"
  note b = EffectiveDecimalParameters_bounds [OF p]
  have "decimal_value t = Some (of_int q / 10 ^ nat (DpScale p))"
    using decimal_value_formatScaledDecimal [of "DpScale p" q] b t by (simp add: q_def)
  moreover have "round_scaled mode (of_int q / 10 ^ nat (DpScale p) * 10 ^ nat (DpScale p)) = q"
    by (simp add: round_scaled_of_int)
  ultimately show ?thesis using p m t l
    by (auto simp: NormalizeDecimalValue_def decimal_value_def Let_def q_def split: option.splits)
qed

theorem NormalizeDecimalValue_idempotent_witness:
  "NormalizeDecimalValue sample_numeric ''-2.2'' = Inr ''-2.2''"
  using NormalizeDecimalValue_idempotent [OF sample_normalize] .

end
