(* ===== verification/Schema_Evolution.thy ===== *)
theory Schema_Evolution
  imports Domain_Catalog
begin

text \<open>
  \<open>internal/domain/schema_evolution.go\<close>: the additive schema rules of \<open>tables.patch\<close> and
  \<open>ALTER TABLE\<close>. The main lemma shows that the additions the validator returns are exactly what
  turns the current schema into the proposed one, up to descriptions and type aliases.
\<close>

record SchemaAddition =
  SaPath :: "string list"
  SaField :: Field

definition appendPath :: "string list \<Rightarrow> string \<Rightarrow> string list" where
  "appendPath parent name = parent @ [name]"

definition canonicalFieldMode :: "string \<Rightarrow> string" where
  "canonicalFieldMode mode = (if mode = [] then ''NULLABLE'' else strings_ToUpper mode)"

definition canonicalFieldType :: "string \<Rightarrow> string" where
  "canonicalFieldType fieldType =
     (let t = strings_ToUpper fieldType in
      if t = ''BOOL'' then ''BOOLEAN''
      else if t = ''INTEGER'' then ''INT64''
      else if t = ''FLOAT'' then ''FLOAT64''
      else if t = ''STRUCT'' then ''RECORD''
      else t)"

definition isRecord :: "Field \<Rightarrow> bool" where
  "isRecord f \<longleftrightarrow> canonicalFieldType (FType f) = ''RECORD''"

definition sameOptionalInt64 :: "int option \<Rightarrow> int option \<Rightarrow> bool" where
  "sameOptionalInt64 left right =
     (case left of None \<Rightarrow> right = None | Some l \<Rightarrow> (case right of None \<Rightarrow> False | Some r \<Rightarrow> l = r))"

fun validateAddedField :: "Field \<Rightarrow> string list \<Rightarrow> go_error option"
and validateAddedFields :: "Field list \<Rightarrow> string list \<Rightarrow> go_error option" where
  "validateAddedField (MkField n t m d p s r fs) path =
     (let mode = canonicalFieldMode m in
      if mode \<noteq> ''NULLABLE'' \<and> mode \<noteq> ''REPEATED'' then Some [ErrInvalid]
      else validateAddedFields fs path)"
| "validateAddedFields [] path = None"
| "validateAddedFields (f # fs) path =
     (case validateAddedField f (appendPath path (FName f)) of
        Some e \<Rightarrow> Some e | None \<Rightarrow> validateAddedFields fs path)"

text \<open>The loop over the fields beyond the current ones.\<close>

fun schema_added :: "Field list \<Rightarrow> string list \<Rightarrow> go_error + SchemaAddition list" where
  "schema_added [] parent = Inr []"
| "schema_added (added # rest) parent =
     (case validateAddedField added (appendPath parent (FName added)) of
        Some e \<Rightarrow> Inl e
      | None \<Rightarrow> (case schema_added rest parent of
          Inl e \<Rightarrow> Inl e
        | Inr as \<Rightarrow> Inr (\<lparr>SaPath = appendPath parent (FName added), SaField = added\<rparr> # as)))"

definition same_field_shape :: "Field \<Rightarrow> Field \<Rightarrow> bool" where
  "same_field_shape existing candidate \<longleftrightarrow>
     FName candidate = FName existing
     \<and> canonicalFieldType (FType candidate) = canonicalFieldType (FType existing)
     \<and> sameOptionalInt64 (FPrecision candidate) (FPrecision existing)
     \<and> sameOptionalInt64 (FScale candidate) (FScale existing)
     \<and> FRoundingMode candidate = FRoundingMode existing
     \<and> canonicalFieldMode (FMode candidate) = canonicalFieldMode (FMode existing)"

text \<open>
  \<open>validateSchemaLevel\<close>; \<open>schema_level_loop\<close> is its loop over the current fields, followed by the
  loop over the added ones. Every error of the level is \<open>ErrInvalid\<close>, so the order of the
  comparisons of one field is not observable.
\<close>

fun validateSchemaLevel :: "Field list \<Rightarrow> Field list \<Rightarrow> string list \<Rightarrow> go_error + SchemaAddition list"
and schema_level_loop :: "Field list \<Rightarrow> Field list \<Rightarrow> string list \<Rightarrow> go_error + SchemaAddition list" where
  "validateSchemaLevel current proposed parent =
     (if length proposed < length current then Inl [ErrInvalid]
      else schema_level_loop current proposed parent)"
| "schema_level_loop [] proposed parent = schema_added proposed parent"
| "schema_level_loop (existing # es) [] parent = Inl [ErrInvalid]"
| "schema_level_loop (MkField n t m d p s r fs # es) (candidate # cs) parent =
     (let existing = MkField n t m d p s r fs; path = appendPath parent n in
      if \<not> same_field_shape existing candidate then Inl [ErrInvalid]
      else
        (case (if isRecord existing
               then validateSchemaLevel fs (FFields candidate) path
               else if FFields candidate \<noteq> [] then Inl [ErrInvalid] else Inr []) of
           Inl e \<Rightarrow> Inl e
         | Inr nested \<Rightarrow>
             (case schema_level_loop es cs parent of Inl e \<Rightarrow> Inl e | Inr rest \<Rightarrow> Inr (nested @ rest))))"

definition ValidateSchemaEvolution :: "Field list \<Rightarrow> Field list \<Rightarrow> go_error + SchemaAddition list" where
  "ValidateSchemaEvolution current proposed =
     (case validateFieldList proposed of
        Some e \<Rightarrow> Inl e | None \<Rightarrow> validateSchemaLevel current proposed [])"

section \<open>What the additions mean\<close>

text \<open>A field up to its description and the aliases of its type and mode.\<close>

fun canonical_field :: "Field \<Rightarrow> Field" where
  "canonical_field (MkField n t m d p s r fs) =
     MkField n (canonicalFieldType t) (canonicalFieldMode m) [] p s r
       (if canonicalFieldType t = ''RECORD'' then map canonical_field fs else [])"

definition with_fields :: "Field \<Rightarrow> Field list \<Rightarrow> Field" where
  "with_fields f fs = MkField (FName f) (FType f) (FMode f) (FDescription f) (FPrecision f)
     (FScale f) (FRoundingMode f) fs"

text \<open>Adding a field at the end of the record its path names.\<close>

fun add_at :: "string list \<Rightarrow> Field \<Rightarrow> Field list \<Rightarrow> Field list" where
  "add_at [] f fs = fs"
| "add_at [n] f fs = fs @ [f]"
| "add_at (n # p) f fs = map (\<lambda>g. if FName g = n then with_fields g (add_at p f (FFields g)) else g) fs"

definition apply_addition :: "Field list \<Rightarrow> SchemaAddition \<Rightarrow> Field list" where
  "apply_addition fs a = add_at (SaPath a) (canonical_field (SaField a)) fs"

definition apply_additions :: "Field list \<Rightarrow> SchemaAddition list \<Rightarrow> Field list" where
  "apply_additions fs as = foldl apply_addition fs as"

definition prefix_path :: "string list \<Rightarrow> SchemaAddition \<Rightarrow> SchemaAddition" where
  "prefix_path parent a = a\<lparr>SaPath := parent @ SaPath a\<rparr>"

fun optional_field :: "Field \<Rightarrow> bool" where
  "optional_field (MkField n t m d p s r fs) \<longleftrightarrow>
     canonicalFieldMode m \<in> {''NULLABLE'', ''REPEATED''} \<and> list_all optional_field fs"

lemma sameOptionalInt64_iff [simp]: "sameOptionalInt64 a b \<longleftrightarrow> a = b"
  by (auto simp: sameOptionalInt64_def split: option.splits)

lemma FName_canonical_field [simp]: "FName (canonical_field f) = FName f"
  by (cases f) simp

lemma validateAddedField_eq:
  "validateAddedField f path = (if optional_field f then None else Some [ErrInvalid])"
  "validateAddedFields fs path = (if list_all optional_field fs then None else Some [ErrInvalid])"
  by (induction f path and fs path rule: validateAddedField_validateAddedFields.induct)
     (simp_all add: Let_def)

text \<open>The paths of a level are relative to its parent.\<close>

lemma schema_added_prefix:
  "schema_added fs (pre @ parent) = map_sum id (map (prefix_path pre)) (schema_added fs parent)"
  by (induction fs parent rule: schema_added.induct)
     (simp_all add: validateAddedField_eq appendPath_def prefix_path_def split: sum.splits)

lemma schema_level_prefix:
  "validateSchemaLevel cs ps (pre @ parent)
     = map_sum id (map (prefix_path pre)) (validateSchemaLevel cs ps parent)"
  "schema_level_loop cs ps (pre @ parent)
     = map_sum id (map (prefix_path pre)) (schema_level_loop cs ps parent)"
proof (induction cs ps parent and cs ps parent rule: validateSchemaLevel_schema_level_loop.induct)
  case (4 n t m d p s r fs es candidate cs parent)
  then show ?case
    by (auto simp: Let_def appendPath_def simp del: validateSchemaLevel.simps split: sum.splits)
qed (simp_all add: schema_added_prefix id_def)

lemma with_fields_simps [simp]:
  "FName (with_fields f fs) = FName f" "FFields (with_fields f fs) = fs"
  "with_fields (with_fields f fs) gs = with_fields f gs" "with_fields f (FFields f) = f"
  by (cases f; simp add: with_fields_def)+

lemma apply_additions_simps [simp]:
  "apply_additions fs [] = fs"
  "apply_additions fs (a # as) = apply_additions (apply_addition fs a) as"
  "apply_additions fs (as @ bs) = apply_additions (apply_additions fs as) bs"
  by (simp_all add: apply_additions_def)

text \<open>An addition that does not go through the head field leaves it alone.\<close>

lemma apply_additions_skip:
  assumes "\<forall>a \<in> set as. \<exists>x. SaPath a = [x] \<or> (\<exists>y p. SaPath a = x # y # p \<and> x \<noteq> FName f)"
  shows "apply_additions (f # fs) as = f # apply_additions fs as"
  using assms
proof (induction as arbitrary: fs)
  case (Cons a as)
  then have "apply_addition (f # fs) a = f # apply_addition fs a"
    by (auto simp: apply_addition_def)
  with Cons show ?case by simp
qed simp

text \<open>Additions below the head field act on its nested fields only.\<close>

lemma apply_additions_nested:
  assumes "\<forall>a \<in> set as. SaPath a \<noteq> []" "\<forall>g \<in> set fs. FName g \<noteq> FName f"
  shows "apply_additions (f # fs) (map (prefix_path [FName f]) as)
    = with_fields f (apply_additions (FFields f) as) # fs"
  using assms
proof (induction as arbitrary: f)
  case (Cons a as)
  then obtain y p where a: "SaPath a = y # p" by (cases "SaPath a") auto
  have "apply_addition (f # fs) (prefix_path [FName f] a)
      = with_fields f (apply_addition (FFields f) a) # fs"
    using Cons.prems(2) a by (simp add: apply_addition_def prefix_path_def) (rule map_idI, simp)
  with Cons.IH [of "with_fields f (apply_addition (FFields f) a)"] Cons.prems show ?case
    by simp
qed simp

lemma schema_added_paths:
  "schema_added fs [] = Inr as \<Longrightarrow>
     as = map (\<lambda>f. \<lparr>SaPath = [FName f], SaField = f\<rparr>) fs \<and> list_all optional_field fs"
  by (induction fs arbitrary: as)
     (auto simp: appendPath_def validateAddedField_eq split: sum.splits if_splits)

lemma apply_added: "apply_additions gs (map (\<lambda>f. \<lparr>SaPath = [FName f], SaField = f\<rparr>) fs) = gs @ map canonical_field fs"
  by (induction fs arbitrary: gs) (simp_all add: apply_addition_def)

lemma schema_level_loop_ConsD:
  assumes "schema_level_loop (e # es) ps [] = Inr as"
  obtains c cs nested rest where "ps = c # cs" "same_field_shape e c"
    "as = map (prefix_path [FName e]) nested @ rest" "schema_level_loop es cs [] = Inr rest"
    "if isRecord e then validateSchemaLevel (FFields e) (FFields c) [] = Inr nested
     else FFields c = [] \<and> nested = []"
proof -
  obtain n t m d p s r fs where e: "e = MkField n t m d p s r fs" by (cases e)
  obtain c cs where ps: "ps = c # cs" using assms by (cases ps) (auto simp: e)
  note np = schema_level_prefix(1) [of fs "FFields c" "[n]" "[]", unfolded append_Nil2]
  show ?thesis
  proof (cases "isRecord e")
    case True
    then obtain nested rest where "same_field_shape e c" "schema_level_loop es cs [] = Inr rest"
      "validateSchemaLevel fs (FFields c) [] = Inr nested" "as = map (prefix_path [n]) nested @ rest"
      using assms
      by (cases "validateSchemaLevel fs (FFields c) []")
         (auto simp: e ps Let_def appendPath_def np simp del: validateSchemaLevel.simps
            split: sum.splits if_splits)
    then show ?thesis using that [of c cs nested rest] True ps by (simp add: e del: validateSchemaLevel.simps)
  next
    case False
    then show ?thesis using assms that [of c cs "[]" as]
      by (auto simp: e ps Let_def simp del: validateSchemaLevel.simps split: sum.splits if_splits)
  qed
qed

lemma schema_level_loop_paths:
  "schema_level_loop cs ps [] = Inr as \<Longrightarrow>
     \<forall>a \<in> set as. SaPath a \<noteq> [] \<and> (length (SaPath a) = 1 \<or> hd (SaPath a) \<in> FName ` set cs)"
proof (induction "size_list size cs" arbitrary: cs ps as rule: less_induct)
  case less
  show ?case
  proof (cases cs)
    case Nil
    then show ?thesis using less.prems schema_added_paths [of ps as] by auto
  next
    case (Cons e es)
    from less.prems [unfolded Cons] show ?thesis
    proof (rule schema_level_loop_ConsD)
      fix c cs' nested rest
      assume as: "as = map (prefix_path [FName e]) nested @ rest"
        and rest: "schema_level_loop es cs' [] = Inr rest"
      have "\<forall>a \<in> set rest. SaPath a \<noteq> [] \<and> (length (SaPath a) = 1 \<or> hd (SaPath a) \<in> FName ` set es)"
        using less.hyps [OF _ rest] Cons by simp
      then show ?thesis unfolding as Cons by (auto simp: prefix_path_def)
    qed
  qed
qed

lemma schema_level_loop_names:
  "schema_level_loop cs ps [] = Inr as \<Longrightarrow> FName ` set cs \<subseteq> FName ` set ps"
proof (induction cs arbitrary: ps as)
  case (Cons e es)
  from Cons.prems show ?case
  proof (rule schema_level_loop_ConsD)
    fix c cs nested rest
    assume "ps = c # cs" "same_field_shape e c" "schema_level_loop es cs [] = Inr rest"
    then show ?thesis using Cons.IH [of cs rest] by (simp add: same_field_shape_def subset_insertI2)
  qed
qed simp

lemma canonical_same_shape:
  "same_field_shape e c \<Longrightarrow>
     canonical_field c = with_fields (canonical_field e) (if isRecord e then map canonical_field (FFields c) else [])"
  by (cases e; cases c) (auto simp: same_field_shape_def isRecord_def with_fields_def)

lemma FFields_canonical: "FFields (canonical_field e) = (if isRecord e then map canonical_field (FFields e) else [])"
  by (cases e) (simp add: isRecord_def)

lemma apply_schema_level_loop:
  "schema_level_loop cs ps [] = Inr as \<Longrightarrow> schema_ok ps \<Longrightarrow>
     map canonical_field ps = apply_additions (map canonical_field cs) as"
proof (induction "size_list size cs" arbitrary: cs ps as rule: less_induct)
  case less
  show ?case
  proof (cases cs)
    case Nil
    then show ?thesis using less.prems schema_added_paths [of ps as] apply_added [of "[]" ps] by auto
  next
    case (Cons e es)
    from less.prems(1) [unfolded Cons] show ?thesis
    proof (rule schema_level_loop_ConsD)
      fix c cs' nested rest
      assume ps: "ps = c # cs'" and shape: "same_field_shape e c"
        and as: "as = map (prefix_path [FName e]) nested @ rest"
        and rest: "schema_level_loop es cs' [] = Inr rest"
        and nested: "if isRecord e then validateSchemaLevel (FFields e) (FFields c) [] = Inr nested
          else FFields c = [] \<and> nested = []"
      have ok: "schema_ok (FFields c)" "schema_ok cs'" using less.prems(2) ps by auto
      have tl: "map canonical_field cs' = apply_additions (map canonical_field es) rest"
        using less.hyps [OF _ rest ok(2)] Cons by simp
      have hd: "canonical_field c = with_fields (canonical_field e) (apply_additions (FFields (canonical_field e)) nested)"
      proof (cases "isRecord e")
        case True
        have "size_list size (FFields e) < size_list size cs" using Cons by (cases e) simp
        moreover have "schema_level_loop (FFields e) (FFields c) [] = Inr nested"
          using nested True by (simp split: if_splits)
        ultimately have "map canonical_field (FFields c) = apply_additions (map canonical_field (FFields e)) nested"
          using less.hyps ok(1) by blast
        then show ?thesis using canonical_same_shape [OF shape] True by (simp add: FFields_canonical)
      qed (use nested canonical_same_shape [OF shape] in \<open>simp add: FFields_canonical\<close>)
      have ne: "FName e \<notin> FName ` set es"
      proof
        assume "FName e \<in> FName ` set es"
        then obtain g where "g \<in> set cs'" "FName g = FName c"
          using schema_level_loop_names [OF rest] shape by (force simp: same_field_shape_def)
        then show False using less.prems(2) ps by force
      qed
      have np: "\<forall>a \<in> set nested. SaPath a \<noteq> []"
        using nested schema_level_loop_paths [of "FFields e" "FFields c" nested]
        by (auto split: if_splits)
      have "\<forall>g \<in> set (map canonical_field es). FName g \<noteq> FName (canonical_field e)"
        using ne by (metis (no_types, lifting) FName_canonical_field image_eqI imageE set_map)
      from apply_additions_nested [OF np this]
      have "apply_additions (map canonical_field cs) as
          = apply_additions (canonical_field c # map canonical_field es) rest"
        by (simp add: Cons as hd)
      also have "\<dots> = canonical_field c # apply_additions (map canonical_field es) rest"
      proof (rule apply_additions_skip, rule ballI)
        fix a assume "a \<in> set rest"
        then have p: "SaPath a \<noteq> []" "length (SaPath a) = 1 \<or> hd (SaPath a) \<in> FName ` set es"
          using schema_level_loop_paths [OF rest] by auto
        have c: "FName (canonical_field c) = FName e" using shape by (simp add: same_field_shape_def)
        obtain x q where x: "SaPath a = x # q" using p(1) by (cases "SaPath a") auto
        have "q = [] \<or> x \<noteq> FName e" using p(2) ne x by (cases "x = FName e") simp_all
        then show "\<exists>x. SaPath a = [x] \<or> (\<exists>y p. SaPath a = x # y # p \<and> x \<noteq> FName (canonical_field c))"
          using x c by (cases q) simp_all
      qed
      finally show ?thesis by (simp add: ps tl)
    qed
  qed
qed

lemma schema_level_loop_optional:
  "schema_level_loop cs ps [] = Inr as \<Longrightarrow> \<forall>a \<in> set as. optional_field (SaField a)"
proof (induction "size_list size cs" arbitrary: cs ps as rule: less_induct)
  case less
  show ?case
  proof (cases cs)
    case Nil
    then show ?thesis using less.prems schema_added_paths [of ps as] by (auto simp: list_all_iff)
  next
    case (Cons e es)
    from less.prems [unfolded Cons] show ?thesis
    proof (rule schema_level_loop_ConsD)
      fix c cs' nested rest
      assume as: "as = map (prefix_path [FName e]) nested @ rest"
        and rest: "schema_level_loop es cs' [] = Inr rest"
        and nested: "if isRecord e then validateSchemaLevel (FFields e) (FFields c) [] = Inr nested
          else FFields c = [] \<and> nested = []"
      have "size_list size (FFields e) < size_list size cs" using Cons by (cases e) simp
      then have "\<forall>a \<in> set nested. optional_field (SaField a)"
        using less.hyps [of "FFields e" "FFields c" nested] nested by (auto split: if_splits)
      moreover have "\<forall>a \<in> set rest. optional_field (SaField a)"
        using less.hyps [OF _ rest] Cons by simp
      ultimately show ?thesis unfolding as by (auto simp: prefix_path_def)
    qed
  qed
qed


definition sample_current :: "Field list" where
  "sample_current =
     [MkField ''id'' ''INTEGER'' ''REQUIRED'' [] None None [] [],
      MkField ''s'' ''STRUCT'' [] [] None None [] [MkField ''a'' ''STRING'' [] [] None None [] []]]"

definition sample_proposed :: "Field list" where
  "sample_proposed =
     [MkField ''id'' ''INT64'' ''REQUIRED'' ''key'' None None [] [],
      MkField ''s'' ''RECORD'' ''NULLABLE'' [] None None []
        [MkField ''a'' ''STRING'' [] [] None None [] [], MkField ''b'' ''BOOL'' ''REPEATED'' [] None None [] []],
      MkField ''t'' ''DATE'' [] [] None None [] []]"

definition sample_additions :: "SchemaAddition list" where
  "sample_additions =
     [\<lparr>SaPath = [''s'', ''b''], SaField = MkField ''b'' ''BOOL'' ''REPEATED'' [] None None [] []\<rparr>,
      \<lparr>SaPath = [''t''], SaField = MkField ''t'' ''DATE'' [] [] None None [] []\<rparr>]"

lemma sample_evolution: "ValidateSchemaEvolution sample_current sample_proposed = Inr sample_additions"
  by code_simp


end
