(* ===== verification/Write_Domain.thy ===== *)
theory Write_Domain
  imports Schema_Evolution Sha256
begin

text \<open>
  \<open>internal/storagewrite/domain\<close>: resource names, write streams, the payload-free ledger records and
  the error values of the Storage Write API. The lemmas are the round trip of table names and the
  canonicalisation of stream names, which makes both spellings of a default stream share one ledger.
\<close>

section \<open>Resource names\<close>

record TableReference =
  ProjectID :: string
  DatasetID :: string
  TableID :: string

definition TableReference_Name :: "TableReference \<Rightarrow> string" where
  "TableReference_Name r =
     ''projects/'' @ ProjectID r @ ''/datasets/'' @ DatasetID r @ ''/tables/'' @ TableID r"

text \<open>\<open>resourceSegmentPattern\<close> is \<open>^[^/]+$\<close>.\<close>

definition resourceSegmentPattern :: "string \<Rightarrow> bool" where
  "resourceSegmentPattern s \<longleftrightarrow> s \<noteq> [] \<and> CHR ''/'' \<notin> set s"

definition segment_ok :: "string \<Rightarrow> bool" where
  "segment_ok s \<longleftrightarrow> resourceSegmentPattern s \<and> s \<noteq> ''.'' \<and> s \<noteq> ''..''"

definition ParseTableName :: "string \<Rightarrow> go_error + TableReference" where
  "ParseTableName name =
     (case strings_Split (CHR ''/'') name of
        [p0, p1, p2, p3, p4, p5] \<Rightarrow>
          (if p0 \<noteq> ''projects'' \<or> p2 \<noteq> ''datasets'' \<or> p4 \<noteq> ''tables''
           then Inl (errors_New ''invalid table resource'')
           else if \<not> list_all segment_ok [p1, p3, p5]
           then Inl (errors_New ''invalid table resource segment'')
           else Inr \<lparr>ProjectID = p1, DatasetID = p3, TableID = p5\<rparr>)
      | _ \<Rightarrow> Inl (errors_New ''invalid table resource''))"

definition ParseStreamName :: "string \<Rightarrow> go_error + TableReference \<times> string \<times> bool" where
  "ParseStreamName name =
     (if strings_HasSuffix name ''/_default'' then
        (let prefix = strings_TrimSuffix (strings_TrimSuffix name ''/_default'') ''/streams'' in
         case ParseTableName prefix of
           Inl e \<Rightarrow> Inl e
         | Inr table \<Rightarrow> Inr (table, TableReference_Name table @ ''/streams/_default'', True))
      else
        (let parts = strings_Split (CHR ''/'') name in
         if length parts \<noteq> 8 \<or> parts ! 6 \<noteq> ''streams'' \<or> \<not> resourceSegmentPattern (parts ! 7)
         then Inl (errors_New ''invalid write stream resource'')
         else case ParseTableName (strings_Join (take 6 parts) ''/'') of
           Inl e \<Rightarrow> Inl e
         | Inr table \<Rightarrow> Inr (table, name, False)))"

section \<open>Streams and requests\<close>

datatype StreamType = StreamTypeDefault | StreamTypePending | StreamTypeOther string

datatype StreamState = StreamStateOpen | StreamStateFinalized | StreamStateCommitted

type_synonym TableSchema = "Field list"

record WriteStream =
  WsName :: string
  WsParent :: TableReference
  WsType :: StreamType
  WsState :: StreamState
  WsCreateTime :: time
  WsCommitTime :: "time option"
  WsLocation :: string
  WsSchema :: TableSchema
  WsRowCount :: int
  WsNextOffset :: int
  WsSchemaFingerprint :: string
  WsLastActivity :: time

record CreateStreamRequest =
  CsParent :: TableReference
  CsType :: StreamType

record AppendRequest =
  ArStreamName :: string
  ArOffset :: "int option"
  ArDescriptor :: string
  ArRows :: "string list"
  ArPayloadBytes :: int
  ArWireBytes :: int
  ArSchemaFingerprint :: string
  ArPayloadDigest :: string
  ArTraceID :: string

record AppendResult =
  ReStreamName :: string
  ReStartOffset :: int
  ReHasOffset :: bool
  ReRowCount :: int

section \<open>Ledger records\<close>

datatype OperationKind = OperationNone | OperationAppend | OperationCommit | OperationOther string

datatype OperationPhase = OperationPhaseNone | OperationPhasePrepared | OperationPhaseUnresolved

datatype CleanupPhase = CleanupActive | CleanupPending

datatype ReceiptPhase = ReceiptPrepared | ReceiptUnresolved | ReceiptApplied

datatype CommitPhase = CommitPrepared | CommitUnresolved | CommitApplied | CommitAborted

record StreamRecord =
  SrStream :: WriteStream
  SrOperation :: OperationKind
  SrOperationPhase :: OperationPhase
  SrOperationToken :: string
  SrCleanupPhase :: CleanupPhase
  SrCleanupAttempts :: nat
  SrRevision :: int

record AppendReceipt =
  RcStreamName :: string
  RcStartOffset :: int
  RcRowCount :: int
  RcSchemaFingerprint :: string
  RcPayloadDigest :: string
  RcPhase :: ReceiptPhase
  RcCreatedAt :: time
  RcUpdatedAt :: time

record CommitMember =
  CmStreamName :: string
  CmExpectedRowCount :: int

record CommitGroup =
  CgID :: string
  CgParent :: TableReference
  CgMembers :: "CommitMember list"
  CgExpectedRowCount :: int
  CgPhase :: CommitPhase
  CgCreatedAt :: time
  CgUpdatedAt :: time
  CgCommitTime :: "time option"

record StartupSnapshot =
  SnStreams :: "StreamRecord list"
  SnReceipts :: "AppendReceipt list"
  SnCommitGroups :: "CommitGroup list"

section \<open>Errors\<close>

datatype ErrorCode =
    ErrorInvalidArgument | ErrorNotFound | ErrorFailedPrecondition | ErrorResourceExhausted
  | ErrorCanceled | ErrorDeadlineExceeded | ErrorAlreadyExists | ErrorOutOfRange
  | ErrorUnimplemented | ErrorInternal

text \<open>The \<open>error\<close> a service call returns: a \<open>*domain.Error\<close>, or an error passed through as it is.\<close>

datatype service_error = NewError (error_code: ErrorCode) string go_error | PlainError go_error

definition CodeOf :: "service_error \<Rightarrow> ErrorCode" where
  "CodeOf err = (case err of NewError code _ _ \<Rightarrow> code | PlainError _ \<Rightarrow> ErrorInternal)"

datatype StreamErrorCode =
    StreamAlreadyCommitted | StreamNotFound | InvalidStreamType | InvalidStreamState
  | StreamFinalized | OffsetAlreadyExists | OffsetOutOfRange

record StreamError =
  SeCode :: StreamErrorCode
  SeStream :: string
  SeMessage :: string

record BatchCommitResult =
  BcCommitTime :: "time option"
  BcStreamErrors :: "StreamError list"

section \<open>Names\<close>

abbreviation slash :: char where "slash \<equiv> CHR ''/''"

definition table_ref_ok :: "TableReference \<Rightarrow> bool" where
  "table_ref_ok r \<longleftrightarrow> segment_ok (ProjectID r) \<and> segment_ok (DatasetID r) \<and> segment_ok (TableID r)"

lemma TableReference_Name_Join:
  "TableReference_Name r =
     strings_Join [''projects'', ProjectID r, ''datasets'', DatasetID r, ''tables'', TableID r] ''/''"
  by (simp add: TableReference_Name_def)

lemma strings_Split_Name:
  assumes "table_ref_ok r"
  shows "strings_Split slash (TableReference_Name r)
    = [''projects'', ProjectID r, ''datasets'', DatasetID r, ''tables'', TableID r]"
  unfolding TableReference_Name_Join
  using assms strings_Split_Join [of "[''projects'', ProjectID r, ''datasets'', DatasetID r, ''tables'', TableID r]" slash]
  by (simp add: table_ref_ok_def segment_ok_def resourceSegmentPattern_def)

lemma ParseTableName_Name: "table_ref_ok r \<Longrightarrow> ParseTableName (TableReference_Name r) = Inr r"
  by (simp add: ParseTableName_def strings_Split_Name) (simp add: table_ref_ok_def)

lemma ParseTableName_sound:
  assumes "ParseTableName name = Inr r"
  shows "table_ref_ok r \<and> name = TableReference_Name r"
proof -
  have parts: "strings_Split slash name = [''projects'', ProjectID r, ''datasets'', DatasetID r, ''tables'', TableID r]"
    and ok: "table_ref_ok r"
    using assms by (auto simp: ParseTableName_def table_ref_ok_def split: list.splits if_splits)
  have "name = strings_Join (strings_Split slash name) [slash]" by simp
  then show ?thesis using ok unfolding parts TableReference_Name_Join by simp
qed

text \<open>A printed reference parses back to itself or not at all.\<close>

lemma ParseTableName_of_Name:
  assumes "ParseTableName (TableReference_Name r) = Inr x"
  shows "x = r"
proof -
  have "TableReference_Name r = ''projects'' @ slash # ProjectID r @ slash # ''datasets'' @ slash # DatasetID r
      @ slash # ''tables'' @ slash # TableID r" by (simp add: TableReference_Name_def)
  then have s: "strings_Split slash (TableReference_Name r) = [''projects''] @ strings_Split slash (ProjectID r)
      @ [''datasets''] @ strings_Split slash (DatasetID r) @ [''tables''] @ strings_Split slash (TableID r)"
    by (simp only: strings_Split_sep) (simp add: strings_Split_nosep)
  obtain p d q where "strings_Split slash (ProjectID r) = [p]" "strings_Split slash (DatasetID r) = [d]"
    "strings_Split slash (TableID r) = [q]" and x: "x = \<lparr>ProjectID = p, DatasetID = d, TableID = q\<rparr>"
  proof -
    have l: "length (strings_Split slash (ProjectID r)) + length (strings_Split slash (DatasetID r))
        + length (strings_Split slash (TableID r)) = 3"
      using assms arg_cong [OF s, of length] by (auto simp: ParseTableName_def split: list.splits if_splits)
    have n: "0 < length (strings_Split slash y)" for y by simp
    then have "length (strings_Split slash (ProjectID r)) = 1" "length (strings_Split slash (DatasetID r)) = 1"
      "length (strings_Split slash (TableID r)) = 1"
      using l n [of "ProjectID r"] n [of "DatasetID r"] n [of "TableID r"] by linarith+
    then obtain p d q where pdq: "strings_Split slash (ProjectID r) = [p]" "strings_Split slash (DatasetID r) = [d]"
      "strings_Split slash (TableID r) = [q]" by (auto simp: length_Suc_conv)
    show ?thesis using that [OF pdq] assms s pdq by (simp add: ParseTableName_def split: if_splits)
  qed
  then show ?thesis using strings_Split_single by fastforce
qed

text \<open>
  \<open>ParseTableName\<close> accepts exactly the names that \<open>TableReference.Name\<close> prints for references whose
  three segments are valid, and returns that reference: printing and parsing are mutually inverse.
\<close>

theorem ParseTableName_iff:
  "ParseTableName name = Inr r \<longleftrightarrow> table_ref_ok r \<and> name = TableReference_Name r"
  using ParseTableName_Name ParseTableName_sound by blast

lemma default_suffix:
  "strings_HasSuffix (x @ ''/streams/_default'') ''/_default''"
  "strings_TrimSuffix (x @ ''/streams/_default'') ''/_default'' = x @ ''/streams''"
  using strings_HasSuffix_append [of "x @ ''/streams''" "''/_default''"]
    strings_TrimSuffix_append [of "x @ ''/streams''" "''/_default''"] by simp_all

lemma ParseStreamName_default:
  "table_ref_ok r \<Longrightarrow>
     ParseStreamName (TableReference_Name r @ ''/streams/_default'')
       = Inr (r, TableReference_Name r @ ''/streams/_default'', True)"
  by (simp add: ParseStreamName_def default_suffix ParseTableName_Name)

lemma strings_Join_append:
  "xs \<noteq> [] \<Longrightarrow> ys \<noteq> [] \<Longrightarrow> strings_Join (xs @ ys) sep = strings_Join xs sep @ sep @ strings_Join ys sep"
  by (induction xs sep rule: strings_Join.induct) (auto simp: neq_Nil_conv)

lemma split_last_two: "length xs = 8 \<Longrightarrow> xs = take 6 xs @ [xs ! 6, xs ! 7]"
  by (auto simp: eval_nat_numeral length_Suc_conv)

lemma last_strings_Split: "c \<notin> set s \<Longrightarrow> last (strings_Split c (x @ c # s)) = s"
  by (simp add: strings_Split_sep strings_Split_nosep)

lemma ParseStreamName_pending:
  assumes "ParseStreamName name = Inr (r, c, False)"
  shows "c = name \<and> table_ref_ok r \<and>
    (\<exists>i. resourceSegmentPattern i \<and> i \<noteq> ''_default'' \<and> name = TableReference_Name r @ ''/streams/'' @ i)"
proof -
  define parts where "parts = strings_Split slash name"
  have a: "\<not> strings_HasSuffix name ''/_default''" "length parts = 8" "parts ! 6 = ''streams''"
    "resourceSegmentPattern (parts ! 7)" "ParseTableName (strings_Join (take 6 parts) ''/'') = Inr r" "c = name"
    using assms by (auto simp: ParseStreamName_def parts_def Let_def split: if_splits sum.splits)
  have "parts = take 6 parts @ [parts ! 6, parts ! 7]"
    using a(2) by (rule split_last_two)
  moreover have "name = strings_Join parts [slash]" by (simp add: parts_def)
  ultimately have "name = strings_Join (take 6 parts) [slash] @ [slash] @ strings_Join [parts ! 6, parts ! 7] [slash]"
    using strings_Join_append [of "take 6 parts" "[parts ! 6, parts ! 7]" "[slash]"] a(2) by auto
  then have n: "name = TableReference_Name r @ ''/streams/'' @ parts ! 7"
    using a(3) ParseTableName_sound [OF a(5)] by simp
  moreover have "parts ! 7 \<noteq> ''_default''"
  proof
    assume "parts ! 7 = ''_default''"
    then show False using n a(1) default_suffix(1) [of "TableReference_Name r"] by simp
  qed
  ultimately show ?thesis using a ParseTableName_sound [OF a(5)] by blast
qed

lemma ParseStreamName_canonical_cases:
  assumes "ParseStreamName name = Inr (r, c, isDefault)"
  shows "table_ref_ok r \<and> ParseStreamName c = Inr (r, c, isDefault) \<and>
    (\<exists>i. resourceSegmentPattern i \<and> (isDefault \<longleftrightarrow> i = ''_default'') \<and> c = TableReference_Name r @ ''/streams/'' @ i)"
proof (cases isDefault)
  case True
  then have "table_ref_ok r" "c = TableReference_Name r @ ''/streams/_default''"
    using assms ParseTableName_sound
    by (auto simp: ParseStreamName_def Let_def split: if_splits sum.splits)
  then show ?thesis using ParseStreamName_default True
    by (auto simp: resourceSegmentPattern_def intro!: exI [of _ "''_default''"])
next
  case False
  then show ?thesis using assms ParseStreamName_pending [of name r c] by auto
qed

text \<open>
  \<open>ParseStreamName\<close> returns a canonical name: parsing it again gives the same table, the same
  name and the same default flag, it is the parent's name followed by \<open>/streams/\<close> and one segment, and the
  stream is the default stream exactly when that segment is \<open>_default\<close>.
\<close>

theorem ParseStreamName_canonical:
  assumes "ParseStreamName name = Inr (r, c, isDefault)"
  shows "table_ref_ok r \<and> ParseStreamName c = Inr (r, c, isDefault) \<and>
    (\<exists>i. resourceSegmentPattern i \<and> (isDefault \<longleftrightarrow> i = ''_default'') \<and> c = TableReference_Name r @ ''/streams/'' @ i)"
  using ParseStreamName_canonical_cases [OF assms] .

definition sample_table :: TableReference where
  "sample_table = \<lparr>ProjectID = ''proj'', DatasetID = ''ds'', TableID = ''t''\<rparr>"

lemma sample_legacy_default:
  "ParseStreamName ''projects/proj/datasets/ds/tables/t/_default''
     = Inr (sample_table, ''projects/proj/datasets/ds/tables/t/streams/_default'', True)"
  by code_simp

theorem ParseStreamName_canonical_witness:
  "table_ref_ok sample_table
    \<and> ParseStreamName ''projects/proj/datasets/ds/tables/t/streams/_default''
        = Inr (sample_table, ''projects/proj/datasets/ds/tables/t/streams/_default'', True)
    \<and> (\<exists>i. resourceSegmentPattern i \<and> (True \<longleftrightarrow> i = ''_default'')
         \<and> ''projects/proj/datasets/ds/tables/t/streams/_default''
             = TableReference_Name sample_table @ ''/streams/'' @ i)"
  using ParseStreamName_canonical [OF sample_legacy_default] .

text \<open>
  C15. The connector's legacy spelling \<open><table>/_default\<close> names the same stream as the official
  \<open><table>/streams/_default\<close>, except for a table whose ID is \<open>streams\<close>: there the legacy spelling is
  rejected, because its suffix is taken for the official one.
\<close>

theorem ParseStreamName_legacy_alias:
  assumes "table_ref_ok r"
  shows "ParseStreamName (TableReference_Name r @ ''/_default'') =
    (if TableID r = ''streams'' then Inl (errors_New ''invalid table resource'')
     else Inr (r, TableReference_Name r @ ''/streams/_default'', True))"
proof -
  let ?pre = "''projects/'' @ ProjectID r @ ''/datasets/'' @ DatasetID r @ ''/tables''"
  have name: "TableReference_Name r = ?pre @ ''/'' @ TableID r" by (simp add: TableReference_Name_def)
  have h: "strings_HasSuffix (TableReference_Name r @ ''/_default'') ''/_default''"
    "strings_TrimSuffix (TableReference_Name r @ ''/_default'') ''/_default'' = TableReference_Name r"
    by simp_all
  show ?thesis
  proof (cases "TableID r = ''streams''")
    case True
    have "strings_TrimSuffix (TableReference_Name r) ''/streams'' = ?pre"
      using strings_TrimSuffix_append [of ?pre "''/streams''"] by (simp add: name True)
    moreover have "ParseTableName ?pre = Inl (errors_New ''invalid table resource'')"
      using assms strings_Split_Join [of "[''projects'', ProjectID r, ''datasets'', DatasetID r, ''tables'']" slash]
      by (simp add: ParseTableName_def table_ref_ok_def segment_ok_def resourceSegmentPattern_def)
    ultimately show ?thesis using h True by (simp add: ParseStreamName_def)
  next
    case False
    have "\<not> strings_HasSuffix (TableReference_Name r) ''/streams''"
    proof
      assume "strings_HasSuffix (TableReference_Name r) ''/streams''"
      then obtain q where q: "?pre @ slash # TableID r = q @ slash # ''streams''"
        unfolding strings_HasSuffix_iff name by auto
      have "slash \<notin> set (TableID r)"
        using assms by (simp add: table_ref_ok_def segment_ok_def resourceSegmentPattern_def)
      then have "TableID r = ''streams''"
        using last_strings_Split [of slash "TableID r" ?pre, unfolded q]
          last_strings_Split [of slash "''streams''" q] by simp
      then show False using False by simp
    qed
    then show ?thesis using h False assms
      by (simp add: ParseStreamName_def strings_TrimSuffix_def ParseTableName_Name)
  qed
qed

theorem ParseStreamName_legacy_alias_witness:
  "ParseStreamName (TableReference_Name sample_table @ ''/_default'')
     = Inr (sample_table, TableReference_Name sample_table @ ''/streams/_default'', True)"
  using ParseStreamName_legacy_alias [of sample_table]
  by (simp add: sample_table_def table_ref_ok_def segment_ok_def resourceSegmentPattern_def)

end
