(* ===== verification/Write_Service.thy ===== *)
theory Write_Service
  imports Write_Domain
begin

text \<open>
  \<open>internal/storagewrite/application/{config,service,state}.go\<close>: the Storage Write service over its two
  ports, the coordinator (the engine that stages and publishes rows) and the state repository (the
  durable ledger). Both are records of functions over a state of their own; a call gives its result
  and the next state. The clock and the ID generator are functions of the call site and of the
  attempt, one environment per request.

  The service's locks make each request atomic with respect to the streams it names; a request is
  one step of the model. Log calls are left out.
\<close>

section \<open>Ports\<close>

record AppendBatch =
  AbStreamName :: string
  AbTable :: TableReference
  AbStartOffset :: int
  AbWireBytes :: int
  AbDescriptor :: string
  AbRows :: "string list"
  AbSchemaFingerprint :: string
  AbPayloadDigest :: string
  AbTraceID :: string

record CommitRequest =
  CrParent :: TableReference
  CrStreamNames :: "string list"
  CrGroupID :: string
  CrExpectedRowCounts :: "(string, int) gomap"

record 'c Coordinator =
  DescribeTable :: "TableReference \<Rightarrow> 'c \<Rightarrow> (go_error + TableSchema) \<times> 'c"
  AppendDefault :: "AppendBatch \<Rightarrow> 'c \<Rightarrow> go_error option \<times> 'c"
  StagePending :: "AppendBatch \<Rightarrow> 'c \<Rightarrow> go_error option \<times> 'c"
  CommitPending :: "CommitRequest \<Rightarrow> 'c \<Rightarrow> go_error option \<times> 'c"
  DiscardPending :: "string \<Rightarrow> 'c \<Rightarrow> go_error option \<times> 'c"

record 'r StateRepository =
  RpReconcileStartup :: "time \<Rightarrow> 'r \<Rightarrow> (go_error + StartupSnapshot) \<times> 'r"
  RpCreateStream :: "StreamRecord \<Rightarrow> 'r \<Rightarrow> go_error option \<times> 'r"
  RpGetStream :: "string \<Rightarrow> 'r \<Rightarrow> (go_error + StreamRecord) \<times> 'r"
  RpUpdateStream :: "int \<Rightarrow> StreamRecord \<Rightarrow> 'r \<Rightarrow> go_error option \<times> 'r"
  RpDeleteStream :: "string \<Rightarrow> int \<Rightarrow> 'r \<Rightarrow> go_error option \<times> 'r"
  RpPrepareAppend :: "int \<Rightarrow> StreamRecord \<Rightarrow> AppendReceipt \<Rightarrow> 'r \<Rightarrow> go_error option \<times> 'r"
  RpMarkAppendUnresolved :: "int \<Rightarrow> StreamRecord \<Rightarrow> AppendReceipt \<Rightarrow> 'r \<Rightarrow> go_error option \<times> 'r"
  RpCompleteAppend :: "int \<Rightarrow> StreamRecord \<Rightarrow> AppendReceipt \<Rightarrow> 'r \<Rightarrow> go_error option \<times> 'r"
  RpAbortAppend :: "int \<Rightarrow> StreamRecord \<Rightarrow> AppendReceipt \<Rightarrow> 'r \<Rightarrow> go_error option \<times> 'r"
  RpPrepareCommit :: "(string, int) gomap \<Rightarrow> StreamRecord list \<Rightarrow> CommitGroup \<Rightarrow> 'r \<Rightarrow> go_error option \<times> 'r"
  RpMarkCommitUnresolved :: "(string, int) gomap \<Rightarrow> StreamRecord list \<Rightarrow> CommitGroup \<Rightarrow> 'r \<Rightarrow> go_error option \<times> 'r"
  RpCompleteCommit :: "(string, int) gomap \<Rightarrow> StreamRecord list \<Rightarrow> CommitGroup \<Rightarrow> 'r \<Rightarrow> go_error option \<times> 'r"
  RpAbortCommit :: "(string, int) gomap \<Rightarrow> StreamRecord list \<Rightarrow> CommitGroup \<Rightarrow> 'r \<Rightarrow> go_error option \<times> 'r"

text \<open>The repository of a service that was given none keeps nothing.\<close>

definition transientStateRepository :: "'r StateRepository" where
  "transientStateRepository =
     \<lparr>RpReconcileStartup = \<lambda>_ r. (Inr \<lparr>SnStreams = [], SnReceipts = [], SnCommitGroups = []\<rparr>, r),
      RpCreateStream = \<lambda>_ r. (None, r),
      RpGetStream = \<lambda>_ r. (Inl [ErrStateNotFound], r),
      RpUpdateStream = \<lambda>_ _ r. (None, r),
      RpDeleteStream = \<lambda>_ _ r. (None, r),
      RpPrepareAppend = \<lambda>_ _ _ r. (None, r),
      RpMarkAppendUnresolved = \<lambda>_ _ _ r. (None, r),
      RpCompleteAppend = \<lambda>_ _ _ r. (None, r),
      RpAbortAppend = \<lambda>_ _ _ r. (None, r),
      RpPrepareCommit = \<lambda>_ _ _ r. (None, r),
      RpMarkCommitUnresolved = \<lambda>_ _ _ r. (None, r),
      RpCompleteCommit = \<lambda>_ _ _ r. (None, r),
      RpAbortCommit = \<lambda>_ _ _ r. (None, r)\<rparr>"

section \<open>Configuration\<close>

record Config =
  CfLocation :: string
  CfProtocolModelVersion :: string
  CfMaxStreams :: int
  CfMaxAppendBytes :: int
  CfMaxAppendEnvelopeBytes :: int
  CfMaxConcurrentAppendRequests :: int
  CfOrphanTTL :: int
  CfCleanupInterval :: int

definition ProtocolMaxAppendBytes :: int where
  "ProtocolMaxAppendBytes = 20 * 1024 * 1024"

definition validateConfig :: "Config \<Rightarrow> go_error option" where
  "validateConfig c =
     (if blank (CfLocation c) \<or> CHR ''/'' \<in> set (CfLocation c)
      then Some (errors_New ''location must be a non-empty resource segment'')
      else if blank (CfProtocolModelVersion c)
      then Some (errors_New ''protocol model version is required'')
      else if CfMaxStreams c \<le> 0
      then Some (errors_New ''maximum logical stream count must be positive'')
      else if CfMaxAppendBytes c \<le> 0 \<or> CfMaxAppendBytes c > ProtocolMaxAppendBytes
      then Some (errors_New ''maximum append bytes must be positive and at most 20 MiB'')
      else if CfMaxAppendEnvelopeBytes c \<le> 0
      then Some (errors_New ''maximum append envelope bytes must be positive'')
      else if CfMaxConcurrentAppendRequests c \<le> 0
      then Some (errors_New ''maximum concurrent append requests must be positive'')
      else if CfOrphanTTL c \<le> 0 \<or> CfCleanupInterval c \<le> 0
      then Some (errors_New ''orphan TTL and cleanup interval must be positive'')
      else None)"

section \<open>State\<close>

datatype cleanupPhase = cleanupPhaseActive | cleanupPhasePending | cleanupPhaseDiscarded

record appendReceipt =
  apStartOffset :: int
  apRowCount :: int
  apSchemaFingerprint :: string
  apPayloadDigest :: string
  apPhase :: ReceiptPhase
  apCreatedAt :: time
  apUpdatedAt :: time

record streamState =
  StStream :: WriteStream
  StDescriptor :: string
  StUnacknowledged :: "appendReceipt option"
  StCleanupPhase :: cleanupPhase
  StCleanupAttempts :: nat
  StOperation :: OperationKind
  StOperationPhase :: OperationPhase
  StOperationToken :: string
  StRevision :: int

record ('c, 'r) Service =
  SvConfig :: Config
  SvCoordinator :: 'c
  SvState :: 'r
  SvStreams :: "(string, streamState) gomap"
  SvCommitGroups :: "(string, CommitGroup) gomap"
  SvClosed :: bool
  SvStateReconciled :: bool
  SvPending :: int

text \<open>What one request is given: the ports' code, clock readings by call site, IDs by attempt.\<close>

record ('c, 'r) Env =
  EnCoordinator :: "'c Coordinator"
  EnRepository :: "'r StateRepository"
  EnClock :: "nat \<Rightarrow> time"
  EnIDs :: "nat \<Rightarrow> string"

abbreviation put_stream :: "string \<Rightarrow> streamState \<Rightarrow> ('c, 'r) Service \<Rightarrow> ('c, 'r) Service" where
  "put_stream name st s \<equiv> s\<lparr>SvStreams := gm_put name st (SvStreams s)\<rparr>"

text \<open>\<open>New\<close>: without a repository option the ledger is transient and needs no reconciliation.\<close>

definition Service_New :: "Config \<Rightarrow> 'c \<Rightarrow> 'r \<Rightarrow> bool \<Rightarrow> go_error + ('c, 'r) Service" where
  "Service_New config coordinator repository withRepository =
     (case validateConfig config of Some e \<Rightarrow> Inl e
      | None \<Rightarrow> Inr \<lparr>SvConfig = config, SvCoordinator = coordinator, SvState = repository,
          SvStreams = [], SvCommitGroups = [], SvClosed = False,
          SvStateReconciled = (\<not> withRepository), SvPending = 0\<rparr>)"

section \<open>Helpers\<close>

definition digest :: "string \<Rightarrow> string" where
  "digest payload = ''sha256:'' @ sha256_hex payload"

definition rowsDigest :: "string list \<Rightarrow> string" where
  "rowsDigest rows = ''sha256:'' @ sha256_hex (concat rows)"

definition rowsBytes :: "string list \<Rightarrow> int" where
  "rowsBytes rows = i64_sum (map (\<lambda>row. int (length row)) rows)"

definition safe_trace_char :: "char \<Rightarrow> bool" where
  "safe_trace_char c \<longleftrightarrow> is_alpha c \<or> is_digit c \<or> c \<in> set ''-_./''"

definition safeTraceID :: "string \<Rightarrow> string" where
  "safeTraceID v = (if 128 < length v \<or> \<not> list_all safe_trace_char v then [] else v)"

definition coordinatorErrorCode :: "go_error \<Rightarrow> ErrorCode \<Rightarrow> ErrorCode" where
  "coordinatorErrorCode err fallback =
     (if errors_Is err ContextCanceled then ErrorCanceled
      else if errors_Is err ErrQueueWaitTimeout \<or> errors_Is err ErrResourceExhausted then ErrorResourceExhausted
      else if errors_Is err ErrOperationTimeout \<or> errors_Is err ContextDeadlineExceeded then ErrorDeadlineExceeded
      else if errors_Is err ErrInvalidRows then ErrorInvalidArgument
      else fallback)"

definition appendOutcomeIsAmbiguous :: "go_error \<Rightarrow> bool" where
  "appendOutcomeIsAmbiguous err \<longleftrightarrow>
     errors_Is err ErrOperationTimeout \<or> errors_Is err ContextDeadlineExceeded \<or> errors_Is err ContextCanceled"

definition classifyStateError :: "string \<Rightarrow> go_error \<Rightarrow> service_error" where
  "classifyStateError operation err =
     (if errors_Is err ContextCanceled then NewError ErrorCanceled operation err
      else if errors_Is err ContextDeadlineExceeded then NewError ErrorDeadlineExceeded operation err
      else if errors_Is err ErrStateConflict \<or> errors_Is err ErrReceiptConflict
              \<or> errors_Is err ErrCommitGroupConflict then NewError ErrorFailedPrecondition operation err
      else NewError ErrorInternal operation err)"

definition ensureStateReconciled :: "string \<Rightarrow> ('c, 'r) Service \<Rightarrow> service_error option" where
  "ensureStateReconciled operation s =
     (if \<not> SvStateReconciled s
      then Some (NewError ErrorFailedPrecondition operation
                   (errors_New ''Storage Write startup reconciliation is incomplete''))
      else None)"

definition admissionError :: "string \<Rightarrow> ('c, 'r) Service \<Rightarrow> service_error option" where
  "admissionError operation s =
     (if SvClosed s
      then Some (NewError ErrorFailedPrecondition operation (errors_New ''Storage Write service is closed''))
      else if SvPending s \<ge> CfMaxStreams (SvConfig s)
      then Some (NewError ErrorResourceExhausted operation (errors_New ''logical stream capacity reached''))
      else None)"

definition cleanupPhaseRecordValue :: "cleanupPhase \<Rightarrow> CleanupPhase" where
  "cleanupPhaseRecordValue p = (if p = cleanupPhasePending then CleanupPending else CleanupActive)"

definition cleanupPhaseFromRecord :: "CleanupPhase \<Rightarrow> cleanupPhase" where
  "cleanupPhaseFromRecord p = (if p = CleanupPending then cleanupPhasePending else cleanupPhaseActive)"

definition streamRecord :: "streamState \<Rightarrow> StreamRecord" where
  "streamRecord st =
     \<lparr>SrStream = StStream st, SrOperation = StOperation st, SrOperationPhase = StOperationPhase st,
      SrOperationToken = StOperationToken st, SrCleanupPhase = cleanupPhaseRecordValue (StCleanupPhase st),
      SrCleanupAttempts = StCleanupAttempts st, SrRevision = StRevision st\<rparr>"

definition next_revision :: "int \<Rightarrow> int" where
  "next_revision r = i64_add r 1"

definition appendReceiptRecord ::
  "string \<Rightarrow> appendReceipt \<Rightarrow> ReceiptPhase \<Rightarrow> time \<Rightarrow> time \<Rightarrow> AppendReceipt" where
  "appendReceiptRecord stream receipt ph created updated =
     \<lparr>RcStreamName = stream, RcStartOffset = apStartOffset receipt, RcRowCount = apRowCount receipt,
      RcSchemaFingerprint = apSchemaFingerprint receipt, RcPayloadDigest = apPayloadDigest receipt,
      RcPhase = ph, RcCreatedAt = created, RcUpdatedAt = updated\<rparr>"

definition appendReceiptsMatch :: "appendReceipt \<Rightarrow> appendReceipt \<Rightarrow> bool" where
  "appendReceiptsMatch left right \<longleftrightarrow>
     apStartOffset left = apStartOffset right \<and> apRowCount left = apRowCount right
     \<and> apSchemaFingerprint left = apSchemaFingerprint right \<and> apPayloadDigest left = apPayloadDigest right"

section \<open>Streams\<close>

definition describeTable ::
  "('c, 'r) Env \<Rightarrow> string \<Rightarrow> TableReference \<Rightarrow> ('c, 'r) Service
     \<Rightarrow> (service_error + TableSchema) \<times> ('c, 'r) Service" where
  "describeTable env operation table s =
     (case DescribeTable (EnCoordinator env) table (SvCoordinator s) of (res, c) \<Rightarrow>
        (let s1 = s\<lparr>SvCoordinator := c\<rparr> in
         case res of
           Inr schema \<Rightarrow> (Inr schema, s1)
         | Inl err \<Rightarrow>
             (let code = (if errors_Is err ErrTableNotFound then ErrorNotFound
                          else if errors_Is err ErrUnsupportedSchema then ErrorUnimplemented
                          else coordinatorErrorCode err ErrorInternal) in
              (Inl (NewError code operation err), s1))))"

definition new_streamState :: "WriteStream \<Rightarrow> streamState" where
  "new_streamState stream =
     \<lparr>StStream = stream, StDescriptor = [], StUnacknowledged = None, StCleanupPhase = cleanupPhaseActive,
      StCleanupAttempts = 0, StOperation = OperationNone, StOperationPhase = OperationPhaseNone,
      StOperationToken = [], StRevision = 1\<rparr>"

definition state_of_record :: "StreamRecord \<Rightarrow> streamState" where
  "state_of_record r =
     \<lparr>StStream = SrStream r, StDescriptor = [], StUnacknowledged = None,
      StCleanupPhase = cleanupPhaseFromRecord (SrCleanupPhase r), StCleanupAttempts = SrCleanupAttempts r,
      StOperation = SrOperation r, StOperationPhase = SrOperationPhase r,
      StOperationToken = SrOperationToken r, StRevision = SrRevision r\<rparr>"

definition pending_candidate ::
  "Config \<Rightarrow> TableReference \<Rightarrow> TableSchema \<Rightarrow> time \<Rightarrow> string \<Rightarrow> streamState" where
  "pending_candidate config parent schema now name =
     new_streamState \<lparr>WsName = name, WsParent = parent, WsType = StreamTypePending,
       WsState = StreamStateOpen, WsCreateTime = now, WsCommitTime = None, WsLocation = CfLocation config,
       WsSchema = CloneFields schema, WsRowCount = 0, WsNextOffset = 0, WsSchemaFingerprint = [],
       WsLastActivity = now\<rparr>"

text \<open>The loop over at most four IDs; \<open>k\<close> counts the attempts made.\<close>

fun create_attempts ::
  "('c, 'r) Env \<Rightarrow> TableReference \<Rightarrow> TableSchema \<Rightarrow> time \<Rightarrow> nat \<Rightarrow> nat \<Rightarrow> ('c, 'r) Service
     \<Rightarrow> (service_error + (string \<times> streamState) option) \<times> ('c, 'r) Service" where
  "create_attempts env parent schema now 0 k s = (Inr None, s)"
| "create_attempts env parent schema now (Suc n) k s =
     (let candidate = TableReference_Name parent @ ''/streams/'' @ EnIDs env k in
      if (case ParseStreamName candidate of Inl _ \<Rightarrow> True | Inr (_, _, isDefault) \<Rightarrow> isDefault)
         \<or> gm_get (SvStreams s) candidate \<noteq> None
      then create_attempts env parent schema now n (Suc k) s
      else
        (let st = pending_candidate (SvConfig s) parent schema now candidate in
         case RpCreateStream (EnRepository env) (streamRecord st) (SvState s) of
           (None, r) \<Rightarrow> (Inr (Some (candidate, st)), s\<lparr>SvState := r\<rparr>)
         | (Some err, r) \<Rightarrow>
             if errors_Is err ErrStateConflict
             then create_attempts env parent schema now n (Suc k) (s\<lparr>SvState := r\<rparr>)
             else (Inl (classifyStateError ''storage_write.create_stream'' err), s\<lparr>SvState := r\<rparr>)))"

definition Service_CreateStream ::
  "('c, 'r) Env \<Rightarrow> CreateStreamRequest \<Rightarrow> ('c, 'r) Service \<Rightarrow> (service_error + WriteStream) \<times> ('c, 'r) Service" where
  "Service_CreateStream env request s =
     (let operation = ''storage_write.create_stream'' in
      case ensureStateReconciled operation s of Some e \<Rightarrow> (Inl e, s)
      | None \<Rightarrow>
        if CsType request \<noteq> StreamTypePending
        then (Inl (NewError ErrorUnimplemented operation (errors_New ''only PENDING streams can be created'')), s)
        else case ParseTableName (TableReference_Name (CsParent request)) of
          Inl err \<Rightarrow> (Inl (NewError ErrorInvalidArgument operation err), s)
        | Inr _ \<Rightarrow>
          (case admissionError operation s of Some e \<Rightarrow> (Inl e, s)
           | None \<Rightarrow>
             (case describeTable env operation (CsParent request) s of
                (Inl e, s1) \<Rightarrow> (Inl e, s1)
              | (Inr schema, s1) \<Rightarrow>
                (case admissionError operation s1 of Some e \<Rightarrow> (Inl e, s1)
                 | None \<Rightarrow>
                   (case create_attempts env (CsParent request) schema (EnClock env 0) 4 0 s1 of
                      (Inl e, s2) \<Rightarrow> (Inl e, s2)
                    | (Inr None, s2) \<Rightarrow>
                        (Inl (NewError ErrorInternal operation
                           (errors_New ''ID generator did not produce a unique valid stream ID'')), s2)
                    | (Inr (Some (name, st)), s2) \<Rightarrow>
                        (Inr (StStream st), (put_stream name st s2)\<lparr>SvPending := SvPending s2 + 1\<rparr>))))))"

definition lookup :: "string \<Rightarrow> string \<Rightarrow> ('c, 'r) Service \<Rightarrow> service_error + streamState" where
  "lookup name operation s =
     (if SvClosed s
      then Inl (NewError ErrorFailedPrecondition operation (errors_New ''Storage Write service is closed''))
      else case gm_get (SvStreams s) name of
        None \<Rightarrow> Inl (NewError ErrorNotFound operation (errors_New ''write stream not found''))
      | Some st \<Rightarrow> Inr st)"

definition default_candidate :: "Config \<Rightarrow> TableReference \<Rightarrow> TableSchema \<Rightarrow> time \<Rightarrow> string \<Rightarrow> streamState" where
  "default_candidate config table schema now name =
     new_streamState \<lparr>WsName = name, WsParent = table, WsType = StreamTypeDefault,
       WsState = StreamStateCommitted, WsCreateTime = now, WsCommitTime = Some now,
       WsLocation = CfLocation config, WsSchema = CloneFields schema, WsRowCount = 0, WsNextOffset = 0,
       WsSchemaFingerprint = [], WsLastActivity = now\<rparr>"

definition lookupOrCreateDefault ::
  "('c, 'r) Env \<Rightarrow> string \<Rightarrow> TableReference \<Rightarrow> string \<Rightarrow> bool \<Rightarrow> ('c, 'r) Service
     \<Rightarrow> (service_error + streamState) \<times> ('c, 'r) Service" where
  "lookupOrCreateDefault env operation table canonical isDefault s =
     (if \<not> isDefault then (lookup canonical operation s, s)
      else if SvClosed s
      then (Inl (NewError ErrorFailedPrecondition operation (errors_New ''Storage Write service is closed'')), s)
      else case gm_get (SvStreams s) canonical of Some st \<Rightarrow> (Inr st, s)
      | None \<Rightarrow>
        (case describeTable env operation table s of
           (Inl e, s1) \<Rightarrow> (Inl e, s1)
         | (Inr schema, s1) \<Rightarrow>
           (let candidate = default_candidate (SvConfig s1) table schema (EnClock env 0) canonical in
            case RpCreateStream (EnRepository env) (streamRecord candidate) (SvState s1) of
              (None, r) \<Rightarrow> (Inr candidate, put_stream canonical candidate (s1\<lparr>SvState := r\<rparr>))
            | (Some err, r) \<Rightarrow>
                if errors_Is err ErrStateConflict
                then (case RpGetStream (EnRepository env) canonical r of
                        (Inl getErr, r1) \<Rightarrow>
                          (Inl (classifyStateError operation (errors_Join err getErr)), s1\<lparr>SvState := r1\<rparr>)
                      | (Inr rec, r1) \<Rightarrow>
                          (Inr (state_of_record rec),
                           put_stream canonical (state_of_record rec) (s1\<lparr>SvState := r1\<rparr>)))
                else (Inl (classifyStateError operation err), s1\<lparr>SvState := r\<rparr>))))"

definition Service_GetStream ::
  "('c, 'r) Env \<Rightarrow> string \<Rightarrow> ('c, 'r) Service \<Rightarrow> (service_error + WriteStream) \<times> ('c, 'r) Service" where
  "Service_GetStream env name s =
     (let operation = ''storage_write.get_stream'' in
      case ensureStateReconciled operation s of Some e \<Rightarrow> (Inl e, s)
      | None \<Rightarrow>
        (case ParseStreamName name of
           Inl err \<Rightarrow> (Inl (NewError ErrorInvalidArgument operation err), s)
         | Inr (table, canonical, isDefault) \<Rightarrow>
           (case lookupOrCreateDefault env operation table canonical isDefault s of
              (Inl e, s1) \<Rightarrow> (Inl e, s1)
            | (Inr st, s1) \<Rightarrow>
                if StCleanupPhase st \<noteq> cleanupPhaseActive
                then (Inl (NewError ErrorNotFound operation (errors_New ''write stream was discarded'')), s1)
                else (Inr (StStream st), s1))))"

section \<open>Append\<close>

definition append_op :: string where "append_op = ''storage_write.append''"

text \<open>The checks of a request that need no stream.\<close>

definition append_request :: "Config \<Rightarrow> AppendRequest \<Rightarrow> service_error + TableReference \<times> string \<times> bool" where
  "append_request config request =
     (case ParseStreamName (ArStreamName request) of
        Inl err \<Rightarrow> Inl (NewError ErrorInvalidArgument append_op err)
      | Inr target \<Rightarrow>
        if ArRows request = []
        then Inl (NewError ErrorInvalidArgument append_op (errors_New ''at least one ProtoRow is required''))
        else if ArPayloadBytes request \<le> 0 \<or> ArPayloadBytes request > CfMaxAppendBytes config
        then Inl (NewError ErrorInvalidArgument append_op (errors_New ''append ProtoData size exceeds configured limit''))
        else if ArWireBytes request < ArPayloadBytes request
        then Inl (NewError ErrorInvalidArgument append_op (errors_New ''append wire size is smaller than ProtoData size''))
        else if ArWireBytes request - ArPayloadBytes request > CfMaxAppendEnvelopeBytes config
        then Inl (NewError ErrorInvalidArgument append_op (errors_New ''append envelope size exceeds configured limit''))
        else Inr target)"

text \<open>What an admitted append goes on with.\<close>

record append_plan =
  PlDescriptor :: string
  PlFingerprint :: string
  PlReceipt :: appendReceipt
  PlWasUnacknowledged :: bool

text \<open>The writer schema of the append: the request's descriptor, or the one the stream has.\<close>

definition append_schema :: "AppendRequest \<Rightarrow> streamState \<Rightarrow> service_error + string \<times> string" where
  "append_schema request st =
     (if ArDescriptor request = [] \<and> StDescriptor st = []
      then Inl (NewError ErrorInvalidArgument append_op (errors_New ''writer schema is required on the first append''))
      else if ArDescriptor request = []
      then Inr (StDescriptor st, WsSchemaFingerprint (StStream st))
      else (let computed = digest (ArDescriptor request) in
            if ArSchemaFingerprint request \<noteq> [] \<and> ArSchemaFingerprint request \<noteq> computed
            then Inl (NewError ErrorInvalidArgument append_op (errors_New ''writer schema fingerprint does not match descriptor''))
            else if WsSchemaFingerprint (StStream st) \<noteq> [] \<and> computed \<noteq> WsSchemaFingerprint (StStream st)
            then Inl (NewError ErrorFailedPrecondition append_op (errors_New ''writer schema changed for an existing stream''))
            else Inr (ArDescriptor request, computed)))"

definition append_validate :: "AppendRequest \<Rightarrow> streamState \<Rightarrow> time \<Rightarrow> service_error + append_plan" where
  "append_validate request st now =
     (let stream = StStream st in
      if StCleanupPhase st \<noteq> cleanupPhaseActive
      then Inl (NewError ErrorNotFound append_op (errors_New ''write stream was discarded''))
      else if WsType stream = StreamTypePending \<and> WsState stream \<noteq> StreamStateOpen
      then Inl (NewError ErrorFailedPrecondition append_op
             (errors_New (if WsState stream = StreamStateCommitted
                          then ''write stream is already committed'' else ''write stream is finalized'')))
      else if WsType stream = StreamTypeDefault \<and> ArOffset request \<noteq> None
      then Inl (NewError ErrorInvalidArgument append_op (errors_New ''offset is not allowed for the default stream''))
      else case append_schema request st of Inl e \<Rightarrow> Inl e
      | Inr (descriptor, fingerprint) \<Rightarrow>
        (let computedPayloadDigest = rowsDigest (ArRows request);
             receipt = \<lparr>apStartOffset = WsNextOffset stream, apRowCount = int (length (ArRows request)),
                        apSchemaFingerprint = fingerprint, apPayloadDigest = computedPayloadDigest,
                        apPhase = ReceiptPrepared, apCreatedAt = now, apUpdatedAt = now\<rparr> in
         if ArPayloadDigest request \<noteq> [] \<and> ArPayloadDigest request \<noteq> computedPayloadDigest
         then Inl (NewError ErrorInvalidArgument append_op (errors_New ''payload digest does not match ProtoRows''))
         else if (case StUnacknowledged st of Some u \<Rightarrow> \<not> appendReceiptsMatch u receipt | None \<Rightarrow> False)
         then Inl (NewError ErrorFailedPrecondition append_op
                (errors_New ''an unacknowledged append must be retried with the same offset, schema, and payload before the stream can advance''))
         else if (case ArOffset request of Some off \<Rightarrow> off < WsNextOffset stream | None \<Rightarrow> False)
         then Inl (NewError ErrorAlreadyExists append_op (errors_New ''append offset already exists''))
         else if (case ArOffset request of Some off \<Rightarrow> off > WsNextOffset stream | None \<Rightarrow> False)
         then Inl (NewError ErrorOutOfRange append_op (errors_New ''append offset is beyond stream end''))
         else Inr \<lparr>PlDescriptor = descriptor, PlFingerprint = fingerprint,
                   PlReceipt = (case StUnacknowledged st of Some u \<Rightarrow> u | None \<Rightarrow> receipt),
                   PlWasUnacknowledged = (StUnacknowledged st \<noteq> None)\<rparr>))"

text \<open>Recording the intent before the side effect, unless an unacknowledged append is being retried.\<close>

definition append_prepare ::
  "('c, 'r) Env \<Rightarrow> string \<Rightarrow> append_plan \<Rightarrow> streamState \<Rightarrow> ('c, 'r) Service
     \<Rightarrow> (service_error + streamState) \<times> ('c, 'r) Service" where
  "append_prepare env canonical plan st s =
     (if PlWasUnacknowledged plan then (Inr st, s)
      else
        (let receipt = PlReceipt plan;
             prepared = (streamRecord st)\<lparr>SrOperation := OperationAppend, SrOperationPhase := OperationPhasePrepared,
                SrOperationToken := FormatInt (WsNextOffset (StStream st)), SrRevision := next_revision (StRevision st)\<rparr>;
             persisted = appendReceiptRecord canonical receipt ReceiptPrepared (apCreatedAt receipt) (apUpdatedAt receipt) in
         case RpPrepareAppend (EnRepository env) (StRevision st) prepared persisted (SvState s) of
           (Some err, r) \<Rightarrow> (Inl (classifyStateError append_op err), s\<lparr>SvState := r\<rparr>)
         | (None, r) \<Rightarrow>
             (let st1 = st\<lparr>StOperation := OperationAppend, StOperationPhase := OperationPhasePrepared,
                    StOperationToken := SrOperationToken prepared, StRevision := SrRevision prepared,
                    StUnacknowledged := Some receipt\<rparr> in
              (Inr st1, put_stream canonical st1 (s\<lparr>SvState := r\<rparr>)))))"

definition append_batch ::
  "AppendRequest \<Rightarrow> TableReference \<Rightarrow> string \<Rightarrow> append_plan \<Rightarrow> streamState \<Rightarrow> AppendBatch" where
  "append_batch request table canonical plan st =
     \<lparr>AbStreamName = canonical, AbTable = table, AbStartOffset = WsNextOffset (StStream st),
      AbWireBytes = ArWireBytes request, AbDescriptor = PlDescriptor plan, AbRows = ArRows request,
      AbSchemaFingerprint = PlFingerprint plan, AbPayloadDigest = rowsDigest (ArRows request),
      AbTraceID = ArTraceID request\<rparr>"

text \<open>
  The local receipt of a fresh append is shared with the stream state, so a change of the local one
  shows in the state even when the ledger call after it fails; a retried one is a copy.
\<close>

definition share_receipt :: "append_plan \<Rightarrow> appendReceipt \<Rightarrow> streamState \<Rightarrow> streamState" where
  "share_receipt plan receipt st =
     (if PlWasUnacknowledged plan then st else st\<lparr>StUnacknowledged := Some receipt\<rparr>)"

definition append_failed ::
  "('c, 'r) Env \<Rightarrow> string \<Rightarrow> append_plan \<Rightarrow> go_error \<Rightarrow> streamState \<Rightarrow> ('c, 'r) Service
     \<Rightarrow> service_error \<times> ('c, 'r) Service" where
  "append_failed env canonical plan err st s =
     (let failure = NewError (coordinatorErrorCode err ErrorInternal) append_op err; receipt = PlReceipt plan in
      if appendOutcomeIsAmbiguous err then
        (if StOperationPhase st = OperationPhasePrepared then
           (let now = EnClock env 2;
                unresolved = (streamRecord st)\<lparr>SrOperationPhase := OperationPhaseUnresolved,
                                              SrRevision := next_revision (StRevision st)\<rparr>;
                receipt1 = receipt\<lparr>apPhase := ReceiptUnresolved, apUpdatedAt := now\<rparr>;
                persisted = appendReceiptRecord canonical receipt1 ReceiptUnresolved (apCreatedAt receipt) now in
            case RpMarkAppendUnresolved (EnRepository env) (StRevision st) unresolved persisted (SvState s) of
              (Some stateErr, r) \<Rightarrow>
                (classifyStateError append_op (errors_Join err stateErr),
                 put_stream canonical (share_receipt plan receipt1 st) (s\<lparr>SvState := r\<rparr>))
            | (None, r) \<Rightarrow>
                (failure, put_stream canonical
                   (st\<lparr>StOperationPhase := OperationPhaseUnresolved, StRevision := SrRevision unresolved,
                       StUnacknowledged := Some receipt1\<rparr>) (s\<lparr>SvState := r\<rparr>)))
         else (failure, s))
      else
        (let aborted = (streamRecord st)\<lparr>SrOperation := OperationNone, SrOperationPhase := OperationPhaseNone,
                          SrOperationToken := [], SrRevision := next_revision (StRevision st)\<rparr>;
             persisted = appendReceiptRecord canonical receipt (apPhase receipt) (apCreatedAt receipt) (EnClock env 2) in
         case RpAbortAppend (EnRepository env) (StRevision st) aborted persisted (SvState s) of
           (Some stateErr, r) \<Rightarrow>
             (classifyStateError append_op (errors_Join err stateErr), s\<lparr>SvState := r\<rparr>)
         | (None, r) \<Rightarrow>
             (failure, put_stream canonical
                (st\<lparr>StOperation := OperationNone, StOperationPhase := OperationPhaseNone, StOperationToken := [],
                    StRevision := SrRevision aborted, StUnacknowledged := None\<rparr>) (s\<lparr>SvState := r\<rparr>))))"

definition append_complete ::
  "('c, 'r) Env \<Rightarrow> AppendRequest \<Rightarrow> string \<Rightarrow> bool \<Rightarrow> append_plan \<Rightarrow> streamState \<Rightarrow> ('c, 'r) Service
     \<Rightarrow> (service_error + AppendResult) \<times> ('c, 'r) Service" where
  "append_complete env request canonical isDefault plan st s =
     (let completedAt = EnClock env 3; n = int (length (ArRows request)); stream = StStream st;
          stream1 = stream\<lparr>WsRowCount := i64_add (WsRowCount stream) n, WsNextOffset := i64_add (WsNextOffset stream) n,
             WsLastActivity := completedAt,
             WsSchemaFingerprint := (if WsSchemaFingerprint stream = [] then PlFingerprint plan else WsSchemaFingerprint stream)\<rparr>;
          completed = (streamRecord st)\<lparr>SrStream := stream1, SrOperation := OperationNone,
             SrOperationPhase := OperationPhaseNone, SrOperationToken := [], SrRevision := next_revision (StRevision st)\<rparr>;
          receipt = (PlReceipt plan)\<lparr>apPhase := ReceiptApplied, apUpdatedAt := completedAt\<rparr>;
          persisted = appendReceiptRecord canonical receipt ReceiptApplied (apCreatedAt receipt) completedAt in
      case RpCompleteAppend (EnRepository env) (StRevision st) completed persisted (SvState s) of
        (Some stateErr, r) \<Rightarrow>
          (Inl (classifyStateError append_op stateErr),
           put_stream canonical (share_receipt plan receipt st) (s\<lparr>SvState := r\<rparr>))
      | (None, r) \<Rightarrow>
          (Inr \<lparr>ReStreamName = canonical, ReStartOffset = WsNextOffset stream,
                ReHasOffset = (\<not> isDefault), ReRowCount = n\<rparr>,
           put_stream canonical
             (st\<lparr>StUnacknowledged := None, StOperation := OperationNone, StOperationPhase := OperationPhaseNone,
                 StOperationToken := [], StRevision := SrRevision completed, StStream := stream1,
                 StDescriptor := (if StDescriptor st = [] then PlDescriptor plan else StDescriptor st)\<rparr>)
             (s\<lparr>SvState := r\<rparr>)))"

definition append_call ::
  "('c, 'r) Env \<Rightarrow> AppendRequest \<Rightarrow> TableReference \<Rightarrow> string \<Rightarrow> bool \<Rightarrow> append_plan \<Rightarrow> streamState \<Rightarrow> ('c, 'r) Service
     \<Rightarrow> (service_error + AppendResult) \<times> ('c, 'r) Service" where
  "append_call env request table canonical isDefault plan st s =
     (let batch = append_batch request table canonical plan st;
          call = (if isDefault then AppendDefault (EnCoordinator env) else StagePending (EnCoordinator env)) in
      case call batch (SvCoordinator s) of
        (Some err, c) \<Rightarrow> (case append_failed env canonical plan err st (s\<lparr>SvCoordinator := c\<rparr>) of (e, s1) \<Rightarrow> (Inl e, s1))
      | (None, c) \<Rightarrow> append_complete env request canonical isDefault plan st (s\<lparr>SvCoordinator := c\<rparr>))"

definition Service_Append ::
  "('c, 'r) Env \<Rightarrow> AppendRequest \<Rightarrow> ('c, 'r) Service \<Rightarrow> (service_error + AppendResult) \<times> ('c, 'r) Service" where
  "Service_Append env request s =
     (case ensureStateReconciled append_op s of Some e \<Rightarrow> (Inl e, s)
      | None \<Rightarrow>
        (case append_request (SvConfig s) request of Inl e \<Rightarrow> (Inl e, s)
         | Inr (table, canonical, isDefault) \<Rightarrow>
           (case lookupOrCreateDefault env append_op table canonical isDefault s of
              (Inl e, s1) \<Rightarrow> (Inl e, s1)
            | (Inr st, s1) \<Rightarrow>
              (case append_validate request st (EnClock env 1) of Inl e \<Rightarrow> (Inl e, s1)
               | Inr plan \<Rightarrow>
                 (case append_prepare env canonical plan st s1 of
                    (Inl e, s2) \<Rightarrow> (Inl e, s2)
                  | (Inr st1, s2) \<Rightarrow> append_call env request table canonical isDefault plan st1 s2)))))"

section \<open>Finalize\<close>

definition finalize_op :: string where "finalize_op = ''storage_write.finalize_stream''"

definition Service_Finalize ::
  "('c, 'r) Env \<Rightarrow> string \<Rightarrow> ('c, 'r) Service \<Rightarrow> (service_error + int) \<times> ('c, 'r) Service" where
  "Service_Finalize env name s =
     (case ensureStateReconciled finalize_op s of Some e \<Rightarrow> (Inl e, s)
      | None \<Rightarrow>
        (case ParseStreamName name of Inl err \<Rightarrow> (Inl (NewError ErrorInvalidArgument finalize_op err), s)
         | Inr (_, canonical, isDefault) \<Rightarrow>
           if isDefault
           then (Inl (NewError ErrorFailedPrecondition finalize_op (errors_New ''the default stream cannot be finalized'')), s)
           else case lookup canonical finalize_op s of Inl e \<Rightarrow> (Inl e, s)
           | Inr st \<Rightarrow>
             if StCleanupPhase st \<noteq> cleanupPhaseActive
             then (Inl (NewError ErrorNotFound finalize_op (errors_New ''write stream was discarded'')), s)
             else if WsState (StStream st) = StreamStateCommitted
             then (Inl (NewError ErrorFailedPrecondition finalize_op (errors_New ''write stream is already committed'')), s)
             else if StUnacknowledged st \<noteq> None
             then (Inl (NewError ErrorFailedPrecondition finalize_op
                    (errors_New ''an unacknowledged append must be reconciled before finalizing the stream'')), s)
             else
               (let stream1 = (StStream st)\<lparr>WsState := StreamStateFinalized, WsLastActivity := EnClock env 0\<rparr>;
                    updated = (streamRecord st)\<lparr>SrStream := stream1, SrRevision := next_revision (StRevision st)\<rparr> in
                case RpUpdateStream (EnRepository env) (StRevision st) updated (SvState s) of
                  (Some err, r) \<Rightarrow> (Inl (classifyStateError finalize_op err), s\<lparr>SvState := r\<rparr>)
                | (None, r) \<Rightarrow>
                    (Inr (WsRowCount stream1),
                     put_stream canonical (st\<lparr>StStream := stream1, StRevision := SrRevision updated\<rparr>)
                       (s\<lparr>SvState := r\<rparr>)))))"

section \<open>BatchCommit\<close>

definition commit_op :: string where "commit_op = ''storage_write.batch_commit''"

abbreviation stream_error :: "StreamErrorCode \<Rightarrow> string \<Rightarrow> string \<Rightarrow> StreamError" where
  "stream_error code stream message \<equiv> \<lparr>SeCode = code, SeStream = stream, SeMessage = message\<rparr>"

text \<open>The first loop: names to streams, without locks.\<close>

fun commit_resolve ::
  "TableReference \<Rightarrow> ('c, 'r) Service \<Rightarrow> string list \<Rightarrow> string list \<Rightarrow> (string \<times> streamState) list \<times> StreamError list" where
  "commit_resolve parent s unique [] = ([], [])"
| "commit_resolve parent s unique (name # names) =
     (let fail = (\<lambda>u e. case commit_resolve parent s u names of (sts, errs) \<Rightarrow> (sts, e # errs)) in
      case ParseStreamName name of
        Inl _ \<Rightarrow> fail unique (stream_error StreamNotFound name ''invalid stream resource'')
      | Inr (table, canonical, isDefault) \<Rightarrow>
        if canonical \<in> set unique
        then fail unique (stream_error InvalidStreamState canonical ''duplicate stream in commit request'')
        else let u = canonical # unique in
          if isDefault then fail u (stream_error InvalidStreamType canonical ''default stream is not PENDING'')
          else if table \<noteq> parent
          then fail u (stream_error InvalidStreamState canonical ''stream belongs to another table'')
          else case lookup canonical commit_op s of
            Inl _ \<Rightarrow> fail u (stream_error StreamNotFound canonical ''stream not found'')
          | Inr st \<Rightarrow> (case commit_resolve parent s u names of (sts, errs) \<Rightarrow> ((canonical, st) # sts, errs)))"

text \<open>The second loop, under the locks: the unresolved group the streams belong to, and their errors.\<close>

fun commit_check :: "string \<Rightarrow> (string \<times> streamState) list \<Rightarrow> string \<times> StreamError list" where
  "commit_check existing [] = (existing, [])"
| "commit_check existing ((name, st) # items) =
     (let fail = (\<lambda>e. case commit_check existing items of (g, errs) \<Rightarrow> (g, e # errs)) in
      if StCleanupPhase st \<noteq> cleanupPhaseActive
      then fail (stream_error StreamNotFound name ''stream was discarded'')
      else if WsType (StStream st) \<noteq> StreamTypePending
      then fail (stream_error InvalidStreamType name ''stream is not PENDING'')
      else if WsState (StStream st) = StreamStateCommitted
      then fail (stream_error StreamAlreadyCommitted name ''stream is already committed'')
      else if WsState (StStream st) \<noteq> StreamStateFinalized
      then fail (stream_error InvalidStreamState name ''stream must be finalized before commit'')
      else if StOperation st = OperationAppend
      then fail (stream_error InvalidStreamState name ''stream has an unresolved append'')
      else if StOperation st = OperationCommit
      then (if existing = [] then commit_check (StOperationToken st) items
            else if existing \<noteq> StOperationToken st
            then fail (stream_error InvalidStreamState name ''stream belongs to another unresolved commit'')
            else commit_check existing items)
      else if StOperation st \<noteq> OperationNone
      then fail (stream_error InvalidStreamState name ''stream has an invalid durable operation'')
      else commit_check existing items)"

definition expected_rows :: "(string \<times> streamState) list \<Rightarrow> (string, int) gomap" where
  "expected_rows items = map (\<lambda>(name, st). (name, WsRowCount (StStream st))) items"

definition expected_revisions :: "(string \<times> streamState) list \<Rightarrow> (string, int) gomap" where
  "expected_revisions items = map (\<lambda>(name, st). (name, StRevision st)) items"

definition commitGroupMatches ::
  "CommitGroup \<Rightarrow> TableReference \<Rightarrow> string list \<Rightarrow> (string, int) gomap \<Rightarrow> bool" where
  "commitGroupMatches g parent names rows \<longleftrightarrow>
     CgID g \<noteq> [] \<and> CgParent g = parent \<and> length (CgMembers g) = length names
     \<and> list_all2 (\<lambda>m name. CmStreamName m = name
          \<and> CmExpectedRowCount m = (case gm_get rows (CmStreamName m) of Some n \<Rightarrow> n | None \<Rightarrow> 0)) (CgMembers g) names
     \<and> i64_sum (map CmExpectedRowCount (CgMembers g)) = CgExpectedRowCount g"

fun put_streams :: "(string \<times> streamState) list \<Rightarrow> ('c, 'r) Service \<Rightarrow> ('c, 'r) Service" where
  "put_streams [] s = s"
| "put_streams ((name, st) # items) s = put_streams items (put_stream name st s)"

abbreviation put_group :: "CommitGroup \<Rightarrow> ('c, 'r) Service \<Rightarrow> ('c, 'r) Service" where
  "put_group g s \<equiv> s\<lparr>SvCommitGroups := gm_put (CgID g) g (SvCommitGroups s)\<rparr>"

abbreviation commit_errors :: "StreamError list \<Rightarrow> BatchCommitResult" where
  "commit_errors errs \<equiv> \<lparr>BcCommitTime = None, BcStreamErrors = errs\<rparr>"

definition new_commit_group ::
  "('c, 'r) Env \<Rightarrow> TableReference \<Rightarrow> (string \<times> streamState) list \<Rightarrow> CommitGroup" where
  "new_commit_group env parent items =
     \<lparr>CgID = digest (EnIDs env 0 @ [CHR 0x0A] @ strings_Join (map fst items) [CHR 0x0A]), CgParent = parent,
      CgMembers = map (\<lambda>(name, st). \<lparr>CmStreamName = name, CmExpectedRowCount = WsRowCount (StStream st)\<rparr>) items,
      CgExpectedRowCount = i64_sum (map (\<lambda>(_, st). WsRowCount (StStream st)) items), CgPhase = CommitPrepared,
      CgCreatedAt = EnClock env 0, CgUpdatedAt = EnClock env 0, CgCommitTime = None\<rparr>"

text \<open>The new state of one stream when its operation changes, its revision advanced.\<close>

definition set_operation :: "OperationKind \<Rightarrow> OperationPhase \<Rightarrow> string \<Rightarrow> streamState \<Rightarrow> streamState" where
  "set_operation op ph token st =
     st\<lparr>StOperation := op, StOperationPhase := ph, StOperationToken := token, StRevision := next_revision (StRevision st)\<rparr>"

text \<open>
  Choosing the commit group: the unresolved group that is being retried, or a new one that is
  recorded, with its members, before the side effect.
\<close>

definition commit_prepare ::
  "('c, 'r) Env \<Rightarrow> TableReference \<Rightarrow> string \<Rightarrow> (string \<times> streamState) list \<Rightarrow> ('c, 'r) Service
     \<Rightarrow> (service_error + (StreamError + CommitGroup \<times> (string \<times> streamState) list)) \<times> ('c, 'r) Service" where
  "commit_prepare env parent existing items s =
     (if existing \<noteq> [] then
        (case find (\<lambda>(name, st). StOperation st \<noteq> OperationCommit \<or> StOperationToken st \<noteq> existing) items of
           Some (name, _) \<Rightarrow>
             (Inr (Inl (stream_error InvalidStreamState name ''commit retry must contain the exact unresolved stream set'')), s)
         | None \<Rightarrow>
             (case gm_get (SvCommitGroups s) existing of
                Some g \<Rightarrow>
                  if commitGroupMatches g parent (map fst items) (expected_rows items)
                     \<and> (CgPhase g = CommitPrepared \<or> CgPhase g = CommitUnresolved)
                  then (Inr (Inr (g, items)), s)
                  else (Inr (Inl (stream_error InvalidStreamState (hd (map fst items))
                           ''commit retry does not match the unresolved commit group'')), s)
              | None \<Rightarrow> (Inr (Inl (stream_error InvalidStreamState (hd (map fst items))
                           ''commit retry does not match the unresolved commit group'')), s)))
      else
        (let g = new_commit_group env parent items;
             items1 = map (\<lambda>(name, st). (name, set_operation OperationCommit OperationPhasePrepared (CgID g) st)) items in
         case RpPrepareCommit (EnRepository env) (expected_revisions items)
                (map (\<lambda>(_, st). streamRecord st) items1) g (SvState s) of
           (Some err, r) \<Rightarrow> (Inl (classifyStateError commit_op err), s\<lparr>SvState := r\<rparr>)
         | (None, r) \<Rightarrow> (Inr (Inr (g, items1)), put_group g (put_streams items1 (s\<lparr>SvState := r\<rparr>)))))"

definition commit_failed ::
  "('c, 'r) Env \<Rightarrow> CommitGroup \<Rightarrow> (string \<times> streamState) list \<Rightarrow> go_error \<Rightarrow> ('c, 'r) Service
     \<Rightarrow> service_error \<times> ('c, 'r) Service" where
  "commit_failed env g items err s =
     (let failure = NewError (coordinatorErrorCode err ErrorInternal) commit_op err in
      if appendOutcomeIsAmbiguous err then
        (if CgPhase g = CommitPrepared then
           (let g1 = g\<lparr>CgPhase := CommitUnresolved, CgUpdatedAt := EnClock env 1\<rparr>;
                items1 = map (\<lambda>(name, st). (name, set_operation (StOperation st) OperationPhaseUnresolved (StOperationToken st) st)) items in
            case RpMarkCommitUnresolved (EnRepository env) (expected_revisions items)
                   (map (\<lambda>(_, st). streamRecord st) items1) g1 (SvState s) of
              (Some stateErr, r) \<Rightarrow> (classifyStateError commit_op (errors_Join err stateErr), s\<lparr>SvState := r\<rparr>)
            | (None, r) \<Rightarrow> (failure, put_group g1 (put_streams items1 (s\<lparr>SvState := r\<rparr>))))
         else (failure, s))
      else
        (let g1 = g\<lparr>CgPhase := CommitAborted, CgUpdatedAt := EnClock env 1\<rparr>;
             items1 = map (\<lambda>(name, st). (name, set_operation OperationNone OperationPhaseNone [] st)) items in
         case RpAbortCommit (EnRepository env) (expected_revisions items)
                (map (\<lambda>(_, st). streamRecord st) items1) g1 (SvState s) of
           (Some stateErr, r) \<Rightarrow> (classifyStateError commit_op (errors_Join err stateErr), s\<lparr>SvState := r\<rparr>)
         | (None, r) \<Rightarrow> (failure, put_group g1 (put_streams items1 (s\<lparr>SvState := r\<rparr>)))))"

definition committed_state :: "time \<Rightarrow> streamState \<Rightarrow> streamState" where
  "committed_state commitTime st =
     set_operation OperationNone OperationPhaseNone []
       (st\<lparr>StStream := (StStream st)\<lparr>WsState := StreamStateCommitted, WsCommitTime := Some commitTime,
                                     WsLastActivity := commitTime\<rparr>\<rparr>)"

definition commit_complete ::
  "('c, 'r) Env \<Rightarrow> CommitGroup \<Rightarrow> (string \<times> streamState) list \<Rightarrow> ('c, 'r) Service
     \<Rightarrow> (service_error + BatchCommitResult) \<times> ('c, 'r) Service" where
  "commit_complete env g items s =
     (let commitTime = EnClock env 2;
          items1 = map (\<lambda>(name, st). (name, committed_state commitTime st)) items;
          g1 = g\<lparr>CgPhase := CommitApplied, CgUpdatedAt := commitTime, CgCommitTime := Some commitTime\<rparr> in
      case RpCompleteCommit (EnRepository env) (expected_revisions items)
             (map (\<lambda>(_, st). streamRecord st) items1) g1 (SvState s) of
        (Some err, r) \<Rightarrow> (Inl (classifyStateError commit_op err), s\<lparr>SvState := r\<rparr>)
      | (None, r) \<Rightarrow>
          (Inr \<lparr>BcCommitTime = Some commitTime, BcStreamErrors = []\<rparr>,
           (put_group g1 (put_streams items1 (s\<lparr>SvState := r\<rparr>)))\<lparr>SvPending := SvPending s - int (length items)\<rparr>))"

definition Service_BatchCommit ::
  "('c, 'r) Env \<Rightarrow> TableReference \<Rightarrow> string list \<Rightarrow> ('c, 'r) Service
     \<Rightarrow> (service_error + BatchCommitResult) \<times> ('c, 'r) Service" where
  "Service_BatchCommit env parent names s =
     (case ensureStateReconciled commit_op s of Some e \<Rightarrow> (Inl e, s)
      | None \<Rightarrow>
        (case ParseTableName (TableReference_Name parent) of
           Inl err \<Rightarrow> (Inl (NewError ErrorInvalidArgument commit_op err), s)
         | Inr _ \<Rightarrow>
           if names = []
           then (Inl (NewError ErrorInvalidArgument commit_op (errors_New ''at least one stream is required'')), s)
           else case commit_resolve parent s [] names of (states, streamErrors) \<Rightarrow>
             if streamErrors \<noteq> [] then (Inr (commit_errors streamErrors), s)
             else let items = sort_key fst states in
               case commit_check [] items of (existing, streamErrors1) \<Rightarrow>
                 if streamErrors1 \<noteq> [] then (Inr (commit_errors streamErrors1), s)
                 else case commit_prepare env parent existing items s of
                   (Inl e, s1) \<Rightarrow> (Inl e, s1)
                 | (Inr (Inl streamErr), s1) \<Rightarrow> (Inr (commit_errors [streamErr]), s1)
                 | (Inr (Inr (g, items1)), s1) \<Rightarrow>
                     (case CommitPending (EnCoordinator env)
                             \<lparr>CrParent = parent, CrStreamNames = map fst items1, CrGroupID = CgID g,
                              CrExpectedRowCounts = expected_rows items1\<rparr> (SvCoordinator s1) of
                        (Some err, c) \<Rightarrow>
                          (case commit_failed env g items1 err (s1\<lparr>SvCoordinator := c\<rparr>) of (e, s2) \<Rightarrow> (Inl e, s2))
                      | (None, c) \<Rightarrow> commit_complete env g items1 (s1\<lparr>SvCoordinator := c\<rparr>))))"

end
