(* ===== verification/Write_Lifecycle.thy ===== *)
theory Write_Lifecycle
  imports Write_Service
begin

text \<open>
  Startup and disposal of the Storage Write service: \<open>ReconcilePersistedState\<close> of
  \<open>internal/storagewrite/application/state.go\<close> and \<open>SweepOrphans\<close>, \<open>RunCleanup\<close> and \<open>Close\<close> of
  \<open>internal/storagewrite/application/lifecycle.go\<close>. The caller's context is the function \<open>ctx\<close> that
  gives the error each of its inspections finds, numbered in program order.
\<close>

section \<open>Startup reconciliation\<close>

definition reconcile_op :: string where "reconcile_op = ''storage_write.reconcile_state''"

text \<open>The unresolved receipts by stream; a second one for the same stream is an error.\<close>

fun unresolved_receipts :: "(string, AppendReceipt) gomap \<Rightarrow> AppendReceipt list \<Rightarrow> (string, AppendReceipt) gomap option" where
  "unresolved_receipts acc [] = Some acc"
| "unresolved_receipts acc (r # rs) =
     (if RcPhase r = ReceiptUnresolved
      then (if gm_get acc (RcStreamName r) \<noteq> None then None
            else unresolved_receipts (gm_put (RcStreamName r) r acc) rs)
      else unresolved_receipts acc rs)"

definition receipt_of_record :: "AppendReceipt \<Rightarrow> appendReceipt" where
  "receipt_of_record r =
     \<lparr>apStartOffset = RcStartOffset r, apRowCount = RcRowCount r, apSchemaFingerprint = RcSchemaFingerprint r,
      apPayloadDigest = RcPayloadDigest r, apPhase = RcPhase r, apCreatedAt = RcCreatedAt r, apUpdatedAt = RcUpdatedAt r\<rparr>"

definition counts_as_pending :: "WriteStream \<Rightarrow> bool" where
  "counts_as_pending s \<longleftrightarrow> WsType s = StreamTypePending \<and> WsState s \<noteq> StreamStateCommitted"

text \<open>One record of the snapshot; an inconsistent one stops the loop with the streams installed so far.\<close>

fun install_streams ::
  "(string, AppendReceipt) gomap \<Rightarrow> StreamRecord list \<Rightarrow> ('c, 'r) Service \<Rightarrow> service_error option \<times> ('c, 'r) Service" where
  "install_streams receipts [] s = (None, s)"
| "install_streams receipts (rec # recs) s =
     (let name = WsName (SrStream rec); base = state_of_record rec;
          install = (\<lambda>st. install_streams receipts recs
            ((put_stream name st s)\<lparr>SvPending :=
               (if counts_as_pending (SrStream rec) then SvPending s + 1 else SvPending s)\<rparr>)) in
      if SrOperation rec = OperationAppend then
        (case gm_get receipts name of
           Some receipt \<Rightarrow>
             if ParseInt (SrOperationToken rec) = Some (RcStartOffset receipt)
             then install (base\<lparr>StUnacknowledged := Some (receipt_of_record receipt)\<rparr>)
             else (Some (NewError ErrorInternal reconcile_op (errors_New ''unresolved append receipt is inconsistent'')), s)
         | None \<Rightarrow> (Some (NewError ErrorInternal reconcile_op (errors_New ''unresolved append receipt is inconsistent'')), s))
      else install base)"

definition install_groups :: "CommitGroup list \<Rightarrow> ('c, 'r) Service \<Rightarrow> ('c, 'r) Service" where
  "install_groups gs s = foldl (\<lambda>s g. put_group g s) s gs"

definition ReconcilePersistedState ::
  "('c, 'r) Env \<Rightarrow> ('c, 'r) Service \<Rightarrow> service_error option \<times> ('c, 'r) Service" where
  "ReconcilePersistedState env s =
     (if SvClosed s
      then (Some (NewError ErrorFailedPrecondition reconcile_op (errors_New ''Storage Write service is closed'')), s)
      else if SvStateReconciled s then (None, s)
      else if SvStreams s \<noteq> []
      then (Some (NewError ErrorFailedPrecondition reconcile_op
              (errors_New ''Storage Write state reconciliation must run before requests'')), s)
      else case RpReconcileStartup (EnRepository env) (EnClock env 0) (SvState s) of
        (Inl err, r) \<Rightarrow> (Some (classifyStateError reconcile_op err), s\<lparr>SvState := r\<rparr>)
      | (Inr snapshot, r) \<Rightarrow>
          (case unresolved_receipts [] (SnReceipts snapshot) of
             None \<Rightarrow> (Some (NewError ErrorInternal reconcile_op (errors_New ''multiple unresolved receipts for one stream'')),
                      s\<lparr>SvState := r\<rparr>)
           | Some receipts \<Rightarrow>
               (case install_streams receipts (SnStreams snapshot)
                       (install_groups (SnCommitGroups snapshot) (s\<lparr>SvState := r\<rparr>)) of
                  (Some e, s1) \<Rightarrow> (Some e, s1)
                | (None, s1) \<Rightarrow> (None, s1\<lparr>SvStateReconciled := True\<rparr>))))"

section \<open>Orphan cleanup\<close>

definition eligible :: "time \<Rightarrow> streamState \<Rightarrow> bool" where
  "eligible cutoff st \<longleftrightarrow>
     counts_as_pending (StStream st) \<and> StOperation st = OperationNone
     \<and> (StCleanupPhase st = cleanupPhasePending
        \<or> (StCleanupPhase st = cleanupPhaseActive \<and> \<not> WsLastActivity (StStream st) > cutoff))"

definition orphans :: "time \<Rightarrow> ('c, 'r) Service \<Rightarrow> string list" where
  "orphans cutoff s = sort (map fst (filter (\<lambda>(_, st). eligible cutoff st) (SvStreams s)))"

definition join_error :: "go_error option \<Rightarrow> go_error option \<Rightarrow> go_error option" where
  "join_error a b = (case a of None \<Rightarrow> b | Some e \<Rightarrow> (case b of None \<Rightarrow> Some e | Some e' \<Rightarrow> Some (errors_Join e e')))"

text \<open>The record and the state of a stream that enters cleanup.\<close>

definition cleanup_state :: "streamState \<Rightarrow> streamState" where
  "cleanup_state st =
     st\<lparr>StCleanupPhase := cleanupPhasePending, StCleanupAttempts := (StCleanupAttempts st + 1) mod 2 ^ 64,
        StRevision := next_revision (StRevision st)\<rparr>"

definition discard_stream ::
  "('c, 'r) Env \<Rightarrow> string \<Rightarrow> ('c, 'r) Service \<Rightarrow> go_error option \<times> ('c, 'r) Service" where
  "discard_stream env name s =
     (case DiscardPending (EnCoordinator env) name (SvCoordinator s) of
        (Some err, c) \<Rightarrow> (Some err, s\<lparr>SvCoordinator := c\<rparr>)
      | (None, c) \<Rightarrow>
          (let s1 = s\<lparr>SvCoordinator := c\<rparr> in
           case gm_get (SvStreams s1) name of
             None \<Rightarrow> (None, s1)
           | Some st \<Rightarrow>
               if StCleanupPhase st \<noteq> cleanupPhasePending then (None, s1)
               else case RpDeleteStream (EnRepository env) name (StRevision st) (SvState s1) of
                 (Some err, r) \<Rightarrow> (Some err, s1\<lparr>SvState := r\<rparr>)
               | (None, r) \<Rightarrow>
                   (None, s1\<lparr>SvState := r, SvStreams := gm_del name (SvStreams s1), SvPending := SvPending s1 - 1\<rparr>)))"

definition sweep_stream ::
  "('c, 'r) Env \<Rightarrow> string \<Rightarrow> ('c, 'r) Service \<Rightarrow> go_error option \<times> ('c, 'r) Service" where
  "sweep_stream env name s =
     (case gm_get (SvStreams s) name of
        None \<Rightarrow> (None, s)
      | Some st \<Rightarrow>
          (let st1 = cleanup_state st in
           case RpUpdateStream (EnRepository env) (StRevision st) (streamRecord st1) (SvState s) of
             (Some err, r) \<Rightarrow> (Some err, s\<lparr>SvState := r\<rparr>)
           | (None, r) \<Rightarrow> discard_stream env name (put_stream name st1 (s\<lparr>SvState := r\<rparr>))))"

fun sweep_loop ::
  "('c, 'r) Env \<Rightarrow> (nat \<Rightarrow> go_error option) \<Rightarrow> nat \<Rightarrow> string list \<Rightarrow> go_error option \<Rightarrow> ('c, 'r) Service
     \<Rightarrow> go_error option \<times> ('c, 'r) Service" where
  "sweep_loop env ctx k [] result s = (result, s)"
| "sweep_loop env ctx k (name # names) result s =
     (case ctx k of
        Some err \<Rightarrow> (join_error result (Some err), s)
      | None \<Rightarrow> (case sweep_stream env name s of (err, s1) \<Rightarrow>
                   sweep_loop env ctx (Suc k) names (join_error result err) s1))"

definition sweep_op :: string where "sweep_op = ''storage_write.sweep_orphans''"

definition SweepOrphans ::
  "('c, 'r) Env \<Rightarrow> (nat \<Rightarrow> go_error option) \<Rightarrow> ('c, 'r) Service \<Rightarrow> service_error option \<times> ('c, 'r) Service" where
  "SweepOrphans env ctx s =
     (case ensureStateReconciled sweep_op s of Some e \<Rightarrow> (Some e, s)
      | None \<Rightarrow>
        (case ctx 0 of Some e \<Rightarrow> (Some (PlainError e), s)
         | None \<Rightarrow> (case ctx 1 of Some e \<Rightarrow> (Some (PlainError e), s)
         | None \<Rightarrow> (case ctx 2 of Some e \<Rightarrow> (Some (PlainError e), s)
         | None \<Rightarrow>
           (let cutoff = EnClock env 0 - CfOrphanTTL (SvConfig s) in
            case sweep_loop env ctx 3 (orphans cutoff s) None s of
              (err, s1) \<Rightarrow> (map_option PlainError err, s1))))))"

text \<open>\<open>RunCleanup\<close>: a sweep per tick, its error only logged, until the context is done.\<close>

fun RunCleanup ::
  "(('c, 'r) Env \<times> (nat \<Rightarrow> go_error option)) list \<Rightarrow> go_error \<Rightarrow> ('c, 'r) Service \<Rightarrow> go_error \<times> ('c, 'r) Service" where
  "RunCleanup [] done_err s = (done_err, s)"
| "RunCleanup ((env, ctx) # ticks) done_err s = RunCleanup ticks done_err (snd (SweepOrphans env ctx s))"

definition close_activity :: time where "close_activity = unix_epoch + 1"

text \<open>The loop of \<open>Close\<close>: every settled pending stream is aged so that the sweep after it takes it.\<close>

fun close_streams ::
  "('c, 'r) Env \<Rightarrow> string list \<Rightarrow> go_error option \<Rightarrow> ('c, 'r) Service \<Rightarrow> go_error option \<times> ('c, 'r) Service" where
  "close_streams env [] result s = (result, s)"
| "close_streams env (name # names) result s =
     (case gm_get (SvStreams s) name of
        None \<Rightarrow> close_streams env names result s
      | Some st \<Rightarrow>
          if counts_as_pending (StStream st) \<and> StOperation st = OperationNone then
            (let st1 = st\<lparr>StStream := (StStream st)\<lparr>WsLastActivity := close_activity\<rparr>,
                          StRevision := next_revision (StRevision st)\<rparr> in
             case RpUpdateStream (EnRepository env) (StRevision st) (streamRecord st1) (SvState s) of
               (Some err, r) \<Rightarrow> close_streams env names (join_error result (Some err)) (s\<lparr>SvState := r\<rparr>)
             | (None, r) \<Rightarrow> close_streams env names result (put_stream name st1 (s\<lparr>SvState := r\<rparr>)))
          else close_streams env names result s)"

definition Service_Close ::
  "('c, 'r) Env \<Rightarrow> (nat \<Rightarrow> go_error option) \<Rightarrow> ('c, 'r) Service \<Rightarrow> service_error option \<times> ('c, 'r) Service" where
  "Service_Close env ctx s =
     (case ensureStateReconciled ''storage_write.close'' s of Some e \<Rightarrow> (Some e, s)
      | None \<Rightarrow>
        (case close_streams env (map fst (SvStreams s)) None (s\<lparr>SvClosed := True\<rparr>) of (persistErr, s1) \<Rightarrow>
          (case SweepOrphans env ctx s1 of (sweepErr, s2) \<Rightarrow>
            (case sweepErr of
               None \<Rightarrow> (map_option PlainError persistErr, s2)
             | Some (PlainError e) \<Rightarrow> (map_option PlainError (join_error persistErr (Some e)), s2)
             | Some (NewError code op e) \<Rightarrow>
                 (Some (NewError code op (case persistErr of None \<Rightarrow> e | Some e' \<Rightarrow> errors_Join e' e)), s2)))))"

end
