(* ===== verification/Sqlite.thy ===== *)
theory Sqlite
  imports Prelude
begin

text \<open>
  What the SQLite adapters share: \<open>length\<close> of a TEXT value, as the CHECK constraints use it, and the timestamps of
  \<open>catalog.go\<close>, which are stored in the format RFC 3339 and read again.
\<close>

text \<open>SQLite's \<open>length\<close> of a TEXT value: its code points before the first NUL.\<close>

fun sqlite_length_from :: "bool \<Rightarrow> string \<Rightarrow> nat" where
  "sqlite_length_from after_lead [] = 0"
| "sqlite_length_from after_lead (c # cs) =
     (if c = CHR 0x00 then 0
      else if after_lead \<and> 128 \<le> (of_char c :: nat) \<and> (of_char c :: nat) < 192
      then sqlite_length_from True cs
      else Suc (sqlite_length_from (192 \<le> (of_char c :: nat)) cs))"

definition sqlite_length :: "string \<Rightarrow> nat" where
  "sqlite_length s = sqlite_length_from False s"

text \<open>
  A timestamp keeps its nanoseconds in RFC 3339, but only the years 0 to 9999 have four digits and can be parsed again.
  A stored time is the time itself; \<open>decodeTime\<close> of \<open>encodeTime\<close> fails for a time outside of these years.
\<close>

definition rfc3339_year :: "time \<Rightarrow> bool" where
  "rfc3339_year t \<longleftrightarrow> - 31622400 * 1000000000 \<le> t \<and> t < 315537897600 * 1000000000"

definition decodeTime :: "time \<Rightarrow> go_error + time" where
  "decodeTime t = (if rfc3339_year t then Inr t else Inl (errors_New ''decode persisted timestamp''))"

definition decodeOptionalTime :: "time option \<Rightarrow> go_error + time option" where
  "decodeOptionalTime t =
     (case t of None \<Rightarrow> Inr None
      | Some t \<Rightarrow> (case decodeTime t of Inl e \<Rightarrow> Inl e | Inr v \<Rightarrow> Inr (Some v)))"

lemma decodeTime_Inr: "decodeTime t = Inr v \<longleftrightarrow> rfc3339_year t \<and> v = t"
  by (auto simp: decodeTime_def)

lemma decodeOptionalTime_Inr:
  "decodeOptionalTime t = Inr v \<longleftrightarrow> v = t \<and> (case t of None \<Rightarrow> True | Some t \<Rightarrow> rfc3339_year t)"
  by (auto simp: decodeOptionalTime_def decodeTime_def split: option.splits)

end
