(* ===== verification/Write_Repository.thy ===== *)
theory Write_Repository
  imports Sqlite Write_Domain "HOL-Library.Product_Lexorder"
begin

text \<open>
  \<open>internal/adapters/sqlite/write_state.go\<close> with the tables, CHECK constraints, keys and triggers of
  migration 4 in \<open>internal/adapters/sqlite/state.go\<close>: the durable ledger behind the
  \<open>StateRepository\<close> port of the Storage Write service.

  The database is a record of three tables keyed by their primary keys; a commit group carries its
  members, which the code only ever inserts together with it. Stored times are what \<open>UnixNano\<close> and
  \<open>time.Unix(0, n)\<close> make of them. SQLite itself is a parameter: \<open>DbFaults\<close> lists the engine error, if
  any, that each coming call meets (a cancelled context, an I/O error); a failed call leaves the
  tables as they were, which is what SQLite documents of a transaction that is rolled back.
  A violated constraint is reported by the driver with \<open>constraint\<close> in its text, which is what
  \<open>sqliteConstraint\<close> looks for.
\<close>

section \<open>Tables\<close>

record WriteDB =
  DbStreams :: "(string, StreamRecord) gomap"
  DbReceipts :: "(string \<times> int, AppendReceipt) gomap"
  DbGroups :: "(string, CommitGroup) gomap"
  DbFaults :: "go_error option list"

definition db_time :: "time \<Rightarrow> time" where
  "db_time t = unix_epoch + wrap64 (t - unix_epoch)"

definition fingerprint_text :: "string \<Rightarrow> bool" where
  "fingerprint_text s \<longleftrightarrow> length s = 71 \<and> take 7 s = ''sha256:'' \<and> list_all is_hex (drop 7 s)"

definition write_streams_CHECK :: "StreamRecord \<Rightarrow> bool" where
  "write_streams_CHECK r \<longleftrightarrow>
     (let s = SrStream r in
      (WsType s = StreamTypeDefault \<or> WsType s = StreamTypePending)
      \<and> 0 \<le> WsRowCount s \<and> WsNextOffset s = WsRowCount s
      \<and> (SrOperation r = OperationNone \<or> SrOperation r = OperationAppend \<or> SrOperation r = OperationCommit)
      \<and> 0 < SrRevision r
      \<and> 1 \<le> sqlite_length (WsName s) \<and> sqlite_length (WsName s) \<le> 2304
      \<and> 0 < sqlite_length (ProjectID (WsParent s)) \<and> 0 < sqlite_length (DatasetID (WsParent s))
      \<and> 0 < sqlite_length (TableID (WsParent s))
      \<and> 0 < sqlite_length (WsLocation s)
      \<and> (WsSchemaFingerprint s = [] \<or> fingerprint_text (WsSchemaFingerprint s))
      \<and> ((SrOperation r = OperationNone \<and> SrOperationPhase r = OperationPhaseNone \<and> SrOperationToken r = [])
         \<or> (SrOperation r \<noteq> OperationNone \<and> SrOperationPhase r \<noteq> OperationPhaseNone
            \<and> 0 < sqlite_length (SrOperationToken r)))
      \<and> ((WsType s = StreamTypeDefault \<and> WsState s = StreamStateCommitted \<and> WsCommitTime s \<noteq> None)
         \<or> WsType s = StreamTypePending)
      \<and> (WsState s = StreamStateCommitted \<longleftrightarrow> WsCommitTime s \<noteq> None))"

definition append_receipts_CHECK :: "AppendReceipt \<Rightarrow> bool" where
  "append_receipts_CHECK r \<longleftrightarrow>
     0 \<le> RcStartOffset r \<and> 0 < RcRowCount r \<and> RcCreatedAt r \<le> RcUpdatedAt r
     \<and> fingerprint_text (RcSchemaFingerprint r) \<and> fingerprint_text (RcPayloadDigest r)"

definition commit_groups_CHECK :: "CommitGroup \<Rightarrow> bool" where
  "commit_groups_CHECK g \<longleftrightarrow>
     CgMembers g \<noteq> [] \<and> 0 \<le> CgExpectedRowCount g \<and> CgCreatedAt g \<le> CgUpdatedAt g
     \<and> 1 \<le> sqlite_length (CgID g) \<and> sqlite_length (CgID g) \<le> 256
     \<and> 1 \<le> sqlite_length (TableReference_Name (CgParent g))
     \<and> sqlite_length (TableReference_Name (CgParent g)) \<le> 2048
     \<and> (CgPhase g = CommitApplied \<longleftrightarrow> CgCommitTime g \<noteq> None)"

definition commit_members_CHECK :: "WriteDB \<Rightarrow> CommitMember list \<Rightarrow> bool" where
  "commit_members_CHECK db ms \<longleftrightarrow>
     list_all (\<lambda>m. 0 \<le> CmExpectedRowCount m \<and> gm_get (DbStreams db) (CmStreamName m) \<noteq> None) ms
     \<and> distinct (map CmStreamName ms)"

text \<open>\<open>bqemu_write_stream_identity_immutable\<close> and \<open>bqemu_write_stream_transition\<close>.\<close>

definition stream_identity_trigger :: "StreamRecord \<Rightarrow> StreamRecord \<Rightarrow> bool" where
  "stream_identity_trigger old new \<longleftrightarrow>
     WsName (SrStream old) = WsName (SrStream new) \<and> WsParent (SrStream old) = WsParent (SrStream new)
     \<and> WsType (SrStream old) = WsType (SrStream new)
     \<and> WsCreateTime (SrStream old) = WsCreateTime (SrStream new)
     \<and> WsLocation (SrStream old) = WsLocation (SrStream new)
     \<and> WsSchema (SrStream old) = WsSchema (SrStream new)"

definition stream_transition_trigger :: "StreamRecord \<Rightarrow> StreamRecord \<Rightarrow> bool" where
  "stream_transition_trigger old new \<longleftrightarrow>
     (let a = SrStream old; b = SrStream new in
      SrRevision new = SrRevision old + 1
      \<and> (WsState a = WsState b
         \<or> WsState a = StreamStateOpen \<and> WsState b = StreamStateFinalized
         \<or> WsState a = StreamStateFinalized \<and> WsState b = StreamStateCommitted)
      \<and> (WsSchemaFingerprint a = WsSchemaFingerprint b
         \<or> WsSchemaFingerprint a = [] \<and> WsSchemaFingerprint b \<noteq> []))"

definition commit_transition_trigger :: "CommitPhase \<Rightarrow> CommitPhase \<Rightarrow> bool" where
  "commit_transition_trigger old new \<longleftrightarrow>
     old = new \<or> old = CommitPrepared \<or> (old = CommitUnresolved \<and> new \<in> {CommitApplied, CommitAborted})"

section \<open>Encoding\<close>

definition writeStreamValues :: "StreamRecord \<Rightarrow> StreamRecord" where
  "writeStreamValues r =
     r\<lparr>SrStream := (SrStream r)\<lparr>WsCreateTime := db_time (WsCreateTime (SrStream r)),
         WsCommitTime := map_option db_time (WsCommitTime (SrStream r)),
         WsLastActivity := db_time (WsLastActivity (SrStream r))\<rparr>\<rparr>"

definition receipt_values :: "AppendReceipt \<Rightarrow> AppendReceipt" where
  "receipt_values r = r\<lparr>RcCreatedAt := db_time (RcCreatedAt r), RcUpdatedAt := db_time (RcUpdatedAt r)\<rparr>"

definition group_values :: "CommitGroup \<Rightarrow> CommitGroup" where
  "group_values g = g\<lparr>CgCreatedAt := db_time (CgCreatedAt g), CgUpdatedAt := db_time (CgUpdatedAt g),
     CgCommitTime := map_option db_time (CgCommitTime g)\<rparr>"

text \<open>\<open>database/sql\<close> refuses to bind a \<open>uint64\<close> whose high bit is set.\<close>

definition bind_error :: "StreamRecord \<Rightarrow> bool" where
  "bind_error r \<longleftrightarrow> 2 ^ 63 \<le> SrCleanupAttempts r"

section \<open>Validation\<close>

definition validateWriteStreamRecord :: "StreamRecord \<Rightarrow> go_error option" where
  "validateWriteStreamRecord r =
     (let s = SrStream r in
      case ParseStreamName (WsName s) of
        Inl _ \<Rightarrow> Some (errors_New ''invalid canonical Storage Write stream identity'')
      | Inr (table, canonical, isDefault) \<Rightarrow>
          if canonical \<noteq> WsName s \<or> table \<noteq> WsParent s
          then Some (errors_New ''invalid canonical Storage Write stream identity'')
          else if isDefault \<noteq> (WsType s = StreamTypeDefault)
          then Some (errors_New ''Storage Write stream name and type do not match'')
          else if IsZero (WsCreateTime s) \<or> IsZero (WsLastActivity s) \<or> WsLocation s = [] \<or> SrRevision r \<le> 0
          then Some (errors_New ''Storage Write stream timestamps, location, and revision are required'')
          else if WsRowCount s < 0 \<or> WsNextOffset s \<noteq> WsRowCount s
          then Some (errors_New ''Storage Write stream offset ledger is invalid'')
          else (case Fields_Validate (WsSchema s) of Some e \<Rightarrow> Some e
          | None \<Rightarrow>
            if (SrOperation r = OperationNone)
               \<noteq> (SrOperationPhase r = OperationPhaseNone \<and> SrOperationToken r = [])
            then Some (errors_New ''Storage Write operation phase/token invariant is invalid'')
            else if SrOperation r \<noteq> OperationNone
               \<and> (SrOperationPhase r = OperationPhaseNone \<or> SrOperationToken r = [])
            then Some (errors_New ''active Storage Write operation requires a phase and token'')
            else None))"

definition validateAppendChange :: "StreamRecord \<Rightarrow> AppendReceipt \<Rightarrow> go_error option" where
  "validateAppendChange r receipt =
     (case validateWriteStreamRecord r of Some e \<Rightarrow> Some e
      | None \<Rightarrow>
          if RcStreamName receipt \<noteq> WsName (SrStream r) \<or> RcStartOffset receipt < 0
             \<or> RcRowCount receipt \<le> 0 \<or> RcSchemaFingerprint receipt = [] \<or> RcPayloadDigest receipt = []
             \<or> IsZero (RcCreatedAt receipt) \<or> RcUpdatedAt receipt < RcCreatedAt receipt
          then Some (errors_New ''Storage Write append receipt identity is invalid'')
          else None)"

text \<open>The member loop of \<open>validateCommitChange\<close>.\<close>

fun commit_member_loop ::
  "CommitGroup \<Rightarrow> OperationPhase \<Rightarrow> CommitMember list \<Rightarrow> StreamRecord list \<Rightarrow> go_error option" where
  "commit_member_loop g phase (m # ms) (r # rs) =
     (if CmStreamName m \<noteq> WsName (SrStream r) \<or> CmExpectedRowCount m \<noteq> WsRowCount (SrStream r)
         \<or> WsParent (SrStream r) \<noteq> CgParent g
      then Some (errors_New ''Storage Write commit member does not match its stream'')
      else if phase = OperationPhaseNone \<and> SrOperation r \<noteq> OperationNone
      then Some (errors_New ''settled Storage Write commit stream retains an operation'')
      else if phase \<noteq> OperationPhaseNone
         \<and> (SrOperation r \<noteq> OperationCommit \<or> SrOperationPhase r \<noteq> phase \<or> SrOperationToken r \<noteq> CgID g)
      then Some (errors_New ''Storage Write commit stream operation does not match its group'')
      else commit_member_loop g phase ms rs)"
| "commit_member_loop g phase _ _ = None"

definition validateCommitChange ::
  "StreamRecord list \<Rightarrow> CommitGroup \<Rightarrow> OperationPhase \<Rightarrow> go_error option" where
  "validateCommitChange rs g phase =
     (if CgID g = [] \<or> CgMembers g = [] \<or> IsZero (CgCreatedAt g) \<or> CgUpdatedAt g < CgCreatedAt g
      then Some (errors_New ''Storage Write commit group identity is invalid'')
      else case ParseTableName (TableReference_Name (CgParent g)) of
        Inl _ \<Rightarrow> Some (errors_New ''Storage Write commit group parent is invalid'')
      | Inr _ \<Rightarrow>
        if length rs \<noteq> length (CgMembers g)
        then Some (errors_New ''Storage Write commit group membership is incomplete'')
        else (case commit_member_loop g phase (CgMembers g) rs of Some e \<Rightarrow> Some e
        | None \<Rightarrow>
          if i64_sum (map CmExpectedRowCount (CgMembers g)) \<noteq> CgExpectedRowCount g
          then Some (errors_New ''Storage Write commit group expected row count is invalid'')
          else None))"

section \<open>Transactions and statements\<close>

text \<open>
  One call: the engine error that awaits it, or its body, whose error rolls the tables back
  (\<open>defer tx.Rollback()\<close>).
\<close>

definition with_tx :: "(WriteDB \<Rightarrow> go_error + WriteDB) \<Rightarrow> WriteDB \<Rightarrow> go_error option \<times> WriteDB" where
  "with_tx body db =
     (let db0 = db\<lparr>DbFaults := tl (DbFaults db)\<rparr> in
      case DbFaults db of
        Some e # _ \<Rightarrow> (Some e, db0)
      | _ \<Rightarrow> (case body db0 of Inl e \<Rightarrow> (Some e, db0) | Inr db1 \<Rightarrow> (None, db1)))"

text \<open>
  The UPDATE of \<open>updateWriteStream\<close> sets every column but the name, the parent and the type, which
  keep the values of the row.
\<close>

definition updated_row :: "StreamRecord \<Rightarrow> StreamRecord \<Rightarrow> StreamRecord" where
  "updated_row old r =
     (let v = writeStreamValues r in
      v\<lparr>SrStream := (SrStream v)\<lparr>WsParent := WsParent (SrStream old), WsType := WsType (SrStream old)\<rparr>\<rparr>)"

definition updateWriteStream :: "int \<Rightarrow> StreamRecord \<Rightarrow> WriteDB \<Rightarrow> go_error + WriteDB" where
  "updateWriteStream expectedRevision r db =
     (if bind_error r then Inl (errors_New ''update Storage Write stream'')
      else case gm_get (DbStreams db) (WsName (SrStream r)) of
        None \<Rightarrow> Inl [ErrStateConflict]
      | Some old \<Rightarrow>
          if SrRevision old \<noteq> expectedRevision then Inl [ErrStateConflict]
          else let new = updated_row old r in
            if stream_identity_trigger old new \<and> stream_transition_trigger old new \<and> write_streams_CHECK new
            then Inr (db\<lparr>DbStreams := gm_put (WsName (SrStream r)) new (DbStreams db)\<rparr>)
            else Inl [ErrStateConflict])"

fun updateWriteStreams_from ::
  "string list \<Rightarrow> (string, int) gomap \<Rightarrow> StreamRecord list \<Rightarrow> WriteDB \<Rightarrow> go_error + WriteDB" where
  "updateWriteStreams_from seen expected [] db = Inr db"
| "updateWriteStreams_from seen expected (r # rs) db =
     (let name = WsName (SrStream r) in
      if name \<in> set seen then Inl [ErrStateConflict]
      else case gm_get expected name of
        None \<Rightarrow> Inl [ErrStateConflict]
      | Some revision \<Rightarrow>
          (case validateWriteStreamRecord r of Some e \<Rightarrow> Inl e
           | None \<Rightarrow> (case updateWriteStream revision r db of Inl e \<Rightarrow> Inl e
             | Inr db1 \<Rightarrow> updateWriteStreams_from (name # seen) expected rs db1)))"

definition updateWriteStreams ::
  "(string, int) gomap \<Rightarrow> StreamRecord list \<Rightarrow> WriteDB \<Rightarrow> go_error + WriteDB" where
  "updateWriteStreams expected rs db = updateWriteStreams_from [] expected rs db"

section \<open>Streams\<close>

definition repo_CreateStream :: "StreamRecord \<Rightarrow> WriteDB \<Rightarrow> go_error option \<times> WriteDB" where
  "repo_CreateStream r db =
     (case validateWriteStreamRecord r of Some e \<Rightarrow> (Some e, db)
      | None \<Rightarrow>
          with_tx (\<lambda>db.
            if bind_error r then Inl (errors_New ''create Storage Write stream'')
            else let row = writeStreamValues r; name = WsName (SrStream r) in
              if gm_get (DbStreams db) name \<noteq> None \<or> \<not> write_streams_CHECK row
              then Inl [ErrStateConflict]
              else Inr (db\<lparr>DbStreams := gm_put name row (DbStreams db)\<rparr>)) db)"

definition repo_GetStream :: "string \<Rightarrow> WriteDB \<Rightarrow> (go_error + StreamRecord) \<times> WriteDB" where
  "repo_GetStream name db =
     (let db0 = db\<lparr>DbFaults := tl (DbFaults db)\<rparr> in
      case DbFaults db of
        Some e # _ \<Rightarrow> (Inl e, db0)
      | _ \<Rightarrow> (case gm_get (DbStreams db) name of
                None \<Rightarrow> (Inl [ErrStateNotFound], db0) | Some r \<Rightarrow> (Inr r, db0)))"

definition repo_UpdateStream :: "int \<Rightarrow> StreamRecord \<Rightarrow> WriteDB \<Rightarrow> go_error option \<times> WriteDB" where
  "repo_UpdateStream expectedRevision r db =
     (case validateWriteStreamRecord r of Some e \<Rightarrow> (Some e, db)
      | None \<Rightarrow> with_tx (updateWriteStream expectedRevision r) db)"

text \<open>
  The DELETE matches a settled row of that revision. The receipts of the stream go with it
  (\<open>ON DELETE CASCADE\<close>); a row that a commit group still names cannot go.
\<close>

definition repo_DeleteStream :: "string \<Rightarrow> int \<Rightarrow> WriteDB \<Rightarrow> go_error option \<times> WriteDB" where
  "repo_DeleteStream name expectedRevision db =
     with_tx (\<lambda>db.
       case gm_get (DbStreams db) name of
         None \<Rightarrow> Inl [ErrStateConflict]
       | Some row \<Rightarrow>
           if SrRevision row \<noteq> expectedRevision \<or> SrOperation row \<noteq> OperationNone then Inl [ErrStateConflict]
           else if list_ex (\<lambda>(_, g). name \<in> CmStreamName ` set (CgMembers g)) (DbGroups db)
           then Inl [ErrStateConflict]
           else Inr (db\<lparr>DbStreams := gm_del name (DbStreams db),
                       DbReceipts := filter (\<lambda>((n, _), _). n \<noteq> name) (DbReceipts db)\<rparr>)) db"

section \<open>Appends\<close>

definition sameWriteReceiptIdentity :: "AppendReceipt \<Rightarrow> AppendReceipt \<Rightarrow> bool" where
  "sameWriteReceiptIdentity left right \<longleftrightarrow>
     RcStreamName left = RcStreamName right \<and> RcStartOffset left = RcStartOffset right
     \<and> RcRowCount left = RcRowCount right \<and> RcSchemaFingerprint left = RcSchemaFingerprint right
     \<and> RcPayloadDigest left = RcPayloadDigest right"

definition receipt_key :: "AppendReceipt \<Rightarrow> string \<times> int" where
  "receipt_key r = (RcStreamName r, RcStartOffset r)"

definition repo_PrepareAppend ::
  "int \<Rightarrow> StreamRecord \<Rightarrow> AppendReceipt \<Rightarrow> WriteDB \<Rightarrow> go_error option \<times> WriteDB" where
  "repo_PrepareAppend expectedRevision r receipt db =
     (if SrOperation r \<noteq> OperationAppend \<or> SrOperationPhase r \<noteq> OperationPhasePrepared
         \<or> RcPhase receipt \<noteq> ReceiptPrepared
      then (Some (errors_New ''Storage Write append preparation requires PREPARED stream and receipt state''), db)
      else case validateAppendChange r receipt of Some e \<Rightarrow> (Some e, db)
      | None \<Rightarrow>
          with_tx (\<lambda>db.
            let row = receipt_values receipt; key = receipt_key receipt in
            if gm_get (DbReceipts db) key \<noteq> None \<or> \<not> append_receipts_CHECK row
               \<or> gm_get (DbStreams db) (RcStreamName receipt) = None
            then (case gm_get (DbReceipts db) key of
                    Some existing \<Rightarrow>
                      if sameWriteReceiptIdentity existing receipt
                         \<and> (RcPhase existing = ReceiptPrepared \<or> RcPhase existing = ReceiptUnresolved)
                      then Inl [ErrExactReceipt] else Inl [ErrReceiptConflict]
                  | None \<Rightarrow> Inl [ErrReceiptConflict])
            else updateWriteStream expectedRevision r
                   (db\<lparr>DbReceipts := gm_put key row (DbReceipts db)\<rparr>)) db)"

text \<open>The row an UPDATE or DELETE of a receipt matches: same identity, its phase in \<open>from\<close>.\<close>

definition receipt_match :: "ReceiptPhase list \<Rightarrow> AppendReceipt \<Rightarrow> WriteDB \<Rightarrow> AppendReceipt option" where
  "receipt_match from receipt db =
     (case gm_get (DbReceipts db) (receipt_key receipt) of
        Some row \<Rightarrow> if RcPhase row \<in> set from \<and> RcRowCount row = RcRowCount receipt
                       \<and> RcSchemaFingerprint row = RcSchemaFingerprint receipt
                       \<and> RcPayloadDigest row = RcPayloadDigest receipt
                    then Some row else None
      | None \<Rightarrow> None)"

definition set_receipt_phase ::
  "ReceiptPhase list \<Rightarrow> ReceiptPhase \<Rightarrow> AppendReceipt \<Rightarrow> WriteDB \<Rightarrow> go_error + WriteDB" where
  "set_receipt_phase from to receipt db =
     (case receipt_match from receipt db of
        None \<Rightarrow> Inl [ErrReceiptConflict]
      | Some row \<Rightarrow>
          (let new = row\<lparr>RcPhase := to, RcUpdatedAt := db_time (RcUpdatedAt receipt)\<rparr> in
           if append_receipts_CHECK new
           then Inr (db\<lparr>DbReceipts := gm_put (receipt_key receipt) new (DbReceipts db)\<rparr>)
           else Inl (errors_New ''constraint failed'')))"

definition delete_receipt :: "AppendReceipt \<Rightarrow> WriteDB \<Rightarrow> go_error + WriteDB" where
  "delete_receipt receipt db =
     (case receipt_match [ReceiptPrepared, ReceiptUnresolved] receipt db of
        None \<Rightarrow> Inl [ErrReceiptConflict]
      | Some row \<Rightarrow> Inr (db\<lparr>DbReceipts := gm_del (receipt_key receipt) (DbReceipts db)\<rparr>))"

definition changeAppend ::
  "int \<Rightarrow> StreamRecord \<Rightarrow> AppendReceipt \<Rightarrow> (WriteDB \<Rightarrow> go_error + WriteDB) \<Rightarrow> WriteDB
     \<Rightarrow> go_error option \<times> WriteDB" where
  "changeAppend expectedRevision r receipt change db =
     (case validateAppendChange r receipt of Some e \<Rightarrow> (Some e, db)
      | None \<Rightarrow>
          with_tx (\<lambda>db. case change db of Inl e \<Rightarrow> Inl e
                        | Inr db1 \<Rightarrow> updateWriteStream expectedRevision r db1) db)"

definition repo_MarkAppendUnresolved ::
  "int \<Rightarrow> StreamRecord \<Rightarrow> AppendReceipt \<Rightarrow> WriteDB \<Rightarrow> go_error option \<times> WriteDB" where
  "repo_MarkAppendUnresolved expectedRevision r receipt db =
     (if SrOperationPhase r \<noteq> OperationPhaseUnresolved \<or> RcPhase receipt \<noteq> ReceiptUnresolved
      then (Some (errors_New ''Storage Write unresolved append requires UNRESOLVED stream and receipt state''), db)
      else changeAppend expectedRevision r receipt
             (set_receipt_phase [ReceiptPrepared] ReceiptUnresolved receipt) db)"

definition repo_CompleteAppend ::
  "int \<Rightarrow> StreamRecord \<Rightarrow> AppendReceipt \<Rightarrow> WriteDB \<Rightarrow> go_error option \<times> WriteDB" where
  "repo_CompleteAppend expectedRevision r receipt db =
     (if SrOperation r \<noteq> OperationNone \<or> RcPhase receipt \<noteq> ReceiptApplied
      then (Some (errors_New ''Storage Write append completion requires settled stream and APPLIED receipt state''), db)
      else changeAppend expectedRevision r receipt
             (set_receipt_phase [ReceiptPrepared, ReceiptUnresolved] ReceiptApplied receipt) db)"

definition repo_AbortAppend ::
  "int \<Rightarrow> StreamRecord \<Rightarrow> AppendReceipt \<Rightarrow> WriteDB \<Rightarrow> go_error option \<times> WriteDB" where
  "repo_AbortAppend expectedRevision r receipt db =
     (if SrOperation r \<noteq> OperationNone
      then (Some (errors_New ''Storage Write append abort requires a settled stream''), db)
      else changeAppend expectedRevision r receipt (delete_receipt receipt) db)"

section \<open>Commits\<close>

definition repo_PrepareCommit ::
  "(string, int) gomap \<Rightarrow> StreamRecord list \<Rightarrow> CommitGroup \<Rightarrow> WriteDB \<Rightarrow> go_error option \<times> WriteDB" where
  "repo_PrepareCommit expected rs g db =
     (if CgPhase g \<noteq> CommitPrepared
      then (Some (errors_New ''new Storage Write commit group must be PREPARED''), db)
      else case validateCommitChange rs g OperationPhasePrepared of Some e \<Rightarrow> (Some e, db)
      | None \<Rightarrow>
          with_tx (\<lambda>db.
            let row = (group_values g)\<lparr>CgCommitTime := None\<rparr> in
            if gm_get (DbGroups db) (CgID g) \<noteq> None \<or> \<not> commit_groups_CHECK row
               \<or> \<not> commit_members_CHECK db (CgMembers g)
            then Inl [ErrCommitGroupConflict]
            else updateWriteStreams expected rs
                   (db\<lparr>DbGroups := gm_put (CgID g) row (DbGroups db)\<rparr>)) db)"

definition changeCommit ::
  "(string, int) gomap \<Rightarrow> StreamRecord list \<Rightarrow> CommitGroup \<Rightarrow> OperationPhase \<Rightarrow> CommitPhase list \<Rightarrow> WriteDB
     \<Rightarrow> go_error option \<times> WriteDB" where
  "changeCommit expected rs g recordPhase from db =
     (case validateCommitChange rs g recordPhase of Some e \<Rightarrow> (Some e, db)
      | None \<Rightarrow>
          with_tx (\<lambda>db.
            case gm_get (DbGroups db) (CgID g) of
              None \<Rightarrow> Inl [ErrCommitGroupConflict]
            | Some row \<Rightarrow>
                if CgPhase row \<notin> set from then Inl [ErrCommitGroupConflict]
                else let new = row\<lparr>CgPhase := CgPhase g, CgUpdatedAt := db_time (CgUpdatedAt g),
                                 CgCommitTime := map_option db_time (CgCommitTime g)\<rparr> in
                  if commit_transition_trigger (CgPhase row) (CgPhase new) \<and> commit_groups_CHECK new
                  then updateWriteStreams expected rs
                         (db\<lparr>DbGroups := gm_put (CgID g) new (DbGroups db)\<rparr>)
                  else Inl (errors_New ''constraint failed'')) db)"

definition repo_MarkCommitUnresolved ::
  "(string, int) gomap \<Rightarrow> StreamRecord list \<Rightarrow> CommitGroup \<Rightarrow> WriteDB \<Rightarrow> go_error option \<times> WriteDB" where
  "repo_MarkCommitUnresolved expected rs g db =
     (if CgPhase g \<noteq> CommitUnresolved
      then (Some (errors_New ''Storage Write unresolved commit group must be UNRESOLVED''), db)
      else changeCommit expected rs g OperationPhaseUnresolved [CommitPrepared] db)"

definition repo_CompleteCommit ::
  "(string, int) gomap \<Rightarrow> StreamRecord list \<Rightarrow> CommitGroup \<Rightarrow> WriteDB \<Rightarrow> go_error option \<times> WriteDB" where
  "repo_CompleteCommit expected rs g db =
     (if CgPhase g \<noteq> CommitApplied \<or> CgCommitTime g = None
      then (Some (errors_New ''completed Storage Write commit group must be APPLIED with a commit time''), db)
      else changeCommit expected rs g OperationPhaseNone [CommitPrepared, CommitUnresolved] db)"

definition repo_AbortCommit ::
  "(string, int) gomap \<Rightarrow> StreamRecord list \<Rightarrow> CommitGroup \<Rightarrow> WriteDB \<Rightarrow> go_error option \<times> WriteDB" where
  "repo_AbortCommit expected rs g db =
     (if CgPhase g \<noteq> CommitAborted \<or> CgCommitTime g \<noteq> None
      then (Some (errors_New ''aborted Storage Write commit group must be ABORTED without a commit time''), db)
      else changeCommit expected rs g OperationPhaseNone [CommitPrepared, CommitUnresolved] db)"

section \<open>Startup\<close>

definition sorted_rows :: "('k::linorder, 'v) gomap \<Rightarrow> 'v list" where
  "sorted_rows rows = map snd (sort_key fst rows)"

definition loadWriteCommitGroups :: "WriteDB \<Rightarrow> go_error + CommitGroup list" where
  "loadWriteCommitGroups db =
     (let gs = sorted_rows (DbGroups db) in
      if list_all (\<lambda>g. ParseTableName (TableReference_Name (CgParent g)) = Inr (CgParent g)) gs
      then Inr gs else Inl (errors_New ''decode Storage Write commit parent''))"

definition loadWriteSnapshot :: "WriteDB \<Rightarrow> go_error + StartupSnapshot" where
  "loadWriteSnapshot db =
     (case loadWriteCommitGroups db of Inl e \<Rightarrow> Inl e
      | Inr gs \<Rightarrow> Inr \<lparr>SnStreams = sorted_rows (DbStreams db), SnReceipts = sorted_rows (DbReceipts db),
                    SnCommitGroups = gs\<rparr>)"

definition commitGroupContains :: "CommitGroup \<Rightarrow> string \<Rightarrow> bool" where
  "commitGroupContains g stream \<longleftrightarrow> list_ex (\<lambda>m. CmStreamName m = stream) (CgMembers g)"

definition snapshot_stream :: "StartupSnapshot \<Rightarrow> string \<Rightarrow> StreamRecord option" where
  "snapshot_stream sn name = find (\<lambda>r. WsName (SrStream r) = name) (SnStreams sn)"

definition snapshot_group_error :: "StartupSnapshot \<Rightarrow> CommitGroup \<Rightarrow> go_error option" where
  "snapshot_group_error sn g =
     (if \<not> list_all (\<lambda>m. case snapshot_stream sn (CmStreamName m) of None \<Rightarrow> False
           | Some r \<Rightarrow> WsParent (SrStream r) = CgParent g
                      \<and> WsRowCount (SrStream r) = CmExpectedRowCount m) (CgMembers g)
      then Some (errors_New ''Storage Write commit group does not match its stream ledger'')
      else if i64_sum (map CmExpectedRowCount (CgMembers g)) \<noteq> CgExpectedRowCount g
      then Some (errors_New ''Storage Write commit group expected row count is inconsistent'')
      else None)"

text \<open>The receipts of one stream in offset order: the end of the applied prefix and the count of unresolved ones.\<close>

fun receipt_loop :: "int \<Rightarrow> int \<times> nat \<Rightarrow> AppendReceipt list \<Rightarrow> go_error + int \<times> nat" where
  "receipt_loop nextOffset acc [] = Inr acc"
| "receipt_loop nextOffset (applied, unresolved) (r # rs) =
     (case RcPhase r of
        ReceiptApplied \<Rightarrow>
          (if RcStartOffset r \<noteq> applied then Inl (errors_New ''Storage Write receipt continuity failed'')
           else receipt_loop nextOffset (i64_add applied (RcRowCount r), unresolved) rs)
      | ReceiptUnresolved \<Rightarrow>
          (if RcStartOffset r \<noteq> nextOffset then Inl (errors_New ''Storage Write unresolved receipt offset failed'')
           else receipt_loop nextOffset (applied, Suc unresolved) rs)
      | ReceiptPrepared \<Rightarrow> Inl (errors_New ''Storage Write startup retained receipt phase PREPARED''))"

definition stream_receipts :: "StartupSnapshot \<Rightarrow> string \<Rightarrow> AppendReceipt list" where
  "stream_receipts sn name = sort_key RcStartOffset (filter (\<lambda>r. RcStreamName r = name) (SnReceipts sn))"

definition snapshot_stream_error :: "StartupSnapshot \<Rightarrow> StreamRecord \<Rightarrow> go_error option" where
  "snapshot_stream_error sn r =
     (let s = SrStream r; name = WsName s in
      case receipt_loop (WsNextOffset s) (0, 0) (stream_receipts sn name) of Inl e \<Rightarrow> Some e
      | Inr (applied, unresolved) \<Rightarrow>
          if applied \<noteq> WsRowCount s \<or> 1 < unresolved
          then Some (errors_New ''Storage Write receipt total failed'')
          else case SrOperation r of
            OperationNone \<Rightarrow>
              if unresolved \<noteq> 0 then Some (errors_New ''settled stream retains an unresolved receipt'') else None
          | OperationAppend \<Rightarrow>
              if ParseInt (SrOperationToken r) \<noteq> Some (WsNextOffset s) \<or> unresolved \<noteq> 1
                 \<or> SrOperationPhase r \<noteq> OperationPhaseUnresolved
              then Some (errors_New ''Storage Write append reconciliation failed'') else None
          | OperationCommit \<Rightarrow>
              (case find (\<lambda>g. CgID g = SrOperationToken r) (SnCommitGroups sn) of
                 None \<Rightarrow> Some (errors_New ''Storage Write commit reconciliation failed'')
               | Some g \<Rightarrow>
                   if CgPhase g \<noteq> CommitUnresolved \<or> SrOperationPhase r \<noteq> OperationPhaseUnresolved
                      \<or> \<not> commitGroupContains g name
                   then Some (errors_New ''Storage Write commit reconciliation failed'') else None)
          | OperationOther _ \<Rightarrow> Some (errors_New ''Storage Write stream has unknown operation''))"

fun first_error :: "('a \<Rightarrow> go_error option) \<Rightarrow> 'a list \<Rightarrow> go_error option" where
  "first_error f [] = None"
| "first_error f (x # xs) = (case f x of Some e \<Rightarrow> Some e | None \<Rightarrow> first_error f xs)"

definition validateWriteSnapshot :: "StartupSnapshot \<Rightarrow> go_error option" where
  "validateWriteSnapshot sn =
     (case first_error validateWriteStreamRecord (SnStreams sn) of Some e \<Rightarrow> Some e
      | None \<Rightarrow>
        if \<not> distinct (map (WsName \<circ> SrStream) (SnStreams sn))
        then Some (errors_New ''duplicate Storage Write stream in startup snapshot'')
        else if \<not> list_all (\<lambda>r. snapshot_stream sn (RcStreamName r) \<noteq> None) (SnReceipts sn)
        then Some (errors_New ''Storage Write receipt references a missing stream'')
        else case first_error (snapshot_group_error sn) (SnCommitGroups sn) of Some e \<Rightarrow> Some e
        | None \<Rightarrow> first_error (snapshot_stream_error sn) (SnStreams sn))"

text \<open>The three UPDATE statements that classify what a stopped process left behind.\<close>

definition classify_prepared :: "time \<Rightarrow> WriteDB \<Rightarrow> go_error + WriteDB" where
  "classify_prepared now db =
     (let receipts = map (\<lambda>(k, r). (k, if RcPhase r = ReceiptPrepared
            then r\<lparr>RcPhase := ReceiptUnresolved, RcUpdatedAt := db_time now\<rparr> else r)) (DbReceipts db);
          groups = map (\<lambda>(k, g). (k, if CgPhase g = CommitPrepared
            then g\<lparr>CgPhase := CommitUnresolved, CgUpdatedAt := db_time now\<rparr> else g)) (DbGroups db);
          streams = map (\<lambda>(k, r). (k, if SrOperationPhase r = OperationPhasePrepared
            then r\<lparr>SrOperationPhase := OperationPhaseUnresolved, SrRevision := SrRevision r + 1\<rparr> else r)) (DbStreams db) in
      if list_all (\<lambda>(_, r). append_receipts_CHECK r) receipts
         \<and> list_all (\<lambda>(_, g). commit_groups_CHECK g) groups
      then Inr (db\<lparr>DbReceipts := receipts, DbGroups := groups, DbStreams := streams\<rparr>)
      else Inl (errors_New ''constraint failed''))"

definition repo_ReconcileStartup :: "time \<Rightarrow> WriteDB \<Rightarrow> (go_error + StartupSnapshot) \<times> WriteDB" where
  "repo_ReconcileStartup now db =
     (let db0 = db\<lparr>DbFaults := tl (DbFaults db)\<rparr> in
      case DbFaults db of
        Some e # _ \<Rightarrow> (Inl e, db0)
      | _ \<Rightarrow>
        (case classify_prepared now db0 of Inl e \<Rightarrow> (Inl e, db0)
         | Inr db1 \<Rightarrow>
           (case loadWriteSnapshot db1 of Inl e \<Rightarrow> (Inl e, db0)
            | Inr sn \<Rightarrow> (case validateWriteSnapshot sn of
                           Some e \<Rightarrow> (Inl e, db0) | None \<Rightarrow> (Inr sn, db1)))))"

end
