(* ===== verification/Write_Ledger_Spec.thy ===== *)
theory Write_Ledger_Spec
  imports Write_Repository
begin

text \<open>
  The abstract ledger behind \<open>ports.StateRepository\<close>: three partial maps and, for each operation of
  the port, the map transformation it performs, or \<open>None\<close> when its preconditions (compare-and-swap
  revision, keys, transitions) fail. The SQLite repository refines it: a call that succeeds performs
  that transformation, a call that fails changes nothing, and when the engine has no fault the call
  succeeds exactly when the transformation is defined.
\<close>

record LedgerView =
  LvStreams :: "string \<rightharpoonup> StreamRecord"
  LvReceipts :: "string \<times> int \<rightharpoonup> AppendReceipt"
  LvGroups :: "string \<rightharpoonup> CommitGroup"

definition view :: "WriteDB \<Rightarrow> LedgerView" where
  "view db = \<lparr>LvStreams = gm_get (DbStreams db), LvReceipts = gm_get (DbReceipts db), LvGroups = gm_get (DbGroups db)\<rparr>"

definition row_update_ok :: "StreamRecord \<Rightarrow> StreamRecord \<Rightarrow> bool" where
  "row_update_ok old new \<longleftrightarrow>
     stream_identity_trigger old new \<and> stream_transition_trigger old new \<and> write_streams_CHECK new"

text \<open>The compare-and-swap of one stream.\<close>

definition spec_put :: "int \<Rightarrow> StreamRecord \<Rightarrow> LedgerView \<Rightarrow> LedgerView option" where
  "spec_put revision r v =
     (case LvStreams v (WsName (SrStream r)) of
        None \<Rightarrow> None
      | Some old \<Rightarrow>
          if SrRevision old = revision \<and> row_update_ok old (updated_row old r) \<and> \<not> bind_error r
          then Some (v\<lparr>LvStreams := (LvStreams v)(WsName (SrStream r) \<mapsto> updated_row old r)\<rparr>) else None)"

definition spec_create :: "StreamRecord \<Rightarrow> LedgerView \<Rightarrow> LedgerView option" where
  "spec_create r v =
     (if validateWriteStreamRecord r = None \<and> \<not> bind_error r \<and> LvStreams v (WsName (SrStream r)) = None
         \<and> write_streams_CHECK (writeStreamValues r)
      then Some (v\<lparr>LvStreams := (LvStreams v)(WsName (SrStream r) \<mapsto> writeStreamValues r)\<rparr>) else None)"

definition spec_update :: "int \<Rightarrow> StreamRecord \<Rightarrow> LedgerView \<Rightarrow> LedgerView option" where
  "spec_update revision r v = (if validateWriteStreamRecord r = None then spec_put revision r v else None)"

definition spec_delete :: "string \<Rightarrow> int \<Rightarrow> LedgerView \<Rightarrow> LedgerView option" where
  "spec_delete name revision v =
     (case LvStreams v name of
        None \<Rightarrow> None
      | Some old \<Rightarrow>
          if SrRevision old = revision \<and> SrOperation old = OperationNone
             \<and> (\<forall>g \<in> ran (LvGroups v). name \<notin> CmStreamName ` set (CgMembers g))
          then Some (v\<lparr>LvStreams := (LvStreams v)(name := None),
                      LvReceipts := (\<lambda>k. if fst k = name then None else LvReceipts v k)\<rparr>)
          else None)"

definition spec_prepare_append :: "int \<Rightarrow> StreamRecord \<Rightarrow> AppendReceipt \<Rightarrow> LedgerView \<Rightarrow> LedgerView option" where
  "spec_prepare_append revision r receipt v =
     (if SrOperation r = OperationAppend \<and> SrOperationPhase r = OperationPhasePrepared \<and> RcPhase receipt = ReceiptPrepared
         \<and> validateAppendChange r receipt = None \<and> LvReceipts v (receipt_key receipt) = None
         \<and> append_receipts_CHECK (receipt_values receipt) \<and> LvStreams v (RcStreamName receipt) \<noteq> None
      then spec_put revision r
             (v\<lparr>LvReceipts := (LvReceipts v)(receipt_key receipt \<mapsto> receipt_values receipt)\<rparr>)
      else None)"

definition receipt_matches :: "ReceiptPhase list \<Rightarrow> AppendReceipt \<Rightarrow> AppendReceipt \<Rightarrow> bool" where
  "receipt_matches from receipt row \<longleftrightarrow>
     RcPhase row \<in> set from \<and> RcRowCount row = RcRowCount receipt
     \<and> RcSchemaFingerprint row = RcSchemaFingerprint receipt \<and> RcPayloadDigest row = RcPayloadDigest receipt"

definition spec_settle_receipt ::
  "ReceiptPhase list \<Rightarrow> ReceiptPhase \<Rightarrow> int \<Rightarrow> StreamRecord \<Rightarrow> AppendReceipt \<Rightarrow> LedgerView \<Rightarrow> LedgerView option" where
  "spec_settle_receipt from to revision r receipt v =
     (case LvReceipts v (receipt_key receipt) of
        None \<Rightarrow> None
      | Some row \<Rightarrow>
          (let new = row\<lparr>RcPhase := to, RcUpdatedAt := db_time (RcUpdatedAt receipt)\<rparr> in
           if validateAppendChange r receipt = None \<and> receipt_matches from receipt row \<and> append_receipts_CHECK new
           then spec_put revision r (v\<lparr>LvReceipts := (LvReceipts v)(receipt_key receipt \<mapsto> new)\<rparr>)
           else None))"

definition spec_mark_append :: "int \<Rightarrow> StreamRecord \<Rightarrow> AppendReceipt \<Rightarrow> LedgerView \<Rightarrow> LedgerView option" where
  "spec_mark_append revision r receipt v =
     (if SrOperationPhase r = OperationPhaseUnresolved \<and> RcPhase receipt = ReceiptUnresolved
      then spec_settle_receipt [ReceiptPrepared] ReceiptUnresolved revision r receipt v else None)"

definition spec_complete_append :: "int \<Rightarrow> StreamRecord \<Rightarrow> AppendReceipt \<Rightarrow> LedgerView \<Rightarrow> LedgerView option" where
  "spec_complete_append revision r receipt v =
     (if SrOperation r = OperationNone \<and> RcPhase receipt = ReceiptApplied
      then spec_settle_receipt [ReceiptPrepared, ReceiptUnresolved] ReceiptApplied revision r receipt v else None)"

definition spec_abort_append :: "int \<Rightarrow> StreamRecord \<Rightarrow> AppendReceipt \<Rightarrow> LedgerView \<Rightarrow> LedgerView option" where
  "spec_abort_append revision r receipt v =
     (case LvReceipts v (receipt_key receipt) of
        None \<Rightarrow> None
      | Some row \<Rightarrow>
          if SrOperation r = OperationNone \<and> validateAppendChange r receipt = None
             \<and> receipt_matches [ReceiptPrepared, ReceiptUnresolved] receipt row
          then spec_put revision r (v\<lparr>LvReceipts := (LvReceipts v)(receipt_key receipt := None)\<rparr>)
          else None)"

fun spec_puts :: "string list \<Rightarrow> (string, int) gomap \<Rightarrow> StreamRecord list \<Rightarrow> LedgerView \<Rightarrow> LedgerView option" where
  "spec_puts seen expected [] v = Some v"
| "spec_puts seen expected (r # rs) v =
     (let name = WsName (SrStream r) in
      case gm_get expected name of
        None \<Rightarrow> None
      | Some revision \<Rightarrow>
          if name \<notin> set seen \<and> validateWriteStreamRecord r = None
          then (case spec_put revision r v of None \<Rightarrow> None | Some v1 \<Rightarrow> spec_puts (name # seen) expected rs v1)
          else None)"

definition spec_prepare_commit ::
  "(string, int) gomap \<Rightarrow> StreamRecord list \<Rightarrow> CommitGroup \<Rightarrow> LedgerView \<Rightarrow> LedgerView option" where
  "spec_prepare_commit expected rs g v =
     (let row = (group_values g)\<lparr>CgCommitTime := None\<rparr> in
      if CgPhase g = CommitPrepared \<and> validateCommitChange rs g OperationPhasePrepared = None
         \<and> LvGroups v (CgID g) = None \<and> commit_groups_CHECK row
         \<and> list_all (\<lambda>m. 0 \<le> CmExpectedRowCount m \<and> LvStreams v (CmStreamName m) \<noteq> None) (CgMembers g)
         \<and> distinct (map CmStreamName (CgMembers g))
      then spec_puts [] expected rs (v\<lparr>LvGroups := (LvGroups v)(CgID g \<mapsto> row)\<rparr>)
      else None)"

definition spec_change_commit ::
  "OperationPhase \<Rightarrow> CommitPhase list \<Rightarrow> (string, int) gomap \<Rightarrow> StreamRecord list \<Rightarrow> CommitGroup \<Rightarrow> LedgerView
     \<Rightarrow> LedgerView option" where
  "spec_change_commit recordPhase from expected rs g v =
     (case LvGroups v (CgID g) of
        None \<Rightarrow> None
      | Some row \<Rightarrow>
          (let new = row\<lparr>CgPhase := CgPhase g, CgUpdatedAt := db_time (CgUpdatedAt g),
                        CgCommitTime := map_option db_time (CgCommitTime g)\<rparr> in
           if validateCommitChange rs g recordPhase = None \<and> CgPhase row \<in> set from
              \<and> commit_transition_trigger (CgPhase row) (CgPhase g) \<and> commit_groups_CHECK new
           then spec_puts [] expected rs (v\<lparr>LvGroups := (LvGroups v)(CgID g \<mapsto> new)\<rparr>)
           else None))"

definition spec_mark_commit ::
  "(string, int) gomap \<Rightarrow> StreamRecord list \<Rightarrow> CommitGroup \<Rightarrow> LedgerView \<Rightarrow> LedgerView option" where
  "spec_mark_commit expected rs g v =
     (if CgPhase g = CommitUnresolved
      then spec_change_commit OperationPhaseUnresolved [CommitPrepared] expected rs g v else None)"

definition spec_complete_commit ::
  "(string, int) gomap \<Rightarrow> StreamRecord list \<Rightarrow> CommitGroup \<Rightarrow> LedgerView \<Rightarrow> LedgerView option" where
  "spec_complete_commit expected rs g v =
     (if CgPhase g = CommitApplied \<and> CgCommitTime g \<noteq> None
      then spec_change_commit OperationPhaseNone [CommitPrepared, CommitUnresolved] expected rs g v else None)"

definition spec_abort_commit ::
  "(string, int) gomap \<Rightarrow> StreamRecord list \<Rightarrow> CommitGroup \<Rightarrow> LedgerView \<Rightarrow> LedgerView option" where
  "spec_abort_commit expected rs g v =
     (if CgPhase g = CommitAborted \<and> CgCommitTime g = None
      then spec_change_commit OperationPhaseNone [CommitPrepared, CommitUnresolved] expected rs g v else None)"

section \<open>Refinement\<close>

text \<open>
  \<open>refines op spec db\<close>: the call \<open>op\<close> on the tables \<open>db\<close> does what \<open>spec\<close> says of their view. An engine
  fault fails the call; without one it fails exactly when \<open>spec\<close> is undefined.
\<close>

definition engine_fault :: "WriteDB \<Rightarrow> bool" where
  "engine_fault db \<longleftrightarrow> (case DbFaults db of Some _ # _ \<Rightarrow> True | _ \<Rightarrow> False)"

definition refines ::
  "(WriteDB \<Rightarrow> go_error option \<times> WriteDB) \<Rightarrow> (LedgerView \<Rightarrow> LedgerView option) \<Rightarrow> WriteDB \<Rightarrow> bool" where
  "refines op spec db \<longleftrightarrow>
     (case op db of
        (None, db') \<Rightarrow> spec (view db) = Some (view db') \<and> \<not> engine_fault db
      | (Some e, db') \<Rightarrow> view db' = view db \<and> (engine_fault db \<or> spec (view db) = None))"

lemma view_simps [simp]:
  "LvStreams (view db) = gm_get (DbStreams db)" "LvReceipts (view db) = gm_get (DbReceipts db)"
  "LvGroups (view db) = gm_get (DbGroups db)"
  "view (db\<lparr>DbFaults := fs\<rparr>) = view db"
  "view (db\<lparr>DbStreams := m\<rparr>) = (view db)\<lparr>LvStreams := gm_get m\<rparr>"
  "view (db\<lparr>DbReceipts := c\<rparr>) = (view db)\<lparr>LvReceipts := gm_get c\<rparr>"
  "view (db\<lparr>DbGroups := g\<rparr>) = (view db)\<lparr>LvGroups := gm_get g\<rparr>"
  by (simp_all add: view_def)

text \<open>A transaction refines a specification when its body does.\<close>

definition body_refines :: "(WriteDB \<Rightarrow> go_error + WriteDB) \<Rightarrow> (LedgerView \<Rightarrow> LedgerView option) \<Rightarrow> WriteDB \<Rightarrow> bool" where
  "body_refines body spec db \<longleftrightarrow>
     (case body db of Inl e \<Rightarrow> spec (view db) = None | Inr db' \<Rightarrow> spec (view db) = Some (view db'))"

lemma refines_with_tx:
  assumes "body_refines body spec (db\<lparr>DbFaults := tl (DbFaults db)\<rparr>)"
  shows "refines (with_tx body) spec db"
  using assms
  by (auto simp: refines_def body_refines_def with_tx_def engine_fault_def Let_def
      split: list.splits option.splits sum.splits)

lemma refines_guard:
  assumes "\<not> P \<Longrightarrow> spec (view db) = None" "P \<Longrightarrow> refines op spec db"
    "op' db = (if P then op db else (Some e, db))"
  shows "refines op' spec db"
  using assms by (cases P) (auto simp: refines_def)

lemma body_refines_updateWriteStream: "body_refines (updateWriteStream revision r) (spec_put revision r) db"
  by (auto simp: body_refines_def updateWriteStream_def spec_put_def row_update_ok_def Let_def
      split: sum.splits option.splits if_splits)

lemma body_refines_updateWriteStreams:
  "body_refines (updateWriteStreams_from seen expected rs) (spec_puts seen expected rs) db"
proof (induction rs arbitrary: seen db)
  case (Cons r rs seen db)
  have p: "body_refines (updateWriteStream revision r) (spec_put revision r) db" for revision
    by (rule body_refines_updateWriteStream)
  show ?case
  proof (cases "gm_get expected (WsName (SrStream r))")
    case (Some revision)
    then show ?thesis using p [of revision] Cons.IH [of "WsName (SrStream r) # seen" "projr (updateWriteStream revision r db)"]
      by (cases "updateWriteStream revision r db") (auto simp: body_refines_def Let_def split: option.splits)
  qed (simp add: body_refines_def Let_def)
qed (simp add: body_refines_def)

lemma refines_CreateStream: "refines (repo_CreateStream r) (spec_create r) db"
proof (rule refines_guard)
  let ?body = "\<lambda>db. if bind_error r then Inl (errors_New ''create Storage Write stream'')
            else let row = writeStreamValues r; name = WsName (SrStream r) in
              if gm_get (DbStreams db) name \<noteq> None \<or> \<not> write_streams_CHECK row
              then Inl [ErrStateConflict]
              else Inr (db\<lparr>DbStreams := gm_put name row (DbStreams db)\<rparr>)"
  show "repo_CreateStream r db = (if validateWriteStreamRecord r = None then with_tx ?body db
      else (Some (the (validateWriteStreamRecord r)), db))"
    by (auto simp: repo_CreateStream_def split: option.splits)
  show "refines (with_tx ?body) (spec_create r) db" if "validateWriteStreamRecord r = None"
    by (rule refines_with_tx) (use that in \<open>auto simp: body_refines_def spec_create_def Let_def\<close>)
qed (simp add: spec_create_def)

lemma refines_UpdateStream: "refines (repo_UpdateStream revision r) (spec_update revision r) db"
proof (rule refines_guard)
  show "repo_UpdateStream revision r db = (if validateWriteStreamRecord r = None
      then with_tx (updateWriteStream revision r) db else (Some (the (validateWriteStreamRecord r)), db))"
    by (auto simp: repo_UpdateStream_def split: option.splits)
  show "refines (with_tx (updateWriteStream revision r)) (spec_update revision r) db"
    if "validateWriteStreamRecord r = None"
    using body_refines_updateWriteStream [of revision r "db\<lparr>DbFaults := tl (DbFaults db)\<rparr>"] that
    by (intro refines_with_tx) (simp add: body_refines_def spec_update_def [abs_def])
qed (auto simp: spec_update_def)

lemma map_of_filter_key: "map_of (filter (\<lambda>(k, _). P k) m) = (\<lambda>k. if P k then map_of m k else None)"
  by (induction m) (auto simp: fun_eq_iff)

lemma refines_DeleteStream:
  assumes "gm_ok (DbGroups db)"
  shows "refines (repo_DeleteStream name revision) (spec_delete name revision) db"
proof -
  have g: "list_ex (\<lambda>(_, g). name \<in> CmStreamName ` set (CgMembers g)) (DbGroups db)
      \<longleftrightarrow> \<not> (\<forall>g \<in> ran (gm_get (DbGroups db)). name \<notin> CmStreamName ` set (CgMembers g))"
    using gm_get_in [OF assms] by (auto simp: list_ex_iff ran_def)
  have f: "filter (\<lambda>((n, _), _). n \<noteq> name) m = filter (\<lambda>(k, _). fst k \<noteq> name) m" for m :: "(string \<times> int, AppendReceipt) gomap"
    by (rule filter_cong) auto
  show ?thesis unfolding repo_DeleteStream_def
    by (rule refines_with_tx)
       (auto simp: body_refines_def spec_delete_def g f map_of_filter_key view_def delete_conv fun_eq_iff
          split: option.splits sum.splits if_splits)
qed

lemma refines_PrepareAppend: "refines (repo_PrepareAppend revision r receipt) (spec_prepare_append revision r receipt) db"
proof (rule refines_guard)
  let ?body = "\<lambda>db. let row = receipt_values receipt; key = receipt_key receipt in
            if gm_get (DbReceipts db) key \<noteq> None \<or> \<not> append_receipts_CHECK row
               \<or> gm_get (DbStreams db) (RcStreamName receipt) = None
            then (case gm_get (DbReceipts db) key of
                    Some existing \<Rightarrow>
                      if sameWriteReceiptIdentity existing receipt
                         \<and> (RcPhase existing = ReceiptPrepared \<or> RcPhase existing = ReceiptUnresolved)
                      then Inl [ErrExactReceipt] else Inl [ErrReceiptConflict]
                  | None \<Rightarrow> Inl [ErrReceiptConflict])
            else updateWriteStream revision r (db\<lparr>DbReceipts := gm_put key row (DbReceipts db)\<rparr>)"
  let ?P = "SrOperation r = OperationAppend \<and> SrOperationPhase r = OperationPhasePrepared
      \<and> RcPhase receipt = ReceiptPrepared \<and> validateAppendChange r receipt = None"
  show "repo_PrepareAppend revision r receipt db = (if ?P then with_tx ?body db
      else (Some (the (fst (repo_PrepareAppend revision r receipt db))), db))"
    by (auto simp: repo_PrepareAppend_def split: option.splits)
  show "refines (with_tx ?body) (spec_prepare_append revision r receipt) db" if ?P
  proof (rule refines_with_tx)
    let ?db = "db\<lparr>DbFaults := tl (DbFaults db)\<rparr>"
    show "body_refines ?body (spec_prepare_append revision r receipt) ?db"
      using that body_refines_updateWriteStream [of revision r
          "?db\<lparr>DbReceipts := gm_put (receipt_key receipt) (receipt_values receipt) (DbReceipts ?db)\<rparr>"]
      by (auto simp: body_refines_def spec_prepare_append_def Let_def split: option.splits sum.splits)
  qed
qed (auto simp: spec_prepare_append_def)

lemma refines_changeAppend:
  assumes "\<And>db. body_refines change (\<lambda>v. change_spec v) db"
    and "\<And>v. spec v = (if validateAppendChange r receipt = None
      then (case change_spec v of None \<Rightarrow> None | Some v1 \<Rightarrow> spec_put revision r v1) else None)"
  shows "refines (changeAppend revision r receipt change) spec db"
proof (rule refines_guard)
  let ?body = "\<lambda>db. case change db of Inl e \<Rightarrow> Inl e | Inr db1 \<Rightarrow> updateWriteStream revision r db1"
  show "changeAppend revision r receipt change db = (if validateAppendChange r receipt = None
      then with_tx ?body db else (Some (the (validateAppendChange r receipt)), db))"
    by (auto simp: changeAppend_def split: option.splits)
  show "refines (with_tx ?body) spec db" if v: "validateAppendChange r receipt = None"
  proof (rule refines_with_tx)
    let ?db = "db\<lparr>DbFaults := tl (DbFaults db)\<rparr>"
    show "body_refines ?body spec ?db"
    proof (cases "change ?db")
      case (Inl e)
      then show ?thesis using assms(1) [of ?db] v by (simp add: body_refines_def assms(2))
    next
      case (Inr db1)
      then show ?thesis using assms(1) [of ?db] body_refines_updateWriteStream [of revision r db1] v
        by (simp add: body_refines_def assms(2) split: sum.splits)
    qed
  qed
qed (auto simp: assms(2))

lemma body_refines_set_receipt_phase:
  "body_refines (set_receipt_phase from to receipt)
     (\<lambda>v. case LvReceipts v (receipt_key receipt) of None \<Rightarrow> None
        | Some row \<Rightarrow> let new = row\<lparr>RcPhase := to, RcUpdatedAt := db_time (RcUpdatedAt receipt)\<rparr> in
            if receipt_matches from receipt row \<and> append_receipts_CHECK new
            then Some (v\<lparr>LvReceipts := (LvReceipts v)(receipt_key receipt \<mapsto> new)\<rparr>) else None) db"
  by (auto simp: body_refines_def set_receipt_phase_def receipt_match_def receipt_matches_def Let_def
      split: option.splits)

lemma body_refines_delete_receipt:
  "body_refines (delete_receipt receipt)
     (\<lambda>v. case LvReceipts v (receipt_key receipt) of None \<Rightarrow> None
        | Some row \<Rightarrow> if receipt_matches [ReceiptPrepared, ReceiptUnresolved] receipt row
            then Some (v\<lparr>LvReceipts := (LvReceipts v)(receipt_key receipt := None)\<rparr>) else None) db"
  by (auto simp: body_refines_def delete_receipt_def receipt_match_def receipt_matches_def split: option.splits)

lemma refines_settle:
  "refines (changeAppend revision r receipt (set_receipt_phase from to receipt))
     (spec_settle_receipt from to revision r receipt) db"
  by (rule refines_changeAppend [OF body_refines_set_receipt_phase])
     (auto simp: spec_settle_receipt_def Let_def split: option.splits)

lemma refines_if:
  assumes "refines op spec db"
  shows "refines (\<lambda>db. if P then (Some e, db) else op db) (\<lambda>v. if P then None else spec v) db"
  using assms by (simp add: refines_def)

lemma refines_MarkAppendUnresolved:
  "refines (repo_MarkAppendUnresolved revision r receipt) (spec_mark_append revision r receipt) db"
  using refines_settle [of revision r receipt "[ReceiptPrepared]" ReceiptUnresolved db]
  by (auto simp: refines_def repo_MarkAppendUnresolved_def spec_mark_append_def split: option.splits)

lemma refines_CompleteAppend:
  "refines (repo_CompleteAppend revision r receipt) (spec_complete_append revision r receipt) db"
  using refines_settle [of revision r receipt "[ReceiptPrepared, ReceiptUnresolved]" ReceiptApplied db]
  by (auto simp: refines_def repo_CompleteAppend_def spec_complete_append_def split: option.splits)

lemma refines_AbortAppend:
  "refines (repo_AbortAppend revision r receipt) (spec_abort_append revision r receipt) db"
proof (cases "SrOperation r = OperationNone")
  case True
  have "refines (changeAppend revision r receipt (delete_receipt receipt)) (spec_abort_append revision r receipt) db"
    by (rule refines_changeAppend [OF body_refines_delete_receipt])
       (auto simp: spec_abort_append_def True split: option.splits)
  then show ?thesis using True by (simp add: refines_def repo_AbortAppend_def)
next
  case False
  then show ?thesis by (auto simp: refines_def repo_AbortAppend_def spec_abort_append_def split: option.splits)
qed

lemma refines_PrepareCommit:
  "refines (repo_PrepareCommit expected rs g) (spec_prepare_commit expected rs g) db"
proof (rule refines_guard)
  let ?row = "(group_values g)\<lparr>CgCommitTime := None\<rparr>"
  let ?body = "\<lambda>db. let row = (group_values g)\<lparr>CgCommitTime := None\<rparr> in
            if gm_get (DbGroups db) (CgID g) \<noteq> None \<or> \<not> commit_groups_CHECK row
               \<or> \<not> commit_members_CHECK db (CgMembers g)
            then Inl [ErrCommitGroupConflict]
            else updateWriteStreams expected rs (db\<lparr>DbGroups := gm_put (CgID g) row (DbGroups db)\<rparr>)"
  let ?P = "CgPhase g = CommitPrepared \<and> validateCommitChange rs g OperationPhasePrepared = None"
  show "repo_PrepareCommit expected rs g db = (if ?P then with_tx ?body db
      else (Some (the (fst (repo_PrepareCommit expected rs g db))), db))"
    by (auto simp: repo_PrepareCommit_def split: option.splits)
  show "refines (with_tx ?body) (spec_prepare_commit expected rs g) db" if ?P
  proof (rule refines_with_tx)
    let ?db = "db\<lparr>DbFaults := tl (DbFaults db)\<rparr>"
    show "body_refines ?body (spec_prepare_commit expected rs g) ?db"
      using that body_refines_updateWriteStreams [of "[]" expected rs
          "?db\<lparr>DbGroups := gm_put (CgID g) ?row (DbGroups ?db)\<rparr>"]
      by (auto simp: body_refines_def spec_prepare_commit_def commit_members_CHECK_def updateWriteStreams_def
          Let_def split: sum.splits)
  qed
qed (auto simp: spec_prepare_commit_def Let_def)

lemma refines_changeCommit:
  "refines (changeCommit expected rs g phase from) (spec_change_commit phase from expected rs g) db"
proof (rule refines_guard)
  let ?new = "\<lambda>row. row\<lparr>CgPhase := CgPhase g, CgUpdatedAt := db_time (CgUpdatedAt g),
       CgCommitTime := map_option db_time (CgCommitTime g)\<rparr>"
  let ?body = "\<lambda>db. case gm_get (DbGroups db) (CgID g) of
              None \<Rightarrow> Inl [ErrCommitGroupConflict]
            | Some row \<Rightarrow>
                if CgPhase row \<notin> set from then Inl [ErrCommitGroupConflict]
                else let new = row\<lparr>CgPhase := CgPhase g, CgUpdatedAt := db_time (CgUpdatedAt g),
                                 CgCommitTime := map_option db_time (CgCommitTime g)\<rparr> in
                  if commit_transition_trigger (CgPhase row) (CgPhase new) \<and> commit_groups_CHECK new
                  then updateWriteStreams expected rs (db\<lparr>DbGroups := gm_put (CgID g) new (DbGroups db)\<rparr>)
                  else Inl (errors_New ''constraint failed'')"
  show "changeCommit expected rs g phase from db = (if validateCommitChange rs g phase = None
      then with_tx ?body db else (Some (the (validateCommitChange rs g phase)), db))"
    by (auto simp: changeCommit_def split: option.splits)
  show "refines (with_tx ?body) (spec_change_commit phase from expected rs g) db"
    if v: "validateCommitChange rs g phase = None"
  proof (rule refines_with_tx)
    let ?db = "db\<lparr>DbFaults := tl (DbFaults db)\<rparr>"
    show "body_refines ?body (spec_change_commit phase from expected rs g) ?db"
    proof (cases "gm_get (DbGroups db) (CgID g)")
      case (Some row)
      then show ?thesis
        using v body_refines_updateWriteStreams [of "[]" expected rs
            "?db\<lparr>DbGroups := gm_put (CgID g) (?new row) (DbGroups ?db)\<rparr>"]
        by (auto simp: body_refines_def spec_change_commit_def updateWriteStreams_def Let_def split: sum.splits)
    qed (simp add: body_refines_def spec_change_commit_def)
  qed
qed (auto simp: spec_change_commit_def Let_def split: option.splits)

lemma refines_MarkCommitUnresolved:
  "refines (repo_MarkCommitUnresolved expected rs g) (spec_mark_commit expected rs g) db"
  using refines_changeCommit [of expected rs g OperationPhaseUnresolved "[CommitPrepared]" db]
  by (auto simp: refines_def repo_MarkCommitUnresolved_def spec_mark_commit_def split: option.splits)

lemma refines_CompleteCommit:
  "refines (repo_CompleteCommit expected rs g) (spec_complete_commit expected rs g) db"
  using refines_changeCommit [of expected rs g OperationPhaseNone "[CommitPrepared, CommitUnresolved]" db]
  by (auto simp: refines_def repo_CompleteCommit_def spec_complete_commit_def split: option.splits)

lemma refines_AbortCommit:
  "refines (repo_AbortCommit expected rs g) (spec_abort_commit expected rs g) db"
  using refines_changeCommit [of expected rs g OperationPhaseNone "[CommitPrepared, CommitUnresolved]" db]
  by (auto simp: refines_def repo_AbortCommit_def spec_abort_commit_def split: option.splits)

lemma db_keys_with_tx:
  assumes "\<And>db db'. body db = Inr db' \<Longrightarrow> P db \<Longrightarrow> P db'" "\<And>db fs. P (db\<lparr>DbFaults := fs\<rparr>) = P db" "P db"
  shows "P (snd (with_tx body db))"
  using assms(1) [of "db\<lparr>DbFaults := tl (DbFaults db)\<rparr>"] assms(2,3)
  by (auto simp: with_tx_def Let_def split: list.splits option.splits sum.splits)


definition empty_db :: WriteDB where
  "empty_db = \<lparr>DbStreams = [], DbReceipts = [], DbGroups = [], DbFaults = []\<rparr>"


end
