(* ===== verification/Write_Ledger.thy ===== *)
theory Write_Ledger
  imports Write_Lifecycle Write_Ledger_Spec
begin

text \<open>
  The Storage Write service against its ledger. \<open>ledger_inv\<close> relates the streams and commit groups
  the service holds in memory to the durable records: every stream is recorded exactly as it is, its
  applied receipts are a gap-free sequence from offset 0 to its row count, at most one append is
  open and it starts there, and every commit group agrees with its member streams. The locale
  \<open>write_ledger\<close> states what the service relies on, that the repository implements the abstract ledger, and
  proves that every operation keeps the invariant whatever errors the ports return; it is
  interpreted on the SQLite repository.
\<close>

section \<open>The invariant\<close>

fun applied_chain :: "int \<Rightarrow> AppendReceipt list \<Rightarrow> int \<Rightarrow> bool" where
  "applied_chain a [] b \<longleftrightarrow> a = b"
| "applied_chain a (r # rs) b \<longleftrightarrow>
     RcPhase r = ReceiptApplied \<and> RcStartOffset r = a \<and> 0 < RcRowCount r \<and> applied_chain (a + RcRowCount r) rs b"

definition stream_rows :: "LedgerView \<Rightarrow> string \<Rightarrow> AppendReceipt set" where
  "stream_rows v name = {r. \<exists>off. LvReceipts v (name, off) = Some r}"

definition receipt_phase_of :: "OperationPhase \<Rightarrow> ReceiptPhase" where
  "receipt_phase_of p = (if p = OperationPhasePrepared then ReceiptPrepared else ReceiptUnresolved)"

definition commit_phase_of :: "OperationPhase \<Rightarrow> CommitPhase" where
  "commit_phase_of p = (if p = OperationPhasePrepared then CommitPrepared else CommitUnresolved)"

text \<open>The durable receipt of the append that is in flight.\<close>

definition open_row :: "appendReceipt \<Rightarrow> streamState \<Rightarrow> AppendReceipt \<Rightarrow> bool" where
  "open_row u st row \<longleftrightarrow>
     RcStreamName row = WsName (StStream st) \<and> RcStartOffset row = WsNextOffset (StStream st)
     \<and> RcRowCount row = apRowCount u \<and> RcSchemaFingerprint row = apSchemaFingerprint u
     \<and> RcPayloadDigest row = apPayloadDigest u \<and> RcPhase row = receipt_phase_of (StOperationPhase st)"

definition receipts_ledger :: "LedgerView \<Rightarrow> string \<Rightarrow> streamState \<Rightarrow> bool" where
  "receipts_ledger v name st \<longleftrightarrow>
     (\<exists>rs. applied_chain 0 rs (WsRowCount (StStream st)) \<and>
        (case StUnacknowledged st of
           None \<Rightarrow> StOperation st \<noteq> OperationAppend \<and> stream_rows v name = set rs
         | Some u \<Rightarrow> StOperation st = OperationAppend \<and> apStartOffset u = WsNextOffset (StStream st)
             \<and> StOperationToken st = FormatInt (WsNextOffset (StStream st))
             \<and> (\<exists>row. open_row u st row \<and> stream_rows v name = insert row (set rs))))"

definition commit_ledger :: "(string \<rightharpoonup> CommitGroup) \<Rightarrow> string \<Rightarrow> streamState \<Rightarrow> bool" where
  "commit_ledger G name st \<longleftrightarrow>
     (StOperation st = OperationCommit \<longrightarrow>
        (\<exists>g. G (StOperationToken st) = Some g \<and> name \<in> CmStreamName ` set (CgMembers g)
           \<and> CgPhase g = commit_phase_of (StOperationPhase st)))"

definition stream_ledger :: "LedgerView \<Rightarrow> (string \<rightharpoonup> CommitGroup) \<Rightarrow> string \<Rightarrow> streamState \<Rightarrow> bool" where
  "stream_ledger v G name st \<longleftrightarrow>
     WsName (StStream st) = name \<and> StCleanupPhase st \<noteq> cleanupPhaseDiscarded
     \<and> in_i64 (WsRowCount (StStream st))
     \<and> validateWriteStreamRecord (streamRecord st) = None
     \<and> LvStreams v name = Some (writeStreamValues (streamRecord st))
     \<and> write_streams_CHECK (writeStreamValues (streamRecord st))
     \<and> receipts_ledger v name st \<and> commit_ledger G name st"

definition member_ledger :: "CommitGroup \<Rightarrow> CommitMember \<Rightarrow> streamState \<Rightarrow> bool" where
  "member_ledger g m st \<longleftrightarrow>
     WsParent (StStream st) = CgParent g \<and> WsRowCount (StStream st) = CmExpectedRowCount m
     \<and> WsType (StStream st) = StreamTypePending \<and> WsState (StStream st) \<noteq> StreamStateOpen"

definition group_ledger :: "(string \<rightharpoonup> streamState) \<Rightarrow> LedgerView \<Rightarrow> string \<Rightarrow> CommitGroup \<Rightarrow> bool" where
  "group_ledger S v gid g \<longleftrightarrow>
     CgID g = gid \<and> table_ref_ok (CgParent g) \<and> LvGroups v gid = Some (group_values g)
     \<and> commit_groups_CHECK (group_values g)
     \<and> i64_sum (map CmExpectedRowCount (CgMembers g)) = CgExpectedRowCount g
     \<and> (\<forall>m \<in> set (CgMembers g). \<exists>st. S (CmStreamName m) = Some st \<and> member_ledger g m st)"

definition ledger_inv ::
  "(string \<rightharpoonup> streamState) \<Rightarrow> (string \<rightharpoonup> CommitGroup) \<Rightarrow> LedgerView \<Rightarrow> bool" where
  "ledger_inv S G v \<longleftrightarrow>
     (\<forall>name. case S name of None \<Rightarrow> LvStreams v name = None \<and> stream_rows v name = {}
        | Some st \<Rightarrow> stream_ledger v G name st)
     \<and> (\<forall>gid. case G gid of None \<Rightarrow> LvGroups v gid = None | Some g \<Rightarrow> group_ledger S v gid g)
     \<and> (\<forall>k r. LvReceipts v k = Some r \<longrightarrow> receipt_key r = k \<and> append_receipts_CHECK r)"

section \<open>Ledger lemmas\<close>

lemma applied_chain_snoc:
  "applied_chain a rs b \<Longrightarrow> RcPhase r = ReceiptApplied \<Longrightarrow> RcStartOffset r = b \<Longrightarrow> 0 < RcRowCount r
    \<Longrightarrow> applied_chain a (rs @ [r]) (b + RcRowCount r)"
  by (induction rs arbitrary: a) auto

lemma applied_chain_le: "applied_chain a rs b \<Longrightarrow> a \<le> b"
  by (induction rs arbitrary: a) force+

lemma applied_chain_bounds: "applied_chain a rs b \<Longrightarrow> r \<in> set rs \<Longrightarrow> a \<le> RcStartOffset r \<and> RcStartOffset r < b"
proof (induction rs arbitrary: a)
  case (Cons x xs)
  then show ?case using applied_chain_le [of "a + RcRowCount x" xs b] by force
qed simp

lemma applied_chain_phase: "applied_chain a rs b \<Longrightarrow> r \<in> set rs \<Longrightarrow> RcPhase r = ReceiptApplied"
  by (induction rs arbitrary: a) auto

lemma streamRecord_simps [simp]:
  "SrStream (streamRecord st) = StStream st" "SrOperation (streamRecord st) = StOperation st"
  "SrOperationPhase (streamRecord st) = StOperationPhase st" "SrOperationToken (streamRecord st) = StOperationToken st"
  "SrRevision (streamRecord st) = StRevision st"
  by (simp_all add: streamRecord_def)

lemma updated_row_mirror:
  "WsParent (StStream st') = WsParent (StStream st) \<Longrightarrow> WsType (StStream st') = WsType (StStream st) \<Longrightarrow>
     updated_row (writeStreamValues (streamRecord st)) (streamRecord st') = writeStreamValues (streamRecord st')"
  by (simp add: updated_row_def writeStreamValues_def Let_def streamRecord_def)

lemma writeStreamValues_simps [simp]:
  "SrOperation (writeStreamValues r) = SrOperation r" "SrRevision (writeStreamValues r) = SrRevision r"
  "SrOperationPhase (writeStreamValues r) = SrOperationPhase r" "SrOperationToken (writeStreamValues r) = SrOperationToken r"
  "WsName (SrStream (writeStreamValues r)) = WsName (SrStream r)"
  "WsParent (SrStream (writeStreamValues r)) = WsParent (SrStream r)"
  "WsType (SrStream (writeStreamValues r)) = WsType (SrStream r)"
  "WsState (SrStream (writeStreamValues r)) = WsState (SrStream r)"
  "WsRowCount (SrStream (writeStreamValues r)) = WsRowCount (SrStream r)"
  "WsNextOffset (SrStream (writeStreamValues r)) = WsNextOffset (SrStream r)"
  by (simp_all add: writeStreamValues_def)

text \<open>A compare-and-swap of a recorded stream replaces its row by the new record.\<close>

lemma spec_put_mirror:
  assumes "spec_put revision (streamRecord st') v = Some v'"
    and "LvStreams v (WsName (StStream st)) = Some (writeStreamValues (streamRecord st))"
    and "WsName (StStream st') = WsName (StStream st)" "WsParent (StStream st') = WsParent (StStream st)"
    "WsType (StStream st') = WsType (StStream st)"
  shows "v' = v\<lparr>LvStreams := (LvStreams v)(WsName (StStream st) \<mapsto> writeStreamValues (streamRecord st'))\<rparr>"
    and "write_streams_CHECK (writeStreamValues (streamRecord st'))"
    and "revision = StRevision st"
  using assms updated_row_mirror [of st' st]
  by (auto simp: spec_put_def row_update_ok_def split: option.splits if_splits)

lemma stream_rows_cong: "(\<And>off. LvReceipts v' (n, off) = LvReceipts v (n, off)) \<Longrightarrow> stream_rows v' n = stream_rows v n"
  by (simp add: stream_rows_def)

lemma stream_ledger_cong:
  assumes "LvStreams v' n = LvStreams v n" "stream_rows v' n = stream_rows v n" "commit_ledger G' n st = commit_ledger G n st"
  shows "stream_ledger v' G' n st = stream_ledger v G n st"
  unfolding stream_ledger_def receipts_ledger_def assms ..

lemma ledger_invD:
  assumes "ledger_inv S G v"
  shows "S n = Some st \<Longrightarrow> stream_ledger v G n st"
    and "S n = None \<Longrightarrow> LvStreams v n = None \<and> stream_rows v n = {}"
    and "G gid = Some g \<Longrightarrow> group_ledger S v gid g"
    and "G gid = None \<Longrightarrow> LvGroups v gid = None"
    and "LvReceipts v k = Some r \<Longrightarrow> receipt_key r = k \<and> append_receipts_CHECK r"
  using assms unfolding ledger_inv_def by (metis option.simps(4,5))+

lemma ledger_invI:
  assumes "\<And>n st. S n = Some st \<Longrightarrow> stream_ledger v G n st"
    and "\<And>n. S n = None \<Longrightarrow> LvStreams v n = None \<and> stream_rows v n = {}"
    and "\<And>gid g. G gid = Some g \<Longrightarrow> group_ledger S v gid g"
    and "\<And>gid. G gid = None \<Longrightarrow> LvGroups v gid = None"
    and "\<And>k r. LvReceipts v k = Some r \<Longrightarrow> receipt_key r = k \<and> append_receipts_CHECK r"
  shows "ledger_inv S G v"
  unfolding ledger_inv_def using assms by (auto split: option.splits)

text \<open>The members of recorded groups cannot be changed by an append.\<close>

definition keeps_member :: "streamState \<Rightarrow> streamState \<Rightarrow> bool" where
  "keeps_member st st' \<longleftrightarrow>
     WsType (StStream st) \<noteq> StreamTypePending \<or> WsState (StStream st) = StreamStateOpen
     \<or> (WsParent (StStream st') = WsParent (StStream st) \<and> WsRowCount (StStream st') = WsRowCount (StStream st)
        \<and> WsType (StStream st') = WsType (StStream st) \<and> WsState (StStream st') \<noteq> StreamStateOpen)"

lemma ledger_inv_update:
  assumes inv: "ledger_inv S G v" and st: "S name = Some st"
    and st': "stream_ledger v' G name st'" and keep: "keeps_member st st'"
    and others: "\<And>n. n \<noteq> name \<Longrightarrow> LvStreams v' n = LvStreams v n"
      "\<And>n off. n \<noteq> name \<Longrightarrow> LvReceipts v' (n, off) = LvReceipts v (n, off)"
    and groups: "LvGroups v' = LvGroups v"
    and keys: "\<And>k r. LvReceipts v' k = Some r \<Longrightarrow> receipt_key r = k \<and> append_receipts_CHECK r"
  shows "ledger_inv (S(name \<mapsto> st')) G v'"
proof (rule ledger_invI)
  note D = ledger_invD [OF inv]
  have rows: "stream_rows v' n = stream_rows v n" if "n \<noteq> name" for n
    using others(2) that by (intro stream_rows_cong) simp
  fix n x assume x: "(S(name \<mapsto> st')) n = Some x"
  show "stream_ledger v' G n x"
  proof (cases "n = name")
    case False
    then have "stream_ledger v G n x" using x D(1) by simp
    then show ?thesis using stream_ledger_cong [OF others(1) [OF False] rows [OF False] refl] by simp
  qed (use x st' in simp)
next
  note D = ledger_invD [OF inv]
  fix n assume n: "(S(name \<mapsto> st')) n = None"
  then have "n \<noteq> name" "S n = None" by (auto split: if_splits)
  then show "LvStreams v' n = None \<and> stream_rows v' n = {}"
    using D(2) [of n] others by (simp add: stream_rows_def)
next
  fix gid g assume "G gid = Some g"
  then have g: "group_ledger S v gid g" by (rule ledger_invD(3) [OF inv])
  have "\<exists>x. (S(name \<mapsto> st')) (CmStreamName m) = Some x \<and> member_ledger g m x" if "m \<in> set (CgMembers g)" for m
  proof (cases "CmStreamName m = name")
    case True
    then have "member_ledger g m st" using g that st by (auto simp: group_ledger_def)
    then have "member_ledger g m st'" using keep by (auto simp: member_ledger_def keeps_member_def)
    then show ?thesis using True by simp
  next
    case False
    then show ?thesis using g that by (auto simp: group_ledger_def)
  qed
  then show "group_ledger (S(name \<mapsto> st')) v' gid g" using g groups by (simp add: group_ledger_def)
next
  fix gid assume "G gid = None"
  then show "LvGroups v' gid = None" using ledger_invD(4) [OF inv] groups by simp
qed (rule keys)

section \<open>Single-stream steps\<close>

lemma ledger_inv_create:
  assumes inv: "ledger_inv S G v" and none: "S name = None"
    and spec: "spec_create (streamRecord st) v = Some v'"
    and st: "st = new_streamState stream" "WsName stream = name" "WsRowCount stream = 0"
  shows "ledger_inv (S(name \<mapsto> st)) G v'"
proof -
  note D = ledger_invD [OF inv]
  have v': "v' = v\<lparr>LvStreams := (LvStreams v)(name \<mapsto> writeStreamValues (streamRecord st))\<rparr>"
    "validateWriteStreamRecord (streamRecord st) = None" "write_streams_CHECK (writeStreamValues (streamRecord st))"
    using spec st by (auto simp: spec_create_def new_streamState_def split: if_splits)
  have rows: "stream_rows v' n = stream_rows v n" for n by (simp add: stream_rows_def v')
  have "receipts_ledger v' name st"
    using D(2) [OF none] st rows by (auto simp: receipts_ledger_def new_streamState_def intro!: exI [of _ "[]"])
  then have new: "stream_ledger v' G name st"
    using v' st by (simp add: stream_ledger_def commit_ledger_def new_streamState_def)
  show ?thesis
  proof (rule ledger_invI)
    fix n x assume x: "(S(name \<mapsto> st)) n = Some x"
    show "stream_ledger v' G n x"
    proof (cases "n = name")
      case False
      then have "stream_ledger v G n x" using x D(1) by simp
      then show ?thesis using stream_ledger_cong [of v' n v G x G] rows False v' by simp
    qed (use x new in simp)
  next
    fix n assume n: "(S(name \<mapsto> st)) n = None"
    then show "LvStreams v' n = None \<and> stream_rows v' n = {}"
      using D(2) [of n] rows by (auto simp: v' split: if_splits)
  next
    fix gid g assume "G gid = Some g"
    then have "group_ledger S v gid g" by (rule D(3))
    then show "group_ledger (S(name \<mapsto> st)) v' gid g"
      using none unfolding group_ledger_def v' by (auto split: if_splits)
  next
    fix gid assume "G gid = None" then show "LvGroups v' gid = None" using D(4) by (simp add: v')
  next
    fix k r assume "LvReceipts v' k = Some r" then show "receipt_key r = k \<and> append_receipts_CHECK r"
      using D(5) by (simp add: v')
  qed
qed

text \<open>A stream whose counters, operation and open append stay as they are.\<close>

definition same_ledger :: "streamState \<Rightarrow> streamState \<Rightarrow> bool" where
  "same_ledger st st' \<longleftrightarrow>
     WsName (StStream st') = WsName (StStream st) \<and> WsParent (StStream st') = WsParent (StStream st)
     \<and> WsType (StStream st') = WsType (StStream st) \<and> WsRowCount (StStream st') = WsRowCount (StStream st)
     \<and> WsNextOffset (StStream st') = WsNextOffset (StStream st)
     \<and> StOperation st' = StOperation st \<and> StOperationPhase st' = StOperationPhase st
     \<and> StOperationToken st' = StOperationToken st \<and> StUnacknowledged st' = StUnacknowledged st
     \<and> StCleanupPhase st' \<noteq> cleanupPhaseDiscarded"

lemma receipts_ledger_same:
  assumes "same_ledger st st'" "stream_rows v' name = stream_rows v name"
  shows "receipts_ledger v' name st' = receipts_ledger v name st"
proof -
  have "open_row u st' = open_row u st" for u using assms(1) by (auto simp: open_row_def same_ledger_def)
  then show ?thesis using assms(1) unfolding receipts_ledger_def assms(2) same_ledger_def by (simp cong: option.case_cong)
qed

lemma ledger_inv_touch:
  assumes inv: "ledger_inv S G v" and st: "S name = Some st"
    and spec: "spec_update revision (streamRecord st') v = Some v'"
    and same: "same_ledger st st'" and state: "WsState (StStream st) \<noteq> StreamStateOpen \<longrightarrow> WsState (StStream st') \<noteq> StreamStateOpen"
  shows "ledger_inv (S(name \<mapsto> st')) G v'"
proof -
  note D = ledger_invD [OF inv]
  have l: "stream_ledger v G name st" using D(1) [OF st] .
  have sp: "spec_put revision (streamRecord st') v = Some v'" "validateWriteStreamRecord (streamRecord st') = None"
    using spec by (auto simp: spec_update_def split: if_splits)
  have n: "WsName (StStream st) = name" using l by (simp add: stream_ledger_def)
  note m = spec_put_mirror [OF sp(1), of st, unfolded n]
  have v': "v' = v\<lparr>LvStreams := (LvStreams v)(name \<mapsto> writeStreamValues (streamRecord st'))\<rparr>"
    "write_streams_CHECK (writeStreamValues (streamRecord st'))"
    using m(1,2) l same n by (auto simp: stream_ledger_def same_ledger_def)
  have rows: "stream_rows v' name = stream_rows v name" by (simp add: stream_rows_def v')
  have "stream_ledger v' G name st'"
    using l same v' sp(2) receipts_ledger_same [OF same rows] n
    by (auto simp: stream_ledger_def same_ledger_def commit_ledger_def)
  then show ?thesis
    by (rule ledger_inv_update [OF inv st]) (use same state D(5) in \<open>auto simp: v'(1) keeps_member_def same_ledger_def\<close>)
qed

lemma stream_ledger_share:
  assumes "stream_ledger v G name st" "StUnacknowledged st = Some u" "appendReceiptsMatch u u'"
  shows "stream_ledger v G name (st\<lparr>StUnacknowledged := Some u'\<rparr>)"
proof -
  have "streamRecord (st\<lparr>StUnacknowledged := Some u'\<rparr>) = streamRecord st" by (simp add: streamRecord_def)
  moreover have "open_row u' (st\<lparr>StUnacknowledged := Some u'\<rparr>) = open_row u st"
    using assms(3) by (auto simp: open_row_def appendReceiptsMatch_def)
  ultimately show ?thesis using assms
    by (auto simp: stream_ledger_def receipts_ledger_def commit_ledger_def appendReceiptsMatch_def)
qed

lemma ledger_inv_share:
  assumes "ledger_inv S G v" "S name = Some st" "StUnacknowledged st = Some u" "appendReceiptsMatch u u'"
  shows "ledger_inv (S(name \<mapsto> st\<lparr>StUnacknowledged := Some u'\<rparr>)) G v"
  using ledger_inv_update [OF assms(1,2) stream_ledger_share [OF ledger_invD(1) [OF assms(1,2)] assms(3,4)]]
    ledger_invD(5) [OF assms(1)] by (simp add: keeps_member_def)

lemma ledger_inv_delete:
  assumes inv: "ledger_inv S G v" and spec: "spec_delete name revision v = Some v'"
  shows "ledger_inv (S(name := None)) G v'"
proof -
  note D = ledger_invD [OF inv]
  have v': "v' = v\<lparr>LvStreams := (LvStreams v)(name := None), LvReceipts := (\<lambda>k. if fst k = name then None else LvReceipts v k)\<rparr>"
    and free: "\<And>g. g \<in> ran (LvGroups v) \<Longrightarrow> name \<notin> CmStreamName ` set (CgMembers g)"
    using spec by (auto simp: spec_delete_def split: option.splits if_splits)
  have rows: "stream_rows v' n = (if n = name then {} else stream_rows v n)" for n
    by (auto simp: stream_rows_def v')
  show ?thesis
  proof (rule ledger_invI)
    fix n x assume x: "(S(name := None)) n = Some x"
    then have "n \<noteq> name" "stream_ledger v G n x" using D(1) by (auto split: if_splits)
    then show "stream_ledger v' G n x" using stream_ledger_cong [of v' n v G x G] rows v' by simp
  next
    fix n assume "(S(name := None)) n = None"
    then show "LvStreams v' n = None \<and> stream_rows v' n = {}" using D(2) [of n] rows by (auto simp: v' split: if_splits)
  next
    fix gid g assume g: "G gid = Some g"
    then have l: "group_ledger S v gid g" by (rule D(3))
    then have "group_values g \<in> ran (LvGroups v)" by (auto simp: group_ledger_def intro: ranI)
    from free [OF this] have "name \<notin> CmStreamName ` set (CgMembers g)" by (simp add: group_values_def)
    then show "group_ledger (S(name := None)) v' gid g" using l by (auto simp: group_ledger_def v')
  next
    fix gid assume "G gid = None" then show "LvGroups v' gid = None" using D(4) by (simp add: v')
  next
    fix k r assume "LvReceipts v' k = Some r" then show "receipt_key r = k \<and> append_receipts_CHECK r"
      using D(5) by (simp add: v' split: if_splits)
  qed
qed

section \<open>Append steps\<close>

lemma i64_add_nonneg_exact:
  assumes "0 \<le> a" "0 \<le> b" "in_i64 a" "in_i64 b" "0 \<le> i64_add a b"
  shows "i64_add a b = a + b"
proof (rule ccontr)
  assume n: "i64_add a b \<noteq> a + b"
  then have "\<not> in_i64 (a + b)" using i64_add_exact by blast
  then have "2 ^ 63 \<le> a + b" "a + b < 2 ^ 64" using assms by (auto simp: in_i64_def)
  then have "(a + b + 2 ^ 63) mod 2 ^ 64 = a + b - 2 ^ 63"
    by (simp add: mod_pos_geq mod_pos_pos_trivial)
  then have "i64_add a b = a + b - 2 ^ 64" by (simp add: i64_add_def wrap64_def)
  then show False using assms(5) \<open>a + b < 2 ^ 64\<close> by simp
qed

lemma stream_rows_put:
  assumes "\<And>k r. LvReceipts v k = Some r \<Longrightarrow> receipt_key r = k"
  shows "stream_rows (v\<lparr>LvReceipts := (LvReceipts v)((name, off) \<mapsto> x)\<rparr>) name
      = insert x {r \<in> stream_rows v name. RcStartOffset r \<noteq> off}"
    and "stream_rows (v\<lparr>LvReceipts := (LvReceipts v)((name, off) := None)\<rparr>) name
      = {r \<in> stream_rows v name. RcStartOffset r \<noteq> off}"
proof -
  have k: "RcStartOffset r = o1" if "LvReceipts v (name, o1) = Some r" for r o1
    using assms [OF that] by (simp add: receipt_key_def)
  show "stream_rows (v\<lparr>LvReceipts := (LvReceipts v)((name, off) \<mapsto> x)\<rparr>) name
      = insert x {r \<in> stream_rows v name. RcStartOffset r \<noteq> off}"
    unfolding stream_rows_def using k by (auto split: if_splits; force)
  show "stream_rows (v\<lparr>LvReceipts := (LvReceipts v)((name, off) := None)\<rparr>) name
      = {r \<in> stream_rows v name. RcStartOffset r \<noteq> off}"
    unfolding stream_rows_def using k by (auto split: if_splits; force)
qed

lemma validated_counts:
  "validateWriteStreamRecord (streamRecord st) = None \<Longrightarrow>
     0 \<le> WsRowCount (StStream st) \<and> WsNextOffset (StStream st) = WsRowCount (StStream st)"
  by (auto simp: validateWriteStreamRecord_def Let_def split: sum.splits if_splits option.splits)

lemma validateAppendChangeD:
  "validateAppendChange r receipt = None \<Longrightarrow> validateWriteStreamRecord r = None \<and> 0 < RcRowCount receipt"
  by (auto simp: validateAppendChange_def split: option.splits if_splits)

text \<open>The applied receipts and the open one of a stream with an unacknowledged append.\<close>

lemma open_append:
  assumes "stream_ledger v G name st" "StUnacknowledged st = Some u"
    and "\<And>k r. LvReceipts v k = Some r \<Longrightarrow> receipt_key r = k"
  obtains rs row where "applied_chain 0 rs (WsRowCount (StStream st))" "open_row u st row"
    "LvReceipts v (name, WsNextOffset (StStream st)) = Some row"
    "{r \<in> stream_rows v name. RcStartOffset r \<noteq> WsNextOffset (StStream st)} = set rs"
proof -
  obtain rs row where c: "applied_chain 0 rs (WsRowCount (StStream st))" and o: "open_row u st row"
    and r: "stream_rows v name = insert row (set rs)"
    using assms(1,2) by (auto simp: stream_ledger_def receipts_ledger_def)
  have e: "WsNextOffset (StStream st) = WsRowCount (StStream st)"
    using assms(1) validated_counts by (simp add: stream_ledger_def)
  have row: "RcStartOffset row = WsNextOffset (StStream st)" using o by (simp add: open_row_def)
  from r obtain off where off: "LvReceipts v (name, off) = Some row" by (auto simp: stream_rows_def)
  then have "off = WsNextOffset (StStream st)" using assms(3) [OF off] row by (simp add: receipt_key_def)
  moreover have "{r \<in> stream_rows v name. RcStartOffset r \<noteq> WsNextOffset (StStream st)} = set rs"
    using applied_chain_bounds [OF c] row e by (fastforce simp: r)
  ultimately show ?thesis using that c o off by blast
qed

text \<open>
  What the ledger calls of one append have in common: the stream's row is replaced and one receipt
  slot of that stream changes.
\<close>

lemma ledger_inv_append_step:
  assumes inv: "ledger_inv S G v" and st: "S name = Some st"
    and put: "spec_put revision (streamRecord st') (v\<lparr>LvReceipts := (LvReceipts v)((name, off) := slot)\<rparr>) = Some v'"
    and valid: "validateWriteStreamRecord (streamRecord st') = None"
    and same: "WsName (StStream st') = name" "WsParent (StStream st') = WsParent (StStream st)"
      "WsType (StStream st') = WsType (StStream st)" "StCleanupPhase st' = StCleanupPhase st"
    and counts: "in_i64 (WsRowCount (StStream st'))"
    and slot: "\<And>r. slot = Some r \<Longrightarrow> receipt_key r = (name, off) \<and> append_receipts_CHECK r"
    and rl: "receipts_ledger (v\<lparr>LvReceipts := (LvReceipts v)((name, off) := slot)\<rparr>) name st'"
    and nc: "StOperation st' \<noteq> OperationCommit" and keep: "keeps_member st st'"
  shows "ledger_inv (S(name \<mapsto> st')) G v'"
proof -
  note D = ledger_invD [OF inv]
  let ?v1 = "v\<lparr>LvReceipts := (LvReceipts v)((name, off) := slot)\<rparr>"
  have l: "stream_ledger v G name st" using D(1) [OF st] .
  have n: "WsName (StStream st) = name" using l by (simp add: stream_ledger_def)
  note m = spec_put_mirror [OF put, of st, unfolded n]
  have v': "v' = ?v1\<lparr>LvStreams := (LvStreams v)(name \<mapsto> writeStreamValues (streamRecord st'))\<rparr>"
    "write_streams_CHECK (writeStreamValues (streamRecord st'))"
    using m(1,2) l same by (auto simp: stream_ledger_def)
  have "stream_rows v' name = stream_rows ?v1 name" by (simp add: stream_rows_def v')
  then have "receipts_ledger v' name st'" using rl by (simp add: receipts_ledger_def cong: option.case_cong)
  then have "stream_ledger v' G name st'"
    using l same v' valid nc counts by (simp add: stream_ledger_def commit_ledger_def)
  then show ?thesis
    by (rule ledger_inv_update [OF inv st _ keep]) (use D(5) slot in \<open>auto simp: v'(1) split: if_splits\<close>)
qed

lemma receipts_ledger_openI:
  assumes "StUnacknowledged st = Some u" "applied_chain 0 rs (WsRowCount (StStream st))" "StOperation st = OperationAppend"
    "apStartOffset u = WsNextOffset (StStream st)" "StOperationToken st = FormatInt (WsNextOffset (StStream st))"
    "open_row u st row" "stream_rows v name = insert row (set rs)"
  shows "receipts_ledger v name st"
  unfolding receipts_ledger_def using assms by (intro exI [of _ rs]) auto

lemma receipts_ledger_closedI:
  assumes "StUnacknowledged st = None" "applied_chain 0 rs (WsRowCount (StStream st))" "StOperation st \<noteq> OperationAppend"
    "stream_rows v name = set rs"
  shows "receipts_ledger v name st"
  unfolding receipts_ledger_def using assms by (intro exI [of _ rs]) auto

lemma open_append_operation:
  assumes "stream_ledger v G name st" "StUnacknowledged st = Some u"
  shows "StOperation st = OperationAppend" "apStartOffset u = WsNextOffset (StStream st)"
    "StOperationToken st = FormatInt (WsNextOffset (StStream st))"
  using assms by (auto simp: stream_ledger_def receipts_ledger_def)

lemma receipt_values_simps [simp]:
  "receipt_key (receipt_values r) = receipt_key r" "RcRowCount (receipt_values r) = RcRowCount r"
  "RcSchemaFingerprint (receipt_values r) = RcSchemaFingerprint r" "RcPayloadDigest (receipt_values r) = RcPayloadDigest r"
  "RcPhase (receipt_values r) = RcPhase r" "RcStartOffset (receipt_values r) = RcStartOffset r"
  "RcStreamName (receipt_values r) = RcStreamName r"
  by (simp_all add: receipt_values_def receipt_key_def)

lemma appendReceiptRecord_simps [simp]:
  "RcStreamName (appendReceiptRecord n u p c d) = n" "RcStartOffset (appendReceiptRecord n u p c d) = apStartOffset u"
  "RcRowCount (appendReceiptRecord n u p c d) = apRowCount u"
  "RcSchemaFingerprint (appendReceiptRecord n u p c d) = apSchemaFingerprint u"
  "RcPayloadDigest (appendReceiptRecord n u p c d) = apPayloadDigest u" "RcPhase (appendReceiptRecord n u p c d) = p"
  "RcUpdatedAt (appendReceiptRecord n u p c d) = d"
  "receipt_key (appendReceiptRecord n u p c d) = (n, apStartOffset u)"
  by (simp_all add: appendReceiptRecord_def receipt_key_def)

lemma ledger_inv_prepare_append:
  assumes inv: "ledger_inv S G v" and st: "S name = Some st" and fresh: "StUnacknowledged st = None"
    and pend: "WsType (StStream st) = StreamTypePending \<longrightarrow> WsState (StStream st) = StreamStateOpen"
    and off: "apStartOffset u = WsNextOffset (StStream st)"
    and st': "st' = st\<lparr>StOperation := OperationAppend, StOperationPhase := OperationPhasePrepared,
        StOperationToken := FormatInt (WsNextOffset (StStream st)), StRevision := rev', StUnacknowledged := Some u\<rparr>"
    and spec: "spec_prepare_append revision (streamRecord st') (appendReceiptRecord name u ReceiptPrepared c d) v = Some v'"
  shows "ledger_inv (S(name \<mapsto> st')) G v'"
proof -
  note D = ledger_invD [OF inv]
  let ?row = "receipt_values (appendReceiptRecord name u ReceiptPrepared c d)"
  have l: "stream_ledger v G name st" using D(1) [OF st] .
  have n: "WsName (StStream st) = name" using l by (simp add: stream_ledger_def)
  have s: "spec_put revision (streamRecord st') (v\<lparr>LvReceipts := (LvReceipts v)((name, apStartOffset u) := Some ?row)\<rparr>) = Some v'"
    "validateAppendChange (streamRecord st') (appendReceiptRecord name u ReceiptPrepared c d) = None"
    "LvReceipts v (name, apStartOffset u) = None" "append_receipts_CHECK ?row"
    using spec by (auto simp: spec_prepare_append_def split: if_splits)
  have key: "\<And>k r. LvReceipts v k = Some r \<Longrightarrow> receipt_key r = k" using D(5) by blast
  obtain rs where rs: "applied_chain 0 rs (WsRowCount (StStream st))" "stream_rows v name = set rs"
    using l fresh by (auto simp: stream_ledger_def receipts_ledger_def)
  have "\<forall>r \<in> stream_rows v name. RcStartOffset r \<noteq> apStartOffset u"
    using s(3) key by (force simp: stream_rows_def receipt_key_def)
  then have rows: "stream_rows (v\<lparr>LvReceipts := (LvReceipts v)((name, apStartOffset u) := Some ?row)\<rparr>) name = insert ?row (set rs)"
    using stream_rows_put(1) [of v name "apStartOffset u" ?row, OF key] rs(2) by auto
  have "open_row u st' ?row" by (simp add: open_row_def st' n off receipt_phase_of_def)
  then have "receipts_ledger (v\<lparr>LvReceipts := (LvReceipts v)((name, apStartOffset u) := Some ?row)\<rparr>) name st'"
    using rs(1) off by (intro receipts_ledger_openI [OF _ _ _ _ _ _ rows]) (simp_all add: st')
  moreover have "keeps_member st st'" using pend by (auto simp: keeps_member_def)
  ultimately show ?thesis
    using validateAppendChangeD [OF s(2)] s(4) l
    by (intro ledger_inv_append_step [OF inv st s(1)]) (auto simp: st' n stream_ledger_def)
qed

text \<open>Settling the open receipt of a stream, as unresolved or as applied.\<close>

lemma spec_settle_receiptD:
  assumes "spec_settle_receipt from to revision r receipt v = Some v'" "receipt_key receipt = (name, off)"
    "LvReceipts v (name, off) = Some row"
  shows "spec_put revision r (v\<lparr>LvReceipts := (LvReceipts v)((name, off) \<mapsto> row\<lparr>RcPhase := to, RcUpdatedAt := db_time (RcUpdatedAt receipt)\<rparr>)\<rparr>) = Some v'"
    and "validateAppendChange r receipt = None"
    and "append_receipts_CHECK (row\<lparr>RcPhase := to, RcUpdatedAt := db_time (RcUpdatedAt receipt)\<rparr>)"
    and "receipt_matches from receipt row"
  using assms by (auto simp: spec_settle_receipt_def Let_def split: option.splits if_splits)

lemma ledger_inv_mark_append:
  assumes inv: "ledger_inv S G v" and st: "S name = Some st" and u: "StUnacknowledged st = Some u"
    and match: "appendReceiptsMatch u u'"
    and st': "st' = st\<lparr>StOperationPhase := OperationPhaseUnresolved, StRevision := rev', StUnacknowledged := Some u'\<rparr>"
    and spec: "spec_mark_append revision (streamRecord st') (appendReceiptRecord name u' ReceiptUnresolved c d) v = Some v'"
  shows "ledger_inv (S(name \<mapsto> st')) G v'"
proof -
  note D = ledger_invD [OF inv]
  have l: "stream_ledger v G name st" using D(1) [OF st] .
  have n: "WsName (StStream st) = name" using l by (simp add: stream_ledger_def)
  have key: "\<And>k r. LvReceipts v k = Some r \<Longrightarrow> receipt_key r = k" using D(5) by blast
  have off: "apStartOffset u' = WsNextOffset (StStream st)"
    using open_append_operation [OF l u] match by (simp add: appendReceiptsMatch_def)
  obtain rs row where rs: "applied_chain 0 rs (WsRowCount (StStream st))" and o: "open_row u st row"
    and row: "LvReceipts v (name, WsNextOffset (StStream st)) = Some row"
    and rest: "{r \<in> stream_rows v name. RcStartOffset r \<noteq> WsNextOffset (StStream st)} = set rs"
    using open_append [OF l u key] by blast
  let ?row = "row\<lparr>RcPhase := ReceiptUnresolved, RcUpdatedAt := db_time d\<rparr>"
  have "spec_settle_receipt [ReceiptPrepared] ReceiptUnresolved revision (streamRecord st') (appendReceiptRecord name u' ReceiptUnresolved c d) v = Some v'"
    using spec by (auto simp: spec_mark_append_def split: if_splits)
  note s = spec_settle_receiptD [OF this _ row, unfolded appendReceiptRecord_simps off, OF refl]
  have rows: "stream_rows (v\<lparr>LvReceipts := (LvReceipts v)((name, WsNextOffset (StStream st)) \<mapsto> ?row)\<rparr>) name = insert ?row (set rs)"
    using stream_rows_put(1) [OF key] rest by simp
  have "open_row u' st' ?row" using o match
    by (auto simp: open_row_def st' n receipt_phase_of_def appendReceiptsMatch_def)
  then have "receipts_ledger (v\<lparr>LvReceipts := (LvReceipts v)((name, WsNextOffset (StStream st)) := Some ?row)\<rparr>) name st'"
    using rs off open_append_operation [OF l u]
    by (intro receipts_ledger_openI [OF _ _ _ _ _ _ rows]) (simp_all add: st')
  moreover have "keeps_member st st'" by (simp add: keeps_member_def st')
  moreover have "StOperation st' \<noteq> OperationCommit" using open_append_operation [OF l u] by (simp add: st')
  ultimately show ?thesis
    using validateAppendChangeD [OF s(2)] s(3) l o n
    by (intro ledger_inv_append_step [OF inv st s(1)]) (auto simp: st' stream_ledger_def receipt_key_def open_row_def)
qed

lemma ledger_inv_abort_append:
  assumes inv: "ledger_inv S G v" and st: "S name = Some st" and u: "StUnacknowledged st = Some u"
    and match: "appendReceiptsMatch u u'"
    and st': "st' = st\<lparr>StOperation := OperationNone, StOperationPhase := OperationPhaseNone, StOperationToken := [],
        StRevision := rev', StUnacknowledged := None\<rparr>"
    and spec: "spec_abort_append revision (streamRecord st') (appendReceiptRecord name u' p c d) v = Some v'"
  shows "ledger_inv (S(name \<mapsto> st')) G v'"
proof -
  note D = ledger_invD [OF inv]
  have l: "stream_ledger v G name st" using D(1) [OF st] .
  have n: "WsName (StStream st) = name" using l by (simp add: stream_ledger_def)
  have key: "\<And>k r. LvReceipts v k = Some r \<Longrightarrow> receipt_key r = k" using D(5) by blast
  have off: "apStartOffset u' = WsNextOffset (StStream st)"
    using open_append_operation [OF l u] match by (simp add: appendReceiptsMatch_def)
  obtain rs row where rs: "applied_chain 0 rs (WsRowCount (StStream st))" and "open_row u st row"
    and row: "LvReceipts v (name, WsNextOffset (StStream st)) = Some row"
    and rest: "{r \<in> stream_rows v name. RcStartOffset r \<noteq> WsNextOffset (StStream st)} = set rs"
    using open_append [OF l u key] by blast
  have s: "spec_put revision (streamRecord st') (v\<lparr>LvReceipts := (LvReceipts v)((name, WsNextOffset (StStream st)) := None)\<rparr>) = Some v'"
    "validateAppendChange (streamRecord st') (appendReceiptRecord name u' p c d) = None"
    using spec row by (simp_all add: spec_abort_append_def off split: if_splits)
  have rows: "stream_rows (v\<lparr>LvReceipts := (LvReceipts v)((name, WsNextOffset (StStream st)) := None)\<rparr>) name = set rs"
    using stream_rows_put(2) [OF key] rest by simp
  have "receipts_ledger (v\<lparr>LvReceipts := (LvReceipts v)((name, WsNextOffset (StStream st)) := None)\<rparr>) name st'"
    using rs by (intro receipts_ledger_closedI [OF _ _ _ rows]) (simp_all add: st')
  moreover have "keeps_member st st'" by (simp add: keeps_member_def st')
  ultimately show ?thesis
    using validateAppendChangeD [OF s(2)] l n
    by (intro ledger_inv_append_step [OF inv st s(1)]) (auto simp: st' stream_ledger_def)
qed

lemma ledger_inv_complete_append:
  assumes inv: "ledger_inv S G v" and st: "S name = Some st" and u: "StUnacknowledged st = Some u"
    and match: "appendReceiptsMatch u u'" and rows: "apRowCount u = k" "in_i64 k"
    and pend: "WsType (StStream st) = StreamTypePending \<longrightarrow> WsState (StStream st) = StreamStateOpen"
    and stream': "WsName stream' = WsName (StStream st)" "WsParent stream' = WsParent (StStream st)"
      "WsType stream' = WsType (StStream st)" "WsRowCount stream' = i64_add (WsRowCount (StStream st)) k"
    and st': "st' = st\<lparr>StUnacknowledged := None, StOperation := OperationNone, StOperationPhase := OperationPhaseNone,
        StOperationToken := [], StRevision := rev', StStream := stream', StDescriptor := descr\<rparr>"
    and spec: "spec_complete_append revision (streamRecord st') (appendReceiptRecord name u' ReceiptApplied c d) v = Some v'"
  shows "ledger_inv (S(name \<mapsto> st')) G v'"
proof -
  note D = ledger_invD [OF inv]
  have l: "stream_ledger v G name st" using D(1) [OF st] .
  have n: "WsName (StStream st) = name" using l by (simp add: stream_ledger_def)
  have key: "\<And>k r. LvReceipts v k = Some r \<Longrightarrow> receipt_key r = k" using D(5) by blast
  have off: "apStartOffset u' = WsNextOffset (StStream st)"
    using open_append_operation [OF l u] match by (simp add: appendReceiptsMatch_def)
  obtain rs row where rs: "applied_chain 0 rs (WsRowCount (StStream st))" and o: "open_row u st row"
    and row: "LvReceipts v (name, WsNextOffset (StStream st)) = Some row"
    and rest: "{r \<in> stream_rows v name. RcStartOffset r \<noteq> WsNextOffset (StStream st)} = set rs"
    using open_append [OF l u key] by blast
  let ?row = "row\<lparr>RcPhase := ReceiptApplied, RcUpdatedAt := db_time d\<rparr>"
  have "spec_settle_receipt [ReceiptPrepared, ReceiptUnresolved] ReceiptApplied revision (streamRecord st') (appendReceiptRecord name u' ReceiptApplied c d) v = Some v'"
    using spec by (auto simp: spec_complete_append_def split: if_splits)
  note s = spec_settle_receiptD [OF this _ row, unfolded appendReceiptRecord_simps off, OF refl]
  note valid = validateAppendChangeD [OF s(2)]
  have counts: "0 \<le> WsRowCount (StStream st)" "WsNextOffset (StStream st) = WsRowCount (StStream st)"
    "0 \<le> WsRowCount stream'"
    using l validated_counts [of st] validated_counts [of st'] valid by (auto simp: stream_ledger_def st')
  have "0 < k" using D(5) [OF row] o rows(1) by (simp add: append_receipts_CHECK_def open_row_def)
  then have exact: "WsRowCount stream' = WsRowCount (StStream st) + k"
    using i64_add_nonneg_exact [of "WsRowCount (StStream st)" k] counts l rows(2) stream'(4)
    by (simp add: stream_ledger_def)
  have "applied_chain 0 (rs @ [?row]) (WsRowCount stream')"
    using applied_chain_snoc [OF rs, of ?row] o counts(2) rows(1) \<open>0 < k\<close> exact by (simp add: open_row_def)
  moreover have "stream_rows (v\<lparr>LvReceipts := (LvReceipts v)((name, WsNextOffset (StStream st)) \<mapsto> ?row)\<rparr>) name = set (rs @ [?row])"
    using stream_rows_put(1) [OF key] rest by simp
  ultimately have "receipts_ledger (v\<lparr>LvReceipts := (LvReceipts v)((name, WsNextOffset (StStream st)) := Some ?row)\<rparr>) name st'"
    by (intro receipts_ledger_closedI [of st' "rs @ [?row]"]) (simp_all add: st')
  moreover have "keeps_member st st'" using pend by (auto simp: keeps_member_def)
  ultimately show ?thesis
    using valid s(3) l o n stream'
    by (intro ledger_inv_append_step [OF inv st s(1)])
       (auto simp: st' stream_ledger_def receipt_key_def open_row_def)
qed

section \<open>Commit steps\<close>

lemma spec_putD:
  assumes "spec_put revision r v = Some v'"
  obtains old where "LvStreams v (WsName (SrStream r)) = Some old" "SrRevision old = revision"
    "write_streams_CHECK (updated_row old r)"
    "v' = v\<lparr>LvStreams := (LvStreams v)(WsName (SrStream r) \<mapsto> updated_row old r)\<rparr>"
  using assms by (auto simp: spec_put_def row_update_ok_def split: option.splits if_splits)

lemma spec_puts_effect:
  assumes "spec_puts seen expected rs v = Some v'"
  shows "LvReceipts v' = LvReceipts v \<and> LvGroups v' = LvGroups v \<and> distinct (map (WsName \<circ> SrStream) rs)
    \<and> set seen \<inter> (WsName \<circ> SrStream) ` set rs = {}
    \<and> (\<forall>n. n \<notin> (WsName \<circ> SrStream) ` set rs \<longrightarrow> LvStreams v' n = LvStreams v n)
    \<and> (\<forall>r \<in> set rs. \<exists>old. LvStreams v (WsName (SrStream r)) = Some old
         \<and> LvStreams v' (WsName (SrStream r)) = Some (updated_row old r)
         \<and> validateWriteStreamRecord r = None \<and> write_streams_CHECK (updated_row old r))"
  using assms
proof (induction rs arbitrary: seen v)
  case (Cons r rs seen v)
  let ?n = "WsName (SrStream r)"
  obtain revision v1 where v1: "spec_put revision r v = Some v1" "spec_puts (?n # seen) expected rs v1 = Some v'"
    and ok: "?n \<notin> set seen" "validateWriteStreamRecord r = None"
    using Cons.prems by (auto simp: Let_def split: option.splits if_splits)
  note IH = Cons.IH [OF v1(2)]
  have nr: "?n \<notin> (WsName \<circ> SrStream) ` set rs" using IH by auto
  from v1(1) show ?case
  proof (rule spec_putD)
    fix old assume old: "LvStreams v ?n = Some old" "write_streams_CHECK (updated_row old r)"
      "v1 = v\<lparr>LvStreams := (LvStreams v)(?n \<mapsto> updated_row old r)\<rparr>"
    have rest: "LvStreams v1 (WsName (SrStream x)) = LvStreams v (WsName (SrStream x))" if "x \<in> set rs" for x
    proof -
      have "WsName (SrStream x) \<noteq> ?n" using that nr by (metis comp_apply imageI)
      then show ?thesis by (simp add: old(3))
    qed
    have hd: "LvStreams v' ?n = Some (updated_row old r)" using IH nr by (simp add: old(3))
    show ?thesis
    proof (intro conjI)
      show "\<forall>x \<in> set (r # rs). \<exists>old. LvStreams v (WsName (SrStream x)) = Some old
         \<and> LvStreams v' (WsName (SrStream x)) = Some (updated_row old x)
         \<and> validateWriteStreamRecord x = None \<and> write_streams_CHECK (updated_row old x)"
        using IH rest old(1,2) hd ok(2) by simp
    qed (use IH ok nr in \<open>auto simp: old(3)\<close>)
  qed
qed simp

text \<open>The change a commit step makes to each member: its operation, and its state towards COMMITTED.\<close>

definition commit_change :: "streamState \<Rightarrow> streamState \<Rightarrow> bool" where
  "commit_change st st' \<longleftrightarrow>
     WsName (StStream st') = WsName (StStream st) \<and> WsParent (StStream st') = WsParent (StStream st)
     \<and> WsType (StStream st') = WsType (StStream st) \<and> WsRowCount (StStream st') = WsRowCount (StStream st)
     \<and> WsState (StStream st) \<noteq> StreamStateOpen \<and> WsState (StStream st') \<noteq> StreamStateOpen
     \<and> StOperation st \<noteq> OperationAppend \<and> StOperation st' \<noteq> OperationAppend
     \<and> StUnacknowledged st' = StUnacknowledged st \<and> StCleanupPhase st' = StCleanupPhase st"

abbreviation with_items :: "(string \<rightharpoonup> streamState) \<Rightarrow> (streamState \<Rightarrow> streamState) \<Rightarrow> (string \<times> streamState) list \<Rightarrow> (string \<rightharpoonup> streamState)" where
  "with_items S f items \<equiv> S ++ map_of (map (\<lambda>(n, st). (n, f st)) items)"

lemma with_items_in:
  assumes "distinct (map fst items)" "(n, st) \<in> set items"
  shows "with_items S f items n = Some (f st)"
proof -
  have "map_of (map (\<lambda>(n, st). (n, f st)) items) n = Some (f st)"
    using assms by (intro map_of_is_SomeI) (force simp: case_prod_beta comp_def)+
  then show ?thesis by simp
qed

lemma with_items_out: "n \<notin> fst ` set items \<Longrightarrow> with_items S f items n = S n"
proof -
  assume "n \<notin> fst ` set items"
  then have "map_of (map (\<lambda>(n, st). (n, f st)) items) n = None"
    by (force simp: map_of_eq_None_iff)
  then show ?thesis by (simp add: map_add_def)
qed

lemma ledger_inv_commit_step:
  assumes inv: "ledger_inv S G v"
    and items: "\<And>n st. (n, st) \<in> set items \<Longrightarrow> S n = Some st \<and> commit_change st (f st)"
    and puts: "spec_puts [] expected (map (\<lambda>(_, st). streamRecord (f st)) items)
       (v\<lparr>LvGroups := (LvGroups v)(gid \<mapsto> group_values g)\<rparr>) = Some v'"
    and g: "CgID g = gid" "table_ref_ok (CgParent g)" "commit_groups_CHECK (group_values g)"
      "i64_sum (map CmExpectedRowCount (CgMembers g)) = CgExpectedRowCount g"
    and members: "\<And>m. m \<in> set (CgMembers g) \<Longrightarrow>
       \<exists>st. (CmStreamName m, st) \<in> set items \<and> member_ledger g m (f st)"
    and after: "\<And>n st. (n, st) \<in> set items \<Longrightarrow> commit_ledger (G(gid \<mapsto> g)) n (f st)"
    and others: "\<And>n st. S n = Some st \<Longrightarrow> n \<notin> fst ` set items \<Longrightarrow> StOperation st = OperationCommit \<Longrightarrow> StOperationToken st \<noteq> gid"
  shows "ledger_inv (with_items S f items) (G(gid \<mapsto> g)) v'"
proof -
  note D = ledger_invD [OF inv]
  let ?rs = "map (\<lambda>(_, st). streamRecord (f st)) items"
  note E = spec_puts_effect [OF puts]
  have name: "WsName (StStream (f st)) = n" "WsName (StStream st) = n" if "(n, st) \<in> set items" for n st
    using items [OF that] D(1) [of n st] by (auto simp: commit_change_def stream_ledger_def)
  have names: "(WsName \<circ> SrStream) ` set ?rs = fst ` set items"
    using name by (force simp: image_iff)
  have "map (WsName \<circ> SrStream) ?rs = map fst items"
    using name by (auto simp: comp_def case_prod_beta intro!: map_cong)
  then have dist: "distinct (map fst items)" using E by metis
  have rows: "stream_rows v' n = stream_rows v n" for n using E by (simp add: stream_rows_def)
  have in_items: "stream_ledger v' (G(gid \<mapsto> g)) n (f st)" if it: "(n, st) \<in> set items" for n st
  proof -
    have l: "stream_ledger v G n st" and c: "commit_change st (f st)" using items [OF it] D(1) by auto
    have "streamRecord (f st) \<in> set ?rs" using it by force
    then obtain old where "LvStreams v n = Some old" "LvStreams v' n = Some (updated_row old (streamRecord (f st)))"
      "validateWriteStreamRecord (streamRecord (f st)) = None" "write_streams_CHECK (updated_row old (streamRecord (f st)))"
      using E name [OF it] by fastforce
    moreover have "updated_row (writeStreamValues (streamRecord st)) (streamRecord (f st)) = writeStreamValues (streamRecord (f st))"
      using c by (intro updated_row_mirror) (simp_all add: commit_change_def)
    moreover have "LvStreams v n = Some (writeStreamValues (streamRecord st))" using l by (simp add: stream_ledger_def)
    moreover have "receipts_ledger v' n (f st)"
    proof -
      obtain rs where "applied_chain 0 rs (WsRowCount (StStream st))" "stream_rows v n = set rs" "StUnacknowledged st = None"
        using l c by (auto simp: stream_ledger_def receipts_ledger_def commit_change_def split: option.splits)
      then show ?thesis using c rows by (intro receipts_ledger_closedI [of "f st" rs]) (simp_all add: commit_change_def)
    qed
    ultimately show ?thesis using l c after [OF it] name [OF it]
      by (simp add: stream_ledger_def commit_change_def)
  qed
  show ?thesis
  proof (rule ledger_invI)
    fix n x assume x: "with_items S f items n = Some x"
    show "stream_ledger v' (G(gid \<mapsto> g)) n x"
    proof (cases "n \<in> fst ` set items")
      case True
      then obtain st where it: "(n, st) \<in> set items" by force
      then have "x = f st" using x with_items_in [OF dist it, of S f] by simp
      then show ?thesis using in_items [OF it] by simp
    next
      case False
      then have s: "S n = Some x" using x with_items_out by metis
      then have "stream_ledger v G n x" by (rule D(1))
      moreover have "commit_ledger (G(gid \<mapsto> g)) n x = commit_ledger G n x"
        using others [OF s False] by (auto simp: commit_ledger_def)
      moreover have "LvStreams v' n = LvStreams v n" using E False unfolding names by simp
      ultimately show ?thesis using stream_ledger_cong [of v' n v _ x G] rows by simp
    qed
  next
    fix n assume n: "with_items S f items n = None"
    have out: "n \<notin> fst ` set items"
    proof
      assume "n \<in> fst ` set items"
      then obtain st where "(n, st) \<in> set items" by force
      from with_items_in [OF dist this, of S f] n show False by simp
    qed
    then have "S n = None" using n with_items_out by metis
    then show "LvStreams v' n = None \<and> stream_rows v' n = {}" using D(2) [of n] E out rows unfolding names by simp
  next
    fix i h assume h: "(G(gid \<mapsto> g)) i = Some h"
    show "group_ledger (with_items S f items) v' i h"
    proof (cases "i = gid")
      case True
      then have hg: "h = g" using h by simp
      have "\<exists>x. with_items S f items (CmStreamName m) = Some x \<and> member_ledger g m x" if "m \<in> set (CgMembers g)" for m
        using members [OF that] with_items_in [OF dist] by blast
      then show ?thesis using True hg g E by (simp add: group_ledger_def)
    next
      case False
      then have l: "group_ledger S v i h" using h D(3) by simp
      have "\<exists>x. with_items S f items (CmStreamName m) = Some x \<and> member_ledger h m x" if m: "m \<in> set (CgMembers h)" for m
      proof -
        obtain st where st: "S (CmStreamName m) = Some st" "member_ledger h m st" using l m by (auto simp: group_ledger_def)
        show ?thesis
        proof (cases "CmStreamName m \<in> fst ` set items")
          case True
          then obtain y where it: "(CmStreamName m, y) \<in> set items" by force
          then have "y = st" "commit_change st (f st)" using items [OF it] st by auto
          then have "member_ledger h m (f st)" using st(2) by (simp add: member_ledger_def commit_change_def)
          then show ?thesis using with_items_in [OF dist it] \<open>y = st\<close> by simp
        qed (use st with_items_out in metis)
      qed
      then show ?thesis using l E False by (simp add: group_ledger_def)
    qed
  next
    fix i assume "(G(gid \<mapsto> g)) i = None" then show "LvGroups v' i = None" using D(4) E by (auto split: if_splits)
  next
    fix k r assume "LvReceipts v' k = Some r" then show "receipt_key r = k \<and> append_receipts_CHECK r" using D(5) E by simp
  qed
qed

end
