(* ===== verification/Write_Service_Ledger.thy ===== *)
theory Write_Service_Ledger
  imports Write_Ledger
begin

text \<open>
  The contract between the Storage Write service and its state repository, as the locale
  \<open>write_ledger\<close>, the service operations proved against it, and its interpretation on the SQLite
  repository of \<open>internal/adapters/sqlite/write_state.go\<close>.
\<close>

definition implements ::
  "('r \<Rightarrow> bool) \<Rightarrow> ('r \<Rightarrow> LedgerView) \<Rightarrow> ('r \<Rightarrow> go_error option \<times> 'r) \<Rightarrow> (LedgerView \<Rightarrow> LedgerView option) \<Rightarrow> bool" where
  "implements good lv op spec \<longleftrightarrow>
     (\<forall>r. good r \<longrightarrow> (case op r of
        (None, r') \<Rightarrow> good r' \<and> spec (lv r) = Some (lv r')
      | (Some e, r') \<Rightarrow> good r' \<and> lv r' = lv r))"

definition service_inv :: "('r \<Rightarrow> bool) \<Rightarrow> ('r \<Rightarrow> LedgerView) \<Rightarrow> ('c, 'r) Service \<Rightarrow> bool" where
  "service_inv good lv s \<longleftrightarrow>
     good (SvState s) \<and> ledger_inv (gm_get (SvStreams s)) (gm_get (SvCommitGroups s)) (lv (SvState s))"

lemma service_inv_simps [simp]:
  "service_inv good lv (s\<lparr>SvCoordinator := c\<rparr>) = service_inv good lv s"
  "service_inv good lv (s\<lparr>SvPending := n\<rparr>) = service_inv good lv s"
  "service_inv good lv (s\<lparr>SvClosed := b\<rparr>) = service_inv good lv s"
  "service_inv good lv (s\<lparr>SvStateReconciled := b\<rparr>) = service_inv good lv s"
  by (simp_all add: service_inv_def)

text \<open>What an admitted append knows of its stream and of its receipt.\<close>

lemma append_validateD:
  assumes "append_validate request st now = Inr plan"
  shows "WsType (StStream st) = StreamTypePending \<longrightarrow> WsState (StStream st) = StreamStateOpen"
    and "PlWasUnacknowledged plan \<longleftrightarrow> StUnacknowledged st \<noteq> None"
    and "apRowCount (PlReceipt plan) = int (length (ArRows request))"
    and "StUnacknowledged st = None \<Longrightarrow> apStartOffset (PlReceipt plan) = WsNextOffset (StStream st)"
    and "StUnacknowledged st = Some u \<Longrightarrow> PlReceipt plan = u"
  using assms
  by (auto simp: append_validate_def Let_def appendReceiptsMatch_def split: if_splits sum.splits option.splits)

lemma appendReceiptsMatch_refl [simp]: "appendReceiptsMatch u u"
  "appendReceiptsMatch u (u\<lparr>apPhase := p, apUpdatedAt := d\<rparr>)"
  by (simp_all add: appendReceiptsMatch_def)

lemma streamRecord_updates:
  "(streamRecord st)\<lparr>SrOperation := o1, SrOperationPhase := o2, SrOperationToken := o3, SrRevision := o4\<rparr>
     = streamRecord (st\<lparr>StOperation := o1, StOperationPhase := o2, StOperationToken := o3, StRevision := o4, StUnacknowledged := u\<rparr>)"
  "(streamRecord st)\<lparr>SrOperationPhase := o2, SrRevision := o4\<rparr>
     = streamRecord (st\<lparr>StOperationPhase := o2, StRevision := o4, StUnacknowledged := u\<rparr>)"
  "(streamRecord st)\<lparr>SrStream := x, SrOperation := o1, SrOperationPhase := o2, SrOperationToken := o3, SrRevision := o4\<rparr>
     = streamRecord (st\<lparr>StUnacknowledged := u, StOperation := o1, StOperationPhase := o2, StOperationToken := o3,
         StRevision := o4, StStream := x, StDescriptor := descr\<rparr>)"
  "(streamRecord st)\<lparr>SrStream := x, SrRevision := o4\<rparr> = streamRecord (st\<lparr>StStream := x, StRevision := o4\<rparr>)"
  by (simp_all add: streamRecord_def)

text \<open>What the two validation loops of \<open>BatchCommit\<close> establish of the streams they pass.\<close>

lemma commit_resolveD:
  assumes "commit_resolve parent s unique names = (sts, [])"
  shows "distinct (map fst sts) \<and> set unique \<inter> fst ` set sts = {} \<and>
    (\<forall>(n, st) \<in> set sts. gm_get (SvStreams s) n = Some st \<and> ParseStreamName n = Inr (parent, n, False))"
  using assms
proof (induction names arbitrary: unique sts)
  case (Cons name names unique sts)
  from Cons.prems obtain c st sts1 where
    p: "ParseStreamName name = Inr (parent, c, False)" and u: "c \<notin> set unique"
    and l: "gm_get (SvStreams s) c = Some st"
    and r: "commit_resolve parent s (c # unique) names = (sts1, [])" "sts = (c, st) # sts1"
    by (auto simp: Let_def lookup_def split: sum.splits prod.splits if_splits option.splits)
  have "ParseStreamName c = Inr (parent, c, False)" using ParseStreamName_canonical_cases [OF p] by simp
  then show ?case using Cons.IH [OF r(1)] u l r(2) by auto
qed simp

lemma commit_check_ok:
  "commit_check existing ((name, st) # items) = (g, []) \<longleftrightarrow>
     StCleanupPhase st = cleanupPhaseActive \<and> WsType (StStream st) = StreamTypePending
     \<and> WsState (StStream st) = StreamStateFinalized
     \<and> (if StOperation st = OperationCommit
        then (if existing = [] then commit_check (StOperationToken st) items = (g, [])
              else existing = StOperationToken st \<and> commit_check existing items = (g, []))
        else StOperation st = OperationNone \<and> commit_check existing items = (g, []))"
  by (simp add: Let_def case_prod_beta)

lemma commit_checkD:
  assumes "commit_check existing items = (g, [])"
  shows "(existing \<noteq> [] \<longrightarrow> g = existing) \<and>
    (\<forall>(n, st) \<in> set items. StCleanupPhase st = cleanupPhaseActive \<and> WsType (StStream st) = StreamTypePending
       \<and> WsState (StStream st) = StreamStateFinalized
       \<and> (StOperation st = OperationNone \<or> StOperation st = OperationCommit \<and> (StOperationToken st = [] \<or> g = StOperationToken st)))"
  using assms
proof (induction items arbitrary: existing)
  case (Cons x items existing)
  obtain name st where x: "x = (name, st)" by fastforce
  note p = Cons.prems [unfolded x commit_check_ok]
  show ?case
  proof (cases "StOperation st = OperationCommit")
    case True
    show ?thesis
    proof (cases "existing = []")
      case e: True
      then have "commit_check (StOperationToken st) items = (g, [])" using p True by simp
      from Cons.IH [OF this] show ?thesis using p True e by (auto simp: x)
    next
      case e: False
      then have "commit_check existing items = (g, [])" using p True by auto
      from Cons.IH [OF this] show ?thesis using p True e by (auto simp: x)
    qed
  next
    case False
    then have "commit_check existing items = (g, [])" using p by simp
    from Cons.IH [OF this] show ?thesis using p False by (auto simp: x)
  qed
qed simp

lemma put_streams_simps [simp]:
  "SvCommitGroups (put_streams items s) = SvCommitGroups s" "SvState (put_streams items s) = SvState s"
  by (induction items s rule: put_streams.induct) simp_all

lemma put_streams_get:
  "distinct (map fst items) \<Longrightarrow> gm_get (SvStreams (put_streams items s)) = gm_get (SvStreams s) ++ map_of items"
proof (induction items s rule: put_streams.induct)
  case (2 name st items s)
  then have "map_of items name = None" by (simp add: map_of_eq_None_iff)
  then show ?case using 2 by (auto simp: map_add_def fun_eq_iff split: option.splits)
qed simp

lemma set_operation_simps [simp]:
  "StStream (set_operation o1 p t st) = StStream st" "StOperation (set_operation o1 p t st) = o1"
  "StOperationPhase (set_operation o1 p t st) = p" "StOperationToken (set_operation o1 p t st) = t"
  "StUnacknowledged (set_operation o1 p t st) = StUnacknowledged st" "StCleanupPhase (set_operation o1 p t st) = StCleanupPhase st"
  by (simp_all add: set_operation_def)

lemma committed_state_simps [simp]:
  "StStream (committed_state t st) = (StStream st)\<lparr>WsState := StreamStateCommitted, WsCommitTime := Some t, WsLastActivity := t\<rparr>"
  "StOperation (committed_state t st) = OperationNone" "StUnacknowledged (committed_state t st) = StUnacknowledged st"
  "StCleanupPhase (committed_state t st) = StCleanupPhase st"
  by (simp_all add: committed_state_def)

lemma validateCommitChangeD:
  "validateCommitChange rs g p = None \<Longrightarrow>
     table_ref_ok (CgParent g) \<and> i64_sum (map CmExpectedRowCount (CgMembers g)) = CgExpectedRowCount g"
  using ParseTableName_of_Name [of "CgParent g"] ParseTableName_sound [of "TableReference_Name (CgParent g)" "CgParent g"]
  by (cases "ParseTableName (TableReference_Name (CgParent g))")
     (auto simp: validateCommitChange_def split: if_splits option.splits)

text \<open>The group a commit request goes on with, and the streams it holds.\<close>

definition commit_ready :: "('c, 'r) Service \<Rightarrow> CommitGroup \<Rightarrow> (string \<times> streamState) list \<Rightarrow> bool" where
  "commit_ready s g items \<longleftrightarrow>
     gm_get (SvCommitGroups s) (CgID g) = Some g \<and> distinct (map fst items)
     \<and> CmStreamName ` set (CgMembers g) = fst ` set items
     \<and> (\<forall>(n, st) \<in> set items. gm_get (SvStreams s) n = Some st \<and> StOperation st = OperationCommit
          \<and> StOperationToken st = CgID g \<and> WsState (StStream st) = StreamStateFinalized)"

locale write_ledger =
  fixes R :: "'r StateRepository" and good :: "'r \<Rightarrow> bool" and lv :: "'r \<Rightarrow> LedgerView"
  assumes create: "implements good lv (RpCreateStream R r) (spec_create r)"
    and update: "implements good lv (RpUpdateStream R revision r) (spec_update revision r)"
    and delete: "implements good lv (RpDeleteStream R name revision) (spec_delete name revision)"
    and prepare_append: "implements good lv (RpPrepareAppend R revision r receipt) (spec_prepare_append revision r receipt)"
    and mark_append: "implements good lv (RpMarkAppendUnresolved R revision r receipt) (spec_mark_append revision r receipt)"
    and complete_append: "implements good lv (RpCompleteAppend R revision r receipt) (spec_complete_append revision r receipt)"
    and abort_append: "implements good lv (RpAbortAppend R revision r receipt) (spec_abort_append revision r receipt)"
    and prepare_commit: "implements good lv (RpPrepareCommit R expected rs g) (spec_prepare_commit expected rs g)"
    and mark_commit: "implements good lv (RpMarkCommitUnresolved R expected rs g) (spec_mark_commit expected rs g)"
    and complete_commit: "implements good lv (RpCompleteCommit R expected rs g) (spec_complete_commit expected rs g)"
    and abort_commit: "implements good lv (RpAbortCommit R expected rs g) (spec_abort_commit expected rs g)"
    and get: "good d \<Longrightarrow> RpGetStream R name d = (res, d') \<Longrightarrow>
      good d' \<and> lv d' = lv d \<and> (\<forall>rec. res = Inr rec \<longrightarrow> LvStreams (lv d) name = Some rec)"
begin

abbreviation consistent :: "('c, 'r) Service \<Rightarrow> bool" where
  "consistent s \<equiv> service_inv good lv s"

lemma call_ok:
  assumes "implements good lv op spec" "good r" "op r = (None, r')"
  shows "good r'" "spec (lv r) = Some (lv r')"
  using assms by (auto simp: implements_def split: prod.splits)

lemma call_failed:
  assumes "implements good lv op spec" "good r" "op r = (Some e, r')"
  shows "good r'" "lv r' = lv r"
  using assms by (fastforce simp: implements_def split: prod.splits)+

lemma inv_failed:
  assumes "implements good lv op spec" "consistent s" "op (SvState s) = (Some e, r')"
  shows "consistent (s\<lparr>SvState := r'\<rparr>)"
  using assms(2) call_failed [OF assms(1) _ assms(3)] by (simp add: service_inv_def)

lemma consistentD:
  assumes "consistent s"
  shows "good (SvState s)" "ledger_inv (gm_get (SvStreams s)) (gm_get (SvCommitGroups s)) (lv (SvState s))"
  using assms by (simp_all add: service_inv_def)

subsection \<open>Creating and looking up streams\<close>

lemma inv_describeTable: "consistent s \<Longrightarrow> describeTable env op table s = (res, s1) \<Longrightarrow> consistent s1 \<and> SvStreams s1 = SvStreams s"
  by (auto simp: describeTable_def Let_def split: prod.splits sum.splits)

lemma inv_put_created:
  assumes "consistent s" "gm_get (SvStreams s) name = None" "RpCreateStream R (streamRecord st) (SvState s) = (None, r)"
    and "st = new_streamState stream" "WsName stream = name" "WsRowCount stream = 0"
  shows "consistent (put_stream name st (s\<lparr>SvState := r\<rparr>))"
  using assms call_ok [OF create _ assms(3)] ledger_inv_create [of "gm_get (SvStreams s)" _ _ name st "lv r" stream]
  by (auto simp: service_inv_def)

lemma inv_create_attempts:
  assumes "consistent s" "EnRepository env = R" "create_attempts env parent schema now n k s = (res, s2)"
  shows "case res of Inr (Some (name, st)) \<Rightarrow> consistent (put_stream name st s2) | _ \<Rightarrow> consistent s2"
  using assms
proof (induction n arbitrary: k s)
  case (Suc n)
  let ?c = "TableReference_Name parent @ ''/streams/'' @ EnIDs env k"
  let ?st = "pending_candidate (SvConfig s) parent schema now ?c"
  let ?skip = "(case ParseStreamName ?c of Inl _ \<Rightarrow> True | Inr (_, _, isDefault) \<Rightarrow> isDefault) \<or> gm_get (SvStreams s) ?c \<noteq> None"
  show ?case
  proof (cases ?skip)
    case True
    then have "create_attempts env parent schema now n (Suc k) s = (res, s2)"
      using Suc.prems(3) by (simp add: Let_def)
    then show ?thesis using Suc.IH Suc.prems by blast
  next
    case False
    obtain err r where cr: "RpCreateStream R (streamRecord ?st) (SvState s) = (err, r)" by fastforce
    show ?thesis
    proof (cases err)
      case None
      then have "res = Inr (Some (?c, ?st))" "s2 = s\<lparr>SvState := r\<rparr>"
        using Suc.prems cr False by (simp_all add: Let_def split: if_splits)
      then show ?thesis
        using inv_put_created [OF Suc.prems(1), of ?c ?st r] cr None False
        by (simp add: pending_candidate_def)
    next
      case (Some e)
      have i: "consistent (s\<lparr>SvState := r\<rparr>)" using inv_failed [OF create Suc.prems(1)] cr Some by blast
      show ?thesis
      proof (cases "errors_Is e ErrStateConflict")
        case True
        then have "create_attempts env parent schema now n (Suc k) (s\<lparr>SvState := r\<rparr>) = (res, s2)"
          using Suc.prems cr False Some by (simp add: Let_def split: if_splits)
        then show ?thesis using Suc.IH i Suc.prems(2) by blast
      next
        case no: False
        then have "s2 = s\<lparr>SvState := r\<rparr>" "\<exists>x. res = Inl x" using Suc.prems cr False Some by (auto simp: Let_def split: if_splits)
        then show ?thesis using i by auto
      qed
    qed
  qed
qed auto

lemma consistent_create:
  assumes "consistent s" "EnRepository env = R"
  shows "consistent (snd (Service_CreateStream env request s))"
proof -
  let ?op = "''storage_write.create_stream''"
  obtain dres s1 where d: "describeTable env ?op (CsParent request) s = (dres, s1)" by fastforce
  have i1: "consistent s1" using inv_describeTable [OF assms(1) d] by simp
  show ?thesis
  proof (cases dres)
    case (Inl e)
    then show ?thesis using assms(1) i1 d
      by (auto simp: Service_CreateStream_def Let_def split: option.splits sum.splits)
  next
    case (Inr schema)
    obtain ares s2 where a: "create_attempts env (CsParent request) schema (EnClock env 0) 4 0 s1 = (ares, s2)"
      by fastforce
    show ?thesis using assms(1) i1 d Inr a inv_create_attempts [OF i1 assms(2) a]
      by (auto simp: Service_CreateStream_def Let_def split: option.splits sum.splits)
  qed
qed

lemma inv_lookupOrCreateDefault:
  assumes i: "consistent s" and R: "EnRepository env = R"
    and l: "lookupOrCreateDefault env op table canonical isDefault s = (res, s1)"
  shows "consistent s1 \<and> (\<forall>st. res = Inr st \<longrightarrow> gm_get (SvStreams s1) canonical = Some st)"
proof (cases "\<not> isDefault \<or> SvClosed s \<or> gm_get (SvStreams s) canonical \<noteq> None")
  case True
  then show ?thesis using i l
    by (auto simp: lookupOrCreateDefault_def lookup_def split: if_splits option.splits)
next
  case False
  then have none: "gm_get (SvStreams s) canonical = None" by simp
  obtain dres s0 where d: "describeTable env op table s = (dres, s0)" by fastforce
  have i0: "consistent s0" "SvStreams s0 = SvStreams s" using inv_describeTable [OF i d] by auto
  show ?thesis
  proof (cases dres)
    case (Inl e)
    then show ?thesis using l d False i0 by (auto simp: lookupOrCreateDefault_def)
  next
    case (Inr schema)
    let ?c = "default_candidate (SvConfig s0) table schema (EnClock env 0) canonical"
    obtain err r where cr: "RpCreateStream R (streamRecord ?c) (SvState s0) = (err, r)" by fastforce
    show ?thesis
    proof (cases err)
      case None
      then have "res = Inr ?c" "s1 = put_stream canonical ?c (s0\<lparr>SvState := r\<rparr>)"
        using l d Inr False cr R by (simp_all add: lookupOrCreateDefault_def Let_def)
      then show ?thesis
        using inv_put_created [OF i0(1), of canonical ?c r] cr None none i0(2) by (simp add: default_candidate_def)
    next
      case (Some e)
      have ir: "consistent (s0\<lparr>SvState := r\<rparr>)" using inv_failed [OF create i0(1)] cr Some by blast
      show ?thesis
      proof (cases "errors_Is e ErrStateConflict")
        case False
        then have "res = Inl (classifyStateError op e)" "s1 = s0\<lparr>SvState := r\<rparr>"
          using l d Inr \<open>\<not> (_ \<or> _ \<or> _)\<close> cr R Some by (simp_all add: lookupOrCreateDefault_def Let_def)
        then show ?thesis using ir by simp
      next
        case True
        obtain gres r1 where gs: "RpGetStream R canonical r = (gres, r1)" by fastforce
        have g: "good r1" "lv r1 = lv r" "\<forall>rec. gres = Inr rec \<longrightarrow> LvStreams (lv r) canonical = Some rec"
          using get [OF _ gs] ir by (auto simp: service_inv_def)
        have "LvStreams (lv r) canonical = None"
          using ir none i0(2) ledger_invD(2) [of "gm_get (SvStreams s0)" _ "lv r" canonical] by (auto simp: service_inv_def)
        then obtain ge where "gres = Inl ge" using g(3) by (cases gres) auto
        then have "s1 = s0\<lparr>SvState := r1\<rparr>" "\<exists>x. res = Inl x"
          using l d Inr \<open>\<not> (_ \<or> _ \<or> _)\<close> cr R Some True gs by (auto simp: lookupOrCreateDefault_def Let_def)
        then show ?thesis using ir g by (auto simp: service_inv_def)
      qed
    qed
  qed
qed

lemma consistent_get:
  assumes "consistent s" "EnRepository env = R"
  shows "consistent (snd (Service_GetStream env name s))"
  unfolding Service_GetStream_def Let_def
  using assms(1) inv_lookupOrCreateDefault [OF assms]
  by (fastforce split: option.splits sum.splits prod.splits if_splits)

subsection \<open>Append\<close>

lemma inv_append_prepare:
  assumes i: "consistent s" and R: "EnRepository env = R" and st: "gm_get (SvStreams s) name = Some st"
    and v: "append_validate request st now = Inr plan"
    and p: "append_prepare env name plan st s = (res, s2)"
  shows "consistent s2 \<and> (\<forall>st1. res = Inr st1 \<longrightarrow> gm_get (SvStreams s2) name = Some st1
    \<and> StUnacknowledged st1 = Some (PlReceipt plan) \<and> StStream st1 = StStream st)"
proof (cases "PlWasUnacknowledged plan")
  case True
  then show ?thesis using p st i append_validateD(2,5) [OF v] by (auto simp: append_prepare_def)
next
  case False
  then have fresh: "StUnacknowledged st = None" using append_validateD(2) [OF v] by simp
  let ?u = "PlReceipt plan"
  let ?st1 = "st\<lparr>StOperation := OperationAppend, StOperationPhase := OperationPhasePrepared,
      StOperationToken := FormatInt (WsNextOffset (StStream st)), StRevision := next_revision (StRevision st),
      StUnacknowledged := Some ?u\<rparr>"
  let ?rc = "appendReceiptRecord name ?u ReceiptPrepared (apCreatedAt ?u) (apUpdatedAt ?u)"
  obtain err r where c: "RpPrepareAppend R (StRevision st) (streamRecord ?st1) ?rc (SvState s) = (err, r)" by fastforce
  have p': "(res, s2) = (case err of Some e \<Rightarrow> (Inl (classifyStateError append_op e), s\<lparr>SvState := r\<rparr>)
      | None \<Rightarrow> (Inr ?st1, put_stream name ?st1 (s\<lparr>SvState := r\<rparr>)))"
    using p c R False
    by (simp add: append_prepare_def Let_def streamRecord_updates(1) [where u = "Some ?u"] split: option.splits)
  show ?thesis
  proof (cases err)
    case (Some e)
    then show ?thesis using p' inv_failed [OF prepare_append i] c by simp
  next
    case None
    note k = call_ok [OF prepare_append consistentD(1) [OF i] c [unfolded None]]
    have "ledger_inv ((gm_get (SvStreams s))(name \<mapsto> ?st1)) (gm_get (SvCommitGroups s)) (lv r)"
      using ledger_inv_prepare_append [OF consistentD(2) [OF i] st fresh _ _ refl k(2)]
        append_validateD [OF v] fresh by blast
    then show ?thesis using p' None k(1) by (simp add: service_inv_def)
  qed
qed

lemma inv_put_share:
  assumes "consistent s" "gm_get (SvStreams s) name = Some st" "StUnacknowledged st = Some u" "appendReceiptsMatch u u'"
  shows "consistent (put_stream name (share_receipt plan u' st) s)"
proof -
  have same: "(gm_get (SvStreams s))(name \<mapsto> st) = gm_get (SvStreams s)" using assms(2) by auto
  show ?thesis
    using assms ledger_inv_share [of "gm_get (SvStreams s)" _ _ name st u u']
    by (auto simp: service_inv_def share_receipt_def same)
qed

lemma inv_append_failed:
  assumes i: "consistent s" and R: "EnRepository env = R" and st: "gm_get (SvStreams s) name = Some st"
    and u: "StUnacknowledged st = Some (PlReceipt plan)"
  shows "consistent (snd (append_failed env name plan err st s))"
proof -
  let ?u = "PlReceipt plan"
  let ?u1 = "?u\<lparr>apPhase := ReceiptUnresolved, apUpdatedAt := EnClock env 2\<rparr>"
  show ?thesis
  proof (cases "appendOutcomeIsAmbiguous err")
    case True
    let ?st1 = "st\<lparr>StOperationPhase := OperationPhaseUnresolved, StRevision := next_revision (StRevision st), StUnacknowledged := Some ?u1\<rparr>"
    let ?rc = "appendReceiptRecord name ?u1 ReceiptUnresolved (apCreatedAt ?u) (EnClock env 2)"
    obtain res r where c: "RpMarkAppendUnresolved R (StRevision st) (streamRecord ?st1) ?rc (SvState s) = (res, r)" by fastforce
    have "consistent (put_stream name (share_receipt plan ?u1 st) (s\<lparr>SvState := r\<rparr>))" if "res = Some e" for e
      using inv_failed [OF mark_append i, of _ _ _ e r] c that st u by (intro inv_put_share [of _ _ _ ?u]) auto
    moreover have "consistent (put_stream name ?st1 (s\<lparr>SvState := r\<rparr>))" if none: "res = None"
    proof -
      note k = call_ok [OF mark_append consistentD(1) [OF i] c [unfolded none]]
      have "ledger_inv ((gm_get (SvStreams s))(name \<mapsto> ?st1)) (gm_get (SvCommitGroups s)) (lv r)"
        by (rule ledger_inv_mark_append [OF consistentD(2) [OF i] st u _ refl k(2)]) simp
      then show ?thesis using k(1) by (simp add: service_inv_def)
    qed
    ultimately show ?thesis using True c R i
      by (auto simp: append_failed_def Let_def streamRecord_updates(2) [where u = "Some ?u1"] split: option.splits)
  next
    case False
    let ?st1 = "st\<lparr>StOperation := OperationNone, StOperationPhase := OperationPhaseNone, StOperationToken := [],
        StRevision := next_revision (StRevision st), StUnacknowledged := None\<rparr>"
    let ?rc = "appendReceiptRecord name ?u (apPhase ?u) (apCreatedAt ?u) (EnClock env 2)"
    obtain res r where c: "RpAbortAppend R (StRevision st) (streamRecord ?st1) ?rc (SvState s) = (res, r)" by fastforce
    have "consistent (s\<lparr>SvState := r\<rparr>)" if "res = Some e" for e
      using inv_failed [OF abort_append i, of _ _ _ e r] c that by blast
    moreover have "consistent (put_stream name ?st1 (s\<lparr>SvState := r\<rparr>))" if none: "res = None"
    proof -
      note k = call_ok [OF abort_append consistentD(1) [OF i] c [unfolded none]]
      have "ledger_inv ((gm_get (SvStreams s))(name \<mapsto> ?st1)) (gm_get (SvCommitGroups s)) (lv r)"
        by (rule ledger_inv_abort_append [OF consistentD(2) [OF i] st u _ refl k(2)]) simp
      then show ?thesis using k(1) by (simp add: service_inv_def)
    qed
    ultimately show ?thesis using False c R i
      by (auto simp: append_failed_def Let_def streamRecord_updates(1) [where u = None] split: option.splits)
  qed
qed

lemma inv_append_complete:
  assumes i: "consistent s" and R: "EnRepository env = R" and st: "gm_get (SvStreams s) name = Some st"
    and u: "StUnacknowledged st = Some (PlReceipt plan)" "apRowCount (PlReceipt plan) = int (length (ArRows request))"
    and rows: "in_i64 (int (length (ArRows request)))"
    and pend: "WsType (StStream st) = StreamTypePending \<longrightarrow> WsState (StStream st) = StreamStateOpen"
  shows "consistent (snd (append_complete env request name isDefault plan st s))"
proof -
  let ?u = "PlReceipt plan" and ?n = "int (length (ArRows request))" and ?str = "StStream st"
  let ?u1 = "?u\<lparr>apPhase := ReceiptApplied, apUpdatedAt := EnClock env 3\<rparr>"
  let ?stream = "?str\<lparr>WsRowCount := i64_add (WsRowCount ?str) ?n, WsNextOffset := i64_add (WsNextOffset ?str) ?n,
      WsLastActivity := EnClock env 3,
      WsSchemaFingerprint := (if WsSchemaFingerprint ?str = [] then PlFingerprint plan else WsSchemaFingerprint ?str)\<rparr>"
  let ?st1 = "st\<lparr>StUnacknowledged := None, StOperation := OperationNone, StOperationPhase := OperationPhaseNone,
      StOperationToken := [], StRevision := next_revision (StRevision st), StStream := ?stream,
      StDescriptor := (if StDescriptor st = [] then PlDescriptor plan else StDescriptor st)\<rparr>"
  let ?rc = "appendReceiptRecord name ?u1 ReceiptApplied (apCreatedAt ?u) (EnClock env 3)"
  obtain res r where c: "RpCompleteAppend R (StRevision st) (streamRecord ?st1) ?rc (SvState s) = (res, r)" by fastforce
  have "consistent (put_stream name (share_receipt plan ?u1 st) (s\<lparr>SvState := r\<rparr>))" if "res = Some e" for e
    using inv_failed [OF complete_append i, of _ _ _ e r] c that st u by (intro inv_put_share [of _ _ _ ?u]) auto
  moreover have "consistent (put_stream name ?st1 (s\<lparr>SvState := r\<rparr>))" if none: "res = None"
  proof -
    note k = call_ok [OF complete_append consistentD(1) [OF i] c [unfolded none]]
    have "ledger_inv ((gm_get (SvStreams s))(name \<mapsto> ?st1)) (gm_get (SvCommitGroups s)) (lv r)"
      by (rule ledger_inv_complete_append [OF consistentD(2) [OF i] st u(1) _ u(2) rows pend _ _ _ _ refl k(2)]) simp_all
    then show ?thesis using k(1) by (simp add: service_inv_def)
  qed
  ultimately show ?thesis using c R
    by (auto simp: append_complete_def Let_def
        streamRecord_updates(3) [where u = None and descr = "if StDescriptor st = [] then PlDescriptor plan else StDescriptor st"]
        split: option.splits)
qed

lemma consistent_append:
  assumes i: "consistent s" and R: "EnRepository env = R" and rows: "in_i64 (int (length (ArRows request)))"
  shows "consistent (snd (Service_Append env request s))"
proof -
  have call: "consistent (snd (append_call env request table name isDefault plan st1 s2))"
    if "consistent s2" "gm_get (SvStreams s2) name = Some st1" "StUnacknowledged st1 = Some (PlReceipt plan)"
      "apRowCount (PlReceipt plan) = int (length (ArRows request))"
      "WsType (StStream st1) = StreamTypePending \<longrightarrow> WsState (StStream st1) = StreamStateOpen"
    for table name isDefault plan st1 s2
  proof -
    have f: "consistent (snd (append_failed env name plan err st1 (s2\<lparr>SvCoordinator := c\<rparr>)))" for err c
      using that R by (intro inv_append_failed) simp_all
    have g: "consistent (snd (append_complete env request name isDefault plan st1 (s2\<lparr>SvCoordinator := c\<rparr>)))" for c
      using that R rows by (intro inv_append_complete) simp_all
    show ?thesis using f g unfolding append_call_def Let_def
      by (auto split: prod.splits option.splits) (metis snd_conv)+
  qed
  show ?thesis
  proof (cases "ensureStateReconciled append_op s = None \<and> (\<exists>x. append_request (SvConfig s) request = Inr x)")
    case False
    then show ?thesis using i by (auto simp: Service_Append_def split: option.splits sum.splits)
  next
    case True
    then obtain table name isDefault where a: "ensureStateReconciled append_op s = None"
      "append_request (SvConfig s) request = Inr (table, name, isDefault)" by auto
    obtain res s1 where l: "lookupOrCreateDefault env append_op table name isDefault s = (res, s1)" by fastforce
    note L = inv_lookupOrCreateDefault [OF i R l]
    show ?thesis
    proof (cases "\<exists>st plan. res = Inr st \<and> append_validate request st (EnClock env 1) = Inr plan")
      case False
      then show ?thesis using a l L by (auto simp: Service_Append_def split: sum.splits)
    next
      case True
      then obtain st plan where v: "res = Inr st" "append_validate request st (EnClock env 1) = Inr plan" by blast
      obtain pres s2 where p: "append_prepare env name plan st s1 = (pres, s2)" by fastforce
      have st: "gm_get (SvStreams s1) name = Some st" "consistent s1" using L v(1) by auto
      note P = inv_append_prepare [OF st(2) R st(1) v(2) p]
      show ?thesis
      proof (cases pres)
        case (Inl e)
        then show ?thesis using a l v p P by (simp add: Service_Append_def)
      next
        case (Inr st1)
        then have "consistent (snd (append_call env request table name isDefault plan st1 s2))"
          using P append_validateD [OF v(2)] by (intro call) simp_all
        then show ?thesis using a l v p Inr by (simp add: Service_Append_def)
      qed
    qed
  qed
qed

subsection \<open>Finalize\<close>

lemma inv_put_touched:
  assumes i: "consistent s" and st: "gm_get (SvStreams s) name = Some st"
    and c: "RpUpdateStream R revision (streamRecord st1) (SvState s) = (None, r)"
    and same: "same_ledger st st1" "WsState (StStream st) \<noteq> StreamStateOpen \<longrightarrow> WsState (StStream st1) \<noteq> StreamStateOpen"
  shows "consistent (put_stream name st1 (s\<lparr>SvState := r\<rparr>))"
  using ledger_inv_touch [OF consistentD(2) [OF i] st call_ok(2) [OF update consistentD(1) [OF i] c] same]
    call_ok(1) [OF update consistentD(1) [OF i] c]
  by (simp add: service_inv_def)

lemma stream_not_discarded:
  "consistent s \<Longrightarrow> gm_get (SvStreams s) name = Some st \<Longrightarrow> StCleanupPhase st \<noteq> cleanupPhaseDiscarded"
  using ledger_invD(1) [OF consistentD(2)] by (auto simp: stream_ledger_def)

lemma consistent_finalize:
  assumes i: "consistent s" and R: "EnRepository env = R"
  shows "consistent (snd (Service_Finalize env name s))"
proof -
  have a: "consistent (put_stream c st1 (s\<lparr>SvState := r\<rparr>))"
    if "gm_get (SvStreams s) c = Some st" "RpUpdateStream R (StRevision st) (streamRecord st1) (SvState s) = (None, r)"
      "st1 = st\<lparr>StStream := (StStream st)\<lparr>WsState := StreamStateFinalized, WsLastActivity := t\<rparr>, StRevision := rv\<rparr>"
    for st st1 c t rv r
    using inv_put_touched [OF i that(1,2)] that(3) stream_not_discarded [OF i that(1)]
    by (simp add: same_ledger_def)
  have b: "consistent (s\<lparr>SvState := r\<rparr>)" if "RpUpdateStream R rv rec (SvState s) = (Some e, r)" for rv rec e r
    using inv_failed [OF update i that] .
  show ?thesis
    unfolding Service_Finalize_def Let_def streamRecord_updates(4) streamRecord_simps R
    using i by (auto simp: lookup_def intro: a [OF _ _ refl, simplified] b
        split: option.splits sum.splits if_splits prod.splits)
qed

end

end
