(* ===== verification/Write_Commit_Ledger.thy ===== *)
theory Write_Commit_Ledger
  imports Write_Service_Ledger
begin

text \<open>
  \<open>BatchCommit\<close> and the orphan cleanup of the Storage Write service against the ledger contract
  \<open>write_ledger\<close>: the commit group that is recorded before the side effect, the retry of an unresolved
  group, the three outcomes of the coordinator call, and the sweep that discards abandoned streams.
\<close>

lemma records_map:
  "map (\<lambda>(_, st). streamRecord st) (map (\<lambda>(n, st). (n, f st)) items) = map (\<lambda>(_, st). streamRecord (f st)) items"
  by (simp add: comp_def case_prod_beta)

lemma commit_prepare_new:
  assumes "g = new_commit_group env parent items" "f = set_operation OperationCommit OperationPhasePrepared (CgID g)"
  shows "commit_prepare env parent [] items s =
    (case RpPrepareCommit (EnRepository env) (expected_revisions items) (map (\<lambda>(_, st). streamRecord (f st)) items) g (SvState s) of
       (Some err, r) \<Rightarrow> (Inl (classifyStateError commit_op err), s\<lparr>SvState := r\<rparr>)
     | (None, r) \<Rightarrow> (Inr (Inr (g, map (\<lambda>(n, st). (n, f st)) items)),
         put_group g (put_streams (map (\<lambda>(n, st). (n, f st)) items) (s\<lparr>SvState := r\<rparr>))))"
  unfolding commit_prepare_def Let_def assms(1) [symmetric] assms(2) [symmetric] records_map by simp

context write_ledger
begin

subsection \<open>BatchCommit\<close>

lemma inv_put_items:
  assumes "good r" "ledger_inv (with_items (gm_get (SvStreams s)) f items) ((gm_get (SvCommitGroups s))(CgID g \<mapsto> g)) (lv r)"
    and "distinct (map fst items)"
  shows "consistent (put_group g (put_streams (map (\<lambda>(n, st). (n, f st)) items) (s\<lparr>SvState := r\<rparr>)))"
proof -
  let ?items = "map (\<lambda>(n, st). (n, f st)) items"
  have "map fst ?items = map fst items" by (induction items) auto
  then have d: "distinct (map fst ?items)" using assms(3) by (rule ssubst)
  show ?thesis using assms(1,2) put_streams_get [OF d, of "s\<lparr>SvState := r\<rparr>"]
    by (simp add: service_inv_def)
qed

lemma inv_prepare_new:
  assumes i: "consistent s" and d: "distinct (map fst items)"
    and items: "\<And>n st. (n, st) \<in> set items \<Longrightarrow> gm_get (SvStreams s) n = Some st \<and> StOperation st = OperationNone
        \<and> WsType (StStream st) = StreamTypePending \<and> WsState (StStream st) = StreamStateFinalized
        \<and> WsParent (StStream st) = parent"
    and g: "g = new_commit_group env parent items"
    and f: "f = set_operation OperationCommit OperationPhasePrepared (CgID g)"
    and c: "RpPrepareCommit R expected (map (\<lambda>(_, st). streamRecord (f st)) items) g (SvState s) = (None, r)"
  shows "consistent (put_group g (put_streams (map (\<lambda>(n, st). (n, f st)) items) (s\<lparr>SvState := r\<rparr>)))"
proof (rule inv_put_items [OF _ _ d])
  note k = call_ok [OF prepare_commit consistentD(1) [OF i] c]
  note D = ledger_invD [OF consistentD(2) [OF i]]
  show "good r" by (rule k(1))
  have row: "(group_values g)\<lparr>CgCommitTime := None\<rparr> = group_values g"
    by (simp add: g new_commit_group_def group_values_def)
  have sp: "spec_puts [] expected (map (\<lambda>(_, st). streamRecord (f st)) items)
       ((lv (SvState s))\<lparr>LvGroups := (LvGroups (lv (SvState s)))(CgID g \<mapsto> group_values g)\<rparr>) = Some (lv r)"
    and new: "LvGroups (lv (SvState s)) (CgID g) = None" and chk: "commit_groups_CHECK (group_values g)"
    and v: "validateCommitChange (map (\<lambda>(_, st). streamRecord (f st)) items) g OperationPhasePrepared = None"
    using k(2) by (auto simp: spec_prepare_commit_def Let_def row split: if_splits)
  have none: "gm_get (SvCommitGroups s) (CgID g) = None"
    using new D(3) [of "CgID g"] by (cases "gm_get (SvCommitGroups s) (CgID g)") (auto simp: group_ledger_def)
  show "ledger_inv (with_items (gm_get (SvStreams s)) f items) ((gm_get (SvCommitGroups s))(CgID g \<mapsto> g)) (lv r)"
  proof (rule ledger_inv_commit_step [OF consistentD(2) [OF i] _ sp refl])
    fix n st assume it: "(n, st) \<in> set items"
    show "gm_get (SvStreams s) n = Some st \<and> commit_change st (f st)"
      using items [OF it] by (simp add: commit_change_def f)
    have "n \<in> CmStreamName ` set (CgMembers g)" using it by (force simp: g new_commit_group_def)
    then show "commit_ledger ((gm_get (SvCommitGroups s))(CgID g \<mapsto> g)) n (f st)"
      by (simp add: commit_ledger_def f commit_phase_of_def) (simp add: g new_commit_group_def)
  next
    fix m assume "m \<in> set (CgMembers g)"
    then obtain st where "(CmStreamName m, st) \<in> set items" "CmExpectedRowCount m = WsRowCount (StStream st)"
      by (auto simp: g new_commit_group_def)
    then show "\<exists>st. (CmStreamName m, st) \<in> set items \<and> member_ledger g m (f st)"
      using items by (fastforce simp: member_ledger_def f g new_commit_group_def)
  next
    fix n st assume "gm_get (SvStreams s) n = Some st" "StOperation st = OperationCommit"
    then have "gm_get (SvCommitGroups s) (StOperationToken st) \<noteq> None"
      using D(1) by (auto simp: stream_ledger_def commit_ledger_def)
    then show "StOperationToken st \<noteq> CgID g" using none by auto
  qed (use validateCommitChangeD [OF v] chk in simp_all)
qed

lemma inv_commit_change:
  assumes i: "consistent s" and ready: "commit_ready s g items"
    and g1: "g1 = g\<lparr>CgPhase := p, CgUpdatedAt := t, CgCommitTime := ct\<rparr>"
    and change: "\<And>n st. (n, st) \<in> set items \<Longrightarrow> commit_change st (f st)"
    and after: "\<And>n st. (n, st) \<in> set items \<Longrightarrow>
       StOperation (f st) = OperationNone \<or> StOperationToken (f st) = CgID g \<and> p = commit_phase_of (StOperationPhase (f st))"
    and sp: "spec_change_commit ph from expected (map (\<lambda>(_, st). streamRecord (f st)) items) g1 (lv (SvState s)) = Some (lv r)"
    and good: "good r"
  shows "consistent (put_group g1 (put_streams (map (\<lambda>(n, st). (n, f st)) items) (s\<lparr>SvState := r\<rparr>)))"
proof -
  note D = ledger_invD [OF consistentD(2) [OF i]]
  let ?v = "lv (SvState s)"
  have gg: "gm_get (SvCommitGroups s) (CgID g) = Some g" and d: "distinct (map fst items)"
    and mem: "CmStreamName ` set (CgMembers g) = fst ` set items"
    and it: "\<And>n st. (n, st) \<in> set items \<Longrightarrow> gm_get (SvStreams s) n = Some st"
    using ready by (auto simp: commit_ready_def)
  have gl: "group_ledger (gm_get (SvStreams s)) ?v (CgID g) g" using D(3) [OF gg] .
  have ids: "CgID g1 = CgID g" "CgMembers g1 = CgMembers g" by (simp_all add: g1)
  have row: "(group_values g)\<lparr>CgPhase := CgPhase g1, CgUpdatedAt := db_time (CgUpdatedAt g1),
      CgCommitTime := map_option db_time (CgCommitTime g1)\<rparr> = group_values g1"
    by (simp add: g1 group_values_def)
  have s: "spec_puts [] expected (map (\<lambda>(_, st). streamRecord (f st)) items) (?v\<lparr>LvGroups := (LvGroups ?v)(CgID g1 \<mapsto> group_values g1)\<rparr>) = Some (lv r)"
    "commit_groups_CHECK (group_values g1)"
    using sp gl by (auto simp: spec_change_commit_def Let_def row ids group_ledger_def split: if_splits)
  have "ledger_inv (with_items (gm_get (SvStreams s)) f items) ((gm_get (SvCommitGroups s))(CgID g1 \<mapsto> g1)) (lv r)"
  proof (rule ledger_inv_commit_step [OF consistentD(2) [OF i] _ s(1) refl])
    fix n st assume n: "(n, st) \<in> set items"
    show "gm_get (SvStreams s) n = Some st \<and> commit_change st (f st)" using it [OF n] change [OF n] by simp
    have "n \<in> CmStreamName ` set (CgMembers g)" using n mem by force
    then show "commit_ledger ((gm_get (SvCommitGroups s))(CgID g1 \<mapsto> g1)) n (f st)"
      using after [OF n] by (auto simp: commit_ledger_def g1)
  next
    fix m assume m: "m \<in> set (CgMembers g1)"
    then obtain st where st: "gm_get (SvStreams s) (CmStreamName m) = Some st" "member_ledger g m st"
      using gl by (auto simp: group_ledger_def ids)
    have "CmStreamName m \<in> fst ` set items" using m mem by (auto simp: ids)
    then obtain y where y: "(CmStreamName m, y) \<in> set items" by force
    then have "y = st" using it st by force
    then have "member_ledger g1 m (f y)" using st(2) change [OF y] by (auto simp: member_ledger_def commit_change_def g1)
    then show "\<exists>st. (CmStreamName m, st) \<in> set items \<and> member_ledger g1 m (f st)" using y by blast
  next
    fix n st assume n: "gm_get (SvStreams s) n = Some st" "n \<notin> fst ` set items" "StOperation st = OperationCommit"
    show "StOperationToken st \<noteq> CgID g1"
    proof
      assume "StOperationToken st = CgID g1"
      then have "n \<in> CmStreamName ` set (CgMembers g)"
        using D(1) [OF n(1)] n(3) gg by (auto simp: stream_ledger_def commit_ledger_def ids)
      then show False using mem n(2) by simp
    qed
  qed (use gl s(2) in \<open>simp_all add: g1 group_ledger_def\<close>)
  then show ?thesis by (rule inv_put_items [OF good _ d])
qed

text \<open>The request's streams after both validation loops.\<close>

definition commit_items :: "('c, 'r) Service \<Rightarrow> TableReference \<Rightarrow> (string \<times> streamState) list \<Rightarrow> bool" where
  "commit_items s parent items \<longleftrightarrow>
     distinct (map fst items)
     \<and> (\<forall>(n, st) \<in> set items. gm_get (SvStreams s) n = Some st \<and> WsParent (StStream st) = parent
          \<and> WsType (StStream st) = StreamTypePending \<and> WsState (StStream st) = StreamStateFinalized)"

lemma commit_items_resolved:
  assumes i: "consistent s" and r: "commit_resolve parent s [] names = (states, [])"
    and c: "commit_check [] (sort_key fst states) = (existing, [])"
  shows "commit_items s parent (sort_key fst states)"
    and "existing = [] \<Longrightarrow> (n, st) \<in> set states \<Longrightarrow> StOperation st = OperationNone"
proof -
  note R = commit_resolveD [OF r] and C = commit_checkD [OF c]
  have l: "stream_ledger (lv (SvState s)) (gm_get (SvCommitGroups s)) n st" if "(n, st) \<in> set states" for n st
    using R that ledger_invD(1) [OF consistentD(2) [OF i]] by blast
  have parent: "WsParent (StStream st) = parent" if "(n, st) \<in> set states" for n st
    using l [OF that] R that
    by (auto simp: stream_ledger_def validateWriteStreamRecord_def Let_def split: sum.splits if_splits)
  have "distinct (map fst (sort_key fst states))" using R by (simp add: distinct_map)
  then show "commit_items s parent (sort_key fst states)"
    using R C parent unfolding commit_items_def by fastforce
  show "StOperation st = OperationNone" if e: "existing = []" and it: "(n, st) \<in> set states"
  proof -
    have "StOperation st = OperationNone \<or> StOperationToken st = []" using C it e by fastforce
    then show ?thesis using l [OF it]
      by (auto simp: stream_ledger_def validateWriteStreamRecord_def Let_def split: sum.splits if_splits option.splits)
  qed
qed

lemma inv_commit_prepare:
  assumes i: "consistent s" and R: "EnRepository env = R" and items: "commit_items s parent items"
    and free: "\<And>n st. existing = [] \<Longrightarrow> (n, st) \<in> set items \<Longrightarrow> StOperation st = OperationNone"
    and p: "commit_prepare env parent existing items s = (res, s1)"
  shows "consistent s1 \<and> (case res of Inr (Inr (g, items1)) \<Rightarrow> commit_ready s1 g items1 | _ \<Rightarrow> True)"
proof (cases "existing = []")
  case True
  define g where "g = new_commit_group env parent items"
  define f where "f = set_operation OperationCommit OperationPhasePrepared (CgID g)"
  note eq = commit_prepare_new [OF g_def f_def, of s]
  obtain e r where c: "RpPrepareCommit R (expected_revisions items) (map (\<lambda>(_, st). streamRecord (f st)) items) g (SvState s) = (e, r)"
    by fastforce
  show ?thesis
  proof (cases e)
    case (Some err)
    then have "consistent (s\<lparr>SvState := r\<rparr>)" using inv_failed [OF prepare_commit i] c by blast
    then show ?thesis using p True c Some R eq by auto
  next
    case None
    let ?items = "map (\<lambda>(n, st). (n, f st)) items" and ?s = "s\<lparr>SvState := r\<rparr>"
    have d: "distinct (map fst items)" using items by (simp add: commit_items_def)
    have "map fst ?items = map fst items" by (induction items) auto
    then have d': "distinct (map fst ?items)" using d by (rule ssubst)
    have s1: "s1 = put_group g (put_streams ?items ?s)" "res = Inr (Inr (g, ?items))"
      using p True c None R eq by simp_all
    have "consistent s1" unfolding s1
      by (rule inv_prepare_new [OF i d _ g_def f_def c [unfolded None]])
         (use items free True in \<open>auto simp: commit_items_def\<close>)
    moreover have "commit_ready s1 g ?items"
    proof -
      have "gm_get (SvStreams (put_streams ?items ?s)) n = Some (f st)" if "(n, st) \<in> set items" for n st
        using put_streams_get [OF d', of ?s] with_items_in [OF d that] by simp
      moreover have "CmStreamName ` set (CgMembers g) = fst ` set items"
        by (force simp: g_def new_commit_group_def)
      moreover have "WsState (StStream st) = StreamStateFinalized" if "(n, st) \<in> set items" for n st
        using items that by (auto simp: commit_items_def)
      ultimately show ?thesis using d' by (force simp: commit_ready_def s1 f_def image_image case_prod_beta)
    qed
    ultimately show ?thesis by (simp add: s1)
  qed
next
  case False
  then have s1: "s1 = s" using p by (auto simp: commit_prepare_def split: option.splits if_splits prod.splits)
  have "commit_ready s g items" if "res = Inr (Inr (g, items1))" for g items1
  proof -
    have all: "StOperation st = OperationCommit \<and> StOperationToken st = existing" if "(n, st) \<in> set items" for n st
      using p that False \<open>res = _\<close> by (auto simp: commit_prepare_def find_None_iff split: option.splits if_splits prod.splits)
    have g: "gm_get (SvCommitGroups s) existing = Some g" "commitGroupMatches g parent (map fst items) (expected_rows items)"
      using p False that by (auto simp: commit_prepare_def split: option.splits if_splits prod.splits)
    have id: "CgID g = existing" using ledger_invD(3) [OF consistentD(2) [OF i] g(1)] by (simp add: group_ledger_def)
    have "list_all2 (\<lambda>m n. CmStreamName m = n) (CgMembers g) (map fst items)"
      using g(2) by (auto simp: commitGroupMatches_def elim: list_all2_mono)
    then have "map CmStreamName (CgMembers g) = map fst items" by (simp add: list_all2_conv_all_nth list_eq_iff_nth_eq)
    then have "CmStreamName ` set (CgMembers g) = fst ` set items" by (metis list.set_map)
    then show ?thesis using g(1) id all items by (fastforce simp: commit_ready_def commit_items_def)
  qed
  moreover have "items1 = items" if "res = Inr (Inr (g, items1))" for g items1
    using p False that by (auto simp: commit_prepare_def split: option.splits if_splits prod.splits)
  ultimately show ?thesis using i s1 by (auto split: sum.splits)
qed

lemma commit_ready_coordinator [simp]: "commit_ready (s\<lparr>SvCoordinator := c\<rparr>) g items = commit_ready s g items"
  by (simp add: commit_ready_def)

lemma inv_commit_failed:
  assumes i: "consistent s" and R: "EnRepository env = R" and ready: "commit_ready s g items"
  shows "consistent (snd (commit_failed env g items err s))"
proof -
  define f1 where "f1 = (\<lambda>st. set_operation (StOperation st) OperationPhaseUnresolved (StOperationToken st) st)"
  define f2 where "f2 = set_operation OperationNone OperationPhaseNone []"
  let ?g1 = "g\<lparr>CgPhase := CommitUnresolved, CgUpdatedAt := EnClock env 1\<rparr>"
  let ?g2 = "g\<lparr>CgPhase := CommitAborted, CgUpdatedAt := EnClock env 1\<rparr>"
  have st: "StOperation st = OperationCommit \<and> StOperationToken st = CgID g" if "(n, st) \<in> set items" for n st
    using ready that by (auto simp: commit_ready_def)
  have c1: "commit_change st (f1 st)" if "(n, st) \<in> set items" for n st
    using ready that by (auto simp: commit_change_def f1_def commit_ready_def)
  have c2: "commit_change st (f2 st)" if "(n, st) \<in> set items" for n st
    using ready that by (auto simp: commit_change_def f2_def commit_ready_def)
  have mark: "consistent (put_group ?g1 (put_streams (map (\<lambda>(n, st). (n, f1 st)) items) (s\<lparr>SvState := r\<rparr>)))"
    if "RpMarkCommitUnresolved R (expected_revisions items) (map (\<lambda>(_, st). streamRecord (f1 st)) items) ?g1 (SvState s) = (None, r)" for r
  proof -
    note k = call_ok [OF mark_commit consistentD(1) [OF i] that]
    show ?thesis
      by (rule inv_commit_change [OF i ready, where p = CommitUnresolved and t = "EnClock env 1" and ct = "CgCommitTime g"])
         (use c1 st k in \<open>auto simp: spec_mark_commit_def f1_def commit_phase_of_def split: if_splits\<close>)
  qed
  have abort: "consistent (put_group ?g2 (put_streams (map (\<lambda>(n, st). (n, f2 st)) items) (s\<lparr>SvState := r\<rparr>)))"
    if "RpAbortCommit R (expected_revisions items) (map (\<lambda>(_, st). streamRecord (f2 st)) items) ?g2 (SvState s) = (None, r)" for r
  proof -
    note k = call_ok [OF abort_commit consistentD(1) [OF i] that]
    show ?thesis
      by (rule inv_commit_change [OF i ready, where p = CommitAborted and t = "EnClock env 1" and ct = "CgCommitTime g"])
         (use c2 st k in \<open>auto simp: spec_abort_commit_def f2_def split: if_splits\<close>)
  qed
  note no = inv_failed [OF mark_commit i] inv_failed [OF abort_commit i]
  show ?thesis
    unfolding commit_failed_def Let_def f2_def [symmetric] records_map R f1_def [symmetric]
      f1_def [THEN fun_cong, symmetric]
    using i mark abort no by (auto split: prod.splits option.splits)
qed

lemma inv_commit_complete:
  assumes i: "consistent s" and R: "EnRepository env = R" and ready: "commit_ready s g items"
  shows "consistent (snd (commit_complete env g items s))"
proof -
  define f where "f = committed_state (EnClock env 2)"
  let ?g1 = "g\<lparr>CgPhase := CommitApplied, CgUpdatedAt := EnClock env 2, CgCommitTime := Some (EnClock env 2)\<rparr>"
  have c: "commit_change st (f st)" if "(n, st) \<in> set items" for n st
    using ready that by (auto simp: commit_change_def f_def commit_ready_def)
  have fin: "consistent (put_group ?g1 (put_streams (map (\<lambda>(n, st). (n, f st)) items) (s\<lparr>SvState := r\<rparr>)))"
    if "RpCompleteCommit R (expected_revisions items) (map (\<lambda>(_, st). streamRecord (f st)) items) ?g1 (SvState s) = (None, r)" for r
  proof -
    note k = call_ok [OF complete_commit consistentD(1) [OF i] that]
    show ?thesis
      by (rule inv_commit_change [OF i ready, where p = CommitApplied and t = "EnClock env 2" and ct = "Some (EnClock env 2)"])
         (use c k in \<open>auto simp: spec_complete_commit_def f_def split: if_splits\<close>)
  qed
  note no = inv_failed [OF complete_commit i]
  show ?thesis
    unfolding commit_complete_def Let_def f_def [symmetric] records_map R
    using i fin no by (auto split: prod.splits option.splits)
qed

lemma consistent_commit:
  assumes i: "consistent s" and R: "EnRepository env = R"
  shows "consistent (snd (Service_BatchCommit env parent names s))"
proof (cases "ensureStateReconciled commit_op s = None \<and> (\<exists>x. ParseTableName (TableReference_Name parent) = Inr x) \<and> names \<noteq> []")
  case False
  then show ?thesis using i by (auto simp: Service_BatchCommit_def split: option.splits sum.splits)
next
  case ok: True
  obtain states e1 where r: "commit_resolve parent s [] names = (states, e1)" by fastforce
  obtain existing e2 where c: "commit_check [] (sort_key fst states) = (existing, e2)" by fastforce
  show ?thesis
  proof (cases "e1 = [] \<and> e2 = []")
    case False
    then show ?thesis using i ok r c by (auto simp: Service_BatchCommit_def Let_def split: sum.splits)
  next
    case True
    note I = commit_items_resolved [OF i r [unfolded True [THEN conjunct1]] c [unfolded True [THEN conjunct2]]]
    obtain res s1 where p: "commit_prepare env parent existing (sort_key fst states) s = (res, s1)" by fastforce
    have "\<And>n st. existing = [] \<Longrightarrow> (n, st) \<in> set (sort_key fst states) \<Longrightarrow> StOperation st = OperationNone"
      using I(2) by simp
    note P = inv_commit_prepare [OF i R I(1) this p]
    show ?thesis
    proof (cases "\<exists>g items. res = Inr (Inr (g, items))")
      case False
      then show ?thesis using P ok r c p True
        by (auto simp: Service_BatchCommit_def Let_def split: sum.splits)
    next
      case t: True
      then obtain g items where res: "res = Inr (Inr (g, items))" by blast
      have f: "consistent (snd (commit_failed env g items err (s1\<lparr>SvCoordinator := x\<rparr>)))" for err x
        using P res R by (intro inv_commit_failed) simp_all
      have d: "consistent (snd (commit_complete env g items (s1\<lparr>SvCoordinator := x\<rparr>)))" for x
        using P res R by (intro inv_commit_complete) simp_all
      show ?thesis using ok r c p True res d f
        by (auto simp: Service_BatchCommit_def Let_def split: prod.splits sum.splits option.splits) (metis snd_conv)+
    qed
  qed
qed

subsection \<open>Cleanup and close\<close>

lemma inv_discard_stream:
  assumes i: "consistent s" and R: "EnRepository env = R"
  shows "consistent (snd (discard_stream env name s))"
proof -
  have "consistent (s\<lparr>SvState := r, SvStreams := gm_del name (SvStreams s)\<rparr>)"
    if "RpDeleteStream R name rv (SvState s) = (None, r)" for rv r
    using call_ok [OF delete consistentD(1) [OF i] that] ledger_inv_delete [OF consistentD(2) [OF i]]
    by (simp add: service_inv_def delete_conv')
  moreover have "consistent (s\<lparr>SvState := r\<rparr>)" if "RpDeleteStream R name rv (SvState s) = (Some e, r)" for rv r e
    using inv_failed [OF delete i that] .
  ultimately show ?thesis using i R
    by (auto simp: discard_stream_def Let_def service_inv_def split: prod.splits option.splits)
qed

lemma inv_sweep_stream:
  assumes i: "consistent s" and R: "EnRepository env = R"
  shows "consistent (snd (sweep_stream env name s))"
proof (cases "gm_get (SvStreams s) name")
  case (Some st)
  obtain e r where c: "RpUpdateStream R (StRevision st) (streamRecord (cleanup_state st)) (SvState s) = (e, r)" by fastforce
  show ?thesis
  proof (cases e)
    case None
    have "consistent (put_stream name (cleanup_state st) (s\<lparr>SvState := r\<rparr>))"
      using inv_put_touched [OF i Some c [unfolded None]] by (simp add: same_ledger_def cleanup_state_def)
    from inv_discard_stream [OF this R, of name] show ?thesis using Some c None R by (simp add: sweep_stream_def Let_def)
  next
    case (Some err)
    with \<open>gm_get (SvStreams s) name = Some st\<close> c R inv_failed [OF update i c [unfolded Some]]
    show ?thesis by (simp add: sweep_stream_def Let_def)
  qed
qed (use i in \<open>simp add: sweep_stream_def\<close>)

lemma inv_sweep_loop:
  "consistent s \<Longrightarrow> EnRepository env = R \<Longrightarrow> consistent (snd (sweep_loop env ctx k names result s))"
proof (induction names arbitrary: k result s)
  case (Cons name names k result s)
  then show ?case using inv_sweep_stream [of s env name] by (auto split: option.splits prod.splits)
qed simp

lemma consistent_sweep:
  "consistent s \<Longrightarrow> EnRepository env = R \<Longrightarrow> consistent (snd (SweepOrphans env ctx s))"
  using inv_sweep_loop [of s env ctx 3 "orphans (EnClock env 0 - CfOrphanTTL (SvConfig s)) s" None]
  by (auto simp: SweepOrphans_def Let_def split: option.splits prod.splits)

lemma consistent_run_cleanup:
  "consistent s \<Longrightarrow> \<forall>(env, ctx) \<in> set ticks. EnRepository env = R \<Longrightarrow> consistent (snd (RunCleanup ticks e s))"
  by (induction ticks e s rule: RunCleanup.induct) (simp_all add: consistent_sweep)

lemma inv_close_streams:
  "consistent s \<Longrightarrow> EnRepository env = R \<Longrightarrow> consistent (snd (close_streams env names result s))"
proof (induction names arbitrary: result s)
  case (Cons name names result s)
  have up: "consistent (put_stream name st1 (s\<lparr>SvState := r\<rparr>))"
    if "gm_get (SvStreams s) name = Some st" "RpUpdateStream R (StRevision st) (streamRecord st1) (SvState s) = (None, r)"
      "st1 = st\<lparr>StStream := (StStream st)\<lparr>WsLastActivity := close_activity\<rparr>, StRevision := next_revision (StRevision st)\<rparr>"
    for st st1 r
    using inv_put_touched [OF Cons.prems(1) that(1,2)] that(3) stream_not_discarded [OF Cons.prems(1) that(1)]
    by (simp add: same_ledger_def)
  have no: "consistent (s\<lparr>SvState := r\<rparr>)" if "RpUpdateStream R rv rec (SvState s) = (Some e, r)" for rv rec e r
    using inv_failed [OF update Cons.prems(1) that] .
  show ?case using Cons.prems Cons.IH up [OF _ _ refl] no
    by (auto simp: Let_def split: option.splits prod.splits)
qed simp

lemma consistent_close:
  assumes "consistent s" "EnRepository env = R"
  shows "consistent (snd (Service_Close env ctx s))"
proof -
  have "consistent (snd (close_streams env (map fst (SvStreams s)) None (s\<lparr>SvClosed := True\<rparr>)))"
    using assms by (intro inv_close_streams) simp_all
  then show ?thesis using assms consistent_sweep [of "snd (close_streams env (map fst (SvStreams s)) None (s\<lparr>SvClosed := True\<rparr>))" env ctx]
    by (auto simp: Service_Close_def split: option.splits prod.splits service_error.splits)
qed

end

end
