(* ===== verification/Write_Sqlite_Ledger.thy ===== *)
theory Write_Sqlite_Ledger
  imports Write_Commit_Ledger
begin

text \<open>
  The SQLite repository of \<open>internal/adapters/sqlite/write_state.go\<close> provides the ledger contract: the
  interpretation of \<open>write_ledger\<close> on it, and what follows for the Storage Write service wired to it
  (\<open>cmd/bemu\<close>): every request keeps memory and tables in agreement.
\<close>

definition WriteStateRepository :: "WriteDB StateRepository" where
  "WriteStateRepository =
     \<lparr>RpReconcileStartup = repo_ReconcileStartup, RpCreateStream = repo_CreateStream, RpGetStream = repo_GetStream,
      RpUpdateStream = repo_UpdateStream, RpDeleteStream = repo_DeleteStream,
      RpPrepareAppend = repo_PrepareAppend, RpMarkAppendUnresolved = repo_MarkAppendUnresolved,
      RpCompleteAppend = repo_CompleteAppend, RpAbortAppend = repo_AbortAppend,
      RpPrepareCommit = repo_PrepareCommit, RpMarkCommitUnresolved = repo_MarkCommitUnresolved,
      RpCompleteCommit = repo_CompleteCommit, RpAbortCommit = repo_AbortCommit\<rparr>"

text \<open>The primary keys of the three tables.\<close>

definition db_keys :: "WriteDB \<Rightarrow> bool" where
  "db_keys db \<longleftrightarrow> gm_ok (DbStreams db) \<and> gm_ok (DbReceipts db) \<and> gm_ok (DbGroups db)"

lemma db_keys_simps [simp]:
  "db_keys (db\<lparr>DbFaults := fs\<rparr>) = db_keys db"
  "db_keys db \<Longrightarrow> db_keys (db\<lparr>DbStreams := gm_put n x (DbStreams db)\<rparr>)"
  "db_keys db \<Longrightarrow> db_keys (db\<lparr>DbReceipts := gm_put k y (DbReceipts db)\<rparr>)"
  "db_keys db \<Longrightarrow> db_keys (db\<lparr>DbReceipts := gm_del k (DbReceipts db)\<rparr>)"
  "db_keys db \<Longrightarrow> db_keys (db\<lparr>DbGroups := gm_put g z (DbGroups db)\<rparr>)"
  by (simp_all add: db_keys_def)

definition keeps_keys :: "(WriteDB \<Rightarrow> go_error + WriteDB) \<Rightarrow> bool" where
  "keeps_keys body \<longleftrightarrow> (\<forall>db db'. body db = Inr db' \<longrightarrow> db_keys db \<longrightarrow> db_keys db')"

lemma keeps_keys_update [intro]: "keeps_keys (updateWriteStream revision r)"
  by (auto simp: keeps_keys_def updateWriteStream_def Let_def split: if_splits option.splits)

lemma keeps_keys_updates: "updateWriteStreams_from seen expected rs db = Inr db' \<Longrightarrow> db_keys db \<Longrightarrow> db_keys db'"
proof (induction rs arbitrary: seen db)
  case (Cons r rs seen db)
  then show ?case using keeps_keys_update
    by (fastforce simp: keeps_keys_def Let_def split: if_splits option.splits sum.splits)
qed simp

lemma keeps_keys_group_updates:
  "updateWriteStreams_from seen expected rs (db\<lparr>DbGroups := gm_put k g (DbGroups db)\<rparr>) = Inr db' \<Longrightarrow> db_keys db \<Longrightarrow> db_keys db'"
  by (drule keeps_keys_updates) simp_all

lemma db_keys_tx: "keeps_keys body \<Longrightarrow> db_keys db \<Longrightarrow> db_keys (snd (with_tx body db))"
  by (rule db_keys_with_tx) (auto simp: keeps_keys_def)

lemma keeps_keys_change: "keeps_keys (set_receipt_phase from to receipt)" "keeps_keys (delete_receipt receipt)"
  by (auto simp: keeps_keys_def set_receipt_phase_def delete_receipt_def Let_def split: if_splits option.splits)

lemma db_keys_changeAppend:
  "keeps_keys change \<Longrightarrow> db_keys db \<Longrightarrow> db_keys (snd (changeAppend revision r receipt change db))"
  unfolding changeAppend_def using keeps_keys_update
  by (auto intro!: db_keys_tx simp: keeps_keys_def split: option.splits sum.splits)

lemma db_keys_changeCommit: "db_keys db \<Longrightarrow> db_keys (snd (changeCommit expected rs g phase from db))"
  unfolding changeCommit_def
  by (auto intro!: db_keys_tx simp: keeps_keys_def updateWriteStreams_def Let_def
      split: option.splits if_splits intro: keeps_keys_group_updates)

lemma db_keys_streams:
  "db_keys db \<Longrightarrow> db_keys (snd (repo_CreateStream r db))"
  "db_keys db \<Longrightarrow> db_keys (snd (repo_UpdateStream revision r db))"
  "db_keys db \<Longrightarrow> db_keys (snd (repo_DeleteStream name revision db))"
  unfolding repo_CreateStream_def repo_UpdateStream_def repo_DeleteStream_def
    apply (auto intro!: db_keys_tx simp: keeps_keys_def Let_def split: option.splits if_splits) [1]
   apply (auto intro!: db_keys_tx split: option.splits) [1]
  apply (rule db_keys_tx)
   apply (auto simp: keeps_keys_def db_keys_def distinct_map_filter split: option.splits if_splits)
  done

lemma db_keys_appends:
  "db_keys db \<Longrightarrow> db_keys (snd (repo_PrepareAppend revision r receipt db))"
  "db_keys db \<Longrightarrow> db_keys (snd (repo_MarkAppendUnresolved revision r receipt db))"
  "db_keys db \<Longrightarrow> db_keys (snd (repo_CompleteAppend revision r receipt db))"
  "db_keys db \<Longrightarrow> db_keys (snd (repo_AbortAppend revision r receipt db))"
  using keeps_keys_update
  by (auto intro!: db_keys_tx db_keys_changeAppend keeps_keys_change
      simp: keeps_keys_def repo_PrepareAppend_def repo_MarkAppendUnresolved_def repo_CompleteAppend_def
        repo_AbortAppend_def Let_def split: option.splits if_splits)

lemma db_keys_commits:
  "db_keys db \<Longrightarrow> db_keys (snd (repo_PrepareCommit expected rs g db))"
  "db_keys db \<Longrightarrow> db_keys (snd (repo_MarkCommitUnresolved expected rs g db))"
  "db_keys db \<Longrightarrow> db_keys (snd (repo_CompleteCommit expected rs g db))"
  "db_keys db \<Longrightarrow> db_keys (snd (repo_AbortCommit expected rs g db))"
  by (auto intro!: db_keys_tx db_keys_changeCommit
      simp: keeps_keys_def repo_PrepareCommit_def repo_MarkCommitUnresolved_def repo_CompleteCommit_def
        repo_AbortCommit_def updateWriteStreams_def Let_def split: option.splits if_splits intro: keeps_keys_group_updates)

lemma implements_refines:
  assumes "\<And>db. db_keys db \<Longrightarrow> refines op spec db" "\<And>db. db_keys db \<Longrightarrow> db_keys (snd (op db))"
  shows "implements db_keys view op spec"
  unfolding implements_def
proof (intro allI impI)
  fix db assume "db_keys db"
  from assms(1) [OF this] assms(2) [OF this]
  show "case op db of (None, r') \<Rightarrow> db_keys r' \<and> spec (view db) = Some (view r') | (Some e, r') \<Rightarrow> db_keys r' \<and> view r' = view db"
    by (cases "op db") (auto simp: refines_def split: option.splits)
qed

interpretation sqlite: write_ledger WriteStateRepository db_keys view
proof (unfold_locales, goal_cases)
  case (12 d name res d')
  then show ?case by (auto simp: WriteStateRepository_def repo_GetStream_def Let_def split: list.splits option.splits)
qed (auto intro!: implements_refines db_keys_streams db_keys_appends db_keys_commits
    refines_CreateStream refines_UpdateStream refines_DeleteStream refines_PrepareAppend
    refines_MarkAppendUnresolved refines_CompleteAppend refines_AbortAppend refines_PrepareCommit
    refines_MarkCommitUnresolved refines_CompleteCommit refines_AbortCommit
    simp: WriteStateRepository_def db_keys_def)

end
