(* ===== verification/Write_Restart.thy ===== *)
theory Write_Restart
  imports Write_Sqlite_Ledger
begin

text \<open>
  A restart of the emulator: \<open>ReconcileStartup\<close> of the SQLite repository and \<open>ReconcilePersistedState\<close>
  of the service on the tables a consistent service left behind. Reconciliation succeeds, the restored service
  is consistent again, and every stream continues where it was; an append or commit that was in
  flight comes back as unresolved.
\<close>

section \<open>The classification of open operations\<close>

definition restart_receipt :: "time \<Rightarrow> AppendReceipt \<Rightarrow> AppendReceipt" where
  "restart_receipt now r = (if RcPhase r = ReceiptPrepared
     then r\<lparr>RcPhase := ReceiptUnresolved, RcUpdatedAt := db_time now\<rparr> else r)"

definition restart_group :: "time \<Rightarrow> CommitGroup \<Rightarrow> CommitGroup" where
  "restart_group now g = (if CgPhase g = CommitPrepared
     then g\<lparr>CgPhase := CommitUnresolved, CgUpdatedAt := db_time now\<rparr> else g)"

definition restart_record :: "StreamRecord \<Rightarrow> StreamRecord" where
  "restart_record r = (if SrOperationPhase r = OperationPhasePrepared
     then r\<lparr>SrOperationPhase := OperationPhaseUnresolved, SrRevision := SrRevision r + 1\<rparr> else r)"

definition restart_view :: "time \<Rightarrow> LedgerView \<Rightarrow> LedgerView" where
  "restart_view now v =
     \<lparr>LvStreams = (\<lambda>n. map_option restart_record (LvStreams v n)),
      LvReceipts = (\<lambda>k. map_option (restart_receipt now) (LvReceipts v k)),
      LvGroups = (\<lambda>g. map_option (restart_group now) (LvGroups v g))\<rparr>"

definition restored :: "(string \<rightharpoonup> AppendReceipt) \<Rightarrow> StreamRecord \<Rightarrow> streamState" where
  "restored open_receipts rec =
     (state_of_record rec)\<lparr>StUnacknowledged :=
        (if SrOperation rec = OperationAppend then map_option receipt_of_record (open_receipts (WsName (SrStream rec))) else None)\<rparr>"

lemma restart_view_simps [simp]:
  "LvStreams (restart_view now v) n = map_option restart_record (LvStreams v n)"
  "LvReceipts (restart_view now v) k = map_option (restart_receipt now) (LvReceipts v k)"
  "LvGroups (restart_view now v) g = map_option (restart_group now) (LvGroups v g)"
  by (simp_all add: restart_view_def)

lemma restart_receipt_simps [simp]:
  "RcStreamName (restart_receipt now r) = RcStreamName r" "RcStartOffset (restart_receipt now r) = RcStartOffset r"
  "RcRowCount (restart_receipt now r) = RcRowCount r" "RcSchemaFingerprint (restart_receipt now r) = RcSchemaFingerprint r"
  "RcPayloadDigest (restart_receipt now r) = RcPayloadDigest r" "RcCreatedAt (restart_receipt now r) = RcCreatedAt r"
  "receipt_key (restart_receipt now r) = receipt_key r"
  "RcPhase (restart_receipt now r) = (if RcPhase r = ReceiptApplied then ReceiptApplied else ReceiptUnresolved)"
  by (cases "RcPhase r"; simp add: restart_receipt_def receipt_key_def)+

lemma restart_receipt_applied: "RcPhase r = ReceiptApplied \<Longrightarrow> restart_receipt now r = r"
  by (simp add: restart_receipt_def)

lemma restart_record_simps [simp]:
  "SrStream (restart_record r) = SrStream r" "SrOperation (restart_record r) = SrOperation r"
  "SrOperationToken (restart_record r) = SrOperationToken r" "SrCleanupPhase (restart_record r) = SrCleanupPhase r"
  "SrCleanupAttempts (restart_record r) = SrCleanupAttempts r"
  "SrOperationPhase (restart_record r) = (if SrOperationPhase r = OperationPhaseNone then OperationPhaseNone else OperationPhaseUnresolved)"
  by (cases "SrOperationPhase r"; simp add: restart_record_def)+

lemma restart_group_simps [simp]:
  "CgID (restart_group now g) = CgID g" "CgParent (restart_group now g) = CgParent g"
  "CgMembers (restart_group now g) = CgMembers g" "CgExpectedRowCount (restart_group now g) = CgExpectedRowCount g"
  "CgCreatedAt (restart_group now g) = CgCreatedAt g" "CgCommitTime (restart_group now g) = CgCommitTime g"
  by (simp_all add: restart_group_def)

lemma group_values_simps [simp]:
  "CgID (group_values g) = CgID g" "CgParent (group_values g) = CgParent g" "CgMembers (group_values g) = CgMembers g"
  "CgExpectedRowCount (group_values g) = CgExpectedRowCount g" "CgPhase (group_values g) = CgPhase g"
  by (simp_all add: group_values_def)

lemma db_time_idem [simp]: "db_time (db_time t) = db_time t"
  by (simp add: db_time_def)

lemma db_time_nonzero [simp]: "db_time t \<noteq> 0"
  using wrap64_in_i64 [of "t - unix_epoch"] by (auto simp: db_time_def in_i64_def unix_epoch_def)

lemma stored_record: "writeStreamValues (restart_record (writeStreamValues r)) = restart_record (writeStreamValues r)"
  by (simp add: writeStreamValues_def restart_record_def option.map_comp comp_def)

lemma stored_group: "group_values (restart_group now (group_values g)) = restart_group now (group_values g)"
  by (simp add: group_values_def restart_group_def option.map_comp comp_def)

lemma streamRecord_restored [simp]: "streamRecord (restored m rec) = rec"
  by (cases "SrCleanupPhase rec")
     (simp_all add: streamRecord_def restored_def state_of_record_def cleanupPhaseRecordValue_def cleanupPhaseFromRecord_def)

lemma restored_simps [simp]:
  "StStream (restored m rec) = SrStream rec" "StOperation (restored m rec) = SrOperation rec"
  "StOperationPhase (restored m rec) = SrOperationPhase rec" "StOperationToken (restored m rec) = SrOperationToken rec"
  "StCleanupPhase (restored m rec) \<noteq> cleanupPhaseDiscarded"
  "StUnacknowledged (restored m rec) =
     (if SrOperation rec = OperationAppend then map_option receipt_of_record (m (WsName (SrStream rec))) else None)"
  by (simp_all add: restored_def state_of_record_def cleanupPhaseFromRecord_def)

lemma validateWriteStreamRecord_None:
  "validateWriteStreamRecord r = None \<longleftrightarrow>
     ParseStreamName (WsName (SrStream r)) = Inr (WsParent (SrStream r), WsName (SrStream r), WsType (SrStream r) = StreamTypeDefault)
     \<and> \<not> IsZero (WsCreateTime (SrStream r)) \<and> \<not> IsZero (WsLastActivity (SrStream r)) \<and> WsLocation (SrStream r) \<noteq> []
     \<and> 0 < SrRevision r \<and> 0 \<le> WsRowCount (SrStream r) \<and> WsNextOffset (SrStream r) = WsRowCount (SrStream r)
     \<and> Fields_Validate (WsSchema (SrStream r)) = None
     \<and> (if SrOperation r = OperationNone then SrOperationPhase r = OperationPhaseNone \<and> SrOperationToken r = []
        else SrOperationPhase r \<noteq> OperationPhaseNone \<and> SrOperationToken r \<noteq> [])"
proof (cases "ParseStreamName (WsName (SrStream r))")
  case (Inr x)
  obtain table name isDefault where x: "x = (table, name, isDefault)" by (cases x)
  show ?thesis unfolding validateWriteStreamRecord_def Let_def Inr x
    by (cases "Fields_Validate (WsSchema (SrStream r))") auto
qed (simp add: validateWriteStreamRecord_def Let_def)

lemma restart_record_valid:
  assumes "validateWriteStreamRecord (streamRecord st) = None" "write_streams_CHECK (writeStreamValues (streamRecord st))"
  shows "validateWriteStreamRecord (restart_record (writeStreamValues (streamRecord st))) = None"
    and "write_streams_CHECK (restart_record (writeStreamValues (streamRecord st)))"
proof -
  let ?r = "writeStreamValues (streamRecord st)"
  have "0 < SrRevision (restart_record ?r)" using assms(2) by (auto simp: write_streams_CHECK_def Let_def restart_record_def)
  show "write_streams_CHECK (restart_record ?r)"
    using assms(2) \<open>0 < _\<close> by (auto simp: write_streams_CHECK_def Let_def)
  show "validateWriteStreamRecord (restart_record ?r) = None"
    using assms(1) \<open>0 < _\<close> unfolding validateWriteStreamRecord_None
    by (auto simp: writeStreamValues_def split: if_splits)
qed

text \<open>The receipts of one stream after the classification: the applied ones, and the open one.\<close>

lemma stream_rows_restart: "stream_rows (restart_view now v) n = restart_receipt now ` stream_rows v n"
  by (auto simp: stream_rows_def)

lemma restart_applied: "applied_chain a rs b \<Longrightarrow> restart_receipt now ` set rs = set rs"
  using applied_chain_phase by (force simp: restart_receipt_applied image_iff)

lemma restart_stream:
  assumes l: "stream_ledger v G n st"
    and m: "\<And>r. m n = Some r \<longleftrightarrow> r \<in> stream_rows (restart_view now v) n \<and> RcPhase r = ReceiptUnresolved"
    and G: "\<And>gid. G' gid = map_option (restart_group now \<circ> group_values) (G gid)"
  shows "stream_ledger (restart_view now v) G' n (restored m (restart_record (writeStreamValues (streamRecord st))))"
proof -
  let ?rec = "restart_record (writeStreamValues (streamRecord st))" and ?v = "restart_view now v"
  have "receipts_ledger ?v n (restored m ?rec)"
  proof (cases "StUnacknowledged st")
    case None
    then obtain rs where "applied_chain 0 rs (WsRowCount (StStream st))" "stream_rows v n = set rs" "StOperation st \<noteq> OperationAppend"
      using l by (auto simp: stream_ledger_def receipts_ledger_def)
    then show ?thesis
      by (intro receipts_ledger_closedI [of _ rs]) (simp_all add: stream_rows_restart restart_applied)
  next
    case (Some u)
    then obtain rs row where rs: "applied_chain 0 rs (WsRowCount (StStream st))" "stream_rows v n = insert row (set rs)"
      and op: "StOperation st = OperationAppend" "StOperationToken st = FormatInt (WsNextOffset (StStream st))" "open_row u st row"
      using l by (auto simp: stream_ledger_def receipts_ledger_def)
    let ?row = "restart_receipt now row"
    have ph: "StOperationPhase st \<noteq> OperationPhaseNone" "WsName (StStream st) = n"
      using l op(1) by (auto simp: stream_ledger_def write_streams_CHECK_def Let_def)
    have rows: "stream_rows ?v n = insert ?row (set rs)" using rs by (simp add: stream_rows_restart restart_applied)
    have un: "RcPhase ?row = ReceiptUnresolved" using op(3) by (simp add: open_row_def receipt_phase_of_def)
    then have mn: "m n = Some ?row" using m [of ?row] rows by simp
    have "StUnacknowledged (restored m ?rec) = Some (receipt_of_record ?row)"
      using mn ph op by simp
    moreover have "open_row (receipt_of_record ?row) (restored m ?rec) ?row"
      using op(3) un ph by (simp add: open_row_def receipt_of_record_def receipt_phase_of_def)
    moreover have "apStartOffset (receipt_of_record ?row) = WsNextOffset (StStream st)"
      using op(3) by (simp add: receipt_of_record_def open_row_def)
    ultimately show ?thesis unfolding receipts_ledger_def using rs rows op
      by (intro exI [of _ rs]) auto
  qed
  moreover have "commit_ledger G' n (restored m ?rec)"
    unfolding commit_ledger_def
  proof
    assume "StOperation (restored m ?rec) = OperationCommit"
    then have op: "StOperation st = OperationCommit" by simp
    obtain g where g: "G (StOperationToken st) = Some g" "n \<in> CmStreamName ` set (CgMembers g)"
      "CgPhase g = commit_phase_of (StOperationPhase st)"
      using l op by (auto simp: stream_ledger_def commit_ledger_def)
    have "StOperationPhase st \<noteq> OperationPhaseNone"
      using l op by (auto simp: stream_ledger_def validateWriteStreamRecord_None)
    then show "\<exists>g. G' (StOperationToken (restored m ?rec)) = Some g \<and> n \<in> CmStreamName ` set (CgMembers g)
        \<and> CgPhase g = commit_phase_of (StOperationPhase (restored m ?rec))"
      using g by (simp add: G restart_group_def commit_phase_of_def)
  qed
  ultimately show ?thesis
    using l restart_record_valid [of st] by (simp add: stream_ledger_def stored_record)
qed

lemma ledger_inv_restart:
  assumes inv: "ledger_inv S G v"
    and receipts: "\<And>k r. LvReceipts v k = Some r \<Longrightarrow> append_receipts_CHECK (restart_receipt now r)"
    and groups: "\<And>gid g. LvGroups v gid = Some g \<Longrightarrow> commit_groups_CHECK (restart_group now g)"
    and m: "\<And>n r. m n = Some r \<longleftrightarrow> r \<in> stream_rows (restart_view now v) n \<and> RcPhase r = ReceiptUnresolved"
    and S: "\<And>n. S' n = map_option (\<lambda>st. restored m (restart_record (writeStreamValues (streamRecord st)))) (S n)"
    and G: "\<And>gid. G' gid = map_option (restart_group now \<circ> group_values) (G gid)"
  shows "ledger_inv S' G' (restart_view now v)"
proof (rule ledger_invI)
  note D = ledger_invD [OF inv]
  show "stream_ledger (restart_view now v) G' n st" if n: "S' n = Some st" for n st
  proof -
    obtain st0 where st0: "S n = Some st0" "st = restored m (restart_record (writeStreamValues (streamRecord st0)))"
      using n by (auto simp: S)
    show ?thesis unfolding st0(2) by (rule restart_stream [where m = m, OF D(1) [OF st0(1)] m G])
  qed
  show "LvStreams (restart_view now v) n = None \<and> stream_rows (restart_view now v) n = {}" if "S' n = None" for n
    using that D(2) [of n] by (simp add: S stream_rows_restart)
  show "LvGroups (restart_view now v) gid = None" if "G' gid = None" for gid
    using that D(4) [of gid] by (simp add: G)
  show "receipt_key r = k \<and> append_receipts_CHECK r" if "LvReceipts (restart_view now v) k = Some r" for k r
    using that D(5) [of k] receipts [of k] by (cases "LvReceipts v k") auto
  show "group_ledger S' (restart_view now v) gid g" if g: "G' gid = Some g" for gid g
  proof -
    obtain g0 where g0: "G gid = Some g0" "g = restart_group now (group_values g0)" using g by (auto simp: G)
    have l: "group_ledger S v gid g0" by (rule D(3) [OF g0(1)])
    have "\<exists>st. S' (CmStreamName x) = Some st \<and> member_ledger g x st" if "x \<in> set (CgMembers g)" for x
      using l that by (force simp: g0(2) group_ledger_def S member_ledger_def)
    then show ?thesis using l groups [of gid "group_values g0"] by (simp add: group_ledger_def g0(2) stored_group)
  qed
qed

section \<open>The startup snapshot\<close>

lemma sort_key_unique:
  assumes "sorted_wrt (<) (map f ys)" "set xs = set ys" "distinct xs"
  shows "sort_key f xs = ys"
proof -
  have ys: "sorted (map f ys)" "distinct (map f ys)" using assms(1) by (simp_all add: strict_sorted_iff)
  then have inj: "inj_on f (set ys)" by (simp add: distinct_map)
  then have "distinct (map f (sort_key f xs))" using assms(2,3) by (simp add: distinct_map)
  then have "map f (sort_key f xs) = map f ys"
    using ys assms(2) by (intro sorted_distinct_set_unique) simp_all
  then show ?thesis by (rule map_inj_on) (use inj assms(2) in simp)
qed

lemma sorted_rows_get: "gm_ok m \<Longrightarrow> r \<in> set (sorted_rows m) \<longleftrightarrow> (\<exists>k. gm_get m k = Some r)"
  by (force simp: sorted_rows_def gm_get_in)

lemma sorted_rows_keys:
  assumes "gm_ok m" "\<And>k r. gm_get m k = Some r \<Longrightarrow> key r = k"
  shows "distinct (map key (sorted_rows m))"
proof -
  have "map key (sorted_rows m) = map fst (sort_key fst m)"
    using assms(2) gm_get_in [OF assms(1)] by (auto simp: sorted_rows_def)
  then show ?thesis using assms(1) by (simp add: distinct_map)
qed

lemma find_unique:
  assumes "r \<in> set xs" "P r" "\<And>x. x \<in> set xs \<Longrightarrow> P x \<Longrightarrow> x = r"
  shows "find P xs = Some r"
proof (cases "find P xs")
  case None
  then show ?thesis using assms(1,2) by (auto simp: find_None_iff)
next
  case (Some y)
  then have "y \<in> set xs" "P y" by (auto simp: find_Some_iff)
  then show ?thesis using Some assms(3) by blast
qed

lemma find_sorted_rows:
  assumes "gm_ok m" "\<And>k r. gm_get m k = Some r \<Longrightarrow> key r = k"
  shows "find (\<lambda>r. key r = n) (sorted_rows m) = gm_get m n"
proof (cases "gm_get m n")
  case None
  then show ?thesis using assms by (auto simp: find_None_iff sorted_rows_get)
next
  case (Some r)
  show ?thesis unfolding Some
  proof (rule find_unique)
    show "r \<in> set (sorted_rows m)" using Some sorted_rows_get [OF assms(1)] by blast
    show "key r = n" by (rule assms(2) [OF Some])
    show "x = r" if x: "x \<in> set (sorted_rows m)" "key x = n" for x
    proof -
      obtain k where k: "gm_get m k = Some x" using x(1) sorted_rows_get [OF assms(1)] by blast
      then have "k = n" using assms(2) [OF k] x(2) by simp
      then show ?thesis using k Some by simp
    qed
  qed
qed

lemma applied_chain_sorted:
  "applied_chain a rs b \<Longrightarrow> sorted_wrt (<) (map RcStartOffset rs)"
proof (induction rs arbitrary: a)
  case (Cons r rs)
  then show ?case using applied_chain_bounds [of "a + RcRowCount r" rs b] by fastforce
qed simp

lemma receipt_loop_applied:
  "applied_chain a rs b \<Longrightarrow> 0 \<le> a \<Longrightarrow> in_i64 b \<Longrightarrow> receipt_loop nxt (a, k) (rs @ tail) = receipt_loop nxt (b, k) tail"
proof (induction rs arbitrary: a)
  case (Cons r rs)
  have "a + RcRowCount r \<le> b" using Cons.prems applied_chain_le [of "a + RcRowCount r" rs b] by simp
  then have "in_i64 (a + RcRowCount r)" using Cons.prems by (auto simp: in_i64_def)
  then show ?case using Cons by (simp add: i64_add_def)
qed simp

text \<open>The last check of the snapshot: one stream against its receipts and its commit group.\<close>

lemma snapshot_stream_ok:
  assumes l: "stream_ledger v G n st" and p: "StOperationPhase st \<noteq> OperationPhasePrepared"
    and rows: "set (filter (\<lambda>r. RcStreamName r = n) (SnReceipts sn)) = stream_rows v n" "distinct (SnReceipts sn)"
    and groups: "\<And>gid. find (\<lambda>g. CgID g = gid) (SnCommitGroups sn) = map_option group_values (G gid)"
  shows "snapshot_stream_error sn (writeStreamValues (streamRecord st)) = None"
proof -
  let ?n = "WsRowCount (StStream st)"
  have i: "in_i64 ?n" "WsNextOffset (StStream st) = ?n" "WsName (StStream st) = n"
    and v: "validateWriteStreamRecord (streamRecord st) = None"
    using l by (auto simp: stream_ledger_def validateWriteStreamRecord_None)
  have d: "distinct (filter (\<lambda>r. RcStreamName r = n) (SnReceipts sn))" using rows(2) by simp
  show ?thesis
  proof (cases "StUnacknowledged st")
    case None
    then obtain rs where rs: "applied_chain 0 rs ?n" "stream_rows v n = set rs" "StOperation st \<noteq> OperationAppend"
      using l by (auto simp: stream_ledger_def receipts_ledger_def)
    have "stream_receipts sn n = rs" unfolding stream_receipts_def
      by (rule sort_key_unique [OF applied_chain_sorted [OF rs(1)] _ d]) (simp add: rs(2) [symmetric] rows(1) [symmetric])
    then have "receipt_loop ?n (0, 0) (stream_receipts sn n) = Inr (?n, 0)"
      using receipt_loop_applied [OF rs(1) _ i(1), of ?n 0 "[]"] by simp
    moreover have "StOperationPhase st = OperationPhaseUnresolved" if "StOperation st = OperationCommit"
      using that p v by (cases "StOperationPhase st") (auto simp: validateWriteStreamRecord_None)
    ultimately show ?thesis using rs(3) l i groups
      by (auto simp: snapshot_stream_error_def Let_def stream_ledger_def commit_ledger_def commit_phase_of_def
          commitGroupContains_def list_ex_iff write_streams_CHECK_def split: OperationKind.splits)
  next
    case (Some u)
    then obtain rs row where rs: "applied_chain 0 rs ?n" "stream_rows v n = insert row (set rs)"
      and op: "StOperation st = OperationAppend" "StOperationToken st = FormatInt ?n" "open_row u st row"
      using l i by (auto simp: stream_ledger_def receipts_ledger_def)
    have off: "RcStartOffset row = ?n" using op i by (simp add: open_row_def)
    have ph: "StOperationPhase st = OperationPhaseUnresolved"
      using op(1) p v by (cases "StOperationPhase st") (auto simp: validateWriteStreamRecord_None)
    then have un: "RcPhase row = ReceiptUnresolved" using op by (simp add: open_row_def receipt_phase_of_def)
    have "sorted_wrt (<) (map RcStartOffset (rs @ [row]))"
      using applied_chain_sorted [OF rs(1)] applied_chain_bounds [OF rs(1)] off by (simp add: sorted_wrt_append)
    then have "stream_receipts sn n = rs @ [row]" unfolding stream_receipts_def
      by (rule sort_key_unique [OF _ _ d]) (use rs(2) rows(1) in auto)
    then have "receipt_loop ?n (0, 0) (stream_receipts sn n) = Inr (?n, 1)"
      using receipt_loop_applied [OF rs(1) _ i(1), of ?n 0 "[row]"] un off by simp
    then show ?thesis using op ph i ParseInt_FormatInt [OF i(1)]
      by (simp add: snapshot_stream_error_def Let_def)
  qed
qed

lemma first_error_None: "first_error f xs = None \<longleftrightarrow> (\<forall>x \<in> set xs. f x = None)"
  by (induction xs) (auto split: option.splits)

lemma ledger_inv_row_name: "ledger_inv S G v \<Longrightarrow> LvStreams v n = Some rec \<Longrightarrow>
    \<exists>st. S n = Some st \<and> rec = writeStreamValues (streamRecord st) \<and> WsName (SrStream rec) = n"
  using ledger_invD(1,2) [of S G v n] by (cases "S n") (auto simp: stream_ledger_def)

lemma ledger_inv_group_row: "ledger_inv S G v \<Longrightarrow> LvGroups v gid = map_option group_values (G gid)"
  using ledger_invD(3,4) [of S G v gid] by (cases "G gid") (auto simp: group_ledger_def)

lemma ledger_inv_receipt_stream:
  assumes inv: "ledger_inv S G v" and r: "LvReceipts v k = Some r"
  shows "\<exists>st. S (RcStreamName r) = Some st" "r \<in> stream_rows v (RcStreamName r)"
proof -
  have k: "k = (RcStreamName r, RcStartOffset r)" using ledger_invD(5) [OF inv r] by (simp add: receipt_key_def)
  then show "r \<in> stream_rows v (RcStreamName r)" using r by (auto simp: stream_rows_def)
  then show "\<exists>st. S (RcStreamName r) = Some st" using ledger_invD(2) [OF inv] by fastforce
qed

lemma stream_rows_iff:
  assumes inv: "ledger_inv S G v"
  shows "r \<in> stream_rows v n \<longleftrightarrow> RcStreamName r = n \<and> (\<exists>k. LvReceipts v k = Some r)"
  using ledger_invD(5) [OF inv] ledger_inv_receipt_stream(2) [OF inv]
  by (fastforce simp: stream_rows_def receipt_key_def)

lemma snapshot_valid:
  assumes inv: "ledger_inv S G (view db)" and keys: "db_keys db"
    and settled: "\<And>n st. S n = Some st \<Longrightarrow> StOperationPhase st \<noteq> OperationPhasePrepared"
    and sn: "sn = \<lparr>SnStreams = sorted_rows (DbStreams db), SnReceipts = sorted_rows (DbReceipts db),
                  SnCommitGroups = sorted_rows (DbGroups db)\<rparr>"
  shows "loadWriteSnapshot db = Inr sn" and "validateWriteSnapshot sn = None"
proof -
  note D = ledger_invD [OF inv]
  have ok: "gm_ok (DbStreams db)" "gm_ok (DbReceipts db)" "gm_ok (DbGroups db)" using keys by (simp_all add: db_keys_def)
  have streams: "\<exists>n st. S n = Some st \<and> stream_ledger (view db) G n st \<and> rec = writeStreamValues (streamRecord st)"
    if "rec \<in> set (SnStreams sn)" for rec
    using that sorted_rows_get [OF ok(1)] ledger_inv_row_name [OF inv] D(1) by (fastforce simp: sn)
  have sname: "WsName (SrStream rec) = n" if "gm_get (DbStreams db) n = Some rec" for n rec
    using ledger_inv_row_name [OF inv] that by auto
  have gname: "CgID g = gid" if "gm_get (DbGroups db) gid = Some g" for gid g
    using ledger_inv_group_row [OF inv, of gid] D(3) [of gid] that by (cases "G gid") (auto simp: group_ledger_def)
  have find_s: "snapshot_stream sn n = gm_get (DbStreams db) n" for n
    using find_sorted_rows [where key = "\<lambda>r. WsName (SrStream r)" and n = n, OF ok(1) sname] by (simp add: snapshot_stream_def sn)
  have find_g: "find (\<lambda>g. CgID g = gid) (SnCommitGroups sn) = map_option group_values (G gid)" for gid
    using find_sorted_rows [where key = CgID and n = gid, OF ok(3) gname] ledger_inv_group_row [OF inv, of gid] by (simp add: sn)
  have group: "\<exists>gid g0. g = group_values g0 \<and> group_ledger S (view db) gid g0" if g: "g \<in> set (SnCommitGroups sn)" for g
  proof -
    obtain gid where "gm_get (DbGroups db) gid = Some g" using g sorted_rows_get [OF ok(3)] by (auto simp: sn)
    then show ?thesis using ledger_inv_group_row [OF inv, of gid] D(3) [of gid] by (cases "G gid") auto
  qed
  have "ParseTableName (TableReference_Name (CgParent g)) = Inr (CgParent g)" if "g \<in> set (SnCommitGroups sn)" for g
    using group [OF that] ParseTableName_Name by (auto simp: group_ledger_def)
  then show "loadWriteSnapshot db = Inr sn"
    by (simp add: loadWriteSnapshot_def loadWriteCommitGroups_def Let_def list_all_iff sn)
  have 1: "\<forall>rec \<in> set (SnStreams sn). validateWriteStreamRecord rec = None"
    using streams by (fastforce simp: stream_ledger_def validateWriteStreamRecord_None writeStreamValues_def)
  have 2: "distinct (map (WsName \<circ> SrStream) (SnStreams sn))"
    using sorted_rows_keys [OF ok(1), of "WsName \<circ> SrStream"] sname by (simp add: sn)
  have 3: "snapshot_stream sn (RcStreamName r) \<noteq> None" if r: "r \<in> set (SnReceipts sn)" for r
  proof -
    obtain k where "gm_get (DbReceipts db) k = Some r" using r sorted_rows_get [OF ok(2)] by (auto simp: sn)
    then obtain st where "S (RcStreamName r) = Some st" using ledger_inv_receipt_stream(1) [OF inv] by fastforce
    then show ?thesis using D(1) by (fastforce simp: find_s stream_ledger_def)
  qed
  have 4: "snapshot_group_error sn g = None" if g: "g \<in> set (SnCommitGroups sn)" for g
  proof -
    obtain gid g0 where g0: "g = group_values g0" "group_ledger S (view db) gid g0" using group [OF g] by blast
    have "case snapshot_stream sn (CmStreamName m) of None \<Rightarrow> False
        | Some r \<Rightarrow> WsParent (SrStream r) = CgParent g \<and> WsRowCount (SrStream r) = CmExpectedRowCount m"
      if m: "m \<in> set (CgMembers g)" for m
    proof -
      obtain st where "S (CmStreamName m) = Some st" "member_ledger g0 m st" using g0 m by (auto simp: group_ledger_def)
      then show ?thesis using D(1) by (fastforce simp: find_s stream_ledger_def member_ledger_def g0)
    qed
    then show ?thesis using g0(2) unfolding g0(1) by (simp add: snapshot_group_error_def group_ledger_def list_all_iff)
  qed
  have rows: "set (filter (\<lambda>r. RcStreamName r = n) (SnReceipts sn)) = stream_rows (view db) n" for n
    using stream_rows_iff [OF inv] sorted_rows_get [OF ok(2)] by (auto simp: sn)
  have "distinct (map receipt_key (SnReceipts sn))"
    using sorted_rows_keys [OF ok(2), of receipt_key] D(5) by (simp add: sn)
  then have d: "distinct (SnReceipts sn)" by (simp add: distinct_map)
  have 5: "snapshot_stream_error sn rec = None" if rec: "rec \<in> set (SnStreams sn)" for rec
  proof -
    obtain n st where st: "S n = Some st" "stream_ledger (view db) G n st" "rec = writeStreamValues (streamRecord st)"
      using streams [OF rec] by blast
    then show ?thesis using snapshot_stream_ok [OF st(2) settled [OF st(1)] rows d find_g] by simp
  qed
  have "first_error validateWriteStreamRecord (SnStreams sn) = None" "first_error (snapshot_group_error sn) (SnCommitGroups sn) = None"
    "first_error (snapshot_stream_error sn) (SnStreams sn) = None"
    using 1 4 5 by (simp_all add: first_error_None)
  then show "validateWriteSnapshot sn = None" using 2 3 by (simp add: validateWriteSnapshot_def list_all_iff)
qed

section \<open>Installing the snapshot\<close>

lemma unresolved_receipts_ok:
  assumes "distinct (map RcStreamName (filter (\<lambda>r. RcPhase r = ReceiptUnresolved) rs))"
    and "\<And>r. r \<in> set rs \<Longrightarrow> RcPhase r = ReceiptUnresolved \<Longrightarrow> gm_get acc (RcStreamName r) = None"
  shows "\<exists>m. unresolved_receipts acc rs = Some m \<and>
    (\<forall>n r. gm_get m n = Some r \<longleftrightarrow> gm_get acc n = Some r \<or> r \<in> set rs \<and> RcPhase r = ReceiptUnresolved \<and> RcStreamName r = n)"
  using assms
proof (induction rs arbitrary: acc)
  case (Cons r rs acc)
  show ?case
  proof (cases "RcPhase r = ReceiptUnresolved")
    case True
    let ?acc = "gm_put (RcStreamName r) r acc"
    have free: "gm_get acc (RcStreamName r) = None" using Cons.prems(2) True by simp
    have "gm_get ?acc (RcStreamName x) = None" if "x \<in> set rs" "RcPhase x = ReceiptUnresolved" for x
      using that Cons.prems True by (auto simp: image_iff)
    with Cons.IH [of ?acc] Cons.prems(1) True obtain m where m: "unresolved_receipts ?acc rs = Some m"
      "\<forall>n x. gm_get m n = Some x \<longleftrightarrow> gm_get ?acc n = Some x \<or> x \<in> set rs \<and> RcPhase x = ReceiptUnresolved \<and> RcStreamName x = n"
      by auto
    have "gm_get m n = Some x \<longleftrightarrow> gm_get acc n = Some x \<or> x \<in> set (r # rs) \<and> RcPhase x = ReceiptUnresolved \<and> RcStreamName x = n" for n x
      using m(2) [rule_format, of n x] free True by auto
    then show ?thesis using m(1) True free by simp
  next
    case False
    then show ?thesis using Cons.IH [of acc] Cons.prems by auto
  qed
qed simp

lemma map_add_cons: "map_of xs k = None \<Longrightarrow> (M(k \<mapsto> x)) ++ map_of xs = M ++ map_of ((k, x) # xs)"
  by (auto simp: map_add_def fun_eq_iff split: option.splits)

lemma install_streams_ok:
  assumes "\<And>rec. rec \<in> set recs \<Longrightarrow> SrOperation rec = OperationAppend \<Longrightarrow>
      \<exists>r. gm_get m (WsName (SrStream rec)) = Some r \<and> ParseInt (SrOperationToken rec) = Some (RcStartOffset r)"
    and "distinct (map (WsName \<circ> SrStream) recs)"
  shows "\<exists>s'. install_streams m recs s = (None, s') \<and> SvCommitGroups s' = SvCommitGroups s \<and> SvState s' = SvState s
     \<and> SvClosed s' = SvClosed s \<and> SvConfig s' = SvConfig s
     \<and> SvPending s' = SvPending s + int (length (filter (\<lambda>r. counts_as_pending (SrStream r)) recs))
     \<and> gm_get (SvStreams s') = gm_get (SvStreams s) ++ map_of (map (\<lambda>rec. (WsName (SrStream rec), restored (gm_get m) rec)) recs)"
  using assms
proof (induction recs arbitrary: s)
  case (Cons rec recs s)
  let ?n = "WsName (SrStream rec)"
  let ?s = "(put_stream ?n (restored (gm_get m) rec) s)\<lparr>SvPending :=
     (if counts_as_pending (SrStream rec) then SvPending s + 1 else SvPending s)\<rparr>"
  have step: "install_streams m (rec # recs) s = install_streams m recs ?s"
  proof (cases "SrOperation rec = OperationAppend")
    case True
    then show ?thesis using Cons.prems(1) [of rec] by (auto simp: restored_def Let_def)
  qed (simp add: restored_def Let_def state_of_record_def)
  have st: "gm_get (SvStreams ?s) = (gm_get (SvStreams s))(?n \<mapsto> restored (gm_get m) rec)" by simp
  have fresh: "map_of (map (\<lambda>rec. (WsName (SrStream rec), restored (gm_get m) rec)) recs) ?n = None"
    using Cons.prems(2) by (auto simp: map_of_eq_None_iff image_iff)
  have "\<exists>s'. install_streams m recs ?s = (None, s') \<and> SvCommitGroups s' = SvCommitGroups ?s \<and> SvState s' = SvState ?s
     \<and> SvClosed s' = SvClosed ?s \<and> SvConfig s' = SvConfig ?s
     \<and> SvPending s' = SvPending ?s + int (length (filter (\<lambda>r. counts_as_pending (SrStream r)) recs))
     \<and> gm_get (SvStreams s') = gm_get (SvStreams ?s) ++ map_of (map (\<lambda>rec. (WsName (SrStream rec), restored (gm_get m) rec)) recs)"
    by (rule Cons.IH) (use Cons.prems in simp_all)
  then obtain s' where s': "install_streams m recs ?s = (None, s')" "SvCommitGroups s' = SvCommitGroups ?s"
     "SvState s' = SvState ?s" "SvClosed s' = SvClosed ?s" "SvConfig s' = SvConfig ?s"
     "SvPending s' = SvPending ?s + int (length (filter (\<lambda>r. counts_as_pending (SrStream r)) recs))"
     "gm_get (SvStreams s') = gm_get (SvStreams ?s) ++ map_of (map (\<lambda>rec. (WsName (SrStream rec), restored (gm_get m) rec)) recs)"
    by blast
  have all: "gm_get (SvStreams s') = gm_get (SvStreams s) ++ map_of (map (\<lambda>rec. (WsName (SrStream rec), restored (gm_get m) rec)) (rec # recs))"
    using map_add_cons [OF fresh, of "gm_get (SvStreams s)" "restored (gm_get m) rec"] s'(7) st
    by (simp only: list.map)
  show ?case unfolding step
  proof (intro exI conjI)
    show "install_streams m recs ?s = (None, s')" by (rule s'(1))
    show "gm_get (SvStreams s') = gm_get (SvStreams s) ++ map_of (map (\<lambda>rec. (WsName (SrStream rec), restored (gm_get m) rec)) (rec # recs))"
      by (rule all)
  qed (use s'(2-6) in simp_all)
qed simp

lemma install_groups_simps [simp]:
  "SvState (install_groups gs s) = SvState s" "SvStreams (install_groups gs s) = SvStreams s"
  "SvClosed (install_groups gs s) = SvClosed s" "SvPending (install_groups gs s) = SvPending s"
  "SvConfig (install_groups gs s) = SvConfig s"
  by (induction gs arbitrary: s) (simp_all add: install_groups_def)

lemma install_groups_get:
  "distinct (map CgID gs) \<Longrightarrow>
   gm_get (SvCommitGroups (install_groups gs s)) = gm_get (SvCommitGroups s) ++ map_of (map (\<lambda>g. (CgID g, g)) gs)"
proof (induction gs arbitrary: s)
  case (Cons g gs s)
  have "map_of (map (\<lambda>g. (CgID g, g)) gs) (CgID g) = None" using Cons.prems by (auto simp: map_of_eq_None_iff image_iff)
  note cons = map_add_cons [OF this, of "gm_get (SvCommitGroups s)" g]
  have put: "gm_get (SvCommitGroups (put_group g s)) = (gm_get (SvCommitGroups s))(CgID g \<mapsto> g)" by simp
  have "gm_get (SvCommitGroups (install_groups (g # gs) s)) = gm_get (SvCommitGroups (put_group g s)) ++ map_of (map (\<lambda>g. (CgID g, g)) gs)"
  proof -
    have "install_groups (g # gs) s = install_groups gs (put_group g s)" by (simp add: install_groups_def)
    moreover have "distinct (map CgID gs)" using Cons.prems by simp
    ultimately show ?thesis using Cons.IH [of "put_group g s"] by metis
  qed
  then show ?case by (simp only: put cons list.map)
qed (simp add: install_groups_def)

lemma map_of_sorted_rows:
  assumes "gm_ok m" "\<And>k r. gm_get m k = Some r \<Longrightarrow> key r = k"
  shows "map_of (map (\<lambda>r. (key r, f r)) (sorted_rows m)) n = map_option f (gm_get m n)"
proof (cases "gm_get m n")
  case None
  then have "n \<notin> key ` set (sorted_rows m)" using assms(2) sorted_rows_get [OF assms(1)] by force
  then have "map_of (map (\<lambda>r. (key r, f r)) (sorted_rows m)) n = None"
    by (simp add: map_of_eq_None_iff image_image)
  then show ?thesis using None by simp
next
  case (Some r)
  then have "(n, f r) \<in> set (map (\<lambda>r. (key r, f r)) (sorted_rows m))"
    using assms(2) sorted_rows_get [OF assms(1)] by (auto simp: image_iff) blast
  moreover have "distinct (map fst (map (\<lambda>r. (key r, f r)) (sorted_rows m)))"
    using sorted_rows_keys [OF assms] by (simp add: comp_def)
  ultimately show ?thesis using Some by (simp add: map_of_is_SomeI)
qed

section \<open>Restart\<close>

text \<open>What a restart keeps of a stream.\<close>

definition survives :: "streamState \<Rightarrow> streamState \<Rightarrow> bool" where
  "survives st st' \<longleftrightarrow>
     StStream st' = SrStream (writeStreamValues (streamRecord st))
     \<and> StOperation st' = StOperation st \<and> StOperationToken st' = StOperationToken st
     \<and> StOperationPhase st' = (if StOperation st = OperationNone then OperationPhaseNone else OperationPhaseUnresolved)
     \<and> rel_option appendReceiptsMatch (StUnacknowledged st) (StUnacknowledged st')"

lemma gm_ok_map [simp]: "gm_ok (map (\<lambda>(k, x). (k, f x)) m) = gm_ok m"
proof -
  have "map fst (map (\<lambda>(k, x). (k, f x)) m) = map fst m" by (induction m) auto
  then show ?thesis by metis
qed

lemma gm_get_map [simp]: "gm_get (map (\<lambda>(k, x). (k, f x)) m) k = map_option f (gm_get m k)"
  by (induction m) auto

lemma classify_prepared_eq:
  "classify_prepared now db =
     (if (\<forall>(_, r) \<in> set (DbReceipts db). append_receipts_CHECK (restart_receipt now r))
         \<and> (\<forall>(_, g) \<in> set (DbGroups db). commit_groups_CHECK (restart_group now g))
      then Inr (db\<lparr>DbReceipts := map (\<lambda>(k, r). (k, restart_receipt now r)) (DbReceipts db),
                   DbGroups := map (\<lambda>(k, g). (k, restart_group now g)) (DbGroups db),
                   DbStreams := map (\<lambda>(k, r). (k, restart_record r)) (DbStreams db)\<rparr>)
      else Inl (errors_New ''constraint failed''))"
  unfolding classify_prepared_def Let_def restart_receipt_def [symmetric] restart_group_def [symmetric] restart_record_def [symmetric]
  by (auto simp: list_all_iff)

lemma classify_prepared_view:
  assumes "classify_prepared now db = Inr db1"
  shows "view db1 = restart_view now (view db)" "db_keys db1 = db_keys db" "DbFaults db1 = DbFaults db"
    "LvReceipts (view db) k = Some r \<Longrightarrow> append_receipts_CHECK (restart_receipt now r)"
    "LvGroups (view db) gid = Some g \<Longrightarrow> commit_groups_CHECK (restart_group now g)"
  using assms unfolding classify_prepared_eq
  by (auto simp: view_def restart_view_def fun_eq_iff db_keys_def simp del: map_map split: if_splits dest!: map_of_SomeD)

text \<open>After the classification a stream has at most one unresolved receipt.\<close>

lemma unresolved_unique:
  assumes inv: "ledger_inv S G v"
    and r: "r \<in> stream_rows (restart_view now v) n" "RcPhase r = ReceiptUnresolved"
    and r': "r' \<in> stream_rows (restart_view now v) n" "RcPhase r' = ReceiptUnresolved"
  shows "r = r'"
proof -
  have "S n \<noteq> None" using r(1) ledger_invD(2) [OF inv, of n] by (auto simp: stream_rows_restart)
  then obtain st where "stream_ledger v G n st" using ledger_invD(1) [OF inv] by blast
  then have "\<exists>rs row. applied_chain 0 rs (WsRowCount (StStream st)) \<and> stream_rows v n \<subseteq> insert row (set rs)"
    unfolding stream_ledger_def receipts_ledger_def
    by (cases "StUnacknowledged st") (simp_all, blast+)
  then obtain rs row where "applied_chain 0 rs (WsRowCount (StStream st))" "stream_rows v n \<subseteq> insert row (set rs)"
    by blast
  note chain = this
  have only: "x = restart_receipt now row" if x: "x \<in> stream_rows (restart_view now v) n" "RcPhase x = ReceiptUnresolved" for x
  proof -
    obtain y where y: "y \<in> stream_rows v n" "x = restart_receipt now y"
      using x(1) unfolding stream_rows_restart by blast
    have "RcPhase y \<noteq> ReceiptApplied" using y(2) x(2) by (auto split: if_splits)
    then have "y \<notin> set rs" using applied_chain_phase [OF chain(1)] by blast
    then show ?thesis using y chain(2) by blast
  qed
  show ?thesis using only [OF r] only [OF r'] by simp
qed

lemma open_receipts_exist:
  assumes inv: "ledger_inv S G v"
  obtains m where "\<And>n r. m n = Some r \<longleftrightarrow> r \<in> stream_rows (restart_view now v) n \<and> RcPhase r = ReceiptUnresolved"
proof -
  have "\<exists>x. \<forall>r. x = Some r \<longleftrightarrow> r \<in> stream_rows (restart_view now v) n \<and> RcPhase r = ReceiptUnresolved" for n
  proof (cases "\<exists>r \<in> stream_rows (restart_view now v) n. RcPhase r = ReceiptUnresolved")
    case True
    then show ?thesis using unresolved_unique [OF inv] by (metis option.inject)
  qed auto
  then show ?thesis using that by metis
qed

lemma survives_restored:
  assumes l: "stream_ledger v G n st"
    and m: "\<And>n r. m n = Some r \<longleftrightarrow> r \<in> stream_rows (restart_view now v) n \<and> RcPhase r = ReceiptUnresolved"
  shows "survives st (restored m (restart_record (writeStreamValues (streamRecord st))))"
proof -
  have v: "validateWriteStreamRecord (streamRecord st) = None" "WsName (StStream st) = n" using l by (auto simp: stream_ledger_def)
  have "rel_option appendReceiptsMatch (StUnacknowledged st)
      (StUnacknowledged (restored m (restart_record (writeStreamValues (streamRecord st)))))"
  proof (cases "StUnacknowledged st")
    case None
    then show ?thesis using l by (auto simp: stream_ledger_def receipts_ledger_def)
  next
    case (Some u)
    then obtain rs row where op: "StOperation st = OperationAppend" "open_row u st row" "row \<in> stream_rows v n"
      "apStartOffset u = WsNextOffset (StStream st)"
      using l by (auto simp: stream_ledger_def receipts_ledger_def)
    have "m n = Some (restart_receipt now row)"
      using m [of n] op by (auto simp: stream_rows_restart open_row_def receipt_phase_of_def)
    then show ?thesis using Some op v by (simp add: appendReceiptsMatch_def receipt_of_record_def open_row_def)
  qed
  then show ?thesis using v by (auto simp: survives_def validateWriteStreamRecord_None split: if_splits)
qed


text \<open>
  The restarted service on a consistent ledger. The clock hypotheses are the CHECK constraint
  \<open>updated_at_ns >= created_at_ns\<close> of the rows that the classification touches.
\<close>

lemma reconcile_consistent:
  fixes s s0 :: "('c, WriteDB) Service"
  assumes inv: "service_inv db_keys view s" and new: "Service_New config c (SvState s) True = Inr s0"
    and R: "EnRepository env = WriteStateRepository"
    and ok: "classify_prepared (EnClock env 0) ((SvState s)\<lparr>DbFaults := tl (DbFaults (SvState s))\<rparr>) = Inr db1"
    and fault: "\<not> engine_fault (SvState s)"
  shows "\<exists>s1. ReconcilePersistedState env s0 = (None, s1) \<and> service_inv db_keys view s1 \<and> SvStateReconciled s1 \<and> \<not> SvClosed s1
    \<and> (\<forall>n. rel_option survives (gm_get (SvStreams s) n) (gm_get (SvStreams s1) n))"
proof -
  let ?S = "gm_get (SvStreams s)" and ?G = "gm_get (SvCommitGroups s)" and ?now = "EnClock env 0" and ?db = "SvState s"
  let ?v1 = "restart_view ?now (view ?db)"
  have s0: "SvState s0 = ?db" "SvStreams s0 = []" "SvCommitGroups s0 = []" "\<not> SvClosed s0" "\<not> SvStateReconciled s0"
    using new by (auto simp: Service_New_def split: option.splits)
  have keys: "db_keys ?db" and led: "ledger_inv ?S ?G (view ?db)" using inv by (simp_all add: service_inv_def)
  note C = classify_prepared_view [OF ok, simplified]
  have v1: "view db1 = ?v1" "db_keys db1" using C(1,2) keys by simp_all
  obtain m where m: "\<And>n r. m n = Some r \<longleftrightarrow> r \<in> stream_rows ?v1 n \<and> RcPhase r = ReceiptUnresolved"
    using open_receipts_exist [OF led] by blast
  define S' where "S' = (\<lambda>n. map_option (\<lambda>st. restored m (restart_record (writeStreamValues (streamRecord st)))) (?S n))"
  define G' where "G' = (\<lambda>gid. map_option (restart_group ?now \<circ> group_values) (?G gid))"
  have led1: "ledger_inv S' G' (view db1)" unfolding v1
    by (rule ledger_inv_restart [OF led _ _ m]) (use C(4,5) in \<open>auto simp: S'_def G'_def\<close>)
  note D1 = ledger_invD [OF led1]
  have settled: "StOperationPhase st \<noteq> OperationPhasePrepared" if "S' n = Some st" for n st
    using that by (auto simp: S'_def split: if_splits)
  define sn where "sn = \<lparr>SnStreams = sorted_rows (DbStreams db1), SnReceipts = sorted_rows (DbReceipts db1),
      SnCommitGroups = sorted_rows (DbGroups db1)\<rparr>"
  note V = snapshot_valid [OF led1 v1(2) settled sn_def]
  have gk: "gm_ok (DbStreams db1)" "gm_ok (DbReceipts db1)" "gm_ok (DbGroups db1)" using v1(2) by (simp_all add: db_keys_def)
  have rec: "repo_ReconcileStartup ?now ?db = (Inr sn, db1)"
    using fault ok V by (auto simp: repo_ReconcileStartup_def Let_def engine_fault_def split: list.splits option.splits)
  have rows: "r \<in> set (SnReceipts sn) \<and> RcStreamName r = n \<longleftrightarrow> r \<in> stream_rows ?v1 n" for r n
    using stream_rows_iff [OF led1] sorted_rows_get [OF gk(2)] by (auto simp: sn_def v1(1) [symmetric])
  have "distinct (map receipt_key (SnReceipts sn))"
    using sorted_rows_keys [OF gk(2), of receipt_key] D1(5) by (simp add: sn_def)
  then have "distinct (SnReceipts sn)" by (simp add: distinct_map)
  moreover have "inj_on RcStreamName (set (filter (\<lambda>r. RcPhase r = ReceiptUnresolved) (SnReceipts sn)))"
  proof (rule inj_onI)
    fix x y assume x: "x \<in> set (filter (\<lambda>r. RcPhase r = ReceiptUnresolved) (SnReceipts sn))"
      and y: "y \<in> set (filter (\<lambda>r. RcPhase r = ReceiptUnresolved) (SnReceipts sn))" and n: "RcStreamName x = RcStreamName y"
    have "x \<in> stream_rows ?v1 (RcStreamName y)" "y \<in> stream_rows ?v1 (RcStreamName y)" using x y n rows by auto
    then show "x = y" using unresolved_unique [OF led] x y by auto
  qed
  ultimately have "distinct (map RcStreamName (filter (\<lambda>r. RcPhase r = ReceiptUnresolved) (SnReceipts sn)))"
    by (simp add: distinct_map)
  then obtain um where um: "unresolved_receipts [] (SnReceipts sn) = Some um"
    "\<And>n r. gm_get um n = Some r \<longleftrightarrow> r \<in> set (SnReceipts sn) \<and> RcPhase r = ReceiptUnresolved \<and> RcStreamName r = n"
    using unresolved_receipts_ok [of "SnReceipts sn" "[]"] by auto
  have umm: "gm_get um = m"
  proof
    fix n
    have "gm_get um n = Some r \<longleftrightarrow> m n = Some r" for r using um(2) [of n r] m [of n r] rows [of r n] by blast
    then show "gm_get um n = m n" by (cases "m n"; cases "gm_get um n") auto
  qed
  let ?s2 = "install_groups (SnCommitGroups sn) (s0\<lparr>SvState := db1\<rparr>)"
  have sname: "WsName (SrStream r) = n" if "gm_get (DbStreams db1) n = Some r" for n r
    using ledger_inv_row_name [OF led1] that by auto
  have gname: "CgID g = gid" if "gm_get (DbGroups db1) gid = Some g" for gid g
    using ledger_inv_group_row [OF led1, of gid] D1(3) [of gid] that by (cases "G' gid") (auto simp: group_ledger_def)
  have "distinct (map CgID (SnCommitGroups sn))" using sorted_rows_keys [where key = CgID, OF gk(3) gname] by (simp add: sn_def)
  from install_groups_get [OF this, of "s0\<lparr>SvState := db1\<rparr>"]
  have inst: "gm_get (SvCommitGroups ?s2) = map_of (map (\<lambda>g. (CgID g, g)) (sorted_rows (DbGroups db1)))" by (simp add: s0 sn_def)
  have groups: "gm_get (SvCommitGroups ?s2) = G'"
  proof
    fix gid
    have "gm_get (SvCommitGroups ?s2) gid = LvGroups (view db1) gid"
      using map_of_sorted_rows [where key = CgID and f = "\<lambda>g. g" and n = gid, OF gk(3) gname]
      unfolding inst by (simp add: option.map_ident)
    also have "\<dots> = G' gid" using ledger_inv_group_row [OF led, of gid] by (simp add: v1(1) G'_def option.map_comp)
    finally show "gm_get (SvCommitGroups ?s2) gid = G' gid" .
  qed
  have app: "\<exists>r. gm_get um (WsName (SrStream rec)) = Some r \<and> ParseInt (SrOperationToken rec) = Some (RcStartOffset r)"
    if r: "rec \<in> set (SnStreams sn)" "SrOperation rec = OperationAppend" for rec
  proof -
    obtain n where n: "LvStreams (view db1) n = Some rec" using r(1) sorted_rows_get [OF gk(1)] by (auto simp: sn_def)
    obtain st where st: "S' n = Some st" "rec = writeStreamValues (streamRecord st)" "WsName (SrStream rec) = n"
      using ledger_inv_row_name [OF led1 n] by blast
    have l: "stream_ledger (view db1) G' n st" by (rule D1(1) [OF st(1)])
    have op: "StOperation st = OperationAppend" using r(2) st(2) by simp
    then obtain u row where row: "open_row u st row" "row \<in> stream_rows (view db1) n"
      "StOperationToken st = FormatInt (WsNextOffset (StStream st))"
      using l by (auto simp: stream_ledger_def receipts_ledger_def split: option.splits)
    have ph: "StOperationPhase st = OperationPhaseUnresolved"
      using settled [OF st(1)] l op by (cases "StOperationPhase st") (auto simp: stream_ledger_def validateWriteStreamRecord_None)
    have "m n = Some row" using m row ph by (simp add: v1(1) open_row_def receipt_phase_of_def)
    moreover have "in_i64 (WsNextOffset (StStream st))" using l by (auto simp: stream_ledger_def validateWriteStreamRecord_None)
    ultimately show ?thesis using row st ParseInt_FormatInt by (simp add: umm open_row_def)
  qed
  have "distinct (map (WsName \<circ> SrStream) (SnStreams sn))"
    using sorted_rows_keys [where key = "WsName \<circ> SrStream", OF gk(1)] sname by (simp add: sn_def)
  from install_streams_ok [OF app this, of ?s2] obtain s3 where s3: "install_streams um (SnStreams sn) ?s2 = (None, s3)"
    "SvCommitGroups s3 = SvCommitGroups ?s2" "SvState s3 = db1" "SvClosed s3 = SvClosed s0"
    "gm_get (SvStreams s3) = map_of (map (\<lambda>rec. (WsName (SrStream rec), restored (gm_get um) rec)) (SnStreams sn))"
    by (auto simp: s0)
  have streams: "gm_get (SvStreams s3) n = S' n" for n
  proof -
    have "gm_get (SvStreams s3) n = map_option (restored m) (LvStreams (view db1) n)"
      using map_of_sorted_rows [where key = "\<lambda>r. WsName (SrStream r)" and f = "restored m", OF gk(1) sname] s3(5) by (simp add: sn_def umm)
    moreover have "LvStreams (view ?db) n = map_option (writeStreamValues \<circ> streamRecord) (?S n)"
      using ledger_invD(1,2) [OF led, of n] by (cases "?S n") (auto simp: stream_ledger_def)
    ultimately show ?thesis by (simp add: v1(1) S'_def option.map_comp comp_def)
  qed
  have "ReconcilePersistedState env s0 = (None, s3\<lparr>SvStateReconciled := True\<rparr>)"
    using s0 rec um(1) s3(1) R by (simp add: ReconcilePersistedState_def WriteStateRepository_def)
  moreover have "service_inv db_keys view s3"
  proof -
    have "gm_get (SvStreams s3) = S'" by (rule ext) (rule streams)
    then show ?thesis using led1 v1(2) s3(2,3) groups by (simp add: service_inv_def)
  qed
  moreover have "rel_option survives (?S n) (gm_get (SvStreams s3) n)" for n
    using survives_restored [OF ledger_invD(1) [OF led] m] by (cases "?S n") (simp_all add: streams S'_def)
  ultimately show ?thesis using s3(4) s0(4) by (intro exI [of _ "s3\<lparr>SvStateReconciled := True\<rparr>"]) simp
qed

end
