(* ===== verification/Write_Service_Runs.thy ===== *)
theory Write_Service_Runs
  imports Write_Restart
begin

text \<open>
  Runs of the Storage Write service on its SQLite ledger: every request with every answer of the ports, and
  restarts of the process in between. The ledger invariant of all reachable states, and recovery.
\<close>

section \<open>Requests and restarts\<close>

text \<open>
  The requests of the service, each with what the ports and the clock answer it (\<open>Env\<close>): the gRPC
  handlers, the cleanup loop, and the end of the process.
\<close>

datatype Request =
    CreateStreamReq CreateStreamRequest
  | GetStreamReq string
  | AppendReq AppendRequest
  | FinalizeReq string
  | BatchCommitReq TableReference "string list"
  | SweepReq "nat \<Rightarrow> go_error option"
  | CloseReq "nat \<Rightarrow> go_error option"

fun serve :: "('c, 'r) Env \<Rightarrow> Request \<Rightarrow> ('c, 'r) Service \<Rightarrow> ('c, 'r) Service" where
  "serve env (CreateStreamReq request) s = snd (Service_CreateStream env request s)"
| "serve env (GetStreamReq name) s = snd (Service_GetStream env name s)"
| "serve env (AppendReq request) s = snd (Service_Append env request s)"
| "serve env (FinalizeReq name) s = snd (Service_Finalize env name s)"
| "serve env (BatchCommitReq parent names) s = snd (Service_BatchCommit env parent names s)"
| "serve env (SweepReq ctx) s = snd (SweepOrphans env ctx s)"
| "serve env (CloseReq ctx) s = snd (Service_Close env ctx s)"

text \<open>A Go slice has fewer than \<open>2^63\<close> elements.\<close>

fun request_ok :: "Request \<Rightarrow> bool" where
  "request_ok (AppendReq request) \<longleftrightarrow> in_i64 (int (length (ArRows request)))"
| "request_ok _ \<longleftrightarrow> True"

text \<open>
  The states of services on one database file: a first start on empty tables, any request with any
  answers of the ports, and a restart of the process with the tables of its predecessor.
\<close>

inductive reachable :: "('c, WriteDB) Service \<Rightarrow> bool" where
  first: "reachable s" if "Service_New config c (empty_db\<lparr>DbFaults := fs\<rparr>) True = Inr s"
| request: "reachable (serve env req s)"
    if "reachable s" "EnRepository env = WriteStateRepository" "request_ok req"
| restart: "reachable (snd (ReconcilePersistedState env s0))"
    if "reachable s" "EnRepository env = WriteStateRepository" "Service_New config c (SvState s) True = Inr s0"
      "fst (ReconcilePersistedState env s0) = None"

lemma service_inv_serve:
  assumes "service_inv db_keys view s" "EnRepository env = WriteStateRepository" "request_ok req"
  shows "service_inv db_keys view (serve env req s)"
  using assms
  by (cases req) (simp_all add: sqlite.consistent_create sqlite.consistent_get sqlite.consistent_append
      sqlite.consistent_finalize sqlite.consistent_commit sqlite.consistent_sweep sqlite.consistent_close)

lemma service_inv_empty:
  "Service_New config c (empty_db\<lparr>DbFaults := fs\<rparr>) True = Inr s \<Longrightarrow> service_inv db_keys view s"
  by (auto simp: Service_New_def service_inv_def empty_db_def db_keys_def view_def ledger_inv_def stream_rows_def
      split: option.splits)

lemma reconcile_succeeded:
  assumes "ReconcilePersistedState env s0 = (None, s1)" "EnRepository env = WriteStateRepository"
    "Service_New config c db True = Inr s0"
  shows "\<not> engine_fault db" "\<exists>db1. classify_prepared (EnClock env 0) (db\<lparr>DbFaults := tl (DbFaults db)\<rparr>) = Inr db1"
  using assms
  by (auto simp: ReconcilePersistedState_def Service_New_def WriteStateRepository_def repo_ReconcileStartup_def
      engine_fault_def Let_def split: option.splits if_splits list.splits sum.splits)

lemma service_inv_reachable:
  assumes "reachable s"
  shows "service_inv db_keys view s"
  using assms
proof induction
  case (first config c fs s)
  then show ?case by (rule service_inv_empty)
next
  case (request s env req)
  then show ?case by (simp add: service_inv_serve)
next
  case (restart s env config c s0)
  obtain s1 where s1: "ReconcilePersistedState env s0 = (None, s1)" using restart.hyps(4) by (metis prod.collapse)
  note ok = reconcile_succeeded [OF s1 restart.hyps(2,3)]
  show ?case using reconcile_consistent [OF restart.IH restart.hyps(3,2)] ok s1 by fastforce
qed

text \<open>
  C1. In every state a service can reach on its SQLite ledger, whatever requests it serves, whatever
  errors the coordinator, the engine and the contexts return, and however often the process is
  restarted, memory and tables agree: each stream is recorded as it is, its applied receipts cover
  its rows without gap or overlap, at most one append is open and starts at the end, and each
  commit group agrees with its members.
\<close>

theorem service_ledger_invariant:
  assumes "reachable s"
  shows "service_inv db_keys view s"
  by (rule service_inv_reachable [OF assms])

text \<open>A configuration and ports to run the service with.\<close>

definition sample_config :: Config where
  "sample_config =
     \<lparr>CfLocation = ''US'', CfProtocolModelVersion = ''v1'', CfMaxStreams = 8, CfMaxAppendBytes = 1000,
      CfMaxAppendEnvelopeBytes = 100, CfMaxConcurrentAppendRequests = 4, CfOrphanTTL = 1000, CfCleanupInterval = 1000\<rparr>"

definition sample_start :: "(unit, WriteDB) Service" where
  "sample_start = projr (Service_New sample_config () (empty_db\<lparr>DbFaults := []\<rparr>) True)"

definition sample_env :: "(unit, WriteDB) Env" where
  "sample_env =
     \<lparr>EnCoordinator =
        \<lparr>DescribeTable = \<lambda>_ c. (Inr [], c), AppendDefault = \<lambda>_ c. (None, c), StagePending = \<lambda>_ c. (None, c),
         CommitPending = \<lambda>_ c. (Some [ErrOperationTimeout], c), DiscardPending = \<lambda>_ c. (None, c)\<rparr>,
      EnRepository = WriteStateRepository, EnClock = (\<lambda>_. unix_epoch + 7), EnIDs = (\<lambda>_. ''s1'')\<rparr>"

definition sample_stream :: string where
  "sample_stream = ''projects/proj/datasets/ds/tables/t/streams/s1''"

text \<open>A first start, then a stream that is created.\<close>

definition sample_created :: "(unit, WriteDB) Service" where
  "sample_created = serve sample_env (CreateStreamReq \<lparr>CsParent = sample_table, CsType = StreamTypePending\<rparr>)
     (snd (ReconcilePersistedState sample_env sample_start))"

lemma sample_config_ok: "validateConfig sample_config = None"
  by code_simp

lemma sample_Service_New: "Service_New sample_config c db True = Inr (projr (Service_New sample_config c db True))"
  by (simp add: Service_New_def sample_config_ok)

lemma sample_new: "Service_New sample_config () (empty_db\<lparr>DbFaults := []\<rparr>) True = Inr sample_start"
  unfolding sample_start_def by (rule sample_Service_New)

lemma sample_reconcile: "fst (ReconcilePersistedState sample_env sample_start) = None"
  by code_simp

lemma sample_repository [simp]: "EnRepository sample_env = WriteStateRepository"
  by (simp add: sample_env_def)

lemma sample_renew: "Service_New sample_config () (SvState sample_start) True = Inr sample_start"
proof -
  have "SvState sample_start = empty_db\<lparr>DbFaults := []\<rparr>" by (simp add: sample_start_def Service_New_def sample_config_ok)
  then show ?thesis using sample_new by (simp only:)
qed

lemma sample_reachable: "reachable sample_created"
proof -
  have "reachable (snd (ReconcilePersistedState sample_env sample_start))"
    by (rule reachable.restart [OF reachable.first [OF sample_new] sample_repository sample_renew sample_reconcile])
  then show ?thesis unfolding sample_created_def by (rule reachable.request) simp_all
qed

definition sample_row :: StreamRecord where
  "sample_row = writeStreamValues (streamRecord (pending_candidate sample_config sample_table [] (unix_epoch + 7) sample_stream))"

lemma sample_names:
  "ParseStreamName sample_stream = Inr (sample_table, sample_stream, False)"
  "ParseTableName (TableReference_Name sample_table) = Inr sample_table"
  "TableReference_Name sample_table @ ''/streams/s1'' = sample_stream"
  by code_simp+

lemma sample_row_ok:
  "validateWriteStreamRecord (streamRecord (pending_candidate sample_config sample_table [] (unix_epoch + 7) sample_stream)) = None"
  "write_streams_CHECK sample_row"
  by (simp_all add: validateWriteStreamRecord_def sample_names streamRecord_def pending_candidate_def new_streamState_def
      sample_config_def unix_epoch_def sample_row_def write_streams_CHECK_def writeStreamValues_def sqlite_length_def
      sample_stream_def [symmetric])
     (simp_all add: sample_stream_def sample_table_def)

lemma sample_insert:
  "repo_CreateStream (streamRecord (pending_candidate sample_config sample_table [] (unix_epoch + 7) sample_stream))
     (empty_db\<lparr>DbFaults := []\<rparr>) = (None, empty_db\<lparr>DbFaults := [], DbStreams := [(sample_stream, sample_row)]\<rparr>)"
  using sample_row_ok
  by (simp add: repo_CreateStream_def with_tx_def empty_db_def Let_def bind_error_def sample_row_def [symmetric])
     (simp add: streamRecord_def pending_candidate_def new_streamState_def)

lemma sample_reconciled: "ReconcilePersistedState sample_env sample_start = (None, sample_start\<lparr>SvStateReconciled := True\<rparr>)"
  by code_simp

abbreviation sample_candidate :: streamState where
  "sample_candidate \<equiv> pending_candidate sample_config sample_table [] (unix_epoch + 7) sample_stream"

lemma sample_created_eq:
  "sample_created =
     \<lparr>SvConfig = sample_config, SvCoordinator = (),
      SvState = empty_db\<lparr>DbFaults := [], DbStreams := [(sample_stream, sample_row)]\<rparr>,
      SvStreams = [(sample_stream, sample_candidate)], SvCommitGroups = [], SvClosed = False, SvStateReconciled = True,
      SvPending = 1\<rparr>"
proof -
  have start: "sample_start = \<lparr>SvConfig = sample_config, SvCoordinator = (), SvState = empty_db\<lparr>DbFaults := []\<rparr>,
      SvStreams = [], SvCommitGroups = [], SvClosed = False, SvStateReconciled = False, SvPending = 0\<rparr>"
    by (simp add: sample_start_def Service_New_def sample_config_ok)
  have n: "(4::nat) = Suc 3" by simp
  have "sample_created = serve sample_env (CreateStreamReq \<lparr>CsParent = sample_table, CsType = StreamTypePending\<rparr>) (sample_start\<lparr>SvStateReconciled := True\<rparr>)"
    by (simp add: sample_created_def sample_reconciled)
  then show ?thesis unfolding serve.simps Service_CreateStream_def n create_attempts.simps start using sample_insert
    by (simp add: Let_def ensureStateReconciled_def admissionError_def describeTable_def sample_names sample_env_def
        sample_config_def [THEN arg_cong, of CfMaxStreams] WriteStateRepository_def)
qed

lemma sample_created_state:
  "SvState sample_created = empty_db\<lparr>DbFaults := [], DbStreams := [(sample_stream, sample_row)]\<rparr>"
  "gm_get (SvStreams sample_created) sample_stream = Some sample_candidate"
  by (simp_all add: sample_created_eq)

text \<open>The ledger of the created stream, which holds it with no receipt.\<close>

theorem service_ledger_invariant_witness:
  "reachable sample_created \<and> service_inv db_keys view sample_created
     \<and> gm_get (SvStreams sample_created) sample_stream \<noteq> None"
  using sample_reachable service_ledger_invariant [OF sample_reachable] sample_created_state(2) by simp

section \<open>Recovery\<close>

text \<open>The clock at startup is not behind the creation of an open append or commit.\<close>

definition clock_after_open :: "time \<Rightarrow> WriteDB \<Rightarrow> bool" where
  "clock_after_open now db \<longleftrightarrow>
     list_all (\<lambda>(_, r). RcPhase r = ReceiptPrepared \<longrightarrow> RcCreatedAt r \<le> db_time now) (DbReceipts db)
     \<and> list_all (\<lambda>(_, g). CgPhase g = CommitPrepared \<longrightarrow> CgCreatedAt g \<le> db_time now) (DbGroups db)"

lemma classify_succeeds:
  assumes inv: "ledger_inv S G (view db)" and keys: "db_keys db" and clock: "clock_after_open now db"
  shows "\<exists>db1. classify_prepared now (db\<lparr>DbFaults := fs\<rparr>) = Inr db1"
proof -
  have "append_receipts_CHECK (restart_receipt now r)" if r: "(k, r) \<in> set (DbReceipts db)" for k r
  proof -
    have "LvReceipts (view db) k = Some r" using r keys by (simp add: db_keys_def)
    then have "append_receipts_CHECK r" using ledger_invD(5) [OF inv] by blast
    then show ?thesis using clock r by (auto simp: append_receipts_CHECK_def restart_receipt_def clock_after_open_def list_all_iff)
  qed
  moreover have "commit_groups_CHECK (restart_group now g)" if g: "(k, g) \<in> set (DbGroups db)" for k g
  proof -
    have "LvGroups (view db) k = Some g" using g keys by (simp add: db_keys_def)
    then obtain g0 where "G k = Some g0" "g = group_values g0" using ledger_inv_group_row [OF inv, of k] by (cases "G k") auto
    then have "commit_groups_CHECK g" using ledger_invD(3) [OF inv] by (auto simp: group_ledger_def)
    then show ?thesis using clock g by (auto simp: commit_groups_CHECK_def restart_group_def clock_after_open_def list_all_iff)
  qed
  ultimately show ?thesis by (auto simp: classify_prepared_eq)
qed

text \<open>
  C2. A restart always recovers. When the database answers and the clock is not behind the open
  operations, \<open>ReconcilePersistedState\<close> succeeds on the tables of any reachable service: no snapshot
  check fails, every stream comes back with its counters, state, schema and cleanup state, no other stream appears, and an
  append or commit in flight comes back as UNRESOLVED with the receipt a retry must match.
\<close>

theorem restart_recovers:
  fixes s s0 :: "('c, WriteDB) Service"
  assumes "reachable s" "EnRepository env = WriteStateRepository" "Service_New config c (SvState s) True = Inr s0"
    "\<not> engine_fault (SvState s)" "clock_after_open (EnClock env 0) (SvState s)"
  shows "\<exists>s1. ReconcilePersistedState env s0 = (None, s1) \<and> reachable s1 \<and> SvStateReconciled s1 \<and> \<not> SvClosed s1
    \<and> (\<forall>n. rel_option survives (gm_get (SvStreams s) n) (gm_get (SvStreams s1) n))"
proof -
  have i: "service_inv db_keys view s" by (rule service_inv_reachable [OF assms(1)])
  obtain db1 where "classify_prepared (EnClock env 0) ((SvState s)\<lparr>DbFaults := tl (DbFaults (SvState s))\<rparr>) = Inr db1"
    using classify_succeeds [OF _ _ assms(5)] i unfolding service_inv_def by blast
  from reconcile_consistent [OF i assms(3,2) this assms(4)] obtain s1 where
    "ReconcilePersistedState env s0 = (None, s1)" "SvStateReconciled s1" "\<not> SvClosed s1"
    "\<forall>n. rel_option survives (gm_get (SvStreams s) n) (gm_get (SvStreams s1) n)" by blast
  then show ?thesis using reachable.restart [OF assms(1-3)] by (metis fst_conv snd_conv)
qed

definition sample_restarted :: "(unit, WriteDB) Service" where
  "sample_restarted = projr (Service_New sample_config () (SvState sample_created) True)"

theorem restart_recovers_witness:
  "\<exists>s1. ReconcilePersistedState sample_env sample_restarted = (None, s1) \<and> reachable s1 \<and> SvStateReconciled s1 \<and> \<not> SvClosed s1
    \<and> (\<forall>n. rel_option survives (gm_get (SvStreams sample_created) n) (gm_get (SvStreams s1) n))"
proof (rule restart_recovers [OF sample_reachable sample_repository])
  show "Service_New sample_config () (SvState sample_created) True = Inr sample_restarted"
    unfolding sample_restarted_def by (rule sample_Service_New)
  show "\<not> engine_fault (SvState sample_created)" "clock_after_open (EnClock sample_env 0) (SvState sample_created)"
    by (simp_all add: sample_created_state engine_fault_def clock_after_open_def empty_db_def)
qed


end
