(* ===== verification/Write_Service_Behaviour.thy ===== *)
theory Write_Service_Behaviour
  imports Write_Service_Runs
begin

text \<open>
  What the requests of the Storage Write service do: the effect of an acknowledged append, the exact
  retry of an append whose outcome is unknown, commits that are all or nothing, and a cleanup that
  only ever touches abandoned streams.
\<close>

section \<open>Append\<close>

text \<open>An acknowledged append passed every stage.\<close>

lemma append_ackE:
  assumes "Service_Append env request s = (Inr res, s')" "append_request (SvConfig s) request = Inr (table, name, isDefault)"
  obtains st s1 plan st1 s2 c where
    "lookupOrCreateDefault env append_op table name isDefault s = (Inr st, s1)"
    "append_validate request st (EnClock env 1) = Inr plan"
    "append_prepare env name plan st s1 = (Inr st1, s2)"
    "append_complete env request name isDefault plan st1 (s2\<lparr>SvCoordinator := c\<rparr>) = (Inr res, s')"
proof -
  have n: "ensureStateReconciled append_op s = None"
    using assms by (auto simp: Service_Append_def split: option.splits)
  with assms obtain st s1 where b: "lookupOrCreateDefault env append_op table name isDefault s = (Inr st, s1)"
    by (auto simp: Service_Append_def split: prod.splits sum.splits)
  with assms n obtain plan where c: "append_validate request st (EnClock env 1) = Inr plan"
    by (auto simp: Service_Append_def split: sum.splits)
  with assms b n obtain st1 s2 where d: "append_prepare env name plan st s1 = (Inr st1, s2)"
    by (auto simp: Service_Append_def split: prod.splits sum.splits)
  with assms b c n have e: "append_call env request table name isDefault plan st1 s2 = (Inr res, s')"
    by (simp add: Service_Append_def)
  then obtain x where "append_complete env request name isDefault plan st1 (s2\<lparr>SvCoordinator := x\<rparr>) = (Inr res, s')"
    by (auto simp: append_call_def Let_def split: prod.splits option.splits)
  with b c d show ?thesis using that by blast
qed

lemma append_validate_offset:
  assumes "append_validate request st now = Inr plan" "ArOffset request = Some off"
  shows "off = WsNextOffset (StStream st)" "WsType (StStream st) \<noteq> StreamTypeDefault"
  using assms by (auto simp: append_validate_def Let_def split: if_splits sum.splits option.splits)

lemma append_prepare_ok:
  assumes "append_prepare env name plan st s = (Inr st1, s2)"
  shows "StStream st1 = StStream st" "SvStreams s2 = SvStreams s \<or> SvStreams s2 = gm_put name st1 (SvStreams s)"
    "StDescriptor st1 = StDescriptor st" "StCleanupPhase st1 = StCleanupPhase st"
  using assms by (auto simp: append_prepare_def Let_def split: if_splits prod.splits option.splits)

lemma append_complete_ok:
  assumes "append_complete env request name isDefault plan st s = (Inr res, s')"
  shows "ReStreamName res = name" "ReStartOffset res = WsNextOffset (StStream st)" "ReRowCount res = int (length (ArRows request))"
    "\<exists>st'. SvStreams s' = gm_put name st' (SvStreams s) \<and> StUnacknowledged st' = None \<and> StOperation st' = OperationNone
       \<and> StCleanupPhase st' = StCleanupPhase st
       \<and> StStream st' = (StStream st)\<lparr>WsRowCount := i64_add (WsRowCount (StStream st)) (int (length (ArRows request))),
            WsNextOffset := i64_add (WsNextOffset (StStream st)) (int (length (ArRows request))),
            WsLastActivity := EnClock env 3,
            WsSchemaFingerprint := (if WsSchemaFingerprint (StStream st) = [] then PlFingerprint plan else WsSchemaFingerprint (StStream st))\<rparr>"
  using assms by (auto simp: append_complete_def Let_def split: prod.splits option.splits)

lemma lookup_existing:
  assumes "lookupOrCreateDefault env op table name isDefault s = (Inr st, s1)" "gm_get (SvStreams s) name = Some st0"
  shows "st = st0" "s1 = s"
  using assms by (auto simp: lookupOrCreateDefault_def lookup_def split: if_splits)



section \<open>BatchCommit\<close>

definition items_of :: "('c, 'r) Service \<Rightarrow> (string \<times> streamState) list \<Rightarrow> bool" where
  "items_of s items \<longleftrightarrow> distinct (map fst items) \<and> (\<forall>(n, st) \<in> set items. gm_get (SvStreams s) n = Some st)"

definition same_streams :: "('c, 'r) Service \<Rightarrow> ('c, 'r) Service \<Rightarrow> bool" where
  "same_streams s s' \<longleftrightarrow> (\<forall>n. map_option StStream (gm_get (SvStreams s') n) = map_option StStream (gm_get (SvStreams s) n))"

lemma same_streams_simps [simp]:
  "same_streams s s" "same_streams s (s'\<lparr>SvState := r\<rparr>) = same_streams s s'" "same_streams s (s'\<lparr>SvCoordinator := c\<rparr>) = same_streams s s'"
  "same_streams s (s'\<lparr>SvPending := k\<rparr>) = same_streams s s'" "same_streams s (s'\<lparr>SvCommitGroups := g\<rparr>) = same_streams s s'"
  by (simp_all add: same_streams_def)

lemma put_items_get:
  assumes "items_of s items"
  shows "gm_get (SvStreams (put_streams (map (\<lambda>(n, st). (n, f st)) items) s)) n
    = (if n \<in> fst ` set items then map_option f (gm_get (SvStreams s) n) else gm_get (SvStreams s) n)"
proof -
  let ?items = "map (\<lambda>(n, st). (n, f st)) items"
  have d: "distinct (map fst items)" using assms by (simp add: items_of_def)
  have "map fst ?items = map fst items" by (induction items) auto
  then have "distinct (map fst ?items)" using d by (rule ssubst)
  then have g: "gm_get (SvStreams (put_streams ?items s)) n = with_items (gm_get (SvStreams s)) f items n"
    using put_streams_get by metis
  show ?thesis
  proof (cases "n \<in> fst ` set items")
    case True
    then obtain st where st: "(n, st) \<in> set items" by force
    then have "gm_get (SvStreams s) n = Some st" using assms by (auto simp: items_of_def)
    then show ?thesis using g with_items_in [OF d st, of "gm_get (SvStreams s)" f] True by simp
  next
    case False
    then show ?thesis using g with_items_out by metis
  qed
qed

lemma same_streams_put:
  assumes "items_of s items" "\<And>st. StStream (f st) = StStream st"
  shows "same_streams s (put_streams (map (\<lambda>(n, st). (n, f st)) items) s)"
  using put_items_get [OF assms(1), of f] assms(2) by (simp add: same_streams_def option.map_comp comp_def)

lemma items_of_put:
  assumes "items_of s items"
  shows "items_of (put_streams (map (\<lambda>(n, st). (n, f st)) items) s) (map (\<lambda>(n, st). (n, f st)) items)"
proof -
  let ?items = "map (\<lambda>(n, st). (n, f st)) items"
  have "map fst ?items = map fst items" by (induction items) auto
  then have "distinct (map fst ?items)" using assms by (simp only: items_of_def)
  moreover have "gm_get (SvStreams (put_streams ?items s)) n = Some x" if x: "(n, x) \<in> set ?items" for n x
  proof -
    obtain st where st: "(n, st) \<in> set items" "x = f st" using x by auto
    then have "gm_get (SvStreams s) n = Some st" "n \<in> fst ` set items" using assms by (force simp: items_of_def)+
    then show ?thesis using put_items_get [OF assms, of f n] st(2) by simp
  qed
  ultimately show ?thesis unfolding items_of_def by blast
qed

lemma items_of_cong [simp]:
  "items_of (s\<lparr>SvState := r\<rparr>) items = items_of s items" "items_of (s\<lparr>SvCoordinator := c\<rparr>) items = items_of s items"
  "items_of (s\<lparr>SvCommitGroups := g\<rparr>) items = items_of s items"
  by (simp_all add: items_of_def)

lemma commit_prepare_streams:
  assumes i: "items_of s items" and p: "commit_prepare env parent existing items s = (res, s1)"
  shows "same_streams s s1 \<and> (case res of Inr (Inl _) \<Rightarrow> s1 = s
    | Inr (Inr (g, items1)) \<Rightarrow> items_of s1 items1 \<and> map fst items1 = map fst items
        \<and> (\<forall>n. n \<notin> fst ` set items \<longrightarrow> gm_get (SvStreams s1) n = gm_get (SvStreams s) n) | _ \<Rightarrow> True)"
proof (cases "existing = []")
  case True
  define g where "g = new_commit_group env parent items"
  define f where "f = set_operation OperationCommit OperationPhasePrepared (CgID g)"
  let ?items = "map (\<lambda>(n, st). (n, f st)) items"
  have names: "map fst ?items = map fst items" by (induction items) auto
  have st: "same_streams s (put_streams ?items (s\<lparr>SvState := r\<rparr>))" for r
    using same_streams_put [of "s\<lparr>SvState := r\<rparr>" items f] i by (simp add: f_def same_streams_def)
  have "items_of (put_streams ?items (s\<lparr>SvState := r\<rparr>)) ?items" for r
    using items_of_put [of "s\<lparr>SvState := r\<rparr>" items f] i by simp
  moreover have "gm_get (SvStreams (put_streams ?items (s\<lparr>SvState := r\<rparr>))) n = gm_get (SvStreams s) n" if "n \<notin> fst ` set items" for n r
    using put_items_get [of "s\<lparr>SvState := r\<rparr>" items f n] i that by simp
  ultimately show ?thesis using p st names unfolding True commit_prepare_new [OF g_def f_def]
    by (auto split: prod.splits option.splits)
next
  case False
  then show ?thesis using p i
    by (auto simp: commit_prepare_def split: option.splits prod.splits if_splits)
qed

lemma commit_failed_streams:
  assumes i: "items_of s items" and c: "commit_failed env g items err s = (e, s')"
  shows "same_streams s s'"
proof -
  have "same_streams s (put_streams (map (\<lambda>(n, st). (n, set_operation (h st) p (k st) st)) items) (s\<lparr>SvState := r\<rparr>))" for h p k r
    using same_streams_put [of "s\<lparr>SvState := r\<rparr>" items "\<lambda>st. set_operation (h st) p (k st) st"] i by (simp add: same_streams_def)
  then show ?thesis using c by (auto simp: commit_failed_def Let_def split: if_splits prod.splits option.splits)
qed

lemma commit_complete_streams:
  assumes i: "items_of s items" and c: "commit_complete env g items s = (res, s')"
  shows "case res of Inl _ \<Rightarrow> same_streams s s'
    | Inr r \<Rightarrow> BcStreamErrors r = [] \<and> BcCommitTime r = Some (EnClock env 2)
        \<and> (\<forall>n. gm_get (SvStreams s') n = (if n \<in> fst ` set items
              then map_option (committed_state (EnClock env 2)) (gm_get (SvStreams s) n) else gm_get (SvStreams s) n))"
  using c put_items_get [of "s\<lparr>SvState := r\<rparr>" items "committed_state (EnClock env 2)" for r] i
  by (auto simp: commit_complete_def Let_def split: prod.splits option.splits)

lemma ParseStreamName_named: "ParseStreamName name = Inr (r, c, False) \<Longrightarrow> c = name"
  by (auto simp: ParseStreamName_def Let_def split: if_splits sum.splits)

lemma commit_resolve_names:
  "commit_resolve parent s unique names = (sts, []) \<Longrightarrow> fst ` set sts = set names"
proof (induction names arbitrary: unique sts)
  case (Cons name names unique sts)
  from Cons.prems obtain c st sts1 where p: "ParseStreamName name = Inr (parent, c, False)"
    and r: "commit_resolve parent s (c # unique) names = (sts1, [])" "sts = (c, st) # sts1"
    by (auto simp: Let_def split: sum.splits prod.splits if_splits)
  have "c = name" using ParseStreamName_named [OF p] .
  then show ?case using Cons.IH [OF r(1)] r(2) by simp
qed simp

lemma batch_commit_effect:
  assumes "Service_BatchCommit env parent names s = (res, s')"
  shows "case res of
      Inl _ \<Rightarrow> (\<forall>n. map_option StStream (gm_get (SvStreams s') n) = map_option StStream (gm_get (SvStreams s) n))
    | Inr r \<Rightarrow> if BcStreamErrors r \<noteq> [] then s' = s
        else \<exists>t. BcCommitTime r = Some t
          \<and> (\<forall>n. if n \<in> set names
               then \<exists>st st'. gm_get (SvStreams s) n = Some st \<and> gm_get (SvStreams s') n = Some st'
                  \<and> StStream st' = (StStream st)\<lparr>WsState := StreamStateCommitted, WsCommitTime := Some t, WsLastActivity := t\<rparr>
               else gm_get (SvStreams s') n = gm_get (SvStreams s) n)"
proof -
  let ?op = "commit_op"
  obtain states e1 where r: "commit_resolve parent s [] names = (states, e1)" by fastforce
  let ?items = "sort_key fst states"
  obtain existing e2 where c: "commit_check [] ?items = (existing, e2)" by fastforce
  obtain pres s1 where p: "commit_prepare env parent existing ?items s = (pres, s1)" by fastforce
  show ?thesis
  proof (cases "ensureStateReconciled ?op s = None \<and> (\<exists>x. ParseTableName (TableReference_Name parent) = Inr x) \<and> names \<noteq> []
      \<and> e1 = [] \<and> e2 = []")
    case False
    then show ?thesis using assms r c
      by (auto simp: Service_BatchCommit_def Let_def split: option.splits sum.splits if_splits)
  next
    case ok: True
    then obtain tab where tab: "ParseTableName (TableReference_Name parent) = Inr tab" by blast
    have i: "items_of s ?items"
      using commit_resolveD [of parent s "[]" names states] r ok by (auto simp: items_of_def distinct_map)
    have names: "fst ` set ?items = set names" using commit_resolve_names r ok by fastforce
    note P = commit_prepare_streams [OF i p]
    show ?thesis
    proof (cases "\<exists>g items. pres = Inr (Inr (g, items))")
      case False
      then show ?thesis using assms r c p ok P
        by (auto simp: Service_BatchCommit_def Let_def same_streams_def split: sum.splits)
    next
      case True
      then obtain g items where pres: "pres = Inr (Inr (g, items))" by blast
      have it: "items_of s1 items" "same_streams s s1" "map fst items = map fst ?items" using P pres by auto
      then have set: "fst ` set items = set names" using names by (metis list.set_map)
      let ?req = "\<lparr>CrParent = parent, CrStreamNames = map fst items, CrGroupID = CgID g, CrExpectedRowCounts = expected_rows items\<rparr>"
      obtain err x where call: "CommitPending (EnCoordinator env) ?req (SvCoordinator s1) = (err, x)" by fastforce
      have i1: "items_of (s1\<lparr>SvCoordinator := x\<rparr>) items" using it(1) by simp
      show ?thesis
      proof (cases err)
        case (Some e)
        obtain e' s2 where f: "commit_failed env g items e (s1\<lparr>SvCoordinator := x\<rparr>) = (e', s2)" by fastforce
        have "res = Inl e'" "s' = s2" using assms ok tab r c p pres call Some f by (simp_all add: Service_BatchCommit_def Let_def)
        then show ?thesis using commit_failed_streams [OF i1 f] it(2) by (simp add: same_streams_def)
      next
        case None
        have f: "commit_complete env g items (s1\<lparr>SvCoordinator := x\<rparr>) = (res, s')"
          using assms ok tab r c p pres call None by (simp add: Service_BatchCommit_def Let_def)
        note C = commit_complete_streams [OF i1 f]
        show ?thesis
        proof (cases res)
          case (Inl e)
          then show ?thesis using C it(2) by (simp add: same_streams_def)
        next
          case (Inr b)
          let ?t = "EnClock env 2"
          have get: "gm_get (SvStreams s') n = (if n \<in> set names then map_option (committed_state ?t) (gm_get (SvStreams s1) n)
              else gm_get (SvStreams s1) n)" for n
            using C Inr set by simp
          have "\<exists>st st'. gm_get (SvStreams s) n = Some st \<and> gm_get (SvStreams s') n = Some st'
              \<and> StStream st' = (StStream st)\<lparr>WsState := StreamStateCommitted, WsCommitTime := Some ?t, WsLastActivity := ?t\<rparr>"
            if n: "n \<in> set names" for n
          proof -
            obtain st where st: "gm_get (SvStreams s) n = Some st" using i n names by (force simp: items_of_def)
            then have "map_option StStream (gm_get (SvStreams s1) n) = Some (StStream st)"
              using it(2) by (simp add: same_streams_def)
            then obtain st1 where "gm_get (SvStreams s1) n = Some st1" "StStream st1 = StStream st" by auto
            then show ?thesis using get [of n] n st by simp
          qed
          moreover have "gm_get (SvStreams s') n = gm_get (SvStreams s) n" if "n \<notin> set names" for n
            using get [of n] that P pres names by simp
          ultimately show ?thesis using C Inr by (simp add: exI [of _ ?t])
        qed
      qed
    qed
  qed
qed

text \<open>
  C18. \<open>BatchCommit\<close> is all or nothing. When it reports stream errors nothing at all has changed; when it
  fails, every stream keeps its state, rows and times; when it succeeds, every named stream is
  COMMITTED at the one commit time it returns, with its rows as they were, and every other stream is
  as before.
\<close>

theorem batch_commit_atomic:
  "case Service_BatchCommit env parent names s of
      (Inl _, s') \<Rightarrow> (\<forall>n. map_option StStream (gm_get (SvStreams s') n) = map_option StStream (gm_get (SvStreams s) n))
    | (Inr r, s') \<Rightarrow> if BcStreamErrors r \<noteq> [] then s' = s
        else \<exists>t. BcCommitTime r = Some t
          \<and> (\<forall>n. if n \<in> set names
               then \<exists>st st'. gm_get (SvStreams s) n = Some st \<and> gm_get (SvStreams s') n = Some st'
                  \<and> StStream st' = (StStream st)\<lparr>WsState := StreamStateCommitted, WsCommitTime := Some t, WsLastActivity := t\<rparr>
               else gm_get (SvStreams s') n = gm_get (SvStreams s) n)"
proof (cases "Service_BatchCommit env parent names s")
  case (Pair res s')
  show ?thesis using batch_commit_effect [OF Pair] unfolding Pair by (cases res) simp_all
qed

section \<open>Cleanup\<close>

lemma sweep_stream_other:
  "n \<noteq> name \<Longrightarrow> gm_get (SvStreams (snd (sweep_stream env name s))) n = gm_get (SvStreams s) n"
  by (auto simp: sweep_stream_def discard_stream_def Let_def split: option.splits prod.splits)

lemma sweep_loop_other:
  "n \<notin> set names \<Longrightarrow> gm_get (SvStreams (snd (sweep_loop env ctx k names result s))) n = gm_get (SvStreams s) n"
proof (induction names arbitrary: k result s)
  case (Cons name names k result s)
  obtain e s1 where sw: "sweep_stream env name s = (e, s1)" by fastforce
  have "gm_get (SvStreams s1) n = gm_get (SvStreams s) n" using sweep_stream_other [of n name env s] sw Cons.prems by simp
  then show ?case using Cons sw by (auto split: option.splits)
qed simp

lemma sweep_groups:
  "SvCommitGroups (snd (sweep_loop env ctx k names result s)) = SvCommitGroups s"
proof (induction names arbitrary: k result s)
  case (Cons name names k result s)
  have "SvCommitGroups (snd (sweep_stream env name s)) = SvCommitGroups s"
    by (auto simp: sweep_stream_def discard_stream_def Let_def split: option.splits prod.splits)
  then show ?case using Cons by (auto split: option.splits prod.splits)
qed simp


text \<open>
  C20. A stream that took part in a commit is never swept: after any sweep it is still there with the rows
  the group recorded. The foreign key of the members table protects committed streams this way; it also keeps
  the streams of an ABORTED group, which stay in cleanup for ever.
\<close>

theorem sweep_keeps_commit_members:
  assumes "reachable s" "EnRepository env = WriteStateRepository"
    and "gm_get (SvCommitGroups s) gid = Some g" "m \<in> set (CgMembers g)"
  shows "\<exists>st. gm_get (SvStreams (snd (SweepOrphans env ctx s))) (CmStreamName m) = Some st
    \<and> WsRowCount (StStream st) = CmExpectedRowCount m"
proof -
  let ?s = "snd (SweepOrphans env ctx s)"
  have "reachable ?s" using reachable.request [OF assms(1,2), of "SweepReq ctx"] by simp
  then have inv: "ledger_inv (gm_get (SvStreams ?s)) (gm_get (SvCommitGroups ?s)) (view (SvState ?s))"
    using service_inv_reachable unfolding service_inv_def by blast
  have "SvCommitGroups ?s = SvCommitGroups s"
    using sweep_groups [of env ctx 3 "orphans (EnClock env 0 - CfOrphanTTL (SvConfig s)) s" None s]
    by (auto simp: SweepOrphans_def Let_def split: option.splits prod.splits)
  then have "group_ledger (gm_get (SvStreams ?s)) (view (SvState ?s)) gid g" using ledger_invD(3) [OF inv] assms(3) by simp
  then show ?thesis using assms(4) by (auto simp: group_ledger_def member_ledger_def)
qed

section \<open>Sample runs\<close>

text \<open>
  Concrete runs, evaluated with the digests left symbolic: an append that times out and is retried, and a
  commit that the coordinator refuses.
\<close>

lemma digest_text [simp]:
  "fingerprint_text (digest x)" "fingerprint_text (rowsDigest rows)" "digest x \<noteq> []" "rowsDigest rows \<noteq> []"
  by (simp_all add: fingerprint_text_def digest_def rowsDigest_def)

lemma sqlite_length_ascii: "list_all (\<lambda>c. 0 < (of_char c :: nat) \<and> (of_char c :: nat) < 128) s \<Longrightarrow> sqlite_length_from b s = length s"
  by (induction s arbitrary: b) auto

lemma sqlite_length_digest [simp]: "sqlite_length (digest x) = 71"
proof -
  have "list_all (\<lambda>c. 0 < (of_char c :: nat) \<and> (of_char c :: nat) < 128) (sha256_hex x)"
    using sha256_hex_hex [of x] by (auto simp: list_all_iff is_hex_def)
  then show ?thesis by (simp add: sqlite_length_def digest_def sqlite_length_ascii)
qed

definition sample_append :: AppendRequest where
  "sample_append = \<lparr>ArStreamName = sample_stream, ArOffset = Some 0, ArDescriptor = ''d'', ArRows = [''r1''],
     ArPayloadBytes = 2, ArWireBytes = 3, ArSchemaFingerprint = [], ArPayloadDigest = [], ArTraceID = []\<rparr>"

text \<open>A coordinator that answers with the errors given for staging and for commits.\<close>

definition failing_env :: "go_error \<Rightarrow> go_error \<Rightarrow> (unit, WriteDB) Env" where
  "failing_env stage commit =
     sample_env\<lparr>EnCoordinator := (EnCoordinator sample_env)\<lparr>StagePending := \<lambda>_ c. (Some stage, c), CommitPending := \<lambda>_ c. (Some commit, c)\<rparr>\<rparr>"

definition sample_unresolved :: "(unit, WriteDB) Service" where
  "sample_unresolved = serve (failing_env [ErrOperationTimeout] []) (AppendReq sample_append) sample_created"

definition sample_aborted :: "(unit, WriteDB) Service" where
  "sample_aborted = serve (failing_env [] [ErrInvalidRows]) (BatchCommitReq sample_table [sample_stream])
     (serve sample_env (FinalizeReq sample_stream) sample_created)"

lemma sample_runs_reachable: "reachable sample_unresolved" "reachable sample_aborted"
  unfolding sample_unresolved_def sample_aborted_def
  by (intro reachable.request sample_reachable; simp add: failing_env_def sample_append_def in_i64_def)+

lemma sample_lengths:
  "sqlite_length sample_stream = 45" "sqlite_length ''proj'' = 4" "sqlite_length ''ds'' = 2" "sqlite_length ''t'' = 1"
  "sqlite_length ''US'' = 2" "sqlite_length ''0'' = 1" "FormatInt 0 = ''0''"
  by (simp_all add: sqlite_length_def sample_stream_def) code_simp

lemmas sample_defs = sample_names(2) [unfolded sample_table_def] sample_env_def failing_env_def sample_append_def sample_config_def sample_table_def sample_row_def
  sample_created_eq sample_names sample_lengths unix_epoch_def empty_db_def WriteStateRepository_def
  pending_candidate_def new_streamState_def streamRecord_def cleanupPhaseRecordValue_def next_revision_def i64_add_def in_i64_def

lemmas sqlite_defs = with_tx_def validateWriteStreamRecord_def validateAppendChange_def appendReceiptRecord_def receipt_values_def
  receipt_key_def append_receipts_CHECK_def write_streams_CHECK_def updateWriteStream_def bind_error_def updated_row_def
  writeStreamValues_def stream_identity_trigger_def stream_transition_trigger_def repo_PrepareAppend_def
  repo_MarkAppendUnresolved_def repo_CompleteAppend_def changeAppend_def set_receipt_phase_def receipt_match_def repo_UpdateStream_def

lemmas append_defs = Service_Append_def Let_def ensureStateReconciled_def append_request_def lookupOrCreateDefault_def lookup_def
  append_validate_def append_schema_def append_prepare_def append_call_def append_failed_def append_complete_def appendReceiptsMatch_def
  appendOutcomeIsAmbiguous_def errors_Is_def

lemma sample_unresolved_state:
  "\<exists>st u. gm_get (SvStreams sample_unresolved) sample_stream = Some st \<and> StUnacknowledged st = Some u \<and> apPhase u = ReceiptUnresolved"
  "\<exists>res s'. Service_Append sample_env sample_append sample_unresolved = (Inr res, s')"
  "append_request (SvConfig sample_unresolved) sample_append = Inr (sample_table, sample_stream, False)"
  by (simp_all add: sample_unresolved_def sample_defs sqlite_defs append_defs)




lemmas commit_defs = Service_BatchCommit_def Service_Finalize_def finalize_op_def commit_op_def commit_prepare_def commit_failed_def
  new_commit_group_def set_operation_def expected_rows_def expected_revisions_def repo_PrepareCommit_def validateCommitChange_def
  commit_groups_CHECK_def commit_members_CHECK_def updateWriteStreams_def group_values_def repo_AbortCommit_def changeCommit_def
  commit_transition_trigger_def Let_def ensureStateReconciled_def lookup_def appendOutcomeIsAmbiguous_def errors_Is_def

lemma sample_aborted_group:
  "\<exists>gid g. gm_get (SvCommitGroups sample_aborted) gid = Some g \<and> CgPhase g = CommitAborted
    \<and> CgMembers g = [\<lparr>CmStreamName = sample_stream, CmExpectedRowCount = 0\<rparr>]"
  by (simp add: sample_aborted_def sample_defs sqlite_defs commit_defs) (simp add: sqlite_length_def TableReference_Name_def)

theorem sweep_keeps_commit_members_witness:
  "\<exists>st. gm_get (SvStreams (snd (SweepOrphans sample_env (\<lambda>_. None) sample_aborted))) sample_stream = Some st
    \<and> WsRowCount (StStream st) = 0"
proof -
  obtain gid g where g: "gm_get (SvCommitGroups sample_aborted) gid = Some g"
    "CgMembers g = [\<lparr>CmStreamName = sample_stream, CmExpectedRowCount = 0\<rparr>]" using sample_aborted_group by blast
  then show ?thesis
    using sweep_keeps_commit_members [OF sample_runs_reachable(2) sample_repository g(1), of "\<lparr>CmStreamName = sample_stream, CmExpectedRowCount = 0\<rparr>"]
    by simp
qed

end
