(* ===== verification/Read_Domain.thy ===== *)
theory Read_Domain
  imports Sha256
begin

text \<open>
  \<open>internal/storageread/domain\<close>, with the configuration and the contract helpers of
  \<open>internal/storageread/application\<close> (\<open>config.go\<close>, \<open>contracts.go\<close>): sessions and streams of the Storage
  Read API, the negotiation of the stream count, the partition of a snapshot into streams and the
  validation of requests and snapshot metadata.
\<close>

section \<open>Sessions and streams\<close>

datatype Format = FormatUnspecified | FormatArrow | FormatAvro

definition Format_String :: "Format \<Rightarrow> string" where
  "Format_String f = (case f of FormatArrow \<Rightarrow> ''ARROW'' | FormatAvro \<Rightarrow> ''AVRO'' | FormatUnspecified \<Rightarrow> ''UNSPECIFIED'')"

record ReferenceSchema =
  RsFormat :: Format
  RsSerialized :: string
  RsFingerprint :: string

record MaterializeRequest =
  MrTable :: string
  MrFormat :: Format
  MrSelectedFields :: "string list"
  MrRowRestriction :: string
  MrSnapshotTime :: "time option"

record SnapshotMetadata =
  SmSchema :: ReferenceSchema
  SmRowCount :: int
  SmEstimatedBytes :: int
  SmRetainedBytes :: int

record EncodedBatch =
  EbOffset :: int
  EbRowCount :: int
  EbSerializedRows :: string

record CreateSessionRequest =
  CqParent :: string
  CqTable :: string
  CqFormat :: Format
  CqSelectedFields :: "string list"
  CqRowRestriction :: string
  CqSnapshotTime :: "time option"
  CqMaxStreamCount :: int
  CqPreferredMinStreamCount :: int
  CqTraceID :: string

record ReadStream =
  SmName :: string
  SmStartOffset :: int
  SmEndOffset :: int

definition Stream_RowCount :: "ReadStream \<Rightarrow> int" where
  "Stream_RowCount s = wrap64 (SmEndOffset s - SmStartOffset s)"

record ReadSession =
  SsName :: string
  SsTable :: string
  SsFormat :: Format
  SsSchema :: ReferenceSchema
  SsStreams :: "ReadStream list"
  SsExpireTime :: time
  SsEstimatedRowCount :: int
  SsEstimatedBytesScanned :: int
  SsSelectedFields :: "string list"
  SsRowRestriction :: string
  SsSnapshotTime :: "time option"
  SsTraceID :: string

datatype SessionLifecycle = SessionActive | SessionExpired | SessionUnavailable | SessionLifecycleOther string

record SessionRecord =
  SdName :: string
  SdTable :: string
  SdFormat :: Format
  SdSelectedFields :: "string list"
  SdRowRestrictionDigest :: string
  SdRowRestrictionBytes :: int
  SdStreams :: "ReadStream list"
  SdCreatedAt :: time
  SdExpireTime :: time
  SdSnapshotTime :: "time option"
  SdRetainedRowCount :: int
  SdRetainedBytes :: int
  SdEstimatedBytesScanned :: int
  SdSchemaFingerprint :: string
  SdLifecycle :: SessionLifecycle
  SdLifecycleUpdatedAt :: time

record PersistedStream =
  PsName :: string
  PsSession :: string
  PsLifecycle :: SessionLifecycle
  PsExpiresAt :: time

record ReadRowsRequest =
  RqStreamName :: string
  RqOffset :: int

text \<open>
  A progress is a \<open>float64\<close>: 1, or the quotient of two integers, kept here as its operands.
\<close>

datatype Progress = ProgressDone | ProgressRatio int int

record ReadChunk =
  ChFormat :: Format
  ChSchema :: "ReferenceSchema option"
  ChBatch :: EncodedBatch
  ChProgressStart :: Progress
  ChProgressEnd :: Progress

section \<open>Errors\<close>

datatype ReadErrorCode =
    ReadCanceled | ReadDeadlineExceeded | ReadInvalidArgument | ReadNotFound | ReadFailedPrecondition
  | ReadResourceExhausted | ReadUnavailable | ReadUnimplemented | ReadInternal

text \<open>An \<open>error\<close> of the read service: a \<open>*domain.Error\<close> with its code, operation and cause, or another one.\<close>

datatype read_error = ReadError ReadErrorCode string go_error | ReadPlain go_error

definition ReadCodeOf :: "read_error \<Rightarrow> ReadErrorCode" where
  "ReadCodeOf e = (case e of ReadError code _ _ \<Rightarrow> code | ReadPlain _ \<Rightarrow> ReadInternal)"

definition read_cause :: "read_error \<Rightarrow> go_error" where
  "read_cause e = (case e of ReadError _ _ c \<Rightarrow> c | ReadPlain c \<Rightarrow> c)"

section \<open>Resource names\<close>

definition segment_char :: "char \<Rightarrow> bool" where
  "segment_char c \<longleftrightarrow> c \<noteq> CHR ''/'' \<and> c \<noteq> CHR 0x5C \<and> 0x20 < (of_char c :: nat) \<and> (of_char c :: nat) \<noteq> 0x7F"

definition validResourceSegment :: "string \<Rightarrow> bool" where
  "validResourceSegment v \<longleftrightarrow> v \<noteq> [] \<and> length v \<le> 256 \<and> list_all segment_char v"

definition validParent :: "string \<Rightarrow> bool" where
  "validParent v \<longleftrightarrow>
     (let parts = strings_Split (CHR ''/'') v in
      length parts = 2 \<and> parts ! 0 = ''projects'' \<and> validResourceSegment (parts ! 1))"

definition validTable :: "string \<Rightarrow> bool" where
  "validTable v \<longleftrightarrow>
     (let parts = strings_Split (CHR ''/'') v in
      length parts = 6 \<and> parts ! 0 = ''projects'' \<and> validResourceSegment (parts ! 1)
      \<and> parts ! 2 = ''datasets'' \<and> validResourceSegment (parts ! 3)
      \<and> parts ! 4 = ''tables'' \<and> validResourceSegment (parts ! 5))"

section \<open>Configuration\<close>

record ReadConfig =
  RcLocation :: string
  RcProtocolModelVersion :: string
  RcMaxStreams :: int
  RcDefaultStreamCount :: int
  RcSessionTTL :: int
  RcCleanupInterval :: int
  RcMaxRowsPerResponse :: int
  RcMaxSessions :: int
  RcMaxSnapshotBytes :: int
  RcMaxTotalSnapshotBytes :: int

definition validateReadConfig :: "ReadConfig \<Rightarrow> go_error option" where
  "validateReadConfig c =
     (if \<not> validResourceSegment (RcLocation c)
      then Some (errors_New ''location must be a non-empty resource segment'')
      else if blank (RcProtocolModelVersion c)
      then Some (errors_New ''protocol model version is required'')
      else if RcMaxStreams c \<le> 0 \<or> RcDefaultStreamCount c \<le> 0 \<or> RcDefaultStreamCount c > RcMaxStreams c
      then Some (errors_New ''stream limit and default must be positive, and default must not exceed the limit'')
      else if RcSessionTTL c \<le> 0 \<or> RcCleanupInterval c \<le> 0
      then Some (errors_New ''session TTL and cleanup interval must be positive'')
      else if RcMaxRowsPerResponse c \<le> 0 \<or> RcMaxSessions c \<le> 0 \<or> RcMaxSnapshotBytes c \<le> 0
           \<or> RcMaxTotalSnapshotBytes c \<le> 0
      then Some (errors_New ''response row, session, and snapshot byte limits must be positive'')
      else if RcMaxSnapshotBytes c > RcMaxTotalSnapshotBytes c
      then Some (errors_New ''per-session snapshot byte limit must not exceed the total snapshot byte limit'')
      else None)"

section \<open>Stream counts and partitions\<close>

definition negotiateStreamCount :: "ReadConfig \<Rightarrow> int \<Rightarrow> int \<Rightarrow> go_error + int" where
  "negotiateStreamCount c maximum preferred =
     (if maximum < 0 \<or> preferred < 0 then Inl (errors_New ''stream counts must not be negative'')
      else if maximum > 0 \<and> preferred > maximum
      then Inl (errors_New ''preferred minimum stream count exceeds maximum'')
      else
        let upper = (if maximum > 0 \<and> maximum < RcMaxStreams c then maximum else RcMaxStreams c);
            chosen = (if preferred > 0 then max preferred (RcDefaultStreamCount c)
                      else if maximum = 0 then RcDefaultStreamCount c else upper) in
        Inr (if chosen > upper then upper else chosen))"

text \<open>The loop of \<open>partitionStreams\<close> from stream \<open>index\<close> on, \<open>left\<close> streams to go.\<close>

fun partition_from :: "string \<Rightarrow> int \<Rightarrow> int \<Rightarrow> int \<Rightarrow> int \<Rightarrow> nat \<Rightarrow> ReadStream list" where
  "partition_from session base remainder start index 0 = []"
| "partition_from session base remainder start index (Suc left) =
     (let len = (if index < remainder then base + 1 else base); stop = start + len in
      \<lparr>SmName = session @ ''/streams/'' @ FormatInt index, SmStartOffset = start, SmEndOffset = stop\<rparr>
        # partition_from session base remainder stop (index + 1) left)"

definition partitionStreams :: "string \<Rightarrow> int \<Rightarrow> int \<Rightarrow> ReadStream list" where
  "partitionStreams session rows count =
     partition_from session (rows div count) (rows mod count) 0 0 (nat count)"

section \<open>Requests and metadata\<close>

definition validateCreateRequest :: "CreateSessionRequest \<Rightarrow> go_error option" where
  "validateCreateRequest r =
     (if \<not> validParent (CqParent r) then Some (errors_New ''parent must have the form projects/{project}'')
      else if \<not> validTable (CqTable r)
      then Some (errors_New ''table must have the form projects/{project}/datasets/{dataset}/tables/{table}'')
      else if CqFormat r \<noteq> FormatArrow \<and> CqFormat r \<noteq> FormatAvro
      then Some (errors_New ''data format must be ARROW or AVRO'')
      else if length (CqTraceID r) > 256 then Some (errors_New ''trace ID exceeds 256 bytes'')
      else if list_ex blank (CqSelectedFields r)
      then Some (errors_New ''selected fields must not contain empty names'')
      else None)"

definition read_digest :: "string \<Rightarrow> string" where
  "read_digest payload = ''sha256:'' @ sha256_hex payload"

section \<open>encoding/json\<close>

text \<open>
  \<open>json.Valid\<close>: the grammar of the scanner, as a recognizer that returns the input after a value. It
  checks no UTF-8 and stops at 10000 nested values. A call consumes a byte or is the call of a value by the
  elements of an array, so twice the length of the input is enough fuel.
\<close>

fun json_space :: "string \<Rightarrow> string" where
  "json_space [] = []"
| "json_space (c # cs) = (if of_char c \<in> {9, 10, 13, 32 :: nat} then json_space cs else c # cs)"

definition json_hex :: "char \<Rightarrow> bool" where
  "json_hex c \<longleftrightarrow> is_hex c \<or> (65 \<le> (of_char c :: nat) \<and> (of_char c :: nat) \<le> 70)"

text \<open>A string after its opening quote.\<close>

fun json_string :: "string \<Rightarrow> string option" where
  "json_string [] = None"
| "json_string (c # cs) =
     (if c = CHR 0x22 then Some cs
      else if c = CHR 0x5C then
        (case cs of
           [] \<Rightarrow> None
         | e # r \<Rightarrow>
             if e \<in> set [CHR ''b'', CHR ''f'', CHR ''n'', CHR ''r'', CHR ''t'', CHR 0x5C, CHR ''/'', CHR 0x22] then json_string r
             else if e = CHR ''u'' then
               (case r of h1 # h2 # h3 # h4 # r' \<Rightarrow>
                  if json_hex h1 \<and> json_hex h2 \<and> json_hex h3 \<and> json_hex h4 then json_string r' else None
                | _ \<Rightarrow> None)
             else None)
      else if (of_char c :: nat) < 0x20 then None else json_string cs)"

text \<open>One or more digits.\<close>

definition json_digits :: "string \<Rightarrow> string option" where
  "json_digits s = (case s of c # cs \<Rightarrow> if is_digit c then Some (dropWhile is_digit cs) else None | [] \<Rightarrow> None)"

definition json_fraction :: "string \<Rightarrow> string option" where
  "json_fraction s = (case s of c # cs \<Rightarrow> if c = CHR ''.'' then json_digits cs else Some s | [] \<Rightarrow> Some s)"

definition json_exponent :: "string \<Rightarrow> string option" where
  "json_exponent s =
     (case s of
        c # cs \<Rightarrow>
          if c = CHR ''e'' \<or> c = CHR ''E'' then
            (case cs of d # ds \<Rightarrow> if d = CHR ''+'' \<or> d = CHR ''-'' then json_digits ds else json_digits cs | [] \<Rightarrow> None)
          else Some s
      | [] \<Rightarrow> Some s)"

definition json_number :: "string \<Rightarrow> string option" where
  "json_number s =
     (let body = (case s of c # cs \<Rightarrow> if c = CHR ''-'' then cs else s | [] \<Rightarrow> s);
          int_part = (case body of c # cs \<Rightarrow> if c = CHR ''0'' then Some cs else json_digits body | [] \<Rightarrow> None) in
      case int_part of None \<Rightarrow> None
      | Some r \<Rightarrow> (case json_fraction r of None \<Rightarrow> None | Some r' \<Rightarrow> json_exponent r'))"

definition json_literal :: "string \<Rightarrow> string \<Rightarrow> string option" where
  "json_literal lit s = (if strings_HasPrefix s lit then Some (drop (length lit) s) else None)"

fun json_value :: "nat \<Rightarrow> nat \<Rightarrow> string \<Rightarrow> string option"
and json_members :: "nat \<Rightarrow> nat \<Rightarrow> string \<Rightarrow> string option"
and json_elements :: "nat \<Rightarrow> nat \<Rightarrow> string \<Rightarrow> string option" where
  "json_value 0 depth s = None"
| "json_value (Suc n) depth s =
     (case json_space s of
        [] \<Rightarrow> None
      | c # cs \<Rightarrow>
          if c = CHR ''{'' then
            (if 10000 \<le> depth then None
             else case json_space cs of
               d # ds \<Rightarrow> if d = CHR ''}'' then Some ds else json_members n (Suc depth) (d # ds)
             | [] \<Rightarrow> None)
          else if c = CHR ''['' then
            (if 10000 \<le> depth then None
             else case json_space cs of
               d # ds \<Rightarrow> if d = CHR '']'' then Some ds else json_elements n (Suc depth) (d # ds)
             | [] \<Rightarrow> None)
          else if c = CHR 0x22 then json_string cs
          else if c = CHR ''t'' then json_literal ''true'' (c # cs)
          else if c = CHR ''f'' then json_literal ''false'' (c # cs)
          else if c = CHR ''n'' then json_literal ''null'' (c # cs)
          else json_number (c # cs))"
| "json_members 0 depth s = None"
| "json_members (Suc n) depth s =
     (case json_space s of
        q # cs \<Rightarrow>
          if q \<noteq> CHR 0x22 then None
          else (case json_string cs of None \<Rightarrow> None
          | Some r \<Rightarrow>
            (case json_space r of
               d # ds \<Rightarrow>
                 if d \<noteq> CHR '':'' then None
                 else (case json_value n depth ds of None \<Rightarrow> None
                 | Some r' \<Rightarrow>
                   (case json_space r' of
                      e # es \<Rightarrow> if e = CHR '','' then json_members n depth es
                                else if e = CHR ''}'' then Some es else None
                    | [] \<Rightarrow> None))
             | [] \<Rightarrow> None))
      | [] \<Rightarrow> None)"
| "json_elements 0 depth s = None"
| "json_elements (Suc n) depth s =
     (case json_value n depth s of None \<Rightarrow> None
      | Some r \<Rightarrow>
        (case json_space r of
           e # es \<Rightarrow> if e = CHR '','' then json_elements n depth es
                     else if e = CHR '']'' then Some es else None
         | [] \<Rightarrow> None))"

definition json_valid :: "string \<Rightarrow> bool" where
  "json_valid s \<longleftrightarrow> (case json_value (2 * length s + 2) 0 s of Some r \<Rightarrow> json_space r = [] | None \<Rightarrow> False)"

definition validateSnapshotMetadata :: "Format \<Rightarrow> SnapshotMetadata \<Rightarrow> go_error + SnapshotMetadata" where
  "validateSnapshotMetadata format m =
     (if SmRowCount m < 0 \<or> SmEstimatedBytes m < 0 \<or> SmRetainedBytes m < 0
      then Inl (errors_New ''snapshot metadata contains a negative size'')
      else if RsFormat (SmSchema m) \<noteq> format
      then Inl (errors_New ''snapshot format does not match request'')
      else if RsSerialized (SmSchema m) = [] then Inl (errors_New ''snapshot reference schema is empty'')
      else if format = FormatAvro \<and> \<not> json_valid (RsSerialized (SmSchema m))
      then Inl (errors_New ''snapshot Avro reference schema is not JSON'')
      else Inr (m\<lparr>SmSchema := (SmSchema m)\<lparr>RsFingerprint := read_digest (RsSerialized (SmSchema m))\<rparr>\<rparr>))"

section \<open>Properties\<close>

text \<open>Streams that cover a range of rows in order, each row once.\<close>

fun streams_cover :: "int \<Rightarrow> int \<Rightarrow> ReadStream list \<Rightarrow> bool" where
  "streams_cover a b [] \<longleftrightarrow> a = b"
| "streams_cover a b (s # ss) \<longleftrightarrow> SmStartOffset s = a \<and> a \<le> SmEndOffset s \<and> streams_cover (SmEndOffset s) b ss"

lemma streams_cover_le: "streams_cover a b ss \<Longrightarrow> a \<le> b"
  by (induction ss arbitrary: a) force+

lemma streams_cover_bounds:
  "streams_cover a b ss \<Longrightarrow> s \<in> set ss \<Longrightarrow> a \<le> SmStartOffset s \<and> SmStartOffset s \<le> SmEndOffset s \<and> SmEndOffset s \<le> b"
proof (induction ss arbitrary: a)
  case (Cons x ss)
  then show ?case using streams_cover_le [of "SmEndOffset x" b ss] by force
qed simp

lemma streams_cover_unique:
  assumes "streams_cover a b ss" "a \<le> r" "r < b"
  shows "\<exists>!i. i < length ss \<and> SmStartOffset (ss ! i) \<le> r \<and> r < SmEndOffset (ss ! i)"
  using assms
proof (induction ss arbitrary: a)
  case (Cons s ss)
  show ?case
  proof (cases "r < SmEndOffset s")
    case True
    have "\<not> (SmStartOffset (ss ! j) \<le> r)" if "j < length ss" for j
      using streams_cover_bounds [of "SmEndOffset s" b ss "ss ! j"] Cons.prems True that by auto
    then have "i = 0" if "i < length (s # ss) \<and> SmStartOffset ((s # ss) ! i) \<le> r \<and> r < SmEndOffset ((s # ss) ! i)" for i
      using that by (cases i) auto
    then show ?thesis using Cons.prems True by (intro ex1I [of _ 0]) auto
  next
    case False
    then have "\<exists>!i. i < length ss \<and> SmStartOffset (ss ! i) \<le> r \<and> r < SmEndOffset (ss ! i)"
      using Cons.IH [of "SmEndOffset s"] Cons.prems by simp
    then obtain i where i: "i < length ss" "SmStartOffset (ss ! i) \<le> r" "r < SmEndOffset (ss ! i)"
      and u: "\<And>j. j < length ss \<Longrightarrow> SmStartOffset (ss ! j) \<le> r \<Longrightarrow> r < SmEndOffset (ss ! j) \<Longrightarrow> j = i" by blast
    show ?thesis
    proof (rule ex1I [of _ "Suc i"])
      fix j assume "j < length (s # ss) \<and> SmStartOffset ((s # ss) ! j) \<le> r \<and> r < SmEndOffset ((s # ss) ! j)"
      then show "j = Suc i" using u False by (cases j) auto
    qed (use i in simp)
  qed
qed simp

lemma partition_from_cover:
  assumes "0 \<le> base" "0 \<le> index"
  shows "streams_cover start (start + int n * base + max 0 (min (remainder - index) (int n)))
      (partition_from session base remainder start index n)"
  using assms
proof (induction n arbitrary: start index)
  case (Suc n)
  let ?len = "if index < remainder then base + 1 else base"
  have e: "start + ?len + int n * base + max 0 (min (remainder - (index + 1)) (int n))
      = start + int (Suc n) * base + max 0 (min (remainder - index) (int (Suc n)))"
    by (auto simp: algebra_simps)
  show ?case using Suc.IH [of "index + 1" "start + ?len"] Suc.prems unfolding e by (simp add: Let_def)
qed simp

lemma partition_from_shape:
  "length (partition_from session base remainder start index n) = n
   \<and> map SmName (partition_from session base remainder start index n)
       = map (\<lambda>i. session @ ''/streams/'' @ FormatInt (index + int i)) [0..<n]
   \<and> list_all (\<lambda>s. SmEndOffset s - SmStartOffset s \<in> {base, base + 1}) (partition_from session base remainder start index n)"
proof (induction n arbitrary: start index)
  case (Suc n)
  have "map (\<lambda>i. session @ ''/streams/'' @ FormatInt (index + int i)) [0..<Suc n]
      = (session @ ''/streams/'' @ FormatInt index) # map (\<lambda>i. session @ ''/streams/'' @ FormatInt (index + 1 + int i)) [0..<n]"
    by (simp add: upt_conv_Cons map_Suc_upt [symmetric] comp_def algebra_simps del: upt_Suc)
  then show ?case using Suc.IH [of "start + (if index < remainder then base + 1 else base)" "index + 1"]
    by (simp add: Let_def)
qed simp

lemma FormatInt_inj_nonneg: "0 \<le> a \<Longrightarrow> 0 \<le> b \<Longrightarrow> FormatInt a = FormatInt b \<Longrightarrow> a = b"
  using format_nat_inj by (fastforce simp: FormatInt_def)

lemma partitionStreams_facts:
  assumes "0 \<le> rows" "0 < count"
  shows "length (partitionStreams session rows count) = nat count
    \<and> distinct (map SmName (partitionStreams session rows count))
    \<and> streams_cover 0 rows (partitionStreams session rows count)
    \<and> list_all (\<lambda>s. SmEndOffset s - SmStartOffset s \<in> {rows div count, rows div count + 1}) (partitionStreams session rows count)
    \<and> (\<forall>r. if 0 \<le> r \<and> r < rows then \<exists>!i. i < length (partitionStreams session rows count)
          \<and> SmStartOffset (partitionStreams session rows count ! i) \<le> r
          \<and> r < SmEndOffset (partitionStreams session rows count ! i) else True)"
proof -
  let ?ss = "partitionStreams session rows count"
  have b: "0 \<le> rows div count" "0 \<le> rows mod count" "rows mod count < count"
    using assms by (simp_all add: pos_imp_zdiv_nonneg_iff)
  have "0 + int (nat count) * (rows div count) + max 0 (min (rows mod count - 0) (int (nat count))) = rows"
    using assms b by simp
  then have c: "streams_cover 0 rows ?ss"
    using partition_from_cover [of "rows div count" 0 0 "nat count" "rows mod count" session] b(1)
    by (simp add: partitionStreams_def)
  have names: "map SmName ?ss = map (\<lambda>i. session @ ''/streams/'' @ FormatInt (int i)) [0..<nat count]"
    using partition_from_shape [of session "rows div count" "rows mod count" 0 0 "nat count"] by (simp add: partitionStreams_def)
  have "distinct (map SmName ?ss)" unfolding names
    by (auto simp: distinct_map inj_on_def dest!: FormatInt_inj_nonneg [rotated 2])
  then show ?thesis using c streams_cover_unique [OF c]
      partition_from_shape [of session "rows div count" "rows mod count" 0 0 "nat count"]
    by (simp add: partitionStreams_def)
qed

text \<open>
  C21. The streams of a session partition its snapshot: there are as many as negotiated, with
  distinct names, their sizes differ by at most one row, and every row of the snapshot belongs to exactly one of them.
\<close>

theorem partitionStreams_partition:
  assumes "0 \<le> rows" "0 < count"
  shows "length (partitionStreams session rows count) = nat count
    \<and> distinct (map SmName (partitionStreams session rows count))
    \<and> streams_cover 0 rows (partitionStreams session rows count)
    \<and> list_all (\<lambda>s. SmEndOffset s - SmStartOffset s \<in> {rows div count, rows div count + 1}) (partitionStreams session rows count)
    \<and> (\<forall>r. if 0 \<le> r \<and> r < rows then \<exists>!i. i < length (partitionStreams session rows count)
          \<and> SmStartOffset (partitionStreams session rows count ! i) \<le> r
          \<and> r < SmEndOffset (partitionStreams session rows count ! i) else True)"
  using partitionStreams_facts [OF assms] .

theorem partitionStreams_partition_witness:
  "map (\<lambda>s. (SmStartOffset s, SmEndOffset s)) (partitionStreams ''s'' 7 3) = [(0, 3), (3, 5), (5, 7)]
    \<and> distinct (map SmName (partitionStreams ''s'' 7 3))"
  using partitionStreams_partition [of 7 3 "''s''"] by (simp add: partitionStreams_def Let_def numeral_eq_Suc)

lemma negotiateStreamCount_pos:
  "validateReadConfig c = None \<Longrightarrow> negotiateStreamCount c maximum preferred = Inr n \<Longrightarrow> 0 < n"
  by (auto simp: validateReadConfig_def negotiateStreamCount_def Let_def split: if_splits)

text \<open>
  A negotiated stream count is positive and within both limits, the service's and the client's, and
  reaches the client's preferred minimum unless the service's limit is smaller. Counts are refused
  exactly when one is negative or the preference exceeds the maximum.
\<close>

theorem negotiateStreamCount_bounds:
  assumes "validateReadConfig c = None"
  shows "case negotiateStreamCount c maximum preferred of
      Inl _ \<Rightarrow> maximum < 0 \<or> preferred < 0 \<or> (0 < maximum \<and> maximum < preferred)
    | Inr n \<Rightarrow> 0 \<le> maximum \<and> 0 \<le> preferred \<and> (maximum = 0 \<or> preferred \<le> maximum) \<and> 1 \<le> n \<and> n \<le> RcMaxStreams c
        \<and> (maximum = 0 \<or> n \<le> maximum) \<and> min preferred (RcMaxStreams c) \<le> n"
  using assms by (auto simp: validateReadConfig_def negotiateStreamCount_def Let_def split: if_splits)

definition sample_read_config :: ReadConfig where
  "sample_read_config =
     \<lparr>RcLocation = ''US'', RcProtocolModelVersion = ''v1'', RcMaxStreams = 8, RcDefaultStreamCount = 2, RcSessionTTL = 100,
      RcCleanupInterval = 10, RcMaxRowsPerResponse = 4, RcMaxSessions = 3, RcMaxSnapshotBytes = 50, RcMaxTotalSnapshotBytes = 90\<rparr>"

lemma sample_read_config_ok: "validateReadConfig sample_read_config = None"
  by code_simp

theorem negotiateStreamCount_bounds_witness:
  "negotiateStreamCount sample_read_config 5 3 = Inr 3 \<and> (1::int) \<le> 3 \<and> (3::int) \<le> RcMaxStreams sample_read_config"
  using negotiateStreamCount_bounds [OF sample_read_config_ok, of 5 3]
  by (simp add: negotiateStreamCount_def sample_read_config_def)

end
