(* ===== verification/Read_Ports.thy ===== *)
theory Read_Ports
  imports Read_Domain
begin

text \<open>
  \<open>internal/storageread/ports\<close>: what the Storage Read service calls. A snapshot, its iterators and the
  materializer are parameters of the service, so their answers are values; an iterator is the sequence
  of its answers. The session state repository is a record of operations on its own state; the locale
  \<open>session_ledger\<close> is the contract the service relies on, provided by \<open>Read_Repository\<close>.
\<close>

section \<open>Snapshots\<close>

datatype next_result = NextBatch EncodedBatch | NextEOF | NextError go_error

record BatchIterator =
  BiNext :: "nat \<Rightarrow> next_result"
  BiClose :: "go_error option"

record ReadSnapshot =
  SnMetadata :: SnapshotMetadata
  SnOpenRange :: "int \<Rightarrow> int \<Rightarrow> int \<Rightarrow> go_error + BatchIterator option"
  SnClose :: "go_error option"

datatype materialized = MaterializeError read_error | MaterializeNil | Materialized ReadSnapshot

section \<open>Session state\<close>

record 'r SessionStateRepository =
  SpCreateSession :: "SessionRecord \<Rightarrow> 'r \<Rightarrow> go_error option \<times> 'r"
  SpTransitionSessions ::
    "string list \<Rightarrow> SessionLifecycle \<Rightarrow> SessionLifecycle \<Rightarrow> time \<Rightarrow> 'r \<Rightarrow> go_error option \<times> 'r"
  SpReconcileActive :: "time \<Rightarrow> 'r \<Rightarrow> (go_error + int) \<times> 'r"
  SpGetStream :: "string \<Rightarrow> 'r \<Rightarrow> (go_error + PersistedStream) \<times> 'r"

text \<open>
  The contract: \<open>lifecycle\<close> reads the state of a session, \<open>owner\<close> the session of a stream. Sessions are created
  ACTIVE under a new name with new streams; every stream belongs to a known session; a transition moves all the named sessions or none; a session that has ended stays
  as it is; a failed call changes nothing.
\<close>

locale session_ledger =
  fixes repo :: "'r SessionStateRepository"
    and ok :: "'r \<Rightarrow> bool"
    and lifecycle :: "'r \<Rightarrow> string \<rightharpoonup> SessionLifecycle"
    and owner :: "'r \<Rightarrow> string \<rightharpoonup> string"
  assumes create:
      "ok r \<Longrightarrow> SpCreateSession repo rec r = (None, r') \<Longrightarrow>
         ok r' \<and> lifecycle r (SdName rec) = None \<and> lifecycle r' = (lifecycle r)(SdName rec \<mapsto> SessionActive)
         \<and> (\<forall>n \<in> SmName ` set (SdStreams rec). owner r n = None)
         \<and> owner r' = (\<lambda>n. if n \<in> SmName ` set (SdStreams rec) then Some (SdName rec) else owner r n)"
    and create_failed:
      "ok r \<Longrightarrow> SpCreateSession repo rec r = (Some e, r') \<Longrightarrow> ok r' \<and> lifecycle r' = lifecycle r \<and> owner r' = owner r"
    and transition:
      "ok r \<Longrightarrow> SpTransitionSessions repo names SessionActive to t r = (None, r') \<Longrightarrow>
         ok r' \<and> owner r' = owner r
         \<and> lifecycle r' = (\<lambda>n. if n \<in> set names then Some to else lifecycle r n)
         \<and> (\<forall>n \<in> set names. lifecycle r n \<in> {Some SessionActive, Some to})"
    and transition_failed:
      "ok r \<Longrightarrow> SpTransitionSessions repo names from to t r = (Some e, r') \<Longrightarrow>
         ok r' \<and> lifecycle r' = lifecycle r \<and> owner r' = owner r"
    and reconcile:
      "ok r \<Longrightarrow> SpReconcileActive repo t r = (Inr count, r') \<Longrightarrow>
         ok r' \<and> owner r' = owner r
         \<and> (\<forall>n. if lifecycle r n = Some SessionActive then lifecycle r' n \<in> {Some SessionExpired, Some SessionUnavailable}
                else lifecycle r' n = lifecycle r n)"
    and reconcile_failed:
      "ok r \<Longrightarrow> SpReconcileActive repo t r = (Inl e, r') \<Longrightarrow> ok r' \<and> lifecycle r' = lifecycle r \<and> owner r' = owner r"
    and get_stream:
      "ok r \<Longrightarrow> SpGetStream repo name r = (res, r') \<Longrightarrow>
         ok r' \<and> lifecycle r' = lifecycle r \<and> owner r' = owner r
         \<and> (case res of Inl _ \<Rightarrow> True
            | Inr p \<Rightarrow> owner r name = Some (PsSession p) \<and> lifecycle r (PsSession p) = Some (PsLifecycle p))"
    and owner_known: "ok r \<Longrightarrow> owner r k = Some n \<Longrightarrow> lifecycle r n \<noteq> None"

end
