(* ===== verification/Read_Service.thy ===== *)
theory Read_Service
  imports Read_Ports
begin

text \<open>
  \<open>internal/storageread/application\<close>: the Storage Read service. A session is admitted against a count
  and a byte budget before its snapshot is materialized (\<open>admission.go\<close>), stored in memory and in the session
  state repository (\<open>service.go\<close>, \<open>session_state.go\<close>), read by streams (\<open>read_rows.go\<close>) and ended by expiry
  or shutdown (\<open>lifecycle.go\<close>).

  A function of this theory that changes the service is the code between one \<open>s.mu.Lock\<close> and its
  \<open>Unlock\<close>, or a sequence of such pieces; \<open>Read_Service_Runs\<close> interleaves the pieces. The state of a
  session is shared by its entry in \<open>sessions\<close> and those of its streams; its fields change only after the
  entries are gone, so copies stand for the pointer. A \<open>context\<close> is what its \<open>Err\<close> answers
  at the point where the code asks. Logging is left out.
\<close>

record sessionState =
  TsSession :: ReadSession
  TsSnapshot :: ReadSnapshot
  TsRetainedBytes :: int
  TsRecord :: SessionRecord

record readStreamState =
  TtSession :: sessionState
  TtStream :: ReadStream

record sessionReservation =
  SnID :: int
  SnBytes :: int

record 'r ReadService =
  RvConfig :: ReadConfig
  RvRepository :: "'r SessionStateRepository"
  RvRepo :: 'r
  RvSessions :: "(string, sessionState) gomap"
  RvStreams :: "(string, readStreamState) gomap"
  RvReservations :: "(int, sessionReservation) gomap"
  RvNextReservationID :: int
  RvRetainedSnapshotBytes :: int
  RvClosed :: bool
  RvStateReconciled :: bool

text \<open>\<open>New\<close> with \<open>WithSessionStateRepository\<close>, or without it, when the state repository is the transient one.\<close>

definition transientSessionStateRepository :: "'r SessionStateRepository" where
  "transientSessionStateRepository =
     \<lparr>SpCreateSession = (\<lambda>_ r. (None, r)), SpTransitionSessions = (\<lambda>_ _ _ _ r. (None, r)),
      SpReconcileActive = (\<lambda>_ r. (Inr 0, r)), SpGetStream = (\<lambda>_ r. (Inl [ErrSessionStateNotFound], r))\<rparr>"

definition ReadService_New :: "ReadConfig \<Rightarrow> 'r SessionStateRepository option \<Rightarrow> 'r \<Rightarrow> go_error + 'r ReadService" where
  "ReadService_New config repository state =
     (case validateReadConfig config of Some e \<Rightarrow> Inl e
      | None \<Rightarrow>
          Inr \<lparr>RvConfig = config,
               RvRepository = (case repository of Some r \<Rightarrow> r | None \<Rightarrow> transientSessionStateRepository),
               RvRepo = state, RvSessions = [], RvStreams = [], RvReservations = [], RvNextReservationID = 0,
               RvRetainedSnapshotBytes = 0, RvClosed = False, RvStateReconciled = Option.is_none repository\<rparr>)"

definition joined :: "go_error option \<Rightarrow> go_error option \<Rightarrow> go_error option" where
  "joined a b = (case (a, b) of (None, e) \<Rightarrow> e | (e, None) \<Rightarrow> e | (Some x, Some y) \<Rightarrow> Some (errors_Join x y))"

abbreviation join_close :: "go_error \<Rightarrow> go_error option \<Rightarrow> go_error" where
  "join_close e c \<equiv> errors_Join e (case c of None \<Rightarrow> [] | Some x \<Rightarrow> x)"

section \<open>Classification of errors\<close>

definition contextErrorCode :: "go_error \<Rightarrow> ReadErrorCode" where
  "contextErrorCode e = (if errors_Is e ContextDeadlineExceeded then ReadDeadlineExceeded else ReadCanceled)"

definition context_error :: "go_error \<Rightarrow> bool" where
  "context_error e \<longleftrightarrow> errors_Is e ContextCanceled \<or> errors_Is e ContextDeadlineExceeded"

definition classifyStateFailure :: "string \<Rightarrow> go_error \<Rightarrow> read_error" where
  "classifyStateFailure op e =
     (if context_error e then ReadError (contextErrorCode e) op e
      else if errors_Is e ErrSessionStateConflict then ReadError ReadFailedPrecondition op e
      else ReadError ReadUnavailable op e)"

definition create_session_op :: string where "create_session_op = ''storage_read.create_session''"

definition classifyMaterializationFailure :: "go_error option \<Rightarrow> bool \<Rightarrow> read_error \<Rightarrow> read_error" where
  "classifyMaterializationFailure ctx closed e =
     (let other = (case e of ReadError code _ _ \<Rightarrow> ReadError code create_session_op (read_cause e)
                   | ReadPlain c \<Rightarrow> ReadError ReadInternal create_session_op c) in
      if context_error (read_cause e) then
        (case ctx of
           Some caller \<Rightarrow> ReadError (contextErrorCode caller) create_session_op caller
         | None \<Rightarrow> if closed then ReadError ReadFailedPrecondition create_session_op (read_cause e) else other)
      else other)"

section \<open>Admission\<close>

definition domainErrorCodeForAdmission :: "string \<Rightarrow> ReadErrorCode" where
  "domainErrorCodeForAdmission reason =
     (if reason = ''service_closed'' then ReadFailedPrecondition else ReadResourceExhausted)"

definition admission_reason :: "'r ReadService \<Rightarrow> (string \<times> ReadErrorCode) option" where
  "admission_reason s =
     (if RvClosed s then Some (''service_closed'', domainErrorCodeForAdmission ''service_closed'')
      else if \<not> RvStateReconciled s then Some (''state_not_reconciled'', ReadFailedPrecondition)
      else if RcMaxSessions (RvConfig s) \<le> int (length (RvSessions s)) + int (length (RvReservations s))
      then Some (''session_limit'', domainErrorCodeForAdmission ''session_limit'')
      else if RcMaxSnapshotBytes (RvConfig s) > wrap64 (RcMaxTotalSnapshotBytes (RvConfig s) - RvRetainedSnapshotBytes s)
      then Some (''snapshot_byte_budget'', domainErrorCodeForAdmission ''snapshot_byte_budget'')
      else None)"

definition reserveSession ::
  "go_error option \<Rightarrow> 'r ReadService \<Rightarrow> (read_error + sessionReservation) \<times> 'r ReadService" where
  "reserveSession ctx s =
     (case ctx of Some e \<Rightarrow> (Inl (ReadError (contextErrorCode e) create_session_op e), s)
      | None \<Rightarrow>
        (case admission_reason s of
           Some (reason, code) \<Rightarrow> (Inl (ReadError code create_session_op (errors_New reason)), s)
         | None \<Rightarrow>
             let i = (RvNextReservationID s + 1) mod 2 ^ 64;
                 reservation = \<lparr>SnID = i, SnBytes = RcMaxSnapshotBytes (RvConfig s)\<rparr> in
             (Inr reservation,
              s\<lparr>RvNextReservationID := i, RvReservations := gm_put i reservation (RvReservations s),
                RvRetainedSnapshotBytes := i64_add (RvRetainedSnapshotBytes s) (SnBytes reservation)\<rparr>)))"

fun put_read_streams :: "sessionState \<Rightarrow> ReadStream list \<Rightarrow> (string, readStreamState) gomap \<Rightarrow> (string, readStreamState) gomap" where
  "put_read_streams state [] m = m"
| "put_read_streams state (x # xs) m =
     put_read_streams state xs (gm_put (SmName x) \<lparr>TtSession = state, TtStream = x\<rparr> m)"

definition persistSession :: "SessionRecord \<Rightarrow> 'r ReadService \<Rightarrow> read_error option \<times> 'r ReadService" where
  "persistSession rec s =
     (case SpCreateSession (RvRepository s) rec (RvRepo s) of
        (None, r) \<Rightarrow> (None, s\<lparr>RvRepo := r\<rparr>)
      | (Some e, r) \<Rightarrow> (Some (classifyStateFailure ''storage_read.persist_session'' e), s\<lparr>RvRepo := r\<rparr>))"

definition commitReservedSession ::
  "sessionReservation \<Rightarrow> sessionState \<Rightarrow> 'r ReadService \<Rightarrow> read_error option \<times> 'r ReadService" where
  "commitReservedSession reservation state s =
     (case gm_get (RvReservations s) (SnID reservation) of
        None \<Rightarrow>
          (Some (if RvClosed s
                 then ReadError ReadFailedPrecondition create_session_op (errors_New ''Storage Read service closed before session commit'')
                 else ReadError ReadInternal create_session_op (errors_New ''session reservation was lost'')), s)
      | Some current \<Rightarrow>
          if RvClosed s
          then (Some (ReadError ReadFailedPrecondition create_session_op (errors_New ''Storage Read service is closed'')), s)
          else if TsRetainedBytes state > SnBytes current
          then (Some (ReadError ReadResourceExhausted create_session_op (errors_New ''snapshot exceeds reserved byte limit'')), s)
          else if gm_get (RvSessions s) (SsName (TsSession state)) \<noteq> None
          then (Some (ReadError ReadInternal create_session_op (errors_New ''session ID already exists'')), s)
          else
            (case persistSession (TsRecord state) s of
               (Some e, s1) \<Rightarrow> (Some e, s1)
             | (None, s1) \<Rightarrow>
                 (None,
                  s1\<lparr>RvRetainedSnapshotBytes := wrap64 (RvRetainedSnapshotBytes s1 - SnBytes current + TsRetainedBytes state),
                     RvReservations := gm_del (SnID current) (RvReservations s1),
                     RvSessions := gm_put (SsName (TsSession state)) state (RvSessions s1),
                     RvStreams := put_read_streams state (SsStreams (TsSession state)) (RvStreams s1)\<rparr>)))"

definition releaseReservation :: "sessionReservation \<Rightarrow> 'r ReadService \<Rightarrow> 'r ReadService" where
  "releaseReservation reservation s =
     (case gm_get (RvReservations s) (SnID reservation) of
        None \<Rightarrow> s
      | Some current \<Rightarrow>
          s\<lparr>RvRetainedSnapshotBytes :=
              (if SnBytes current > RvRetainedSnapshotBytes s then 0 else RvRetainedSnapshotBytes s - SnBytes current),
            RvReservations := gm_del (SnID current) (RvReservations s)\<rparr>)"

definition releaseSnapshotBudget :: "sessionState \<Rightarrow> 'r ReadService \<Rightarrow> go_error option \<times> 'r ReadService" where
  "releaseSnapshotBudget state s =
     (if TsRetainedBytes state > RvRetainedSnapshotBytes s
      then (Some (errors_New ''snapshot budget underflow''), s\<lparr>RvRetainedSnapshotBytes := 0\<rparr>)
      else (None, s\<lparr>RvRetainedSnapshotBytes := RvRetainedSnapshotBytes s - TsRetainedBytes state\<rparr>))"

section \<open>Creation of sessions\<close>

text \<open>The locked part of \<open>CreateSession\<close> before the materializer is called, with the checks that precede it.\<close>

definition create_begin ::
  "go_error option \<Rightarrow> CreateSessionRequest \<Rightarrow> 'r ReadService \<Rightarrow> (read_error + sessionReservation \<times> int) \<times> 'r ReadService" where
  "create_begin ctx request s =
     (case validateCreateRequest request of
        Some e \<Rightarrow> (Inl (ReadError ReadInvalidArgument create_session_op e), s)
      | None \<Rightarrow>
        (case negotiateStreamCount (RvConfig s) (CqMaxStreamCount request) (CqPreferredMinStreamCount request) of
           Inl e \<Rightarrow> (Inl (ReadError ReadInvalidArgument create_session_op e), s)
         | Inr count \<Rightarrow>
           (case reserveSession ctx s of
              (Inl e, s1) \<Rightarrow> (Inl e, s1)
            | (Inr reservation, s1) \<Rightarrow> (Inr (reservation, count), s1))))"

definition materialize_request :: "CreateSessionRequest \<Rightarrow> MaterializeRequest" where
  "materialize_request r =
     \<lparr>MrTable = CqTable r, MrFormat = CqFormat r, MrSelectedFields = CqSelectedFields r,
      MrRowRestriction = CqRowRestriction r, MrSnapshotTime = CqSnapshotTime r\<rparr>"

definition session_name :: "ReadConfig \<Rightarrow> CreateSessionRequest \<Rightarrow> string \<Rightarrow> string" where
  "session_name config r i =
     ''projects/'' @ strings_TrimPrefix (CqParent r) ''projects/'' @ ''/locations/'' @ RcLocation config @ ''/sessions/'' @ i"

definition new_session ::
  "ReadConfig \<Rightarrow> CreateSessionRequest \<Rightarrow> int \<Rightarrow> SnapshotMetadata \<Rightarrow> string \<Rightarrow> time \<Rightarrow> ReadSession" where
  "new_session config r count m i now =
     (let name = session_name config r i in
      \<lparr>SsName = name, SsTable = CqTable r, SsFormat = CqFormat r, SsSchema = SmSchema m,
       SsStreams = partitionStreams name (SmRowCount m) count, SsExpireTime = now + RcSessionTTL config,
       SsEstimatedRowCount = SmRowCount m, SsEstimatedBytesScanned = SmEstimatedBytes m,
       SsSelectedFields = CqSelectedFields r, SsRowRestriction = CqRowRestriction r,
       SsSnapshotTime = CqSnapshotTime r, SsTraceID = CqTraceID r\<rparr>)"

definition new_session_record :: "CreateSessionRequest \<Rightarrow> SnapshotMetadata \<Rightarrow> ReadSession \<Rightarrow> time \<Rightarrow> SessionRecord" where
  "new_session_record r m session now =
     \<lparr>SdName = SsName session, SdTable = SsTable session, SdFormat = SsFormat session, SdSelectedFields = CqSelectedFields r,
      SdRowRestrictionDigest = read_digest (CqRowRestriction r), SdRowRestrictionBytes = int (length (CqRowRestriction r)),
      SdStreams = SsStreams session, SdCreatedAt = now, SdExpireTime = SsExpireTime session,
      SdSnapshotTime = CqSnapshotTime r, SdRetainedRowCount = SmRowCount m, SdRetainedBytes = SmRetainedBytes m,
      SdEstimatedBytesScanned = SmEstimatedBytes m, SdSchemaFingerprint = RsFingerprint (SmSchema m),
      SdLifecycle = SessionActive, SdLifecycleUpdatedAt = now\<rparr>"

text \<open>
  Between the two locked parts: the materializer's answer and the session built from it. \<open>closed\<close> is the
  flag \<open>classifyMaterializationFailure\<close> reads; a snapshot that is not kept is closed, and what its \<open>Close\<close>
  answers is joined to the error.
\<close>

definition create_state ::
  "ReadConfig \<Rightarrow> go_error option \<Rightarrow> bool \<Rightarrow> CreateSessionRequest \<Rightarrow> int \<Rightarrow> materialized \<Rightarrow> string \<Rightarrow> time \<Rightarrow> read_error + sessionState" where
  "create_state config ctx closed r count answer i now =
     (case answer of
        MaterializeError e \<Rightarrow> Inl (classifyMaterializationFailure ctx closed e)
      | MaterializeNil \<Rightarrow> Inl (ReadError ReadInternal create_session_op (errors_New ''materializer returned a nil snapshot''))
      | Materialized snapshot \<Rightarrow>
        (case validateSnapshotMetadata (CqFormat r) (SnMetadata snapshot) of
           Inl e \<Rightarrow> Inl (ReadError ReadInternal create_session_op (join_close e (SnClose snapshot)))
         | Inr m \<Rightarrow>
             if SmRetainedBytes m > RcMaxSnapshotBytes config
             then Inl (ReadError ReadResourceExhausted create_session_op
                         (join_close (errors_New ''snapshot retained bytes exceed configured per-session limit'') (SnClose snapshot)))
             else if \<not> validResourceSegment i
             then Inl (ReadError ReadInternal create_session_op
                         (join_close (errors_New ''ID generator returned an invalid resource segment'') (SnClose snapshot)))
             else
               let session = new_session config r count m i now in
               Inr \<lparr>TsSession = session, TsSnapshot = snapshot, TsRetainedBytes = SmRetainedBytes m,
                    TsRecord = new_session_record r m session now\<rparr>))"

definition create_commit ::
  "sessionReservation \<Rightarrow> read_error + sessionState \<Rightarrow> 'r ReadService \<Rightarrow> (read_error + ReadSession) \<times> 'r ReadService" where
  "create_commit reservation prepared s =
     (case prepared of Inl e \<Rightarrow> (Inl e, s)
      | Inr state \<Rightarrow>
        (case commitReservedSession reservation state s of
           (Some e, s1) \<Rightarrow>
             (Inl (ReadError (ReadCodeOf e) create_session_op (join_close (read_cause e) (SnClose (TsSnapshot state)))), s1)
         | (None, s1) \<Rightarrow> (Inr (TsSession state), s1)))"

text \<open>The whole handler when nothing else runs meanwhile; the deferred release follows an error.\<close>

definition Service_CreateSession ::
  "go_error option \<Rightarrow> go_error option \<Rightarrow> CreateSessionRequest \<Rightarrow> (MaterializeRequest \<Rightarrow> materialized) \<Rightarrow> string \<Rightarrow> time
     \<Rightarrow> 'r ReadService \<Rightarrow> (read_error + ReadSession) \<times> 'r ReadService" where
  "Service_CreateSession ctx ctx' r materialize i now s =
     (case create_begin ctx r s of
        (Inl e, s1) \<Rightarrow> (Inl e, s1)
      | (Inr (reservation, count), s1) \<Rightarrow>
        (case create_commit reservation
                (create_state (RvConfig s1) ctx' (RvClosed s1) r count (materialize (materialize_request r)) i now) s1 of
           (Inl e, s2) \<Rightarrow> (Inl e, releaseReservation reservation s2)
         | (Inr session, s2) \<Rightarrow> (Inr session, s2)))"

section \<open>Lifecycle\<close>

definition transitionSessions ::
  "string list \<Rightarrow> SessionLifecycle \<Rightarrow> time \<Rightarrow> 'r ReadService \<Rightarrow> read_error option \<times> 'r ReadService" where
  "transitionSessions names to t s =
     (if names = [] then (None, s)
      else case SpTransitionSessions (RvRepository s) names SessionActive to t (RvRepo s) of
        (None, r) \<Rightarrow> (None, s\<lparr>RvRepo := r\<rparr>)
      | (Some e, r) \<Rightarrow> (Some (classifyStateFailure ''storage_read.transition_sessions'' e), s\<lparr>RvRepo := r\<rparr>))"

definition ReconcilePersistedSessions :: "time \<Rightarrow> 'r ReadService \<Rightarrow> read_error option \<times> 'r ReadService" where
  "ReconcilePersistedSessions now s =
     (if RvClosed s
      then (Some (ReadError ReadFailedPrecondition ''storage_read.reconcile_sessions'' (errors_New ''Storage Read service is closed'')), s)
      else if RvStateReconciled s then (None, s)
      else case SpReconcileActive (RvRepository s) now (RvRepo s) of
        (Inl e, r) \<Rightarrow> (Some (classifyStateFailure ''storage_read.reconcile_sessions'' e), s\<lparr>RvRepo := r\<rparr>)
      | (Inr _, r) \<Rightarrow> (None, s\<lparr>RvRepo := r, RvStateReconciled := True\<rparr>))"

definition ended :: "SessionLifecycle \<Rightarrow> time \<Rightarrow> sessionState \<Rightarrow> sessionState" where
  "ended to t state = state\<lparr>TsRecord := (TsRecord state)\<lparr>SdLifecycle := to, SdLifecycleUpdatedAt := t\<rparr>\<rparr>"

definition drop_streams :: "sessionState list \<Rightarrow> (string, readStreamState) gomap \<Rightarrow> (string, readStreamState) gomap" where
  "drop_streams states m = fold (\<lambda>state m. fold (\<lambda>x. gm_del (SmName x)) (SsStreams (TsSession state)) m) states m"

text \<open>The locked part of \<open>SweepExpired\<close>, which returns the sessions whose snapshots are to be closed.\<close>

definition sweep_begin :: "time \<Rightarrow> 'r ReadService \<Rightarrow> (read_error + sessionState list) \<times> 'r ReadService" where
  "sweep_begin now s =
     (let expired = filter (\<lambda>(_, state). \<not> now < SsExpireTime (TsSession state)) (RvSessions s) in
      case transitionSessions (map fst expired) SessionExpired now s of
        (Some e, s1) \<Rightarrow> (Inl e, s1)
      | (None, s1) \<Rightarrow>
          (Inr (map (ended SessionExpired now \<circ> snd) expired),
           s1\<lparr>RvSessions := fold (\<lambda>(_, state). gm_del (SsName (TsSession state))) expired (RvSessions s1),
              RvStreams := drop_streams (map snd expired) (RvStreams s1)\<rparr>))"

fun closeSnapshots :: "sessionState list \<Rightarrow> 'r ReadService \<Rightarrow> go_error option \<times> 'r ReadService" where
  "closeSnapshots [] s = (None, s)"
| "closeSnapshots (state # states) s =
     (case releaseSnapshotBudget state s of
        (budget, s1) \<Rightarrow>
          (case closeSnapshots states s1 of
             (rest, s2) \<Rightarrow> (joined (joined (SnClose (TsSnapshot state)) budget) rest, s2)))"

definition SweepExpired :: "time \<Rightarrow> 'r ReadService \<Rightarrow> read_error option \<times> 'r ReadService" where
  "SweepExpired now s =
     (case sweep_begin now s of
        (Inl e, s1) \<Rightarrow> (Some e, s1)
      | (Inr states, s1) \<Rightarrow>
        (case closeSnapshots states s1 of (e, s2) \<Rightarrow> (map_option ReadPlain e, s2)))"

text \<open>The ticks of \<open>RunCleanup\<close> until its context ends; it logs the errors of the sweeps and goes on.\<close>

definition ReadService_RunCleanup :: "time list \<Rightarrow> 'r ReadService \<Rightarrow> 'r ReadService" where
  "ReadService_RunCleanup ticks s = fold (\<lambda>now s. snd (SweepExpired now s)) ticks s"

text \<open>The locked part of \<open>Close\<close>: its error, the sessions to close and the reservations to release.\<close>

definition close_begin ::
  "time \<Rightarrow> 'r ReadService \<Rightarrow> (read_error option \<times> sessionState list \<times> sessionReservation list) \<times> 'r ReadService" where
  "close_begin now s =
     (let states = map snd (RvSessions s) in
      case transitionSessions (map (SsName \<circ> TsSession) states) SessionUnavailable now (s\<lparr>RvClosed := True\<rparr>) of
        (e, s1) \<Rightarrow>
          ((e, (if e = None then map (ended SessionUnavailable now) states else states), map snd (RvReservations s1)),
           s1\<lparr>RvSessions := [], RvStreams := []\<rparr>))"

text \<open>\<open>wait\<close> is what \<open>waitForReservations\<close> answers: the context's error when a creator has not left in time.\<close>

definition ReadService_Close :: "go_error option \<Rightarrow> time \<Rightarrow> 'r ReadService \<Rightarrow> go_error option \<times> 'r ReadService" where
  "ReadService_Close wait now s =
     (case close_begin now s of
        ((e, states, reservations), s1) \<Rightarrow>
          (case closeSnapshots states (fold releaseReservation reservations s1) of
             (closeErr, s2) \<Rightarrow> (joined (joined (map_option read_cause e) closeErr) wait, s2)))"

end
