(* ===== verification/Read_Rows.thy ===== *)
theory Read_Rows
  imports Read_Service
begin

text \<open>
  \<open>internal/storageread/application/read_rows.go\<close>: serving a stream from an offset. The loop over the
  iterator of the snapshot may run for ever on an iterator that breaks its contract (the check of a batch's
  end wraps around at \<open>2^63\<close>), so it is a partial function: not returning is \<open>None\<close>.
\<close>

definition read_rows_op :: string where "read_rows_op = ''storage_read.read_rows''"

definition persistedStreamError :: "string \<Rightarrow> 'r ReadService \<Rightarrow> read_error \<times> 'r ReadService" where
  "persistedStreamError name s =
     (case SpGetStream (RvRepository s) name (RvRepo s) of
        (Inl e, r) \<Rightarrow>
          ((if errors_Is e ErrSessionStateNotFound then ReadError ReadNotFound read_rows_op e
            else classifyStateFailure read_rows_op e), s\<lparr>RvRepo := r\<rparr>)
      | (Inr p, r) \<Rightarrow>
          ((case PsLifecycle p of
              SessionExpired \<Rightarrow> ReadError ReadNotFound read_rows_op (errors_New ''read session expired'')
            | SessionActive \<Rightarrow> ReadError ReadUnavailable read_rows_op (errors_New ''read session snapshot is unavailable'')
            | SessionUnavailable \<Rightarrow> ReadError ReadUnavailable read_rows_op (errors_New ''read session snapshot is unavailable'')
            | SessionLifecycleOther _ \<Rightarrow>
                ReadError ReadInternal read_rows_op (errors_New ''persisted read session has an invalid lifecycle'')),
           s\<lparr>RvRepo := r\<rparr>))"

definition progress :: "ReadStream \<Rightarrow> int \<Rightarrow> Progress" where
  "progress stream offset =
     (if Stream_RowCount stream = 0 then ProgressDone
      else ProgressRatio (wrap64 (offset - SmStartOffset stream)) (Stream_RowCount stream))"

definition bad_batch :: "int \<Rightarrow> int \<Rightarrow> int \<Rightarrow> EncodedBatch \<Rightarrow> bool" where
  "bad_batch maxRows stop expected b \<longleftrightarrow>
     EbOffset b \<noteq> expected \<or> EbRowCount b \<le> 0 \<or> EbRowCount b > maxRows \<or> i64_add (EbOffset b) (EbRowCount b) > stop"

definition read_chunk :: "readStreamState \<Rightarrow> bool \<Rightarrow> EncodedBatch \<Rightarrow> ReadChunk" where
  "read_chunk entry first b =
     \<lparr>ChFormat = SsFormat (TsSession (TtSession entry)),
      ChSchema = (if first then Some (SsSchema (TsSession (TtSession entry))) else None), ChBatch = b,
      ChProgressStart = progress (TtStream entry) (EbOffset b),
      ChProgressEnd = progress (TtStream entry) (i64_add (EbOffset b) (EbRowCount b))\<rparr>"

text \<open>
  The loop from the call \<open>n\<close> of \<open>Next\<close> on: its result and the chunks handed to \<open>send\<close>, whose answer may depend
  on the number of the call and the chunk.
\<close>

partial_function (option) read_loop ::
  "readStreamState \<Rightarrow> int \<Rightarrow> int \<Rightarrow> (nat \<Rightarrow> next_result) \<Rightarrow> (nat \<Rightarrow> ReadChunk \<Rightarrow> read_error option) \<Rightarrow> nat \<Rightarrow> int \<Rightarrow> bool
     \<Rightarrow> (read_error option \<times> ReadChunk list) option" where
  "read_loop entry maxRows stop next_batch send n expected first =
     (case next_batch n of
        NextEOF \<Rightarrow>
          Some (if expected \<noteq> stop then Some (ReadError ReadInternal read_rows_op (errors_New ''snapshot ended early'')) else None, [])
      | NextError e \<Rightarrow> Some (Some (ReadError ReadInternal read_rows_op e), [])
      | NextBatch b \<Rightarrow>
          if bad_batch maxRows stop expected b
          then Some (Some (ReadError ReadInternal read_rows_op (errors_New ''non-contiguous snapshot batch'')), [])
          else
            (case send n (read_chunk entry first b) of
               Some e \<Rightarrow> Some (Some e, [read_chunk entry first b])
             | None \<Rightarrow>
                 Option.bind (read_loop entry maxRows stop next_batch send (Suc n) (i64_add expected (EbRowCount b)) False)
                   (\<lambda>(res, chunks). Some (res, read_chunk entry first b # chunks))))"

text \<open>What the deferred \<open>iterator.Close\<close> makes of the result.\<close>

definition close_iterator :: "go_error option \<Rightarrow> read_error option \<Rightarrow> read_error option" where
  "close_iterator closeErr res =
     (case (closeErr, res) of (Some e, None) \<Rightarrow> Some (ReadError ReadInternal read_rows_op e) | _ \<Rightarrow> res)"

definition ReadRows ::
  "ReadRowsRequest \<Rightarrow> (nat \<Rightarrow> ReadChunk \<Rightarrow> read_error option) \<Rightarrow> time \<Rightarrow> 'r ReadService
     \<Rightarrow> ((read_error option \<times> ReadChunk list) \<times> 'r ReadService) option" where
  "ReadRows request send now s =
     (if RqStreamName request = [] \<or> RqOffset request < 0
      then Some ((Some (ReadError ReadInvalidArgument read_rows_op
                          (errors_New ''stream, non-negative offset, and sender are required'')), []), s)
      else case gm_get (RvStreams s) (RqStreamName request) of
        None \<Rightarrow> (case persistedStreamError (RqStreamName request) s of (e, s1) \<Rightarrow> Some ((Some e, []), s1))
      | Some entry \<Rightarrow>
          if \<not> now < SsExpireTime (TsSession (TtSession entry))
          then Some ((Some (ReadError ReadNotFound read_rows_op (errors_New ''read session expired'')), []), s)
          else if RqOffset request > Stream_RowCount (TtStream entry)
          then Some ((Some (ReadError ReadInvalidArgument read_rows_op (errors_New ''offset exceeds stream row count'')), []), s)
          else
            let start = i64_add (SmStartOffset (TtStream entry)) (RqOffset request); stop = SmEndOffset (TtStream entry);
                maxRows = RcMaxRowsPerResponse (RvConfig s) in
            (case SnOpenRange (TsSnapshot (TtSession entry)) start stop maxRows of
               Inl e \<Rightarrow> Some ((Some (ReadError ReadInternal read_rows_op e), []), s)
             | Inr None \<Rightarrow>
                 Some ((Some (ReadError ReadInternal read_rows_op (errors_New ''snapshot returned a nil batch iterator'')), []), s)
             | Inr (Some it) \<Rightarrow>
                 Option.bind (read_loop entry maxRows stop (BiNext it) send 0 start True)
                   (\<lambda>(res, chunks). Some ((close_iterator (BiClose it) res, chunks), s))))"

section \<open>Coverage\<close>

text \<open>Batches that follow each other from row \<open>a\<close> on without a gap, each of 1 to \<open>maxRows\<close> rows, up to row \<open>b\<close>.\<close>

fun batches_cover :: "int \<Rightarrow> int \<Rightarrow> int \<Rightarrow> EncodedBatch list \<Rightarrow> bool" where
  "batches_cover maxRows a b [] \<longleftrightarrow> a = b"
| "batches_cover maxRows a b (x # xs) \<longleftrightarrow>
     EbOffset x = a \<and> 1 \<le> EbRowCount x \<and> EbRowCount x \<le> maxRows \<and> batches_cover maxRows (a + EbRowCount x) b xs"

lemma batches_cover_le: "batches_cover maxRows a b bs \<Longrightarrow> a + int (length bs) \<le> b"
  by (induction bs arbitrary: a) fastforce+

text \<open>An end of range far enough below \<open>2^63\<close> keeps the additions of the loop exact.\<close>

definition no_wrap :: "int \<Rightarrow> int \<Rightarrow> int \<Rightarrow> bool" where
  "no_wrap maxRows start stop \<longleftrightarrow> in_i64 start \<and> start \<le> stop \<and> in_i64 (stop + maxRows)"

lemma no_wrap_add: "no_wrap maxRows a stop \<Longrightarrow> 0 \<le> k \<Longrightarrow> k \<le> maxRows \<Longrightarrow> i64_add a k = a + k"
  by (rule i64_add_exact) (auto simp: no_wrap_def in_i64_def)

lemma good_batch:
  assumes "no_wrap maxRows a stop" "\<not> bad_batch maxRows stop a b"
  shows "EbOffset b = a \<and> 1 \<le> EbRowCount b \<and> EbRowCount b \<le> maxRows \<and> i64_add a (EbRowCount b) = a + EbRowCount b
    \<and> a + EbRowCount b \<le> stop \<and> no_wrap maxRows (a + EbRowCount b) stop"
proof -
  have "i64_add a (EbRowCount b) = a + EbRowCount b" if "0 \<le> EbRowCount b" "EbRowCount b \<le> maxRows"
    using no_wrap_add [OF assms(1) that] .
  then show ?thesis using assms by (auto simp: bad_batch_def no_wrap_def in_i64_def)
qed

lemma read_loop_returns:
  assumes "no_wrap maxRows expected stop" "nat (stop - expected) < fuel"
  shows "\<exists>res chunks. read_loop entry maxRows stop next_batch send n expected first = Some (res, chunks)"
  using assms
proof (induction fuel arbitrary: n expected first)
  case (Suc fuel)
  show ?case
  proof (cases "next_batch n")
    case (NextBatch b)
    show ?thesis
    proof (cases "bad_batch maxRows stop expected b \<or> send n (read_chunk entry first b) \<noteq> None")
      case True
      then show ?thesis by (subst read_loop.simps) (auto simp: NextBatch)
    next
      case False
      with good_batch [OF Suc.prems(1)] have b: "1 \<le> EbRowCount b"
        "i64_add expected (EbRowCount b) = expected + EbRowCount b" "expected + EbRowCount b \<le> stop"
        "no_wrap maxRows (expected + EbRowCount b) stop" by auto
      have "nat (stop - (expected + EbRowCount b)) < fuel" using b(1,3) Suc.prems by linarith
      from Suc.IH [OF b(4) this, of "Suc n" False] show ?thesis
        using False by (subst read_loop.simps) (auto simp: NextBatch b(2))
    qed
  qed (subst read_loop.simps, simp)+
qed simp

lemma read_loop_sound:
  assumes "no_wrap maxRows expected stop" "nat (stop - expected) < fuel"
    and "read_loop entry maxRows stop next_batch send n expected first = Some (res, chunks)"
  shows "(\<exists>reached. reached \<le> stop \<and> batches_cover maxRows expected reached (map ChBatch chunks) \<and> (res = None \<longrightarrow> reached = stop))
    \<and> map ChBatch chunks = map (\<lambda>i. (case next_batch (n + i) of NextBatch b \<Rightarrow> b)) [0..<length chunks]
    \<and> (\<forall>c \<in> set chunks. ChFormat c = SsFormat (TsSession (TtSession entry)))
    \<and> map ChSchema chunks = (if first then (case chunks of [] \<Rightarrow> [] | _ # cs \<Rightarrow>
          Some (SsSchema (TsSession (TtSession entry))) # replicate (length cs) None) else replicate (length chunks) None)"
  using assms
proof (induction fuel arbitrary: n expected first res chunks)
  case (Suc fuel)
  note step = Suc.prems(3) [unfolded read_loop.simps [of _ _ _ _ _ n]]
  show ?case
  proof (cases "next_batch n")
    case (NextBatch b)
    show ?thesis
    proof (cases "bad_batch maxRows stop expected b")
      case True
      then have "chunks = []" "res \<noteq> None" using step by (auto simp: NextBatch)
      then show ?thesis using Suc.prems(1) by (auto simp: no_wrap_def)
    next
      case False
      with good_batch [OF Suc.prems(1)] have b: "EbOffset b = expected" "1 \<le> EbRowCount b" "EbRowCount b \<le> maxRows"
        "i64_add expected (EbRowCount b) = expected + EbRowCount b" "expected + EbRowCount b \<le> stop"
        "no_wrap maxRows (expected + EbRowCount b) stop" by auto
      have chunk: "ChBatch (read_chunk entry first b) = b" "ChFormat (read_chunk entry first b) = SsFormat (TsSession (TtSession entry))"
        "ChSchema (read_chunk entry first b) = (if first then Some (SsSchema (TsSession (TtSession entry))) else None)"
        by (simp_all add: read_chunk_def)
      show ?thesis
      proof (cases "send n (read_chunk entry first b)")
        case None
        obtain cs where cs: "chunks = read_chunk entry first b # cs"
          and rec: "read_loop entry maxRows stop next_batch send (Suc n) (expected + EbRowCount b) False = Some (res, cs)"
          using step False None by (auto simp: NextBatch b(4) split: bind_splits)
        have "nat (stop - (expected + EbRowCount b)) < fuel" using b(2,5) Suc.prems by linarith
        note IH = Suc.IH [OF b(6) this rec]
        have nth: "map (\<lambda>i. (case next_batch (n + i) of NextBatch b \<Rightarrow> b)) [0..<Suc (length cs)]
            = b # map (\<lambda>i. (case next_batch (Suc n + i) of NextBatch b \<Rightarrow> b)) [0..<length cs]"
          by (simp add: upt_conv_Cons map_Suc_upt [symmetric] NextBatch comp_def del: upt_Suc)
        show ?thesis unfolding cs using IH b chunk nth by auto
      next
        case (Some e)
        then have "chunks = [read_chunk entry first b]" "res = Some e" using step False by (auto simp: NextBatch)
        then show ?thesis using b chunk NextBatch by (auto intro: exI [of _ "expected + EbRowCount b"])
      qed
    qed
  next
    case NextEOF
    then have "chunks = []" "res = None \<longrightarrow> expected = stop" using step by (auto split: if_splits)
    then show ?thesis using Suc.prems(1) by (auto simp: no_wrap_def)
  next
    case (NextError e)
    then have "chunks = []" "res \<noteq> None" using step by auto
    then show ?thesis using Suc.prems(1) by (auto simp: no_wrap_def)
  qed
qed simp

text \<open>A stream whose range lies in the rows that the additions of the loop reach without wrapping.\<close>

definition stream_range_ok :: "ReadConfig \<Rightarrow> ReadStream \<Rightarrow> bool" where
  "stream_range_ok config x \<longleftrightarrow>
     0 \<le> SmStartOffset x \<and> SmStartOffset x \<le> SmEndOffset x \<and> 0 < RcMaxRowsPerResponse config
     \<and> in_i64 (SmEndOffset x + RcMaxRowsPerResponse config)"

lemma stream_range_ok_arith:
  assumes "stream_range_ok config x" "0 \<le> off"
  shows "Stream_RowCount x = SmEndOffset x - SmStartOffset x"
    and "off \<le> Stream_RowCount x \<Longrightarrow> i64_add (SmStartOffset x) off = SmStartOffset x + off"
    and "off \<le> Stream_RowCount x \<Longrightarrow> no_wrap (RcMaxRowsPerResponse config) (SmStartOffset x + off) (SmEndOffset x)"
proof -
  show rc: "Stream_RowCount x = SmEndOffset x - SmStartOffset x"
    using assms(1) by (auto simp: Stream_RowCount_def stream_range_ok_def in_i64_def intro!: wrap64_id)
  show "i64_add (SmStartOffset x) off = SmStartOffset x + off" if "off \<le> Stream_RowCount x"
    using assms that by (intro i64_add_exact) (auto simp: rc stream_range_ok_def in_i64_def)
  show "no_wrap (RcMaxRowsPerResponse config) (SmStartOffset x + off) (SmEndOffset x)" if "off \<le> Stream_RowCount x"
    using assms that by (auto simp: rc stream_range_ok_def in_i64_def no_wrap_def)
qed

lemma close_iterator_None: "close_iterator c res = None \<Longrightarrow> res = None"
  by (auto simp: close_iterator_def split: option.splits)

lemma read_rows_cases:
  assumes "gm_get (RvStreams s) (RqStreamName request) = Some entry"
  shows "(\<exists>e. ReadRows request send now s = Some ((Some e, []), s))
    \<or> (\<exists>it :: BatchIterator. 0 \<le> RqOffset request \<and> RqOffset request \<le> Stream_RowCount (TtStream entry) \<and> ReadRows request send now s
        = Option.bind (read_loop entry (RcMaxRowsPerResponse (RvConfig s)) (SmEndOffset (TtStream entry)) (BiNext it) send 0
              (i64_add (SmStartOffset (TtStream entry)) (RqOffset request)) True)
            (\<lambda>(res, chunks). Some ((close_iterator (BiClose it) res, chunks), s)))"
proof (cases "RqStreamName request = [] \<or> RqOffset request < 0 \<or> \<not> now < SsExpireTime (TsSession (TtSession entry))
    \<or> Stream_RowCount (TtStream entry) < RqOffset request")
  case True
  then have "\<exists>e. ReadRows request send now s = Some ((Some e, []), s)"
    by (elim disjE) (auto simp: ReadRows_def assms)
  then show ?thesis ..
next
  case False
  let ?open = "SnOpenRange (TsSnapshot (TtSession entry)) (i64_add (SmStartOffset (TtStream entry)) (RqOffset request))
    (SmEndOffset (TtStream entry)) (RcMaxRowsPerResponse (RvConfig s))"
  consider e where "?open = Inl e" | "?open = Inr None" | it where "?open = Inr (Some it)"
    by (metis old.sum.exhaust option.exhaust)
  then show ?thesis
  proof cases
    case (3 it)
    then show ?thesis using False by (intro disjI2 exI [of _ it]) (simp add: ReadRows_def assms Let_def)
  qed (use False in \<open>simp_all add: ReadRows_def assms Let_def\<close>)
qed

text \<open>
  C24. \<open>ReadRows\<close> on a stream of the service always returns and does not change the service. The batches it sends start at
  the requested offset and follow each other without a gap or an overlap, whatever the snapshot and the
  receiver do; when it succeeds they end at the end of the stream, and only the first carries the schema.
\<close>

theorem read_rows_exact:
  assumes "gm_get (RvStreams s) (RqStreamName request) = Some entry" "stream_range_ok (RvConfig s) (TtStream entry)"
  shows "case ReadRows request send now s of None \<Rightarrow> False
    | Some ((res, chunks), s') \<Rightarrow>
        s' = s
        \<and> (\<exists>reached. batches_cover (RcMaxRowsPerResponse (RvConfig s)) (SmStartOffset (TtStream entry) + RqOffset request)
              reached (map ChBatch chunks)
            \<and> (if res = None then reached = SmEndOffset (TtStream entry) else True))
        \<and> map ChSchema chunks = (case chunks of [] \<Rightarrow> []
            | _ # cs \<Rightarrow> Some (SsSchema (TsSession (TtSession entry))) # replicate (length cs) None)"
proof -
  let ?x = "TtStream entry" and ?off = "RqOffset request" and ?max = "RcMaxRowsPerResponse (RvConfig s)"
  from read_rows_cases [OF assms(1), of send now]
  consider (early) e where "ReadRows request send now s = Some ((Some e, []), s)"
    | (loop) it :: BatchIterator where "0 \<le> ?off" "?off \<le> Stream_RowCount ?x" "ReadRows request send now s
        = Option.bind (read_loop entry ?max (SmEndOffset ?x) (BiNext it) send 0 (i64_add (SmStartOffset ?x) ?off) True)
            (\<lambda>(res, chunks). Some ((close_iterator (BiClose it) res, chunks), s))" by blast
  then show ?thesis
  proof cases
    case (early e)
    then show ?thesis by auto
  next
    case (loop it)
    note a = stream_range_ok_arith [OF assms(2) loop(1)]
    have "nat (SmEndOffset ?x - (SmStartOffset ?x + ?off)) < Suc (nat (SmEndOffset ?x - (SmStartOffset ?x + ?off)))" by simp
    note fuel = a(3) [OF loop(2)] this
    obtain res chunks where r: "read_loop entry ?max (SmEndOffset ?x) (BiNext it) send 0 (SmStartOffset ?x + ?off) True = Some (res, chunks)"
      using read_loop_returns [OF fuel] by blast
    show ?thesis using read_loop_sound [OF fuel r] r a(2) [OF loop(2)] loop(3) close_iterator_None [of "BiClose it" res]
      by auto
  qed
qed

text \<open>The iterator of a list of batches, and the loop on it.\<close>

definition list_iterator :: "EncodedBatch list \<Rightarrow> BatchIterator" where
  "list_iterator bs = \<lparr>BiNext = (\<lambda>i. if i < length bs then NextBatch (bs ! i) else NextEOF), BiClose = None\<rparr>"

lemma read_loop_list:
  assumes "no_wrap maxRows expected stop" "batches_cover maxRows expected stop (drop n bs)"
  shows "\<exists>chunks. read_loop entry maxRows stop (BiNext (list_iterator bs)) (\<lambda>_ _. None) n expected first = Some (None, chunks)
    \<and> map ChBatch chunks = drop n bs"
  using assms
proof (induction "length bs - n" arbitrary: n expected first)
  case 0
  then show ?case by (subst read_loop.simps) (simp add: list_iterator_def)
next
  case (Suc k)
  then have n: "n < length bs" "drop n bs = bs ! n # drop (Suc n) bs" by (simp_all add: Cons_nth_drop_Suc)
  have b: "EbOffset (bs ! n) = expected" "1 \<le> EbRowCount (bs ! n)" "EbRowCount (bs ! n) \<le> maxRows"
    and rest: "batches_cover maxRows (expected + EbRowCount (bs ! n)) stop (drop (Suc n) bs)"
    using Suc.prems(2) by (simp_all add: n(2))
  have add: "i64_add expected (EbRowCount (bs ! n)) = expected + EbRowCount (bs ! n)"
    using no_wrap_add [OF Suc.prems(1)] b by simp
  have good: "\<not> bad_batch maxRows stop expected (bs ! n)"
    using b add batches_cover_le [OF rest] by (simp add: bad_batch_def)
  have "no_wrap maxRows (expected + EbRowCount (bs ! n)) stop" using good_batch [OF Suc.prems(1) good] by simp
  moreover have "k = length bs - Suc n" using Suc.hyps(2) by simp
  ultimately obtain chunks where "read_loop entry maxRows stop (BiNext (list_iterator bs)) (\<lambda>_ _. None) (Suc n)
      (expected + EbRowCount (bs ! n)) False = Some (None, chunks)" "map ChBatch chunks = drop (Suc n) bs"
    using Suc.hyps(1) [OF _ _ rest] by blast
  moreover have "BiNext (list_iterator bs) n = NextBatch (bs ! n)" using n(1) by (simp add: list_iterator_def)
  ultimately show ?case using n good add
    by (subst read_loop.simps) (simp add: read_chunk_def)
qed

text \<open>
  C25. A snapshot that keeps its contract is served in full: when the range is opened by an iterator over batches
  that cover it and every chunk is accepted, \<open>ReadRows\<close> succeeds and sends exactly these batches.
\<close>

theorem read_rows_serves:
  assumes "gm_get (RvStreams s) (RqStreamName request) = Some entry" "stream_range_ok (RvConfig s) (TtStream entry)"
    and "RqStreamName request \<noteq> []" "0 \<le> RqOffset request" "RqOffset request \<le> SmEndOffset (TtStream entry) - SmStartOffset (TtStream entry)"
    and "now < SsExpireTime (TsSession (TtSession entry))"
    and "batches_cover (RcMaxRowsPerResponse (RvConfig s)) (SmStartOffset (TtStream entry) + RqOffset request) (SmEndOffset (TtStream entry)) bs"
    and "SnOpenRange (TsSnapshot (TtSession entry)) (SmStartOffset (TtStream entry) + RqOffset request) (SmEndOffset (TtStream entry))
           (RcMaxRowsPerResponse (RvConfig s)) = Inr (Some (list_iterator bs))"
  shows "\<exists>chunks. ReadRows request (\<lambda>_ _. None) now s = Some ((None, chunks), s) \<and> map ChBatch chunks = bs"
proof -
  note a = stream_range_ok_arith [OF assms(2,4)]
  have off: "RqOffset request \<le> Stream_RowCount (TtStream entry)" using assms(5) a(1) by simp
  from read_loop_list [OF a(3) [OF off], of 0 bs entry True] assms(7) obtain chunks where
    "read_loop entry (RcMaxRowsPerResponse (RvConfig s)) (SmEndOffset (TtStream entry)) (BiNext (list_iterator bs)) (\<lambda>_ _. None) 0
       (SmStartOffset (TtStream entry) + RqOffset request) True = Some (None, chunks)" "map ChBatch chunks = bs" by auto
  moreover have "BiClose (list_iterator bs) = None" by (simp add: list_iterator_def)
  ultimately show ?thesis using assms off a(2) [OF off]
    by (auto simp: ReadRows_def Let_def close_iterator_def)
qed

section \<open>An instance\<close>

definition sample_batches :: "EncodedBatch list" where
  "sample_batches = [\<lparr>EbOffset = 0, EbRowCount = 2, EbSerializedRows = ''ab''\<rparr>, \<lparr>EbOffset = 2, EbRowCount = 1, EbSerializedRows = ''c''\<rparr>]"

definition sample_snapshot :: ReadSnapshot where
  "sample_snapshot =
     \<lparr>SnMetadata = \<lparr>SmSchema = \<lparr>RsFormat = FormatArrow, RsSerialized = ''schema'', RsFingerprint = []\<rparr>,
        SmRowCount = 3, SmEstimatedBytes = 3, SmRetainedBytes = 3\<rparr>,
      SnOpenRange = (\<lambda>_ _ _. Inr (Some (list_iterator sample_batches))), SnClose = None\<rparr>"

definition sample_read_request :: CreateSessionRequest where
  "sample_read_request =
     \<lparr>CqParent = ''projects/p'', CqTable = ''projects/p/datasets/d/tables/t'', CqFormat = FormatArrow, CqSelectedFields = [],
      CqRowRestriction = [], CqSnapshotTime = None, CqMaxStreamCount = 1, CqPreferredMinStreamCount = 0, CqTraceID = []\<rparr>"

definition sample_read_service :: "nat ReadService" where
  "sample_read_service =
     \<lparr>RvConfig = sample_read_config, RvRepository = transientSessionStateRepository, RvRepo = 0, RvSessions = [], RvStreams = [],
      RvReservations = [], RvNextReservationID = 0, RvRetainedSnapshotBytes = 0, RvClosed = False, RvStateReconciled = True\<rparr>"

definition sample_entry :: readStreamState where
  "sample_entry =
     (let m = SnMetadata sample_snapshot; session = new_session sample_read_config sample_read_request 1 m ''s'' 10 in
      \<lparr>TtSession = \<lparr>TsSession = session, TsSnapshot = sample_snapshot, TsRetainedBytes = 3,
         TsRecord = new_session_record sample_read_request m session 10\<rparr>,
       TtStream = \<lparr>SmName = ''x'', SmStartOffset = 0, SmEndOffset = 3\<rparr>\<rparr>)"

abbreviation sample_serving :: "nat ReadService" where
  "sample_serving \<equiv> sample_read_service\<lparr>RvStreams := [(''x'', sample_entry)]\<rparr>"

lemma sample_entry_facts:
  "gm_get (RvStreams sample_serving) ''x'' = Some sample_entry" "TtStream sample_entry = \<lparr>SmName = ''x'', SmStartOffset = 0, SmEndOffset = 3\<rparr>"
  "stream_range_ok sample_read_config \<lparr>SmName = ''x'', SmStartOffset = 0, SmEndOffset = 3\<rparr>" "SsExpireTime (TsSession (TtSession sample_entry)) = 110"
  "RvConfig sample_read_service = sample_read_config" "RcMaxRowsPerResponse sample_read_config = 4" "batches_cover 4 0 3 sample_batches"
  "TsSnapshot (TtSession sample_entry) = sample_snapshot"
  by (simp_all add: sample_entry_def sample_read_service_def sample_read_config_def Let_def new_session_def stream_range_ok_def
      in_i64_def sample_batches_def)

theorem read_rows_exact_witness:
  "(case ReadRows \<lparr>RqStreamName = ''x'', RqOffset = 0\<rparr> (\<lambda>n _. if n = 1 then Some (ReadPlain []) else None) 50 sample_serving of
      None \<Rightarrow> False | Some ((res, chunks), s') \<Rightarrow> \<exists>reached. batches_cover 4 0 reached (map ChBatch chunks))"
  using read_rows_exact [of sample_serving "\<lparr>RqStreamName = ''x'', RqOffset = 0\<rparr>" sample_entry
      "\<lambda>n _. if n = 1 then Some (ReadPlain []) else None" 50]
  by (auto simp add: sample_entry_facts split: option.splits)

theorem read_rows_serves_witness:
  "\<exists>chunks. ReadRows \<lparr>RqStreamName = ''x'', RqOffset = 0\<rparr> (\<lambda>_ _. None) 50 sample_serving = Some ((None, chunks), sample_serving)
    \<and> map ChBatch chunks = sample_batches"
  using read_rows_serves [of sample_serving "\<lparr>RqStreamName = ''x'', RqOffset = 0\<rparr>" sample_entry 50 sample_batches]
  by (simp add: sample_entry_facts sample_snapshot_def)

end
