(* ===== verification/Read_Admission.thy ===== *)
theory Read_Admission
  imports Read_Rows
begin

text \<open>
  Concurrent requests on the Storage Read service, as interleavings of the pieces of code that run under its
  lock, and the admission invariant they keep (\<open>admission.go\<close>): the byte counter is exactly what the
  reservations, the stored sessions and the snapshots being closed hold, within the configured limits.

  A creator between its two locked pieces (the materializer call) is an entry of \<open>RyCreating\<close>; a snapshot that
  \<open>SweepExpired\<close> or \<open>Close\<close> has taken out and not yet released is in \<open>RyClosing\<close>; a reservation that a failed
  creator or \<open>Close\<close> is about to release is in \<open>RyReleasing\<close>.
\<close>

record 'r ReadSystem =
  RySvc :: "'r ReadService"
  RyCreating :: "(sessionReservation \<times> CreateSessionRequest \<times> int) list"
  RyClosing :: "sessionState list"
  RyReleasing :: "sessionReservation list"

datatype ReadEvent =
    EvCreate "go_error option" CreateSessionRequest
  | EvMaterialized nat "go_error option" materialized string time
  | EvRelease nat
  | EvSweep time
  | EvClose time
  | EvCloseSnapshot nat
  | EvReconcile time
  | EvReadRows ReadRowsRequest "nat \<Rightarrow> ReadChunk \<Rightarrow> read_error option" time

definition remove_nth :: "nat \<Rightarrow> 'a list \<Rightarrow> 'a list" where
  "remove_nth i xs = take i xs @ drop (Suc i) xs"

fun read_step :: "ReadEvent \<Rightarrow> 'r ReadSystem \<Rightarrow> 'r ReadSystem" where
  "read_step (EvCreate ctx request) sys =
     (case create_begin ctx request (RySvc sys) of
        (Inl _, s) \<Rightarrow> sys\<lparr>RySvc := s\<rparr>
      | (Inr (reservation, count), s) \<Rightarrow> sys\<lparr>RySvc := s, RyCreating := (reservation, request, count) # RyCreating sys\<rparr>)"
| "read_step (EvMaterialized i ctx answer sid now) sys =
     (if i < length (RyCreating sys) then
        (case RyCreating sys ! i of (reservation, request, count) \<Rightarrow>
           let s = RySvc sys in
           (case create_commit reservation (create_state (RvConfig s) ctx (RvClosed s) request count answer sid now) s of
              (Inl _, s1) \<Rightarrow>
                sys\<lparr>RySvc := s1, RyCreating := remove_nth i (RyCreating sys), RyReleasing := reservation # RyReleasing sys\<rparr>
            | (Inr _, s1) \<Rightarrow> sys\<lparr>RySvc := s1, RyCreating := remove_nth i (RyCreating sys)\<rparr>))
      else sys)"
| "read_step (EvRelease i) sys =
     (if i < length (RyReleasing sys)
      then sys\<lparr>RySvc := releaseReservation (RyReleasing sys ! i) (RySvc sys), RyReleasing := remove_nth i (RyReleasing sys)\<rparr>
      else sys)"
| "read_step (EvSweep now) sys =
     (case sweep_begin now (RySvc sys) of
        (Inl _, s) \<Rightarrow> sys\<lparr>RySvc := s\<rparr>
      | (Inr states, s) \<Rightarrow> sys\<lparr>RySvc := s, RyClosing := states @ RyClosing sys\<rparr>)"
| "read_step (EvClose now) sys =
     (case close_begin now (RySvc sys) of
        ((_, states, reservations), s) \<Rightarrow>
          sys\<lparr>RySvc := s, RyClosing := states @ RyClosing sys, RyReleasing := reservations @ RyReleasing sys\<rparr>)"
| "read_step (EvCloseSnapshot i) sys =
     (if i < length (RyClosing sys)
      then sys\<lparr>RySvc := snd (releaseSnapshotBudget (RyClosing sys ! i) (RySvc sys)), RyClosing := remove_nth i (RyClosing sys)\<rparr>
      else sys)"
| "read_step (EvReconcile now) sys = sys\<lparr>RySvc := snd (ReconcilePersistedSessions now (RySvc sys))\<rparr>"
| "read_step (EvReadRows request send now) sys =
     (case ReadRows request send now (RySvc sys) of None \<Rightarrow> sys | Some (_, s) \<Rightarrow> sys\<lparr>RySvc := s\<rparr>)"

definition read_start :: "'r ReadService \<Rightarrow> 'r ReadSystem" where
  "read_start s = \<lparr>RySvc = s, RyCreating = [], RyClosing = [], RyReleasing = []\<rparr>"

text \<open>
  The runs of a service: any sequence of events from a new service, as long as its 64-bit counter of reservations
  has not come round.
\<close>

definition ids_left :: "'r ReadSystem \<Rightarrow> bool" where
  "ids_left sys \<longleftrightarrow> RvNextReservationID (RySvc sys) < 2 ^ 64 - 1"

inductive read_reachable :: "'r ReadService \<Rightarrow> 'r ReadSystem \<Rightarrow> bool" for s where
  read_init: "read_reachable s (read_start s)"
| read_next: "read_reachable s sys \<Longrightarrow> ids_left sys \<Longrightarrow> read_reachable s (read_step event sys)"

section \<open>Sums over maps\<close>

definition gm_sum :: "('v \<Rightarrow> int) \<Rightarrow> ('k, 'v) gomap \<Rightarrow> int" where
  "gm_sum f m = sum_list (map (f \<circ> snd) m)"

lemma gm_put_new: "gm_get m k = None \<Longrightarrow> gm_put k v m = m @ [(k, v)]"
  by (induction m) (auto split: if_splits)

lemma gm_sum_put [simp]: "gm_get m k = None \<Longrightarrow> gm_sum f (gm_put k v m) = gm_sum f m + f v"
  by (simp add: gm_put_new gm_sum_def)

lemma gm_length_put [simp]: "gm_get m k = None \<Longrightarrow> length (gm_put k v m) = Suc (length m)"
  by (simp add: gm_put_new)

lemma gm_del_absent: "gm_get m k = None \<Longrightarrow> gm_del k m = m"
  by (induction m) (auto split: if_splits)

lemma gm_sum_del: "gm_ok m \<Longrightarrow> gm_get m k = Some v \<Longrightarrow> gm_sum f (gm_del k m) = gm_sum f m - f v"
proof (induction m)
  case (Cons p m)
  then show ?case by (cases p) (auto simp: gm_sum_def gm_del_absent map_of_eq_None_iff)
qed simp

lemma gm_length_del: "gm_ok m \<Longrightarrow> gm_get m k = Some v \<Longrightarrow> Suc (length (gm_del k m)) = length m"
proof (induction m)
  case (Cons p m)
  then show ?case by (cases p) (auto simp: gm_del_absent map_of_eq_None_iff)
qed simp

lemma set_gm_del: "set (gm_del k m) \<subseteq> set m"
  by (auto simp: AList.delete_eq)

lemma set_gm_put: "set (gm_put k v m) \<subseteq> insert (k, v) (set m)"
  by (induction m) auto

lemma gm_sum_nonneg: "list_all (\<lambda>(_, v). 0 \<le> f v) m \<Longrightarrow> 0 \<le> gm_sum f m"
  by (induction m) (auto simp: gm_sum_def)

lemma fold_gm_del: "fold (\<lambda>(_, v). gm_del (g v)) xs m = filter (\<lambda>(k, _). k \<notin> (\<lambda>(_, v). g v) ` set xs) m"
proof (induction xs arbitrary: m)
  case (Cons x xs)
  then show ?case by (cases x) (auto simp: AList.delete_eq intro!: filter_cong)
qed (simp add: filter_True)

lemma gm_remove_filter:
  assumes "gm_ok m" "\<And>k v. (k, v) \<in> set m \<Longrightarrow> g v = k"
  shows "fold (\<lambda>(_, v). gm_del (g v)) (filter P m) m = filter (\<lambda>x. \<not> P x) m"
proof -
  have "k \<in> (\<lambda>(_, v). g v) ` set (filter P m) \<longleftrightarrow> P (k, v)" if "(k, v) \<in> set m" for k v
  proof
    assume "k \<in> (\<lambda>(_, v). g v) ` set (filter P m)"
    then obtain k' v' where "(k', v') \<in> set m" "P (k', v')" "g v' = k" by auto
    moreover from this have "(k, v') \<in> set m" using assms(2) by metis
    ultimately show "P (k, v)" using that assms by (metis eq_key_imp_eq_value)
  qed (use that assms(2) in force)
  then have "(case x of (k, _) \<Rightarrow> k \<notin> (\<lambda>(_, v). g v) ` set (filter P m)) = (\<not> P x)" if "x \<in> set m" for x
    using that by (cases x) (simp only: prod.case)
  then show ?thesis unfolding fold_gm_del by (rule filter_cong [OF refl])
qed

lemma gm_sum_filter: "gm_sum f (filter P m) + gm_sum f (filter (\<lambda>x. \<not> P x) m) = gm_sum f m"
  by (induction m) (auto simp: gm_sum_def)

lemma remove_nth_sum: "i < length xs \<Longrightarrow> sum_list (map f (remove_nth i xs)) = sum_list (map f xs) - (f (xs ! i) :: int)"
  unfolding remove_nth_def by (subst (3) id_take_nth_drop [of i xs]) simp_all

lemma set_remove_nth: "set (remove_nth i xs) \<subseteq> set xs"
  by (auto simp: remove_nth_def dest: in_set_takeD in_set_dropD)

lemma set_remove_nth_insert: "i < length xs \<Longrightarrow> set xs = insert (xs ! i) (set (remove_nth i xs))"
  unfolding remove_nth_def by (subst id_take_nth_drop [of i xs]) auto

section \<open>The admission invariant\<close>

definition budget_ok :: "'r ReadSystem \<Rightarrow> bool" where
  "budget_ok sys \<longleftrightarrow>
     (let s = RySvc sys; c = RvConfig s in
      validateReadConfig c = None \<and> in_i64 (RcMaxTotalSnapshotBytes c)
      \<and> gm_ok (RvSessions s) \<and> gm_ok (RvReservations s) \<and> 0 \<le> RvNextReservationID s
      \<and> (\<forall>(i, r) \<in> set (RvReservations s). SnID r = i \<and> SnBytes r = RcMaxSnapshotBytes c \<and> i \<le> RvNextReservationID s)
      \<and> (\<forall>(n, st) \<in> set (RvSessions s). SsName (TsSession st) = n \<and> 0 \<le> TsRetainedBytes st)
      \<and> (\<forall>st \<in> set (RyClosing sys). 0 \<le> TsRetainedBytes st)
      \<and> gm_sum SnBytes (RvReservations s) + gm_sum TsRetainedBytes (RvSessions s) + sum_list (map TsRetainedBytes (RyClosing sys))
          = RvRetainedSnapshotBytes s
      \<and> RvRetainedSnapshotBytes s \<le> RcMaxTotalSnapshotBytes c
      \<and> int (length (RvSessions s)) + int (length (RvReservations s)) \<le> RcMaxSessions c
      \<and> (\<forall>i \<in> fst ` set (RvReservations s). i \<in> (SnID \<circ> fst) ` set (RyCreating sys) \<or> i \<in> SnID ` set (RyReleasing sys))
      \<and> (RvClosed s \<longrightarrow> RvSessions s = []))"

lemmas budget_okI = budget_ok_def [THEN iffD2, unfolded Let_def]
lemmas budget_okD = budget_ok_def [THEN iffD1, unfolded Let_def]

lemma budget_ok_repo [simp]:
  "budget_ok (sys\<lparr>RySvc := s\<lparr>RvRepo := r\<rparr>\<rparr>) = budget_ok (sys\<lparr>RySvc := s\<rparr>)"
  "budget_ok (sys\<lparr>RySvc := s\<lparr>RvStateReconciled := b\<rparr>\<rparr>) = budget_ok (sys\<lparr>RySvc := s\<rparr>)"
  "budget_ok (sys\<lparr>RySvc := s\<lparr>RvStreams := m\<rparr>\<rparr>) = budget_ok (sys\<lparr>RySvc := s\<rparr>)"
  by (simp_all add: budget_ok_def)

lemma budget_waiting:
  assumes "budget_ok sys"
    and "\<forall>i \<in> fst ` set (RvReservations (RySvc sys)). i \<in> (SnID \<circ> fst) ` set creating \<or> i \<in> SnID ` set releasing"
  shows "budget_ok (sys\<lparr>RyCreating := creating, RyReleasing := releasing\<rparr>)"
  using assms by (simp add: budget_ok_def Let_def)

lemma budget_nonneg:
  assumes "budget_ok sys"
  shows "0 \<le> gm_sum SnBytes (RvReservations (RySvc sys))" "0 \<le> gm_sum TsRetainedBytes (RvSessions (RySvc sys))"
    "0 \<le> sum_list (map TsRetainedBytes (RyClosing sys))"
    "in_i64 (RvRetainedSnapshotBytes (RySvc sys))" "0 \<le> RvRetainedSnapshotBytes (RySvc sys)"
proof -
  note d = budget_okD [OF assms]
  have "0 < RcMaxSnapshotBytes (RvConfig (RySvc sys))" using d by (auto simp: validateReadConfig_def split: if_splits)
  then show a: "0 \<le> gm_sum SnBytes (RvReservations (RySvc sys))"
    using d by (intro gm_sum_nonneg) (auto simp: list_all_iff)
  show b: "0 \<le> gm_sum TsRetainedBytes (RvSessions (RySvc sys))"
    using d by (intro gm_sum_nonneg) (auto simp: list_all_iff)
  show c: "0 \<le> sum_list (map TsRetainedBytes (RyClosing sys))"
    using d by (intro sum_list_nonneg) auto
  show "in_i64 (RvRetainedSnapshotBytes (RySvc sys))" "0 \<le> RvRetainedSnapshotBytes (RySvc sys)"
    using a b c d by (auto simp: in_i64_def)
qed

lemma budget_reserve:
  assumes ok: "budget_ok sys" and ids: "ids_left sys" and res: "reserveSession ctx (RySvc sys) = (Inr reservation, s)"
  shows "budget_ok (sys\<lparr>RySvc := s, RyCreating := (reservation, request, count) # RyCreating sys\<rparr>)"
proof -
  let ?s = "RySvc sys"
  let ?i = "RvNextReservationID ?s + 1" and ?max = "RcMaxSnapshotBytes (RvConfig ?s)"
  note d = budget_okD [OF ok] and nn = budget_nonneg [OF ok]
  have i: "?i mod 2 ^ 64 = ?i" using d ids by (simp add: ids_left_def)
  have adm: "admission_reason ?s = None" and r: "reservation = \<lparr>SnID = ?i, SnBytes = ?max\<rparr>"
    and s: "s = ?s\<lparr>RvNextReservationID := ?i, RvReservations := gm_put ?i reservation (RvReservations ?s),
                RvRetainedSnapshotBytes := i64_add (RvRetainedSnapshotBytes ?s) ?max\<rparr>"
    using res i by (auto simp: reserveSession_def Let_def split: option.splits prod.splits)
  have "wrap64 (RcMaxTotalSnapshotBytes (RvConfig ?s) - RvRetainedSnapshotBytes ?s)
      = RcMaxTotalSnapshotBytes (RvConfig ?s) - RvRetainedSnapshotBytes ?s"
    using d nn by (intro wrap64_id) (auto simp: in_i64_def)
  then have room: "RvRetainedSnapshotBytes ?s + ?max \<le> RcMaxTotalSnapshotBytes (RvConfig ?s)"
    "int (length (RvSessions ?s)) + int (length (RvReservations ?s)) < RcMaxSessions (RvConfig ?s)" "\<not> RvClosed ?s"
    using adm by (auto simp: admission_reason_def split: if_splits)
  have new: "gm_get (RvReservations ?s) ?i = None" using d by (force simp: map_of_eq_None_iff)
  have add: "i64_add (RvRetainedSnapshotBytes ?s) ?max = RvRetainedSnapshotBytes ?s + ?max"
    using room(1) nn d by (intro i64_add_exact) (auto simp: in_i64_def validateReadConfig_def split: if_splits)
  show ?thesis unfolding budget_ok_def Let_def
    using d room by (auto simp: s add gm_sum_def gm_put_new [OF new] r)
qed

lemma create_state_bytes:
  assumes "create_state config ctx closed request count answer i now = Inr state"
  shows "0 \<le> TsRetainedBytes state" "TsRetainedBytes state \<le> RcMaxSnapshotBytes config"
  using assms by (auto simp: create_state_def validateSnapshotMetadata_def Let_def split: materialized.splits sum.splits if_splits)

lemma commitReservedSession_Some: "commitReservedSession reservation state s = (Some e, s') \<Longrightarrow> \<exists>r. s' = s\<lparr>RvRepo := r\<rparr>"
  by (auto simp: commitReservedSession_def persistSession_def split: option.splits if_splits prod.splits intro: exI [of _ "RvRepo s"])

lemma commitReservedSession_None:
  assumes "commitReservedSession reservation state s = (None, s')"
  shows "\<exists>current r. gm_get (RvReservations s) (SnID reservation) = Some current \<and> \<not> RvClosed s
    \<and> TsRetainedBytes state \<le> SnBytes current \<and> gm_get (RvSessions s) (SsName (TsSession state)) = None
    \<and> SpCreateSession (RvRepository s) (TsRecord state) (RvRepo s) = (None, r)
    \<and> s' = s\<lparr>RvRepo := r, RvRetainedSnapshotBytes := wrap64 (RvRetainedSnapshotBytes s - SnBytes current + TsRetainedBytes state),
             RvReservations := gm_del (SnID current) (RvReservations s),
             RvSessions := gm_put (SsName (TsSession state)) state (RvSessions s),
             RvStreams := put_read_streams state (SsStreams (TsSession state)) (RvStreams s)\<rparr>"
  using assms by (auto simp: commitReservedSession_def persistSession_def split: option.splits if_splits prod.splits)

lemma gm_sum_ge: "gm_ok m \<Longrightarrow> list_all (\<lambda>(_, v). 0 \<le> f v) m \<Longrightarrow> gm_get m k = Some v \<Longrightarrow> f v \<le> gm_sum f m"
  using gm_sum_del [of m k v f] gm_sum_nonneg [of f "gm_del k m"] set_gm_del [of k m] by (force simp: list_all_iff)

lemma reservation_row:
  assumes "budget_ok sys" "gm_get (RvReservations (RySvc sys)) i = Some current"
  shows "SnID current = i" "0 \<le> SnBytes current" "SnBytes current \<le> gm_sum SnBytes (RvReservations (RySvc sys))"
proof -
  note d = budget_okD [OF assms(1)]
  have pos: "0 < RcMaxSnapshotBytes (RvConfig (RySvc sys))" using d by (auto simp: validateReadConfig_def split: if_splits)
  have "(i, current) \<in> set (RvReservations (RySvc sys))" using assms(2) by (rule map_of_SomeD)
  then show "SnID current = i" "0 \<le> SnBytes current" using d pos by force+
  show "SnBytes current \<le> gm_sum SnBytes (RvReservations (RySvc sys))"
    using d pos assms(2) by (intro gm_sum_ge) (auto simp: list_all_iff)
qed

text \<open>Taking a reservation out of the map, its bytes with it.\<close>

lemma budget_drop_reservation:
  assumes ok: "budget_ok sys" and cur: "gm_get (RvReservations (RySvc sys)) i = Some current"
    and rest: "\<And>j. j \<noteq> i \<Longrightarrow> j \<in> (SnID \<circ> fst) ` set (RyCreating sys) \<or> j \<in> SnID ` set (RyReleasing sys)
        \<Longrightarrow> j \<in> (SnID \<circ> fst) ` set creating \<or> j \<in> SnID ` set releasing"
  shows "budget_ok (sys\<lparr>RySvc := (RySvc sys)\<lparr>RvRetainedSnapshotBytes := RvRetainedSnapshotBytes (RySvc sys) - SnBytes current,
      RvReservations := gm_del i (RvReservations (RySvc sys))\<rparr>, RyCreating := creating, RyReleasing := releasing\<rparr>)"
proof -
  let ?m = "RvReservations (RySvc sys)"
  note d = budget_okD [OF ok] and row = reservation_row [OF ok cur]
  have m: "gm_ok ?m" using d by simp
  have sub: "set (gm_del i ?m) \<subseteq> set ?m" by (rule set_gm_del)
  have ne: "j \<noteq> i" if "j \<in> fst ` set (gm_del i ?m)" for j using that by (auto simp: AList.delete_eq)
  have "\<forall>j \<in> fst ` set (gm_del i ?m). j \<in> (SnID \<circ> fst) ` set creating \<or> j \<in> SnID ` set releasing"
  proof
    fix j assume j: "j \<in> fst ` set (gm_del i ?m)"
    then have "j \<in> fst ` set ?m" using sub by blast
    then have "j \<in> (SnID \<circ> fst) ` set (RyCreating sys) \<or> j \<in> SnID ` set (RyReleasing sys)" using d by blast
    then show "j \<in> (SnID \<circ> fst) ` set creating \<or> j \<in> SnID ` set releasing" by (rule rest [OF ne [OF j]])
  qed
  moreover have "\<forall>(j, r) \<in> set (gm_del i ?m). SnID r = j \<and> SnBytes r = RcMaxSnapshotBytes (RvConfig (RySvc sys)) \<and> j \<le> RvNextReservationID (RySvc sys)"
    using d sub by blast
  ultimately show ?thesis unfolding budget_ok_def Let_def
    using d row gm_sum_del [OF m cur, of SnBytes] gm_length_del [OF m cur] by simp
qed

lemma budget_commit:
  assumes ok: "budget_ok sys" and com: "commitReservedSession reservation state (RySvc sys) = (None, s)"
    and bytes: "0 \<le> TsRetainedBytes state"
    and rest: "\<And>j. j \<noteq> SnID reservation \<Longrightarrow> j \<in> (SnID \<circ> fst) ` set (RyCreating sys) \<Longrightarrow> j \<in> (SnID \<circ> fst) ` set creating"
  shows "budget_ok (sys\<lparr>RySvc := s, RyCreating := creating\<rparr>)"
proof -
  let ?s = "RySvc sys" and ?n = "SsName (TsSession state)"
  obtain current r where cur: "gm_get (RvReservations ?s) (SnID reservation) = Some current"
    and c: "\<not> RvClosed ?s" "TsRetainedBytes state \<le> SnBytes current" "gm_get (RvSessions ?s) ?n = None"
    and s: "s = ?s\<lparr>RvRepo := r, RvRetainedSnapshotBytes := wrap64 (RvRetainedSnapshotBytes ?s - SnBytes current + TsRetainedBytes state),
             RvReservations := gm_del (SnID current) (RvReservations ?s), RvSessions := gm_put ?n state (RvSessions ?s),
             RvStreams := put_read_streams state (SsStreams (TsSession state)) (RvStreams ?s)\<rparr>"
    using commitReservedSession_None [OF com] by blast
  note d = budget_okD [OF ok] and row = reservation_row [OF ok cur] and nn = budget_nonneg [OF ok]
  let ?mid = "sys\<lparr>RySvc := ?s\<lparr>RvRetainedSnapshotBytes := RvRetainedSnapshotBytes ?s - SnBytes current,
      RvReservations := gm_del (SnID reservation) (RvReservations ?s)\<rparr>, RyCreating := creating, RyReleasing := RyReleasing sys\<rparr>"
  have "budget_ok ?mid" by (rule budget_drop_reservation [OF ok cur]) (use rest in blast)
  note m = budget_okD [OF this]
  have w: "wrap64 (RvRetainedSnapshotBytes ?s - SnBytes current + TsRetainedBytes state)
      = RvRetainedSnapshotBytes ?s - SnBytes current + TsRetainedBytes state"
    using d row nn bytes c(2) by (intro wrap64_id) (auto simp: in_i64_def)
  have len: "Suc (length (gm_del (SnID reservation) (RvReservations ?s))) = length (RvReservations ?s)"
    using d cur by (intro gm_length_del) auto
  show ?thesis unfolding budget_ok_def Let_def
    using m c d bytes len by (auto simp: s w row(1) gm_put_new [OF c(3)] gm_sum_def)
qed

lemma budget_release:
  assumes ok: "budget_ok sys"
    and rest: "\<And>j. j \<noteq> SnID reservation \<Longrightarrow> j \<in> SnID ` set (RyReleasing sys) \<Longrightarrow> j \<in> SnID ` set releasing"
  shows "budget_ok (sys\<lparr>RySvc := releaseReservation reservation (RySvc sys), RyReleasing := releasing\<rparr>)"
proof (cases "gm_get (RvReservations (RySvc sys)) (SnID reservation)")
  case None
  have "\<forall>i \<in> fst ` set (RvReservations (RySvc sys)). i \<in> (SnID \<circ> fst) ` set (RyCreating sys) \<or> i \<in> SnID ` set releasing"
  proof
    fix i assume i: "i \<in> fst ` set (RvReservations (RySvc sys))"
    then have "i \<noteq> SnID reservation" using None by (metis map_of_eq_None_iff)
    then show "i \<in> (SnID \<circ> fst) ` set (RyCreating sys) \<or> i \<in> SnID ` set releasing"
      using budget_okD [OF ok] i rest by blast
  qed
  then have "budget_ok (sys\<lparr>RyCreating := RyCreating sys, RyReleasing := releasing\<rparr>)" by (rule budget_waiting [OF ok])
  then show ?thesis using None by (simp add: releaseReservation_def)
next
  case (Some current)
  note row = reservation_row [OF ok Some] and nn = budget_nonneg [OF ok] and d = budget_okD [OF ok]
  have le: "\<not> RvRetainedSnapshotBytes (RySvc sys) < SnBytes current" using row(3) nn d by linarith
  have "releaseReservation reservation (RySvc sys) = (RySvc sys)\<lparr>RvRetainedSnapshotBytes := RvRetainedSnapshotBytes (RySvc sys) - SnBytes current,
      RvReservations := gm_del (SnID reservation) (RvReservations (RySvc sys))\<rparr>"
    using le row(1) by (simp add: releaseReservation_def Some)
  then show ?thesis using budget_drop_reservation [OF ok Some, of "RyCreating sys" releasing] rest by auto
qed

lemma ended_bytes [simp]: "TsRetainedBytes (ended to t st) = TsRetainedBytes st" "TsSession (ended to t st) = TsSession st"
  by (simp_all add: ended_def)

lemma transitionSessions_repo: "transitionSessions names to t s = (res, s') \<Longrightarrow> \<exists>r. s' = s\<lparr>RvRepo := r\<rparr>"
  by (auto simp: transitionSessions_def split: if_splits prod.splits option.splits intro: exI [of _ "RvRepo s"])

lemma sweep_begin_Inr:
  assumes "sweep_begin now s = (Inr states, s')"
  shows "\<exists>r. let expired = filter (\<lambda>(_, st). \<not> now < SsExpireTime (TsSession st)) (RvSessions s) in
    transitionSessions (map fst expired) SessionExpired now s = (None, s\<lparr>RvRepo := r\<rparr>)
    \<and> states = map (ended SessionExpired now \<circ> snd) expired
    \<and> s' = s\<lparr>RvRepo := r, RvSessions := fold (\<lambda>(_, st). gm_del (SsName (TsSession st))) expired (RvSessions s),
             RvStreams := drop_streams (map snd expired) (RvStreams s)\<rparr>"
  using assms by (auto simp: sweep_begin_def Let_def split: prod.splits option.splits dest!: transitionSessions_repo)

lemma sweep_begin_Inl: "sweep_begin now s = (Inl e, s') \<Longrightarrow> \<exists>r. s' = s\<lparr>RvRepo := r\<rparr>"
  by (auto simp: sweep_begin_def Let_def split: prod.splits option.splits dest!: transitionSessions_repo)

lemma close_begin_cases:
  assumes "close_begin now s = ((e, states, reservations), s')"
  shows "\<exists>r. transitionSessions (map (SsName \<circ> TsSession \<circ> snd) (RvSessions s)) SessionUnavailable now (s\<lparr>RvClosed := True\<rparr>)
      = (e, s\<lparr>RvClosed := True, RvRepo := r\<rparr>)
    \<and> map TsRetainedBytes states = map (TsRetainedBytes \<circ> snd) (RvSessions s)
    \<and> reservations = map snd (RvReservations s) \<and> s' = s\<lparr>RvClosed := True, RvRepo := r, RvSessions := [], RvStreams := []\<rparr>"
  using assms by (auto simp: close_begin_def Let_def comp_def split: prod.splits if_splits dest!: transitionSessions_repo)

lemma budget_sweep:
  assumes ok: "budget_ok sys" and sw: "sweep_begin now (RySvc sys) = (Inr states, s)"
  shows "budget_ok (sys\<lparr>RySvc := s, RyClosing := states @ RyClosing sys\<rparr>)"
proof -
  let ?P = "\<lambda>(_, st). \<not> now < SsExpireTime (TsSession st)" and ?m = "RvSessions (RySvc sys)"
  note d = budget_okD [OF ok]
  obtain r where states: "states = map (ended SessionExpired now \<circ> snd) (filter ?P ?m)"
    and s: "s = (RySvc sys)\<lparr>RvRepo := r, RvSessions := fold (\<lambda>(_, st). gm_del (SsName (TsSession st))) (filter ?P ?m) ?m,
             RvStreams := drop_streams (map snd (filter ?P ?m)) (RvStreams (RySvc sys))\<rparr>"
    using sweep_begin_Inr [OF sw] by (auto simp: Let_def)
  have m: "fold (\<lambda>(_, st). gm_del (SsName (TsSession st))) (filter ?P ?m) ?m = filter (\<lambda>x. \<not> ?P x) ?m"
    using d by (intro gm_remove_filter) auto
  have "sum_list (map TsRetainedBytes states) = gm_sum TsRetainedBytes (filter ?P ?m)"
    by (simp add: states gm_sum_def comp_def)
  moreover have "gm_ok (filter (\<lambda>x. \<not> ?P x) ?m)" using d by (simp add: distinct_map_filter)
  moreover have "\<forall>st \<in> set states. 0 \<le> TsRetainedBytes st" using d by (force simp: states)
  moreover have "\<forall>(n, st) \<in> set (filter (\<lambda>x. \<not> ?P x) ?m). SsName (TsSession st) = n \<and> 0 \<le> TsRetainedBytes st" using d by auto
  moreover have "int (length (filter (\<lambda>x. \<not> ?P x) ?m)) + int (length (RvReservations (RySvc sys))) \<le> RcMaxSessions (RvConfig (RySvc sys))"
    using d length_filter_le [of "\<lambda>x. \<not> ?P x" ?m] by linarith
  ultimately show ?thesis unfolding budget_ok_def Let_def
    using d gm_sum_filter [of TsRetainedBytes ?P ?m] by (auto simp: s m)
qed

lemma budget_close:
  assumes ok: "budget_ok sys" and cl: "close_begin now (RySvc sys) = ((e, states, reservations), s)"
  shows "budget_ok (sys\<lparr>RySvc := s, RyClosing := states @ RyClosing sys, RyReleasing := reservations @ RyReleasing sys\<rparr>)"
proof -
  note d = budget_okD [OF ok]
  obtain r where states: "map TsRetainedBytes states = map (TsRetainedBytes \<circ> snd) (RvSessions (RySvc sys))"
    and s: "s = (RySvc sys)\<lparr>RvClosed := True, RvRepo := r, RvSessions := [], RvStreams := []\<rparr>"
    using close_begin_cases [OF cl] by blast
  have "\<forall>b \<in> set (map TsRetainedBytes states). 0 \<le> b" unfolding states using d by auto
  then have "\<forall>st \<in> set states. 0 \<le> TsRetainedBytes st" by simp
  then show ?thesis unfolding budget_ok_def Let_def using d states by (auto simp: s gm_sum_def)
qed

lemma closing_within:
  assumes "budget_ok sys" "st \<in> set (RyClosing sys)"
  shows "TsRetainedBytes st \<le> RvRetainedSnapshotBytes (RySvc sys)"
proof -
  note d = budget_okD [OF assms(1)] and nn = budget_nonneg [OF assms(1)]
  have "TsRetainedBytes st \<le> sum_list (map TsRetainedBytes (RyClosing sys))"
    using d assms(2) by (intro member_le_sum_list) auto
  then show ?thesis using d nn by linarith
qed

lemma budget_close_snapshot:
  assumes ok: "budget_ok sys" and i: "i < length (RyClosing sys)"
  shows "budget_ok (sys\<lparr>RySvc := snd (releaseSnapshotBudget (RyClosing sys ! i) (RySvc sys)), RyClosing := remove_nth i (RyClosing sys)\<rparr>)"
proof -
  note d = budget_okD [OF ok]
  have "TsRetainedBytes (RyClosing sys ! i) \<le> RvRetainedSnapshotBytes (RySvc sys)" "0 \<le> TsRetainedBytes (RyClosing sys ! i)"
    using closing_within [OF ok] i d by auto
  then show ?thesis unfolding budget_ok_def Let_def
    using d remove_nth_sum [OF i, of TsRetainedBytes] set_remove_nth [of i "RyClosing sys"]
    by (auto simp: releaseSnapshotBudget_def)
qed

lemma budget_service_repo: "budget_ok sys \<Longrightarrow> s' = (RySvc sys)\<lparr>RvRepo := r\<rparr> \<Longrightarrow> budget_ok (sys\<lparr>RySvc := s'\<rparr>)"
  by simp

lemma create_begin_Inl: "create_begin ctx request s = (Inl e, s') \<Longrightarrow> s' = s"
  by (auto simp: create_begin_def reserveSession_def Let_def split: option.splits sum.splits prod.splits)

lemma create_begin_Inr:
  "create_begin ctx request s = (Inr (reservation, count), s') \<Longrightarrow>
     reserveSession ctx s = (Inr reservation, s') \<and> validateCreateRequest request = None
     \<and> negotiateStreamCount (RvConfig s) (CqMaxStreamCount request) (CqPreferredMinStreamCount request) = Inr count"
  by (auto simp: create_begin_def split: option.splits sum.splits prod.splits)

lemma persistedStreamError_repo: "persistedStreamError name s = (e, s') \<Longrightarrow> \<exists>r. s' = s\<lparr>RvRepo := r\<rparr>"
  by (auto simp: persistedStreamError_def split: prod.splits sum.splits)

lemma ReadRows_repo:
  assumes "ReadRows request send now s = Some (out, s')"
  shows "\<exists>r. s' = s\<lparr>RvRepo := r\<rparr>"
proof (cases "gm_get (RvStreams s) (RqStreamName request)")
  case None
  then show ?thesis using assms
    by (auto simp: ReadRows_def split: if_splits prod.splits dest!: persistedStreamError_repo intro: exI [of _ "RvRepo s"])
next
  case (Some entry)
  from read_rows_cases [OF this, of send now] have "s' = s" using assms by (auto split: bind_splits)
  then show ?thesis by (auto intro: exI [of _ "RvRepo s"])
qed

lemma budget_materialized:
  assumes ok: "budget_ok sys" and i: "i < length (RyCreating sys)"
  shows "budget_ok (read_step (EvMaterialized i ctx answer sid now) sys)"
proof -
  obtain reservation request count where c: "RyCreating sys ! i = (reservation, request, count)" by (cases "RyCreating sys ! i")
  let ?s = "RySvc sys"
  let ?st = "create_state (RvConfig ?s) ctx (RvClosed ?s) request count answer sid now"
  have creating: "(SnID \<circ> fst) ` set (RyCreating sys) = insert (SnID reservation) ((SnID \<circ> fst) ` set (remove_nth i (RyCreating sys)))"
    by (subst set_remove_nth_insert [OF i]) (simp add: c)
  have failed: "budget_ok (sys\<lparr>RySvc := ?s\<lparr>RvRepo := r\<rparr>, RyCreating := remove_nth i (RyCreating sys), RyReleasing := reservation # RyReleasing sys\<rparr>)" for r
    using budget_waiting [OF ok, of "remove_nth i (RyCreating sys)" "reservation # RyReleasing sys"] budget_okD [OF ok] creating
    by (auto simp: budget_ok_def Let_def)
  show ?thesis
  proof (cases "create_commit reservation ?st ?s")
    case (Pair res s1)
    show ?thesis
    proof (cases res)
      case (Inl e)
      then have "\<exists>r. s1 = ?s\<lparr>RvRepo := r\<rparr>" using Pair
        by (auto simp: create_commit_def split: sum.splits prod.splits option.splits dest!: commitReservedSession_Some
            intro: exI [of _ "RvRepo ?s"])
      then show ?thesis using failed i c Pair Inl by (auto simp: Let_def)
    next
      case (Inr session)
      then obtain state where st: "?st = Inr state" "commitReservedSession reservation state ?s = (None, s1)"
        using Pair by (auto simp: create_commit_def split: sum.splits prod.splits option.splits)
      have "budget_ok (sys\<lparr>RySvc := s1, RyCreating := remove_nth i (RyCreating sys)\<rparr>)"
        by (rule budget_commit [OF ok st(2) create_state_bytes(1) [OF st(1)]]) (use creating in blast)
      then show ?thesis using i c Pair Inr by (simp add: Let_def)
    qed
  qed
qed

lemma budget_step:
  assumes ok: "budget_ok sys" and ids: "ids_left sys"
  shows "budget_ok (read_step event sys)"
proof (cases event)
  case (EvCreate ctx request)
  show ?thesis
  proof (cases "create_begin ctx request (RySvc sys)")
    case (Pair res s)
    then show ?thesis using EvCreate ok create_begin_Inl [of ctx request "RySvc sys"]
        create_begin_Inr [of ctx request "RySvc sys"] budget_reserve [OF ok ids]
      by (cases res) auto
  qed
next
  case (EvMaterialized i ctx answer sid now)
  then show ?thesis using budget_materialized [OF ok] ok by (cases "i < length (RyCreating sys)") auto
next
  case (EvRelease i)
  then show ?thesis using ok set_remove_nth_insert [of i "RyReleasing sys"]
    by (auto intro!: budget_release)
next
  case (EvSweep now)
  then show ?thesis using ok budget_sweep [OF ok]
    by (auto split: prod.splits sum.splits dest!: sweep_begin_Inl intro: budget_service_repo)
next
  case (EvClose now)
  then show ?thesis using budget_close [OF ok] by (auto split: prod.splits)
next
  case (EvCloseSnapshot i)
  then show ?thesis using ok budget_close_snapshot [OF ok] by simp
next
  case (EvReconcile now)
  then show ?thesis using ok
    by (auto simp: ReconcilePersistedSessions_def budget_ok_def Let_def split: prod.splits sum.splits)
next
  case (EvReadRows request send now)
  then show ?thesis using ok
    by (auto split: option.splits prod.splits dest!: ReadRows_repo intro: budget_service_repo)
qed

lemma budget_start:
  assumes "ReadService_New config repository state = Inr s" "in_i64 (RcMaxTotalSnapshotBytes config)"
  shows "budget_ok (read_start s)"
  using assms by (auto simp: ReadService_New_def budget_ok_def read_start_def Let_def gm_sum_def validateReadConfig_def
      split: option.splits if_splits)

lemma budget_reachable: "read_reachable s sys \<Longrightarrow> budget_ok (read_start s) \<Longrightarrow> budget_ok sys"
  by (induction rule: read_reachable.induct) (auto intro: budget_step)

text \<open>
  C22. The snapshot budget is exact under every interleaving of requests, sweeps, shutdown and port answers: the bytes
  accounted are those of the reservations, the stored sessions and the snapshots being closed, they never
  exceed the configured total, sessions and reservations never exceed the configured count, closing a snapshot never
  underflows, and once the requests in flight are done nothing stays reserved: after a shutdown the budget is zero.
\<close>

theorem read_budget_exact:
  assumes "ReadService_New config repository state = Inr s0" "in_i64 (RcMaxTotalSnapshotBytes config)" "read_reachable s0 sys"
  shows "RvRetainedSnapshotBytes (RySvc sys)
      = gm_sum SnBytes (RvReservations (RySvc sys)) + gm_sum TsRetainedBytes (RvSessions (RySvc sys)) + sum_list (map TsRetainedBytes (RyClosing sys))
    \<and> 0 \<le> RvRetainedSnapshotBytes (RySvc sys) \<and> RvRetainedSnapshotBytes (RySvc sys) \<le> RcMaxTotalSnapshotBytes (RvConfig (RySvc sys))
    \<and> int (length (RvSessions (RySvc sys))) + int (length (RvReservations (RySvc sys))) \<le> RcMaxSessions (RvConfig (RySvc sys))
    \<and> list_all (\<lambda>st. fst (releaseSnapshotBudget st (RySvc sys)) = None) (RyClosing sys)
    \<and> (RyCreating sys = [] \<and> RyReleasing sys = [] \<longrightarrow> RvReservations (RySvc sys) = [])
    \<and> (RvClosed (RySvc sys) \<and> RyCreating sys = [] \<and> RyReleasing sys = [] \<and> RyClosing sys = [] \<longrightarrow> RvRetainedSnapshotBytes (RySvc sys) = 0)"
proof -
  have ok: "budget_ok sys" using budget_reachable [OF assms(3) budget_start [OF assms(1,2)]] .
  note d = budget_okD [OF ok]
  have "fst (releaseSnapshotBudget st (RySvc sys)) = None" if "st \<in> set (RyClosing sys)" for st
    using closing_within [OF ok that] by (simp add: releaseSnapshotBudget_def)
  moreover have res: "RvReservations (RySvc sys) = []" if "RyCreating sys = []" "RyReleasing sys = []"
    using d that by auto
  moreover have "RvRetainedSnapshotBytes (RySvc sys) = 0"
    if "RvClosed (RySvc sys)" "RyCreating sys = []" "RyReleasing sys = []" "RyClosing sys = []"
    using d that res [OF that(2,3)] by (auto simp: gm_sum_def)
  ultimately show ?thesis using d budget_nonneg [OF ok] by (simp add: list_all_iff)
qed

definition sample_read_system :: "nat ReadSystem" where
  "sample_read_system = read_step (EvClose 50) (read_step (EvCreate None sample_read_request) (read_start sample_read_service))"

lemma sample_read_new: "ReadService_New sample_read_config None (0 :: nat) = Inr sample_read_service"
  using sample_read_config_ok by (simp add: ReadService_New_def sample_read_service_def)

theorem read_budget_exact_witness:
  "\<exists>sys. read_reachable sample_read_service sys \<and> RvClosed (RySvc sys) \<and> RvReservations (RySvc sys) \<noteq> []
    \<and> RvRetainedSnapshotBytes (RySvc sys) = gm_sum SnBytes (RvReservations (RySvc sys)) + gm_sum TsRetainedBytes (RvSessions (RySvc sys))
        + sum_list (map TsRetainedBytes (RyClosing sys))
    \<and> RvRetainedSnapshotBytes (RySvc sys) \<le> RcMaxTotalSnapshotBytes (RvConfig (RySvc sys))"
proof -
  let ?sys = sample_read_system
  have r: "read_reachable sample_read_service ?sys" unfolding sample_read_system_def
    by (intro read_next read_init) (code_simp, code_simp)
  have c: "RvClosed (RySvc ?sys)" "RvReservations (RySvc ?sys) \<noteq> []" unfolding sample_read_system_def by (code_simp, code_simp)
  have "in_i64 (RcMaxTotalSnapshotBytes sample_read_config)" by code_simp
  from read_budget_exact [OF sample_read_new this r] r c show ?thesis by blast
qed

end
