(* ===== verification/Read_Repository.thy ===== *)
theory Read_Repository
  imports Read_Ports Write_Repository
begin

text \<open>
  \<open>internal/adapters/sqlite/read_sessions.go\<close> with the tables, CHECK constraints, keys and triggers of
  migration 3 in \<open>internal/adapters/sqlite/state.go\<close>: the durable lifecycle of read sessions behind the
  \<open>SessionStateRepository\<close> port of the Storage Read service.

  A row of \<open>bqemu_read_sessions\<close> is a session record with its times as they are stored; its list of
  streams stands for the column \<open>stream_count\<close>. The streams table maps a stream name to its
  session, its index and its range. As in \<open>Write_Repository\<close>, the engine error that awaits each coming
  call is listed in the database record, and a failed transaction leaves the tables as they were.
\<close>

section \<open>Tables\<close>

record ReadDB =
  RdSessions :: "(string, SessionRecord) gomap"
  RdStreams :: "(string, string \<times> nat \<times> ReadStream) gomap"
  RdFaults :: "go_error option list"

definition read_session_values :: "SessionRecord \<Rightarrow> SessionRecord" where
  "read_session_values r =
     r\<lparr>SdCreatedAt := db_time (SdCreatedAt r), SdExpireTime := db_time (SdExpireTime r),
       SdSnapshotTime := map_option db_time (SdSnapshotTime r),
       SdLifecycleUpdatedAt := db_time (SdLifecycleUpdatedAt r)\<rparr>"

definition read_sessions_CHECK :: "SessionRecord \<Rightarrow> bool" where
  "read_sessions_CHECK r \<longleftrightarrow>
     (SdFormat r = FormatArrow \<or> SdFormat r = FormatAvro)
     \<and> 0 \<le> SdRowRestrictionBytes r \<and> SdStreams r \<noteq> [] \<and> SdCreatedAt r < SdExpireTime r
     \<and> 0 \<le> SdRetainedRowCount r \<and> 0 \<le> SdRetainedBytes r \<and> 0 \<le> SdEstimatedBytesScanned r
     \<and> (SdLifecycle r = SessionActive \<or> SdLifecycle r = SessionExpired \<or> SdLifecycle r = SessionUnavailable)
     \<and> SdCreatedAt r \<le> SdLifecycleUpdatedAt r
     \<and> 1 \<le> sqlite_length (SdName r) \<and> sqlite_length (SdName r) \<le> 2048
     \<and> 1 \<le> sqlite_length (SdTable r) \<and> sqlite_length (SdTable r) \<le> 2048
     \<and> fingerprint_text (SdRowRestrictionDigest r) \<and> fingerprint_text (SdSchemaFingerprint r)"

definition read_streams_CHECK :: "ReadStream \<Rightarrow> bool" where
  "read_streams_CHECK s \<longleftrightarrow>
     0 \<le> SmStartOffset s \<and> SmStartOffset s \<le> SmEndOffset s
     \<and> 1 \<le> sqlite_length (SmName s) \<and> sqlite_length (SmName s) \<le> 2304"

text \<open>\<open>bqemu_read_session_lifecycle_transition\<close>; no statement updates a column of the identity trigger.\<close>

definition read_lifecycle_trigger :: "SessionLifecycle \<Rightarrow> SessionLifecycle \<Rightarrow> bool" where
  "read_lifecycle_trigger old new \<longleftrightarrow>
     old = new \<or> (old = SessionActive \<and> (new = SessionExpired \<or> new = SessionUnavailable))"

section \<open>Validation\<close>

definition validSHA256Fingerprint :: "string \<Rightarrow> bool" where
  "validSHA256Fingerprint v \<longleftrightarrow>
     length v = 71 \<and> strings_HasPrefix v ''sha256:'' \<and> list_all is_hex (drop 7 v)"

text \<open>The loop of \<open>validateReadSessionRecord\<close> over the streams; \<open>previous\<close> is the end of the stream before.\<close>

fun read_stream_loop :: "string \<Rightarrow> string list \<Rightarrow> int option \<Rightarrow> ReadStream list \<Rightarrow> go_error option" where
  "read_stream_loop session seen previous [] = None"
| "read_stream_loop session seen previous (s # ss) =
     (if \<not> strings_HasPrefix (SmName s) (session @ ''/streams/'') \<or> SmStartOffset s < 0
         \<or> SmEndOffset s < SmStartOffset s
      then Some [ErrSessionStateConflict]
      else if SmName s \<in> set seen then Some [ErrSessionStateConflict]
      else if (case previous of Some e \<Rightarrow> SmStartOffset s \<noteq> e | None \<Rightarrow> False) then Some [ErrSessionStateConflict]
      else read_stream_loop session (SmName s # seen) (Some (SmEndOffset s)) ss)"

definition validateReadSessionRecord :: "SessionRecord \<Rightarrow> go_error option" where
  "validateReadSessionRecord r =
     (if blank (SdName r) \<or> blank (SdTable r) then Some [ErrSessionStateConflict]
      else if SdFormat r \<noteq> FormatArrow \<and> SdFormat r \<noteq> FormatAvro then Some [ErrSessionStateConflict]
      else if SdLifecycle r \<noteq> SessionActive \<or> IsZero (SdCreatedAt r) \<or> IsZero (SdExpireTime r)
         \<or> \<not> SdCreatedAt r < SdExpireTime r \<or> SdLifecycleUpdatedAt r < SdCreatedAt r
      then Some [ErrSessionStateConflict]
      else if SdStreams r = [] \<or> SdRetainedRowCount r < 0 \<or> SdRetainedBytes r < 0
         \<or> SdEstimatedBytesScanned r < 0 \<or> SdRowRestrictionBytes r < 0
      then Some [ErrSessionStateConflict]
      else if \<not> validSHA256Fingerprint (SdRowRestrictionDigest r) \<or> \<not> validSHA256Fingerprint (SdSchemaFingerprint r)
      then Some [ErrSessionStateConflict]
      else if list_ex blank (SdSelectedFields r) then Some [ErrSessionStateConflict]
      else case read_stream_loop (SdName r) [] None (SdStreams r) of Some e \<Rightarrow> Some e
      | None \<Rightarrow>
          if SmStartOffset (hd (SdStreams r)) \<noteq> 0 \<or> SmEndOffset (last (SdStreams r)) \<noteq> SdRetainedRowCount r
          then Some [ErrSessionStateConflict] else None)"

section \<open>Transactions\<close>

definition read_tx :: "(ReadDB \<Rightarrow> go_error + ReadDB) \<Rightarrow> ReadDB \<Rightarrow> go_error option \<times> ReadDB" where
  "read_tx body db =
     (let db0 = db\<lparr>RdFaults := tl (RdFaults db)\<rparr> in
      case RdFaults db of
        Some e # _ \<Rightarrow> (Some e, db0)
      | _ \<Rightarrow> (case body db0 of Inl e \<Rightarrow> (Some e, db0) | Inr db1 \<Rightarrow> (None, db1)))"

fun insert_read_streams :: "string \<Rightarrow> nat \<Rightarrow> ReadStream list \<Rightarrow> ReadDB \<Rightarrow> go_error + ReadDB" where
  "insert_read_streams session index [] db = Inr db"
| "insert_read_streams session index (s # ss) db =
     (if gm_get (RdStreams db) (SmName s) \<noteq> None \<or> \<not> read_streams_CHECK s then Inl [ErrSessionStateConflict]
      else insert_read_streams session (Suc index) ss
             (db\<lparr>RdStreams := gm_put (SmName s) (session, index, s) (RdStreams db)\<rparr>))"

definition read_CreateSession :: "SessionRecord \<Rightarrow> ReadDB \<Rightarrow> go_error option \<times> ReadDB" where
  "read_CreateSession r db =
     (case validateReadSessionRecord r of Some e \<Rightarrow> (Some e, db)
      | None \<Rightarrow>
          read_tx (\<lambda>db.
            if gm_get (RdSessions db) (SdName r) \<noteq> None \<or> \<not> read_sessions_CHECK (read_session_values r)
            then Inl [ErrSessionStateConflict]
            else insert_read_streams (SdName r) 0 (SdStreams r)
                   (db\<lparr>RdSessions := gm_put (SdName r) (read_session_values r) (RdSessions db)\<rparr>)) db)"

text \<open>The two UPDATE statements set the state and move the time of the last change forward.\<close>

definition set_lifecycle :: "SessionLifecycle \<Rightarrow> time \<Rightarrow> SessionRecord \<Rightarrow> SessionRecord" where
  "set_lifecycle to at_ns r =
     r\<lparr>SdLifecycle := to, SdLifecycleUpdatedAt := max (max (SdLifecycleUpdatedAt r) (SdCreatedAt r)) at_ns\<rparr>"

fun transition_loop :: "SessionLifecycle \<Rightarrow> time \<Rightarrow> string list \<Rightarrow> ReadDB \<Rightarrow> go_error + ReadDB" where
  "transition_loop to at_ns [] db = Inr db"
| "transition_loop to at_ns (n # ns) db =
     (case gm_get (RdSessions db) n of
        None \<Rightarrow> Inl [ErrSessionStateNotFound]
      | Some row \<Rightarrow>
          if SdLifecycle row = SessionActive then
            let new = set_lifecycle to at_ns row in
            if read_lifecycle_trigger (SdLifecycle row) (SdLifecycle new) \<and> read_sessions_CHECK new
            then transition_loop to at_ns ns (db\<lparr>RdSessions := gm_put n new (RdSessions db)\<rparr>)
            else Inl [ErrSessionStateConflict]
          else if SdLifecycle row \<noteq> to then Inl [ErrSessionStateConflict]
          else transition_loop to at_ns ns db)"

definition read_TransitionSessions ::
  "string list \<Rightarrow> SessionLifecycle \<Rightarrow> SessionLifecycle \<Rightarrow> time \<Rightarrow> ReadDB \<Rightarrow> go_error option \<times> ReadDB" where
  "read_TransitionSessions names from to at_time db =
     (if names = [] then (None, db)
      else if from \<noteq> SessionActive \<or> (to \<noteq> SessionExpired \<and> to \<noteq> SessionUnavailable) \<or> IsZero at_time
      then (Some [ErrSessionStateConflict], db)
      else if list_ex blank names \<or> \<not> distinct names then (Some [ErrSessionStateConflict], db)
      else read_tx (transition_loop to (db_time at_time) names) db)"

definition reconcile_row :: "time \<Rightarrow> SessionRecord \<Rightarrow> SessionRecord" where
  "reconcile_row now_ns r =
     (if SdLifecycle r = SessionActive
      then set_lifecycle (if SdExpireTime r \<le> now_ns then SessionExpired else SessionUnavailable) now_ns r else r)"

definition read_ReconcileActive :: "time \<Rightarrow> ReadDB \<Rightarrow> (go_error + int) \<times> ReadDB" where
  "read_ReconcileActive now db =
     (if IsZero now then (Inl [ErrSessionStateConflict], db)
      else let db0 = db\<lparr>RdFaults := tl (RdFaults db)\<rparr>;
               new = map (\<lambda>(n, r). (n, reconcile_row (db_time now) r)) (RdSessions db) in
        case RdFaults db of
          Some e # _ \<Rightarrow> (Inl e, db0)
        | _ \<Rightarrow>
          if list_all (\<lambda>((_, r), (_, r')). r = r' \<or> read_lifecycle_trigger (SdLifecycle r) (SdLifecycle r') \<and> read_sessions_CHECK r')
               (zip (RdSessions db) new)
          then (Inr (int (length (filter (\<lambda>(_, r). SdLifecycle r = SessionActive) (RdSessions db)))), db0\<lparr>RdSessions := new\<rparr>)
          else (Inl (errors_New ''reconcile active Storage Read sessions''), db0))"

definition read_GetStream :: "string \<Rightarrow> ReadDB \<Rightarrow> (go_error + PersistedStream) \<times> ReadDB" where
  "read_GetStream name db =
     (let db0 = db\<lparr>RdFaults := tl (RdFaults db)\<rparr> in
      case RdFaults db of
        Some e # _ \<Rightarrow> (Inl e, db0)
      | _ \<Rightarrow>
        (case gm_get (RdStreams db) name of
           None \<Rightarrow> (Inl [ErrSessionStateNotFound], db0)
         | Some (session, _, _) \<Rightarrow>
             (case gm_get (RdSessions db) session of
                None \<Rightarrow> (Inl [ErrSessionStateNotFound], db0)
              | Some row \<Rightarrow>
                  (Inr \<lparr>PsName = name, PsSession = session, PsLifecycle = SdLifecycle row,
                        PsExpiresAt = SdExpireTime row\<rparr>, db0))))"

section \<open>Lifecycles\<close>

definition session_lifecycle :: "ReadDB \<Rightarrow> string \<rightharpoonup> SessionLifecycle" where
  "session_lifecycle db n = map_option SdLifecycle (gm_get (RdSessions db) n)"

definition stream_owner :: "ReadDB \<Rightarrow> string \<rightharpoonup> string" where
  "stream_owner db n = map_option fst (gm_get (RdStreams db) n)"

text \<open>The primary and foreign keys of the tables, and their CHECKs.\<close>

definition read_stream_row :: "(string \<rightharpoonup> SessionRecord) \<Rightarrow> string \<Rightarrow> string \<times> nat \<times> ReadStream \<Rightarrow> bool" where
  "read_stream_row sessions n row \<longleftrightarrow>
     (case row of (s, i, st) \<Rightarrow>
        (case sessions s of None \<Rightarrow> False
         | Some r \<Rightarrow> i < length (SdStreams r) \<and> SdStreams r ! i = st \<and> SmName st = n))"

definition read_db_ok :: "ReadDB \<Rightarrow> bool" where
  "read_db_ok db \<longleftrightarrow>
     gm_ok (RdSessions db) \<and> gm_ok (RdStreams db)
     \<and> (\<forall>n r. gm_get (RdSessions db) n = Some r \<longrightarrow> SdName r = n \<and> read_sessions_CHECK r)
     \<and> (\<forall>n row. gm_get (RdStreams db) n = Some row \<longrightarrow> read_stream_row (gm_get (RdSessions db)) n row)"

lemma read_session_values_simps [simp]:
  "SdName (read_session_values r) = SdName r" "SdStreams (read_session_values r) = SdStreams r"
  "SdLifecycle (read_session_values r) = SdLifecycle r"
  by (simp_all add: read_session_values_def)

lemma set_lifecycle_simps [simp]:
  "SdName (set_lifecycle to t r) = SdName r" "SdStreams (set_lifecycle to t r) = SdStreams r"
  "SdLifecycle (set_lifecycle to t r) = to" "SdExpireTime (set_lifecycle to t r) = SdExpireTime r"
  by (simp_all add: set_lifecycle_def)

lemma set_lifecycle_CHECK:
  "read_sessions_CHECK r \<Longrightarrow> to = SessionExpired \<or> to = SessionUnavailable \<Longrightarrow> read_sessions_CHECK (set_lifecycle to t r)"
  by (auto simp: read_sessions_CHECK_def set_lifecycle_def)

lemma read_db_ok_faults [simp]: "read_db_ok (db\<lparr>RdFaults := fs\<rparr>) = read_db_ok db"
  by (simp add: read_db_ok_def)

lemma read_stream_row_mono:
  assumes "read_stream_row m n row" "\<And>s r. m s = Some r \<Longrightarrow> \<exists>r'. m' s = Some r' \<and> SdStreams r' = SdStreams r"
  shows "read_stream_row m' n row"
proof -
  obtain s i st where row: "row = (s, i, st)" by (cases row)
  obtain r where "m s = Some r" using assms(1) by (auto simp: read_stream_row_def row split: option.splits)
  then show ?thesis using assms(1) assms(2) [of s r] by (auto simp: read_stream_row_def row)
qed

lemma read_db_ok_put:
  assumes "read_db_ok db" "SdName new = n" "read_sessions_CHECK new"
    and "\<And>old. gm_get (RdSessions db) n = Some old \<Longrightarrow> SdStreams new = SdStreams old"
  shows "read_db_ok (db\<lparr>RdSessions := gm_put n new (RdSessions db)\<rparr>)"
proof -
  have "read_stream_row ((gm_get (RdSessions db))(n \<mapsto> new)) k row" if "gm_get (RdStreams db) k = Some row" for k row
  proof (rule read_stream_row_mono)
    show "read_stream_row (gm_get (RdSessions db)) k row" using that assms(1) unfolding read_db_ok_def by blast
  qed (use assms(4) in \<open>auto split: if_splits\<close>)
  then show ?thesis using assms(1-3) by (simp add: read_db_ok_def)
qed

lemma read_tx_cases:
  "case read_tx body db of
     (Some _, db') \<Rightarrow> db' = db\<lparr>RdFaults := tl (RdFaults db)\<rparr>
   | (None, db') \<Rightarrow> body (db\<lparr>RdFaults := tl (RdFaults db)\<rparr>) = Inr db'"
  by (auto simp: read_tx_def Let_def split: list.splits option.splits sum.splits)

lemma read_tx_Some: "read_tx body db = (Some e, db') \<Longrightarrow> db' = db\<lparr>RdFaults := tl (RdFaults db)\<rparr>"
  using read_tx_cases [of body db] by simp

lemma read_tx_None: "read_tx body db = (None, db') \<Longrightarrow> body (db\<lparr>RdFaults := tl (RdFaults db)\<rparr>) = Inr db'"
  using read_tx_cases [of body db] by simp

subsection \<open>Transitions\<close>

lemma transition_loop_ok:
  assumes "transition_loop to t ns db = Inr db'" "to = SessionExpired \<or> to = SessionUnavailable" "read_db_ok db"
  shows "read_db_ok db' \<and> RdStreams db' = RdStreams db
    \<and> (\<forall>n. session_lifecycle db' n = (if n \<in> set ns then Some to else session_lifecycle db n))
    \<and> (\<forall>n \<in> set ns. session_lifecycle db n \<in> {Some SessionActive, Some to})"
  using assms
proof (induction ns arbitrary: db)
  case (Cons n ns)
  obtain row where row: "gm_get (RdSessions db) n = Some row" "SdName row = n" "read_sessions_CHECK row"
    using Cons.prems(1,3) by (auto simp: read_db_ok_def split: option.splits)
  show ?case
  proof (cases "SdLifecycle row = SessionActive")
    case True
    let ?db = "db\<lparr>RdSessions := gm_put n (set_lifecycle to t row) (RdSessions db)\<rparr>"
    have "transition_loop to t ns ?db = Inr db'"
      using Cons.prems(1) True row by (auto simp: Let_def split: if_splits)
    moreover have "read_db_ok ?db" using Cons.prems row by (intro read_db_ok_put) (auto intro: set_lifecycle_CHECK)
    ultimately show ?thesis using Cons.IH [of ?db] Cons.prems(2) True row
      by (auto simp: session_lifecycle_def split: if_splits)
  next
    case False
    then have "transition_loop to t ns db = Inr db'" "SdLifecycle row = to"
      using Cons.prems(1) row by (auto simp: Let_def split: if_splits)
    then show ?thesis using Cons.IH [of db] Cons.prems(2,3) row
      by (auto simp: session_lifecycle_def split: if_splits)
  qed
qed simp

lemma transition_loop_complete:
  assumes "to = SessionExpired \<or> to = SessionUnavailable" "read_db_ok db"
    and "\<forall>n \<in> set ns. session_lifecycle db n \<in> {Some SessionActive, Some to}"
  shows "\<exists>db'. transition_loop to t ns db = Inr db'"
  using assms
proof (induction ns arbitrary: db)
  case (Cons n ns)
  obtain row where row: "gm_get (RdSessions db) n = Some row" "SdName row = n" "read_sessions_CHECK row"
    and "SdLifecycle row \<in> {SessionActive, to}"
    using Cons.prems by (auto simp: session_lifecycle_def read_db_ok_def)
  let ?db = "db\<lparr>RdSessions := gm_put n (set_lifecycle to t row) (RdSessions db)\<rparr>"
  have ok: "read_db_ok ?db" using Cons.prems row by (intro read_db_ok_put) (auto intro: set_lifecycle_CHECK)
  have "\<forall>k \<in> set ns. session_lifecycle ?db k \<in> {Some SessionActive, Some to}"
    using Cons.prems(3) by (auto simp: session_lifecycle_def)
  then have "\<exists>db'. transition_loop to t ns ?db = Inr db'" using Cons.IH [OF Cons.prems(1) ok] by blast
  moreover have "\<exists>db'. transition_loop to t ns db = Inr db'" using Cons by simp
  ultimately show ?case using row \<open>SdLifecycle row \<in> _\<close> Cons.prems(1)
    by (auto simp: Let_def read_lifecycle_trigger_def set_lifecycle_CHECK)
qed simp

lemma TransitionSessions_ok:
  assumes "read_db_ok db" "read_TransitionSessions names SessionActive to t db = (None, db')"
  shows "read_db_ok db' \<and> stream_owner db' = stream_owner db
    \<and> session_lifecycle db' = (\<lambda>n. if n \<in> set names then Some to else session_lifecycle db n)
    \<and> (\<forall>n \<in> set names. session_lifecycle db n \<in> {Some SessionActive, Some to})"
proof (cases "names = []")
  case True
  then show ?thesis using assms by (simp add: read_TransitionSessions_def)
next
  case False
  let ?db0 = "db\<lparr>RdFaults := tl (RdFaults db)\<rparr>"
  have to: "to = SessionExpired \<or> to = SessionUnavailable"
    and tx: "read_tx (transition_loop to (db_time t) names) db = (None, db')"
    using assms(2) False by (auto simp: read_TransitionSessions_def split: if_splits)
  have "read_db_ok ?db0" using assms(1) by simp
  from transition_loop_ok [OF read_tx_None [OF tx] to this]
  show ?thesis by (simp add: stream_owner_def session_lifecycle_def fun_eq_iff)
qed

lemma TransitionSessions_failed:
  "read_TransitionSessions names from to t db = (Some e, db') \<Longrightarrow> \<exists>fs. db' = db\<lparr>RdFaults := fs\<rparr>"
  by (auto simp: read_TransitionSessions_def dest!: read_tx_Some split: if_splits intro: exI [of _ "RdFaults db"])

subsection \<open>Creation\<close>

lemma insert_read_streams_ok:
  assumes "insert_read_streams session index ss db = Inr db'" "read_db_ok db"
    and "gm_get (RdSessions db) session = Some row" "drop index (SdStreams row) = ss"
  shows "read_db_ok db' \<and> RdSessions db' = RdSessions db
    \<and> stream_owner db' = (\<lambda>n. if n \<in> SmName ` set ss then Some session else stream_owner db n)"
  using assms
proof (induction ss arbitrary: index db)
  case (Cons s ss)
  let ?db = "db\<lparr>RdStreams := gm_put (SmName s) (session, index, s) (RdStreams db)\<rparr>"
  have ins: "insert_read_streams session (Suc index) ss ?db = Inr db'" using Cons.prems(1) by (simp split: if_splits)
  have i: "index < length (SdStreams row)" "SdStreams row ! index = s" "drop (Suc index) (SdStreams row) = ss"
    using Cons.prems(4) by (metis Cons_nth_drop_Suc drop_all linorder_not_le list.distinct(1) list.inject)+
  have "read_db_ok ?db"
    using Cons.prems(2,3) i by (auto simp: read_db_ok_def read_stream_row_def)
  from Cons.IH [OF ins this] Cons.prems(3) i(3) show ?case
    by (auto simp: stream_owner_def fun_eq_iff)
qed simp

lemma insert_read_streams_new:
  "insert_read_streams session index ss db = Inr db' \<Longrightarrow> x \<in> set ss \<Longrightarrow> gm_get (RdStreams db) (SmName x) = None"
proof (induction ss arbitrary: index db)
  case (Cons s ss)
  from Cons.prems(1) have "gm_get (RdStreams db) (SmName s) = None"
    and "insert_read_streams session (Suc index) ss (db\<lparr>RdStreams := gm_put (SmName s) (session, index, s) (RdStreams db)\<rparr>) = Inr db'"
    by (simp_all del: not_None_eq split: if_splits)
  with Cons.IH [OF this(2)] Cons.prems(2) show ?case by (auto simp del: not_None_eq split: if_splits)
qed simp

lemma CreateSession_ok:
  assumes "read_db_ok db" "read_CreateSession r db = (None, db')"
  shows "read_db_ok db' \<and> session_lifecycle db (SdName r) = None
    \<and> session_lifecycle db' = (session_lifecycle db)(SdName r \<mapsto> SessionActive)
    \<and> (\<forall>n \<in> SmName ` set (SdStreams r). stream_owner db n = None)
    \<and> stream_owner db' = (\<lambda>n. if n \<in> SmName ` set (SdStreams r) then Some (SdName r) else stream_owner db n)"
proof -
  let ?row = "read_session_values r"
  let ?db0 = "db\<lparr>RdFaults := tl (RdFaults db)\<rparr>"
  let ?db1 = "?db0\<lparr>RdSessions := gm_put (SdName r) ?row (RdSessions db)\<rparr>"
  have valid: "validateReadSessionRecord r = None" and tx: "read_CreateSession r db = (None, db')"
    using assms(2) by (auto simp: read_CreateSession_def split: option.splits)
  have new: "gm_get (RdSessions db) (SdName r) = None" and check: "read_sessions_CHECK ?row"
    and ins: "insert_read_streams (SdName r) 0 (SdStreams r) ?db1 = Inr db'"
    using tx valid by (auto simp: read_CreateSession_def dest!: read_tx_None split: if_splits)
  have "read_db_ok ?db1"
    using read_db_ok_put [of ?db0 ?row "SdName r"] assms(1) check new by simp
  from insert_read_streams_ok [OF ins this] insert_read_streams_new [OF ins] show ?thesis
    using new valid by (auto simp: session_lifecycle_def fun_eq_iff validateReadSessionRecord_def stream_owner_def split: if_splits)
qed

lemma CreateSession_failed: "read_CreateSession r db = (Some e, db') \<Longrightarrow> \<exists>fs. db' = db\<lparr>RdFaults := fs\<rparr>"
  by (auto simp: read_CreateSession_def dest!: read_tx_Some split: option.splits intro: exI [of _ "RdFaults db"])

subsection \<open>Reconciliation\<close>

lemma reconcile_row_simps [simp]:
  "SdName (reconcile_row t r) = SdName r" "SdStreams (reconcile_row t r) = SdStreams r"
  by (simp_all add: reconcile_row_def)

lemma reconcile_row_CHECK: "read_sessions_CHECK r \<Longrightarrow> read_sessions_CHECK (reconcile_row t r)"
  by (simp add: reconcile_row_def set_lifecycle_CHECK)

lemma gm_get_map_values: "gm_get (map (\<lambda>(k, v). (k, f v)) m) = (\<lambda>k. map_option f (gm_get m k))"
  by (induction m) (auto simp: fun_eq_iff)

lemma map_fst_values: "map (fst \<circ> (\<lambda>(k, v). (k, f v))) m = map fst m"
  by (induction m) auto

lemma read_db_ok_map:
  assumes "read_db_ok db" "\<And>r. SdName (f r) = SdName r" "\<And>r. SdStreams (f r) = SdStreams r"
    "\<And>r. read_sessions_CHECK r \<Longrightarrow> read_sessions_CHECK (f r)"
  shows "read_db_ok (db\<lparr>RdSessions := map (\<lambda>(n, r). (n, f r)) (RdSessions db)\<rparr>)"
proof -
  have "read_stream_row (\<lambda>k. map_option f (gm_get (RdSessions db) k)) n row" if "gm_get (RdStreams db) n = Some row" for n row
  proof (rule read_stream_row_mono)
    show "read_stream_row (gm_get (RdSessions db)) n row" using that assms(1) unfolding read_db_ok_def by blast
  qed (simp add: assms(3))
  then show ?thesis using assms(1,2,4) unfolding read_db_ok_def
    by (auto simp: gm_get_map_values map_fst_values simp del: map_of_eq_Some_iff)
qed

lemma ReconcileActive_ok:
  assumes "read_db_ok db" "read_ReconcileActive t db = (Inr count, db')"
  shows "read_db_ok db' \<and> stream_owner db' = stream_owner db
    \<and> session_lifecycle db' = (\<lambda>n. map_option (\<lambda>r. SdLifecycle (reconcile_row (db_time t) r)) (gm_get (RdSessions db) n))"
proof -
  let ?f = "reconcile_row (db_time t)"
  have db': "db' = db\<lparr>RdFaults := tl (RdFaults db), RdSessions := map (\<lambda>(n, r). (n, ?f r)) (RdSessions db)\<rparr>"
    using assms(2) by (auto simp: read_ReconcileActive_def Let_def split: if_splits list.splits option.splits)
  have "read_db_ok db'"
    using read_db_ok_map [of "db\<lparr>RdFaults := tl (RdFaults db)\<rparr>" ?f] assms(1) reconcile_row_CHECK by (simp add: db')
  then show ?thesis by (simp add: db' stream_owner_def session_lifecycle_def fun_eq_iff gm_get_map_values option.map_comp comp_def)
qed

lemma ReconcileActive_failed: "read_ReconcileActive t db = (Inl e, db') \<Longrightarrow> \<exists>fs. db' = db\<lparr>RdFaults := fs\<rparr>"
  by (auto simp: read_ReconcileActive_def Let_def split: if_splits list.splits option.splits intro: exI [of _ "RdFaults db"])

lemma session_lifecycle_faults [simp]:
  "session_lifecycle (db\<lparr>RdFaults := fs\<rparr>) = session_lifecycle db" "stream_owner (db\<lparr>RdFaults := fs\<rparr>) = stream_owner db"
  by (simp_all add: session_lifecycle_def stream_owner_def fun_eq_iff)

section \<open>The contract of the port\<close>

definition ReadSessionRepository :: "ReadDB SessionStateRepository" where
  "ReadSessionRepository =
     \<lparr>SpCreateSession = read_CreateSession, SpTransitionSessions = read_TransitionSessions,
      SpReconcileActive = read_ReconcileActive, SpGetStream = read_GetStream\<rparr>"

interpretation sessions: session_ledger ReadSessionRepository read_db_ok session_lifecycle stream_owner
proof (unfold_locales, goal_cases)
  case (1 r rec r')
  then show ?case using CreateSession_ok by (simp add: ReadSessionRepository_def)
next
  case (2 r rec e r')
  then show ?case by (auto simp: ReadSessionRepository_def dest!: CreateSession_failed)
next
  case (3 r names to t r')
  then show ?case using TransitionSessions_ok by (simp add: ReadSessionRepository_def)
next
  case (4 r names source to t e r')
  then show ?case by (auto simp: ReadSessionRepository_def dest!: TransitionSessions_failed)
next
  case (5 r t count r')
  then have "read_ReconcileActive t r = (Inr count, r')" by (simp add: ReadSessionRepository_def)
  from ReconcileActive_ok [OF 5(1) this] show ?case
    by (auto simp: session_lifecycle_def reconcile_row_def map_option_case split: option.splits)
next
  case (6 r t e r')
  then show ?case by (auto simp: ReadSessionRepository_def dest!: ReconcileActive_failed)
next
  case (7 r name res r')
  then have g: "read_GetStream name r = (res, r')" by (simp add: ReadSessionRepository_def)
  then have "\<exists>fs. r' = r\<lparr>RdFaults := fs\<rparr>"
    by (auto simp: read_GetStream_def Let_def split: list.splits option.splits)
  with g 7(1) show ?case
    by (auto simp: read_GetStream_def Let_def stream_owner_def session_lifecycle_def split: list.splits option.splits)
next
  case (8 r k n)
  then show ?case
    by (fastforce simp: stream_owner_def session_lifecycle_def read_db_ok_def read_stream_row_def split: option.splits)
qed

section \<open>Durability of sessions\<close>

text \<open>A row may only end, once; everything else about it stays and the time of its last change never goes back.\<close>

definition row_evolves :: "SessionRecord \<Rightarrow> SessionRecord \<Rightarrow> bool" where
  "row_evolves old new \<longleftrightarrow>
     new = old\<lparr>SdLifecycle := SdLifecycle new, SdLifecycleUpdatedAt := SdLifecycleUpdatedAt new\<rparr>
     \<and> read_lifecycle_trigger (SdLifecycle old) (SdLifecycle new)
     \<and> SdLifecycleUpdatedAt old \<le> SdLifecycleUpdatedAt new"

definition rows_evolve :: "ReadDB \<Rightarrow> ReadDB \<Rightarrow> bool" where
  "rows_evolve db db' \<longleftrightarrow>
     (\<forall>n. case gm_get (RdSessions db) n of None \<Rightarrow> True
          | Some r \<Rightarrow> (case gm_get (RdSessions db') n of None \<Rightarrow> False | Some r' \<Rightarrow> row_evolves r r'))"

lemma rows_evolveD: "rows_evolve db db' \<Longrightarrow> gm_get (RdSessions db) n = Some r \<Longrightarrow> \<exists>r'. gm_get (RdSessions db') n = Some r' \<and> row_evolves r r'"
  unfolding rows_evolve_def by (drule spec [of _ n]) (simp split: option.splits)

lemma row_evolves_refl [simp]: "row_evolves r r"
  by (simp add: row_evolves_def read_lifecycle_trigger_def)

lemma row_evolves_trans:
  assumes "row_evolves a b" "row_evolves b c"
  shows "row_evolves a c"
proof -
  have "b = a\<lparr>SdLifecycle := SdLifecycle b, SdLifecycleUpdatedAt := SdLifecycleUpdatedAt b\<rparr>"
    "c = b\<lparr>SdLifecycle := SdLifecycle c, SdLifecycleUpdatedAt := SdLifecycleUpdatedAt c\<rparr>"
    using assms by (auto simp: row_evolves_def)
  then have "c = a\<lparr>SdLifecycle := SdLifecycle c, SdLifecycleUpdatedAt := SdLifecycleUpdatedAt c\<rparr>"
    by (metis (no_types, lifting) SessionRecord.update_convs(15,16) SessionRecord.surjective)
  then show ?thesis using assms by (auto simp: row_evolves_def read_lifecycle_trigger_def)
qed

lemma rows_evolve_refl [simp]: "rows_evolve db db" "rows_evolve db (db\<lparr>RdFaults := fs\<rparr>)"
  by (simp_all add: rows_evolve_def split: option.splits)

lemma rows_evolve_trans: "rows_evolve a b \<Longrightarrow> rows_evolve b c \<Longrightarrow> rows_evolve a c"
  unfolding rows_evolve_def
  by (rule allI, rename_tac n, drule_tac x = n in spec, drule_tac x = n in spec)
    (auto split: option.splits intro: row_evolves_trans)

lemma row_evolves_set_lifecycle:
  "read_lifecycle_trigger (SdLifecycle r) to \<Longrightarrow> row_evolves r (set_lifecycle to t r)"
  by (simp add: row_evolves_def set_lifecycle_def)

lemma transition_loop_evolves: "transition_loop to t ns db = Inr db' \<Longrightarrow> rows_evolve db db'"
proof (induction ns arbitrary: db)
  case (Cons n ns)
  obtain row where row: "gm_get (RdSessions db) n = Some row" using Cons.prems by (auto split: option.splits)
  let ?db = "db\<lparr>RdSessions := gm_put n (set_lifecycle to t row) (RdSessions db)\<rparr>"
  have "rows_evolve db ?db" if "read_lifecycle_trigger (SdLifecycle row) to"
    using row that by (auto simp: rows_evolve_def row_evolves_set_lifecycle split: option.splits)
  then show ?case using Cons.prems row Cons.IH [of ?db] Cons.IH [of db]
    by (auto simp: Let_def split: if_splits intro: rows_evolve_trans)
qed simp

lemma insert_read_streams_sessions: "insert_read_streams session index ss db = Inr db' \<Longrightarrow> RdSessions db' = RdSessions db"
  by (induction ss arbitrary: index db) (auto split: if_splits)

lemma CreateSession_evolves: "rows_evolve db (snd (read_CreateSession r db))"
proof (cases "read_CreateSession r db")
  case (Pair res db')
  show ?thesis
  proof (cases res)
    case None
    then have "gm_get (RdSessions db) (SdName r) = None
        \<and> RdSessions db' = gm_put (SdName r) (read_session_values r) (RdSessions db)"
      using Pair by (auto simp: read_CreateSession_def dest!: read_tx_None insert_read_streams_sessions split: option.splits if_splits)
    then show ?thesis using Pair by (auto simp: rows_evolve_def split: option.splits)
  next
    case (Some e)
    then show ?thesis using CreateSession_failed [of r db e db'] Pair by auto
  qed
qed

lemma TransitionSessions_evolves: "rows_evolve db (snd (read_TransitionSessions names source to t db))"
proof (cases "read_tx (transition_loop to (db_time t) names) db")
  case (Pair res db')
  then have "rows_evolve db db'"
  proof (cases res)
    case None
    have "rows_evolve (db\<lparr>RdFaults := tl (RdFaults db)\<rparr>) db'"
      using transition_loop_evolves [OF read_tx_None [OF Pair [unfolded None]]] .
    then show ?thesis by (simp add: rows_evolve_def)
  next
    case (Some e)
    then show ?thesis using read_tx_Some [OF Pair [unfolded Some]] by simp
  qed
  then show ?thesis using Pair by (simp add: read_TransitionSessions_def)
qed

lemma ReconcileActive_evolves: "rows_evolve db (snd (read_ReconcileActive t db))"
proof -
  have "row_evolves r (reconcile_row u r)" for r u
    by (simp add: reconcile_row_def row_evolves_set_lifecycle read_lifecycle_trigger_def)
  then show ?thesis
    by (auto simp: read_ReconcileActive_def Let_def rows_evolve_def gm_get_map_values split: option.splits list.splits)
qed

datatype ReadCall =
    CallCreateSession SessionRecord
  | CallTransitionSessions "string list" SessionLifecycle SessionLifecycle time
  | CallReconcileActive time
  | CallGetStream string

fun read_call :: "ReadCall \<Rightarrow> ReadDB \<Rightarrow> ReadDB" where
  "read_call (CallCreateSession r) db = snd (read_CreateSession r db)"
| "read_call (CallTransitionSessions ns source to t) db = snd (read_TransitionSessions ns source to t db)"
| "read_call (CallReconcileActive t) db = snd (read_ReconcileActive t db)"
| "read_call (CallGetStream n) db = snd (read_GetStream n db)"

lemma read_call_evolves: "rows_evolve db (read_call c db)"
proof (cases c)
  case (CallGetStream n)
  then show ?thesis by (auto simp: read_GetStream_def Let_def split: list.splits option.splits)
qed (simp_all add: CreateSession_evolves TransitionSessions_evolves ReconcileActive_evolves)

text \<open>
  C28. Whatever calls the repository serves, and whichever of them the engine fails, a stored read session
  is never lost or altered: its metadata stays, the time of its last change never goes back, and its lifecycle
  moves at most once, from ACTIVE to EXPIRED or UNAVAILABLE.
\<close>

theorem read_session_ends_once:
  assumes "gm_get (RdSessions db) n = Some r"
  shows "\<exists>r'. gm_get (RdSessions (fold read_call calls db)) n = Some r'
    \<and> r' = r\<lparr>SdLifecycle := SdLifecycle r', SdLifecycleUpdatedAt := SdLifecycleUpdatedAt r'\<rparr>
    \<and> SdLifecycleUpdatedAt r \<le> SdLifecycleUpdatedAt r'
    \<and> (if SdLifecycle r = SessionActive then SdLifecycle r' \<in> {SessionActive, SessionExpired, SessionUnavailable}
       else SdLifecycle r' = SdLifecycle r)"
proof -
  have "rows_evolve db (fold read_call calls db)"
    by (induction calls arbitrary: db) (auto intro: rows_evolve_trans [OF read_call_evolves])
  from rows_evolveD [OF this assms] show ?thesis
    by (auto simp: row_evolves_def read_lifecycle_trigger_def split: if_splits)
qed

definition sample_session_row :: SessionRecord where
  "sample_session_row =
     \<lparr>SdName = ''projects/p/locations/US/sessions/s'', SdTable = ''projects/p/datasets/d/tables/t'', SdFormat = FormatArrow,
      SdSelectedFields = [], SdRowRestrictionDigest = read_digest [], SdRowRestrictionBytes = 0,
      SdStreams = partitionStreams ''projects/p/locations/US/sessions/s'' 7 3, SdCreatedAt = unix_epoch + 10,
      SdExpireTime = unix_epoch + 20, SdSnapshotTime = None, SdRetainedRowCount = 7, SdRetainedBytes = 100,
      SdEstimatedBytesScanned = 100, SdSchemaFingerprint = read_digest ''schema'', SdLifecycle = SessionActive,
      SdLifecycleUpdatedAt = unix_epoch + 10\<rparr>"

definition sample_read_db :: ReadDB where
  "sample_read_db = \<lparr>RdSessions = [(SdName sample_session_row, sample_session_row)], RdStreams = [], RdFaults = []\<rparr>"

theorem read_session_ends_once_witness:
  "\<exists>r'. gm_get (RdSessions (fold read_call [CallReconcileActive (unix_epoch + 15)] sample_read_db)) (SdName sample_session_row) = Some r'
    \<and> SdLifecycle r' \<in> {SessionActive, SessionExpired, SessionUnavailable} \<and> SdStreams r' = SdStreams sample_session_row"
proof -
  have row: "gm_get (RdSessions sample_read_db) (SdName sample_session_row) = Some sample_session_row"
    "SdLifecycle sample_session_row = SessionActive"
    by (simp_all add: sample_read_db_def sample_session_row_def)
  from read_session_ends_once [OF row(1), of "[CallReconcileActive (unix_epoch + 15)]"] obtain r' where
    r': "gm_get (RdSessions (fold read_call [CallReconcileActive (unix_epoch + 15)] sample_read_db)) (SdName sample_session_row) = Some r'"
    and same: "r' = sample_session_row\<lparr>SdLifecycle := SdLifecycle r', SdLifecycleUpdatedAt := SdLifecycleUpdatedAt r'\<rparr>"
    and life: "SdLifecycle r' \<in> {SessionActive, SessionExpired, SessionUnavailable}" using row(2) by auto
  have "SdStreams r' = SdStreams sample_session_row" by (subst same) simp
  with r' life show ?thesis by blast
qed

end
