(* ===== verification/Read_Session_Ledger.thy ===== *)
theory Read_Session_Ledger
  imports Read_Admission Read_Repository
begin

text \<open>
  The Storage Read service on a session state repository: in every run the sessions in memory are exactly
  those the repository holds as ACTIVE, and the streams in memory exactly those it holds of them. Proved once
  for every repository that keeps the contract \<open>session_ledger\<close>, then stated for the SQLite one.
\<close>

section \<open>Streams in memory\<close>

lemma gm_get_put_read_streams:
  assumes "distinct (map SmName xs)"
  shows "gm_get (put_read_streams state xs m) k =
    (if k \<in> SmName ` set xs then map_option (\<lambda>x. \<lparr>TtSession = state, TtStream = x\<rparr>) (find (\<lambda>x. SmName x = k) xs) else gm_get m k)"
  using assms
proof (induction xs arbitrary: m)
  case (Cons x xs)
  then show ?case by (auto simp: find_None_iff split: if_splits)
qed simp

lemma find_distinct: "distinct (map SmName xs) \<Longrightarrow> x \<in> set xs \<Longrightarrow> find (\<lambda>y. SmName y = SmName x) xs = Some x"
  by (induction xs) (auto simp: image_iff)

lemma put_read_streams_Some:
  assumes "distinct (map SmName xs)"
  shows "gm_get (put_read_streams state xs m) k = Some e \<longleftrightarrow>
    (if k \<in> SmName ` set xs then TtSession e = state \<and> TtStream e \<in> set xs \<and> SmName (TtStream e) = k
     else gm_get m k = Some e)"
proof (cases "k \<in> SmName ` set xs")
  case True
  then obtain x where x: "x \<in> set xs" "k = SmName x" by auto
  have "gm_get (put_read_streams state xs m) k = Some \<lparr>TtSession = state, TtStream = x\<rparr>"
    using gm_get_put_read_streams [OF assms] find_distinct [OF assms x(1)] x by simp
  moreover have "y = x" if "y \<in> set xs" "SmName y = k" for y
    using that x assms by (auto simp: distinct_map dest: inj_onD)
  moreover have "e = \<lparr>TtSession = state, TtStream = x\<rparr> \<longleftrightarrow>
      TtSession e = state \<and> TtStream e \<in> set xs \<and> SmName (TtStream e) = k"
    using calculation(2) x by (cases e) auto
  ultimately show ?thesis using True by auto
qed (simp add: gm_get_put_read_streams [OF assms])

lemma gm_get_fold_del: "gm_get (fold (\<lambda>x. gm_del (f x)) xs m) k = (if k \<in> f ` set xs then None else gm_get m k)"
  by (induction xs arbitrary: m) auto

lemma gm_get_drop_streams:
  "gm_get (drop_streams states m) k =
     (if \<exists>st \<in> set states. k \<in> SmName ` set (SsStreams (TsSession st)) then None else gm_get m k)"
  unfolding drop_streams_def by (induction states arbitrary: m) (auto simp: gm_get_fold_del)

section \<open>Sessions as they are created\<close>

definition session_ok :: "sessionState \<Rightarrow> bool" where
  "session_ok st \<longleftrightarrow>
     SdName (TsRecord st) = SsName (TsSession st) \<and> SdStreams (TsRecord st) = SsStreams (TsSession st)
     \<and> distinct (map SmName (SsStreams (TsSession st))) \<and> SsStreams (TsSession st) \<noteq> []
     \<and> streams_cover 0 (SsEstimatedRowCount (TsSession st)) (SsStreams (TsSession st))"

lemma create_state_Inr:
  assumes "create_state config ctx shut request count answer i now = Inr state"
  shows "\<exists>snapshot m. answer = Materialized snapshot \<and> validateSnapshotMetadata (CqFormat request) (SnMetadata snapshot) = Inr m
    \<and> SmRetainedBytes m \<le> RcMaxSnapshotBytes config \<and> validResourceSegment i
    \<and> state = (let session = new_session config request count m i now in
         \<lparr>TsSession = session, TsSnapshot = snapshot, TsRetainedBytes = SmRetainedBytes m,
          TsRecord = new_session_record request m session now\<rparr>)"
  using assms by (auto simp: create_state_def Let_def split: materialized.splits sum.splits if_splits)

lemma validateSnapshotMetadata_Inr:
  assumes "validateSnapshotMetadata format m = Inr m'"
  shows "0 \<le> SmRowCount m' \<and> 0 \<le> SmEstimatedBytes m' \<and> 0 \<le> SmRetainedBytes m'
    \<and> RsFingerprint (SmSchema m') = read_digest (RsSerialized (SmSchema m'))"
  using assms by (auto simp: validateSnapshotMetadata_def split: if_splits)

lemma create_state_ok:
  assumes "create_state config ctx shut request count answer i now = Inr state" "0 < count"
  shows "session_ok state"
proof -
  obtain snapshot m where m: "validateSnapshotMetadata (CqFormat request) (SnMetadata snapshot) = Inr m"
    and state: "state = (let session = new_session config request count m i now in
         \<lparr>TsSession = session, TsSnapshot = snapshot, TsRetainedBytes = SmRetainedBytes m,
          TsRecord = new_session_record request m session now\<rparr>)"
    using create_state_Inr [OF assms(1)] by blast
  have "0 \<le> SmRowCount m" using validateSnapshotMetadata_Inr [OF m] by simp
  from partitionStreams_facts [OF this assms(2), of "session_name config request i"] assms(2) show ?thesis
    by (auto simp: session_ok_def state Let_def new_session_def new_session_record_def)
qed

section \<open>Agreement of memory and repository\<close>

definition session_streams :: "(string, sessionState) gomap \<Rightarrow> (string, readStreamState) gomap \<Rightarrow> bool" where
  "session_streams sessions streams \<longleftrightarrow>
     (\<forall>k e. gm_get streams k = Some e \<longleftrightarrow>
        gm_get sessions (SsName (TsSession (TtSession e))) = Some (TtSession e)
        \<and> TtStream e \<in> set (SsStreams (TsSession (TtSession e))) \<and> SmName (TtStream e) = k)"

definition recorded :: "(string \<rightharpoonup> string) \<Rightarrow> (string, sessionState) gomap \<Rightarrow> bool" where
  "recorded owner sessions \<longleftrightarrow>
     (\<forall>n st. gm_get sessions n = Some st \<longrightarrow>
        SsName (TsSession st) = n \<and> session_ok st
        \<and> (\<forall>k. owner k = Some n \<longleftrightarrow> k \<in> SmName ` set (SsStreams (TsSession st))))"

definition agrees ::
  "'r SessionStateRepository \<Rightarrow> ('r \<Rightarrow> bool) \<Rightarrow> ('r \<Rightarrow> string \<rightharpoonup> SessionLifecycle) \<Rightarrow> ('r \<Rightarrow> string \<rightharpoonup> string) \<Rightarrow> 'r ReadSystem \<Rightarrow> bool" where
  "agrees repo ok lifecycle owner sys \<longleftrightarrow>
     (let s = RySvc sys; r = RvRepo s in
      RvRepository s = repo \<and> ok r
      \<and> (\<forall>c \<in> set (RyCreating sys). 0 < snd (snd c))
      \<and> (\<not> RvStateReconciled s \<longrightarrow> RvSessions s = [] \<and> RyCreating sys = [])
      \<and> (RvStateReconciled s \<and> \<not> RvClosed s \<longrightarrow> (\<forall>n. lifecycle r n = Some SessionActive \<longleftrightarrow> n \<in> dom (gm_get (RvSessions s))))
      \<and> recorded (owner r) (RvSessions s)
      \<and> session_streams (RvSessions s) (RvStreams s))"

lemma session_streams_empty [simp]: "session_streams [] []"
  by (simp add: session_streams_def)

lemma recorded_empty [simp]: "recorded owner []"
  by (simp add: recorded_def)

text \<open>A stream in memory belongs to the session its name is recorded for.\<close>

lemma recorded_unique:
  assumes "recorded owner sessions" "gm_get sessions n = Some st" "gm_get sessions n' = Some st'"
    and "k \<in> SmName ` set (SsStreams (TsSession st))" "k \<in> SmName ` set (SsStreams (TsSession st'))"
  shows "n = n'"
  using assms unfolding recorded_def by (metis option.inject)

lemma session_streams_put:
  assumes rec: "recorded owner sessions" and ss: "session_streams sessions streams"
    and new: "gm_get sessions (SsName (TsSession st)) = None" and ok: "session_ok st"
    and fresh: "\<forall>k \<in> SmName ` set (SsStreams (TsSession st)). owner k = None"
  shows "session_streams (gm_put (SsName (TsSession st)) st sessions) (put_read_streams st (SsStreams (TsSession st)) streams)"
proof -
  let ?n = "SsName (TsSession st)" and ?xs = "SsStreams (TsSession st)"
  have dist: "distinct (map SmName ?xs)" using ok by (simp add: session_ok_def)
  have old: "gm_get streams k = None" if k: "k \<in> SmName ` set ?xs" for k
  proof (rule ccontr)
    assume "gm_get streams k \<noteq> None"
    then obtain e :: readStreamState where "gm_get sessions (SsName (TsSession (TtSession e))) = Some (TtSession e)"
      "TtStream e \<in> set (SsStreams (TsSession (TtSession e)))" "SmName (TtStream e) = k"
      using ss by (auto simp: session_streams_def)
    then have "owner k \<noteq> None" using rec unfolding recorded_def by (metis imageI option.distinct(1))
    then show False using bspec [OF fresh k] by simp
  qed
  have "gm_get (put_read_streams st ?xs streams) k = Some e \<longleftrightarrow>
      ((gm_get sessions)(?n \<mapsto> st)) (SsName (TsSession (TtSession e))) = Some (TtSession e)
      \<and> TtStream e \<in> set (SsStreams (TsSession (TtSession e))) \<and> SmName (TtStream e) = k" for k e
  proof (cases "SsName (TsSession (TtSession e)) = ?n")
    case True
    then have "gm_get streams k \<noteq> Some e" using ss new by (auto simp: session_streams_def)
    then show ?thesis using True unfolding put_read_streams_Some [OF dist] by auto
  next
    case False
    have "\<not> (gm_get sessions (SsName (TsSession (TtSession e))) = Some (TtSession e)
        \<and> TtStream e \<in> set (SsStreams (TsSession (TtSession e))) \<and> SmName (TtStream e) = k)" if "k \<in> SmName ` set ?xs"
      using old [OF that] ss unfolding session_streams_def by (metis option.distinct(1))
    moreover have "TtSession e \<noteq> st" using False by auto
    ultimately show ?thesis using False ss unfolding put_read_streams_Some [OF dist] by (simp add: session_streams_def)
  qed
  then show ?thesis by (simp add: session_streams_def)
qed

lemma session_streams_drop:
  assumes ok: "gm_ok sessions" and rec: "recorded owner sessions" and ss: "session_streams sessions streams"
  shows "session_streams (filter (\<lambda>x. \<not> P x) sessions) (drop_streams (map snd (filter P sessions)) streams)"
proof -
  have gone: "(\<exists>st \<in> set (map snd (filter P sessions)). k \<in> SmName ` set (SsStreams (TsSession st)))
      \<longleftrightarrow> P (SsName (TsSession (TtSession e)), TtSession e)" if e: "gm_get streams k = Some e" for k e
  proof -
    let ?n = "SsName (TsSession (TtSession e))"
    have mem: "gm_get sessions ?n = Some (TtSession e)" "k \<in> SmName ` set (SsStreams (TsSession (TtSession e)))"
      using e ss by (auto simp: session_streams_def)
    show ?thesis
    proof
      assume "\<exists>st \<in> set (map snd (filter P sessions)). k \<in> SmName ` set (SsStreams (TsSession st))"
      then obtain n st where st: "(n, st) \<in> set sessions" "P (n, st)" "k \<in> SmName ` set (SsStreams (TsSession st))" by auto
      then have "gm_get sessions n = Some st" using ok by simp
      then show "P (?n, TtSession e)" using recorded_unique [OF rec mem(1) _ mem(2) st(3)] mem(1) st(2) by simp
    next
      assume "P (?n, TtSession e)"
      then have "TtSession e \<in> set (map snd (filter P sessions))" using map_of_SomeD [OF mem(1)] by force
      then show "\<exists>st \<in> set (map snd (filter P sessions)). k \<in> SmName ` set (SsStreams (TsSession st))" using mem(2) by blast
    qed
  qed
  show ?thesis unfolding session_streams_def
  proof (intro allI)
    fix k e
    show "gm_get (drop_streams (map snd (filter P sessions)) streams) k = Some e \<longleftrightarrow>
        gm_get (filter (\<lambda>x. \<not> P x) sessions) (SsName (TsSession (TtSession e))) = Some (TtSession e)
        \<and> TtStream e \<in> set (SsStreams (TsSession (TtSession e))) \<and> SmName (TtStream e) = k"
    proof (cases "gm_get streams k = Some e")
      case True
      then show ?thesis unfolding gm_get_drop_streams gone [OF True] gm_get_filter [OF ok]
        using ss by (auto simp: session_streams_def)
    next
      case False
      then show ?thesis unfolding gm_get_drop_streams gm_get_filter [OF ok]
        using ss by (auto simp: session_streams_def split: option.splits if_splits)
    qed
  qed
qed

lemma commitReservedSession_repo:
  assumes "commitReservedSession reservation state s = (Some e, s')"
  shows "\<exists>r. s' = s\<lparr>RvRepo := r\<rparr>
    \<and> (r = RvRepo s \<or> (\<exists>x. SpCreateSession (RvRepository s) (TsRecord state) (RvRepo s) = (Some x, r)))"
  using assms
  by (auto simp: commitReservedSession_def persistSession_def split: option.splits if_splits prod.splits intro: exI [of _ "RvRepo s"])

lemma transitionSessions_call:
  assumes "transitionSessions names to t s = (res, s')"
  shows "\<exists>r. s' = s\<lparr>RvRepo := r\<rparr>
    \<and> (names = [] \<and> res = None \<and> r = RvRepo s
       \<or> (case res of None \<Rightarrow> SpTransitionSessions (RvRepository s) names SessionActive to t (RvRepo s) = (None, r)
          | Some _ \<Rightarrow> \<exists>x. SpTransitionSessions (RvRepository s) names SessionActive to t (RvRepo s) = (Some x, r)))"
  using assms by (auto simp: transitionSessions_def split: option.splits if_splits prod.splits intro: exI [of _ "RvRepo s"])

context session_ledger
begin

abbreviation ledger_agrees :: "'r ReadSystem \<Rightarrow> bool" where
  "ledger_agrees \<equiv> agrees repo ok lifecycle owner"

lemma agrees_repo:
  assumes "ledger_agrees sys" "ok r" "lifecycle r = lifecycle (RvRepo (RySvc sys))" "owner r = owner (RvRepo (RySvc sys))"
  shows "ledger_agrees (sys\<lparr>RySvc := (RySvc sys)\<lparr>RvRepo := r\<rparr>\<rparr>)"
  using assms by (simp add: agrees_def Let_def)

lemma agrees_transition:
  assumes ok: "ok (RvRepo s)" and repo: "RvRepository s = repo" and call: "transitionSessions names to t s = (res, s')"
  shows "\<exists>r. s' = s\<lparr>RvRepo := r\<rparr> \<and> ok r \<and> owner r = owner (RvRepo s)
    \<and> lifecycle r = (if res = None then \<lambda>n. if n \<in> set names then Some to else lifecycle (RvRepo s) n else lifecycle (RvRepo s))"
proof -
  obtain r where s': "s' = s\<lparr>RvRepo := r\<rparr>" and r: "names = [] \<and> res = None \<and> r = RvRepo s
       \<or> (case res of None \<Rightarrow> SpTransitionSessions repo names SessionActive to t (RvRepo s) = (None, r)
          | Some _ \<Rightarrow> \<exists>x. SpTransitionSessions repo names SessionActive to t (RvRepo s) = (Some x, r))"
    using transitionSessions_call [OF call] repo by auto
  show ?thesis
  proof (intro exI conjI)
    show "s' = s\<lparr>RvRepo := r\<rparr>" by fact
    show "ok r" "owner r = owner (RvRepo s)"
      "lifecycle r = (if res = None then \<lambda>n. if n \<in> set names then Some to else lifecycle (RvRepo s) n else lifecycle (RvRepo s))"
      using r ok transition [OF ok, of names to t r] transition_failed [OF ok, of names SessionActive to t _ r]
      by (auto split: option.splits)
  qed
qed

lemma agrees_commit:
  assumes ag: "ledger_agrees sys" and st: "session_ok state" and creating: "RyCreating sys \<noteq> []"
    and com: "commitReservedSession reservation state (RySvc sys) = (None, s)"
  shows "ledger_agrees (sys\<lparr>RySvc := s, RyCreating := remove_nth i (RyCreating sys)\<rparr>)"
proof -
  let ?s = "RySvc sys" and ?n = "SsName (TsSession state)" and ?xs = "SsStreams (TsSession state)"
  note d = ag [unfolded agrees_def Let_def]
  obtain current :: sessionReservation and r where new: "gm_get (RvSessions ?s) ?n = None" "\<not> RvClosed ?s"
    and call: "SpCreateSession (RvRepository ?s) (TsRecord state) (RvRepo ?s) = (None, r)"
    and s: "s = ?s\<lparr>RvRepo := r, RvRetainedSnapshotBytes := wrap64 (RvRetainedSnapshotBytes ?s - SnBytes current + TsRetainedBytes state),
             RvReservations := gm_del (SnID current) (RvReservations ?s), RvSessions := gm_put ?n state (RvSessions ?s),
             RvStreams := put_read_streams state ?xs (RvStreams ?s)\<rparr>"
    using commitReservedSession_None [OF com] by blast
  have rec: "SdName (TsRecord state) = ?n" "SdStreams (TsRecord state) = ?xs" using st by (auto simp: session_ok_def)
  have c: "ok r" "lifecycle (RvRepo ?s) ?n = None" "lifecycle r = (lifecycle (RvRepo ?s))(?n \<mapsto> SessionActive)"
    "\<forall>k \<in> SmName ` set ?xs. owner (RvRepo ?s) k = None"
    "owner r = (\<lambda>k. if k \<in> SmName ` set ?xs then Some ?n else owner (RvRepo ?s) k)"
    using create [of "RvRepo ?s" "TsRecord state" r] call d rec by auto
  have none: "owner (RvRepo ?s) k \<noteq> Some ?n" for k using owner_known [of "RvRepo ?s" k ?n] d c(2) by auto
  have "recorded (owner r) (gm_put ?n state (RvSessions ?s))"
    unfolding recorded_def
  proof (intro allI impI)
    fix n st assume get: "gm_get (gm_put ?n state (RvSessions ?s)) n = Some st"
    show "SsName (TsSession st) = n \<and> session_ok st \<and> (\<forall>k. owner r k = Some n \<longleftrightarrow> k \<in> SmName ` set (SsStreams (TsSession st)))"
    proof (cases "n = ?n")
      case True
      then show ?thesis using get assms(2) none by (auto simp: c(5))
    next
      case False
      then have old: "SsName (TsSession st) = n" "session_ok st" "\<forall>k. owner (RvRepo ?s) k = Some n \<longleftrightarrow> k \<in> SmName ` set (SsStreams (TsSession st))"
        using get d by (auto simp: recorded_def)
      then have "k \<notin> SmName ` set (SsStreams (TsSession st))" if "k \<in> SmName ` set ?xs" for k
        using bspec [OF c(4) that] by (metis option.distinct(1))
      then show ?thesis using old False by (auto simp: c(5))
    qed
  qed
  moreover have "session_streams (gm_put ?n state (RvSessions ?s)) (put_read_streams state ?xs (RvStreams ?s))"
    using session_streams_put [OF _ _ new(1) st c(4)] d by blast
  moreover have "\<forall>x \<in> set (remove_nth i (RyCreating sys)). 0 < snd (snd x)" using d set_remove_nth by fastforce
  moreover have "RvStateReconciled ?s" using d creating by auto
  ultimately show ?thesis unfolding agrees_def Let_def using d c(1,3) new(2) by (simp add: s)
qed

lemma agrees_sweep:
  assumes ag: "ledger_agrees sys" and bud: "budget_ok sys" and sw: "sweep_begin now (RySvc sys) = (Inr states, s)"
  shows "ledger_agrees (sys\<lparr>RySvc := s, RyClosing := cl\<rparr>)"
proof -
  let ?P = "\<lambda>(_, st). \<not> now < SsExpireTime (TsSession st)" and ?m = "RvSessions (RySvc sys)" and ?r = "RvRepo (RySvc sys)"
  note d = ag [unfolded agrees_def Let_def] and b = budget_okD [OF bud]
  have okm: "gm_ok ?m" using b by simp
  obtain r where call: "transitionSessions (map fst (filter ?P ?m)) SessionExpired now (RySvc sys) = (None, (RySvc sys)\<lparr>RvRepo := r\<rparr>)"
    and s: "s = (RySvc sys)\<lparr>RvRepo := r, RvSessions := fold (\<lambda>(_, st). gm_del (SsName (TsSession st))) (filter ?P ?m) ?m,
             RvStreams := drop_streams (map snd (filter ?P ?m)) (RvStreams (RySvc sys))\<rparr>"
    using sweep_begin_Inr [OF sw] by (auto simp: Let_def)
  have m: "fold (\<lambda>(_, st). gm_del (SsName (TsSession st))) (filter ?P ?m) ?m = filter (\<lambda>x. \<not> ?P x) ?m"
    using b by (intro gm_remove_filter) auto
  have "ok ?r" "RvRepository (RySvc sys) = repo" using d by simp_all
  from agrees_transition [OF this call] obtain r' where r': "(RySvc sys)\<lparr>RvRepo := r\<rparr> = (RySvc sys)\<lparr>RvRepo := r'\<rparr>"
    and c': "ok r'" "owner r' = owner ?r"
      "lifecycle r' = (\<lambda>n. if n \<in> fst ` set (filter ?P ?m) then Some SessionExpired else lifecycle ?r n)" by auto
  have "r' = r" using arg_cong [OF r', of RvRepo] by simp
  note c = c' [unfolded this]
  have get: "gm_get (filter (\<lambda>x. \<not> ?P x) ?m) n = Some st \<longleftrightarrow> gm_get ?m n = Some st \<and> \<not> ?P (n, st)" for n st
    by (auto simp: gm_get_filter [OF okm] split: option.splits)
  have domf: "n \<in> dom (gm_get (filter (\<lambda>x. \<not> ?P x) ?m)) \<longleftrightarrow> (\<exists>st. gm_get ?m n = Some st \<and> \<not> ?P (n, st))" for n
    by (simp only: dom_def mem_Collect_eq not_None_eq get)
  have "n \<in> fst ` set (filter ?P ?m) \<longleftrightarrow> (\<exists>st. gm_get ?m n = Some st \<and> ?P (n, st))" for n
    using okm by force
  then have life: "lifecycle r n = Some SessionActive \<longleftrightarrow> n \<in> dom (gm_get (filter (\<lambda>x. \<not> ?P x) ?m))"
    if "\<forall>n. lifecycle ?r n = Some SessionActive \<longleftrightarrow> n \<in> dom (gm_get ?m)" for n
    using that unfolding c(3) domf by auto
  have "recorded (owner r) (filter (\<lambda>x. \<not> ?P x) ?m)" using d unfolding recorded_def get c(2) by blast
  moreover have "session_streams (filter (\<lambda>x. \<not> ?P x) ?m) (drop_streams (map snd (filter ?P ?m)) (RvStreams (RySvc sys)))"
    using session_streams_drop [OF okm] d by blast
  ultimately show ?thesis unfolding agrees_def Let_def using d c(1) life by (simp add: s m)
qed

lemma agrees_close:
  assumes ag: "ledger_agrees sys" and cl: "close_begin now (RySvc sys) = ((e, states, reservations), s)"
  shows "ledger_agrees (sys\<lparr>RySvc := s, RyClosing := xs, RyReleasing := ys\<rparr>)"
proof -
  note d = ag [unfolded agrees_def Let_def]
  let ?s = "(RySvc sys)\<lparr>RvClosed := True\<rparr>"
  obtain r where call: "transitionSessions (map (SsName \<circ> TsSession \<circ> snd) (RvSessions (RySvc sys))) SessionUnavailable now ?s
      = (e, (RySvc sys)\<lparr>RvClosed := True, RvRepo := r\<rparr>)"
    and s: "s = (RySvc sys)\<lparr>RvClosed := True, RvRepo := r, RvSessions := [], RvStreams := []\<rparr>"
    using close_begin_cases [OF cl] by blast
  have "ok (RvRepo ?s)" "RvRepository ?s = repo" using d by simp_all
  from agrees_transition [OF this call] obtain r' where
    r': "(RySvc sys)\<lparr>RvClosed := True, RvRepo := r\<rparr> = ?s\<lparr>RvRepo := r'\<rparr>" "ok r'" by blast
  have "r' = r" using arg_cong [OF r'(1), of RvRepo] by simp
  then show ?thesis unfolding agrees_def Let_def using d r'(2) by (simp add: s)
qed

lemma agrees_reconcile:
  assumes ag: "ledger_agrees sys"
  shows "ledger_agrees (sys\<lparr>RySvc := snd (ReconcilePersistedSessions now (RySvc sys))\<rparr>)"
proof (cases "RvClosed (RySvc sys) \<or> RvStateReconciled (RySvc sys)")
  case True
  then show ?thesis using ag by (auto simp: ReconcilePersistedSessions_def)
next
  case False
  note d = ag [unfolded agrees_def Let_def]
  have okr: "ok (RvRepo (RySvc sys))" and none: "RvSessions (RySvc sys) = []" using d False by auto
  obtain res r where call: "SpReconcileActive repo now (RvRepo (RySvc sys)) = (res, r)" by fastforce
  show ?thesis
  proof (cases res)
    case (Inl e)
    then have "ok r \<and> lifecycle r = lifecycle (RvRepo (RySvc sys)) \<and> owner r = owner (RvRepo (RySvc sys))"
      using reconcile_failed [OF okr] call by blast
    then show ?thesis using agrees_repo [OF ag, of r] False call d Inl by (auto simp: ReconcilePersistedSessions_def)
  next
    case (Inr count)
    then have c: "ok r" "owner r = owner (RvRepo (RySvc sys))"
      "\<forall>n. if lifecycle (RvRepo (RySvc sys)) n = Some SessionActive then lifecycle r n \<in> {Some SessionExpired, Some SessionUnavailable}
                else lifecycle r n = lifecycle (RvRepo (RySvc sys)) n"
      using reconcile [OF okr] call by blast+
    have "lifecycle r n \<noteq> Some SessionActive" for n using c(3) [rule_format, of n] by (auto split: if_splits)
    then show ?thesis using False call d Inr c none unfolding agrees_def Let_def
      by (simp add: ReconcilePersistedSessions_def)
  qed
qed

lemma agrees_read_rows:
  assumes ag: "ledger_agrees sys" and rr: "ReadRows request send now (RySvc sys) = Some (out, s)"
  shows "ledger_agrees (sys\<lparr>RySvc := s\<rparr>)"
proof (cases "gm_get (RvStreams (RySvc sys)) (RqStreamName request)")
  case (Some entry)
  from read_rows_cases [OF this, of send now] have "s = RySvc sys" using rr by (auto split: bind_splits)
  then show ?thesis using ag by simp
next
  case None
  note d = ag [unfolded agrees_def Let_def]
  obtain res r where call: "SpGetStream repo (RqStreamName request) (RvRepo (RySvc sys)) = (res, r)" by fastforce
  have "ok (RvRepo (RySvc sys))" using d by simp
  from agrees_repo [OF ag, of r] get_stream [OF this call] have "ledger_agrees (sys\<lparr>RySvc := (RySvc sys)\<lparr>RvRepo := r\<rparr>\<rparr>)" by simp
  moreover have "s = RySvc sys \<or> s = (RySvc sys)\<lparr>RvRepo := r\<rparr>"
    using rr None call d by (auto simp: ReadRows_def persistedStreamError_def split: if_splits sum.splits prod.splits)
  ultimately show ?thesis using ag by auto
qed

lemma agrees_frame:
  assumes "ledger_agrees sys" "RvRepository s = RvRepository (RySvc sys)" "RvRepo s = RvRepo (RySvc sys)"
    "RvSessions s = RvSessions (RySvc sys)" "RvStreams s = RvStreams (RySvc sys)" "RvClosed s = RvClosed (RySvc sys)"
    "RvStateReconciled s = RvStateReconciled (RySvc sys)"
  shows "ledger_agrees (sys\<lparr>RySvc := s\<rparr>)"
  using assms by (simp add: agrees_def Let_def)

lemma agrees_waiting:
  assumes "ledger_agrees sys" "\<forall>c \<in> set creating. 0 < snd (snd c)" "creating \<noteq> [] \<longrightarrow> RvStateReconciled (RySvc sys)"
  shows "ledger_agrees (sys\<lparr>RyCreating := creating, RyReleasing := releasing, RyClosing := closing\<rparr>)"
  using assms by (auto simp: agrees_def Let_def)

lemma agrees_create:
  assumes ag: "ledger_agrees sys" and bud: "budget_ok sys"
  shows "ledger_agrees (read_step (EvCreate ctx request) sys)"
proof (cases "create_begin ctx request (RySvc sys)")
  case (Pair res s)
  note d = ag [unfolded agrees_def Let_def]
  show ?thesis
  proof (cases res)
    case (Inl e)
    then show ?thesis using ag Pair create_begin_Inl [of ctx request "RySvc sys" e s] by simp
  next
    case (Inr rc)
    obtain reservation count where rc: "rc = (reservation, count)" by (cases rc)
    have b: "reserveSession ctx (RySvc sys) = (Inr reservation, s)"
      "negotiateStreamCount (RvConfig (RySvc sys)) (CqMaxStreamCount request) (CqPreferredMinStreamCount request) = Inr count"
      using create_begin_Inr [of ctx request "RySvc sys" reservation count s] Pair Inr rc by auto
    have count: "0 < count" using negotiateStreamCount_pos [OF budget_okD [OF bud, THEN conjunct1] b(2)] .
    have s: "RvRepository s = RvRepository (RySvc sys)" "RvRepo s = RvRepo (RySvc sys)" "RvSessions s = RvSessions (RySvc sys)"
      "RvStreams s = RvStreams (RySvc sys)" "RvClosed s = RvClosed (RySvc sys)" "RvStateReconciled s = RvStateReconciled (RySvc sys)"
      "RvStateReconciled (RySvc sys)"
      using b(1) by (auto simp: reserveSession_def admission_reason_def Let_def split: option.splits prod.splits if_splits)
    have "ledger_agrees (sys\<lparr>RySvc := s\<rparr>)" by (rule agrees_frame [OF ag s(1-6)])
    from agrees_waiting [OF this, of "(reservation, request, count) # RyCreating sys" "RyClosing sys" "RyReleasing sys"]
    show ?thesis using Pair Inr rc count s(6,7) d by simp
  qed
qed

lemma agrees_materialized:
  assumes ag: "ledger_agrees sys" and i: "i < length (RyCreating sys)"
  shows "ledger_agrees (read_step (EvMaterialized i ctx answer sid now) sys)"
proof -
  obtain reservation request count where c: "RyCreating sys ! i = (reservation, request, count)" by (cases "RyCreating sys ! i")
  let ?s = "RySvc sys"
  let ?st = "create_state (RvConfig ?s) ctx (RvClosed ?s) request count answer sid now"
  note d = ag [unfolded agrees_def Let_def]
  have creating: "RyCreating sys \<noteq> []" using i by auto
  have count: "0 < count" using d nth_mem [OF i] c by force
  have reconciled: "RvStateReconciled ?s" using d creating by auto
  have left: "\<forall>x \<in> set (remove_nth i (RyCreating sys)). 0 < snd (snd x)" using d set_remove_nth by fastforce
  have failed: "ledger_agrees (sys\<lparr>RySvc := ?s\<lparr>RvRepo := r\<rparr>, RyCreating := remove_nth i (RyCreating sys), RyReleasing := reservation # RyReleasing sys\<rparr>)"
    if "ok r" "lifecycle r = lifecycle (RvRepo ?s)" "owner r = owner (RvRepo ?s)" for r
    using agrees_waiting [OF agrees_repo [OF ag that] left, of "RyClosing sys" "reservation # RyReleasing sys"] reconciled by simp
  show ?thesis
  proof (cases "create_commit reservation ?st ?s")
    case (Pair res s1)
    show ?thesis
    proof (cases res)
      case (Inl e)
      then have "\<exists>r. s1 = ?s\<lparr>RvRepo := r\<rparr> \<and> (r = RvRepo ?s \<or> (\<exists>rec x. SpCreateSession repo rec (RvRepo ?s) = (Some x, r)))"
        using Pair d
        by (auto simp: create_commit_def split: sum.splits prod.splits option.splits dest!: commitReservedSession_repo
            intro: exI [of _ "RvRepo ?s"])
      then obtain r where r: "s1 = ?s\<lparr>RvRepo := r\<rparr>" "r = RvRepo ?s \<or> (\<exists>rec x. SpCreateSession repo rec (RvRepo ?s) = (Some x, r))" by blast
      have "ok r \<and> lifecycle r = lifecycle (RvRepo ?s) \<and> owner r = owner (RvRepo ?s)"
        using r(2) create_failed [of "RvRepo ?s"] d by blast
      then show ?thesis using failed i c Pair Inl r(1) by (simp add: Let_def)
    next
      case (Inr session)
      then obtain state where st: "?st = Inr state" "commitReservedSession reservation state ?s = (None, s1)"
        using Pair by (auto simp: create_commit_def split: sum.splits prod.splits option.splits)
      show ?thesis using agrees_commit [OF ag create_state_ok [OF st(1) count] creating st(2), of i] i c Pair Inr by (simp add: Let_def)
    qed
  qed
qed

lemma agrees_step:
  assumes ag: "ledger_agrees sys" and bud: "budget_ok sys"
  shows "ledger_agrees (read_step event sys)"
proof (cases event)
  case (EvMaterialized i ctx answer sid now)
  then show ?thesis using agrees_materialized [OF ag] ag by (cases "i < length (RyCreating sys)") auto
next
  case (EvRelease i)
  have "ledger_agrees (sys\<lparr>RySvc := releaseReservation reservation (RySvc sys), RyReleasing := rs\<rparr>)" for reservation rs
    using ag by (auto simp: agrees_def Let_def releaseReservation_def split: option.splits)
  then show ?thesis using EvRelease ag by simp
next
  case (EvSweep now)
  show ?thesis
  proof (cases "sweep_begin now (RySvc sys)")
    case (Pair res s)
    show ?thesis
    proof (cases res)
      case (Inl e)
      let ?names = "map fst (filter (\<lambda>(_, st). \<not> now < SsExpireTime (TsSession st)) (RvSessions (RySvc sys)))"
      obtain x where call: "transitionSessions ?names SessionExpired now (RySvc sys) = (Some x, s)"
        using Pair Inl by (auto simp: sweep_begin_def Let_def split: prod.splits option.splits)
      have "ok (RvRepo (RySvc sys))" "RvRepository (RySvc sys) = repo" using ag by (simp_all add: agrees_def Let_def)
      from agrees_transition [OF this call] show ?thesis using EvSweep Pair Inl agrees_repo [OF ag] by auto
    next
      case (Inr states)
      then show ?thesis using agrees_sweep [OF ag bud] Pair EvSweep by simp
    qed
  qed
next
  case (EvClose now)
  then show ?thesis using agrees_close [OF ag] by (auto split: prod.splits)
next
  case (EvCloseSnapshot i)
  have "ledger_agrees (sys\<lparr>RySvc := snd (releaseSnapshotBudget st (RySvc sys)), RyClosing := cs\<rparr>)" for st cs
    using ag by (auto simp: agrees_def Let_def releaseSnapshotBudget_def)
  then show ?thesis using EvCloseSnapshot ag by simp
next
  case (EvReadRows request send now)
  then show ?thesis using ag agrees_read_rows [OF ag] by (auto split: option.splits prod.splits)
qed (use ag bud agrees_create agrees_reconcile in \<open>auto simp del: read_step.simps(1)\<close>)

lemma agrees_start:
  assumes "ReadService_New config (Some repo) r = Inr s" "ok r"
  shows "ledger_agrees (read_start s)"
  using assms by (auto simp: ReadService_New_def agrees_def read_start_def Let_def split: option.splits)

lemma agrees_reachable:
  assumes "ReadService_New config (Some repo) r = Inr s" "ok r" "in_i64 (RcMaxTotalSnapshotBytes config)" "read_reachable s sys"
  shows "ledger_agrees sys"
proof -
  have start: "budget_ok (read_start s)" by (rule budget_start [OF assms(1,3)])
  from assms(4) show ?thesis
  proof (induction rule: read_reachable.induct)
    case read_init
    show ?case by (rule agrees_start [OF assms(1,2)])
  next
    case (read_next sys event)
    then show ?case using agrees_step budget_reachable [OF _ start] by blast
  qed
qed

text \<open>A stream the repository records is in memory exactly when its session is active.\<close>

lemma agrees_stream:
  assumes ag: "ledger_agrees sys" and st: "RvStateReconciled (RySvc sys)" "\<not> RvClosed (RySvc sys)"
    and own: "owner (RvRepo (RySvc sys)) k = Some n"
  shows "lifecycle (RvRepo (RySvc sys)) n = Some SessionActive \<longleftrightarrow> k \<in> dom (gm_get (RvStreams (RySvc sys)))"
proof -
  note d = ag [unfolded agrees_def Let_def]
  have rec: "recorded (owner (RvRepo (RySvc sys))) (RvSessions (RySvc sys))" and ss: "session_streams (RvSessions (RySvc sys)) (RvStreams (RySvc sys))"
    and life: "lifecycle (RvRepo (RySvc sys)) n = Some SessionActive \<longleftrightarrow> n \<in> dom (gm_get (RvSessions (RySvc sys)))" using d st by auto
  show ?thesis
  proof
    assume "lifecycle (RvRepo (RySvc sys)) n = Some SessionActive"
    then obtain state where m: "gm_get (RvSessions (RySvc sys)) n = Some state" using life by blast
    then have "SsName (TsSession state) = n" "k \<in> SmName ` set (SsStreams (TsSession state))"
      using rec own by (auto simp: recorded_def)
    then obtain x where "x \<in> set (SsStreams (TsSession state))" "k = SmName x" "SsName (TsSession state) = n" by auto
    then have "gm_get (RvStreams (RySvc sys)) k = Some \<lparr>TtSession = state, TtStream = x\<rparr>"
      using ss m unfolding session_streams_def by simp
    then show "k \<in> dom (gm_get (RvStreams (RySvc sys)))" by blast
  next
    assume "k \<in> dom (gm_get (RvStreams (RySvc sys)))"
    then obtain e where get: "gm_get (RvStreams (RySvc sys)) k = Some e" by blast
    have e: "gm_get (RvSessions (RySvc sys)) (SsName (TsSession (TtSession e))) = Some (TtSession e)"
      "k \<in> SmName ` set (SsStreams (TsSession (TtSession e)))"
      using ss [unfolded session_streams_def, rule_format, of k e, THEN iffD1, OF get] by auto
    then have "owner (RvRepo (RySvc sys)) k = Some (SsName (TsSession (TtSession e)))" using rec unfolding recorded_def by blast
    then show "lifecycle (RvRepo (RySvc sys)) n = Some SessionActive" using own e(1) life by auto
  qed
qed

end

section \<open>The service on SQLite\<close>

lemma sqlite_agrees:
  assumes "ReadService_New config (Some ReadSessionRepository) db = Inr s0" "read_db_ok db"
    "in_i64 (RcMaxTotalSnapshotBytes config)" "read_reachable s0 sys"
  shows "agrees ReadSessionRepository read_db_ok session_lifecycle stream_owner sys"
  by (rule sessions.agrees_reachable [OF assms])

text \<open>
  C23. In every run of the service on SQLite, from the end of startup reconciliation to shutdown, memory and tables
  agree: a session is in memory exactly when its row is ACTIVE, a recorded stream is served from memory exactly when its
  session is ACTIVE, and the streams of every session in memory partition its snapshot.
\<close>

theorem read_memory_matches_tables:
  assumes "ReadService_New config (Some ReadSessionRepository) db = Inr s0" "read_db_ok db"
    "in_i64 (RcMaxTotalSnapshotBytes config)" "read_reachable s0 sys"
    and "RvStateReconciled (RySvc sys)" "\<not> RvClosed (RySvc sys)"
  shows "(\<forall>n. session_lifecycle (RvRepo (RySvc sys)) n = Some SessionActive \<longleftrightarrow> n \<in> dom (gm_get (RvSessions (RySvc sys))))
    \<and> (\<forall>k n. stream_owner (RvRepo (RySvc sys)) k = Some n \<longrightarrow>
         (session_lifecycle (RvRepo (RySvc sys)) n = Some SessionActive \<longleftrightarrow> k \<in> dom (gm_get (RvStreams (RySvc sys)))))
    \<and> (\<forall>n st. gm_get (RvSessions (RySvc sys)) n = Some st \<longrightarrow>
         streams_cover 0 (SsEstimatedRowCount (TsSession st)) (SsStreams (TsSession st)))"
proof -
  note ag = sqlite_agrees [OF assms(1-4)]
  note d = ag [unfolded agrees_def Let_def]
  show ?thesis using d assms(5,6) sessions.agrees_stream [OF ag assms(5,6)] by (auto simp: recorded_def session_ok_def)
qed

text \<open>
  C27. The status of a stream that is not in memory says what became of it: NOT_FOUND when it was never recorded or
  its session expired, UNAVAILABLE when its session was ended by a shutdown or a restart.
\<close>

theorem read_rows_ended_status:
  assumes "ReadService_New config (Some ReadSessionRepository) db = Inr s0" "read_db_ok db"
    "in_i64 (RcMaxTotalSnapshotBytes config)" "read_reachable s0 sys"
    and "RvStateReconciled (RySvc sys)" "\<not> RvClosed (RySvc sys)" "RdFaults (RvRepo (RySvc sys)) = []"
    and "RqStreamName request \<noteq> []" "0 \<le> RqOffset request" "gm_get (RvStreams (RySvc sys)) (RqStreamName request) = None"
  shows "\<exists>e. ReadRows request send now (RySvc sys) = Some ((Some e, []), RySvc sys)
    \<and> (case stream_owner (RvRepo (RySvc sys)) (RqStreamName request) of
         None \<Rightarrow> ReadCodeOf e = ReadNotFound
       | Some n \<Rightarrow> session_lifecycle (RvRepo (RySvc sys)) n = Some SessionExpired \<and> ReadCodeOf e = ReadNotFound
           \<or> session_lifecycle (RvRepo (RySvc sys)) n = Some SessionUnavailable \<and> ReadCodeOf e = ReadUnavailable)"
proof -
  let ?k = "RqStreamName request" and ?db = "RvRepo (RySvc sys)"
  note ag = sqlite_agrees [OF assms(1-4)]
  note d = ag [unfolded agrees_def Let_def]
  have db: "read_db_ok ?db" and repo: "RvRepository (RySvc sys) = ReadSessionRepository" using d by auto
  have same: "(RySvc sys)\<lparr>RvRepo := ?db\<lparr>RdFaults := []\<rparr>\<rparr> = RySvc sys" using assms(7) by simp
  show ?thesis
  proof (cases "gm_get (RdStreams ?db) ?k")
    case None
    then show ?thesis using assms(7-10) same
      by (simp add: ReadRows_def persistedStreamError_def repo ReadSessionRepository_def read_GetStream_def Let_def
          stream_owner_def errors_Is_def ReadCodeOf_def)
  next
    case (Some row)
    then obtain n i x where row: "gm_get (RdStreams ?db) ?k = Some (n, i, x)" by (cases row) auto
    then have "read_stream_row (gm_get (RdSessions ?db)) ?k (n, i, x)" using db unfolding read_db_ok_def by blast
    then obtain r where r: "gm_get (RdSessions ?db) n = Some r" by (auto simp: read_stream_row_def split: option.splits)
    then have "read_sessions_CHECK r" using db unfolding read_db_ok_def by blast
    moreover have "SdLifecycle r \<noteq> SessionActive"
      using sessions.agrees_stream [OF ag assms(5,6), of ?k n] row r assms(10) by (auto simp: stream_owner_def session_lifecycle_def)
    ultimately have "SdLifecycle r = SessionExpired \<or> SdLifecycle r = SessionUnavailable" by (auto simp: read_sessions_CHECK_def)
    then show ?thesis using assms(7-10) row r same
      by (auto simp: ReadRows_def persistedStreamError_def repo ReadSessionRepository_def read_GetStream_def Let_def
          stream_owner_def session_lifecycle_def ReadCodeOf_def)
  qed
qed

section \<open>An instance\<close>

definition empty_read_db :: ReadDB where
  "empty_read_db = \<lparr>RdSessions = [], RdStreams = [], RdFaults = []\<rparr>"

definition sample_sqlite_service :: "ReadDB ReadService" where
  "sample_sqlite_service =
     \<lparr>RvConfig = sample_read_config, RvRepository = ReadSessionRepository, RvRepo = empty_read_db, RvSessions = [], RvStreams = [],
      RvReservations = [], RvNextReservationID = 0, RvRetainedSnapshotBytes = 0, RvClosed = False, RvStateReconciled = False\<rparr>"

abbreviation sample_reconciled :: "ReadDB ReadSystem" where
  "sample_reconciled \<equiv> read_step (EvReconcile 5) (read_start sample_sqlite_service)"

lemma sample_sqlite_facts:
  "ReadService_New sample_read_config (Some ReadSessionRepository) empty_read_db = Inr sample_sqlite_service"
  "read_db_ok empty_read_db" "in_i64 (RcMaxTotalSnapshotBytes sample_read_config)"
  "RvStateReconciled (RySvc sample_reconciled)" "\<not> RvClosed (RySvc sample_reconciled)" "RdFaults (RvRepo (RySvc sample_reconciled)) = []"
  "gm_get (RvStreams (RySvc sample_reconciled)) ''x'' = None" "RvRepo (RySvc sample_reconciled) = empty_read_db"
  using sample_read_config_ok
  by (simp_all add: ReadService_New_def sample_sqlite_service_def read_db_ok_def empty_read_db_def sample_read_config_def in_i64_def
      read_start_def ReconcilePersistedSessions_def ReadSessionRepository_def read_ReconcileActive_def Let_def)

lemma sample_reconciled_reachable: "read_reachable sample_sqlite_service sample_reconciled"
  by (intro read_next read_init) (simp add: ids_left_def read_start_def sample_sqlite_service_def)

theorem read_memory_matches_tables_witness:
  "\<forall>n. session_lifecycle (RvRepo (RySvc sample_reconciled)) n = Some SessionActive \<longleftrightarrow> n \<in> dom (gm_get (RvSessions (RySvc sample_reconciled)))"
  using read_memory_matches_tables [OF sample_sqlite_facts(1-3) sample_reconciled_reachable sample_sqlite_facts(4,5)] by blast

theorem read_rows_ended_status_witness:
  "\<exists>e. ReadRows \<lparr>RqStreamName = ''x'', RqOffset = 0\<rparr> (\<lambda>_ _. None) 7 (RySvc sample_reconciled) = Some ((Some e, []), RySvc sample_reconciled)
    \<and> ReadCodeOf e = ReadNotFound"
proof -
  have "stream_owner (RvRepo (RySvc sample_reconciled)) ''x'' = None"
    unfolding sample_sqlite_facts(8) by (simp add: stream_owner_def empty_read_db_def)
  then show ?thesis
    using read_rows_ended_status [OF sample_sqlite_facts(1-3) sample_reconciled_reachable sample_sqlite_facts(4,5,6),
        of "\<lparr>RqStreamName = ''x'', RqOffset = 0\<rparr>" "\<lambda>_ _. None" 7] sample_sqlite_facts(7) by simp
qed

end
