(* ===== verification/Read_Creation.thy ===== *)
theory Read_Creation
  imports Read_Session_Ledger
begin

text \<open>
  The session that \<open>CreateSession\<close> builds passes every check of the SQLite repository: the validation of
  \<open>read_sessions.go\<close>, the CHECKs and the keys. So an admitted request whose snapshot keeps its contract is stored, unless the
  engine fails or the identifier was used before.
\<close>

section \<open>Resource names\<close>

lemma validParent_form: "validParent v \<Longrightarrow> \<exists>p. v = ''projects/'' @ p \<and> validResourceSegment p"
proof -
  assume v: "validParent v"
  then obtain a p where "strings_Split (CHR ''/'') v = [a, p]" "a = ''projects''" "validResourceSegment p"
    by (auto simp: validParent_def Let_def length_Suc_conv numeral_2_eq_2)
  moreover have "v = strings_Join (strings_Split (CHR ''/'') v) ''/''" by simp
  ultimately show ?thesis by auto
qed

lemma validTable_form:
  assumes v: "validTable v"
  shows "\<exists>p d t. v = ''projects/'' @ p @ ''/datasets/'' @ d @ ''/tables/'' @ t
    \<and> validResourceSegment p \<and> validResourceSegment d \<and> validResourceSegment t"
proof -
  obtain a p b d c t where "strings_Split (CHR ''/'') v = [a, p, b, d, c, t]" "a = ''projects''" "b = ''datasets''" "c = ''tables''"
    "validResourceSegment p" "validResourceSegment d" "validResourceSegment t"
    using v by (auto simp: validTable_def Let_def length_Suc_conv eval_nat_numeral)
  moreover have "v = strings_Join (strings_Split (CHR ''/'') v) ''/''" by simp
  ultimately show ?thesis by auto
qed

lemma segment_length: "validResourceSegment v \<Longrightarrow> length v \<le> 256"
  by (simp add: validResourceSegment_def)

lemma sqlite_length_from_le: "sqlite_length_from b s \<le> length s"
  by (induction s arbitrary: b) (auto intro: le_SucI)

lemma sqlite_length_projects: "1 \<le> sqlite_length (''projects/'' @ s)" "sqlite_length (''projects/'' @ s) \<le> 9 + length s"
  using sqlite_length_from_le [of False "''projects/'' @ s"] by (simp_all add: sqlite_length_def)

lemma projects_not_blank: "\<not> blank (''projects/'' @ s)"
  by (simp add: ascii_space_def space2_def space3_def)

lemma length_format_nat: "n < 10 ^ k \<Longrightarrow> 0 < k \<Longrightarrow> length (format_nat n) \<le> k"
proof (induction k arbitrary: n)
  case (Suc k)
  show ?case
  proof (cases "n < 10")
    case False
    then have "n div 10 < 10 ^ k" "0 < k" using Suc.prems by (auto simp: less_mult_imp_div_less mult.commute intro!: gr0I)
    then show ?thesis using Suc.IH [of "n div 10"] False by (subst format_nat.simps) simp
  qed (subst format_nat.simps, simp)
qed simp

lemma session_name_form:
  assumes "validateCreateRequest r = None"
  shows "\<exists>p. session_name config r i = ''projects/'' @ p @ ''/locations/'' @ RcLocation config @ ''/sessions/'' @ i \<and> length p \<le> 256"
proof -
  have "validParent (CqParent r)" using assms by (auto simp: validateCreateRequest_def split: if_splits)
  then obtain p where "CqParent r = ''projects/'' @ p" "validResourceSegment p" using validParent_form by blast
  then show ?thesis by (auto simp: session_name_def strings_TrimPrefix_def strings_HasPrefix_def segment_length)
qed

section \<open>Streams\<close>

lemma read_stream_loop_None:
  assumes "streams_cover a b ss" "0 \<le> a" "previous \<in> {None, Some a}" "\<forall>x \<in> set ss. strings_HasPrefix (SmName x) (session @ ''/streams/'')"
    and "distinct (map SmName ss)" "set seen \<inter> SmName ` set ss = {}"
  shows "read_stream_loop session seen previous ss = None"
  using assms
proof (induction ss arbitrary: a seen previous)
  case (Cons x ss)
  have "read_stream_loop session (SmName x # seen) (Some (SmEndOffset x)) ss = None"
    by (rule Cons.IH) (use Cons.prems in auto)
  then show ?case using Cons.prems by auto
qed simp

lemma streams_cover_ends: "streams_cover a b ss \<Longrightarrow> ss \<noteq> [] \<Longrightarrow> SmStartOffset (hd ss) = a \<and> SmEndOffset (last ss) = b"
proof (induction ss arbitrary: a)
  case (Cons x ss)
  then show ?case by (cases ss) auto
qed simp

lemma insert_read_streams_succeeds:
  assumes "distinct (map SmName ss)" "\<forall>x \<in> set ss. gm_get (RdStreams db) (SmName x) = None \<and> read_streams_CHECK x"
  shows "\<exists>db'. insert_read_streams session index ss db = Inr db'"
  using assms
proof (induction ss arbitrary: index db)
  case (Cons x ss)
  let ?db = "db\<lparr>RdStreams := gm_put (SmName x) (session, index, x) (RdStreams db)\<rparr>"
  have "SmName y \<noteq> SmName x" if "y \<in> set ss" for y
    using Cons.prems(1) that by (simp add: image_iff) metis
  then have "\<exists>db'. insert_read_streams session (Suc index) ss ?db = Inr db'" by (intro Cons.IH) (use Cons.prems in auto)
  then show ?case using Cons.prems by simp
qed simp

lemma partition_stream:
  assumes "x \<in> set (partitionStreams session rows count)" "0 \<le> rows" "0 < count" "count < 2 ^ 31"
  shows "strings_HasPrefix (SmName x) (session @ ''/streams/'') \<and> length (SmName x) \<le> length session + 19
    \<and> 0 \<le> SmStartOffset x \<and> SmStartOffset x \<le> SmEndOffset x"
proof -
  note p = partitionStreams_facts [OF assms(2,3), of session]
  have "SmName x \<in> set (map SmName (partitionStreams session rows count))" using assms(1) by simp
  also have "map SmName (partitionStreams session rows count) = map (\<lambda>i. session @ ''/streams/'' @ FormatInt (int i)) [0..<nat count]"
    using partition_from_shape [of session "rows div count" "rows mod count" 0 0 "nat count"] by (simp add: partitionStreams_def)
  finally obtain i where i: "i < nat count" "SmName x = session @ ''/streams/'' @ FormatInt (int i)" by auto
  have "int i < 2 ^ 31" using i(1) assms(4) by linarith
  then have "i < 10 ^ 10" by simp
  then have "length (FormatInt (int i)) \<le> 10" using length_format_nat [of i 10] by (simp add: FormatInt_def)
  moreover have "0 \<le> SmStartOffset x" "SmStartOffset x \<le> SmEndOffset x" using streams_cover_bounds [of 0 rows _ x] p assms(1) by auto
  ultimately show ?thesis using i(2) by (simp add: strings_HasPrefix_def)
qed

section \<open>The record of a new session\<close>

lemma read_digest_fingerprint: "validSHA256Fingerprint (read_digest x)" "fingerprint_text (read_digest x)"
  by (simp_all add: read_digest_def validSHA256Fingerprint_def fingerprint_text_def strings_HasPrefix_def)

definition clock_ok :: "ReadConfig \<Rightarrow> time \<Rightarrow> bool" where
  "clock_ok config now \<longleftrightarrow> in_i64 (now - unix_epoch) \<and> in_i64 (now + RcSessionTTL config - unix_epoch)"

lemma clock_ok_times:
  assumes "clock_ok config now"
  shows "db_time now = now" "db_time (now + RcSessionTTL config) = now + RcSessionTTL config" "0 < now" "0 < now + RcSessionTTL config"
  using assms by (auto simp: clock_ok_def db_time_def in_i64_def unix_epoch_def)

definition request_ready ::
  "ReadConfig \<Rightarrow> CreateSessionRequest \<Rightarrow> int \<Rightarrow> ReadSnapshot \<Rightarrow> SnapshotMetadata \<Rightarrow> string \<Rightarrow> time \<Rightarrow> bool" where
  "request_ready config r count snapshot m i now \<longleftrightarrow>
     validateReadConfig config = None \<and> RcMaxStreams config < 2 ^ 31 \<and> validateCreateRequest r = None
     \<and> negotiateStreamCount config (CqMaxStreamCount r) (CqPreferredMinStreamCount r) = Inr count
     \<and> validateSnapshotMetadata (CqFormat r) (SnMetadata snapshot) = Inr m \<and> SmRetainedBytes m \<le> RcMaxSnapshotBytes config
     \<and> validResourceSegment i \<and> clock_ok config now"

lemma negotiateStreamCount_max: "negotiateStreamCount c maximum preferred = Inr n \<Longrightarrow> n \<le> RcMaxStreams c"
  by (auto simp: negotiateStreamCount_def Let_def split: if_splits)

lemma request_ready_count: "request_ready config r count snapshot m i now \<Longrightarrow> 0 < count \<and> count < 2 ^ 31"
  unfolding request_ready_def using negotiateStreamCount_pos negotiateStreamCount_max by fastforce

lemma request_ready_name:
  assumes "request_ready config r count snapshot m i now"
  shows "1 \<le> sqlite_length (session_name config r i) \<and> length (session_name config r i) \<le> 900 \<and> \<not> blank (session_name config r i)
    \<and> (\<exists>s. session_name config r i = ''projects/'' @ s)"
proof -
  obtain p where p: "session_name config r i = ''projects/'' @ p @ ''/locations/'' @ RcLocation config @ ''/sessions/'' @ i" "length p \<le> 256"
    using session_name_form [of r config i] assms by (auto simp: request_ready_def)
  have "length (RcLocation config) \<le> 256" "length i \<le> 256"
    using assms by (auto simp: request_ready_def validateReadConfig_def segment_length split: if_splits)
  then show ?thesis using p sqlite_length_projects(1) [of "p @ ''/locations/'' @ RcLocation config @ ''/sessions/'' @ i"]
      projects_not_blank [of "p @ ''/locations/'' @ RcLocation config @ ''/sessions/'' @ i"] by simp
qed

lemma request_ready_table:
  assumes "request_ready config r count snapshot m i now"
  shows "1 \<le> sqlite_length (CqTable r) \<and> sqlite_length (CqTable r) \<le> 2048 \<and> \<not> blank (CqTable r)"
proof -
  have "validTable (CqTable r)" using assms by (auto simp: request_ready_def validateCreateRequest_def split: if_splits)
  then obtain p d t where "CqTable r = ''projects/'' @ p @ ''/datasets/'' @ d @ ''/tables/'' @ t" "length p \<le> 256" "length d \<le> 256" "length t \<le> 256"
    using validTable_form segment_length by metis
  then show ?thesis using sqlite_length_projects [of "p @ ''/datasets/'' @ d @ ''/tables/'' @ t"]
      projects_not_blank [of "p @ ''/datasets/'' @ d @ ''/tables/'' @ t"] by simp
qed

lemma new_session_record_valid:
  assumes "request_ready config r count snapshot m i now"
  shows "validateReadSessionRecord (new_session_record r m (new_session config r count m i now) now) = None"
    and "read_sessions_CHECK (read_session_values (new_session_record r m (new_session config r count m i now) now))"
proof -
  let ?name = "session_name config r i"
  let ?ss = "partitionStreams ?name (SmRowCount m) count"
  note q = assms [unfolded request_ready_def] and count = request_ready_count [OF assms]
  have m: "0 \<le> SmRowCount m" "0 \<le> SmEstimatedBytes m" "0 \<le> SmRetainedBytes m" "RsFingerprint (SmSchema m) = read_digest (RsSerialized (SmSchema m))"
    using validateSnapshotMetadata_Inr q by blast+
  note p = partitionStreams_facts [OF m(1) conjunct1 [OF count], of ?name]
  have ss: "?ss \<noteq> []" using p count by auto
  have ends: "SmStartOffset (hd ?ss) = 0" "SmEndOffset (last ?ss) = SmRowCount m" using streams_cover_ends [OF _ ss] p by blast+
  have loop: "read_stream_loop ?name [] None ?ss = None"
    by (rule read_stream_loop_None [of 0 "SmRowCount m"]) (use p partition_stream [OF _ m(1)] count in auto)
  have ttl: "0 < RcSessionTTL config" using q by (auto simp: validateReadConfig_def split: if_splits)
  have fmt: "CqFormat r = FormatArrow \<or> CqFormat r = FormatAvro" "\<not> list_ex blank (CqSelectedFields r)"
    using q by (auto simp: validateCreateRequest_def split: if_splits)
  have "clock_ok config now" using q by blast
  note t = clock_ok_times [OF this]
  note n = request_ready_name [OF assms] and tb = request_ready_table [OF assms]
  show "validateReadSessionRecord (new_session_record r m (new_session config r count m i now) now) = None"
    using n tb fmt t ttl ss m loop ends
    by (auto simp: validateReadSessionRecord_def new_session_record_def new_session_def Let_def read_digest_fingerprint)
  have "sqlite_length ?name \<le> 2048" using n sqlite_length_from_le [of False ?name] by (simp add: sqlite_length_def)
  then show "read_sessions_CHECK (read_session_values (new_session_record r m (new_session config r count m i now) now))"
    using n tb fmt t ttl ss m
    by (auto simp: read_sessions_CHECK_def read_session_values_def new_session_record_def new_session_def Let_def read_digest_fingerprint)
qed

lemma new_session_streams:
  assumes "request_ready config r count snapshot m i now" "x \<in> set (partitionStreams (session_name config r i) (SmRowCount m) count)"
  shows "read_streams_CHECK x"
proof -
  have "0 \<le> SmRowCount m" using validateSnapshotMetadata_Inr assms(1) unfolding request_ready_def by blast
  note px = partition_stream [OF assms(2) this conjunct1 [OF request_ready_count [OF assms(1)]] conjunct2 [OF request_ready_count [OF assms(1)]]]
  note n = request_ready_name [OF assms(1)]
  have "SmName x = (session_name config r i @ ''/streams/'') @ drop (length (session_name config r i @ ''/streams/'')) (SmName x)"
    using px by (metis append_take_drop_id strings_HasPrefix_def)
  then obtain u where "SmName x = session_name config r i @ u" by (metis append.assoc)
  then obtain v where "SmName x = ''projects/'' @ v" using n by auto
  then have "1 \<le> sqlite_length (SmName x)" using sqlite_length_projects(1) by simp
  moreover have "sqlite_length (SmName x) \<le> 2304" using px n sqlite_length_from_le [of False "SmName x"] by (simp add: sqlite_length_def)
  ultimately show ?thesis using px by (simp add: read_streams_CHECK_def)
qed

lemma read_CreateSession_succeeds:
  assumes ready: "request_ready config r count snapshot m i now" and "RdFaults db = []"
    and "gm_get (RdSessions db) (session_name config r i) = None"
    and "list_all (\<lambda>x. gm_get (RdStreams db) (SmName x) = None) (partitionStreams (session_name config r i) (SmRowCount m) count)"
  shows "\<exists>db'. read_CreateSession (new_session_record r m (new_session config r count m i now) now) db = (None, db')"
proof -
  let ?ss = "partitionStreams (session_name config r i) (SmRowCount m) count"
  let ?rec = "new_session_record r m (new_session config r count m i now) now"
  have rec: "SdName ?rec = session_name config r i" "SdStreams ?rec = ?ss"
    by (simp_all add: new_session_record_def new_session_def Let_def)
  have "0 \<le> SmRowCount m" using validateSnapshotMetadata_Inr ready unfolding request_ready_def by blast
  then have "distinct (map SmName ?ss)" using partitionStreams_facts request_ready_count [OF ready] by blast
  then have "\<exists>db'. insert_read_streams (session_name config r i) 0 ?ss
      ((db\<lparr>RdFaults := []\<rparr>)\<lparr>RdSessions := gm_put (session_name config r i) (read_session_values ?rec) (RdSessions db)\<rparr>) = Inr db'"
    by (rule insert_read_streams_succeeds) (use assms(4) new_session_streams [OF ready] in \<open>auto simp: list_all_iff\<close>)
  then show ?thesis using new_session_record_valid [OF ready] assms(2,3)
    by (auto simp: read_CreateSession_def read_tx_def rec Let_def)
qed

text \<open>
  C26. An admitted request whose snapshot keeps its contract creates its session: the handler returns it, it is in memory with all
  its streams, and its row is ACTIVE, provided the engine has no fault, the clock is within the nanoseconds of an
  \<open>int64\<close> and the generated identifier is new.
\<close>

theorem create_session_stored:
  assumes ready: "request_ready (RvConfig s) r count snapshot m i now" and "admission_reason s = None"
    and repo: "RvRepository s = ReadSessionRepository" "RdFaults (RvRepo s) = []" "read_db_ok (RvRepo s)"
    and fresh: "gm_get (RvSessions s) (session_name (RvConfig s) r i) = None"
      "gm_get (RdSessions (RvRepo s)) (session_name (RvConfig s) r i) = None"
      "list_all (\<lambda>x. gm_get (RdStreams (RvRepo s)) (SmName x) = None)
         (partitionStreams (session_name (RvConfig s) r i) (SmRowCount m) count)"
    and "materialize (materialize_request r) = Materialized snapshot"
  shows "\<exists>s'. Service_CreateSession None ctx r materialize i now s = (Inr (new_session (RvConfig s) r count m i now), s')
    \<and> session_lifecycle (RvRepo s') (session_name (RvConfig s) r i) = Some SessionActive
    \<and> gm_get (RvSessions s') (session_name (RvConfig s) r i) \<noteq> None
    \<and> list_all (\<lambda>x. gm_get (RvStreams s') (SmName x) \<noteq> None) (SsStreams (new_session (RvConfig s) r count m i now))"
proof -
  let ?c = "RvConfig s" and ?session = "new_session (RvConfig s) r count m i now"
  let ?rec = "new_session_record r m ?session now"
  let ?state = "\<lparr>TsSession = ?session, TsSnapshot = snapshot, TsRetainedBytes = SmRetainedBytes m, TsRecord = ?rec\<rparr>"
  note q = ready [unfolded request_ready_def]
  obtain db' where call: "read_CreateSession ?rec (RvRepo s) = (None, db')"
    using read_CreateSession_succeeds [OF ready repo(2) fresh(2,3)] by blast
  obtain reservation s1 where res: "reserveSession None s = (Inr reservation, s1)" "SnBytes reservation = RcMaxSnapshotBytes ?c"
    "gm_get (RvReservations s1) (SnID reservation) = Some reservation" "RvConfig s1 = ?c" "RvRepo s1 = RvRepo s"
    "RvRepository s1 = RvRepository s" "RvSessions s1 = RvSessions s" "RvClosed s1 = RvClosed s"
    using assms(2) by (auto simp: reserveSession_def Let_def)
  have open_s: "\<not> RvClosed s" using assms(2) by (auto simp: admission_reason_def split: if_splits)
  have state: "create_state ?c ctx False r count (materialize (materialize_request r)) i now = Inr ?state"
    using q assms(9) by (simp add: create_state_def Let_def)
  have name: "SsName ?session = session_name ?c r i" "SdName ?rec = session_name ?c r i"
    by (simp_all add: new_session_record_def new_session_def Let_def)
  obtain s2 where com: "commitReservedSession reservation ?state s1 = (None, s2)" and s2: "RvRepo s2 = db'"
    "RvSessions s2 = gm_put (session_name ?c r i) ?state (RvSessions s)"
    "RvStreams s2 = put_read_streams ?state (SsStreams ?session) (RvStreams s1)"
    using res open_s q fresh(1) call repo(1) by (simp add: commitReservedSession_def persistSession_def ReadSessionRepository_def name)
  have "create_begin None r s = (Inr (reservation, count), s1)" using q res(1) by (simp add: create_begin_def)
  then have "Service_CreateSession None ctx r materialize i now s = (Inr ?session, s2)"
    using state com res(4,8) open_s by (simp add: Service_CreateSession_def create_commit_def)
  moreover have "session_lifecycle (RvRepo s2) (session_name ?c r i) = Some SessionActive"
    using CreateSession_ok [OF repo(3) call] by (simp add: s2 name)
  moreover have "list_all (\<lambda>x. gm_get (RvStreams s2) (SmName x) \<noteq> None) (SsStreams ?session)"
  proof -
    have "distinct (map SmName (SsStreams ?session))"
      using create_state_ok [OF state] request_ready_count [OF ready] by (simp add: session_ok_def)
    then show ?thesis using find_distinct by (fastforce simp: s2 list_all_iff gm_get_put_read_streams)
  qed
  ultimately show ?thesis using s2(2) by auto
qed

definition sample_open_service :: "ReadDB ReadService" where
  "sample_open_service = sample_sqlite_service\<lparr>RvStateReconciled := True\<rparr>"

theorem create_session_stored_witness:
  "\<exists>s'. Service_CreateSession None None sample_read_request (\<lambda>_. Materialized sample_snapshot) ''s'' (unix_epoch + 10) sample_open_service
      = (Inr (new_session sample_read_config sample_read_request 1
           ((SnMetadata sample_snapshot)\<lparr>SmSchema := (SmSchema (SnMetadata sample_snapshot))\<lparr>RsFingerprint := read_digest ''schema''\<rparr>\<rparr>)
           ''s'' (unix_epoch + 10)), s')
    \<and> session_lifecycle (RvRepo s') ''projects/p/locations/US/sessions/s'' = Some SessionActive"
proof -
  let ?m = "(SnMetadata sample_snapshot)\<lparr>SmSchema := (SmSchema (SnMetadata sample_snapshot))\<lparr>RsFingerprint := read_digest ''schema''\<rparr>\<rparr>"
  have c: "RvConfig sample_open_service = sample_read_config" "RvRepository sample_open_service = ReadSessionRepository"
    "RvRepo sample_open_service = empty_read_db" "RvSessions sample_open_service = []" "RvReservations sample_open_service = []"
    by (simp_all add: sample_open_service_def sample_sqlite_service_def)
  have req: "validateCreateRequest sample_read_request = None" by code_simp
  have neg: "negotiateStreamCount sample_read_config (CqMaxStreamCount sample_read_request) (CqPreferredMinStreamCount sample_read_request) = Inr 1"
    by code_simp
  have seg: "validResourceSegment ''s''" by code_simp
  have adm: "admission_reason sample_open_service = None" by code_simp
  have name: "session_name sample_read_config sample_read_request ''s'' = ''projects/p/locations/US/sessions/s''" by code_simp
  have "request_ready sample_read_config sample_read_request 1 sample_snapshot ?m ''s'' (unix_epoch + 10)"
    using sample_read_config_ok req neg seg
    by (simp add: request_ready_def validateSnapshotMetadata_def sample_snapshot_def sample_read_request_def sample_read_config_def
        clock_ok_def in_i64_def)
  then show ?thesis
    using create_session_stored [of sample_open_service sample_read_request 1 sample_snapshot ?m "''s''" "unix_epoch + 10"
        "\<lambda>_. Materialized sample_snapshot" None] adm sample_sqlite_facts(2)
    by (auto simp: c name empty_read_db_def list_all_iff)
qed

end
