(* ===== verification/Json.thy ===== *)
theory Json
  imports Sha256
begin

text \<open>
  The standard library's \<open>encoding/json\<close> as the sources use it: \<open>json.Marshal\<close> of structs, slices, strings,
  integers and booleans, whose bytes are hashed into the digests of job configurations and of engine
  capabilities, schemas and plans. A document is a tree; \<open>json_Marshal\<close> gives its bytes, with the escapes of
  Go's encoder (control characters, the characters of HTML, the two line separators, and the replacement
  of bytes that are not UTF-8). \<open>utf8_coerce\<close> is what a string becomes when its encoding is decoded again.

  The lemmas show that the encoding is read back unambiguously: two documents with valid
  strings and the same bytes are the same document, so that a digest of the bytes is a digest of the document.
\<close>

section \<open>UTF-8\<close>

definition byte_in :: "nat \<Rightarrow> nat \<Rightarrow> char \<Rightarrow> bool" where
  "byte_in lo hi c \<longleftrightarrow> lo \<le> of_char c \<and> of_char c \<le> hi"

abbreviation cont_byte :: "char \<Rightarrow> bool" where
  "cont_byte \<equiv> byte_in 0x80 0xBF"

text \<open>The length of the rune of two or more bytes that a string starts with, 0 where there is none.\<close>

definition rune2 :: "char \<Rightarrow> char \<Rightarrow> bool" where
  "rune2 a b \<longleftrightarrow> byte_in 0xC2 0xDF a \<and> cont_byte b"

definition rune3 :: "char \<Rightarrow> char \<Rightarrow> char \<Rightarrow> bool" where
  "rune3 a b c \<longleftrightarrow>
     byte_in 0xE0 0xEF a \<and> cont_byte c
     \<and> byte_in (if of_char a = (0xE0 :: nat) then 0xA0 else 0x80) (if of_char a = (0xED :: nat) then 0x9F else 0xBF) b"

definition rune4 :: "char \<Rightarrow> char \<Rightarrow> char \<Rightarrow> char \<Rightarrow> bool" where
  "rune4 a b c d \<longleftrightarrow>
     byte_in 0xF0 0xF4 a \<and> cont_byte c \<and> cont_byte d
     \<and> byte_in (if of_char a = (0xF0 :: nat) then 0x90 else 0x80) (if of_char a = (0xF4 :: nat) then 0x8F else 0xBF) b"

fun rune_len :: "string \<Rightarrow> nat" where
  "rune_len (a # b # c # d # cs) =
     (if rune2 a b then 2 else if rune3 a b c then 3 else if rune4 a b c d then 4 else 0)"
| "rune_len [a, b, c] = (if rune2 a b then 2 else if rune3 a b c then 3 else 0)"
| "rune_len [a, b] = (if rune2 a b then 2 else 0)"
| "rune_len _ = 0"

abbreviation ascii :: "char \<Rightarrow> bool" where
  "ascii c \<equiv> of_char c < (0x80 :: nat)"

definition replacement_rune :: string where
  "replacement_rune = [CHR 0xEF, CHR 0xBF, CHR 0xBD]"

function utf8_coerce :: "string \<Rightarrow> string" where
  "utf8_coerce [] = []"
| "utf8_coerce (c # cs) =
     (if ascii c then c # utf8_coerce cs
      else let n = rune_len (c # cs) in
        if n = 0 then replacement_rune @ utf8_coerce cs
        else take n (c # cs) @ utf8_coerce (drop n (c # cs)))"
  by pat_completeness auto
termination by (relation "measure length") auto

function utf8_valid :: "string \<Rightarrow> bool" where
  "utf8_valid [] = True"
| "utf8_valid (c # cs) =
     (if ascii c then utf8_valid cs
      else let n = rune_len (c # cs) in if n = 0 then False else utf8_valid (drop n (c # cs)))"
  by pat_completeness auto
termination by (relation "measure length") auto

section \<open>Encoding\<close>

abbreviation quote_char :: char where "quote_char \<equiv> CHR 0x22"
abbreviation backslash :: char where "backslash \<equiv> CHR 0x5C"

definition ascii_escape :: "char \<Rightarrow> string" where
  "ascii_escape c =
     (if c = backslash \<or> c = quote_char then [backslash, c]
      else if c = CHR 0x08 then [backslash, CHR ''b'']
      else if c = CHR 0x0C then [backslash, CHR ''f'']
      else if c = CHR 0x0A then [backslash, CHR ''n'']
      else if c = CHR 0x0D then [backslash, CHR ''r'']
      else if c = CHR 0x09 then [backslash, CHR ''t'']
      else if of_char c < (0x20 :: nat) \<or> c = CHR ''<'' \<or> c = CHR ''>'' \<or> c = CHR ''&''
      then [backslash, CHR ''u'', CHR ''0'', CHR ''0'', hex_char (of_char c div 16), hex_char (of_char c mod 16)]
      else [c])"

definition line_separator :: string where
  "line_separator = [CHR 0xE2, CHR 0x80, CHR 0xA8]"

definition paragraph_separator :: string where
  "paragraph_separator = [CHR 0xE2, CHR 0x80, CHR 0xA9]"

definition rune_escape :: "string \<Rightarrow> string" where
  "rune_escape r =
     (if r = line_separator then backslash # ''u2028''
      else if r = paragraph_separator then backslash # ''u2029'' else r)"

function json_escape :: "string \<Rightarrow> string" where
  "json_escape [] = []"
| "json_escape (c # cs) =
     (if ascii c then ascii_escape c @ json_escape cs
      else let n = rune_len (c # cs) in
        if n = 0 then backslash # ''ufffd'' @ json_escape cs
        else rune_escape (take n (c # cs)) @ json_escape (drop n (c # cs)))"
  by pat_completeness auto
termination by (relation "measure length") auto

declare utf8_coerce.simps(2) [simp del] utf8_valid.simps(2) [simp del] json_escape.simps(2) [simp del]

datatype json =
    JNull | JBool bool | JInt int | JString string
  | JArray "json list" | JObject "(string \<times> json) list"

definition json_string :: "string \<Rightarrow> string" where
  "json_string s = quote_char # json_escape s @ [quote_char]"

fun json_Marshal :: "json \<Rightarrow> string"
and json_items :: "json list \<Rightarrow> string"
and json_members :: "(string \<times> json) list \<Rightarrow> string" where
  "json_Marshal JNull = ''null''"
| "json_Marshal (JBool b) = (if b then ''true'' else ''false'')"
| "json_Marshal (JInt n) = FormatInt n"
| "json_Marshal (JString s) = json_string s"
| "json_Marshal (JArray js) = CHR ''['' # json_items js @ '']''"
| "json_Marshal (JObject ms) = CHR ''{'' # json_members ms @ ''}''"
| "json_items [] = []"
| "json_items (j # js) = json_Marshal j @ (if js = [] then [] else CHR '','' # json_items js)"
| "json_members [] = []"
| "json_members ((k, j) # ms) =
     json_string k @ CHR '':'' # json_Marshal j @ (if ms = [] then [] else CHR '','' # json_members ms)"

definition json_digest :: "json \<Rightarrow> string" where
  "json_digest j = sha256_hex (json_Marshal j)"

text \<open>The encodings of Go's types: a nil slice is \<open>null\<close>, a nil pointer too.\<close>

definition json_strings :: "string list \<Rightarrow> json" where
  "json_strings ss = (if ss = [] then JNull else JArray (map JString ss))"

definition json_optional_int :: "int option \<Rightarrow> json" where
  "json_optional_int v = (case v of None \<Rightarrow> JNull | Some n \<Rightarrow> JInt n)"

section \<open>Decoding\<close>

text \<open>The decoder of a quoted string: it reads up to the closing quote and returns what follows it.\<close>

definition hex_val :: "char \<Rightarrow> nat" where
  "hex_val c = (if is_digit c then of_char c - 48 else of_char c - 87)"

definition utf8_encode :: "nat \<Rightarrow> string" where
  "utf8_encode n =
     (if n < 0x80 then [char_of n]
      else if n < 0x800 then [char_of (0xC0 + n div 64), char_of (0x80 + n mod 64)]
      else [char_of (0xE0 + n div 4096), char_of (0x80 + n div 64 mod 64), char_of (0x80 + n mod 64)])"

definition simple_escape :: "char \<Rightarrow> char" where
  "simple_escape e =
     (if e = CHR ''b'' then CHR 0x08 else if e = CHR ''f'' then CHR 0x0C else if e = CHR ''n'' then CHR 0x0A
      else if e = CHR ''r'' then CHR 0x0D else if e = CHR ''t'' then CHR 0x09 else e)"

fun json_unescape :: "string \<Rightarrow> (string \<times> string) option" where
  "json_unescape [] = None"
| "json_unescape (c # cs) =
     (if c = quote_char then Some ([], cs)
      else if c \<noteq> backslash then map_option (apfst ((#) c)) (json_unescape cs)
      else case cs of [] \<Rightarrow> None
        | e # rest \<Rightarrow>
            if e = CHR ''u'' then
              (case rest of h1 # h2 # h3 # h4 # r \<Rightarrow>
                 map_option (apfst ((@) (utf8_encode
                   (((hex_val h1 * 16 + hex_val h2) * 16 + hex_val h3) * 16 + hex_val h4)))) (json_unescape r)
               | _ \<Rightarrow> None)
            else map_option (apfst ((#) (simple_escape e))) (json_unescape rest))"

declare json_unescape.simps(2) [simp del]

lemma hex_val_hex_char [simp]: "d < 16 \<Longrightarrow> hex_val (hex_char d) = d"
  by (simp add: hex_val_def hex_char_def is_digit_def)

lemma separator_bytes:
  "char_of (226 :: nat) = CHR 0xE2" "char_of (128 :: nat) = CHR 0x80" "char_of (168 :: nat) = CHR 0xA8"
  "char_of (169 :: nat) = CHR 0xA9" "char_of (239 :: nat) = CHR 0xEF" "char_of (191 :: nat) = CHR 0xBF"
  "char_of (189 :: nat) = CHR 0xBD"
  by code_simp+

text \<open>The characters that are written as a hexadecimal escape, and those that are written as they are.\<close>

lemma unescape_hex:
  assumes "ascii c"
  shows "json_unescape (backslash # CHR ''u'' # CHR ''0'' # CHR ''0'' # hex_char (of_char c div 16) # hex_char (of_char c mod 16) # r)
    = map_option (apfst ((#) c)) (json_unescape r)"
proof -
  have d: "of_char c div 16 < (16 :: nat)" using assms by simp
  have "hex_val CHR ''0'' = 0" by (simp add: hex_val_def is_digit_def)
  with d assms show ?thesis by (cases "json_unescape r") (auto simp: json_unescape.simps(2) utf8_encode_def)
qed

lemma unescape_ascii:
  assumes "ascii c"
  shows "json_unescape (ascii_escape c @ r) = map_option (apfst ((#) c)) (json_unescape r)"
proof (cases "c \<in> {backslash, quote_char, CHR 0x08, CHR 0x0C, CHR 0x0A, CHR 0x0D, CHR 0x09}")
  case True
  then show ?thesis by (auto simp: ascii_escape_def json_unescape.simps(2) simple_escape_def)
next
  case False
  then show ?thesis
    using unescape_hex [OF assms, of r] json_unescape.simps(2) [of c r] by (simp add: ascii_escape_def)
qed

lemma unescape_plain:
  "list_all (\<lambda>c. c \<noteq> quote_char \<and> c \<noteq> backslash) w \<Longrightarrow>
   json_unescape (w @ r) = map_option (apfst ((@) w)) (json_unescape r)"
  by (induction w; cases "json_unescape r") (auto simp: json_unescape.simps(2))

lemma rune_len_cases:
  assumes "rune_len s = n" "n \<noteq> 0"
  shows "n \<le> length s \<and> list_all (\<lambda>c. \<not> ascii c) (take n s)"
  using assms
  by (cases s rule: rune_len.cases)
     (auto simp: rune2_def rune3_def rune4_def byte_in_def numeral_eq_Suc split: if_splits)

lemma unescape_rune:
  assumes "rune_len s = n" "n \<noteq> 0"
  shows "json_unescape (rune_escape (take n s) @ r) = map_option (apfst ((@) (take n s))) (json_unescape r)"
proof -
  have "list_all (\<lambda>c. \<not> ascii c) (take n s)" using rune_len_cases [OF assms] ..
  then have "list_all (\<lambda>c. c \<noteq> quote_char \<and> c \<noteq> backslash) (take n s)"
    by (rule list.pred_mono_strong) auto
  from unescape_plain [OF this, of r] show ?thesis
    by (auto simp: rune_escape_def json_unescape.simps(2) utf8_encode_def hex_val_def is_digit_def
        line_separator_def paragraph_separator_def separator_bytes)
qed

text \<open>A decoded string is the encoded one, with the replacement rune for every byte that is not UTF-8.\<close>

lemma json_unescape_escape:
  "json_unescape (json_escape s @ quote_char # r) = Some (utf8_coerce s, r)"
proof (induction s rule: json_escape.induct)
  case 1
  then show ?case by (simp add: json_unescape.simps)
next
  case (2 c cs)
  let ?n = "rune_len (c # cs)"
  consider "ascii c" | "\<not> ascii c" "?n = 0" | "\<not> ascii c" "?n \<noteq> 0" by blast
  then show ?case
  proof cases
    case 1
    then show ?thesis using 2 by (simp add: json_escape.simps(2) utf8_coerce.simps(2) unescape_ascii)
  next
    case 2
    then show ?thesis using "2.IH"(2) [OF 2(1) refl 2(2)]
      by (simp add: json_escape.simps(2) utf8_coerce.simps(2) json_unescape.simps(2) hex_val_def is_digit_def
          utf8_encode_def replacement_rune_def separator_bytes)
  next
    case 3
    then show ?thesis using "2.IH"(3) [OF 3(1) refl 3(2)]
      by (simp add: json_escape.simps(2) utf8_coerce.simps(2) unescape_rune [OF refl 3(2)] Let_def)
  qed
qed

lemma utf8_coerce_valid: "utf8_valid s \<Longrightarrow> utf8_coerce s = s"
  by (induction s rule: utf8_valid.induct)
     (auto simp: utf8_valid.simps(2) utf8_coerce.simps(2) Let_def split: if_splits)

lemma json_string_read:
  assumes "json_string s @ r = json_string t @ r'" "utf8_valid s" "utf8_valid t"
  shows "s = t \<and> r = r'"
proof -
  have "json_escape s @ quote_char # r = json_escape t @ quote_char # r'"
    using assms(1) by (simp add: json_string_def)
  then have "Some (utf8_coerce s, r) = Some (utf8_coerce t, r')"
    using json_unescape_escape [of s r] json_unescape_escape [of t r'] by simp
  then show ?thesis using assms(2,3) by (simp add: utf8_coerce_valid)
qed

section \<open>Documents are determined by their bytes\<close>

fun json_valid_strings :: "json \<Rightarrow> bool" where
  "json_valid_strings (JString s) = utf8_valid s"
| "json_valid_strings (JArray js) = list_all json_valid_strings js"
| "json_valid_strings (JObject ms) = list_all (\<lambda>(k, j). utf8_valid k \<and> json_valid_strings j) ms"
| "json_valid_strings _ = True"

text \<open>What can follow a value in a document: no digit.\<close>

definition ends_value :: "string \<Rightarrow> bool" where
  "ends_value r \<longleftrightarrow> (case r of [] \<Rightarrow> True | c # _ \<Rightarrow> \<not> is_digit c)"

lemma digits_prefix:
  assumes "list_all is_digit a" "list_all is_digit b" "a @ r = b @ s" "ends_value r" "ends_value s"
  shows "a = b \<and> r = s"
proof -
  have split: "takeWhile is_digit (w @ x) = w" if "list_all is_digit w" "ends_value x" for w x
    using that by (induction w) (auto simp: ends_value_def split: list.splits)
  from assms have "a = b" by (metis split)
  with assms(3) show ?thesis by simp
qed

lemma format_nat_read:
  "format_nat m @ r = format_nat n @ s \<Longrightarrow> ends_value r \<Longrightarrow> ends_value s \<Longrightarrow> m = n \<and> r = s"
  using digits_prefix [of "format_nat m" "format_nat n" r s] format_nat_inj by auto

lemma FormatInt_hd: "FormatInt n = c # cs \<Longrightarrow> is_digit c \<or> c = CHR ''-''"
  using format_nat_hd [of "nat n"] by (auto simp: FormatInt_def split: if_splits)

lemma FormatInt_read:
  assumes "FormatInt m @ r = FormatInt n @ s" "ends_value r" "ends_value s"
  shows "m = n \<and> r = s"
proof -
  have d: "hd (format_nat k @ x) \<noteq> CHR ''-''" for k x
    using format_nat_hd [of k] by (auto simp: is_digit_def)
  consider "m < 0" "n < 0" | "0 \<le> m" "0 \<le> n" | "m < 0" "0 \<le> n" | "0 \<le> m" "n < 0" by linarith
  then show ?thesis
  proof cases
    case 1
    then have "nat (- m) = nat (- n) \<and> r = s" using assms by (intro format_nat_read) (simp_all add: FormatInt_def)
    with 1 show ?thesis by linarith
  next
    case 2
    then have "nat m = nat n \<and> r = s" using assms by (intro format_nat_read) (simp_all add: FormatInt_def)
    with 2 show ?thesis by linarith
  next
    case 3
    then show ?thesis using arg_cong [OF assms(1), of hd] d [of "nat n" s] by (simp add: FormatInt_def)
  next
    case 4
    then show ?thesis using arg_cong [OF assms(1), of hd] d [of "nat m" r] by (simp add: FormatInt_def)
  qed
qed

lemma FormatInt_start: "FormatInt n @ r = c # x \<Longrightarrow> is_digit c \<or> c = CHR ''-''"
  using FormatInt_hd [of n] FormatInt_nonempty [of n] by (cases "FormatInt n") auto

lemma json_Marshal_start: "\<exists>c cs. json_Marshal j = c # cs \<and> c \<noteq> CHR '']''"
proof (cases j)
  case (JInt n)
  then show ?thesis using FormatInt_nonempty [of n] FormatInt_hd [of n]
    by (cases "FormatInt n") (auto simp: is_digit_def)
qed (simp_all add: json_string_def)

lemma ends_value_delimiters [simp]:
  "ends_value (CHR '','' # r)" "ends_value (CHR '']'' # r)" "ends_value (CHR ''}'' # r)" "ends_value []"
  by (simp_all add: ends_value_def is_digit_def)

text \<open>The kind of a document is visible in its first byte.\<close>

lemma json_kinds:
  assumes "json_Marshal a @ r = json_Marshal b @ s"
  shows "(a = JNull \<longleftrightarrow> b = JNull) \<and> (\<forall>v. a = JBool v \<longleftrightarrow> b = JBool v)
    \<and> ((\<exists>n. a = JInt n) \<longleftrightarrow> (\<exists>n. b = JInt n)) \<and> ((\<exists>x. a = JString x) \<longleftrightarrow> (\<exists>x. b = JString x))
    \<and> ((\<exists>x. a = JArray x) \<longleftrightarrow> (\<exists>x. b = JArray x)) \<and> ((\<exists>x. a = JObject x) \<longleftrightarrow> (\<exists>x. b = JObject x))"
proof -
  have int: "FormatInt n @ x \<noteq> c # y" if "\<not> is_digit c" "c \<noteq> CHR ''-''" for n c x y
    using that FormatInt_start by blast
  have int': "c # y \<noteq> FormatInt n @ x" if "\<not> is_digit c" "c \<noteq> CHR ''-''" for n c x y
    using int [OF that] by metis
  show ?thesis using assms
    by (cases a; cases b) (simp_all add: json_string_def is_digit_def int int' split: if_splits)
qed

lemma json_tail_read:
  assumes "(if x = [] then [] else CHR '','' # f x) @ e # r = (if y = [] then [] else CHR '','' # f y) @ e # s" "e \<noteq> CHR '',''"
  shows "(x = [] \<and> y = [] \<and> r = s) \<or> (x \<noteq> [] \<and> y \<noteq> [] \<and> f x @ e # r = f y @ e # s)"
  using assms by (auto split: if_splits)

lemma json_read:
  "json_valid_strings a \<Longrightarrow> json_valid_strings b \<Longrightarrow> json_Marshal a @ r = json_Marshal b @ s \<Longrightarrow>
   ends_value r \<Longrightarrow> ends_value s \<Longrightarrow> a = b \<and> r = s"
  "list_all json_valid_strings xs \<Longrightarrow> list_all json_valid_strings ys \<Longrightarrow>
   json_items xs @ CHR '']'' # r = json_items ys @ CHR '']'' # s \<Longrightarrow> xs = ys \<and> r = s"
  "list_all (\<lambda>(k, j). utf8_valid k \<and> json_valid_strings j) ms \<Longrightarrow>
   list_all (\<lambda>(k, j). utf8_valid k \<and> json_valid_strings j) ns \<Longrightarrow>
   json_members ms @ CHR ''}'' # r = json_members ns @ CHR ''}'' # s \<Longrightarrow> ms = ns \<and> r = s"
proof (induction a and xs and ms arbitrary: b r s and ys r s and ns r s
    rule: json_Marshal_json_items_json_members.induct)
  case (1 b r s)
  then show ?case using json_kinds [OF 1(3)] by auto
next
  case (2 v b r s)
  have "\<forall>w. JBool v = JBool w \<longleftrightarrow> b = JBool w" using json_kinds [OF 2(3)] by (elim conjE)
  then have "b = JBool v" by blast
  with 2(3) show ?case by simp
next
  case (3 n b r s)
  obtain m where "b = JInt m" using json_kinds [OF 3(3)] by blast
  with 3 show ?case using FormatInt_read [of n r m s] by simp
next
  case (4 x b r s)
  obtain y where "b = JString y" using json_kinds [OF 4(3)] by blast
  with 4 show ?case using json_string_read [of x r y s] by simp
next
  case (5 js b r s)
  obtain y where "b = JArray y" using json_kinds [OF 5(4)] by blast
  moreover from this have "json_items js @ CHR '']'' # r = json_items y @ CHR '']'' # s" using 5(4) by simp
  ultimately show ?case using "5.IH" [of y r s] 5(2,3) by simp
next
  case (6 ms b r s)
  obtain y where "b = JObject y" using json_kinds [OF 6(4)] by blast
  moreover from this have "json_members ms @ CHR ''}'' # r = json_members y @ CHR ''}'' # s" using 6(4) by simp
  ultimately show ?case using "6.IH" [of y r s] 6(2,3) by simp
next
  case (7 ys r s)
  then show ?case using json_Marshal_start [of "hd ys"] by (cases ys) auto
next
  case (8 j js ys r s)
  obtain y ys' where ys: "ys = y # ys'"
    using 8(5) json_Marshal_start [of j] by (cases ys) auto
  let ?tail = "\<lambda>x t. (if x = [] then [] else CHR '','' # json_items x) @ CHR '']'' # t"
  have tails: "ends_value (?tail x t)" for x t by simp
  have e: "json_Marshal j @ ?tail js r = json_Marshal y @ ?tail ys' s"
    using 8(5) unfolding ys json_items.simps append_assoc .
  have "j = y \<and> ?tail js r = ?tail ys' s"
    by (rule "8.IH"(1) [OF _ _ e tails tails]) (use 8(3,4) ys in simp_all)
  then show ?case using ys "8.IH"(2) [of ys' r s] 8(3,4) json_tail_read [of js json_items "CHR '']''" r ys' s] by auto
next
  case (9 ns r s)
  then show ?case by (cases ns) (auto simp: json_string_def)
next
  case (10 k j ms ns r s)
  obtain k' y ns' where ns: "ns = (k', y) # ns'"
    using 10(5) by (cases ns) (auto simp: json_string_def)
  let ?tail = "\<lambda>x t. (if x = [] then [] else CHR '','' # json_members x) @ CHR ''}'' # t"
  have tails: "ends_value (?tail x t)" for x t by simp
  have "k = k' \<and> CHR '':'' # json_Marshal j @ ?tail ms r = CHR '':'' # json_Marshal y @ ?tail ns' s"
    by (rule json_string_read) (use 10(3-5) ns in simp_all)
  then have kj: "k = k'" "json_Marshal j @ ?tail ms r = json_Marshal y @ ?tail ns' s" by simp_all
  have "j = y \<and> ?tail ms r = ?tail ns' s"
    by (rule "10.IH"(1) [OF _ _ kj(2) tails tails]) (use 10(3,4) ns in simp_all)
  then show ?case using ns kj "10.IH"(2) [of ns' r s] 10(3,4) json_tail_read [of ms json_members "CHR ''}''" r ns' s] by auto
qed

lemma json_Marshal_inj:
  "json_valid_strings a \<Longrightarrow> json_valid_strings b \<Longrightarrow> json_Marshal a = json_Marshal b \<longleftrightarrow> a = b"
  using json_read(1) [of a b "[]" "[]"] by auto

lemma json_digest_hex [simp]: "length (json_digest j) = 64" "list_all is_hex (json_digest j)"
  by (simp_all add: json_digest_def)

text \<open>Two documents with one digest are one document, unless their bytes are a collision of SHA-256.\<close>

definition digest_collision :: "json \<Rightarrow> json \<Rightarrow> bool" where
  "digest_collision a b \<longleftrightarrow> json_Marshal a \<noteq> json_Marshal b \<and> sha256_hex (json_Marshal a) = sha256_hex (json_Marshal b)"

lemma json_digest_eq:
  assumes "json_valid_strings a" "json_valid_strings b" "json_digest a = json_digest b"
  shows "a = b \<or> digest_collision a b"
  using assms json_Marshal_inj [OF assms(1,2)] by (auto simp: json_digest_def digest_collision_def)

lemma json_strings_inj: "json_strings a = json_strings b \<longleftrightarrow> a = b"
proof -
  have "map JString a = map JString b \<longleftrightarrow> a = b" by (rule inj_map_eq_map) (simp add: inj_def)
  then show ?thesis by (auto simp: json_strings_def)
qed

lemma json_optional_int_inj: "json_optional_int a = json_optional_int b \<longleftrightarrow> a = b"
  by (auto simp: json_optional_int_def split: option.splits)

end
