(* ===== verification/Engine_Capabilities.thy ===== *)
theory Engine_Capabilities
  imports Json Domain_Catalog
begin

text \<open>
  \<open>internal/engine\<close>: \<open>identity.go\<close>, \<open>errors.go\<close> and \<open>capabilities.go\<close>, the description a physical engine
  publishes of itself. A capability snapshot is built from a descriptor whose maps are association
  lists; a scope that a descriptor maps to \<open>false\<close> is not supported. The scopes, operations and guarantees
  are Go strings and are validated here as the code does.

  The lemmas show that the fingerprint of a snapshot does not depend on the order of the maps, and that the
  descriptor of a snapshot describes it: building it again gives the same capabilities.
\<close>

section \<open>Planning errors\<close>

text \<open>
  A planning error unwraps to the catalog sentinel of its code and to its cause. \<open>as_planning\<close> is
  \<open>errors.As\<close> with a planning error as its target.
\<close>

definition planning_sentinel :: "PlanningErrorCode \<Rightarrow> sentinel" where
  "planning_sentinel code =
     (case code of PlanningCodeInvalidDescriptor \<Rightarrow> ErrInvalid
      | PlanningCodeUnsupported \<Rightarrow> ErrUnsupported
      | _ \<Rightarrow> ErrPrecondition)"

definition newPlanningError :: "PlanningErrorCode \<Rightarrow> string \<Rightarrow> string \<Rightarrow> go_error \<Rightarrow> go_error" where
  "newPlanningError code operation attribute cause =
     ErrPlanning code operation attribute # planning_sentinel code # cause"

definition is_planning :: "sentinel \<Rightarrow> bool" where
  "is_planning s \<longleftrightarrow> (case s of ErrPlanning _ _ _ \<Rightarrow> True | _ \<Rightarrow> False)"

definition as_planning :: "go_error \<Rightarrow> go_error option" where
  "as_planning e = (if list_ex is_planning e then Some (dropWhile (\<lambda>s. \<not> is_planning s) e) else None)"

abbreviation invalid_descriptor :: "string \<Rightarrow> string \<Rightarrow> go_error" where
  "invalid_descriptor operation attribute \<equiv> newPlanningError PlanningCodeInvalidDescriptor operation attribute []"

definition unsupportedCapability :: "string \<Rightarrow> string \<Rightarrow> go_error" where
  "unsupportedCapability operation attribute = newPlanningError PlanningCodeUnsupported operation attribute []"

section \<open>Identity\<close>

definition identityPartPattern :: "string \<Rightarrow> bool" where
  "identityPartPattern s \<longleftrightarrow>
     (case s of [] \<Rightarrow> False
      | c # cs \<Rightarrow> is_lower c \<and> length cs \<le> 127 \<and> list_all (\<lambda>x. is_lower x \<or> is_digit x \<or> x \<in> set ''._-'') cs)"

definition versionPattern :: "string \<Rightarrow> bool" where
  "versionPattern s \<longleftrightarrow>
     (case s of [] \<Rightarrow> False
      | c # cs \<Rightarrow> (is_alpha c \<or> is_digit c) \<and> length cs \<le> 127
                 \<and> list_all (\<lambda>x. is_alpha x \<or> is_digit x \<or> x \<in> set ''._+-'') cs)"

record Identity =
  IdID :: string
  IdVersion :: string

definition NewIdentity :: "string \<Rightarrow> string \<Rightarrow> go_error + Identity" where
  "NewIdentity ident version =
     (if \<not> identityPartPattern ident then Inl (invalid_descriptor ''identity'' ''engine.id'')
      else if \<not> versionPattern version then Inl (invalid_descriptor ''identity'' ''engine.version'')
      else Inr \<lparr>IdID = ident, IdVersion = version\<rparr>)"

definition Identity_validate :: "Identity \<Rightarrow> go_error option" where
  "Identity_validate i =
     (if \<not> identityPartPattern (IdID i) \<or> \<not> versionPattern (IdVersion i)
      then Some (invalid_descriptor ''identity'' ''engine.identity'') else None)"

definition Identity_key :: "Identity \<Rightarrow> string" where
  "Identity_key i = IdID i @ CHR 0x00 # IdVersion i"

section \<open>Scopes, operations and guarantees\<close>

abbreviation TransactionScopeSingleTable :: string where "TransactionScopeSingleTable \<equiv> ''single-table''"
abbreviation TransactionScopeMultiTable :: string where "TransactionScopeMultiTable \<equiv> ''multi-table''"
abbreviation AtomicReplacementTable :: string where "AtomicReplacementTable \<equiv> ''table''"
abbreviation AtomicReplacementPartition :: string where "AtomicReplacementPartition \<equiv> ''partition''"
abbreviation InspectionDatasets :: string where "InspectionDatasets \<equiv> ''datasets''"
abbreviation InspectionTables :: string where "InspectionTables \<equiv> ''tables''"
abbreviation InspectionTableShape :: string where "InspectionTableShape \<equiv> ''table-shape''"
abbreviation DDLCreateTable :: string where "DDLCreateTable \<equiv> ''create-table''"
abbreviation DDLDropTable :: string where "DDLDropTable \<equiv> ''drop-table''"
abbreviation DDLAddColumn :: string where "DDLAddColumn \<equiv> ''add-column''"
abbreviation DDLDropColumn :: string where "DDLDropColumn \<equiv> ''drop-column''"
abbreviation DDLRenameColumn :: string where "DDLRenameColumn \<equiv> ''rename-column''"
abbreviation DDLChangeColumnType :: string where "DDLChangeColumnType \<equiv> ''change-column-type''"
abbreviation AtomicPhysicalStatement :: string where "AtomicPhysicalStatement \<equiv> ''atomic-physical-statement''"
abbreviation AtomicPhysicalTable :: string where "AtomicPhysicalTable \<equiv> ''atomic-physical-table''"

definition validTransactionScope :: "string \<Rightarrow> bool" where
  "validTransactionScope scope \<longleftrightarrow> scope = TransactionScopeSingleTable \<or> scope = TransactionScopeMultiTable"

definition validAtomicReplacementScope :: "string \<Rightarrow> bool" where
  "validAtomicReplacementScope scope \<longleftrightarrow> scope = AtomicReplacementTable \<or> scope = AtomicReplacementPartition"

definition validInspectionScope :: "string \<Rightarrow> bool" where
  "validInspectionScope scope \<longleftrightarrow>
     scope = InspectionDatasets \<or> scope = InspectionTables \<or> scope = InspectionTableShape"

definition validDDLOperation :: "string \<Rightarrow> bool" where
  "validDDLOperation operation \<longleftrightarrow>
     operation \<in> {DDLCreateTable, DDLDropTable, DDLAddColumn, DDLDropColumn, DDLRenameColumn, DDLChangeColumnType}"

definition validDDLGuarantee :: "string \<Rightarrow> bool" where
  "validDDLGuarantee g \<longleftrightarrow> g = AtomicPhysicalStatement \<or> g = AtomicPhysicalTable"

definition ddlGuaranteeSatisfies :: "string \<Rightarrow> string \<Rightarrow> bool" where
  "ddlGuaranteeSatisfies actual required \<longleftrightarrow>
     actual = required \<or> (actual = AtomicPhysicalTable \<and> required = AtomicPhysicalStatement)"

definition ddlUsesFieldPath :: "string \<Rightarrow> bool" where
  "ddlUsesFieldPath operation \<longleftrightarrow>
     operation \<in> {DDLAddColumn, DDLDropColumn, DDLRenameColumn, DDLChangeColumnType}"

section \<open>Capabilities\<close>

record DDLCapability =
  DcGuarantee :: string
  DcMaxFieldPathDepth :: int

record DecimalCapabilities =
  DmSupported :: bool
  DmMaxPrecision :: int
  DmMaxScale :: int

record CompositeCapabilities =
  CmMaxStructDepth :: int
  CmMaxListDepth :: int

record CapabilitiesDescriptor =
  CdIdentity :: Identity
  CdDecimal :: DecimalCapabilities
  CdComposite :: CompositeCapabilities
  CdTransactions :: "(string, bool) gomap"
  CdAtomicReplacements :: "(string, bool) gomap"
  CdInspection :: "(string, bool) gomap"
  CdDDL :: "(string, DDLCapability) gomap"

record Capabilities =
  CpIdentity :: Identity
  CpDecimal :: DecimalCapabilities
  CpComposite :: CompositeCapabilities
  CpTransactions :: "string list"
  CpAtomicReplacements :: "string list"
  CpInspection :: "string list"
  CpDDL :: "(string, DDLCapability) gomap"
  CpFingerprint :: string

text \<open>The digest of a JSON document that the engine package seals its values with.\<close>

definition fingerprintJSON :: "json \<Rightarrow> string" where
  "fingerprintJSON j = ''sha256:'' @ json_digest j"

definition ddl_entry :: "string \<times> DDLCapability \<Rightarrow> json" where
  "ddl_entry e = JObject [(''operation'', JString (fst e)), (''guarantee'', JString (DcGuarantee (snd e))),
     (''maxFieldPathDepth'', JInt (DcMaxFieldPathDepth (snd e)))]"

definition json_array :: "json list \<Rightarrow> json" where
  "json_array js = (if js = [] then JNull else JArray js)"

definition capabilities_document :: "Capabilities \<Rightarrow> json" where
  "capabilities_document c =
     JObject [(''engineId'', JString (IdID (CpIdentity c))), (''engineVersion'', JString (IdVersion (CpIdentity c))),
       (''decimal'', JObject [(''Supported'', JBool (DmSupported (CpDecimal c))),
          (''MaxPrecision'', JInt (DmMaxPrecision (CpDecimal c))), (''MaxScale'', JInt (DmMaxScale (CpDecimal c)))]),
       (''composite'', JObject [(''MaxStructDepth'', JInt (CmMaxStructDepth (CpComposite c))),
          (''MaxListDepth'', JInt (CmMaxListDepth (CpComposite c)))]),
       (''transactions'', json_strings (sort (CpTransactions c))),
       (''atomicReplacements'', json_strings (sort (CpAtomicReplacements c))),
       (''inspection'', json_strings (sort (CpInspection c))),
       (''ddl'', json_array (map ddl_entry (sort_key fst (CpDDL c))))]"

definition capabilitiesFingerprint :: "Capabilities \<Rightarrow> string" where
  "capabilitiesFingerprint c = fingerprintJSON (capabilities_document c)"

text \<open>The loop over a map of scopes, and the one over the DDL operations.\<close>

fun collect_scopes :: "(string \<Rightarrow> bool) \<Rightarrow> string \<Rightarrow> (string, bool) gomap \<Rightarrow> go_error + string list" where
  "collect_scopes valid kind [] = Inr []"
| "collect_scopes valid kind ((scope, supported) # rest) =
     (if \<not> valid scope then Inl (invalid_descriptor ''capabilities'' (''capability.'' @ kind))
      else case collect_scopes valid kind rest of Inl e \<Rightarrow> Inl e
        | Inr scopes \<Rightarrow> Inr (if supported then scope # scopes else scopes))"

definition valid_ddl_entry :: "string \<Rightarrow> DDLCapability \<Rightarrow> bool" where
  "valid_ddl_entry operation ddl \<longleftrightarrow>
     validDDLOperation operation \<and> validDDLGuarantee (DcGuarantee ddl) \<and> 0 \<le> DcMaxFieldPathDepth ddl
     \<and> \<not> (ddlUsesFieldPath operation \<and> DcMaxFieldPathDepth ddl < 1)
     \<and> \<not> (\<not> ddlUsesFieldPath operation \<and> DcMaxFieldPathDepth ddl \<noteq> 0)"

definition invalid_decimal :: "DecimalCapabilities \<Rightarrow> bool" where
  "invalid_decimal d \<longleftrightarrow>
     (\<not> DmSupported d \<and> (DmMaxPrecision d \<noteq> 0 \<or> DmMaxScale d \<noteq> 0))
     \<or> (DmSupported d \<and> (DmMaxPrecision d < 1 \<or> DmMaxScale d < 0 \<or> DmMaxScale d > DmMaxPrecision d))"

definition NewCapabilities :: "CapabilitiesDescriptor \<Rightarrow> go_error + Capabilities" where
  "NewCapabilities d =
     (case Identity_validate (CdIdentity d) of Some e \<Rightarrow> Inl e
      | None \<Rightarrow>
        if invalid_decimal (CdDecimal d) then Inl (invalid_descriptor ''capabilities'' ''decimal'')
        else if CmMaxStructDepth (CdComposite d) < 0 \<or> CmMaxListDepth (CdComposite d) < 0
        then Inl (invalid_descriptor ''capabilities'' ''composite'')
        else case collect_scopes validTransactionScope ''transaction'' (CdTransactions d) of Inl e \<Rightarrow> Inl e
        | Inr transactions \<Rightarrow>
          (case collect_scopes validAtomicReplacementScope ''atomic-replacement'' (CdAtomicReplacements d) of Inl e \<Rightarrow> Inl e
           | Inr replacements \<Rightarrow>
             (case collect_scopes validInspectionScope ''inspection'' (CdInspection d) of Inl e \<Rightarrow> Inl e
              | Inr inspection \<Rightarrow>
                if \<not> list_all (\<lambda>(operation, ddl). valid_ddl_entry operation ddl) (CdDDL d)
                then Inl (invalid_descriptor ''capabilities'' ''capability.ddl'')
                else
                  let c = \<lparr>CpIdentity = CdIdentity d, CpDecimal = CdDecimal d, CpComposite = CdComposite d,
                           CpTransactions = transactions, CpAtomicReplacements = replacements,
                           CpInspection = inspection, CpDDL = CdDDL d, CpFingerprint = []\<rparr> in
                  Inr (c\<lparr>CpFingerprint := capabilitiesFingerprint c\<rparr>))))"

definition SupportsTransaction :: "Capabilities \<Rightarrow> string \<Rightarrow> bool" where
  "SupportsTransaction c scope \<longleftrightarrow> scope \<in> set (CpTransactions c)"

definition SupportsAtomicReplacement :: "Capabilities \<Rightarrow> string \<Rightarrow> bool" where
  "SupportsAtomicReplacement c scope \<longleftrightarrow> scope \<in> set (CpAtomicReplacements c)"

definition SupportsInspection :: "Capabilities \<Rightarrow> string \<Rightarrow> bool" where
  "SupportsInspection c scope \<longleftrightarrow> scope \<in> set (CpInspection c)"

definition Capabilities_DDL :: "Capabilities \<Rightarrow> string \<Rightarrow> DDLCapability option" where
  "Capabilities_DDL c operation = gm_get (CpDDL c) operation"

definition Capabilities_Descriptor :: "Capabilities \<Rightarrow> CapabilitiesDescriptor" where
  "Capabilities_Descriptor c =
     \<lparr>CdIdentity = CpIdentity c, CdDecimal = CpDecimal c, CdComposite = CpComposite c,
      CdTransactions = map (\<lambda>s. (s, True)) (CpTransactions c),
      CdAtomicReplacements = map (\<lambda>s. (s, True)) (CpAtomicReplacements c),
      CdInspection = map (\<lambda>s. (s, True)) (CpInspection c), CdDDL = CpDDL c\<rparr>"

definition Capabilities_validate :: "Capabilities \<Rightarrow> go_error option" where
  "Capabilities_validate c =
     (case Identity_validate (CpIdentity c) of Some e \<Rightarrow> Some e
      | None \<Rightarrow>
        if CpFingerprint c = [] \<or> CpFingerprint c \<noteq> capabilitiesFingerprint c
        then Some (invalid_descriptor ''capabilities'' ''capability.fingerprint'') else None)"

section \<open>What a snapshot says\<close>

lemma collect_scopes_eq:
  "collect_scopes valid kind m =
     (if list_all valid (map fst m) then Inr (map fst (filter snd m))
      else Inl (invalid_descriptor ''capabilities'' (''capability.'' @ kind)))"
  by (induction valid kind m rule: collect_scopes.induct) auto

definition described :: "CapabilitiesDescriptor \<Rightarrow> Capabilities" where
  "described d =
     \<lparr>CpIdentity = CdIdentity d, CpDecimal = CdDecimal d, CpComposite = CdComposite d,
      CpTransactions = map fst (filter snd (CdTransactions d)),
      CpAtomicReplacements = map fst (filter snd (CdAtomicReplacements d)),
      CpInspection = map fst (filter snd (CdInspection d)), CpDDL = CdDDL d, CpFingerprint = []\<rparr>"

lemma capabilitiesFingerprint_update [simp]:
  "capabilitiesFingerprint (c\<lparr>CpFingerprint := f\<rparr>) = capabilitiesFingerprint c"
  by (simp add: capabilitiesFingerprint_def capabilities_document_def)

lemma NewCapabilities_Inr:
  "NewCapabilities d = Inr c \<longleftrightarrow>
     Identity_validate (CdIdentity d) = None \<and> \<not> invalid_decimal (CdDecimal d)
     \<and> 0 \<le> CmMaxStructDepth (CdComposite d) \<and> 0 \<le> CmMaxListDepth (CdComposite d)
     \<and> list_all validTransactionScope (map fst (CdTransactions d))
     \<and> list_all validAtomicReplacementScope (map fst (CdAtomicReplacements d))
     \<and> list_all validInspectionScope (map fst (CdInspection d))
     \<and> list_all (\<lambda>(operation, ddl). valid_ddl_entry operation ddl) (CdDDL d)
     \<and> c = (described d)\<lparr>CpFingerprint := capabilitiesFingerprint (described d)\<rparr>"
  by (auto simp: NewCapabilities_def Let_def collect_scopes_eq described_def split: option.splits)

lemma NewCapabilities_fields:
  assumes "NewCapabilities d = Inr c"
  shows "CpTransactions c = map fst (filter snd (CdTransactions d))"
    "CpAtomicReplacements c = map fst (filter snd (CdAtomicReplacements d))"
    "CpInspection c = map fst (filter snd (CdInspection d))" "CpDDL c = CdDDL d" "CpIdentity c = CdIdentity d"
    "CpDecimal c = CdDecimal d" "CpComposite c = CdComposite d" "CpFingerprint c = capabilitiesFingerprint c"
  using assms by (simp_all add: NewCapabilities_Inr) (simp_all add: described_def)

lemma fingerprintJSON_nonempty [simp]: "fingerprintJSON j \<noteq> []" "[] \<noteq> fingerprintJSON j"
  by (simp_all add: fingerprintJSON_def)

lemma filter_supported [simp]: "map fst (filter snd (map (\<lambda>s. (s, True)) xs)) = xs"
  by (induction xs) simp_all

lemma list_all_supported:
  "list_all P (map fst m) \<Longrightarrow> list_all P (map fst (filter snd m))"
  by (induction m) auto

lemma NewCapabilities_describes:
  assumes "NewCapabilities d = Inr c"
  shows "NewCapabilities (Capabilities_Descriptor c) = Inr c \<and> Capabilities_validate c = None"
proof -
  note d = assms [unfolded NewCapabilities_Inr] and c = NewCapabilities_fields [OF assms]
  have "described (Capabilities_Descriptor c) = c\<lparr>CpFingerprint := []\<rparr>"
    by (cases c) (simp add: described_def Capabilities_Descriptor_def comp_def)
  then have "NewCapabilities (Capabilities_Descriptor c) = Inr c"
    unfolding NewCapabilities_Inr using d c(8)
    by (simp add: list_all_supported comp_def) (simp add: Capabilities_Descriptor_def described_def list_all_supported comp_def)
  then show ?thesis using d c(5,8) by (simp add: Capabilities_validate_def capabilitiesFingerprint_def)
qed

lemma sort_key_fst_set:
  assumes "distinct (map fst xs)" "distinct (map fst ys)" "set xs = set ys"
  shows "sort_key fst xs = sort_key fst (ys :: ('a :: linorder \<times> 'b) list)"
proof (rule map_sorted_distinct_set_unique [of fst])
  show "inj_on fst (set (sort_key fst xs) \<union> set (sort_key fst ys))"
    using assms by (simp add: distinct_map)
qed (use assms in \<open>simp_all add: distinct_map\<close>)

lemma sort_set: "distinct xs \<Longrightarrow> distinct ys \<Longrightarrow> set xs = set ys \<Longrightarrow> sort xs = sort ys"
  for xs ys :: "'a :: linorder list"
  by (metis sorted_list_of_set_sort_remdups distinct_remdups_id)

text \<open>
  The fingerprint of a capability snapshot depends on what the engine supports and not on the
  order in which the maps of its descriptor are visited: two snapshots with the same identity, bounds, sets of
  scopes and DDL capabilities have the same fingerprint.
\<close>

theorem capabilitiesFingerprint_order:
  assumes "NewCapabilities d = Inr c" "NewCapabilities d' = Inr c'"
    and "gm_ok (CdTransactions d)" "gm_ok (CdAtomicReplacements d)" "gm_ok (CdInspection d)" "gm_ok (CdDDL d)"
    and "gm_ok (CdTransactions d')" "gm_ok (CdAtomicReplacements d')" "gm_ok (CdInspection d')" "gm_ok (CdDDL d')"
    and "CdIdentity d = CdIdentity d'" "CdDecimal d = CdDecimal d'" "CdComposite d = CdComposite d'"
    and "\<And>s. SupportsTransaction c s = SupportsTransaction c' s"
    and "\<And>s. SupportsAtomicReplacement c s = SupportsAtomicReplacement c' s"
    and "\<And>s. SupportsInspection c s = SupportsInspection c' s"
    and "\<And>s. Capabilities_DDL c s = Capabilities_DDL c' s"
  shows "CpFingerprint c = CpFingerprint c'"
proof -
  have dist: "distinct (map fst (filter snd m))" if "gm_ok m" for m :: "(string, bool) gomap"
    using that by (rule distinct_map_filter)
  note c = NewCapabilities_fields [OF assms(1)] and c' = NewCapabilities_fields [OF assms(2)]
  have "sort (CpTransactions c) = sort (CpTransactions c')"
    by (rule sort_set) (use assms(14) in \<open>simp_all add: c c' dist assms(3,7) SupportsTransaction_def set_eq_iff\<close>)
  moreover have "sort (CpAtomicReplacements c) = sort (CpAtomicReplacements c')"
    by (rule sort_set) (use assms(15) in \<open>simp_all add: c c' dist assms(4,8) SupportsAtomicReplacement_def set_eq_iff\<close>)
  moreover have "sort (CpInspection c) = sort (CpInspection c')"
    by (rule sort_set) (use assms(16) in \<open>simp_all add: c c' dist assms(5,9) SupportsInspection_def set_eq_iff\<close>)
  moreover have "set (CpDDL c) = set (CpDDL c')"
    using assms(17) by (auto simp: Capabilities_DDL_def c c' gm_get_in [OF assms(6), symmetric] gm_get_in [OF assms(10), symmetric])
  then have "sort_key fst (CpDDL c) = sort_key fst (CpDDL c')"
    by (intro sort_key_fst_set) (simp_all add: c c' assms(6,10))
  ultimately show ?thesis
    unfolding c(8) c'(8) capabilitiesFingerprint_def capabilities_document_def by (simp add: c(5-7) c'(5-7) assms(11-13))
qed

definition sample_descriptor :: CapabilitiesDescriptor where
  "sample_descriptor =
     \<lparr>CdIdentity = \<lparr>IdID = ''duckdb'', IdVersion = ''1.0''\<rparr>,
      CdDecimal = \<lparr>DmSupported = True, DmMaxPrecision = 38, DmMaxScale = 38\<rparr>,
      CdComposite = \<lparr>CmMaxStructDepth = 15, CmMaxListDepth = 1\<rparr>,
      CdTransactions = [(''single-table'', True), (''multi-table'', False)],
      CdAtomicReplacements = [(''table'', True), (''partition'', True)],
      CdInspection = [(''tables'', True)],
      CdDDL = [(''create-table'', \<lparr>DcGuarantee = ''atomic-physical-statement'', DcMaxFieldPathDepth = 0\<rparr>),
               (''add-column'', \<lparr>DcGuarantee = ''atomic-physical-table'', DcMaxFieldPathDepth = 15\<rparr>)]\<rparr>"

definition sample_shuffled :: CapabilitiesDescriptor where
  "sample_shuffled = sample_descriptor\<lparr>CdTransactions := [(''single-table'', True)],
     CdAtomicReplacements := rev (CdAtomicReplacements sample_descriptor), CdDDL := rev (CdDDL sample_descriptor)\<rparr>"

lemmas sample_descriptor_defs =
  sample_descriptor_def sample_shuffled_def NewCapabilities_Inr described_def Identity_validate_def invalid_decimal_def
  identityPartPattern_def versionPattern_def is_lower_def is_alpha_def in_class_def is_digit_def validTransactionScope_def
  validAtomicReplacementScope_def validInspectionScope_def valid_ddl_entry_def validDDLOperation_def validDDLGuarantee_def
  ddlUsesFieldPath_def

definition sample_capabilities :: Capabilities where
  "sample_capabilities =
     (described sample_descriptor)\<lparr>CpFingerprint := capabilitiesFingerprint (described sample_descriptor)\<rparr>"

lemma sample_NewCapabilities: "NewCapabilities sample_descriptor = Inr sample_capabilities"
  by (simp add: sample_capabilities_def sample_descriptor_defs)

theorem capabilitiesFingerprint_order_witness:
  "\<exists>c. NewCapabilities sample_shuffled = Inr c \<and> CpDDL c \<noteq> CpDDL sample_capabilities
     \<and> CpFingerprint c = CpFingerprint sample_capabilities"
proof -
  let ?c = "(described sample_shuffled)\<lparr>CpFingerprint := capabilitiesFingerprint (described sample_shuffled)\<rparr>"
  have c: "NewCapabilities sample_shuffled = Inr ?c" by (simp add: sample_descriptor_defs)
  have "CpFingerprint ?c = CpFingerprint sample_capabilities"
    by (rule capabilitiesFingerprint_order [OF c sample_NewCapabilities])
       (simp_all add: sample_descriptor_defs sample_capabilities_def SupportsTransaction_def
         SupportsAtomicReplacement_def SupportsInspection_def Capabilities_DDL_def disj_commute)
  moreover have "CpDDL ?c \<noteq> CpDDL sample_capabilities"
    by (simp add: sample_descriptor_def sample_shuffled_def sample_capabilities_def described_def)
  ultimately show ?thesis using c by blast
qed

end
