(* ===== verification/Engine_Schema.thy ===== *)
theory Engine_Schema
  imports Engine_Capabilities Schema_Evolution
begin

text \<open>
  \<open>internal/engine/schema.go\<close> with the checks of logical schemas it shares with \<open>plan.go\<close>: an intent is a
  sealed description of a schema change, and a schema planner turns an intent it can represent into a plan
  that is bound to the planner. The engine adapter behind a planner is a parameter.

  An issuer is the address of the marker a planner allocates, a number; the zero planner has no issuer and no
  adapter. The zero \<open>domain.Field\<close>, whose slice of nested fields is nil, is \<^const>\<open>None\<close> where a field can be
  absent; every other field is a clone, whose slices are never nil.

  The lemmas show what the depth and decimal checks accept, and that a plan binds only to the planner that
  issued it and to the intent it was issued for.
\<close>

section \<open>Encoding of schemas\<close>

record DomainTableReference =
  DrProjectID :: string
  DrDatasetID :: string
  DrTableID :: string

definition field_object :: "string \<Rightarrow> string \<Rightarrow> string \<Rightarrow> string \<Rightarrow> int option \<Rightarrow> int option \<Rightarrow> string \<Rightarrow> json \<Rightarrow> json" where
  "field_object n t m d p s r nested =
     JObject [(''Name'', JString n), (''Type'', JString t), (''Mode'', JString m), (''Description'', JString d),
       (''Precision'', json_optional_int p), (''Scale'', json_optional_int s), (''RoundingMode'', JString r),
       (''Fields'', nested)]"

fun json_field :: "Field \<Rightarrow> json" where
  "json_field (MkField n t m d p s r fs) = field_object n t m d p s r (JArray (map json_field fs))"

definition json_fields :: "Field list \<Rightarrow> json" where
  "json_fields fs = JArray (map json_field fs)"

definition json_addition :: "SchemaAddition \<Rightarrow> json" where
  "json_addition a = JObject [(''Path'', json_strings (SaPath a)), (''Field'', json_field (SaField a))]"

section \<open>Logical schemas\<close>

definition logical_table :: "DomainTableReference \<Rightarrow> Field list \<Rightarrow> Table" where
  "logical_table target schema =
     \<lparr>TbProjectID = DrProjectID target, TbDatasetID = DrDatasetID target, TbID = DrTableID target, TbFriendlyName = [],
      TbDescription = [], TbLabels = None, TbType = [], TbSchema = schema, TbLocation = [], TbExpirationTime = None,
      TbTimePartitioning = None, TbRangePartitioning = None, TbClusteringFields = [], TbCreatedAt = 0, TbUpdatedAt = 0\<rparr>"

definition validateLogicalTableSchema :: "DomainTableReference \<Rightarrow> Field list \<Rightarrow> go_error option" where
  "validateLogicalTableSchema target schema = Table_Validate (logical_table target schema)"

definition validateTableReference :: "DomainTableReference \<Rightarrow> go_error option" where
  "validateTableReference reference =
     (case Table_Validate (logical_table reference [MkField ''placeholder'' ''STRING'' [] [] None None [] []]) of
        Some e \<Rightarrow> Some (newPlanningError PlanningCodeInvalidDescriptor ''table-mutation'' ''mutation.target'' e)
      | None \<Rightarrow> None)"

definition classifyLogicalSchemaError :: "string \<Rightarrow> go_error \<Rightarrow> go_error" where
  "classifyLogicalSchemaError operation e =
     (if errors_Is e ErrUnsupported then newPlanningError PlanningCodeUnsupported operation ''logical.schema.policy'' []
      else invalid_descriptor operation ''logical.schema'')"

definition isStructField :: "Field \<Rightarrow> bool" where
  "isStructField f \<longleftrightarrow> strings_EqualFold (FType f) ''STRUCT'' \<or> strings_EqualFold (FType f) ''RECORD''"

definition isRepeatedField :: "Field \<Rightarrow> bool" where
  "isRepeatedField f \<longleftrightarrow> strings_EqualFold (FMode f) ''REPEATED''"

definition isDecimalField :: "Field \<Rightarrow> bool" where
  "isDecimalField f \<longleftrightarrow> strings_EqualFold (FType f) ''NUMERIC'' \<or> strings_EqualFold (FType f) ''BIGNUMERIC''"

definition decimal_capability :: "Capabilities \<Rightarrow> string \<Rightarrow> Field \<Rightarrow> go_error option" where
  "decimal_capability c operation f =
     (if \<not> isDecimalField f then None
      else if \<not> DmSupported (CpDecimal c) then Some (unsupportedCapability operation ''logical.decimal'')
      else case EffectiveDecimalParameters f of
        Inl e \<Rightarrow> Some (classifyLogicalSchemaError operation e)
      | Inr p \<Rightarrow>
          if DpPrecision p > DmMaxPrecision (CpDecimal c) then Some (unsupportedCapability operation ''logical.decimal.precision'')
          else if DpScale p > DmMaxScale (CpDecimal c) then Some (unsupportedCapability operation ''logical.decimal.scale'')
          else None)"

fun validateLogicalFieldsForOperation ::
  "Capabilities \<Rightarrow> string \<Rightarrow> Field list \<Rightarrow> int \<Rightarrow> int \<Rightarrow> go_error option" where
  "validateLogicalFieldsForOperation c operation [] structDepth listDepth = None"
| "validateLogicalFieldsForOperation c operation (MkField n t m d p s r nested # rest) structDepth listDepth =
     (let f = MkField n t m d p s r nested;
          fieldListDepth = (if isRepeatedField f then listDepth + 1 else listDepth);
          fieldStructDepth = (if isStructField f then structDepth + 1 else structDepth) in
      if isRepeatedField f \<and> fieldListDepth > CmMaxListDepth (CpComposite c)
      then Some (unsupportedCapability operation ''logical.list.depth'')
      else if isStructField f \<and> fieldStructDepth > CmMaxStructDepth (CpComposite c)
      then Some (unsupportedCapability operation ''logical.struct.depth'')
      else case decimal_capability c operation f of Some e \<Rightarrow> Some e
      | None \<Rightarrow>
          (case validateLogicalFieldsForOperation c operation nested fieldStructDepth fieldListDepth of
             Some e \<Rightarrow> Some e
           | None \<Rightarrow> validateLogicalFieldsForOperation c operation rest structDepth listDepth))"

section \<open>Intents\<close>

abbreviation SchemaOperationValidate :: string where "SchemaOperationValidate \<equiv> ''validate''"
abbreviation SchemaOperationCreate :: string where "SchemaOperationCreate \<equiv> ''create-table''"
abbreviation SchemaOperationAddColumns :: string where "SchemaOperationAddColumns \<equiv> ''add-columns''"

record SchemaIntentDescriptor =
  SidOperation :: string
  SidTarget :: DomainTableReference
  SidBeforeSchema :: "Field list"
  SidAfterSchema :: "Field list"
  SidAdditions :: "SchemaAddition list"

record SchemaIntent =
  SiOperation :: string
  SiTarget :: DomainTableReference
  SiBeforeSchema :: "Field list"
  SiAfterSchema :: "Field list"
  SiAdditions :: "SchemaAddition list"
  SiFingerprint :: string

definition validSchemaOperation :: "string \<Rightarrow> bool" where
  "validSchemaOperation operation \<longleftrightarrow>
     operation \<in> {SchemaOperationValidate, SchemaOperationCreate, SchemaOperationAddColumns}"

definition invalidSchemaIntent :: go_error where
  "invalidSchemaIntent = invalid_descriptor ''schema'' ''schema.transition''"

definition validateSchemaIntentTransition ::
  "string \<Rightarrow> DomainTableReference \<Rightarrow> Field list \<Rightarrow> Field list \<Rightarrow> SchemaAddition list \<Rightarrow> go_error option" where
  "validateSchemaIntentTransition operation target before after additions =
     (case validateLogicalTableSchema target after of
        Some e \<Rightarrow> Some (classifyLogicalSchemaError operation e)
      | None \<Rightarrow>
        if operation = SchemaOperationValidate \<or> operation = SchemaOperationCreate
        then (if before \<noteq> [] \<or> additions \<noteq> [] then Some invalidSchemaIntent else None)
        else if operation = SchemaOperationAddColumns
        then (case validateLogicalTableSchema target before of
                Some e \<Rightarrow> Some (classifyLogicalSchemaError operation e)
              | None \<Rightarrow>
                (case ValidateSchemaEvolution before after of
                   Inl e \<Rightarrow> Some (classifyLogicalSchemaError operation e)
                 | Inr expected \<Rightarrow> if expected = [] \<or> expected \<noteq> additions then Some invalidSchemaIntent else None))
        else None)"

definition intent_document :: "SchemaIntent \<Rightarrow> json" where
  "intent_document i =
     JObject [(''operation'', JString (SiOperation i)), (''projectId'', JString (DrProjectID (SiTarget i))),
       (''datasetId'', JString (DrDatasetID (SiTarget i))), (''tableId'', JString (DrTableID (SiTarget i))),
       (''beforeSchema'', json_fields (SiBeforeSchema i)), (''afterSchema'', json_fields (SiAfterSchema i)),
       (''additions'', JArray (map json_addition (SiAdditions i)))]"

definition schemaIntentFingerprint :: "SchemaIntent \<Rightarrow> string" where
  "schemaIntentFingerprint i = fingerprintJSON (intent_document i)"

definition NewSchemaIntent :: "SchemaIntentDescriptor \<Rightarrow> go_error + SchemaIntent" where
  "NewSchemaIntent d =
     (if \<not> validSchemaOperation (SidOperation d) then Inl (invalid_descriptor ''schema'' ''schema.operation'')
      else if validateTableReference (SidTarget d) \<noteq> None then Inl (invalid_descriptor ''schema'' ''schema.target'')
      else case validateSchemaIntentTransition (SidOperation d) (SidTarget d) (CloneFields (SidBeforeSchema d))
                  (CloneFields (SidAfterSchema d)) (SidAdditions d) of
        Some e \<Rightarrow> Inl e
      | None \<Rightarrow>
          let i = \<lparr>SiOperation = SidOperation d, SiTarget = SidTarget d, SiBeforeSchema = CloneFields (SidBeforeSchema d),
                   SiAfterSchema = CloneFields (SidAfterSchema d), SiAdditions = SidAdditions d, SiFingerprint = []\<rparr> in
          Inr (i\<lparr>SiFingerprint := schemaIntentFingerprint i\<rparr>))"

definition SchemaIntent_validate :: "SchemaIntent \<Rightarrow> go_error option" where
  "SchemaIntent_validate i =
     (if \<not> validSchemaOperation (SiOperation i) \<or> SiFingerprint i = [] \<or> SiFingerprint i \<noteq> schemaIntentFingerprint i
      then Some (invalid_descriptor ''schema'' ''schema.fingerprint'') else None)"

section \<open>Plans\<close>

type_synonym issuer = nat

record SchemaPlanner =
  SlCapabilities :: Capabilities
  SlAdapter :: "(SchemaIntent \<Rightarrow> go_error option) option"
  SlIssuer :: "issuer option"

record SchemaPlan =
  SqEngineIdentity :: Identity
  SqCapabilityFingerprint :: string
  SqIntent :: SchemaIntent
  SqFingerprint :: string
  SqIssuer :: "issuer option"

definition NewSchemaPlanner ::
  "issuer \<Rightarrow> Capabilities \<Rightarrow> (SchemaIntent \<Rightarrow> go_error option) option \<Rightarrow> go_error + SchemaPlanner" where
  "NewSchemaPlanner fresh c adapter =
     (case Capabilities_validate c of Some e \<Rightarrow> Inl e
      | None \<Rightarrow>
        if adapter = None then Inl (invalid_descriptor ''schema'' ''adapter.schema-planner'')
        else Inr \<lparr>SlCapabilities = c, SlAdapter = adapter, SlIssuer = Some fresh\<rparr>)"

definition validateSchemaOperationCapabilities :: "Capabilities \<Rightarrow> SchemaIntent \<Rightarrow> go_error option" where
  "validateSchemaOperationCapabilities c i =
     (if SiOperation i = SchemaOperationValidate then None
      else
        let operation = (if SiOperation i = SchemaOperationCreate then DDLCreateTable
                         else if SiOperation i = SchemaOperationAddColumns then DDLAddColumn else []);
            required = (if SiOperation i = SchemaOperationCreate then AtomicPhysicalStatement
                        else if SiOperation i = SchemaOperationAddColumns then AtomicPhysicalTable else []) in
        case Capabilities_DDL c operation of
          None \<Rightarrow> Some (unsupportedCapability (SiOperation i) (''ddl.'' @ operation @ ''.guarantee''))
        | Some capability \<Rightarrow>
            if \<not> ddlGuaranteeSatisfies (DcGuarantee capability) required
            then Some (unsupportedCapability (SiOperation i) (''ddl.'' @ operation @ ''.guarantee''))
            else if operation = DDLAddColumn
                    \<and> list_ex (\<lambda>a. int (length (SaPath a)) > DcMaxFieldPathDepth capability) (SiAdditions i)
            then Some (unsupportedCapability (SiOperation i) ''ddl.add-column.field-path-depth'')
            else None)"

definition adapterPlanningError :: "string \<Rightarrow> go_error \<Rightarrow> go_error" where
  "adapterPlanningError operation e =
     (case as_planning e of Some p \<Rightarrow> p
      | None \<Rightarrow>
        if e = [ContextCanceled] \<or> e = [ContextDeadlineExceeded] then e
        else newPlanningError PlanningCodeUnsupported operation ''adapter.planning'' e)"

definition schema_plan_document :: "SchemaPlan \<Rightarrow> json" where
  "schema_plan_document p =
     JObject [(''engineIdentity'', JString (Identity_key (SqEngineIdentity p))),
       (''capabilityFingerprint'', JString (SqCapabilityFingerprint p)),
       (''logicalFingerprint'', JString (SiFingerprint (SqIntent p)))]"

definition schemaPlanFingerprint :: "SchemaPlan \<Rightarrow> string" where
  "schemaPlanFingerprint p = fingerprintJSON (schema_plan_document p)"

definition SchemaPlanner_Plan :: "SchemaPlanner \<Rightarrow> SchemaIntent \<Rightarrow> go_error + SchemaPlan" where
  "SchemaPlanner_Plan planner i =
     (case (SlIssuer planner, SlAdapter planner) of
        (Some issuer, Some adapter) \<Rightarrow>
          (case SchemaIntent_validate i of Some e \<Rightarrow> Inl e
           | None \<Rightarrow>
             (case validateLogicalFieldsForOperation (SlCapabilities planner) (SiOperation i) (SiAfterSchema i) 0 0 of
                Some e \<Rightarrow> Inl e
              | None \<Rightarrow>
                (case validateSchemaOperationCapabilities (SlCapabilities planner) i of Some e \<Rightarrow> Inl e
                 | None \<Rightarrow>
                   (case adapter i of Some e \<Rightarrow> Inl (adapterPlanningError (SiOperation i) e)
                    | None \<Rightarrow>
                      let p = \<lparr>SqEngineIdentity = CpIdentity (SlCapabilities planner),
                               SqCapabilityFingerprint = CpFingerprint (SlCapabilities planner), SqIntent = i,
                               SqFingerprint = [], SqIssuer = Some issuer\<rparr> in
                      Inr (p\<lparr>SqFingerprint := schemaPlanFingerprint p\<rparr>)))))
      | _ \<Rightarrow> Inl (invalid_descriptor ''schema'' ''schema.planner''))"

definition SchemaPlanner_ValidateBinding :: "SchemaPlanner \<Rightarrow> SchemaPlan \<Rightarrow> SchemaIntent \<Rightarrow> go_error option" where
  "SchemaPlanner_ValidateBinding planner p i =
     (if SlIssuer planner = None \<or> SlAdapter planner = None then Some (invalid_descriptor ''schema'' ''schema.planner'')
      else case SchemaIntent_validate i of Some e \<Rightarrow> Some e
      | None \<Rightarrow>
        if SqFingerprint p = [] \<or> SqFingerprint p \<noteq> schemaPlanFingerprint p
        then Some (invalid_descriptor ''schema'' ''schema-plan.fingerprint'')
        else if SqEngineIdentity p \<noteq> CpIdentity (SlCapabilities planner)
        then Some (newPlanningError PlanningCodeEngineMismatch ''schema'' ''engine.identity'' [])
        else if SqCapabilityFingerprint p \<noteq> CpFingerprint (SlCapabilities planner)
        then Some (newPlanningError PlanningCodeCapabilityDrift ''schema'' ''capability.fingerprint'' [])
        else if SiFingerprint (SqIntent p) \<noteq> SiFingerprint i
        then Some (newPlanningError PlanningCodeMutationMismatch ''schema'' ''schema.fingerprint'' [])
        else if SqIssuer p \<noteq> SlIssuer planner
        then Some (newPlanningError PlanningCodePlannerMismatch ''schema'' ''planner.provenance'' [])
        else None)"

section \<open>What the logical checks accept\<close>

text \<open>The chains of a schema: every field with the fields that enclose it, outermost first.\<close>

fun field_chains :: "Field list \<Rightarrow> Field list list" where
  "field_chains [] = []"
| "field_chains (MkField n t m d p s r nested # rest) =
     [MkField n t m d p s r nested] # map ((#) (MkField n t m d p s r nested)) (field_chains nested) @ field_chains rest"

definition decimal_supported :: "Capabilities \<Rightarrow> Field \<Rightarrow> bool" where
  "decimal_supported c f \<longleftrightarrow>
     (\<not> isDecimalField f \<or>
      DmSupported (CpDecimal c) \<and>
      (case EffectiveDecimalParameters f of Inl _ \<Rightarrow> False
       | Inr p \<Rightarrow> DpPrecision p \<le> DmMaxPrecision (CpDecimal c) \<and> DpScale p \<le> DmMaxScale (CpDecimal c)))"

definition chain_supported :: "Capabilities \<Rightarrow> int \<Rightarrow> int \<Rightarrow> Field list \<Rightarrow> bool" where
  "chain_supported c structDepth listDepth ch \<longleftrightarrow>
     listDepth + int (length (filter isRepeatedField ch)) \<le> CmMaxListDepth (CpComposite c)
     \<and> structDepth + int (length (filter isStructField ch)) \<le> CmMaxStructDepth (CpComposite c)
     \<and> decimal_supported c (last ch)"

lemma decimal_capability_None: "decimal_capability c operation f = None \<longleftrightarrow> decimal_supported c f"
  by (auto simp: decimal_capability_def decimal_supported_def split: sum.splits)

lemma field_chains_nonempty: "ch \<in> set (field_chains fs) \<Longrightarrow> ch \<noteq> []"
  by (induction fs arbitrary: ch rule: field_chains.induct) auto

lemma chain_supported_Cons:
  "ch \<noteq> [] \<Longrightarrow> chain_supported c sd ld (f # ch) \<longleftrightarrow>
     chain_supported c (if isStructField f then sd + 1 else sd) (if isRepeatedField f then ld + 1 else ld) ch"
  by (auto simp: chain_supported_def)

lemma validateLogicalFields_step:
  assumes f: "f = MkField n t m d p s r nested"
    and "sd \<le> CmMaxStructDepth (CpComposite c)" "ld \<le> CmMaxListDepth (CpComposite c)"
  shows "validateLogicalFieldsForOperation c operation (MkField n t m d p s r nested # rest) sd ld = None \<longleftrightarrow>
    ((if isRepeatedField f then ld + 1 else ld) \<le> CmMaxListDepth (CpComposite c)
      \<and> (if isStructField f then sd + 1 else sd) \<le> CmMaxStructDepth (CpComposite c) \<and> decimal_supported c f)
    \<and> validateLogicalFieldsForOperation c operation nested (if isStructField f then sd + 1 else sd)
          (if isRepeatedField f then ld + 1 else ld) = None
    \<and> validateLogicalFieldsForOperation c operation rest sd ld = None"
  unfolding validateLogicalFieldsForOperation.simps(2) Let_def
  unfolding f [symmetric] decimal_capability_None [symmetric, of c f operation]
  using assms(2,3) by (cases "isRepeatedField f"; cases "isStructField f") (auto split: option.splits)

lemma validateLogicalFields_chains:
  "sd \<le> CmMaxStructDepth (CpComposite c) \<Longrightarrow> ld \<le> CmMaxListDepth (CpComposite c) \<Longrightarrow>
   validateLogicalFieldsForOperation c operation fs sd ld = None \<longleftrightarrow>
     (\<forall>ch \<in> set (field_chains fs). chain_supported c sd ld ch)"
proof (induction c operation fs sd ld rule: validateLogicalFieldsForOperation.induct)
  case (2 c operation n t m d p s r nested rest sd ld)
  let ?f = "MkField n t m d p s r nested"
  let ?ld = "if isRepeatedField ?f then ld + 1 else ld" and ?sd = "if isStructField ?f then sd + 1 else sd"
  let ?top = "?ld \<le> CmMaxListDepth (CpComposite c) \<and> ?sd \<le> CmMaxStructDepth (CpComposite c) \<and> decimal_supported c ?f"
  have top: "chain_supported c sd ld [?f] \<longleftrightarrow> ?top"
    by (auto simp: chain_supported_def)
  have nested: "(\<forall>ch \<in> set (field_chains nested). chain_supported c sd ld (?f # ch)) \<longleftrightarrow>
      (\<forall>ch \<in> set (field_chains nested). chain_supported c ?sd ?ld ch)"
    using chain_supported_Cons field_chains_nonempty by blast
  have step: "validateLogicalFieldsForOperation c operation (?f # rest) sd ld = None \<longleftrightarrow>
      ?top \<and> validateLogicalFieldsForOperation c operation nested ?sd ?ld = None
      \<and> validateLogicalFieldsForOperation c operation rest sd ld = None"
    by (rule validateLogicalFields_step [OF refl 2(3,4)])
  show ?case
  proof (cases ?top)
    case True
    have "validateLogicalFieldsForOperation c operation nested ?sd ?ld = None \<longleftrightarrow>
        (\<forall>ch \<in> set (field_chains nested). chain_supported c ?sd ?ld ch)"
      by (rule "2.IH"(1)) (use True decimal_capability_None [of c operation ?f] in auto)
    moreover have "validateLogicalFieldsForOperation c operation rest sd ld = None \<longleftrightarrow>
        (\<forall>ch \<in> set (field_chains rest). chain_supported c sd ld ch)"
      if "validateLogicalFieldsForOperation c operation nested ?sd ?ld = None"
      by (rule "2.IH"(2)) (use True that 2(3,4) decimal_capability_None [of c operation ?f] in auto)
    ultimately show ?thesis using True unfolding step by (auto simp: top nested ball_Un)
  next
    case False
    then have "\<not> chain_supported c sd ld [?f]" using top by blast
    then show ?thesis using False unfolding step by auto
  qed
qed simp

text \<open>
  With the capabilities of an engine, the planner accepts a logical schema exactly when, along every chain of
  nested fields, there are no more repeated and no more struct fields than the engine's list and struct
  depths, and every decimal field has parameters within the engine's precision and scale.
\<close>

theorem logical_fields_accepted:
  assumes "NewCapabilities d = Inr c"
  shows "validateLogicalFieldsForOperation c operation fs 0 0 = None \<longleftrightarrow>
    (\<forall>ch \<in> set (field_chains fs). chain_supported c 0 0 ch)"
  by (rule validateLogicalFields_chains) (use assms in \<open>simp_all add: NewCapabilities_Inr described_def\<close>)

definition sample_nested :: "Field list" where
  "sample_nested = [MkField ''a'' ''RECORD'' ''REPEATED'' [] None None []
     [MkField ''b'' ''NUMERIC'' [] [] (Some 10) (Some 2) [] []]]"

definition sample_too_deep :: "Field list" where
  "sample_too_deep = [MkField ''a'' ''RECORD'' ''REPEATED'' [] None None []
     [MkField ''b'' ''STRING'' ''REPEATED'' [] None None [] []]]"

lemmas fold_defs = strings_EqualFold_def strings_ToLower_def lower_char_def strings_ToUpper_def upper_char_def

theorem logical_fields_accepted_witness:
  "validateLogicalFieldsForOperation sample_capabilities ''validate'' sample_nested 0 0 = None
   \<and> validateLogicalFieldsForOperation sample_capabilities ''validate'' sample_too_deep 0 0 \<noteq> None"
  unfolding logical_fields_accepted [OF sample_NewCapabilities]
  by (simp add: sample_nested_def sample_too_deep_def chain_supported_def decimal_supported_def isDecimalField_def
      isRepeatedField_def isStructField_def fold_defs sample_capabilities_def described_def sample_descriptor_def
      EffectiveDecimalParameters_def SparkDecimalMaxPrecision_def SparkDecimalMaxScale_def)

section \<open>What a plan is bound to\<close>

lemma field_object_inj:
  "field_object n t m d p s r j = field_object n' t' m' d' p' s' r' j' \<longleftrightarrow>
     n = n' \<and> t = t' \<and> m = m' \<and> d = d' \<and> p = p' \<and> s = s' \<and> r = r' \<and> j = j'"
  by (auto simp: field_object_def json_optional_int_inj)

lemma json_field_inj: "json_field f = json_field g \<longleftrightarrow> f = g"
proof (induction f arbitrary: g)
  case (MkField n t m d p s r fs)
  obtain n' t' m' d' p' s' r' gs where g: "g = MkField n' t' m' d' p' s' r' gs" by (cases g)
  have "map json_field fs = map json_field gs \<longleftrightarrow> fs = gs"
    using MkField by (induction fs arbitrary: gs) (auto simp: Cons_eq_map_conv)
  then show ?case by (auto simp: g field_object_inj)
qed

lemma map_json_field_inj: "map json_field a = map json_field b \<longleftrightarrow> a = b"
  by (rule inj_map_eq_map) (simp add: inj_def json_field_inj)

lemma json_fields_inj: "json_fields a = json_fields b \<longleftrightarrow> a = b"
  by (simp add: json_fields_def map_json_field_inj)

lemma map_json_addition_inj: "map json_addition a = map json_addition b \<longleftrightarrow> a = b"
  by (rule inj_map_eq_map) (simp add: inj_def json_addition_def json_strings_inj json_field_inj)

lemma intent_document_inj:
  "intent_document i = intent_document j \<Longrightarrow> SiFingerprint i = SiFingerprint j \<Longrightarrow> i = j"
  by (cases i; cases j) (auto simp: intent_document_def json_fields_inj map_json_addition_inj)

lemma fingerprintJSON_eq: "fingerprintJSON a = fingerprintJSON b \<longleftrightarrow> json_digest a = json_digest b"
  by (simp add: fingerprintJSON_def)

lemma schemaPlanFingerprint_update [simp]:
  "schemaPlanFingerprint (p\<lparr>SqFingerprint := f\<rparr>) = schemaPlanFingerprint p"
  by (simp add: schemaPlanFingerprint_def schema_plan_document_def)

lemma SchemaIntent_validate_None:
  "SchemaIntent_validate i = None \<longleftrightarrow> validSchemaOperation (SiOperation i) \<and> SiFingerprint i = schemaIntentFingerprint i"
  by (auto simp: SchemaIntent_validate_def schemaIntentFingerprint_def)

lemma same_intent:
  assumes "SchemaIntent_validate i = None" "SchemaIntent_validate j = None" "SiFingerprint i = SiFingerprint j"
    and "json_valid_strings (intent_document i)" "json_valid_strings (intent_document j)"
  shows "i = j \<or> digest_collision (intent_document i) (intent_document j)"
proof -
  have "json_digest (intent_document i) = json_digest (intent_document j)"
    using assms(1-3) by (simp add: SchemaIntent_validate_None schemaIntentFingerprint_def fingerprintJSON_eq)
  from json_digest_eq [OF assms(4,5) this] show ?thesis using intent_document_inj assms(3) by blast
qed

lemma SchemaPlanner_Plan_Inr:
  "SchemaPlanner_Plan planner i = Inr p \<longleftrightarrow>
     (\<exists>issuer adapter. SlIssuer planner = Some issuer \<and> SlAdapter planner = Some adapter \<and> adapter i = None
       \<and> SchemaIntent_validate i = None
       \<and> validateLogicalFieldsForOperation (SlCapabilities planner) (SiOperation i) (SiAfterSchema i) 0 0 = None
       \<and> validateSchemaOperationCapabilities (SlCapabilities planner) i = None)
     \<and> SqEngineIdentity p = CpIdentity (SlCapabilities planner)
     \<and> SqCapabilityFingerprint p = CpFingerprint (SlCapabilities planner) \<and> SqIntent p = i
     \<and> SqIssuer p = SlIssuer planner \<and> SqFingerprint p = schemaPlanFingerprint p"
  by (cases p) (auto simp: SchemaPlanner_Plan_def Let_def schemaPlanFingerprint_def schema_plan_document_def split: option.splits)

lemma SchemaPlanner_ValidateBinding_None:
  "SchemaPlanner_ValidateBinding planner p i = None \<longleftrightarrow>
     SlIssuer planner \<noteq> None \<and> SlAdapter planner \<noteq> None \<and> SchemaIntent_validate i = None
     \<and> SqFingerprint p = schemaPlanFingerprint p \<and> SqEngineIdentity p = CpIdentity (SlCapabilities planner)
     \<and> SqCapabilityFingerprint p = CpFingerprint (SlCapabilities planner)
     \<and> SiFingerprint (SqIntent p) = SiFingerprint i \<and> SqIssuer p = SlIssuer planner"
  by (auto simp: SchemaPlanner_ValidateBinding_def schemaPlanFingerprint_def split: option.splits)

text \<open>
  C32. A schema plan is accepted by the planner that issued it for the intent it was issued for. A planner that
  accepts it for an intent is the issuer, has the same engine identity and capabilities, and the intent is the
  planned one, unless the two intents are a collision of SHA-256.
\<close>

theorem schema_plan_binding:
  assumes "SchemaPlanner_Plan planner i = Inr p"
    and "json_valid_strings (intent_document i)" "json_valid_strings (intent_document j)"
  shows "SchemaPlanner_ValidateBinding planner p i = None
    \<and> (SchemaPlanner_ValidateBinding planner' p j = None \<longrightarrow>
         SlIssuer planner' = SlIssuer planner \<and> CpIdentity (SlCapabilities planner') = CpIdentity (SlCapabilities planner)
         \<and> CpFingerprint (SlCapabilities planner') = CpFingerprint (SlCapabilities planner)
         \<and> (j = i \<or> digest_collision (intent_document i) (intent_document j)))"
proof -
  note p = assms(1) [unfolded SchemaPlanner_Plan_Inr]
  then have "SchemaPlanner_ValidateBinding planner p i = None"
    by (auto simp: SchemaPlanner_ValidateBinding_None)
  moreover have "j = i \<or> digest_collision (intent_document i) (intent_document j)"
    if "SchemaPlanner_ValidateBinding planner' p j = None"
    using that p same_intent [of i j] assms(2,3) by (auto simp: SchemaPlanner_ValidateBinding_None)
  ultimately show ?thesis using p by (auto simp: SchemaPlanner_ValidateBinding_None)
qed

definition sample_target :: DomainTableReference where
  "sample_target = \<lparr>DrProjectID = ''proj'', DrDatasetID = ''data'', DrTableID = ''t''\<rparr>"

definition sample_intent :: SchemaIntent where
  "sample_intent =
     (let i = \<lparr>SiOperation = ''validate'', SiTarget = sample_target, SiBeforeSchema = [], SiAfterSchema = sample_nested,
               SiAdditions = [], SiFingerprint = []\<rparr> in i\<lparr>SiFingerprint := schemaIntentFingerprint i\<rparr>)"

definition sample_schema_planner :: SchemaPlanner where
  "sample_schema_planner = \<lparr>SlCapabilities = sample_capabilities, SlAdapter = Some (\<lambda>_. None), SlIssuer = Some 7\<rparr>"

lemma sample_logical_fields:
  "validateLogicalFieldsForOperation sample_capabilities operation sample_nested 0 0 = None"
  by (simp add: sample_nested_def decimal_capability_def isDecimalField_def
      isRepeatedField_def isStructField_def fold_defs sample_capabilities_def described_def sample_descriptor_def
      EffectiveDecimalParameters_def SparkDecimalMaxPrecision_def SparkDecimalMaxScale_def)

lemma sample_intent_valid: "SchemaIntent_validate sample_intent = None"
  by (simp add: SchemaIntent_validate_None sample_intent_def validSchemaOperation_def schemaIntentFingerprint_def
      intent_document_def Let_def)

lemma sample_intent_strings: "json_valid_strings (intent_document sample_intent)"
  by (simp add: intent_document_def sample_intent_def sample_target_def sample_nested_def Let_def json_fields_def
      field_object_def json_optional_int_def utf8_valid.simps)

theorem schema_plan_binding_witness:
  "\<exists>p. SchemaPlanner_Plan sample_schema_planner sample_intent = Inr p
     \<and> SchemaPlanner_ValidateBinding sample_schema_planner p sample_intent = None
     \<and> SchemaPlanner_ValidateBinding (sample_schema_planner\<lparr>SlIssuer := Some 8\<rparr>) p sample_intent \<noteq> None"
proof -
  let ?p = "\<lparr>SqEngineIdentity = CpIdentity sample_capabilities, SqCapabilityFingerprint = CpFingerprint sample_capabilities,
    SqIntent = sample_intent, SqFingerprint = [], SqIssuer = Some 7\<rparr>"
  have p: "SchemaPlanner_Plan sample_schema_planner sample_intent = Inr (?p\<lparr>SqFingerprint := schemaPlanFingerprint ?p\<rparr>)"
    using sample_intent_valid sample_logical_fields
    by (simp add: SchemaPlanner_Plan_Inr sample_schema_planner_def validateSchemaOperationCapabilities_def)
       (simp add: sample_intent_def Let_def schemaPlanFingerprint_def schema_plan_document_def)
  show ?thesis
    using p schema_plan_binding [OF p sample_intent_strings sample_intent_strings,
        of "sample_schema_planner\<lparr>SlIssuer := Some 8\<rparr>"]
    by (auto simp: sample_schema_planner_def)
qed

end
