(* ===== verification/Engine_Plan.thy ===== *)
theory Engine_Plan
  imports Engine_Schema
begin

text \<open>
  \<open>internal/engine\<close>: \<open>physical.go\<close>, \<open>plan.go\<close> and \<open>replacement.go\<close>. A table mutation is a sealed logical change of a
  table; a planner checks it against the capabilities of its engine, lets the adapter inspect the physical table
  and seals the proof of what the table is before and after the change into a plan; the plan is checked again inside
  the transaction that applies it.

  Generations are Go's \<open>uint64\<close>; they are only compared, so they are natural numbers. A descriptor of a
  physical state has the fields of the state and is the same record. An absent field of a change (Go's zero field)
  is \<^const>\<open>None\<close>. The adapter is a parameter; its inspection gives a proof or an error.
\<close>

section \<open>Physical states\<close>

definition hex_digit :: "char \<Rightarrow> bool" where
  "hex_digit c \<longleftrightarrow> is_digit c \<or> in_class 97 102 c \<or> in_class 65 70 c"

definition fingerprintLooksValid :: "string \<Rightarrow> bool" where
  "fingerprintLooksValid v \<longleftrightarrow> strings_HasPrefix v ''sha256:'' \<and> length v = 71 \<and> list_all hex_digit (drop 7 v)"

abbreviation PlanStrategyCreateTable :: string where "PlanStrategyCreateTable \<equiv> ''create-table''"
abbreviation PlanStrategyDropTable :: string where "PlanStrategyDropTable \<equiv> ''drop-table''"
abbreviation PlanStrategyAlterInPlace :: string where "PlanStrategyAlterInPlace \<equiv> ''alter-in-place''"
abbreviation PlanStrategyRebuildTable :: string where "PlanStrategyRebuildTable \<equiv> ''rebuild-table''"
abbreviation PlanStrategyReplaceTableData :: string where "PlanStrategyReplaceTableData \<equiv> ''replace-table-data''"
abbreviation PlanStrategyReplacePartitions :: string where "PlanStrategyReplacePartitions \<equiv> ''replace-partitions''"

abbreviation PhysicalStateVirgin :: string where "PhysicalStateVirgin \<equiv> ''virgin''"
abbreviation PhysicalStateUnmanaged :: string where "PhysicalStateUnmanaged \<equiv> ''unmanaged''"
abbreviation PhysicalStateManaged :: string where "PhysicalStateManaged \<equiv> ''managed''"
abbreviation PhysicalStateTombstone :: string where "PhysicalStateTombstone \<equiv> ''tombstone''"

record PhysicalTableState =
  PtTarget :: DomainTableReference
  PtExists :: bool
  PtGeneration :: nat
  PtLogicalShape :: string
  PtPhysicalShape :: string
  PtMarker :: string
  PtProvenance :: string

definition invalidPhysicalState :: go_error where
  "invalidPhysicalState = invalid_descriptor ''physical-inspection'' ''physical.state''"

definition invalidPlanProof :: go_error where
  "invalidPlanProof = invalid_descriptor ''plan-proof'' ''plan.proof''"

definition NewPhysicalTableState :: "PhysicalTableState \<Rightarrow> go_error + PhysicalTableState" where
  "NewPhysicalTableState d =
     (case validateTableReference (PtTarget d) of Some e \<Rightarrow> Inl e
      | None \<Rightarrow>
        if PtProvenance d = PhysicalStateVirgin then
          (if PtGeneration d \<noteq> 0 \<or> PtExists d \<or> PtLogicalShape d \<noteq> [] \<or> PtPhysicalShape d \<noteq> [] \<or> PtMarker d \<noteq> []
           then Inl invalidPhysicalState else Inr d)
        else if PtProvenance d = PhysicalStateUnmanaged then
          (if PtGeneration d \<noteq> 0 \<or> \<not> PtExists d \<or> \<not> fingerprintLooksValid (PtLogicalShape d)
              \<or> \<not> fingerprintLooksValid (PtPhysicalShape d) \<or> PtMarker d \<noteq> []
           then Inl invalidPhysicalState else Inr d)
        else if PtProvenance d = PhysicalStateManaged then
          (if PtGeneration d = 0 \<or> \<not> PtExists d \<or> \<not> fingerprintLooksValid (PtLogicalShape d)
              \<or> \<not> fingerprintLooksValid (PtPhysicalShape d) \<or> \<not> fingerprintLooksValid (PtMarker d)
           then Inl invalidPhysicalState else Inr d)
        else if PtProvenance d = PhysicalStateTombstone then
          (if PtGeneration d = 0 \<or> PtExists d \<or> PtLogicalShape d \<noteq> [] \<or> PtPhysicalShape d \<noteq> []
              \<or> \<not> fingerprintLooksValid (PtMarker d)
           then Inl invalidPhysicalState else Inr d)
        else Inl invalidPhysicalState)"

definition PhysicalTableState_validate :: "PhysicalTableState \<Rightarrow> go_error option" where
  "PhysicalTableState_validate s = (case NewPhysicalTableState s of Inl e \<Rightarrow> Some e | Inr _ \<Rightarrow> None)"

definition same_physical :: "PhysicalTableState \<Rightarrow> PhysicalTableState \<Rightarrow> bool" where
  "same_physical a b \<longleftrightarrow>
     PtTarget a = PtTarget b \<and> PtExists a = PtExists b \<and> PtGeneration a = PtGeneration b
     \<and> PtLogicalShape a = PtLogicalShape b \<and> PtPhysicalShape a = PtPhysicalShape b \<and> PtMarker a = PtMarker b
     \<and> PtProvenance a = PtProvenance b"

record PlanProof =
  PpBefore :: PhysicalTableState
  PpAfter :: PhysicalTableState
  PpStrategy :: string

definition validPlanStrategy :: "string \<Rightarrow> bool" where
  "validPlanStrategy s \<longleftrightarrow>
     s \<in> {PlanStrategyCreateTable, PlanStrategyDropTable, PlanStrategyAlterInPlace, PlanStrategyRebuildTable,
          PlanStrategyReplaceTableData, PlanStrategyReplacePartitions}"

definition NewPlanProof :: "PlanProof \<Rightarrow> go_error + PlanProof" where
  "NewPlanProof d =
     (case PhysicalTableState_validate (PpBefore d) of Some e \<Rightarrow> Inl e
      | None \<Rightarrow>
        (case PhysicalTableState_validate (PpAfter d) of Some e \<Rightarrow> Inl e
         | None \<Rightarrow>
           if PtTarget (PpBefore d) \<noteq> PtTarget (PpAfter d) then Inl invalidPlanProof
           else if PtGeneration (PpAfter d) \<le> PtGeneration (PpBefore d) then Inl invalidPlanProof
           else if \<not> validPlanStrategy (PpStrategy d) then Inl invalidPlanProof
           else Inr d))"

definition PlanProof_validate :: "PlanProof \<Rightarrow> go_error option" where
  "PlanProof_validate p = (case NewPlanProof p of Inl e \<Rightarrow> Some e | Inr _ \<Rightarrow> None)"

definition reference_members :: "DomainTableReference \<Rightarrow> (string \<times> json) list" where
  "reference_members t = [(''projectId'', JString (DrProjectID t)), (''datasetId'', JString (DrDatasetID t)),
     (''tableId'', JString (DrTableID t))]"

definition physicalStateFingerprintDocument :: "PhysicalTableState \<Rightarrow> json" where
  "physicalStateFingerprintDocument s =
     JObject (reference_members (PtTarget s) @
       [(''exists'', JBool (PtExists s)), (''generation'', JInt (int (PtGeneration s))),
        (''logicalShapeFingerprint'', JString (PtLogicalShape s)), (''physicalShapeFingerprint'', JString (PtPhysicalShape s)),
        (''markerFingerprint'', JString (PtMarker s)), (''provenance'', JString (PtProvenance s))])"

definition generationMarkerFingerprint :: "DomainTableReference \<Rightarrow> string \<Rightarrow> nat \<Rightarrow> string" where
  "generationMarkerFingerprint target correlationID generation =
     fingerprintJSON (JObject (reference_members target @
       [(''correlationId'', JString correlationID), (''generation'', JInt (int generation))]))"

definition planProofFingerprintDocument :: "PlanProof \<Rightarrow> json" where
  "planProofFingerprintDocument p =
     JObject [(''before'', physicalStateFingerprintDocument (PpBefore p)), (''after'', physicalStateFingerprintDocument (PpAfter p)),
       (''strategy'', JString (PpStrategy p))]"

definition unexpectedPhysicalState :: "string \<Rightarrow> go_error" where
  "unexpectedPhysicalState phase =
     newPlanningError PlanningCodePhysicalStateDrift ''validate-table-plan'' (''physical.'' @ phase) []"

definition logicalShapeFingerprint :: "Field list \<Rightarrow> string" where
  "logicalShapeFingerprint schema =
     (if schema = [] then [] else fingerprintJSON (JObject [(''schema'', json_fields schema)]))"

section \<open>Field changes\<close>

abbreviation TableMutationCreate :: string where "TableMutationCreate \<equiv> ''create''"
abbreviation TableMutationDrop :: string where "TableMutationDrop \<equiv> ''drop''"
abbreviation TableMutationAddColumn :: string where "TableMutationAddColumn \<equiv> ''add-column''"
abbreviation TableMutationDropColumn :: string where "TableMutationDropColumn \<equiv> ''drop-column''"
abbreviation TableMutationRenameColumn :: string where "TableMutationRenameColumn \<equiv> ''rename-column''"
abbreviation TableMutationChangeColumnType :: string where "TableMutationChangeColumnType \<equiv> ''change-column-type''"

definition validTableMutationKind :: "string \<Rightarrow> bool" where
  "validTableMutationKind kind \<longleftrightarrow>
     kind \<in> {TableMutationCreate, TableMutationDrop, TableMutationAddColumn, TableMutationDropColumn,
             TableMutationRenameColumn, TableMutationChangeColumnType}"

record FieldChange =
  FcPath :: "string list"
  FcBefore :: "Field option"
  FcAfter :: "Field option"

definition invalidFieldChange :: "string \<Rightarrow> go_error" where
  "invalidFieldChange kind = invalid_descriptor kind ''mutation.field-change''"

definition invalidSchemaTransition :: "string \<Rightarrow> go_error" where
  "invalidSchemaTransition kind = invalid_descriptor kind ''mutation.schema-transition''"

fun fieldIndex :: "Field list \<Rightarrow> string \<Rightarrow> nat option" where
  "fieldIndex [] name = None"
| "fieldIndex (f # fs) name =
     (if strings_EqualFold (FName f) name then Some 0 else map_option Suc (fieldIndex fs name))"

fun canonicalFieldPath :: "Field list \<Rightarrow> string list \<Rightarrow> string list option" where
  "canonicalFieldPath fs [] = None"
| "canonicalFieldPath fs (name # rest) =
     (case fieldIndex fs name of None \<Rightarrow> None
      | Some index \<Rightarrow>
          let f = fs ! index in
          if rest = [] then Some [FName f]
          else map_option ((#) (FName f)) (canonicalFieldPath (FFields f) rest))"

fun canonicalize_changes :: "string \<Rightarrow> Field list \<Rightarrow> FieldChange list \<Rightarrow> go_error + FieldChange list" where
  "canonicalize_changes kind schema [] = Inr []"
| "canonicalize_changes kind schema (change # rest) =
     (case canonicalFieldPath schema (FcPath change) of
        None \<Rightarrow> Inl (invalidFieldChange kind)
      | Some canonical \<Rightarrow>
          (case canonicalize_changes kind schema rest of Inl e \<Rightarrow> Inl e
           | Inr changes \<Rightarrow> Inr (change\<lparr>FcPath := canonical\<rparr> # changes)))"

definition canonicalizeFieldChangePaths ::
  "string \<Rightarrow> Field list \<Rightarrow> Field list \<Rightarrow> FieldChange list \<Rightarrow> go_error + FieldChange list" where
  "canonicalizeFieldChangePaths kind before after changes =
     canonicalize_changes kind (if kind = TableMutationAddColumn then after else before) changes"

definition with_name :: "Field \<Rightarrow> string \<Rightarrow> Field" where
  "with_name f n = MkField n (FType f) (FMode f) (FDescription f) (FPrecision f) (FScale f) (FRoundingMode f) (FFields f)"

definition validRename :: "Field \<Rightarrow> Field \<Rightarrow> bool" where
  "validRename before after \<longleftrightarrow>
     \<not> (FName before = [] \<or> FName after = [] \<or> strings_EqualFold (FName before) (FName after))
     \<and> with_name before (FName after) = after"

definition with_type_of :: "Field \<Rightarrow> Field \<Rightarrow> Field" where
  "with_type_of f g = MkField (FName f) (FType g) (FMode f) (FDescription f) (FPrecision g) (FScale g) (FRoundingMode g) (FFields f)"

definition validTypeChange :: "Field \<Rightarrow> Field \<Rightarrow> bool" where
  "validTypeChange before after \<longleftrightarrow>
     strings_EqualFold (FName before) (FName after) \<and> FMode before = FMode after
     \<and> FDescription before = FDescription after \<and> FFields before = FFields after
     \<and> (\<not> strings_EqualFold (FType before) (FType after) \<or> FPrecision before \<noteq> FPrecision after
        \<or> FScale before \<noteq> FScale after \<or> FRoundingMode before \<noteq> FRoundingMode after)
     \<and> with_type_of before after = after"

text \<open>
  \<open>applyFieldChange\<close>: the changed fields, or \<^const>\<open>None\<close> for one of its errors, which the caller reports as
  one error. \<open>change_leaf\<close> is the switch at the end of the path.
\<close>

definition change_leaf :: "Field list \<Rightarrow> string \<Rightarrow> string \<Rightarrow> FieldChange \<Rightarrow> Field list option" where
  "change_leaf fs name kind change =
     (let index = fieldIndex fs name in
      if kind = TableMutationAddColumn then
        (case FcAfter change of None \<Rightarrow> None
         | Some after \<Rightarrow>
             if index \<noteq> None \<or> FcBefore change \<noteq> None \<or> \<not> strings_EqualFold (FName after) name then None
             else if Field_Validate after \<noteq> None then None
             else Some (fs @ [after]))
      else case index of None \<Rightarrow> None
      | Some i \<Rightarrow>
        if FcBefore change \<noteq> Some (fs ! i) then None
        else if kind = TableMutationDropColumn then
          (if FcAfter change \<noteq> None then None else Some (take i fs @ drop (Suc i) fs))
        else case FcAfter change of None \<Rightarrow> None
        | Some after \<Rightarrow>
          if kind = TableMutationRenameColumn then
            (if \<not> validRename (fs ! i) after then None
             else if fieldIndex fs (FName after) \<noteq> None then None
             else Some (fs[i := after]))
          else if kind = TableMutationChangeColumnType then
            (if \<not> validTypeChange (fs ! i) after then None else Some (fs[i := after]))
          else None)"

fun applyFieldChange :: "Field list \<Rightarrow> string list \<Rightarrow> string \<Rightarrow> FieldChange \<Rightarrow> Field list option" where
  "applyFieldChange fs [] kind change = None"
| "applyFieldChange fs [name] kind change = change_leaf fs name kind change"
| "applyFieldChange fs (name # next # rest) kind change =
     (case fieldIndex fs name of None \<Rightarrow> None
      | Some i \<Rightarrow>
          if \<not> isStructField (fs ! i) then None
          else case applyFieldChange (FFields (fs ! i)) (next # rest) kind change of None \<Rightarrow> None
            | Some nested \<Rightarrow> Some (fs[i := with_fields (fs ! i) nested]))"

definition validateAndApplyFieldChange :: "string \<Rightarrow> Field list \<Rightarrow> Field list \<Rightarrow> FieldChange \<Rightarrow> go_error option" where
  "validateAndApplyFieldChange kind before after change =
     (if FcPath change = [] \<or> list_ex blank (FcPath change) then Some (invalidFieldChange kind)
      else case applyFieldChange (CloneFields before) (FcPath change) kind change of
        None \<Rightarrow> Some (invalidFieldChange kind)
      | Some changed \<Rightarrow> if changed \<noteq> after then Some (invalidFieldChange kind) else None)"

section \<open>Schemas of a mutation\<close>

definition legacy_types :: "string list" where
  "legacy_types = ''GEOGRAPHY'' # field_types"

definition validateLegacyDecimal :: "Field \<Rightarrow> bool" where
  "validateLegacyDecimal f \<longleftrightarrow>
     \<not> (FPrecision f = None \<and> FScale f \<noteq> None)
     \<and> (case FPrecision f of None \<Rightarrow> True
        | Some precision \<Rightarrow>
            let scale = (case FScale f of None \<Rightarrow> 0 | Some s \<Rightarrow> s);
                big = strings_EqualFold (FType f) ''BIGNUMERIC'';
                maximumPrecision = (if big then 76 else 38); maximumScale = (if big then 38 else 9) in
            \<not> (precision < 1 \<or> precision > maximumPrecision \<or> scale < 0 \<or> scale > maximumScale \<or> scale > precision))
     \<and> FRoundingMode f \<in> {[], RoundingModeUnspecified, RoundingModeHalfAwayFromZero, RoundingModeHalfEven}"

definition legacy_field :: "Field \<Rightarrow> bool" where
  "legacy_field f \<longleftrightarrow>
     (let t = strings_ToUpper (FType f); mode = strings_ToUpper (FMode f); isStruct = (t = ''RECORD'' \<or> t = ''STRUCT'') in
      length (FName f) \<le> 1024 \<and> resourceIDPattern (FName f) \<and> t \<in> set legacy_types
      \<and> mode \<in> {[], ''NULLABLE'', ''REQUIRED'', ''REPEATED''} \<and> isStruct = (FFields f \<noteq> [])
      \<and> (if t = ''NUMERIC'' \<or> t = ''BIGNUMERIC'' then validateLegacyDecimal f
         else FPrecision f = None \<and> FScale f = None \<and> FRoundingMode f = []))"

text \<open>The loop over the fields; \<open>True\<close> is a nil error. \<open>logicalFieldNamePattern\<close> is \<open>resourceIDPattern\<close>.\<close>

fun legacy_loop :: "string list \<Rightarrow> Field list \<Rightarrow> bool" where
  "legacy_loop seen [] = True"
| "legacy_loop seen (MkField n t m d p s r nested # rest) =
     (strings_ToLower n \<notin> set seen \<and> legacy_field (MkField n t m d p s r nested)
      \<and> (nested = [] \<or> legacy_loop [] nested) \<and> legacy_loop (strings_ToLower n # seen) rest)"

definition validateLegacySchemaStructure :: "Field list \<Rightarrow> bool" where
  "validateLegacySchemaStructure fs \<longleftrightarrow> fs \<noteq> [] \<and> legacy_loop [] fs"

definition validateMutationSchemas ::
  "string \<Rightarrow> DomainTableReference \<Rightarrow> Field list \<Rightarrow> Field list \<Rightarrow> FieldChange list \<Rightarrow> go_error option" where
  "validateMutationSchemas kind target before after changes =
     (let validateBefore = (if \<not> validateLegacySchemaStructure before
                            then Some (invalid_descriptor kind ''mutation.before-schema'') else None);
          validateAfter = (case validateLogicalTableSchema target after of
                             Some e \<Rightarrow> Some (classifyLogicalSchemaError kind e) | None \<Rightarrow> None) in
      if kind = TableMutationCreate then
        (if before \<noteq> [] \<or> changes \<noteq> [] then Some (invalidSchemaTransition kind) else validateAfter)
      else if kind = TableMutationDrop then
        (if after \<noteq> [] \<or> changes \<noteq> [] then Some (invalidSchemaTransition kind) else validateBefore)
      else case validateBefore of Some e \<Rightarrow> Some e
      | None \<Rightarrow>
        (case validateAfter of Some e \<Rightarrow> Some e
         | None \<Rightarrow>
           (case changes of [change] \<Rightarrow> validateAndApplyFieldChange kind before after change
            | _ \<Rightarrow> Some (invalidSchemaTransition kind))))"

section \<open>Table mutations\<close>

record TableMutationDescriptor =
  MdKind :: string
  MdTarget :: DomainTableReference
  MdBeforeSchema :: "Field list"
  MdAfterSchema :: "Field list"
  MdFieldChanges :: "FieldChange list"
  MdCorrelationID :: string
  MdExpectedGeneration :: nat
  MdGeneration :: nat

record TableMutation =
  MuKind :: string
  MuTarget :: DomainTableReference
  MuBeforeSchema :: "Field list"
  MuAfterSchema :: "Field list"
  MuFieldChanges :: "FieldChange list"
  MuCorrelationID :: string
  MuExpectedGeneration :: nat
  MuGeneration :: nat
  MuLogicalFingerprint :: string

definition correlationPattern :: "string \<Rightarrow> bool" where
  "correlationPattern s \<longleftrightarrow>
     (case s of [] \<Rightarrow> False
      | c # cs \<Rightarrow> (is_alpha c \<or> is_digit c) \<and> length cs \<le> 127
                 \<and> list_all (\<lambda>x. is_alpha x \<or> is_digit x \<or> x \<in> set ''._-'') cs)"

definition validateCorrelation :: "string \<Rightarrow> nat \<Rightarrow> nat \<Rightarrow> string \<Rightarrow> go_error option" where
  "validateCorrelation correlationID expectedGeneration generation operation =
     (if \<not> correlationPattern correlationID then Some (invalid_descriptor operation ''correlation.id'')
      else if generation = 0 \<or> generation \<le> expectedGeneration
      then Some (invalid_descriptor operation ''correlation.generation'') else None)"

definition json_optional_field :: "Field option \<Rightarrow> json" where
  "json_optional_field f =
     (case f of None \<Rightarrow> field_object [] [] [] [] None None [] JNull | Some f \<Rightarrow> json_field f)"

definition json_change :: "FieldChange \<Rightarrow> json" where
  "json_change c = JObject [(''path'', json_strings (FcPath c)), (''before'', json_optional_field (FcBefore c)),
     (''after'', json_optional_field (FcAfter c))]"

definition mutation_document :: "TableMutation \<Rightarrow> json" where
  "mutation_document m =
     JObject ((''kind'', JString (MuKind m)) # reference_members (MuTarget m) @
       [(''beforeSchema'', json_fields (MuBeforeSchema m)), (''afterSchema'', json_fields (MuAfterSchema m)),
        (''fieldChanges'', json_array (map json_change (MuFieldChanges m))), (''correlationId'', JString (MuCorrelationID m)),
        (''expectedGeneration'', JInt (int (MuExpectedGeneration m))), (''generation'', JInt (int (MuGeneration m)))])"

definition mutationFingerprint :: "TableMutation \<Rightarrow> string" where
  "mutationFingerprint m = fingerprintJSON (mutation_document m)"

definition NewTableMutation :: "TableMutationDescriptor \<Rightarrow> go_error + TableMutation" where
  "NewTableMutation d =
     (if \<not> validTableMutationKind (MdKind d) then Inl (invalid_descriptor ''table-mutation'' ''mutation.kind'')
      else case validateTableReference (MdTarget d) of Some e \<Rightarrow> Inl e
      | None \<Rightarrow>
        (case validateCorrelation (MdCorrelationID d) (MdExpectedGeneration d) (MdGeneration d) ''table-mutation'' of
           Some e \<Rightarrow> Inl e
         | None \<Rightarrow>
           let before = CloneFields (MdBeforeSchema d); after = CloneFields (MdAfterSchema d) in
           case canonicalizeFieldChangePaths (MdKind d) before after (MdFieldChanges d) of Inl e \<Rightarrow> Inl e
           | Inr changes \<Rightarrow>
             (case validateMutationSchemas (MdKind d) (MdTarget d) before after changes of Some e \<Rightarrow> Inl e
              | None \<Rightarrow>
                let m = \<lparr>MuKind = MdKind d, MuTarget = MdTarget d, MuBeforeSchema = before, MuAfterSchema = after,
                         MuFieldChanges = changes, MuCorrelationID = MdCorrelationID d,
                         MuExpectedGeneration = MdExpectedGeneration d, MuGeneration = MdGeneration d,
                         MuLogicalFingerprint = []\<rparr> in
                Inr (m\<lparr>MuLogicalFingerprint := mutationFingerprint m\<rparr>))))"

definition TableMutation_validate :: "TableMutation \<Rightarrow> go_error option" where
  "TableMutation_validate m =
     (if \<not> validTableMutationKind (MuKind m) \<or> MuLogicalFingerprint m = [] \<or> MuLogicalFingerprint m \<noteq> mutationFingerprint m
      then Some (invalid_descriptor ''table-mutation'' ''mutation.fingerprint'') else None)"

definition GenerationMarkerFingerprint :: "TableMutation \<Rightarrow> string" where
  "GenerationMarkerFingerprint m = generationMarkerFingerprint (MuTarget m) (MuCorrelationID m) (MuGeneration m)"

section \<open>Requirements\<close>

record PlanRequirements =
  RqTransactions :: "string list"
  RqAtomicReplacements :: "string list"
  RqInspection :: "string list"
  RqDDLGuarantee :: string

definition invalidRequirement :: "string \<Rightarrow> go_error" where
  "invalidRequirement kind = invalid_descriptor ''table-plan'' (''requirement.'' @ kind)"

text \<open>The loop over one kind of scopes: an unknown scope or a duplicate is the same error.\<close>

fun check_scopes :: "(string \<Rightarrow> bool) \<Rightarrow> string \<Rightarrow> string list \<Rightarrow> string list \<Rightarrow> go_error option" where
  "check_scopes valid kind seen [] = None"
| "check_scopes valid kind seen (scope # rest) =
     (if \<not> valid scope \<or> scope \<in> set seen then Some (invalidRequirement kind)
      else check_scopes valid kind (scope # seen) rest)"

definition normalizeRequirements :: "PlanRequirements \<Rightarrow> go_error + PlanRequirements" where
  "normalizeRequirements r =
     (if \<not> validDDLGuarantee (RqDDLGuarantee r) then Inl (invalidRequirement ''ddl-guarantee'')
      else case check_scopes validTransactionScope ''transaction'' [] (RqTransactions r) of Some e \<Rightarrow> Inl e
      | None \<Rightarrow>
        (case check_scopes validAtomicReplacementScope ''atomic-replacement'' [] (RqAtomicReplacements r) of Some e \<Rightarrow> Inl e
         | None \<Rightarrow>
           (case check_scopes validInspectionScope ''inspection'' [] (RqInspection r) of Some e \<Rightarrow> Inl e
            | None \<Rightarrow> Inr (r\<lparr>RqTransactions := sort (RqTransactions r),
                RqAtomicReplacements := sort (RqAtomicReplacements r), RqInspection := sort (RqInspection r)\<rparr>))))"

definition mutationDDLOperation :: "string \<Rightarrow> string" where
  "mutationDDLOperation kind =
     (if kind = TableMutationCreate then DDLCreateTable
      else if kind = TableMutationDrop then DDLDropTable
      else if kind = TableMutationAddColumn then DDLAddColumn
      else if kind = TableMutationDropColumn then DDLDropColumn
      else if kind = TableMutationRenameColumn then DDLRenameColumn
      else if kind = TableMutationChangeColumnType then DDLChangeColumnType
      else [])"

definition validateRequirements :: "Capabilities \<Rightarrow> string \<Rightarrow> PlanRequirements \<Rightarrow> go_error option" where
  "validateRequirements c kind r =
     (case find (\<lambda>s. \<not> SupportsTransaction c s) (RqTransactions r) of
        Some s \<Rightarrow> Some (unsupportedCapability kind (''transaction.'' @ s))
      | None \<Rightarrow>
        (case find (\<lambda>s. \<not> SupportsAtomicReplacement c s) (RqAtomicReplacements r) of
           Some s \<Rightarrow> Some (unsupportedCapability kind (''atomic-replacement.'' @ s))
         | None \<Rightarrow>
           (case find (\<lambda>s. \<not> SupportsInspection c s) (RqInspection r) of
              Some s \<Rightarrow> Some (unsupportedCapability kind (''inspection.'' @ s))
            | None \<Rightarrow>
              (case Capabilities_DDL c (mutationDDLOperation kind) of
                 None \<Rightarrow> Some (unsupportedCapability kind (''ddl.'' @ mutationDDLOperation kind @ ''.guarantee''))
               | Some ddl \<Rightarrow>
                   if \<not> ddlGuaranteeSatisfies (DcGuarantee ddl) (RqDDLGuarantee r)
                   then Some (unsupportedCapability kind (''ddl.'' @ mutationDDLOperation kind @ ''.guarantee''))
                   else None))))"

text \<open>A mutation that uses a field path has one field change; indexing an empty slice would panic.\<close>

definition validateMutationCapability :: "Capabilities \<Rightarrow> TableMutation \<Rightarrow> go_error option" where
  "validateMutationCapability c m =
     (let operation = mutationDDLOperation (MuKind m) in
      case Capabilities_DDL c operation of
        None \<Rightarrow> Some (unsupportedCapability (MuKind m) (''ddl.'' @ operation))
      | Some ddl \<Rightarrow>
          if ddlUsesFieldPath operation then
            (case MuFieldChanges m of [] \<Rightarrow> Some (errors_New ''index out of range'')
             | change # _ \<Rightarrow>
                 if int (length (FcPath change)) > DcMaxFieldPathDepth ddl
                 then Some (unsupportedCapability (MuKind m) (''ddl.'' @ operation @ ''.field-path-depth''))
                 else None)
          else None)"

definition validateDesiredLogicalSchema :: "Capabilities \<Rightarrow> TableMutation \<Rightarrow> go_error option" where
  "validateDesiredLogicalSchema c m =
     (if MuKind m = TableMutationDrop then None
      else validateLogicalFieldsForOperation c (MuKind m) (MuAfterSchema m) 0 0)"

section \<open>Proofs of a plan\<close>

definition create_proof :: "TableMutation \<Rightarrow> PlanProof \<Rightarrow> bool" where
  "create_proof m p \<longleftrightarrow>
     \<not> PtExists (PpBefore p) \<and> PtProvenance (PpAfter p) = PhysicalStateManaged \<and> PtExists (PpAfter p)
     \<and> PtLogicalShape (PpAfter p) = logicalShapeFingerprint (MuAfterSchema m) \<and> PpStrategy p = PlanStrategyCreateTable"

definition drop_proof :: "TableMutation \<Rightarrow> PlanProof \<Rightarrow> bool" where
  "drop_proof m p \<longleftrightarrow>
     PtProvenance (PpBefore p) = PhysicalStateManaged \<and> PtExists (PpBefore p)
     \<and> PtLogicalShape (PpBefore p) = logicalShapeFingerprint (MuBeforeSchema m)
     \<and> PtProvenance (PpAfter p) = PhysicalStateTombstone \<and> \<not> PtExists (PpAfter p) \<and> PpStrategy p = PlanStrategyDropTable"

definition alter_proof :: "TableMutation \<Rightarrow> PlanProof \<Rightarrow> bool" where
  "alter_proof m p \<longleftrightarrow>
     PtProvenance (PpBefore p) = PhysicalStateManaged \<and> PtExists (PpBefore p)
     \<and> PtLogicalShape (PpBefore p) = logicalShapeFingerprint (MuBeforeSchema m)
     \<and> PtProvenance (PpAfter p) = PhysicalStateManaged \<and> PtExists (PpAfter p)
     \<and> PtLogicalShape (PpAfter p) = logicalShapeFingerprint (MuAfterSchema m)"

definition validateTablePlanProof :: "Capabilities \<Rightarrow> TableMutation \<Rightarrow> PlanProof \<Rightarrow> go_error option" where
  "validateTablePlanProof c m p =
     (case PlanProof_validate p of Some e \<Rightarrow> Some e
      | None \<Rightarrow>
        if PtTarget (PpBefore p) \<noteq> MuTarget m \<or> PtTarget (PpAfter p) \<noteq> MuTarget m then Some invalidPlanProof
        else if PtProvenance (PpBefore p) = PhysicalStateUnmanaged
        then Some (newPlanningError PlanningCodePhysicalStateDrift (MuKind m) ''physical.provenance'' [])
        else if PtGeneration (PpBefore p) \<noteq> MuExpectedGeneration m \<or> PtGeneration (PpAfter p) \<noteq> MuGeneration m
        then Some invalidPlanProof
        else case
          (if MuKind m = TableMutationCreate then (if create_proof m p then None else Some invalidPlanProof)
           else if MuKind m = TableMutationDrop then (if drop_proof m p then None else Some invalidPlanProof)
           else if \<not> alter_proof m p then Some invalidPlanProof
           else if PpStrategy p \<noteq> PlanStrategyAlterInPlace \<and> PpStrategy p \<noteq> PlanStrategyRebuildTable then Some invalidPlanProof
           else if PpStrategy p = PlanStrategyRebuildTable \<and> \<not> SupportsAtomicReplacement c AtomicReplacementTable
           then Some (unsupportedCapability (MuKind m) ''atomic-replacement.table'') else None) of
          Some e \<Rightarrow> Some e
        | None \<Rightarrow> if PtMarker (PpAfter p) \<noteq> GenerationMarkerFingerprint m then Some invalidPlanProof else None)"

section \<open>Paths and field changes\<close>

lemma fieldIndex_Some:
  "fieldIndex fs name = Some i \<Longrightarrow> i < length fs \<and> strings_EqualFold (FName (fs ! i)) name"
  by (induction fs arbitrary: i) (auto split: if_splits)

lemma fieldIndex_fold: "strings_EqualFold a b \<Longrightarrow> fieldIndex fs a = fieldIndex fs b"
  by (induction fs) (auto simp: strings_EqualFold_def)

lemma fieldIndex_canonical: "fieldIndex fs name = Some i \<Longrightarrow> fieldIndex fs (FName (fs ! i)) = Some i"
  using fieldIndex_Some [of fs name i] fieldIndex_fold by metis

lemma fieldIndex_update:
  "FName g = FName (fs ! i) \<Longrightarrow> i < length fs \<Longrightarrow> fieldIndex (fs[i := g]) name = fieldIndex fs name"
proof (induction fs arbitrary: i)
  case (Cons f fs)
  then show ?case by (cases i) simp_all
qed simp

lemma fieldIndex_snoc:
  "fieldIndex fs name = None \<Longrightarrow> strings_EqualFold (FName f) name \<Longrightarrow> fieldIndex (fs @ [f]) name = Some (length fs)"
  by (induction fs) (auto split: if_splits)

lemma canonicalFieldPath_idem:
  "canonicalFieldPath fs path = Some q \<Longrightarrow> canonicalFieldPath fs q = Some q"
proof (induction fs path arbitrary: q rule: canonicalFieldPath.induct)
  case (2 fs name rest)
  then obtain i where i: "fieldIndex fs name = Some i" by (auto split: option.splits)
  show ?case
  proof (cases "rest = []")
    case True
    then show ?thesis using 2(2) i by (auto simp: fieldIndex_canonical)
  next
    case False
    then obtain z where z: "canonicalFieldPath (FFields (fs ! i)) rest = Some z" "q = FName (fs ! i) # z"
      using 2(2) i by (auto simp: Let_def)
    have "canonicalFieldPath (FFields (fs ! i)) z = Some z" by (rule "2.IH" [OF i refl False z(1)])
    moreover from this have "z \<noteq> []" by auto
    ultimately show ?thesis using i by (simp add: z(2) fieldIndex_canonical Let_def)
  qed
qed simp

lemma with_fields_back: "with_fields (with_fields f x) (FFields f) = f"
  by (cases f) (simp add: with_fields_def)

lemma isStructField_with_fields [simp]: "isStructField (with_fields f x) = isStructField f"
  by (simp add: isStructField_def with_fields_def)

lemma applyFieldChange_add_drop:
  assumes "applyFieldChange fs path TableMutationAddColumn change = Some fs'"
  shows "applyFieldChange fs' path TableMutationDropColumn (change\<lparr>FcBefore := FcAfter change, FcAfter := None\<rparr>) = Some fs"
  using assms
proof (induction fs path "TableMutationAddColumn" change arbitrary: fs' rule: applyFieldChange.induct)
  case (2 fs name change)
  then obtain f where f: "FcAfter change = Some f" "fieldIndex fs name = None" "strings_EqualFold (FName f) name"
    "fs' = fs @ [f]"
    by (auto simp: change_leaf_def Let_def split: option.splits if_splits)
  then show ?case by (simp add: change_leaf_def fieldIndex_snoc)
next
  case (3 fs name next' rest change)
  then obtain i nested where i: "fieldIndex fs name = Some i" "isStructField (fs ! i)"
    "applyFieldChange (FFields (fs ! i)) (next' # rest) TableMutationAddColumn change = Some nested"
    "fs' = fs[i := with_fields (fs ! i) nested]"
    by (auto split: option.splits if_splits)
  have len: "i < length fs" using fieldIndex_Some [OF i(1)] ..
  have "fieldIndex fs' name = Some i"
    using i(1) len fieldIndex_update [of "with_fields (fs ! i) nested" fs i name] by (simp add: i(4))
  then show ?case using "3.hyps" [OF i(1) _ i(3)] i(2) len
    by (simp add: i(4) with_fields_back)
qed simp_all

section \<open>Tables the catalog accepts\<close>

lemma rounding_mode_ok:
  "EffectiveRoundingMode f = Inr r \<Longrightarrow>
   FRoundingMode f \<in> {[], RoundingModeUnspecified, RoundingModeHalfAwayFromZero, RoundingModeHalfEven}"
  by (auto simp: EffectiveRoundingMode_def Let_def split: if_splits)

lemma upper_lower_char: "upper_char (lower_char z) = upper_char z" "lower_char (upper_char z) = lower_char z"
proof -
  show "upper_char (lower_char z) = upper_char z"
    by (simp add: upper_char_def lower_char_def less_eq_char_def)
  have "((of_char z :: nat) - 32) mod 256 = of_char z - 32" if "of_char z \<le> (122 :: nat)"
    using that by simp
  then show "lower_char (upper_char z) = lower_char z"
    by (auto simp: upper_char_def lower_char_def less_eq_char_def)
qed

lemma strings_EqualFold_upper: "strings_EqualFold a b \<longleftrightarrow> strings_ToUpper a = strings_ToUpper b"
proof -
  have "strings_ToUpper (strings_ToLower s) = strings_ToUpper s" "strings_ToLower (strings_ToUpper s) = strings_ToLower s" for s
    by (simp_all add: strings_ToUpper_def strings_ToLower_def upper_lower_char)
  then show ?thesis unfolding strings_EqualFold_def by metis
qed

lemma catalog_decimal_legacy:
  assumes "EffectiveDecimalParameters f = Inr p" "EffectiveRoundingMode f = Inr r"
  shows "validateLegacyDecimal f"
proof -
  have "strings_ToUpper ''BIGNUMERIC'' = ''BIGNUMERIC''" by (simp add: strings_ToUpper_def upper_char_def)
  then show ?thesis using assms(1) rounding_mode_ok [OF assms(2)]
    by (auto simp: validateLegacyDecimal_def EffectiveDecimalParameters_def Let_def SparkDecimalMaxPrecision_def
        SparkDecimalMaxScale_def strings_EqualFold_upper split: option.splits if_splits)
qed

lemma catalog_field_legacy:
  assumes "Field_Validate_head f = None"
  shows "legacy_field f"
proof -
  have "set field_types \<subseteq> set legacy_types" by (auto simp: legacy_types_def)
  then show ?thesis using assms catalog_decimal_legacy [of f]
    by (auto simp: Field_Validate_head_def legacy_field_def Let_def split: if_splits option.splits sum.splits)
qed

lemma catalog_schema_legacy:
  "schema_ok fs \<Longrightarrow> (\<forall>f \<in> set fs. strings_ToLower (FName f) \<notin> set seen) \<Longrightarrow> legacy_loop seen fs"
  by (induction seen fs rule: legacy_loop.induct) (auto simp: catalog_field_legacy)

lemma valid_table_legacy:
  assumes "validateLogicalTableSchema target schema = None"
  shows "validateLegacySchemaStructure schema"
  using assms catalog_schema_legacy [of schema "[]"]
  by (auto simp: validateLogicalTableSchema_def Table_Validate_def logical_table_def validateLegacySchemaStructure_def
      validateFieldList_iff split: if_splits)

lemma valid_table_reference:
  assumes "validateLogicalTableSchema target schema = None"
  shows "validateTableReference target = None"
proof -
  have "validateFieldList [MkField ''placeholder'' ''STRING'' [] [] None None [] []] = None"
    unfolding validateFieldList_iff
    by (simp add: Field_Validate_head_def resourceIDPattern_def is_alpha_def in_class_def strings_ToUpper_def
        upper_char_def field_types_def scalar_types_def)
  then show ?thesis using assms
    by (auto simp: validateTableReference_def validateLogicalTableSchema_def Table_Validate_def logical_table_def split: if_splits)
qed

lemma NewTableMutation_Inr:
  "NewTableMutation d = Inr m \<longleftrightarrow>
     validTableMutationKind (MdKind d) \<and> validateTableReference (MdTarget d) = None
     \<and> validateCorrelation (MdCorrelationID d) (MdExpectedGeneration d) (MdGeneration d) ''table-mutation'' = None
     \<and> canonicalizeFieldChangePaths (MdKind d) (MdBeforeSchema d) (MdAfterSchema d) (MdFieldChanges d) = Inr (MuFieldChanges m)
     \<and> validateMutationSchemas (MdKind d) (MdTarget d) (MdBeforeSchema d) (MdAfterSchema d) (MuFieldChanges m) = None
     \<and> MuKind m = MdKind d \<and> MuTarget m = MdTarget d \<and> MuBeforeSchema m = MdBeforeSchema d \<and> MuAfterSchema m = MdAfterSchema d
     \<and> MuCorrelationID m = MdCorrelationID d \<and> MuExpectedGeneration m = MdExpectedGeneration d
     \<and> MuGeneration m = MdGeneration d \<and> MuLogicalFingerprint m = mutationFingerprint m"
  by (cases m) (auto simp: NewTableMutation_def Let_def CloneFields_id mutationFingerprint_def mutation_document_def
      split: option.splits sum.splits)

text \<open>
  Every table that the catalog accepts can be dropped: with a valid correlation and a newer generation the drop of
  its schema is a valid mutation. The structural check of the schema before a mutation is weaker than the check that
  admitted the schema.
\<close>

theorem valid_table_can_be_dropped:
  assumes "validateLogicalTableSchema target schema = None"
    and "correlationPattern correlation" "expected < generation"
  shows "\<exists>m. NewTableMutation \<lparr>MdKind = TableMutationDrop, MdTarget = target, MdBeforeSchema = schema, MdAfterSchema = [],
      MdFieldChanges = [], MdCorrelationID = correlation, MdExpectedGeneration = expected, MdGeneration = generation\<rparr> = Inr m
    \<and> MuBeforeSchema m = schema \<and> TableMutation_validate m = None"
proof -
  let ?m = "\<lparr>MuKind = TableMutationDrop, MuTarget = target, MuBeforeSchema = schema, MuAfterSchema = [], MuFieldChanges = [],
    MuCorrelationID = correlation, MuExpectedGeneration = expected, MuGeneration = generation, MuLogicalFingerprint = []\<rparr>"
  have "validateTableReference target = None" by (rule valid_table_reference [OF assms(1)])
  then show ?thesis using assms valid_table_legacy [OF assms(1)]
    by (intro exI [of _ "?m\<lparr>MuLogicalFingerprint := mutationFingerprint ?m\<rparr>"])
       (simp add: NewTableMutation_Inr validateCorrelation_def validTableMutationKind_def canonicalizeFieldChangePaths_def
         validateMutationSchemas_def TableMutation_validate_def mutationFingerprint_def mutation_document_def)
qed

lemmas sample_schema_defs =
  validateLogicalTableSchema_def Table_Validate_def logical_table_def validateFieldList_iff Field_Validate_head_def
  resourceIDPattern_def projectIDPattern_def is_alpha_def is_lower_def is_digit_def in_class_def fold_defs
  field_types_def scalar_types_def sample_target_def sample_nested_def EffectiveDecimalParameters_def
  EffectiveRoundingMode_def SparkDecimalMaxPrecision_def SparkDecimalMaxScale_def

lemma sample_table_valid: "validateLogicalTableSchema sample_target sample_nested = None"
  by (simp add: sample_schema_defs)

theorem valid_table_can_be_dropped_witness:
  "\<exists>m. NewTableMutation \<lparr>MdKind = TableMutationDrop, MdTarget = sample_target, MdBeforeSchema = sample_nested, MdAfterSchema = [],
      MdFieldChanges = [], MdCorrelationID = ''job-1'', MdExpectedGeneration = 3, MdGeneration = 4\<rparr> = Inr m
    \<and> MuBeforeSchema m = sample_nested \<and> TableMutation_validate m = None"
  by (rule valid_table_can_be_dropped [OF sample_table_valid])
     (simp_all add: correlationPattern_def is_alpha_def is_digit_def in_class_def)

section \<open>An added column can be dropped\<close>

lemma validateMutationSchemas_alter:
  assumes "kind \<notin> {TableMutationCreate, TableMutationDrop}"
  shows "validateMutationSchemas kind target before after changes = None \<longleftrightarrow>
    validateLegacySchemaStructure before \<and> validateLogicalTableSchema target after = None
    \<and> (\<exists>change. changes = [change] \<and> validateAndApplyFieldChange kind before after change = None)"
  using assms
  by (cases changes rule: list.exhaust [case_names Nil Cons])
     (auto simp: validateMutationSchemas_def Let_def split: option.splits list.splits)

lemma canonicalize_single:
  "canonicalize_changes kind schema changes = Inr [change] \<longleftrightarrow>
     (\<exists>c. changes = [c] \<and> canonicalFieldPath schema (FcPath c) = Some (FcPath change)
        \<and> change = c\<lparr>FcPath := FcPath change\<rparr>)"
proof -
  have nil: "canonicalize_changes kind schema cs = Inr [] \<longleftrightarrow> cs = []" for cs
    by (cases cs) (auto split: option.splits sum.splits)
  show ?thesis
    by (cases changes) (auto simp: nil split: option.splits sum.splits)
qed

lemma validateAndApply_None:
  "validateAndApplyFieldChange kind before after change = None \<longleftrightarrow>
     FcPath change \<noteq> [] \<and> \<not> list_ex blank (FcPath change)
     \<and> applyFieldChange before (FcPath change) kind change = Some after"
  by (auto simp: validateAndApplyFieldChange_def CloneFields_id split: option.splits)

text \<open>
  An accepted ADD COLUMN has an accepted inverse: when the schema before it is a valid table, the DROP COLUMN of the
  added field, at the path the first mutation recorded, leads from the schema after it exactly back to the schema before.
\<close>

theorem add_column_can_be_undone:
  assumes m: "NewTableMutation d = Inr m" "MdKind d = TableMutationAddColumn"
    and before: "validateLogicalTableSchema (MdTarget d) (MdBeforeSchema d) = None"
    and later: "MdGeneration d < generation"
  shows "\<exists>m'. NewTableMutation \<lparr>MdKind = TableMutationDropColumn, MdTarget = MuTarget m, MdBeforeSchema = MuAfterSchema m,
      MdAfterSchema = MuBeforeSchema m,
      MdFieldChanges = map (\<lambda>c. c\<lparr>FcBefore := FcAfter c, FcAfter := None\<rparr>) (MuFieldChanges m),
      MdCorrelationID = MuCorrelationID m, MdExpectedGeneration = MuGeneration m, MdGeneration = generation\<rparr> = Inr m'"
    (is "\<exists>m'. NewTableMutation ?d = Inr m'")
proof -
  note d = m(1) [unfolded NewTableMutation_Inr]
  then have "validateMutationSchemas TableMutationAddColumn (MdTarget d) (MdBeforeSchema d) (MdAfterSchema d) (MuFieldChanges m) = None"
    using m(2) by metis
  then obtain change where change: "MuFieldChanges m = [change]" "validateLogicalTableSchema (MdTarget d) (MdAfterSchema d) = None"
    "validateAndApplyFieldChange TableMutationAddColumn (MdBeforeSchema d) (MdAfterSchema d) change = None"
    by (auto simp: validateMutationSchemas_alter)
  let ?undo = "change\<lparr>FcBefore := FcAfter change, FcAfter := None\<rparr>"
  have "canonicalize_changes TableMutationAddColumn (MdAfterSchema d) (MdFieldChanges d) = Inr [change]"
    using d m(2) change(1) by (simp add: canonicalizeFieldChangePaths_def)
  then have "canonicalFieldPath (MdAfterSchema d) (FcPath change) = Some (FcPath change)"
    unfolding canonicalize_single using canonicalFieldPath_idem by blast
  then have canonical: "canonicalizeFieldChangePaths TableMutationDropColumn (MdAfterSchema d) (MdBeforeSchema d) [?undo] = Inr [?undo]"
    by (simp add: canonicalizeFieldChangePaths_def)
  have "validateAndApplyFieldChange TableMutationDropColumn (MdAfterSchema d) (MdBeforeSchema d) ?undo = None"
    using change(3) applyFieldChange_add_drop [of "MdBeforeSchema d" "FcPath change" change "MdAfterSchema d"]
    by (simp add: validateAndApply_None)
  then have schemas: "validateMutationSchemas TableMutationDropColumn (MdTarget d) (MdAfterSchema d) (MdBeforeSchema d) [?undo] = None"
    using before valid_table_legacy [OF change(2)] by (simp add: validateMutationSchemas_alter)
  let ?m = "\<lparr>MuKind = TableMutationDropColumn, MuTarget = MuTarget m, MuBeforeSchema = MuAfterSchema m,
    MuAfterSchema = MuBeforeSchema m, MuFieldChanges = [?undo], MuCorrelationID = MuCorrelationID m,
    MuExpectedGeneration = MuGeneration m, MuGeneration = generation, MuLogicalFingerprint = []\<rparr>"
  have "NewTableMutation ?d = Inr (?m\<lparr>MuLogicalFingerprint := mutationFingerprint ?m\<rparr>)"
    unfolding NewTableMutation_Inr using d later canonical schemas change(1)
    by (simp add: validTableMutationKind_def validateCorrelation_def mutationFingerprint_def mutation_document_def split: if_splits)
  then show ?thesis by blast
qed

definition sample_added_field :: Field where
  "sample_added_field = MkField ''c'' ''STRING'' [] [] None None [] []"

definition sample_added :: "Field list" where
  "sample_added = [MkField ''a'' ''RECORD'' ''REPEATED'' [] None None []
     [MkField ''b'' ''NUMERIC'' [] [] (Some 10) (Some 2) [] [], sample_added_field]]"

definition sample_add :: TableMutationDescriptor where
  "sample_add = \<lparr>MdKind = TableMutationAddColumn, MdTarget = sample_target, MdBeforeSchema = sample_nested,
     MdAfterSchema = sample_added,
     MdFieldChanges = [\<lparr>FcPath = [''A'', ''c''], FcBefore = None, FcAfter = Some sample_added_field\<rparr>],
     MdCorrelationID = ''job-1'', MdExpectedGeneration = 3, MdGeneration = 4\<rparr>"

definition sample_add_mutation :: TableMutation where
  "sample_add_mutation =
     (let m = \<lparr>MuKind = TableMutationAddColumn, MuTarget = sample_target, MuBeforeSchema = sample_nested,
               MuAfterSchema = sample_added,
               MuFieldChanges = [\<lparr>FcPath = [''a'', ''c''], FcBefore = None, FcAfter = Some sample_added_field\<rparr>],
               MuCorrelationID = ''job-1'', MuExpectedGeneration = 3, MuGeneration = 4, MuLogicalFingerprint = []\<rparr> in
      m\<lparr>MuLogicalFingerprint := mutationFingerprint m\<rparr>)"

lemma sample_added_valid: "validateLogicalTableSchema sample_target sample_added = None"
  by (simp add: sample_schema_defs sample_added_def sample_added_field_def)

lemma sample_fold: "strings_EqualFold ''a'' ''A''" "strings_EqualFold ''a'' ''a''" "strings_EqualFold ''c'' ''c''"
  "\<not> strings_EqualFold ''b'' ''c''"
  by code_simp+

lemma sample_add_apply:
  "applyFieldChange sample_nested [''a'', ''c''] TableMutationAddColumn
     \<lparr>FcPath = [''a'', ''c''], FcBefore = None, FcAfter = Some sample_added_field\<rparr> = Some sample_added"
proof -
  have "Field_Validate sample_added_field = None"
    by (rule iffD2 [OF Field_Validate_iff]) (simp add: sample_added_field_def sample_schema_defs)
  moreover have "isStructField (MkField ''a'' ''RECORD'' ''REPEATED'' [] None None [] x)" for x
    by (simp add: isStructField_def fold_defs)
  ultimately show ?thesis
    by (simp add: sample_nested_def sample_added_def change_leaf_def sample_fold with_fields_def)
       (simp add: sample_added_field_def sample_fold)
qed

lemma sample_add_accepted: "NewTableMutation sample_add = Inr sample_add_mutation"
proof -
  let ?change = "\<lparr>FcPath = [''a'', ''c''], FcBefore = None, FcAfter = Some sample_added_field\<rparr>"
  have "canonicalizeFieldChangePaths TableMutationAddColumn sample_nested sample_added
      [\<lparr>FcPath = [''A'', ''c''], FcBefore = None, FcAfter = Some sample_added_field\<rparr>] = Inr [?change]"
    by (simp add: canonicalizeFieldChangePaths_def sample_added_def sample_fold sample_added_field_def)
  moreover have "validateAndApplyFieldChange TableMutationAddColumn sample_nested sample_added ?change = None"
    by (rule iffD2 [OF validateAndApply_None]) (simp add: sample_add_apply ascii_space_def del: applyFieldChange.simps)
  then have "validateMutationSchemas TableMutationAddColumn sample_target sample_nested sample_added [?change] = None"
    using valid_table_legacy [OF sample_table_valid] sample_added_valid by (simp add: validateMutationSchemas_alter)
  moreover have "validateTableReference sample_target = None" by (rule valid_table_reference [OF sample_table_valid])
  ultimately show ?thesis
    by (intro iffD2 [OF NewTableMutation_Inr])
      (simp add: sample_add_def sample_add_mutation_def Let_def validTableMutationKind_def validateCorrelation_def
        correlationPattern_def is_alpha_def is_digit_def in_class_def mutationFingerprint_def mutation_document_def)
qed

theorem add_column_can_be_undone_witness:
  "\<exists>m'. NewTableMutation \<lparr>MdKind = TableMutationDropColumn, MdTarget = sample_target, MdBeforeSchema = sample_added,
      MdAfterSchema = sample_nested,
      MdFieldChanges = [\<lparr>FcPath = [''a'', ''c''], FcBefore = Some sample_added_field, FcAfter = None\<rparr>],
      MdCorrelationID = ''job-1'', MdExpectedGeneration = 4, MdGeneration = 5\<rparr> = Inr m'"
  using add_column_can_be_undone [OF sample_add_accepted, of 5] sample_table_valid
  by (simp add: sample_add_def sample_add_mutation_def Let_def)

end
