(* ===== verification/Engine_Planner.thy ===== *)
theory Engine_Planner
  imports Engine_Plan
begin

text \<open>
  \<open>internal/engine\<close>: the planner of \<open>plan.go\<close> and the data replacements of \<open>replacement.go\<close>. A plan is sealed with a
  fingerprint and with the issuer of its planner; it is validated against the inspected physical state
  when its application starts and before it commits.

  The lemmas show that a planned mutation moves a table to a newer generation of the shape the mutation
  describes, that an application is bound to the planner and to the mutation, and that of the plans made
  against one physical state only one can be applied.
\<close>

section \<open>Table plans\<close>

record DataReplacement =
  DrpScope :: string
  DrpTarget :: DomainTableReference
  DrpSchema :: "Field list"
  DrpCorrelationID :: string
  DrpExpectedGeneration :: nat
  DrpGeneration :: nat
  DrpSelectionFingerprint :: string
  DrpSourceFingerprint :: string
  DrpResultFingerprint :: string
  DrpLogicalFingerprint :: string

record AdapterPlanner =
  ApPlanTableMutation :: "TableMutation \<Rightarrow> go_error + PlanProof"
  ApPlanDataReplacement :: "DataReplacement \<Rightarrow> go_error + PlanProof"

record Planner =
  PnCapabilities :: Capabilities
  PnAdapter :: "AdapterPlanner option"
  PnIssuer :: "issuer option"

record TablePlan =
  TpEngineIdentity :: Identity
  TpCapabilityFingerprint :: string
  TpMutation :: TableMutation
  TpRequirements :: PlanRequirements
  TpProof :: PlanProof
  TpPlanFingerprint :: string
  TpIssuer :: "issuer option"

definition NewPlanner :: "issuer \<Rightarrow> Capabilities \<Rightarrow> AdapterPlanner option \<Rightarrow> go_error + Planner" where
  "NewPlanner fresh c adapter =
     (case Capabilities_validate c of Some e \<Rightarrow> Inl e
      | None \<Rightarrow>
        if adapter = None then Inl (invalid_descriptor ''planner'' ''adapter.planner'')
        else Inr \<lparr>PnCapabilities = c, PnAdapter = adapter, PnIssuer = Some fresh\<rparr>)"

definition invalid_runtime :: go_error where
  "invalid_runtime = invalid_descriptor ''table-plan'' ''planner''"

definition validateRuntime :: "Planner \<Rightarrow> go_error option" where
  "validateRuntime planner =
     (if PnIssuer planner = None \<or> PnAdapter planner = None then Some invalid_runtime else None)"

definition table_plan_document :: "TablePlan \<Rightarrow> json" where
  "table_plan_document p =
     JObject [(''engineIdentity'', JString (Identity_key (TpEngineIdentity p))),
       (''capabilityFingerprint'', JString (TpCapabilityFingerprint p)),
       (''logicalFingerprint'', JString (MuLogicalFingerprint (TpMutation p))),
       (''requirements'', JObject [(''Transactions'', json_strings (RqTransactions (TpRequirements p))),
          (''AtomicReplacements'', json_strings (RqAtomicReplacements (TpRequirements p))),
          (''Inspection'', json_strings (RqInspection (TpRequirements p))),
          (''DDLGuarantee'', JString (RqDDLGuarantee (TpRequirements p)))]),
       (''proof'', planProofFingerprintDocument (TpProof p))]"

definition tablePlanFingerprint :: "TablePlan \<Rightarrow> string" where
  "tablePlanFingerprint p = fingerprintJSON (table_plan_document p)"

definition PlanTableChange :: "Planner \<Rightarrow> TableMutation \<Rightarrow> PlanRequirements \<Rightarrow> go_error + TablePlan" where
  "PlanTableChange planner m requirements =
     (case (PnIssuer planner, PnAdapter planner) of
        (Some issuer, Some adapter) \<Rightarrow>
          (let c = PnCapabilities planner in
           case TableMutation_validate m of Some e \<Rightarrow> Inl e
           | None \<Rightarrow>
             (case normalizeRequirements requirements of Inl e \<Rightarrow> Inl e
              | Inr r \<Rightarrow>
                (case validateDesiredLogicalSchema c m of Some e \<Rightarrow> Inl e
                 | None \<Rightarrow>
                   (case validateMutationCapability c m of Some e \<Rightarrow> Inl e
                    | None \<Rightarrow>
                      (case validateRequirements c (MuKind m) r of Some e \<Rightarrow> Inl e
                       | None \<Rightarrow>
                         (case ApPlanTableMutation adapter m of Inl e \<Rightarrow> Inl (adapterPlanningError (MuKind m) e)
                          | Inr proof \<Rightarrow>
                            (case validateTablePlanProof c m proof of Some e \<Rightarrow> Inl e
                             | None \<Rightarrow>
                               let p = \<lparr>TpEngineIdentity = CpIdentity c, TpCapabilityFingerprint = CpFingerprint c,
                                        TpMutation = m, TpRequirements = r, TpProof = proof, TpPlanFingerprint = [],
                                        TpIssuer = Some issuer\<rparr> in
                               Inr (p\<lparr>TpPlanFingerprint := tablePlanFingerprint p\<rparr>))))))))
      | _ \<Rightarrow> Inl invalid_runtime)"

definition validateTableBinding :: "Planner \<Rightarrow> TablePlan \<Rightarrow> TableMutation \<Rightarrow> go_error option" where
  "validateTableBinding planner p m =
     (if TpPlanFingerprint p = [] \<or> TpPlanFingerprint p \<noteq> tablePlanFingerprint p
      then Some (invalid_descriptor ''validate-table-plan'' ''plan.fingerprint'')
      else case validateRuntime planner of Some e \<Rightarrow> Some e
      | None \<Rightarrow>
        (case TableMutation_validate m of Some e \<Rightarrow> Some e
         | None \<Rightarrow>
           if TpEngineIdentity p \<noteq> CpIdentity (PnCapabilities planner)
           then Some (newPlanningError PlanningCodeEngineMismatch ''validate-table-plan'' ''engine.identity'' [])
           else if TpCapabilityFingerprint p \<noteq> CpFingerprint (PnCapabilities planner)
           then Some (newPlanningError PlanningCodeCapabilityDrift ''validate-table-plan'' ''capability.fingerprint'' [])
           else if MuLogicalFingerprint (TpMutation p) \<noteq> MuLogicalFingerprint m
           then Some (newPlanningError PlanningCodeMutationMismatch ''validate-table-plan'' ''mutation.fingerprint'' [])
           else if TpIssuer p \<noteq> PnIssuer planner
           then Some (newPlanningError PlanningCodePlannerMismatch ''validate-table-plan'' ''planner.provenance'' [])
           else None))"

definition ValidateApplyStart :: "Planner \<Rightarrow> TablePlan \<Rightarrow> TableMutation \<Rightarrow> PhysicalTableState \<Rightarrow> go_error option" where
  "ValidateApplyStart planner p m current =
     (case validateTableBinding planner p m of Some e \<Rightarrow> Some e
      | None \<Rightarrow> if \<not> same_physical (PpBefore (TpProof p)) current then Some (unexpectedPhysicalState ''before'') else None)"

definition ValidateApplyResult :: "Planner \<Rightarrow> TablePlan \<Rightarrow> PhysicalTableState \<Rightarrow> go_error option" where
  "ValidateApplyResult planner p current =
     (if TpPlanFingerprint p = [] \<or> TpPlanFingerprint p \<noteq> tablePlanFingerprint p \<or> TpIssuer p \<noteq> PnIssuer planner
      then Some (invalid_descriptor ''validate-table-plan'' ''plan.binding'')
      else if \<not> same_physical (PpAfter (TpProof p)) current then Some (unexpectedPhysicalState ''after'') else None)"

section \<open>Data replacements\<close>

abbreviation DataReplacementTable :: string where "DataReplacementTable \<equiv> ''table''"
abbreviation DataReplacementPartitions :: string where "DataReplacementPartitions \<equiv> ''partitions''"

definition replacement_document :: "DataReplacement \<Rightarrow> json" where
  "replacement_document r =
     JObject ((''scope'', JString (DrpScope r)) # reference_members (DrpTarget r) @
       [(''schema'', json_fields (DrpSchema r)), (''correlationId'', JString (DrpCorrelationID r)),
        (''generation'', JInt (int (DrpGeneration r))), (''selectionFingerprint'', JString (DrpSelectionFingerprint r)),
        (''sourceFingerprint'', JString (DrpSourceFingerprint r)), (''resultFingerprint'', JString (DrpResultFingerprint r)),
        (''expectedGeneration'', JInt (int (DrpExpectedGeneration r)))])"

definition dataReplacementFingerprint :: "DataReplacement \<Rightarrow> string" where
  "dataReplacementFingerprint r = fingerprintJSON (replacement_document r)"

text \<open>The descriptor has the fields of the replacement without its fingerprint.\<close>

definition NewDataReplacement :: "DataReplacement \<Rightarrow> go_error + DataReplacement" where
  "NewDataReplacement d =
     (if DrpScope d \<noteq> DataReplacementTable \<and> DrpScope d \<noteq> DataReplacementPartitions
      then Inl (invalid_descriptor ''data-replacement'' ''replacement.scope'')
      else case validateTableReference (DrpTarget d) of Some e \<Rightarrow> Inl e
      | None \<Rightarrow>
        (case validateCorrelation (DrpCorrelationID d) (DrpExpectedGeneration d) (DrpGeneration d) ''data-replacement'' of
           Some e \<Rightarrow> Inl e
         | None \<Rightarrow>
           (case validateLogicalTableSchema (DrpTarget d) (CloneFields (DrpSchema d)) of
              Some e \<Rightarrow> Inl (classifyLogicalSchemaError ''data-replacement'' e)
            | None \<Rightarrow>
              if DrpScope d = DataReplacementPartitions \<and> \<not> fingerprintLooksValid (DrpSelectionFingerprint d)
                 \<or> DrpScope d \<noteq> DataReplacementPartitions \<and> DrpSelectionFingerprint d \<noteq> []
              then Inl (invalid_descriptor ''data-replacement'' ''replacement.selection-fingerprint'')
              else if \<not> fingerprintLooksValid (DrpSourceFingerprint d) \<or> \<not> fingerprintLooksValid (DrpResultFingerprint d)
              then Inl (invalid_descriptor ''data-replacement'' ''replacement.data-fingerprint'')
              else let r = d\<lparr>DrpSchema := CloneFields (DrpSchema d), DrpLogicalFingerprint := []\<rparr> in
                Inr (r\<lparr>DrpLogicalFingerprint := dataReplacementFingerprint r\<rparr>))))"

definition DataReplacement_validate :: "DataReplacement \<Rightarrow> go_error option" where
  "DataReplacement_validate r =
     (if DrpLogicalFingerprint r = [] \<or> DrpLogicalFingerprint r \<noteq> dataReplacementFingerprint r
      then Some (invalid_descriptor ''data-replacement'' ''replacement.fingerprint'') else None)"

definition replacement_marker :: "DataReplacement \<Rightarrow> string" where
  "replacement_marker r = generationMarkerFingerprint (DrpTarget r) (DrpCorrelationID r) (DrpGeneration r)"

definition validateReplacementProof :: "DataReplacement \<Rightarrow> PlanProof \<Rightarrow> go_error option" where
  "validateReplacementProof r p =
     (case PlanProof_validate p of Some e \<Rightarrow> Some e
      | None \<Rightarrow>
        if PtTarget (PpBefore p) \<noteq> DrpTarget r \<or> PtTarget (PpAfter p) \<noteq> DrpTarget r
           \<or> \<not> PtExists (PpBefore p) \<or> \<not> PtExists (PpAfter p)
           \<or> PtProvenance (PpBefore p) \<noteq> PhysicalStateManaged \<or> PtProvenance (PpAfter p) \<noteq> PhysicalStateManaged
        then Some invalidPlanProof
        else if PtLogicalShape (PpBefore p) \<noteq> logicalShapeFingerprint (DrpSchema r)
           \<or> PtLogicalShape (PpAfter p) \<noteq> logicalShapeFingerprint (DrpSchema r)
        then Some invalidPlanProof
        else if PtGeneration (PpBefore p) \<noteq> DrpExpectedGeneration r \<or> PtGeneration (PpAfter p) \<noteq> DrpGeneration r
        then Some invalidPlanProof
        else if PpStrategy p \<noteq> (if DrpScope r = DataReplacementPartitions
                                then PlanStrategyReplacePartitions else PlanStrategyReplaceTableData)
        then Some invalidPlanProof
        else if PtMarker (PpAfter p) \<noteq> replacement_marker r then Some invalidPlanProof
        else None)"

record DataReplacementPlan =
  RpEngineIdentity :: Identity
  RpCapabilityFingerprint :: string
  RpReplacement :: DataReplacement
  RpProof :: PlanProof
  RpPlanFingerprint :: string
  RpIssuer :: "issuer option"

definition dataReplacementPlanFingerprint :: "DataReplacementPlan \<Rightarrow> string" where
  "dataReplacementPlanFingerprint p =
     fingerprintJSON (JObject [(''engineIdentity'', JString (Identity_key (RpEngineIdentity p))),
       (''capabilityFingerprint'', JString (RpCapabilityFingerprint p)),
       (''logicalFingerprint'', JString (DrpLogicalFingerprint (RpReplacement p))),
       (''proof'', planProofFingerprintDocument (RpProof p))])"

definition PlanDataReplacement :: "Planner \<Rightarrow> DataReplacement \<Rightarrow> go_error + DataReplacementPlan" where
  "PlanDataReplacement planner r =
     (case (PnIssuer planner, PnAdapter planner) of
        (Some issuer, Some adapter) \<Rightarrow>
          (let c = PnCapabilities planner;
               requiredScope = (if DrpScope r = DataReplacementPartitions then AtomicReplacementPartition else AtomicReplacementTable) in
           case DataReplacement_validate r of Some e \<Rightarrow> Inl e
           | None \<Rightarrow>
             (case validateLogicalFieldsForOperation c ''data-replacement'' (DrpSchema r) 0 0 of Some e \<Rightarrow> Inl e
              | None \<Rightarrow>
                if \<not> SupportsAtomicReplacement c requiredScope
                then Inl (unsupportedCapability ''data-replacement'' (''atomic-replacement.'' @ requiredScope))
                else (case ApPlanDataReplacement adapter r of Inl e \<Rightarrow> Inl (adapterPlanningError ''data-replacement'' e)
                      | Inr proof \<Rightarrow>
                        (case validateReplacementProof r proof of Some e \<Rightarrow> Inl e
                         | None \<Rightarrow>
                           let p = \<lparr>RpEngineIdentity = CpIdentity c, RpCapabilityFingerprint = CpFingerprint c,
                                    RpReplacement = r, RpProof = proof, RpPlanFingerprint = [], RpIssuer = Some issuer\<rparr> in
                           Inr (p\<lparr>RpPlanFingerprint := dataReplacementPlanFingerprint p\<rparr>)))))
      | _ \<Rightarrow> Inl invalid_runtime)"

definition validateDataReplacementBinding :: "Planner \<Rightarrow> DataReplacementPlan \<Rightarrow> DataReplacement \<Rightarrow> go_error option" where
  "validateDataReplacementBinding planner p r =
     (if RpPlanFingerprint p = [] \<or> RpPlanFingerprint p \<noteq> dataReplacementPlanFingerprint p
      then Some (invalid_descriptor ''validate-data-replacement'' ''plan.fingerprint'')
      else case validateRuntime planner of Some e \<Rightarrow> Some e
      | None \<Rightarrow>
        (case DataReplacement_validate r of Some e \<Rightarrow> Some e
         | None \<Rightarrow>
           if RpEngineIdentity p \<noteq> CpIdentity (PnCapabilities planner)
           then Some (newPlanningError PlanningCodeEngineMismatch ''validate-data-replacement'' ''engine.identity'' [])
           else if RpCapabilityFingerprint p \<noteq> CpFingerprint (PnCapabilities planner)
           then Some (newPlanningError PlanningCodeCapabilityDrift ''validate-data-replacement'' ''capability.fingerprint'' [])
           else if DrpLogicalFingerprint (RpReplacement p) \<noteq> DrpLogicalFingerprint r
           then Some (newPlanningError PlanningCodeMutationMismatch ''validate-data-replacement'' ''replacement.fingerprint'' [])
           else if RpIssuer p \<noteq> PnIssuer planner
           then Some (newPlanningError PlanningCodePlannerMismatch ''validate-data-replacement'' ''planner.provenance'' [])
           else None))"

definition ValidateDataReplacementStart ::
  "Planner \<Rightarrow> DataReplacementPlan \<Rightarrow> DataReplacement \<Rightarrow> PhysicalTableState \<Rightarrow> go_error option" where
  "ValidateDataReplacementStart planner p r current =
     (case validateDataReplacementBinding planner p r of Some e \<Rightarrow> Some e
      | None \<Rightarrow> if \<not> same_physical (PpBefore (RpProof p)) current then Some (unexpectedPhysicalState ''before'') else None)"

definition ValidateDataReplacementResult :: "Planner \<Rightarrow> DataReplacementPlan \<Rightarrow> PhysicalTableState \<Rightarrow> go_error option" where
  "ValidateDataReplacementResult planner p current =
     (if RpPlanFingerprint p = [] \<or> RpPlanFingerprint p \<noteq> dataReplacementPlanFingerprint p \<or> RpIssuer p \<noteq> PnIssuer planner
      then Some (invalid_descriptor ''validate-data-replacement'' ''plan.binding'')
      else if \<not> same_physical (PpAfter (RpProof p)) current then Some (unexpectedPhysicalState ''after'') else None)"

section \<open>What a plan is bound to\<close>

lemma json_optional_field_inj: "json_optional_field a = json_optional_field b \<longleftrightarrow> a = b"
proof -
  have "json_field f \<noteq> field_object [] [] [] [] None None [] JNull" for f
    by (cases f) (simp add: field_object_inj)
  then show ?thesis by (auto simp: json_optional_field_def json_field_inj split: option.splits) (metis)+
qed

lemma json_array_inj: "json_array a = json_array b \<longleftrightarrow> a = b"
  by (auto simp: json_array_def)

lemma map_json_change_inj: "map json_change a = map json_change b \<longleftrightarrow> a = b"
  by (rule inj_map_eq_map) (auto simp: inj_def json_change_def json_strings_inj json_optional_field_inj)

lemma mutation_document_inj:
  "mutation_document m = mutation_document m' \<Longrightarrow> MuLogicalFingerprint m = MuLogicalFingerprint m' \<Longrightarrow> m = m'"
  by (cases m; cases m')
     (auto simp: mutation_document_def reference_members_def json_fields_inj json_array_inj map_json_change_inj)

lemma TableMutation_validate_None:
  "TableMutation_validate m = None \<longleftrightarrow> validTableMutationKind (MuKind m) \<and> MuLogicalFingerprint m = mutationFingerprint m"
  by (auto simp: TableMutation_validate_def mutationFingerprint_def)

lemma same_mutation:
  assumes "TableMutation_validate m = None" "TableMutation_validate m' = None"
    and "MuLogicalFingerprint m = MuLogicalFingerprint m'"
    and "json_valid_strings (mutation_document m)" "json_valid_strings (mutation_document m')"
  shows "m' = m \<or> digest_collision (mutation_document m) (mutation_document m')"
proof -
  have "json_digest (mutation_document m) = json_digest (mutation_document m')"
    using assms(1-3) by (simp add: TableMutation_validate_None mutationFingerprint_def fingerprintJSON_eq)
  from json_digest_eq [OF assms(4,5) this] show ?thesis using mutation_document_inj assms(3) by metis
qed

lemma same_physical_eq: "same_physical a b \<longleftrightarrow> a = b"
  by (cases a; cases b) (auto simp: same_physical_def)

lemma tablePlanFingerprint_update [simp]: "tablePlanFingerprint (p\<lparr>TpPlanFingerprint := f\<rparr>) = tablePlanFingerprint p"
  by (simp add: tablePlanFingerprint_def table_plan_document_def)

lemma PlanTableChange_Inr:
  assumes "PlanTableChange planner m requirements = Inr p"
  shows "TableMutation_validate m = None" "validateTablePlanProof (PnCapabilities planner) m (TpProof p) = None"
    "validateDesiredLogicalSchema (PnCapabilities planner) m = None"
    "validateRequirements (PnCapabilities planner) (MuKind m) (TpRequirements p) = None"
    "TpMutation p = m" "TpIssuer p = PnIssuer planner" "PnIssuer planner \<noteq> None" "PnAdapter planner \<noteq> None"
    "TpEngineIdentity p = CpIdentity (PnCapabilities planner)"
    "TpCapabilityFingerprint p = CpFingerprint (PnCapabilities planner)"
    "TpPlanFingerprint p = tablePlanFingerprint p"
  using assms
  by (auto simp: PlanTableChange_def Let_def tablePlanFingerprint_def table_plan_document_def split: option.splits sum.splits)

lemma validateTableBinding_None:
  "validateTableBinding planner p m = None \<longleftrightarrow>
     TpPlanFingerprint p = tablePlanFingerprint p \<and> PnIssuer planner \<noteq> None \<and> PnAdapter planner \<noteq> None
     \<and> TableMutation_validate m = None \<and> TpEngineIdentity p = CpIdentity (PnCapabilities planner)
     \<and> TpCapabilityFingerprint p = CpFingerprint (PnCapabilities planner)
     \<and> MuLogicalFingerprint (TpMutation p) = MuLogicalFingerprint m \<and> TpIssuer p = PnIssuer planner"
  by (auto simp: validateTableBinding_def validateRuntime_def tablePlanFingerprint_def split: option.splits)

lemma ValidateApplyStart_None:
  "ValidateApplyStart planner p m s = None \<longleftrightarrow> validateTableBinding planner p m = None \<and> s = PpBefore (TpProof p)"
  by (auto simp: ValidateApplyStart_def same_physical_eq split: option.splits)

lemma ValidateApplyResult_None:
  "ValidateApplyResult planner p s = None \<longleftrightarrow>
     TpPlanFingerprint p = tablePlanFingerprint p \<and> TpIssuer p = PnIssuer planner \<and> s = PpAfter (TpProof p)"
  by (auto simp: ValidateApplyResult_def same_physical_eq tablePlanFingerprint_def)

lemma PlanProof_validate_None:
  "PlanProof_validate p = None \<longleftrightarrow>
     PhysicalTableState_validate (PpBefore p) = None \<and> PhysicalTableState_validate (PpAfter p) = None
     \<and> PtTarget (PpBefore p) = PtTarget (PpAfter p) \<and> PtGeneration (PpBefore p) < PtGeneration (PpAfter p)
     \<and> validPlanStrategy (PpStrategy p)"
  by (auto simp: PlanProof_validate_def NewPlanProof_def split: option.splits)

lemma validateTablePlanProof_None:
  assumes "validateTablePlanProof c m p = None"
  shows "PlanProof_validate p = None" "PtTarget (PpBefore p) = MuTarget m" "PtTarget (PpAfter p) = MuTarget m"
    "PtProvenance (PpBefore p) \<noteq> PhysicalStateUnmanaged" "PtGeneration (PpBefore p) = MuExpectedGeneration m"
    "PtGeneration (PpAfter p) = MuGeneration m" "PtMarker (PpAfter p) = GenerationMarkerFingerprint m"
    "if MuKind m = TableMutationCreate then create_proof m p
     else if MuKind m = TableMutationDrop then drop_proof m p else alter_proof m p"
  using assms by (auto simp: validateTablePlanProof_def split: option.splits if_splits)

text \<open>
  C29. When a planned mutation starts and finishes its application, the mutation that was applied is the planned one (or a
  collision of SHA-256 with it), the table moved from the expected generation to the newer generation of the mutation,
  it carries the marker of the mutation, and it has the logical shape of the schema after the mutation, or is a
  tombstone after a drop; before an ALTER or a drop it had the shape of the schema before.
\<close>

theorem applied_mutation:
  assumes plan: "PlanTableChange planner m requirements = Inr p"
    and start: "ValidateApplyStart planner' p m' s = None" and result: "ValidateApplyResult planner' p s' = None"
    and strings: "json_valid_strings (mutation_document m)" "json_valid_strings (mutation_document m')"
  shows "(m' = m \<or> digest_collision (mutation_document m) (mutation_document m'))
    \<and> PnIssuer planner' = PnIssuer planner
    \<and> PtGeneration s = MuExpectedGeneration m \<and> PtGeneration s' = MuGeneration m \<and> PtGeneration s < PtGeneration s'
    \<and> PtMarker s' = GenerationMarkerFingerprint m
    \<and> (if MuKind m = TableMutationDrop then PtProvenance s' = PhysicalStateTombstone \<and> \<not> PtExists s'
       else PtProvenance s' = PhysicalStateManaged \<and> PtLogicalShape s' = logicalShapeFingerprint (MuAfterSchema m))
    \<and> (if MuKind m = TableMutationCreate then \<not> PtExists s
       else PtProvenance s = PhysicalStateManaged \<and> PtLogicalShape s = logicalShapeFingerprint (MuBeforeSchema m))"
proof -
  note p = PlanTableChange_Inr [OF plan]
  note proof' = validateTablePlanProof_None [OF p(2)]
  from start have s: "s = PpBefore (TpProof p)" "validateTableBinding planner' p m' = None"
    by (simp_all add: ValidateApplyStart_None)
  from result have s': "s' = PpAfter (TpProof p)" by (simp add: ValidateApplyResult_None)
  have "m' = m \<or> digest_collision (mutation_document m) (mutation_document m')"
    by (rule same_mutation [OF p(1) _ _ strings]) (use s(2) p(5) in \<open>auto simp: validateTableBinding_None\<close>)
  moreover have "PnIssuer planner' = PnIssuer planner" using s(2) p(6) by (simp add: validateTableBinding_None)
  moreover have "PtGeneration s < PtGeneration s'" using proof'(1) by (simp add: PlanProof_validate_None s s')
  moreover have "if MuKind m = TableMutationDrop then PtProvenance s' = PhysicalStateTombstone \<and> \<not> PtExists s'
       else PtProvenance s' = PhysicalStateManaged \<and> PtLogicalShape s' = logicalShapeFingerprint (MuAfterSchema m)"
    using proof'(8) by (auto simp: create_proof_def drop_proof_def alter_proof_def s' split: if_splits)
  moreover have "if MuKind m = TableMutationCreate then \<not> PtExists s
       else PtProvenance s = PhysicalStateManaged \<and> PtLogicalShape s = logicalShapeFingerprint (MuBeforeSchema m)"
    using proof'(8) by (auto simp: create_proof_def drop_proof_def alter_proof_def s(1) split: if_splits)
  ultimately show ?thesis using proof'(5-7) by (simp add: s(1) s')
qed

section \<open>Applications in sequence\<close>

text \<open>
  One application of a plan to a physical table: the state it found and the state it committed both passed the checks of
  the planner. Plans may come from any planner and may have been made at any time before.
\<close>

inductive engine_step :: "PhysicalTableState \<Rightarrow> PhysicalTableState \<Rightarrow> bool" where
  step_mutation:
    "PlanTableChange planner m requirements = Inr p \<Longrightarrow> ValidateApplyStart planner' p m' s = None \<Longrightarrow>
     ValidateApplyResult planner' p s' = None \<Longrightarrow> engine_step s s'"
| step_replacement:
    "PlanDataReplacement planner r = Inr p \<Longrightarrow> ValidateDataReplacementStart planner' p r' s = None \<Longrightarrow>
     ValidateDataReplacementResult planner' p s' = None \<Longrightarrow> engine_step s s'"

lemma PlanDataReplacement_Inr:
  assumes "PlanDataReplacement planner r = Inr p"
  shows "DataReplacement_validate r = None" "validateReplacementProof r (RpProof p) = None" "RpReplacement p = r"
    "RpIssuer p = PnIssuer planner"
  using assms by (auto simp: PlanDataReplacement_def Let_def split: option.splits sum.splits if_splits)

lemma ValidateDataReplacementStart_None:
  "ValidateDataReplacementStart planner p r s = None \<Longrightarrow> s = PpBefore (RpProof p)"
  by (auto simp: ValidateDataReplacementStart_def same_physical_eq split: option.splits if_splits)

lemma ValidateDataReplacementResult_None:
  "ValidateDataReplacementResult planner p s = None \<Longrightarrow> s = PpAfter (RpProof p)"
  by (auto simp: ValidateDataReplacementResult_def same_physical_eq split: if_splits)

lemma validateReplacementProof_None:
  "validateReplacementProof r p = None \<Longrightarrow>
     PlanProof_validate p = None \<and> PtProvenance (PpBefore p) = PhysicalStateManaged
     \<and> PtProvenance (PpAfter p) = PhysicalStateManaged \<and> PtLogicalShape (PpAfter p) = PtLogicalShape (PpBefore p)"
  by (auto simp: validateReplacementProof_def split: option.splits if_splits)

lemma engine_step_proof:
  assumes "engine_step s s'"
  obtains p where "s = PpBefore p" "s' = PpAfter p" "PlanProof_validate p = None"
    "PtProvenance s \<noteq> PhysicalStateUnmanaged" "PtProvenance s' \<in> {PhysicalStateManaged, PhysicalStateTombstone}"
  using assms
proof (cases rule: engine_step.cases)
  case (step_mutation planner m requirements p planner' m')
  note v = validateTablePlanProof_None [OF PlanTableChange_Inr(2) [OF step_mutation(1)]]
  have "s = PpBefore (TpProof p)" "s' = PpAfter (TpProof p)"
    using step_mutation(2,3) by (simp_all add: ValidateApplyStart_None ValidateApplyResult_None)
  moreover have "PtProvenance (PpAfter (TpProof p)) \<in> {PhysicalStateManaged, PhysicalStateTombstone}"
    using v(8) by (auto simp: create_proof_def drop_proof_def alter_proof_def split: if_splits)
  ultimately show ?thesis using that v(1,4) by blast
next
  case (step_replacement planner r p planner' r')
  note v = validateReplacementProof_None [OF PlanDataReplacement_Inr(2) [OF step_replacement(1)]]
  have "s = PpBefore (RpProof p)" "s' = PpAfter (RpProof p)"
    using step_replacement(2,3) ValidateDataReplacementStart_None ValidateDataReplacementResult_None by blast+
  then show ?thesis using that [of "RpProof p"] v by simp
qed

lemma engine_step_generation: "engine_step s s' \<Longrightarrow> PtGeneration s < PtGeneration s' \<and> PtTarget s' = PtTarget s"
  by (erule engine_step_proof) (simp add: PlanProof_validate_None)

lemma engine_steps_generation: "engine_step\<^sup>+\<^sup>+ s s' \<Longrightarrow> PtGeneration s < PtGeneration s' \<and> PtTarget s' = PtTarget s"
  by (induction rule: tranclp_induct) (auto dest: engine_step_generation)


definition physical_ok :: "PhysicalTableState \<Rightarrow> bool" where
  "physical_ok s \<longleftrightarrow>
     PtProvenance s \<in> {PhysicalStateVirgin, PhysicalStateManaged, PhysicalStateTombstone}
     \<and> (PtExists s \<longleftrightarrow> PtProvenance s = PhysicalStateManaged)
     \<and> (PtGeneration s = 0 \<longleftrightarrow> PtProvenance s = PhysicalStateVirgin)
     \<and> (PtLogicalShape s = [] \<longleftrightarrow> \<not> PtExists s) \<and> (PtMarker s = [] \<longleftrightarrow> PtGeneration s = 0)"

lemma fingerprintLooksValid_nonempty: "fingerprintLooksValid v \<Longrightarrow> v \<noteq> []"
  by (auto simp: fingerprintLooksValid_def)

lemma valid_managed:
  assumes "PhysicalTableState_validate s = None" "PtProvenance s \<in> {PhysicalStateVirgin, PhysicalStateManaged, PhysicalStateTombstone}"
  shows "physical_ok s"
  using assms fingerprintLooksValid_nonempty
  by (auto simp: PhysicalTableState_validate_def NewPhysicalTableState_def physical_ok_def split: option.splits if_splits)

text \<open>
  C31. From a table that the engine has never seen, every sequence of applied plans leads to a state in which the table
  exists exactly when it is managed, an absent table that once existed is a tombstone, the generation is zero only before the
  first application, and every later state carries a generation marker.
\<close>

theorem applications_keep_physical_state:
  assumes "PtProvenance s0 = PhysicalStateVirgin" "PhysicalTableState_validate s0 = None" "engine_step\<^sup>*\<^sup>* s0 s"
  shows "physical_ok s \<and> PtTarget s = PtTarget s0 \<and> PtGeneration s0 \<le> PtGeneration s"
  using assms(3)
proof (induction rule: rtranclp_induct)
  case base
  show ?case using valid_managed [OF assms(2)] assms(1) by simp
next
  case (step s s')
  then have "physical_ok s'"
    by (elim engine_step_proof) (auto intro: valid_managed simp: PlanProof_validate_None)
  then show ?case using step engine_step_generation [OF step(2)] by simp
qed

section \<open>A sample application\<close>

definition sample_requirements :: PlanRequirements where
  "sample_requirements = \<lparr>RqTransactions = [''single-table''], RqAtomicReplacements = [], RqInspection = [],
     RqDDLGuarantee = ''atomic-physical-table''\<rparr>"

definition sample_state :: "nat \<Rightarrow> Field list \<Rightarrow> PhysicalTableState" where
  "sample_state generation schema =
     \<lparr>PtTarget = sample_target, PtExists = True, PtGeneration = generation, PtLogicalShape = logicalShapeFingerprint schema,
      PtPhysicalShape = logicalShapeFingerprint schema,
      PtMarker = generationMarkerFingerprint sample_target ''job-1'' generation, PtProvenance = PhysicalStateManaged\<rparr>"

definition sample_proof :: PlanProof where
  "sample_proof = \<lparr>PpBefore = sample_state 3 sample_nested, PpAfter = sample_state 4 sample_added, PpStrategy = ''alter-in-place''\<rparr>"

definition sample_planner :: Planner where
  "sample_planner = \<lparr>PnCapabilities = sample_capabilities,
     PnAdapter = Some \<lparr>ApPlanTableMutation = (\<lambda>_. Inr sample_proof), ApPlanDataReplacement = (\<lambda>_. Inr sample_proof)\<rparr>,
     PnIssuer = Some 1\<rparr>"

definition sample_plan :: TablePlan where
  "sample_plan =
     (let p = \<lparr>TpEngineIdentity = CpIdentity sample_capabilities, TpCapabilityFingerprint = CpFingerprint sample_capabilities,
               TpMutation = sample_add_mutation, TpRequirements = sample_requirements, TpProof = sample_proof,
               TpPlanFingerprint = [], TpIssuer = Some 1\<rparr> in p\<lparr>TpPlanFingerprint := tablePlanFingerprint p\<rparr>)"

lemma fingerprintJSON_looks_valid: "fingerprintLooksValid (fingerprintJSON j)"
proof -
  have "list_all hex_digit (json_digest j)"
    using json_digest_hex(2) [of j] by (rule list.pred_mono_strong) (auto simp: hex_digit_def is_hex_def is_digit_def in_class_def)
  then show ?thesis by (simp add: fingerprintLooksValid_def fingerprintJSON_def strings_HasPrefix_def)
qed

lemma sample_state_valid:
  "schema \<noteq> [] \<Longrightarrow> generation \<noteq> 0 \<Longrightarrow> PhysicalTableState_validate (sample_state generation schema) = None"
  using valid_table_reference [OF sample_table_valid]
  by (simp add: PhysicalTableState_validate_def NewPhysicalTableState_def sample_state_def logicalShapeFingerprint_def
      generationMarkerFingerprint_def fingerprintJSON_looks_valid)

lemma sample_proof_valid: "validateTablePlanProof sample_capabilities sample_add_mutation sample_proof = None"
proof -
  have ne: "sample_nested \<noteq> []" "sample_added \<noteq> []" by (simp_all add: sample_nested_def sample_added_def)
  have "PlanProof_validate sample_proof = None"
    using sample_state_valid ne by (simp add: PlanProof_validate_None sample_proof_def validPlanStrategy_def) (simp add: sample_state_def)
  then show ?thesis
    by (simp add: validateTablePlanProof_def alter_proof_def sample_proof_def GenerationMarkerFingerprint_def)
       (simp add: sample_state_def sample_add_mutation_def Let_def)
qed

lemma sample_added_fields: "validateLogicalFieldsForOperation sample_capabilities operation sample_added 0 0 = None"
  by (simp add: sample_added_def sample_added_field_def decimal_capability_def isDecimalField_def
      isRepeatedField_def isStructField_def fold_defs sample_capabilities_def described_def sample_descriptor_def
      EffectiveDecimalParameters_def SparkDecimalMaxPrecision_def SparkDecimalMaxScale_def)

lemma sample_mutation_simps:
  "MuKind sample_add_mutation = TableMutationAddColumn" "MuAfterSchema sample_add_mutation = sample_added"
  "MuFieldChanges sample_add_mutation = [\<lparr>FcPath = [''a'', ''c''], FcBefore = None, FcAfter = Some sample_added_field\<rparr>]"
  "MuLogicalFingerprint sample_add_mutation = mutationFingerprint sample_add_mutation"
  by (simp_all add: sample_add_mutation_def Let_def mutationFingerprint_def mutation_document_def)

lemma sample_plan_issued: "PlanTableChange sample_planner sample_add_mutation sample_requirements = Inr sample_plan"
proof -
  have "TableMutation_validate sample_add_mutation = None"
    by (simp add: TableMutation_validate_None sample_mutation_simps validTableMutationKind_def)
  moreover have "normalizeRequirements sample_requirements = Inr sample_requirements"
    by (simp add: normalizeRequirements_def sample_requirements_def validDDLGuarantee_def validTransactionScope_def)
  moreover have "validateMutationCapability sample_capabilities sample_add_mutation = None"
    by (simp add: validateMutationCapability_def sample_mutation_simps mutationDDLOperation_def Capabilities_DDL_def
        ddlUsesFieldPath_def sample_capabilities_def described_def sample_descriptor_def)
  moreover have "validateRequirements sample_capabilities TableMutationAddColumn sample_requirements = None"
    by (simp add: validateRequirements_def sample_requirements_def SupportsTransaction_def mutationDDLOperation_def
        Capabilities_DDL_def ddlGuaranteeSatisfies_def sample_capabilities_def described_def sample_descriptor_def)
  ultimately show ?thesis
    using sample_proof_valid sample_added_fields
    by (simp add: PlanTableChange_def sample_planner_def validateDesiredLogicalSchema_def sample_mutation_simps sample_plan_def Let_def)
qed

lemma sample_start: "ValidateApplyStart sample_planner sample_plan sample_add_mutation (sample_state 3 sample_nested) = None"
proof -
  note p = PlanTableChange_Inr [OF sample_plan_issued]
  have "validateTableBinding sample_planner sample_plan sample_add_mutation = None"
    unfolding validateTableBinding_None using p by simp
  then show ?thesis
    unfolding ValidateApplyStart_None by (simp add: sample_plan_def sample_proof_def Let_def)
qed

lemma sample_result: "ValidateApplyResult sample_planner sample_plan (sample_state 4 sample_added) = None"
  using PlanTableChange_Inr(6,11) [OF sample_plan_issued]
  by (simp add: ValidateApplyResult_None) (simp add: sample_plan_def sample_proof_def Let_def)

lemma sample_mutation_strings: "json_valid_strings (mutation_document sample_add_mutation)"
  by (simp add: mutation_document_def sample_add_mutation_def Let_def reference_members_def sample_target_def json_fields_def
      sample_nested_def sample_added_def sample_added_field_def field_object_def json_array_def json_change_def json_strings_def
      json_optional_field_def json_optional_int_def utf8_valid.simps)

theorem applied_mutation_witness:
  "PtGeneration (sample_state 4 sample_added) = MuGeneration sample_add_mutation
   \<and> PtLogicalShape (sample_state 4 sample_added) = logicalShapeFingerprint (MuAfterSchema sample_add_mutation)
   \<and> PtMarker (sample_state 4 sample_added) = GenerationMarkerFingerprint sample_add_mutation"
  using applied_mutation [OF sample_plan_issued sample_start sample_result sample_mutation_strings sample_mutation_strings]
  by (simp add: sample_mutation_simps)

lemma sample_engine_step: "engine_step (sample_state 3 sample_nested) (sample_state 4 sample_added)"
  by (rule step_mutation [OF sample_plan_issued sample_start sample_result])


definition sample_virgin :: PhysicalTableState where
  "sample_virgin = \<lparr>PtTarget = sample_target, PtExists = False, PtGeneration = 0, PtLogicalShape = [], PtPhysicalShape = [],
     PtMarker = [], PtProvenance = PhysicalStateVirgin\<rparr>"

definition sample_create :: TableMutation where
  "sample_create =
     (let m = \<lparr>MuKind = TableMutationCreate, MuTarget = sample_target, MuBeforeSchema = [], MuAfterSchema = sample_nested,
               MuFieldChanges = [], MuCorrelationID = ''job-1'', MuExpectedGeneration = 0, MuGeneration = 3,
               MuLogicalFingerprint = []\<rparr> in m\<lparr>MuLogicalFingerprint := mutationFingerprint m\<rparr>)"

definition sample_create_proof :: PlanProof where
  "sample_create_proof = \<lparr>PpBefore = sample_virgin, PpAfter = sample_state 3 sample_nested, PpStrategy = ''create-table''\<rparr>"

definition sample_create_planner :: Planner where
  "sample_create_planner = sample_planner\<lparr>PnAdapter := Some \<lparr>ApPlanTableMutation = (\<lambda>_. Inr sample_create_proof),
     ApPlanDataReplacement = (\<lambda>_. Inr sample_create_proof)\<rparr>\<rparr>"

definition sample_create_plan :: TablePlan where
  "sample_create_plan =
     (let p = \<lparr>TpEngineIdentity = CpIdentity sample_capabilities, TpCapabilityFingerprint = CpFingerprint sample_capabilities,
               TpMutation = sample_create,
               TpRequirements = sample_requirements\<lparr>RqDDLGuarantee := ''atomic-physical-statement''\<rparr>,
               TpProof = sample_create_proof, TpPlanFingerprint = [], TpIssuer = Some 1\<rparr> in
      p\<lparr>TpPlanFingerprint := tablePlanFingerprint p\<rparr>)"

lemma sample_virgin_valid: "PhysicalTableState_validate sample_virgin = None"
  using valid_table_reference [OF sample_table_valid]
  by (simp add: PhysicalTableState_validate_def NewPhysicalTableState_def sample_virgin_def)

lemma sample_create_simps:
  "MuKind sample_create = TableMutationCreate" "MuAfterSchema sample_create = sample_nested" "MuFieldChanges sample_create = []"
  "MuLogicalFingerprint sample_create = mutationFingerprint sample_create"
  by (simp_all add: sample_create_def Let_def mutationFingerprint_def mutation_document_def)

lemma sample_create_issued:
  "PlanTableChange sample_create_planner sample_create (sample_requirements\<lparr>RqDDLGuarantee := ''atomic-physical-statement''\<rparr>)
     = Inr sample_create_plan"
proof -
  have ne: "sample_nested \<noteq> []" by (simp add: sample_nested_def)
  have "PlanProof_validate sample_create_proof = None"
    using sample_state_valid [of sample_nested 3] ne sample_virgin_valid
    by (simp add: PlanProof_validate_None sample_create_proof_def validPlanStrategy_def) (simp add: sample_state_def sample_virgin_def)
  then have "validateTablePlanProof sample_capabilities sample_create sample_create_proof = None"
    by (simp add: validateTablePlanProof_def create_proof_def sample_create_proof_def GenerationMarkerFingerprint_def)
       (simp add: sample_state_def sample_virgin_def sample_create_def Let_def)
  moreover have "TableMutation_validate sample_create = None"
    by (simp add: TableMutation_validate_None sample_create_simps validTableMutationKind_def)
  moreover have "validateMutationCapability sample_capabilities sample_create = None"
    by (simp add: validateMutationCapability_def sample_create_simps mutationDDLOperation_def Capabilities_DDL_def
        ddlUsesFieldPath_def sample_capabilities_def described_def sample_descriptor_def)
  ultimately show ?thesis
    using sample_logical_fields
    by (simp add: PlanTableChange_def sample_create_planner_def sample_planner_def validateDesiredLogicalSchema_def
        sample_create_simps sample_create_plan_def Let_def normalizeRequirements_def sample_requirements_def validDDLGuarantee_def
        validTransactionScope_def validateRequirements_def SupportsTransaction_def mutationDDLOperation_def
        Capabilities_DDL_def ddlGuaranteeSatisfies_def sample_capabilities_def described_def sample_descriptor_def)
qed

lemma sample_created: "engine_step sample_virgin (sample_state 3 sample_nested)"
proof (rule step_mutation [OF sample_create_issued])
  note p = PlanTableChange_Inr [OF sample_create_issued]
  have "validateTableBinding sample_create_planner sample_create_plan sample_create = None"
    unfolding validateTableBinding_None using p by simp
  then show "ValidateApplyStart sample_create_planner sample_create_plan sample_create sample_virgin = None"
    unfolding ValidateApplyStart_None by (simp add: sample_create_plan_def sample_create_proof_def Let_def)
  show "ValidateApplyResult sample_create_planner sample_create_plan (sample_state 3 sample_nested) = None"
    using p(6,11) by (simp add: ValidateApplyResult_None) (simp add: sample_create_plan_def sample_create_proof_def Let_def)
qed

theorem applications_keep_physical_state_witness: "physical_ok (sample_state 4 sample_added)"
proof -
  have "engine_step\<^sup>*\<^sup>* sample_virgin (sample_state 4 sample_added)"
    by (rule rtranclp.rtrancl_into_rtrancl [OF r_into_rtranclp]) (rule sample_created, rule sample_engine_step)
  then show ?thesis
    using applications_keep_physical_state [OF _ sample_virgin_valid] by (simp add: sample_virgin_def)
qed

end
