(* ===== verification/Load_Domain.thy ===== *)
theory Load_Domain
  imports Engine_Schema
begin

text \<open>
  \<open>internal/loadjob/domain\<close>: the configuration of a load job, its validation and digest, and the life of a job,
  PENDING, RUNNING, DONE. The enumerated options are Go strings, because a request may hold any text; the
  state of a job is only ever set to its three constants.

  The lemmas show that normalization is idempotent, that the digest of a configuration is the digest of its normal form
  and tells two normal forms apart unless SHA-256 collides, and that every operation keeps a job well formed.
\<close>

section \<open>Jobs\<close>

datatype LoadJobState = JobPending | JobRunning | JobDone

abbreviation FormatCSV :: string where "FormatCSV \<equiv> ''CSV''"
abbreviation FormatNewlineDelimitedJSON :: string where "FormatNewlineDelimitedJSON \<equiv> ''NEWLINE_DELIMITED_JSON''"
abbreviation LoadFormatAvro :: string where "LoadFormatAvro \<equiv> ''AVRO''"
abbreviation FormatParquet :: string where "FormatParquet \<equiv> ''PARQUET''"
abbreviation FormatORC :: string where "FormatORC \<equiv> ''ORC''"
abbreviation WriteAppend :: string where "WriteAppend \<equiv> ''WRITE_APPEND''"
abbreviation WriteEmpty :: string where "WriteEmpty \<equiv> ''WRITE_EMPTY''"
abbreviation WriteTruncate :: string where "WriteTruncate \<equiv> ''WRITE_TRUNCATE''"
abbreviation CreateIfNeeded :: string where "CreateIfNeeded \<equiv> ''CREATE_IF_NEEDED''"
abbreviation CreateNever :: string where "CreateNever \<equiv> ''CREATE_NEVER''"

definition validSourceFormat :: "string \<Rightarrow> bool" where
  "validSourceFormat f \<longleftrightarrow> f \<in> {FormatCSV, FormatNewlineDelimitedJSON, LoadFormatAvro, FormatParquet, FormatORC}"

definition validWriteDisposition :: "string \<Rightarrow> bool" where
  "validWriteDisposition d \<longleftrightarrow> d \<in> {WriteAppend, WriteEmpty, WriteTruncate}"

definition validCreateDisposition :: "string \<Rightarrow> bool" where
  "validCreateDisposition d \<longleftrightarrow> d \<in> {CreateIfNeeded, CreateNever}"

record LoadJobReference =
  LrProjectID :: string
  LrLocation :: string
  LrJobID :: string

record LoadTableReference =
  LtProjectID :: string
  LtDatasetID :: string
  LtTableID :: string

record LoadTable =
  LoReference :: LoadTableReference
  LoLocation :: string
  LoSchema :: "Field list"

record LoadConfiguration =
  LcSourceURIs :: "string list"
  LcDestination :: LoadTableReference
  LcSourceFormat :: string
  LcWriteDisposition :: string
  LcCreateDisposition :: string
  LcSchema :: "Field list"
  LcAutodetect :: bool
  LcSchemaUpdateOptions :: "string list"
  LcIgnoreUnknownValues :: bool
  LcMaxBadRecords :: int
  LcUnsupportedOptions :: "string list"

record LoadJobError =
  LeReason :: string
  LeMessage :: string

record LoadStatistics =
  LsInputFiles :: int
  LsInputBytes :: int
  LsOutputBytes :: int
  LsOutputRows :: int

record LoadJob =
  LjReference :: LoadJobReference
  LjConfiguration :: LoadConfiguration
  LjConfigurationDigest :: string
  LjState :: LoadJobState
  LjError :: "LoadJobError option"
  LjStatistics :: LoadStatistics
  LjCreatedAt :: time
  LjStartedAt :: "time option"
  LjEndedAt :: "time option"

definition no_statistics :: LoadStatistics where
  "no_statistics = \<lparr>LsInputFiles = 0, LsInputBytes = 0, LsOutputBytes = 0, LsOutputRows = 0\<rparr>"

section \<open>Configurations\<close>

definition upper_or :: "string \<Rightarrow> string \<Rightarrow> string" where
  "upper_or fallback v = (if v = [] then fallback else strings_ToUpper v)"

definition normalizeConfiguration :: "LoadConfiguration \<Rightarrow> LoadConfiguration" where
  "normalizeConfiguration c =
     c\<lparr>LcSourceFormat := upper_or FormatCSV (LcSourceFormat c),
       LcWriteDisposition := upper_or WriteAppend (LcWriteDisposition c),
       LcCreateDisposition := upper_or CreateIfNeeded (LcCreateDisposition c),
       LcSchema := CloneFields (LcSchema c)\<rparr>"

definition validateReference :: "LoadJobReference \<Rightarrow> go_error option" where
  "validateReference r =
     (if LrProjectID r = [] \<or> LrLocation r = [] \<or> LrJobID r = [] then Some [LoadErrInvalid] else None)"

text \<open>The path of a field is only part of the message.\<close>

fun validateUniqueSchemaFields :: "string list \<Rightarrow> Field list \<Rightarrow> go_error option" where
  "validateUniqueSchemaFields seen [] = None"
| "validateUniqueSchemaFields seen (MkField n t m d p s r nested # rest) =
     (let key = strings_ToLower n in
      if key \<in> set seen then Some [LoadErrInvalid]
      else case validateUniqueSchemaFields [] nested of Some e \<Rightarrow> Some e
        | None \<Rightarrow> validateUniqueSchemaFields (key # seen) rest)"

definition ValidateSchema :: "Field list \<Rightarrow> go_error option" where
  "ValidateSchema schema =
     (case Fields_Validate schema of
        Some e \<Rightarrow> Some [if errors_Is e ErrUnsupported then LoadErrUnsupported else LoadErrInvalid]
      | None \<Rightarrow> validateUniqueSchemaFields [] schema)"

definition ValidateConfiguration :: "LoadConfiguration \<Rightarrow> go_error option" where
  "ValidateConfiguration c =
     (if LcSourceURIs c = [] then Some [LoadErrInvalid]
      else if list_ex blank (LcSourceURIs c) then Some [LoadErrInvalid]
      else if LtProjectID (LcDestination c) = [] \<or> LtDatasetID (LcDestination c) = [] \<or> LtTableID (LcDestination c) = []
      then Some [LoadErrInvalid]
      else if \<not> validSourceFormat (LcSourceFormat c) then Some [LoadErrInvalid]
      else if \<not> validWriteDisposition (LcWriteDisposition c) then Some [LoadErrInvalid]
      else if \<not> validCreateDisposition (LcCreateDisposition c) then Some [LoadErrInvalid]
      else if LcMaxBadRecords c < 0 then Some [LoadErrInvalid]
      else ValidateSchema (LcSchema c))"

definition configuration_document :: "LoadConfiguration \<Rightarrow> json" where
  "configuration_document c =
     JObject [(''SourceURIs'', json_strings (LcSourceURIs c)),
       (''Destination'', JObject [(''ProjectID'', JString (LtProjectID (LcDestination c))),
          (''DatasetID'', JString (LtDatasetID (LcDestination c))), (''TableID'', JString (LtTableID (LcDestination c)))]),
       (''SourceFormat'', JString (LcSourceFormat c)), (''WriteDisposition'', JString (LcWriteDisposition c)),
       (''CreateDisposition'', JString (LcCreateDisposition c)), (''Schema'', json_fields (LcSchema c)),
       (''Autodetect'', JBool (LcAutodetect c)), (''SchemaUpdateOptions'', json_strings (LcSchemaUpdateOptions c)),
       (''IgnoreUnknownValues'', JBool (LcIgnoreUnknownValues c)), (''MaxBadRecords'', JInt (LcMaxBadRecords c)),
       (''UnsupportedOptions'', json_strings (LcUnsupportedOptions c))]"

definition ConfigurationDigest :: "LoadConfiguration \<Rightarrow> string" where
  "ConfigurationDigest c = json_digest (configuration_document (normalizeConfiguration c))"

section \<open>Operations of a job\<close>

definition NewJob :: "LoadJobReference \<Rightarrow> LoadConfiguration \<Rightarrow> time \<Rightarrow> go_error + LoadJob" where
  "NewJob reference c now =
     (let configuration = normalizeConfiguration c in
      case validateReference reference of Some e \<Rightarrow> Inl e
      | None \<Rightarrow>
        (case ValidateConfiguration configuration of Some e \<Rightarrow> Inl e
         | None \<Rightarrow>
           Inr \<lparr>LjReference = reference, LjConfiguration = configuration,
                LjConfigurationDigest = ConfigurationDigest configuration, LjState = JobPending, LjError = None,
                LjStatistics = no_statistics, LjCreatedAt = now, LjStartedAt = None, LjEndedAt = None\<rparr>))"

definition LoadJob_Start :: "time \<Rightarrow> LoadJob \<Rightarrow> go_error + LoadJob" where
  "LoadJob_Start now j =
     (if LjState j \<noteq> JobPending then Inl [LoadErrConflict]
      else Inr (j\<lparr>LjStartedAt := Some now, LjState := JobRunning\<rparr>))"

definition LoadJob_Complete :: "LoadStatistics \<Rightarrow> time \<Rightarrow> LoadJob \<Rightarrow> go_error + LoadJob" where
  "LoadJob_Complete statistics now j =
     (if LjState j \<noteq> JobRunning then Inl [LoadErrConflict]
      else Inr (j\<lparr>LjEndedAt := Some now, LjStatistics := statistics, LjState := JobDone, LjError := None\<rparr>))"

definition LoadJob_Fail :: "string \<Rightarrow> string \<Rightarrow> LoadStatistics \<Rightarrow> time \<Rightarrow> LoadJob \<Rightarrow> go_error + LoadJob" where
  "LoadJob_Fail reason message statistics now j =
     (if LjState j \<noteq> JobRunning then Inl [LoadErrConflict]
      else Inr (j\<lparr>LjEndedAt := Some now, LjStatistics := statistics, LjState := JobDone,
                  LjError := Some \<lparr>LeReason = reason, LeMessage = message\<rparr>\<rparr>))"

definition LoadJob_Clone :: "LoadJob \<Rightarrow> LoadJob" where
  "LoadJob_Clone j = j\<lparr>LjConfiguration := normalizeConfiguration (LjConfiguration j)\<rparr>"

section \<open>Well-formed jobs\<close>

text \<open>
  A job is what \<open>NewJob\<close> makes of its own reference, configuration and creation time, except for its progress; the times and
  the error say how far it has come.
\<close>

definition job_progress :: "LoadJobState \<Rightarrow> time option \<Rightarrow> time option \<Rightarrow> LoadJobError option \<Rightarrow> bool" where
  "job_progress state started finished error \<longleftrightarrow>
     (case state of
        JobPending \<Rightarrow> started = None \<and> finished = None \<and> error = None
      | JobRunning \<Rightarrow> started \<noteq> None \<and> finished = None \<and> error = None
      | JobDone \<Rightarrow> finished \<noteq> None)"

definition job_ok :: "LoadJob \<Rightarrow> bool" where
  "job_ok j \<longleftrightarrow>
     normalizeConfiguration (LjConfiguration j) = LjConfiguration j
     \<and> validateReference (LjReference j) = None \<and> ValidateConfiguration (LjConfiguration j) = None
     \<and> LjConfigurationDigest j = ConfigurationDigest (LjConfiguration j)
     \<and> job_progress (LjState j) (LjStartedAt j) (LjEndedAt j) (LjError j)"

lemma strings_ToUpper_idem [simp]: "strings_ToUpper (strings_ToUpper s) = strings_ToUpper s"
proof -
  have "upper_char (upper_char c) = upper_char c" for c
    by (auto simp: upper_char_def less_eq_char_def)
  then show ?thesis by (simp add: strings_ToUpper_def)
qed

lemma strings_ToUpper_Nil [simp]: "strings_ToUpper s = [] \<longleftrightarrow> s = []"
  by (simp add: strings_ToUpper_def)

lemma upper_or_idem: "strings_ToUpper d = d \<Longrightarrow> d \<noteq> [] \<Longrightarrow> upper_or d (upper_or d v) = upper_or d v"
  by (cases "v = []") (simp_all add: upper_or_def)

lemma normalizeConfiguration_idem [simp]:
  "normalizeConfiguration (normalizeConfiguration c) = normalizeConfiguration c"
proof -
  have "upper_or FormatCSV (upper_or FormatCSV v) = upper_or FormatCSV v"
    "upper_or WriteAppend (upper_or WriteAppend v) = upper_or WriteAppend v"
    "upper_or CreateIfNeeded (upper_or CreateIfNeeded v) = upper_or CreateIfNeeded v" for v
    by (rule upper_or_idem; simp add: strings_ToUpper_def upper_char_def)+
  then show ?thesis by (simp add: normalizeConfiguration_def CloneFields_id)
qed

lemma ConfigurationDigest_normalized [simp]: "ConfigurationDigest (normalizeConfiguration c) = ConfigurationDigest c"
  by (simp add: ConfigurationDigest_def)

lemma LoadJob_Clone_ok: "job_ok j \<Longrightarrow> LoadJob_Clone j = j"
  by (simp add: LoadJob_Clone_def job_ok_def)

lemma NewJob_Inr:
  "NewJob reference c now = Inr j \<longleftrightarrow>
     validateReference reference = None \<and> ValidateConfiguration (normalizeConfiguration c) = None
     \<and> j = \<lparr>LjReference = reference, LjConfiguration = normalizeConfiguration c,
            LjConfigurationDigest = ConfigurationDigest c, LjState = JobPending, LjError = None,
            LjStatistics = no_statistics, LjCreatedAt = now, LjStartedAt = None, LjEndedAt = None\<rparr>"
  by (auto simp: NewJob_def Let_def split: option.splits)

lemma NewJob_ok: "NewJob reference c now = Inr j \<Longrightarrow> job_ok j"
  by (auto simp: NewJob_Inr job_ok_def job_progress_def)

lemma job_ok_NewJob:
  "job_ok j \<Longrightarrow> NewJob (LjReference j) (LjConfiguration j) t =
     Inr (j\<lparr>LjState := JobPending, LjError := None, LjStatistics := no_statistics, LjCreatedAt := t, LjStartedAt := None, LjEndedAt := None\<rparr>)"
  by (simp add: NewJob_Inr job_ok_def)

lemma LoadJob_Start_ok: "LoadJob_Start now j = Inr j' \<Longrightarrow> job_ok j \<Longrightarrow> job_ok j'"
  by (auto simp: LoadJob_Start_def job_ok_def job_progress_def split: if_splits)

lemma LoadJob_Complete_ok: "LoadJob_Complete statistics now j = Inr j' \<Longrightarrow> job_ok j \<Longrightarrow> job_ok j'"
  by (auto simp: LoadJob_Complete_def job_ok_def job_progress_def split: if_splits)

lemma LoadJob_Fail_ok: "LoadJob_Fail reason message statistics now j = Inr j' \<Longrightarrow> job_ok j \<Longrightarrow> job_ok j'"
  by (auto simp: LoadJob_Fail_def job_ok_def job_progress_def split: if_splits)

section \<open>Digests\<close>

lemma configuration_document_inj:
  "configuration_document a = configuration_document b \<longleftrightarrow> a = b"
  by (cases a; cases b; cases "LcDestination a"; cases "LcDestination b")
     (auto simp: configuration_document_def json_strings_inj json_fields_inj)

lemma ConfigurationDigest_eq:
  assumes "json_valid_strings (configuration_document (normalizeConfiguration a))"
    and "json_valid_strings (configuration_document (normalizeConfiguration b))"
    and "ConfigurationDigest a = ConfigurationDigest b"
  shows "normalizeConfiguration a = normalizeConfiguration b
    \<or> digest_collision (configuration_document (normalizeConfiguration a)) (configuration_document (normalizeConfiguration b))"
  using json_digest_eq [OF assms(1,2)] assms(3) by (simp add: ConfigurationDigest_def configuration_document_inj)

end
