(* ===== verification/Load_Repository.thy ===== *)
theory Load_Repository
  imports Load_Domain Sqlite "HOL-Library.Product_Lexorder"
begin

text \<open>
  The repositories of load jobs: the port of \<open>internal/loadjob/ports/ports.go\<close> with its contract as the locale
  \<open>load_jobs\<close>, the process-local repository of \<open>internal/loadjob/application/repository.go\<close>, and the durable one of
  \<open>internal/adapters/sqlite/load_jobs.go\<close> with the table of migration 2 and the reconciliation of interrupted jobs in
  \<open>internal/adapters/sqlite/state.go\<close>. Both repositories are interpretations of the contract; they differ in the key: the
  table ignores the case of a location.

  A row of the table holds the values of its columns as a job; the configuration is stored as JSON, so
  reading it again replaces bytes that are not UTF-8. The engine error that awaits each coming statement is listed in the
  database record; an error of the context stands for a context that is done.
\<close>

section \<open>The port\<close>

record 'r LoadJobRepository =
  JrCreateOrGet :: "LoadJob \<Rightarrow> 'r \<Rightarrow> (go_error + LoadJob \<times> bool) \<times> 'r"
  JrUpdate :: "LoadJob \<Rightarrow> 'r \<Rightarrow> go_error option \<times> 'r"
  JrGet :: "LoadJobReference \<Rightarrow> 'r \<Rightarrow> (go_error + LoadJob) \<times> 'r"
  JrList :: "string \<Rightarrow> string \<Rightarrow> 'r \<Rightarrow> (go_error + LoadJob list) \<times> 'r"

text \<open>The strings of a job's configuration are UTF-8, as those of every decoded request.\<close>

definition job_text :: "LoadJob \<Rightarrow> bool" where
  "job_text j \<longleftrightarrow> json_valid_strings (configuration_document (LjConfiguration j))"

definition job_before :: "LoadJob \<Rightarrow> LoadJob \<Rightarrow> bool" where
  "job_before a b \<longleftrightarrow>
     LjCreatedAt a < LjCreatedAt b \<or> (LjCreatedAt a = LjCreatedAt b \<and> LrJobID (LjReference a) \<le> LrJobID (LjReference b))"

text \<open>
  The contract. \<open>view\<close> is the map from keys to jobs. A job is created under a free key or found; an update needs an existing
  job and replaces it; a failed call changes nothing, except that a creation that fails may have stored the new job.
\<close>

locale load_jobs =
  fixes repo :: "'r LoadJobRepository"
    and ok :: "'r \<Rightarrow> bool"
    and key :: "LoadJobReference \<Rightarrow> 'k"
    and view :: "'r \<Rightarrow> 'k \<rightharpoonup> LoadJob"
    and same_location :: "string \<Rightarrow> string \<Rightarrow> bool"
  assumes view_job: "ok r \<Longrightarrow> view r k = Some j \<Longrightarrow> k = key (LjReference j) \<and> job_ok j \<and> job_text j"
    and create_new:
      "ok r \<Longrightarrow> job_ok j \<Longrightarrow> job_text j \<Longrightarrow> JrCreateOrGet repo j r = (Inr (stored, True), r') \<Longrightarrow>
         ok r' \<and> stored = j \<and> view r (key (LjReference j)) = None \<and> view r' = (view r)(key (LjReference j) \<mapsto> j)"
    and create_found:
      "ok r \<Longrightarrow> job_ok j \<Longrightarrow> job_text j \<Longrightarrow> JrCreateOrGet repo j r = (Inr (stored, False), r') \<Longrightarrow>
         ok r' \<and> view r' = view r \<and> view r (key (LjReference j)) = Some stored"
    and create_failed:
      "ok r \<Longrightarrow> job_ok j \<Longrightarrow> job_text j \<Longrightarrow> JrCreateOrGet repo j r = (Inl e, r') \<Longrightarrow>
         ok r' \<and> (view r' = view r
                  \<or> view r (key (LjReference j)) = None \<and> view r' = (view r)(key (LjReference j) \<mapsto> j))"
    and update:
      "ok r \<Longrightarrow> job_ok j \<Longrightarrow> job_text j \<Longrightarrow> JrUpdate repo j r = (None, r') \<Longrightarrow>
         ok r' \<and> view r (key (LjReference j)) \<noteq> None \<and> view r' = (view r)(key (LjReference j) \<mapsto> j)"
    and update_failed:
      "ok r \<Longrightarrow> job_ok j \<Longrightarrow> job_text j \<Longrightarrow> JrUpdate repo j r = (Some e, r') \<Longrightarrow> ok r' \<and> view r' = view r"
    and get:
      "ok r \<Longrightarrow> JrGet repo ref r = (res, r') \<Longrightarrow>
         ok r' \<and> view r' = view r
         \<and> (case res of Inr j \<Rightarrow> view r (key ref) = Some j
            | Inl e \<Rightarrow> (LoadErrNotFound \<in> set e \<longrightarrow> view r (key ref) = None))"
    and list:
      "ok r \<Longrightarrow> JrList repo project location r = (listed, r') \<Longrightarrow>
         ok r' \<and> view r' = view r
         \<and> (case listed of Inl e \<Rightarrow> True
            | Inr js \<Rightarrow> sorted_wrt job_before js
                \<and> set js = {j. (\<exists>k. view r k = Some j) \<and> LrProjectID (LjReference j) = project
                               \<and> (location = [] \<or> same_location (LrLocation (LjReference j)) location)})"

section \<open>The process-local repository\<close>

type_synonym MemoryJobRepository = "(string, LoadJob) gomap"

definition jobKey :: "LoadJobReference \<Rightarrow> string" where
  "jobKey r = LrProjectID r @ CHR 0x00 # LrLocation r @ CHR 0x00 # LrJobID r"

definition job_order :: "LoadJob \<Rightarrow> time \<times> string" where
  "job_order j = (LjCreatedAt j, LrJobID (LjReference j))"

definition memory_CreateOrGet :: "LoadJob \<Rightarrow> MemoryJobRepository \<Rightarrow> (go_error + LoadJob \<times> bool) \<times> MemoryJobRepository" where
  "memory_CreateOrGet job jobs =
     (case gm_get jobs (jobKey (LjReference job)) of
        Some existing \<Rightarrow> (Inr (LoadJob_Clone existing, False), jobs)
      | None \<Rightarrow> (Inr (LoadJob_Clone job, True), gm_put (jobKey (LjReference job)) (LoadJob_Clone job) jobs))"

definition memory_Update :: "LoadJob \<Rightarrow> MemoryJobRepository \<Rightarrow> go_error option \<times> MemoryJobRepository" where
  "memory_Update job jobs =
     (case gm_get jobs (jobKey (LjReference job)) of
        None \<Rightarrow> (Some [LoadErrNotFound], jobs)
      | Some _ \<Rightarrow> (None, gm_put (jobKey (LjReference job)) (LoadJob_Clone job) jobs))"

definition memory_Get :: "LoadJobReference \<Rightarrow> MemoryJobRepository \<Rightarrow> (go_error + LoadJob) \<times> MemoryJobRepository" where
  "memory_Get ref jobs =
     (case gm_get jobs (jobKey ref) of
        None \<Rightarrow> (Inl [LoadErrNotFound], jobs)
      | Some job \<Rightarrow> (Inr (LoadJob_Clone job), jobs))"

definition memory_List :: "string \<Rightarrow> string \<Rightarrow> MemoryJobRepository \<Rightarrow> (go_error + LoadJob list) \<times> MemoryJobRepository" where
  "memory_List project location jobs =
     (Inr (sort_key job_order (map LoadJob_Clone
        (filter (\<lambda>j. LrProjectID (LjReference j) = project \<and> (location = [] \<or> LrLocation (LjReference j) = location))
           (map snd jobs)))), jobs)"

definition memory_jobs :: "MemoryJobRepository LoadJobRepository" where
  "memory_jobs = \<lparr>JrCreateOrGet = memory_CreateOrGet, JrUpdate = memory_Update, JrGet = memory_Get, JrList = memory_List\<rparr>"

section \<open>The table\<close>

record LoadDB =
  LdRows :: "(string \<times> string \<times> string, LoadJob) gomap"
  LdFaults :: "go_error option list"

definition load_key :: "LoadJobReference \<Rightarrow> string \<times> string \<times> string" where
  "load_key r = (LrProjectID r, strings_ToUpper (LrLocation r), LrJobID r)"

definition load_jobs_CHECK :: "LoadJob \<Rightarrow> bool" where
  "load_jobs_CHECK row \<longleftrightarrow>
     sqlite_length (LjConfigurationDigest row) = 64
     \<and> 0 \<le> LsInputFiles (LjStatistics row) \<and> 0 \<le> LsInputBytes (LjStatistics row)
     \<and> 0 \<le> LsOutputRows (LjStatistics row) \<and> 0 \<le> LsOutputBytes (LjStatistics row)
     \<and> 0 < sqlite_length (strings_ToUpper (LrLocation (LjReference row)))
     \<and> 0 < sqlite_length (LrLocation (LjReference row)) \<and> 0 < sqlite_length (LrJobID (LjReference row))
     \<and> (LjState row = JobPending \<and> LjStartedAt row = None \<and> LjEndedAt row = None
        \<or> LjState row = JobRunning \<and> LjStartedAt row \<noteq> None \<and> LjEndedAt row = None
        \<or> LjState row = JobDone \<and> LjEndedAt row \<noteq> None)"

definition validateLoadJobReference :: "LoadJobReference \<Rightarrow> go_error option" where
  "validateLoadJobReference r =
     (if blank (LrProjectID r) \<or> blank (LrLocation r) \<or> blank (LrJobID r) then Some [LoadErrInvalid] else None)"

definition loadJobRepositoryError :: "go_error \<Rightarrow> go_error" where
  "loadJobRepositoryError e =
     (if e = [ContextCanceled] \<or> e = [ContextDeadlineExceeded] then e else errors_New ''SQLite load jobs'')"

text \<open>The columns of a job, which are the job itself once its reference, configuration and digest are checked.\<close>

definition encodeLoadJob :: "LoadJob \<Rightarrow> go_error + LoadJob" where
  "encodeLoadJob job =
     (case validateLoadJobReference (LjReference job) of Some e \<Rightarrow> Inl e
      | None \<Rightarrow>
        (case NewJob (LjReference job) (LjConfiguration job) (LjCreatedAt job) of Inl e \<Rightarrow> Inl e
         | Inr validated \<Rightarrow>
           if LjConfigurationDigest validated \<noteq> LjConfigurationDigest job then Inl [LoadErrInvalid] else Inr job))"

fun coerce_field :: "Field \<Rightarrow> Field" where
  "coerce_field (MkField n t m d p s r fs) =
     MkField (utf8_coerce n) (utf8_coerce t) (utf8_coerce m) (utf8_coerce d) p s (utf8_coerce r) (map coerce_field fs)"

text \<open>What decoding the stored JSON of a configuration gives.\<close>

definition stored_configuration :: "LoadConfiguration \<Rightarrow> LoadConfiguration" where
  "stored_configuration c =
     \<lparr>LcSourceURIs = map utf8_coerce (LcSourceURIs c),
      LcDestination = \<lparr>LtProjectID = utf8_coerce (LtProjectID (LcDestination c)),
        LtDatasetID = utf8_coerce (LtDatasetID (LcDestination c)), LtTableID = utf8_coerce (LtTableID (LcDestination c))\<rparr>,
      LcSourceFormat = utf8_coerce (LcSourceFormat c), LcWriteDisposition = utf8_coerce (LcWriteDisposition c),
      LcCreateDisposition = utf8_coerce (LcCreateDisposition c), LcSchema = map coerce_field (LcSchema c),
      LcAutodetect = LcAutodetect c, LcSchemaUpdateOptions = map utf8_coerce (LcSchemaUpdateOptions c),
      LcIgnoreUnknownValues = LcIgnoreUnknownValues c, LcMaxBadRecords = LcMaxBadRecords c,
      LcUnsupportedOptions = map utf8_coerce (LcUnsupportedOptions c)\<rparr>"

definition scanLoadJob :: "LoadJob \<Rightarrow> go_error + LoadJob" where
  "scanLoadJob row =
     (case decodeTime (LjCreatedAt row) of Inl e \<Rightarrow> Inl e
      | Inr created \<Rightarrow>
        (case NewJob (LjReference row) (stored_configuration (LjConfiguration row)) created of Inl e \<Rightarrow> Inl e
         | Inr job \<Rightarrow>
           if LjConfigurationDigest job \<noteq> LjConfigurationDigest row then Inl (errors_New ''persisted load configuration digest'')
           else (case decodeOptionalTime (LjStartedAt row) of Inl e \<Rightarrow> Inl e
              | Inr started \<Rightarrow>
                (case decodeOptionalTime (LjEndedAt row) of Inl e \<Rightarrow> Inl e
                 | Inr ended \<Rightarrow>
                   Inr (job\<lparr>LjState := LjState row, LjError := LjError row, LjStatistics := LjStatistics row,
                            LjStartedAt := started, LjEndedAt := ended\<rparr>)))))"

text \<open>One statement: the fault that awaits it, or its effect.\<close>

definition next_fault :: "LoadDB \<Rightarrow> go_error option \<times> LoadDB" where
  "next_fault db = (case LdFaults db of [] \<Rightarrow> (None, db) | f # fs \<Rightarrow> (f, db\<lparr>LdFaults := fs\<rparr>))"

definition sqlite_GetLoadJob :: "LoadJobReference \<Rightarrow> LoadDB \<Rightarrow> (go_error + LoadJob) \<times> LoadDB" where
  "sqlite_GetLoadJob ref db =
     (case validateLoadJobReference ref of Some e \<Rightarrow> (Inl e, db)
      | None \<Rightarrow>
        (case next_fault db of
           (Some e, db) \<Rightarrow> (Inl (loadJobRepositoryError e), db)
         | (None, db) \<Rightarrow>
           (case gm_get (LdRows db) (load_key ref) of None \<Rightarrow> (Inl [LoadErrNotFound], db)
            | Some row \<Rightarrow> (case scanLoadJob row of Inl e \<Rightarrow> (Inl (loadJobRepositoryError e), db) | Inr job \<Rightarrow> (Inr job, db)))))"

definition sqlite_CreateOrGetLoadJob :: "LoadJob \<Rightarrow> LoadDB \<Rightarrow> (go_error + LoadJob \<times> bool) \<times> LoadDB" where
  "sqlite_CreateOrGetLoadJob job db =
     (case encodeLoadJob job of Inl e \<Rightarrow> (Inl e, db)
      | Inr row \<Rightarrow>
        (case next_fault db of
           (Some e, db) \<Rightarrow> (Inl (loadJobRepositoryError e), db)
         | (None, db) \<Rightarrow>
           if \<not> load_jobs_CHECK row then (Inl (errors_New ''SQLite load jobs''), db)
           else
             let free = (gm_get (LdRows db) (load_key (LjReference job)) = None);
                 db1 = (if free then db\<lparr>LdRows := gm_put (load_key (LjReference job)) row (LdRows db)\<rparr> else db) in
             case sqlite_GetLoadJob (LjReference job) db1 of
               (Inl e, db2) \<Rightarrow> (Inl e, db2)
             | (Inr stored, db2) \<Rightarrow> (Inr (stored, free), db2)))"

definition sqlite_UpdateLoadJob :: "LoadJob \<Rightarrow> LoadDB \<Rightarrow> go_error option \<times> LoadDB" where
  "sqlite_UpdateLoadJob job db =
     (case encodeLoadJob job of Inl e \<Rightarrow> (Some e, db)
      | Inr row \<Rightarrow>
        (case next_fault db of
           (Some e, db) \<Rightarrow> (Some (loadJobRepositoryError e), db)
         | (None, db) \<Rightarrow>
           (case gm_get (LdRows db) (load_key (LjReference job)) of None \<Rightarrow> (Some [LoadErrNotFound], db)
            | Some _ \<Rightarrow>
              if \<not> load_jobs_CHECK row then (Some (errors_New ''SQLite load jobs''), db)
              else (None, db\<lparr>LdRows := gm_put (load_key (LjReference job)) row (LdRows db)\<rparr>))))"

fun scan_rows :: "LoadJob list \<Rightarrow> go_error + LoadJob list" where
  "scan_rows [] = Inr []"
| "scan_rows (row # rows) =
     (case scanLoadJob row of Inl e \<Rightarrow> Inl e
      | Inr job \<Rightarrow> (case scan_rows rows of Inl e \<Rightarrow> Inl e | Inr jobs \<Rightarrow> Inr (job # jobs)))"

definition sqlite_ListLoadJobs :: "string \<Rightarrow> string \<Rightarrow> LoadDB \<Rightarrow> (go_error + LoadJob list) \<times> LoadDB" where
  "sqlite_ListLoadJobs project location db =
     (if blank project then (Inl [LoadErrInvalid], db)
      else case next_fault db of
        (Some e, db) \<Rightarrow> (Inl (loadJobRepositoryError e), db)
      | (None, db) \<Rightarrow>
        (case scan_rows (map snd (filter (\<lambda>((p, l, _), _). p = project \<and> (location = [] \<or> l = strings_ToUpper location)) (LdRows db))) of
           Inl e \<Rightarrow> (Inl (loadJobRepositoryError e), db)
         | Inr jobs \<Rightarrow> (Inr (sort_key job_order jobs), db)))"

definition sqlite_jobs :: "LoadDB LoadJobRepository" where
  "sqlite_jobs = \<lparr>JrCreateOrGet = sqlite_CreateOrGetLoadJob, JrUpdate = sqlite_UpdateLoadJob, JrGet = sqlite_GetLoadJob,
     JrList = sqlite_ListLoadJobs\<rparr>"

text \<open>The load jobs part of \<open>reconcileInterruptedJobs\<close>, which runs when the database is opened.\<close>

definition interrupted_job :: "time \<Rightarrow> LoadJob \<Rightarrow> LoadJob" where
  "interrupted_job now j =
     (if LjState j = JobDone then j
      else j\<lparr>LjState := JobDone, LjEndedAt := Some now,
             LjError := Some \<lparr>LeReason = ''backendError'', LeMessage = ''load job was interrupted by emulator restart''\<rparr>\<rparr>)"

definition reconcileInterruptedJobs :: "time \<Rightarrow> LoadDB \<Rightarrow> go_error option \<times> LoadDB" where
  "reconcileInterruptedJobs now db =
     (case next_fault db of
        (Some e, db) \<Rightarrow> (Some e, db)
      | (None, db) \<Rightarrow> (None, db\<lparr>LdRows := map (\<lambda>(k, j). (k, interrupted_job now j)) (LdRows db)\<rparr>))"

section \<open>The repositories keep the contract\<close>

lemma job_before_sorted: "sorted (map job_order js) \<longleftrightarrow> sorted_wrt job_before js"
proof -
  have "job_order a \<le> job_order b \<longleftrightarrow> job_before a b" for a b
    by (auto simp: job_order_def job_before_def)
  then show ?thesis by (simp add: sorted_map sorted_wrt_map)
qed

definition memory_ok :: "MemoryJobRepository \<Rightarrow> bool" where
  "memory_ok jobs \<longleftrightarrow> gm_ok jobs \<and> (\<forall>k j. gm_get jobs k = Some j \<longrightarrow> k = jobKey (LjReference j) \<and> job_ok j \<and> job_text j)"

lemma memory_ok_put:
  "memory_ok jobs \<Longrightarrow> job_ok j \<Longrightarrow> job_text j \<Longrightarrow> memory_ok (gm_put (jobKey (LjReference j)) j jobs)"
  by (simp add: memory_ok_def)

lemma memory_List_set:
  assumes "memory_ok jobs"
  shows "set (sort_key job_order (map LoadJob_Clone
      (filter (\<lambda>j. LrProjectID (LjReference j) = project \<and> (location = [] \<or> LrLocation (LjReference j) = location)) (map snd jobs))))
    = {j. (\<exists>k. gm_get jobs k = Some j) \<and> LrProjectID (LjReference j) = project
          \<and> (location = [] \<or> LrLocation (LjReference j) = location)}"
proof -
  have "LoadJob_Clone j = j" if "j \<in> snd ` set jobs" for j
    using that assms gm_get_in [of jobs] by (force simp: memory_ok_def intro: LoadJob_Clone_ok)
  moreover have "j \<in> snd ` set jobs \<longleftrightarrow> (\<exists>k. gm_get jobs k = Some j)" for j
    using assms gm_get_in [of jobs] by (force simp: memory_ok_def)
  ultimately show ?thesis by (force simp: image_iff)
qed

interpretation memory: load_jobs memory_jobs memory_ok jobKey gm_get "(=)"
proof
  fix jobs k j
  assume "memory_ok jobs" "gm_get jobs k = Some j"
  then show "k = jobKey (LjReference j) \<and> job_ok j \<and> job_text j" by (simp add: memory_ok_def)
next
  fix jobs jobs' :: MemoryJobRepository and j stored
  assume "memory_ok jobs" "job_ok j" "job_text j" "JrCreateOrGet memory_jobs j jobs = (Inr (stored, True), jobs')"
  then show "memory_ok jobs' \<and> stored = j \<and> gm_get jobs (jobKey (LjReference j)) = None
      \<and> gm_get jobs' = (gm_get jobs)(jobKey (LjReference j) \<mapsto> j)"
    by (auto simp: memory_jobs_def memory_CreateOrGet_def LoadJob_Clone_ok memory_ok_put split: option.splits)
next
  fix jobs jobs' :: MemoryJobRepository and j stored
  assume a: "memory_ok jobs" "job_ok j" "job_text j" "JrCreateOrGet memory_jobs j jobs = (Inr (stored, False), jobs')"
  then have "\<exists>existing. gm_get jobs (jobKey (LjReference j)) = Some existing \<and> stored = LoadJob_Clone existing \<and> jobs' = jobs"
    by (auto simp: memory_jobs_def memory_CreateOrGet_def split: option.splits)
  with a(1) show "memory_ok jobs' \<and> gm_get jobs' = gm_get jobs \<and> gm_get jobs (jobKey (LjReference j)) = Some stored"
    by (auto simp: memory_ok_def LoadJob_Clone_ok)
next
  fix jobs jobs' :: MemoryJobRepository and j e
  assume "memory_ok jobs" "JrCreateOrGet memory_jobs j jobs = (Inl e, jobs')"
  then show "memory_ok jobs' \<and> (gm_get jobs' = gm_get jobs \<or> gm_get jobs (jobKey (LjReference j)) = None
      \<and> gm_get jobs' = (gm_get jobs)(jobKey (LjReference j) \<mapsto> j))"
    by (auto simp: memory_jobs_def memory_CreateOrGet_def split: option.splits)
next
  fix jobs jobs' :: MemoryJobRepository and j
  assume "memory_ok jobs" "job_ok j" "job_text j" "JrUpdate memory_jobs j jobs = (None, jobs')"
  then show "memory_ok jobs' \<and> gm_get jobs (jobKey (LjReference j)) \<noteq> None
      \<and> gm_get jobs' = (gm_get jobs)(jobKey (LjReference j) \<mapsto> j)"
    by (auto simp: memory_jobs_def memory_Update_def LoadJob_Clone_ok memory_ok_put split: option.splits)
next
  fix jobs jobs' :: MemoryJobRepository and j e
  assume "memory_ok jobs" "JrUpdate memory_jobs j jobs = (Some e, jobs')"
  then show "memory_ok jobs' \<and> gm_get jobs' = gm_get jobs"
    by (auto simp: memory_jobs_def memory_Update_def split: option.splits)
next
  fix jobs jobs' :: MemoryJobRepository and ref res
  assume a: "memory_ok jobs" "JrGet memory_jobs ref jobs = (res, jobs')"
  then show "memory_ok jobs' \<and> gm_get jobs' = gm_get jobs
      \<and> (case res of Inl e \<Rightarrow> LoadErrNotFound \<in> set e \<longrightarrow> gm_get jobs (jobKey ref) = None
         | Inr j \<Rightarrow> gm_get jobs (jobKey ref) = Some j)"
    by (auto simp: memory_jobs_def memory_Get_def memory_ok_def LoadJob_Clone_ok split: option.splits)
next
  fix jobs jobs' :: MemoryJobRepository and project location listed
  assume a: "memory_ok jobs" "JrList memory_jobs project location jobs = (listed, jobs')"
  then show "memory_ok jobs' \<and> gm_get jobs' = gm_get jobs
      \<and> (case listed of Inl e \<Rightarrow> True
         | Inr js \<Rightarrow> sorted_wrt job_before js
             \<and> set js = {j. (\<exists>k. gm_get jobs k = Some j) \<and> LrProjectID (LjReference j) = project
                            \<and> (location = [] \<or> LrLocation (LjReference j) = location)})"
    using memory_List_set [OF a(1)] by (auto simp: memory_jobs_def memory_List_def simp flip: job_before_sorted)
qed

subsection \<open>The table\<close>

lemma coerce_field_valid: "json_valid_strings (json_field f) \<Longrightarrow> coerce_field f = f"
proof (induction f)
  case (MkField n t m d p s r fs)
  then have "map coerce_field fs = fs"
    by (intro map_idI) (auto simp: field_object_def list_all_iff)
  with MkField.prems show ?case by (simp add: field_object_def utf8_coerce_valid)
qed

lemma json_strings_valid: "json_valid_strings (json_strings ss) \<longleftrightarrow> list_all utf8_valid ss"
  by (auto simp: json_strings_def list_all_iff)

lemma stored_configuration_valid:
  assumes "json_valid_strings (configuration_document c)"
  shows "stored_configuration c = c"
proof -
  have strings: "map utf8_coerce ss = ss" if "list_all utf8_valid ss" for ss
    using that by (intro map_idI) (auto simp: list_all_iff utf8_coerce_valid)
  have "map coerce_field (LcSchema c) = LcSchema c"
    using assms by (intro map_idI coerce_field_valid) (auto simp: configuration_document_def json_fields_def list_all_iff)
  then show ?thesis using assms
    by (simp add: stored_configuration_def configuration_document_def json_strings_valid strings utf8_coerce_valid)
qed

lemma scanLoadJob_ok:
  assumes "job_ok j" "job_text j" "scanLoadJob j = Inr job"
  shows "job = j"
  using assms job_ok_NewJob [OF assms(1)]
  by (auto simp: scanLoadJob_def job_text_def stored_configuration_valid decodeTime_Inr decodeOptionalTime_Inr
      split: sum.splits if_splits)

definition sqlite_ok :: "LoadDB \<Rightarrow> bool" where
  "sqlite_ok db \<longleftrightarrow>
     gm_ok (LdRows db)
     \<and> (\<forall>k j. gm_get (LdRows db) k = Some j \<longrightarrow> k = load_key (LjReference j) \<and> job_ok j \<and> job_text j \<and> load_jobs_CHECK j
          \<and> validateLoadJobReference (LjReference j) = None)"

abbreviation load_view :: "LoadDB \<Rightarrow> string \<times> string \<times> string \<rightharpoonup> LoadJob" where
  "load_view db \<equiv> gm_get (LdRows db)"

lemma sqlite_okD:
  "sqlite_ok db \<Longrightarrow> load_view db k = Some j \<Longrightarrow> k = load_key (LjReference j) \<and> job_ok j \<and> job_text j \<and> load_jobs_CHECK j
     \<and> validateLoadJobReference (LjReference j) = None"
  unfolding sqlite_ok_def by blast

lemma next_fault_rows [simp]:
  "next_fault db = (f, db') \<Longrightarrow> LdRows db' = LdRows db" "next_fault db = (f, db') \<Longrightarrow> sqlite_ok db' = sqlite_ok db"
  by (auto simp: next_fault_def sqlite_ok_def split: list.splits)

lemma sqlite_ok_put:
  "sqlite_ok db \<Longrightarrow> job_ok j \<Longrightarrow> job_text j \<Longrightarrow> load_jobs_CHECK j \<Longrightarrow> validateLoadJobReference (LjReference j) = None \<Longrightarrow>
   sqlite_ok (db\<lparr>LdRows := gm_put (load_key (LjReference j)) j (LdRows db)\<rparr>)"
  by (simp add: sqlite_ok_def)

lemma encodeLoadJob_Inr: "encodeLoadJob j = Inr row \<Longrightarrow> row = j \<and> validateLoadJobReference (LjReference j) = None"
  by (auto simp: encodeLoadJob_def split: option.splits sum.splits if_splits)

lemma sqlite_GetLoadJob_cases:
  assumes "sqlite_ok db" "sqlite_GetLoadJob ref db = (res, db')"
  shows "sqlite_ok db' \<and> LdRows db' = LdRows db
    \<and> (case res of Inr j \<Rightarrow> load_view db (load_key ref) = Some j
       | Inl e \<Rightarrow> (LoadErrNotFound \<in> set e \<longrightarrow> load_view db (load_key ref) = None))"
proof (cases "validateLoadJobReference ref")
  case (Some e)
  then show ?thesis using assms by (auto simp: sqlite_GetLoadJob_def validateLoadJobReference_def split: if_splits)
next
  case None
  obtain f db1 where f: "next_fault db = (f, db1)" by (cases "next_fault db")
  have not_found: "LoadErrNotFound \<notin> set (loadJobRepositoryError e)" for e by (auto simp: loadJobRepositoryError_def)
  have scan: "job = row" if "load_view db k = Some row" "scanLoadJob row = Inr job" for k row job
    using that scanLoadJob_ok sqlite_okD [OF assms(1)] by blast
  show ?thesis
    using assms None f not_found scan [of "load_key ref"]
    by (auto simp: sqlite_GetLoadJob_def split: option.splits sum.splits)
qed

lemma sqlite_CreateOrGet_cases:
  assumes "sqlite_ok db" "job_ok j" "job_text j" "sqlite_CreateOrGetLoadJob j db = (res, db')"
  shows "sqlite_ok db'
    \<and> (case res of
         Inl e \<Rightarrow> LdRows db' = LdRows db
           \<or> load_view db (load_key (LjReference j)) = None \<and> load_view db' = (load_view db)(load_key (LjReference j) \<mapsto> j)
       | Inr (stored, True) \<Rightarrow> stored = j \<and> load_view db (load_key (LjReference j)) = None
           \<and> load_view db' = (load_view db)(load_key (LjReference j) \<mapsto> j)
       | Inr (stored, False) \<Rightarrow> load_view db (load_key (LjReference j)) = Some stored \<and> LdRows db' = LdRows db)"
proof (cases "encodeLoadJob j")
  case (Inl e)
  then show ?thesis using assms by (auto simp: sqlite_CreateOrGetLoadJob_def)
next
  case (Inr row)
  then have row: "row = j" "validateLoadJobReference (LjReference j) = None" using encodeLoadJob_Inr by blast+
  obtain f db0 where f: "next_fault db = (f, db0)" by (cases "next_fault db")
  show ?thesis
  proof (cases "f = None \<and> load_jobs_CHECK j")
    case False
    then show ?thesis using assms f Inr row by (auto simp: sqlite_CreateOrGetLoadJob_def split: option.splits if_splits)
  next
    case True
    define free where "free = (load_view db0 (load_key (LjReference j)) = None)"
    define db1 where "db1 = (if free then db0\<lparr>LdRows := gm_put (load_key (LjReference j)) j (LdRows db0)\<rparr> else db0)"
    obtain got db2 where got: "sqlite_GetLoadJob (LjReference j) db1 = (got, db2)" by fastforce
    have ok0: "sqlite_ok db0" using assms(1) f by simp
    have db1: "sqlite_ok db1" "LdRows db0 = LdRows db"
      using sqlite_ok_put [OF ok0 assms(2,3)] row(2) True ok0 f by (simp_all add: db1_def)
    have res: "(res, db') = (case got of Inl e \<Rightarrow> Inl e | Inr stored \<Rightarrow> Inr (stored, free), db2)"
      using assms(4) Inr row f True got
      by (auto simp: sqlite_CreateOrGetLoadJob_def free_def db1_def Let_def split: sum.splits if_splits)
    show ?thesis
      using sqlite_GetLoadJob_cases [OF db1(1) got] res db1(2)
      by (cases free) (auto simp: db1_def free_def split: sum.splits)
  qed
qed

lemma sqlite_UpdateLoadJob_cases:
  assumes "sqlite_ok db" "job_ok j" "job_text j" "sqlite_UpdateLoadJob j db = (res, db')"
  shows "sqlite_ok db'
    \<and> (case res of Some e \<Rightarrow> LdRows db' = LdRows db
       | None \<Rightarrow> load_view db (load_key (LjReference j)) \<noteq> None \<and> load_view db' = (load_view db)(load_key (LjReference j) \<mapsto> j))"
proof -
  obtain f db0 where f: "next_fault db = (f, db0)" by (cases "next_fault db")
  have ok0: "sqlite_ok db0" using assms(1) f by simp
  show ?thesis
    using assms f sqlite_ok_put [OF ok0 assms(2,3)]
    by (auto simp: sqlite_UpdateLoadJob_def dest: encodeLoadJob_Inr split: sum.splits option.splits if_splits)
qed

lemma scan_rows_Inr: "scan_rows rows = Inr jobs \<Longrightarrow> \<forall>row \<in> set rows. job_ok row \<and> job_text row \<Longrightarrow> jobs = rows"
  by (induction rows arbitrary: jobs) (auto dest: scanLoadJob_ok split: sum.splits)

lemma sqlite_rows:
  assumes "sqlite_ok db"
  shows "set (map snd (filter (\<lambda>((p, l, _), _). p = project \<and> (location = [] \<or> l = strings_ToUpper location)) (LdRows db)))
    = {j. (\<exists>k. load_view db k = Some j) \<and> LrProjectID (LjReference j) = project
          \<and> (location = [] \<or> strings_ToUpper (LrLocation (LjReference j)) = strings_ToUpper location)}"
proof -
  have in_rows: "(k, j) \<in> set (LdRows db) \<longleftrightarrow> load_view db k = Some j" for k j
    using assms gm_get_in [of "LdRows db" k j] by (simp add: sqlite_ok_def)
  have key: "k = load_key (LjReference j)" if "load_view db k = Some j" for k j
    using sqlite_okD [OF assms that] by blast
  show ?thesis
  proof (intro set_eqI iffI, goal_cases)
    case (1 j)
    then obtain p l i where "load_view db (p, l, i) = Some j" "p = project" "location = [] \<or> l = strings_ToUpper location"
      using in_rows by auto
    with key show ?case by (force simp: load_key_def)
  next
    case (2 j)
    then obtain k where "load_view db k = Some j" by blast
    then have "(load_key (LjReference j), j) \<in> set (LdRows db)" using in_rows key by blast
    with 2 show ?case by (force simp: load_key_def)
  qed
qed

lemma sqlite_ListLoadJobs_cases:
  assumes "sqlite_ok db" "sqlite_ListLoadJobs project location db = (listed, db')"
  shows "sqlite_ok db' \<and> LdRows db' = LdRows db
    \<and> (case listed of Inl e \<Rightarrow> True
       | Inr js \<Rightarrow> sorted_wrt job_before js
           \<and> set js = {j. (\<exists>k. load_view db k = Some j) \<and> LrProjectID (LjReference j) = project
                 \<and> (location = [] \<or> strings_ToUpper (LrLocation (LjReference j)) = strings_ToUpper location)})"
proof -
  let ?rows = "map snd (filter (\<lambda>((p, l, _), _). p = project \<and> (location = [] \<or> l = strings_ToUpper location)) (LdRows db))"
  obtain f db0 where f: "next_fault db = (f, db0)" by (cases "next_fault db")
  have "\<forall>row \<in> set ?rows. job_ok row \<and> job_text row"
    unfolding sqlite_rows [OF assms(1)] using sqlite_okD [OF assms(1)] by blast
  then have scan: "jobs = ?rows" if "scan_rows ?rows = Inr jobs" for jobs using scan_rows_Inr [OF that] by blast
  have db': "sqlite_ok db'" "LdRows db' = LdRows db"
    using assms f by (auto simp: sqlite_ListLoadJobs_def split: if_splits option.splits sum.splits)
  show ?thesis
  proof (cases listed)
    case (Inr js)
    then have "js = sort_key job_order ?rows"
      using assms(2) f scan by (auto simp: sqlite_ListLoadJobs_def split: if_splits option.splits sum.splits)
    moreover have "sorted_wrt job_before (sort_key job_order ?rows)" unfolding job_before_sorted [symmetric] by simp
    ultimately show ?thesis using db' Inr sqlite_rows [OF assms(1), of project location] by simp
  qed (use db' in simp)
qed

interpretation table: load_jobs sqlite_jobs sqlite_ok load_key load_view "\<lambda>a b. strings_ToUpper a = strings_ToUpper b"
proof
  fix db k j
  assume "sqlite_ok db" "load_view db k = Some j"
  then show "k = load_key (LjReference j) \<and> job_ok j \<and> job_text j" using sqlite_okD by blast
next
  fix db db' j e
  assume "sqlite_ok db" "job_ok j" "job_text j" "JrCreateOrGet sqlite_jobs j db = (Inl e, db')"
  then show "sqlite_ok db' \<and> (load_view db' = load_view db \<or> load_view db (load_key (LjReference j)) = None
      \<and> load_view db' = (load_view db)(load_key (LjReference j) \<mapsto> j))"
    using sqlite_CreateOrGet_cases [of db j "Inl e" db'] by (auto simp: sqlite_jobs_def)
qed (auto simp: sqlite_jobs_def dest: sqlite_CreateOrGet_cases sqlite_UpdateLoadJob_cases sqlite_GetLoadJob_cases sqlite_ListLoadJobs_cases)

end
