(* ===== verification/Load_Plan.thy ===== *)
theory Load_Plan
  imports Load_Domain Engine_Plan
begin

text \<open>
  \<open>internal/loadjob/ports/load_plan.go\<close>: a load planner checks a load against the capabilities of its engine and the schema plan,
  lets the adapter check it, and seals it; before the load runs, the plan and the local artifacts are checked
  again. The adapter's check is a parameter that returns a digest or an error.
\<close>

section \<open>Errors\<close>

definition load_planning_sentinel :: "LoadPlanningErrorCode \<Rightarrow> sentinel" where
  "load_planning_sentinel code =
     (case code of LoadPlanningUnsupported \<Rightarrow> LoadErrUnsupported
      | LoadPlanningPrecondition \<Rightarrow> LoadErrPrecondition
      | LoadPlanningInvalid \<Rightarrow> LoadErrInvalid)"

definition load_planning_error :: "LoadPlanningErrorCode \<Rightarrow> string \<Rightarrow> go_error \<Rightarrow> go_error" where
  "load_planning_error code capability cause =
     ErrLoadPlanning code capability # load_planning_sentinel code # cause"

definition UnsupportedLoadPlan :: "string \<Rightarrow> go_error" where
  "UnsupportedLoadPlan capability =
     load_planning_error LoadPlanningUnsupported
       (if correlationPattern capability then capability else ''LOAD_ADAPTER_CAPABILITY'') []"

definition StaleLoadPlan :: go_error where
  "StaleLoadPlan = load_planning_error LoadPlanningPrecondition ''LOAD_PLAN_BINDING'' []"

definition InvalidLoadPlan :: go_error where
  "InvalidLoadPlan = load_planning_error LoadPlanningInvalid ''LOAD_INPUT'' []"

definition is_load_planning :: "sentinel \<Rightarrow> bool" where
  "is_load_planning s \<longleftrightarrow> (case s of ErrLoadPlanning _ _ \<Rightarrow> True | _ \<Rightarrow> False)"

definition classifyAdapterPlanningError :: "go_error \<Rightarrow> go_error" where
  "classifyAdapterPlanningError e =
     (if e = [ContextCanceled] \<or> e = [ContextDeadlineExceeded] then e
      else if list_ex is_load_planning e then dropWhile (\<lambda>s. \<not> is_load_planning s) e
      else load_planning_error LoadPlanningUnsupported ''LOAD_ADAPTER_CAPABILITY'' e)"

section \<open>Requests and plans\<close>

record ResolvedObject =
  RoFingerprint :: string
  RoSize :: int

record LocalObject =
  LlPath :: string
  LlFingerprint :: string
  LlSize :: int

record LoadPlanRequest =
  LqDestination :: LoadTable
  LqSchemaPlan :: SchemaPlan
  LqSourceFormat :: string
  LqWriteDisposition :: string
  LqObjects :: "ResolvedObject list"

record LoadPlan =
  LpEngineIdentity :: Identity
  LpCapabilityFingerprint :: string
  LpRequest :: LoadPlanRequest
  LpRequestFingerprint :: string
  LpAdapterProof :: string
  LpFingerprint :: string
  LpIssuer :: "issuer option"

record LoadPlanner =
  LnCapabilities :: Capabilities
  LnAdapter :: "(LoadPlanRequest \<Rightarrow> go_error + string) option"
  LnIssuer :: "issuer option"

definition fingerprintValid :: "string \<Rightarrow> bool" where
  "fingerprintValid v \<longleftrightarrow> length v = 64 \<and> list_all is_hex v"

definition NewLoadPlanner ::
  "issuer \<Rightarrow> Capabilities \<Rightarrow> (LoadPlanRequest \<Rightarrow> go_error + string) option \<Rightarrow> go_error + LoadPlanner" where
  "NewLoadPlanner fresh c adapter =
     (case NewCapabilities (Capabilities_Descriptor c) of
        Inl _ \<Rightarrow> Inl [LoadErrInvalid]
      | Inr detached \<Rightarrow>
          if CpFingerprint c = [] \<or> CpFingerprint detached \<noteq> CpFingerprint c then Inl [LoadErrInvalid]
          else if adapter = None then Inl [LoadErrInvalid]
          else Inr \<lparr>LnCapabilities = detached, LnAdapter = adapter, LnIssuer = Some fresh\<rparr>)"

definition catalog_reference :: "LoadTableReference \<Rightarrow> DomainTableReference" where
  "catalog_reference r = \<lparr>DrProjectID = LtProjectID r, DrDatasetID = LtDatasetID r, DrTableID = LtTableID r\<rparr>"

text \<open>The loop over the resolved objects.\<close>

fun check_objects :: "string list \<Rightarrow> ResolvedObject list \<Rightarrow> go_error option" where
  "check_objects seen [] = None"
| "check_objects seen (object # rest) =
     (if \<not> fingerprintValid (RoFingerprint object) \<or> RoSize object < 0 then Some [LoadErrInvalid]
      else if RoFingerprint object \<in> set seen then Some [LoadErrInvalid]
      else check_objects (RoFingerprint object # seen) rest)"

definition validateLoadPlanRequest :: "Capabilities \<Rightarrow> LoadPlanRequest \<Rightarrow> go_error option" where
  "validateLoadPlanRequest c r =
     (let schemaPlan = LqSchemaPlan r; intent = SqIntent schemaPlan; target = catalog_reference (LoReference (LqDestination r)) in
      if SqFingerprint schemaPlan = [] \<or> SqEngineIdentity schemaPlan \<noteq> CpIdentity c
         \<or> SqCapabilityFingerprint schemaPlan \<noteq> CpFingerprint c
      then Some [LoadErrPrecondition]
      else if SiOperation intent \<noteq> SchemaOperationValidate \<or> SiTarget intent \<noteq> target
         \<or> SiAfterSchema intent \<noteq> LoSchema (LqDestination r)
      then Some [LoadErrPrecondition]
      else case Table_Validate (logical_table target (LoSchema (LqDestination r))) of
        Some e \<Rightarrow> Some [if errors_Is e ErrUnsupported then LoadErrUnsupported else LoadErrInvalid]
      | None \<Rightarrow>
        if \<not> validSourceFormat (LqSourceFormat r) then Some [LoadErrInvalid]
        else if \<not> validWriteDisposition (LqWriteDisposition r) then Some [LoadErrInvalid]
        else if \<not> SupportsTransaction c TransactionScopeSingleTable then Some (UnsupportedLoadPlan ''LOAD_TRANSACTION_SINGLE_TABLE'')
        else if LqWriteDisposition r = WriteTruncate \<and> \<not> SupportsAtomicReplacement c AtomicReplacementTable
        then Some (UnsupportedLoadPlan ''LOAD_ATOMIC_REPLACEMENT_TABLE'')
        else if LqObjects r = [] then Some [LoadErrInvalid]
        else check_objects [] (LqObjects r))"

definition request_document :: "LoadPlanRequest \<Rightarrow> json" where
  "request_document r =
     JObject [(''destination'', JObject [(''ProjectID'', JString (LtProjectID (LoReference (LqDestination r)))),
          (''DatasetID'', JString (LtDatasetID (LoReference (LqDestination r)))),
          (''TableID'', JString (LtTableID (LoReference (LqDestination r))))]),
       (''location'', JString (LoLocation (LqDestination r))), (''schema'', json_fields (LoSchema (LqDestination r))),
       (''schemaPlan'', JString (SqFingerprint (LqSchemaPlan r))), (''sourceFormat'', JString (LqSourceFormat r)),
       (''writeDisposition'', JString (LqWriteDisposition r)),
       (''objects'', json_array (map (\<lambda>x. JObject [(''Fingerprint'', JString (RoFingerprint x)), (''Size'', JInt (RoSize x))])
          (LqObjects r)))]"

definition loadPlanRequestFingerprint :: "LoadPlanRequest \<Rightarrow> string" where
  "loadPlanRequestFingerprint r = json_digest (request_document r)"

definition loadPlanFingerprint :: "LoadPlan \<Rightarrow> string" where
  "loadPlanFingerprint p =
     json_digest (JObject [(''engineIdentity'', JString (IdID (LpEngineIdentity p) @ ''@'' @ IdVersion (LpEngineIdentity p))),
       (''capabilityFingerprint'', JString (LpCapabilityFingerprint p)),
       (''requestFingerprint'', JString (LpRequestFingerprint p)), (''adapterProof'', JString (LpAdapterProof p))])"

definition LoadPlanner_Plan :: "LoadPlanner \<Rightarrow> LoadPlanRequest \<Rightarrow> go_error + LoadPlan" where
  "LoadPlanner_Plan planner request =
     (case (LnIssuer planner, LnAdapter planner) of
        (Some issuer, Some adapter) \<Rightarrow>
          (case validateLoadPlanRequest (LnCapabilities planner) request of Some e \<Rightarrow> Inl e
           | None \<Rightarrow>
             (case adapter request of Inl e \<Rightarrow> Inl (classifyAdapterPlanningError e)
              | Inr proof \<Rightarrow>
                if \<not> fingerprintValid proof then Inl [LoadErrInvalid]
                else
                  let p = \<lparr>LpEngineIdentity = CpIdentity (LnCapabilities planner),
                           LpCapabilityFingerprint = CpFingerprint (LnCapabilities planner), LpRequest = request,
                           LpRequestFingerprint = loadPlanRequestFingerprint request, LpAdapterProof = proof,
                           LpFingerprint = [], LpIssuer = Some issuer\<rparr> in
                  Inr (p\<lparr>LpFingerprint := loadPlanFingerprint p\<rparr>)))
      | _ \<Rightarrow> Inl [LoadErrPrecondition])"

definition local_object_matches :: "LocalObject \<Rightarrow> ResolvedObject \<Rightarrow> bool" where
  "local_object_matches object planned \<longleftrightarrow>
     \<not> blank (LlPath object) \<and> LlFingerprint object = RoFingerprint planned \<and> LlSize object = RoSize planned"

definition ValidateExecution :: "LoadPlanner \<Rightarrow> LoadPlan \<Rightarrow> LocalObject list \<Rightarrow> go_error + LoadPlanRequest" where
  "ValidateExecution planner p objects =
     (case (LnIssuer planner, LnAdapter planner) of
        (Some issuer, Some adapter) \<Rightarrow>
          if LpFingerprint p = [] \<or> LpFingerprint p \<noteq> loadPlanFingerprint p
             \<or> LpRequestFingerprint p = [] \<or> LpRequestFingerprint p \<noteq> loadPlanRequestFingerprint (LpRequest p)
          then Inl [LoadErrInvalid]
          else if LpEngineIdentity p \<noteq> CpIdentity (LnCapabilities planner)
             \<or> LpCapabilityFingerprint p \<noteq> CpFingerprint (LnCapabilities planner) \<or> LpIssuer p \<noteq> LnIssuer planner
          then Inl [LoadErrPrecondition]
          else if length objects \<noteq> length (LqObjects (LpRequest p)) then Inl [LoadErrPrecondition]
          else if \<not> list_all2 local_object_matches objects (LqObjects (LpRequest p)) then Inl [LoadErrPrecondition]
          else (case adapter (LpRequest p) of Inl e \<Rightarrow> Inl (classifyAdapterPlanningError e)
             | Inr proof \<Rightarrow> if proof \<noteq> LpAdapterProof p then Inl [LoadErrPrecondition] else Inr (LpRequest p))
      | _ \<Rightarrow> Inl [LoadErrPrecondition])"

section \<open>A plan validates its own objects\<close>

lemma json_digest_nonempty [simp]: "json_digest j \<noteq> []" "[] \<noteq> json_digest j"
  using json_digest_hex(1) [of j] by (metis list.size(3) zero_neq_numeral)+

lemma LoadPlanner_Plan_Inr:
  assumes "LoadPlanner_Plan planner request = Inr p"
  obtains issuer adapter digest where "LnIssuer planner = Some issuer" "LnAdapter planner = Some adapter"
    "validateLoadPlanRequest (LnCapabilities planner) request = None" "adapter request = Inr digest"
    "LpAdapterProof p = digest" "LpRequest p = request" "LpIssuer p = LnIssuer planner"
    "LpEngineIdentity p = CpIdentity (LnCapabilities planner)"
    "LpCapabilityFingerprint p = CpFingerprint (LnCapabilities planner)"
    "LpRequestFingerprint p = loadPlanRequestFingerprint request" "LpFingerprint p = loadPlanFingerprint p"
  using assms by (auto simp: LoadPlanner_Plan_def Let_def loadPlanFingerprint_def split: option.splits sum.splits if_splits)

lemma ValidateExecution_planned:
  assumes "LoadPlanner_Plan planner request = Inr p"
    and "list_all2 local_object_matches objects (LqObjects request)"
  shows "ValidateExecution planner p objects = Inr request"
proof -
  obtain issuer adapter digest where "LnIssuer planner = Some issuer" "LnAdapter planner = Some adapter"
    "adapter request = Inr digest" "LpAdapterProof p = digest" "LpRequest p = request" "LpIssuer p = LnIssuer planner"
    "LpEngineIdentity p = CpIdentity (LnCapabilities planner)"
    "LpCapabilityFingerprint p = CpFingerprint (LnCapabilities planner)"
    "LpRequestFingerprint p = loadPlanRequestFingerprint request" "LpFingerprint p = loadPlanFingerprint p"
    by (rule LoadPlanner_Plan_Inr [OF assms(1)])
  moreover have "loadPlanFingerprint p \<noteq> []" "loadPlanRequestFingerprint request \<noteq> []"
    by (simp_all add: loadPlanFingerprint_def loadPlanRequestFingerprint_def)
  ultimately show ?thesis using assms(2) list_all2_lengthD [OF assms(2)]
    by (simp add: ValidateExecution_def)
qed

end
