(* ===== verification/Load_Sources.thy ===== *)
theory Load_Sources
  imports Load_Plan "HOL-Library.Multiset"
begin

text \<open>
  The sources of a load job in \<open>internal/loadjob/application/service.go\<close>: the limits of the service, the resolution of the source
  patterns to a bounded set of objects, and the download of these objects.

  The answers that the object store, the table catalog, the file system, the clock and the context give during one execution
  are collected in \<open>ExecutionEnv\<close>; an answer is indexed by the position of its call, so that two calls need not agree. \<open>range\<close>
  over a map is an answer too: it may list the values in any order.

  The lemmas show what a resolved set is, that it does not depend on the order of the map, and that the downloaded files are
  the resolved objects.
\<close>

section \<open>Configuration\<close>

record LoadServiceConfig =
  LfDefaultLocation :: string
  LfOperationTimeout :: int
  LfMaxObjects :: int
  LfMaxObjectBytes :: int
  LfMaxTotalBytes :: int
  LfTempDirectory :: string

definition load_DefaultConfig :: "string \<Rightarrow> LoadServiceConfig" where
  "load_DefaultConfig temp =
     \<lparr>LfDefaultLocation = ''US'', LfOperationTimeout = 120 * 1000000000, LfMaxObjects = 1000,
      LfMaxObjectBytes = 2 ^ 30, LfMaxTotalBytes = 4 * 2 ^ 30, LfTempDirectory = temp\<rparr>"

definition LoadServiceConfig_Validate :: "LoadServiceConfig \<Rightarrow> go_error option" where
  "LoadServiceConfig_Validate c =
     (if blank (LfDefaultLocation c) then Some [LoadErrInvalid]
      else if LfOperationTimeout c \<le> 0 \<or> LfMaxObjects c \<le> 0 \<or> LfMaxObjectBytes c \<le> 0 \<or> LfMaxTotalBytes c \<le> 0
      then Some [LoadErrInvalid]
      else if blank (LfTempDirectory c) then Some [LoadErrInvalid]
      else None)"

section \<open>Ports\<close>

record ObjectInfo =
  OiURI :: string
  OiSize :: int
  OiGeneration :: string
  OiETag :: string

text \<open>
  What one download meets: the state of the context, the errors of opening and creating the two files, the bytes the
  object delivers before its end or its read error, an error of writing them, and the errors of closing.
\<close>

record DownloadAnswers =
  DaContext :: "go_error option"
  DaOpen :: "go_error option"
  DaCreate :: "go_error option"
  DaPayload :: nat
  DaReadError :: "go_error option"
  DaWriteError :: "go_error option"
  DaCloseFile :: "go_error option"
  DaCloseReader :: "go_error option"

record ExecutionEnv =
  EvGetTable :: "LoadTableReference \<Rightarrow> go_error + LoadTable"
  EvList :: "nat \<Rightarrow> string \<Rightarrow> go_error + ObjectInfo list"
  EvGet :: "nat \<Rightarrow> string \<Rightarrow> go_error + ObjectInfo"
  EvRange :: "(string, ObjectInfo) gomap \<Rightarrow> ObjectInfo list"
  EvMkdirTemp :: "go_error + string"
  EvChmod :: "go_error option"
  EvRemoveAll :: "go_error option"
  EvDownload :: "nat \<Rightarrow> DownloadAnswers"
  EvStartedAt :: time
  EvEndedAt :: time

section \<open>Objects\<close>

definition objectIdentityChanged :: "ObjectInfo \<Rightarrow> ObjectInfo \<Rightarrow> bool" where
  "objectIdentityChanged l r \<longleftrightarrow>
     (if OiGeneration l \<noteq> [] \<and> OiGeneration r \<noteq> [] \<and> OiGeneration l \<noteq> OiGeneration r then True
      else OiETag l \<noteq> [] \<and> OiETag r \<noteq> [] \<and> OiETag l \<noteq> OiETag r)"

definition objectFingerprint :: "ObjectInfo \<Rightarrow> string" where
  "objectFingerprint x =
     sha256_hex (strings_Join [OiURI x, OiGeneration x, OiETag x, FormatInt (OiSize x)] [CHR 0x00])"

section \<open>Resolving the sources\<close>

fun resolve_matches :: "LoadServiceConfig \<Rightarrow> ObjectInfo list \<Rightarrow> (string, ObjectInfo) gomap \<Rightarrow> go_error + (string, ObjectInfo) gomap" where
  "resolve_matches c [] seen = Inr seen"
| "resolve_matches c (x # xs) seen =
     (if OiSize x < 0 then Inl [LoadErrInvalid]
      else if LfMaxObjectBytes c < OiSize x then Inl [LoadErrPrecondition]
      else if (case gm_get seen (OiURI x) of Some existing \<Rightarrow> objectIdentityChanged existing x | None \<Rightarrow> False)
      then Inl [LoadErrPrecondition]
      else
        let seen' = gm_put (OiURI x) x seen in
        if LfMaxObjects c < int (length seen') then Inl [LoadErrPrecondition] else resolve_matches c xs seen')"

definition is_pattern :: "string \<Rightarrow> bool" where
  "is_pattern s \<longleftrightarrow> list_ex (\<lambda>c. c \<in> set ''*?['') s"

definition resolve_one :: "ExecutionEnv \<Rightarrow> nat \<Rightarrow> string \<Rightarrow> go_error + ObjectInfo list" where
  "resolve_one env i pattern =
     (if is_pattern pattern then EvList env i pattern
      else case EvGet env i pattern of Inl e \<Rightarrow> Inl e | Inr x \<Rightarrow> Inr [x])"

fun resolve_patterns ::
  "LoadServiceConfig \<Rightarrow> ExecutionEnv \<Rightarrow> nat \<Rightarrow> string list \<Rightarrow> (string, ObjectInfo) gomap \<Rightarrow> go_error + (string, ObjectInfo) gomap" where
  "resolve_patterns c env i [] seen = Inr seen"
| "resolve_patterns c env i (pattern # patterns) seen =
     (case resolve_one env i pattern of Inl e \<Rightarrow> Inl e
      | Inr matches \<Rightarrow>
        if matches = [] then Inl [LoadErrNotFound]
        else (case resolve_matches c matches seen of Inl e \<Rightarrow> Inl e
           | Inr seen' \<Rightarrow> resolve_patterns c env (Suc i) patterns seen'))"

text \<open>The loop over the values of the map, with \<open>int64\<close> arithmetic.\<close>

fun within_total :: "LoadServiceConfig \<Rightarrow> int \<Rightarrow> ObjectInfo list \<Rightarrow> bool" where
  "within_total c bytes [] \<longleftrightarrow> True"
| "within_total c bytes (x # xs) \<longleftrightarrow>
     \<not> wrap64 (LfMaxTotalBytes c - bytes) < OiSize x \<and> within_total c (i64_add bytes (OiSize x)) xs"

text \<open>The URIs of the listed values are keys of one map, so the unstable sort of the source has one result.\<close>

definition resolveObjects :: "LoadServiceConfig \<Rightarrow> ExecutionEnv \<Rightarrow> string list \<Rightarrow> go_error + ObjectInfo list" where
  "resolveObjects c env patterns =
     (if LfMaxObjects c < int (length patterns) then Inl [LoadErrPrecondition]
      else case resolve_patterns c env 0 patterns [] of Inl e \<Rightarrow> Inl e
      | Inr seen \<Rightarrow>
        let objects = EvRange env seen in
        if \<not> within_total c 0 objects then Inl [LoadErrPrecondition] else Inr (sort_key OiURI objects))"

section \<open>Downloading\<close>

text \<open>\<open>io.Copy\<close> of a reader that is limited to one byte more than an object may have.\<close>

definition copy_limited :: "LoadServiceConfig \<Rightarrow> DownloadAnswers \<Rightarrow> int \<times> go_error option" where
  "copy_limited c a =
     (let limit = i64_add (LfMaxObjectBytes c) 1; written = (if limit \<le> 0 then 0 else min (int (DaPayload a)) limit) in
      (written, case DaWriteError a of Some e \<Rightarrow> Some e
        | None \<Rightarrow> if written < limit then DaReadError a else None))"

definition pad6 :: "nat \<Rightarrow> string" where
  "pad6 n = replicate (6 - length (format_nat n)) (CHR ''0'') @ format_nat n"

text \<open>Paths are written without the redundant separators that \<open>filepath.Join\<close> removes.\<close>

definition local_path :: "string \<Rightarrow> nat \<Rightarrow> string" where
  "local_path workspace i = workspace @ ''/'' @ pad6 i @ ''.parquet''"

fun download :: "LoadServiceConfig \<Rightarrow> ExecutionEnv \<Rightarrow> string \<Rightarrow> nat \<Rightarrow> ObjectInfo list \<Rightarrow> int \<Rightarrow> (go_error + LocalObject list) \<times> int" where
  "download c env workspace i [] bytes = (Inr [], bytes)"
| "download c env workspace i (x # xs) bytes =
     (let a = EvDownload env i in
      case DaContext a of Some e \<Rightarrow> (Inl e, bytes)
      | None \<Rightarrow>
      (case DaOpen a of Some e \<Rightarrow> (Inl e, bytes)
       | None \<Rightarrow>
       (case DaCreate a of Some e \<Rightarrow> (Inl e, bytes)
        | None \<Rightarrow>
        (case copy_limited c a of
           (written, Some e) \<Rightarrow> (Inl e, bytes)
         | (written, None) \<Rightarrow>
           (case DaCloseFile a of Some e \<Rightarrow> (Inl e, bytes)
            | None \<Rightarrow>
            (case DaCloseReader a of Some e \<Rightarrow> (Inl e, bytes)
             | None \<Rightarrow>
               if LfMaxObjectBytes c < written \<or> wrap64 (LfMaxTotalBytes c - bytes) < written
               then (Inl [LoadErrPrecondition], bytes)
               else
                 let bytes' = i64_add bytes written in
                 if written \<noteq> OiSize x then (Inl [LoadErrPrecondition], bytes')
                 else
                   case download c env workspace (Suc i) xs bytes' of
                     (Inl e, t) \<Rightarrow> (Inl e, t)
                   | (Inr rest, t) \<Rightarrow>
                     (Inr (\<lparr>LlPath = local_path workspace i, LlFingerprint = objectFingerprint x, LlSize = written\<rparr> # rest), t)))))))"

section \<open>What a resolved set is\<close>

text \<open>
  The limits of a validated configuration, which are \<open>int64\<close> values; the law of \<open>range\<close>; everything the store answers, in order; and
  what of it a map keyed by URI keeps.
\<close>

definition limits_ok :: "LoadServiceConfig \<Rightarrow> bool" where
  "limits_ok c \<longleftrightarrow> LoadServiceConfig_Validate c = None \<and> in_i64 (LfMaxObjectBytes c) \<and> in_i64 (LfMaxTotalBytes c)"

definition lawful_range :: "((string, ObjectInfo) gomap \<Rightarrow> ObjectInfo list) \<Rightarrow> bool" where
  "lawful_range range_of \<longleftrightarrow> (\<forall>m. mset (range_of m) = mset (map snd m))"

fun store_answers :: "ExecutionEnv \<Rightarrow> nat \<Rightarrow> string list \<Rightarrow> go_error + ObjectInfo list" where
  "store_answers env i [] = Inr []"
| "store_answers env i (pattern # patterns) =
     (case resolve_one env i pattern of Inl e \<Rightarrow> Inl e
      | Inr matches \<Rightarrow>
        if matches = [] then Inl [LoadErrNotFound]
        else (case store_answers env (Suc i) patterns of Inl e \<Rightarrow> Inl e | Inr rest \<Rightarrow> Inr (matches @ rest)))"

definition latest :: "ObjectInfo list \<Rightarrow> string \<rightharpoonup> ObjectInfo" where
  "latest xs = map_of (rev (map (\<lambda>x. (OiURI x, x)) xs))"

definition size_ok :: "LoadServiceConfig \<Rightarrow> ObjectInfo \<Rightarrow> bool" where
  "size_ok c x \<longleftrightarrow> 0 \<le> OiSize x \<and> OiSize x \<le> LfMaxObjectBytes c"

definition unchanged_after :: "ObjectInfo list \<Rightarrow> ObjectInfo \<Rightarrow> bool" where
  "unchanged_after earlier x \<longleftrightarrow> (case latest earlier (OiURI x) of Some y \<Rightarrow> \<not> objectIdentityChanged y x | None \<Rightarrow> True)"

lemma latest_snoc [simp]: "latest (xs @ [x]) = (latest xs)(OiURI x \<mapsto> x)"
  by (simp add: latest_def)

lemma latest_Nil [simp]: "latest [] = Map.empty"
  by (simp add: latest_def)

lemma dom_latest: "dom (latest xs) = OiURI ` set xs"
  by (simp add: latest_def dom_map_of_conv_image_fst image_image)

text \<open>The map after some answers: it is the latest answer for each URI.\<close>

definition kept :: "ObjectInfo list \<Rightarrow> (string, ObjectInfo) gomap \<Rightarrow> bool" where
  "kept xs seen \<longleftrightarrow> gm_ok seen \<and> gm_get seen = latest xs"

lemma kept_Nil: "kept [] []" by (simp add: kept_def)

lemma kept_snoc: "kept xs seen \<Longrightarrow> kept (xs @ [x]) (gm_put (OiURI x) x seen)"
  by (simp add: kept_def)

lemma kept_length:
  assumes "kept xs seen"
  shows "length seen = card (OiURI ` set xs)"
proof -
  have "card (set (map fst seen)) = length seen" using assms by (simp add: kept_def distinct_card del: set_map)
  moreover have "set (map fst seen) = dom (latest xs)" using assms by (simp add: kept_def flip: dom_map_of_conv_image_fst)
  ultimately show ?thesis by (simp add: dom_latest)
qed

lemma kept_uri:
  assumes "kept xs seen" "(u, x) \<in> set seen"
  shows "u = OiURI x \<and> x \<in> set xs"
proof -
  have "latest xs u = Some x" using assms gm_get_in [of seen u x] by (simp add: kept_def)
  then show ?thesis by (auto simp: latest_def dest: map_of_SomeD)
qed

lemma resolve_matches_append:
  "resolve_matches c (xs @ ys) seen = (case resolve_matches c xs seen of Inl e \<Rightarrow> Inl e | Inr s \<Rightarrow> resolve_matches c ys s)"
  by (induction xs arbitrary: seen) (auto simp: Let_def)

lemma resolve_patterns_answers:
  "resolve_patterns c env i patterns seen = Inr seen' \<longleftrightarrow>
     (\<exists>ms. store_answers env i patterns = Inr ms \<and> resolve_matches c ms seen = Inr seen')"
  by (induction patterns arbitrary: i seen) (auto simp: resolve_matches_append split: sum.splits)

text \<open>One more answer is taken exactly when its size, its identity and the number of URIs allow it.\<close>

lemma resolve_matches_snoc:
  "resolve_matches c (xs @ [x]) seen = Inr seen' \<longleftrightarrow>
     (\<exists>s. resolve_matches c xs seen = Inr s \<and> size_ok c x
        \<and> (case gm_get s (OiURI x) of Some y \<Rightarrow> \<not> objectIdentityChanged y x | None \<Rightarrow> True)
        \<and> seen' = gm_put (OiURI x) x s \<and> int (length seen') \<le> LfMaxObjects c)"
  by (auto simp: resolve_matches_append size_ok_def Let_def split: sum.splits option.splits if_splits)

lemma resolve_matches_kept:
  "resolve_matches c xs [] = Inr seen \<Longrightarrow> kept xs seen"
proof (induction xs arbitrary: seen rule: rev_induct)
  case Nil
  then show ?case by (simp add: kept_Nil)
next
  case (snoc x xs)
  then obtain s where "resolve_matches c xs [] = Inr s" "seen = gm_put (OiURI x) x s"
    by (auto simp: resolve_matches_snoc)
  with snoc.IH show ?case by (simp add: kept_snoc)
qed

definition acceptable :: "LoadServiceConfig \<Rightarrow> ObjectInfo list \<Rightarrow> bool" where
  "acceptable c xs \<longleftrightarrow>
     list_all (size_ok c) xs \<and> (\<forall>earlier x later. xs = earlier @ x # later \<longrightarrow> unchanged_after earlier x)
     \<and> int (card (OiURI ` set xs)) \<le> LfMaxObjects c"

lemma acceptable_snoc:
  "acceptable c (xs @ [x]) \<longleftrightarrow>
     acceptable c xs \<and> size_ok c x \<and> unchanged_after xs x \<and> int (card (OiURI ` set (xs @ [x]))) \<le> LfMaxObjects c"
proof -
  have mono: "card (OiURI ` set xs) \<le> card (OiURI ` set (xs @ [x]))" by (intro card_mono) auto
  have snoc_split: "xs @ [x] = earlier @ y # later \<longleftrightarrow>
      (\<exists>l. xs = earlier @ y # l \<and> later = l @ [x]) \<or> earlier = xs \<and> y = x \<and> later = []" for earlier y later
    by (cases later rule: rev_cases) auto
  have "(\<forall>earlier y later. xs @ [x] = earlier @ y # later \<longrightarrow> unchanged_after earlier y) \<longleftrightarrow>
      (\<forall>earlier y later. xs = earlier @ y # later \<longrightarrow> unchanged_after earlier y) \<and> unchanged_after xs x"
    unfolding snoc_split by blast
  with mono show ?thesis by (auto simp: acceptable_def)
qed

lemma resolve_matches_acceptable:
  assumes "0 \<le> LfMaxObjects c"
  shows "(\<exists>seen. resolve_matches c xs [] = Inr seen) \<longleftrightarrow> acceptable c xs"
proof (induction xs rule: rev_induct)
  case Nil
  then show ?case using assms by (simp add: acceptable_def)
next
  case (snoc x xs)
  show ?case
  proof (cases "\<exists>s. resolve_matches c xs [] = Inr s")
    case True
    then obtain s where s: "resolve_matches c xs [] = Inr s" by blast
    have k: "kept xs s" using resolve_matches_kept [OF s] .
    then have "length (gm_put (OiURI x) x s) = card (OiURI ` set (xs @ [x]))" by (intro kept_length kept_snoc)
    moreover have "gm_get s = latest xs" using k by (simp add: kept_def)
    ultimately show ?thesis using True snoc.IH s
      by (simp add: resolve_matches_snoc acceptable_snoc unchanged_after_def del: set_append)
  next
    case False
    then show ?thesis using snoc.IH by (auto simp: resolve_matches_snoc acceptable_snoc)
  qed
qed

lemma within_total_exact:
  assumes "limits_ok c" "0 \<le> b" "b \<le> LfMaxTotalBytes c" "list_all (\<lambda>x. 0 \<le> OiSize x) xs"
  shows "within_total c b xs \<longleftrightarrow> b + sum_list (map OiSize xs) \<le> LfMaxTotalBytes c"
  using assms(2-4)
proof (induction xs arbitrary: b)
  case (Cons x xs)
  have room: "wrap64 (LfMaxTotalBytes c - b) = LfMaxTotalBytes c - b"
    using assms(1) Cons.prems by (intro wrap64_id) (simp add: limits_ok_def in_i64_def)
  show ?case
  proof (cases "OiSize x \<le> LfMaxTotalBytes c - b")
    case True
    then have "in_i64 (b + OiSize x)" using assms(1) Cons.prems by (auto simp: limits_ok_def in_i64_def)
    with True Cons room show ?thesis by (simp add: i64_add_exact algebra_simps)
  next
    case False
    have "0 \<le> sum_list (map OiSize xs)" using Cons.prems by (intro sum_list_nonneg) (auto simp: list_all_iff)
    with False room show ?thesis by simp
  qed
qed simp

lemma sorted_by_uri:
  assumes "kept xs seen" "mset objects = mset (map snd seen)"
  shows "set objects = ran (latest xs)" "distinct (map OiURI objects)"
proof -
  have uris: "map fst seen = map OiURI (map snd seen)" using kept_uri [OF assms(1)] by auto
  have "set objects = snd ` set seen" using arg_cong [OF assms(2), of set_mset] by simp
  also have "\<dots> = ran (latest xs)" using assms(1) by (simp add: kept_def flip: ran_distinct)
  finally show "set objects = ran (latest xs)" .
  have "mset (map OiURI objects) = mset (map fst seen)" unfolding uris using assms(2) by (metis mset_map)
  then show "distinct (map OiURI objects)" using assms(1) by (metis kept_def mset_eq_imp_distinct_iff)
qed

lemma sorted_uris_unique:
  assumes "sorted (map OiURI a)" "sorted (map OiURI b)" "distinct (map OiURI a)" "distinct (map OiURI b)" "set a = set b"
  shows "a = b"
proof -
  have "map OiURI a = map OiURI b" using assms by (intro sorted_distinct_set_unique) auto
  moreover have "inj_on OiURI (set a \<union> set b)" using assms(3,5) by (simp add: distinct_map)
  ultimately show ?thesis using map_inj_on by blast
qed

text \<open>
  The set that a resolution must return: sorted by URI, one object for each URI, the latest answer, within the limits.
\<close>

definition resolved_set :: "LoadServiceConfig \<Rightarrow> ExecutionEnv \<Rightarrow> string list \<Rightarrow> ObjectInfo list \<Rightarrow> bool" where
  "resolved_set c env patterns objects \<longleftrightarrow>
     int (length patterns) \<le> LfMaxObjects c
     \<and> (\<exists>answers. store_answers env 0 patterns = Inr answers \<and> acceptable c answers \<and> set objects = ran (latest answers))
     \<and> sorted (map OiURI objects) \<and> distinct (map OiURI objects) \<and> sum_list (map OiSize objects) \<le> LfMaxTotalBytes c"

lemma resolved_set_unique: "resolved_set c env patterns a \<Longrightarrow> resolved_set c env patterns b \<Longrightarrow> a = b"
  by (rule sorted_uris_unique) (auto simp: resolved_set_def)

lemma resolveObjects_unfold:
  assumes "limits_ok c" "lawful_range (EvRange env)" "resolve_patterns c env 0 patterns [] = Inr seen"
    and "int (length patterns) \<le> LfMaxObjects c"
  shows "resolveObjects c env patterns =
      (if LfMaxTotalBytes c < sum_list (map (OiSize \<circ> snd) seen) then Inl [LoadErrPrecondition]
       else Inr (sort_key OiURI (map snd seen)))"
    and "sum_list (map (OiSize \<circ> snd) seen) \<le> LfMaxTotalBytes c \<Longrightarrow> resolved_set c env patterns (sort_key OiURI (map snd seen))"
proof -
  obtain answers where a: "store_answers env 0 patterns = Inr answers" "resolve_matches c answers [] = Inr seen"
    using assms(3) by (auto simp: resolve_patterns_answers)
  have k: "kept answers seen" by (rule resolve_matches_kept [OF a(2)])
  have acc: "acceptable c answers"
    using resolve_matches_acceptable [of c answers] a(2) assms(4) by fastforce
  have listed: "mset (EvRange env seen) = mset (map snd seen)" using assms(2) by (simp add: lawful_range_def)
  have sizes: "list_all (\<lambda>x. 0 \<le> OiSize x) (EvRange env seen)"
  proof -
    have "set (EvRange env seen) = snd ` set seen" using arg_cong [OF listed, of set_mset] by simp
    then show ?thesis using kept_uri [OF k] acc by (fastforce simp: list_all_iff acceptable_def size_ok_def)
  qed
  have "sum_mset (image_mset OiSize (mset (EvRange env seen))) = sum_mset (image_mset OiSize (mset (map snd seen)))"
    by (simp add: listed)
  then have total: "sum_list (map OiSize (EvRange env seen)) = sum_list (map (OiSize \<circ> snd) seen)"
    by (simp flip: sum_mset_sum_list add: image_mset.compositionality)
  have same: "sort_key OiURI (EvRange env seen) = sort_key OiURI (map snd seen)"
    using sorted_by_uri [OF k, of "sort_key OiURI (EvRange env seen)"] sorted_by_uri [OF k, of "sort_key OiURI (map snd seen)"] listed
    by (intro sorted_uris_unique) (simp_all del: set_sort)
  have "0 \<le> LfMaxTotalBytes c" using assms(1) by (auto simp: limits_ok_def LoadServiceConfig_Validate_def split: if_splits)
  then show "resolveObjects c env patterns =
      (if LfMaxTotalBytes c < sum_list (map (OiSize \<circ> snd) seen) then Inl [LoadErrPrecondition]
       else Inr (sort_key OiURI (map snd seen)))"
    using assms(3,4) within_total_exact [OF assms(1), of 0 "EvRange env seen"] sizes total same
    by (simp add: resolveObjects_def Let_def)
  assume "sum_list (map (OiSize \<circ> snd) seen) \<le> LfMaxTotalBytes c"
  moreover have "mset (map OiSize (sort_key OiURI (map snd seen))) = mset (map (OiSize \<circ> snd) seen)"
    by (simp add: image_mset.compositionality)
  then have "sum_list (map OiSize (sort_key OiURI (map snd seen))) = sum_list (map (OiSize \<circ> snd) seen)"
    by (metis sum_mset_sum_list)
  ultimately show "resolved_set c env patterns (sort_key OiURI (map snd seen))"
    using a acc sorted_by_uri [OF k, of "sort_key OiURI (map snd seen)"] assms(4) by (auto simp: resolved_set_def)
qed

text \<open>
  C33. Resolving the sources of a load returns, whatever order the runtime lists the map in, exactly one list: the latest
  answer for each URI in the order of the URIs, and it returns it exactly when the patterns are few enough, the store answers each
  of them with at least one object, no object is negative or too large, no object changed its identity between two answers, and the
  number of objects and their exact total size are within the limits, so the 64-bit sums never wrap.
\<close>

theorem resolveObjects_result:
  assumes "limits_ok c" and "lawful_range (EvRange env)"
  shows "(resolveObjects c env patterns = Inr objects \<longleftrightarrow> resolved_set c env patterns objects)
    \<and> (lawful_range range_of \<longrightarrow> resolveObjects c (env\<lparr>EvRange := range_of\<rparr>) patterns = resolveObjects c env patterns)"
proof -
  have same: "resolve_patterns c (env\<lparr>EvRange := range_of\<rparr>) i ps seen = resolve_patterns c env i ps seen" for range_of i ps seen
    by (induction ps arbitrary: i seen) (auto simp: resolve_one_def split: sum.splits)
  show ?thesis
  proof (cases "\<exists>seen. resolve_patterns c env 0 patterns [] = Inr seen \<and> int (length patterns) \<le> LfMaxObjects c")
    case True
    then obtain seen where seen: "resolve_patterns c env 0 patterns [] = Inr seen" "int (length patterns) \<le> LfMaxObjects c" by blast
    note result = resolveObjects_unfold [OF assms seen]
    have "resolveObjects c (env\<lparr>EvRange := range_of\<rparr>) patterns = resolveObjects c env patterns" if "lawful_range range_of"
      using resolveObjects_unfold(1) [of c "env\<lparr>EvRange := range_of\<rparr>" patterns seen] that assms(1) seen result(1) same by simp
    moreover have "sum_list (map (OiSize \<circ> snd) seen) \<le> LfMaxTotalBytes c" if "resolved_set c env patterns objects"
    proof -
      obtain answers where a: "store_answers env 0 patterns = Inr answers" "resolve_matches c answers [] = Inr seen"
        using seen(1) by (auto simp: resolve_patterns_answers)
      have "objects = sort_key OiURI (map snd seen)"
        using that a sorted_by_uri [OF resolve_matches_kept [OF a(2)], of "sort_key OiURI (map snd seen)"]
        by (intro sorted_uris_unique) (auto simp: resolved_set_def)
      then have "mset (map OiSize objects) = mset (map (OiSize \<circ> snd) seen)" by (simp add: image_mset.compositionality)
      then have "sum_list (map OiSize objects) = sum_list (map (OiSize \<circ> snd) seen)" by (metis sum_mset_sum_list)
      with that show ?thesis by (simp add: resolved_set_def)
    qed
    ultimately show ?thesis using result resolved_set_unique by (auto split: if_splits)
  next
    case False
    have "\<not> resolved_set c env patterns objects"
      using False resolve_matches_acceptable [of c] by (force simp: resolved_set_def resolve_patterns_answers)
    with False show ?thesis by (auto simp: resolveObjects_def same split: sum.splits)
  qed
qed

text \<open>Two objects of a bucket, listed by a pattern and named once more.\<close>

definition example_object :: "string \<Rightarrow> nat \<Rightarrow> ObjectInfo" where
  "example_object uri n = \<lparr>OiURI = uri, OiSize = int n, OiGeneration = ''1'', OiETag = []\<rparr>"

definition example_download :: "nat \<Rightarrow> DownloadAnswers" where
  "example_download n =
     \<lparr>DaContext = None, DaOpen = None, DaCreate = None, DaPayload = n, DaReadError = None, DaWriteError = None, DaCloseFile = None,
      DaCloseReader = None\<rparr>"

definition example_table :: LoadTable where
  "example_table =
     \<lparr>LoReference = \<lparr>LtProjectID = ''project'', LtDatasetID = ''d'', LtTableID = ''t''\<rparr>, LoLocation = ''US'',
      LoSchema = [MkField ''id'' ''INT64'' ''REQUIRED'' [] None None [] []]\<rparr>"

definition example_env :: ExecutionEnv where
  "example_env =
     \<lparr>EvGetTable = \<lambda>_. Inr example_table,
      EvList = \<lambda>_ _. Inr [example_object ''gs://b/x'' 7, example_object ''gs://b/a'' 5],
      EvGet = \<lambda>_ _. Inr (example_object ''gs://b/a'' 5), EvRange = map snd, EvMkdirTemp = Inr ''/tmp/bqemu-load-1'',
      EvChmod = None, EvRemoveAll = None, EvDownload = \<lambda>i. example_download (if i = 0 then 5 else 7),
      EvStartedAt = 20, EvEndedAt = 30\<rparr>"

lemma example_limits: "limits_ok (load_DefaultConfig ''/tmp'')" "lawful_range (EvRange example_env)"
  by (simp_all add: limits_ok_def load_DefaultConfig_def LoadServiceConfig_Validate_def in_i64_def ascii_space_def space2_def space3_def
      lawful_range_def example_env_def)

lemma example_resolved:
  "resolveObjects (load_DefaultConfig ''/tmp'') example_env [''gs://b/*'', ''gs://b/a''] =
     Inr [example_object ''gs://b/a'' 5, example_object ''gs://b/x'' 7]"
  by code_simp

theorem resolveObjects_result_witness:
  "resolved_set (load_DefaultConfig ''/tmp'') example_env [''gs://b/*'', ''gs://b/a'']
     [example_object ''gs://b/a'' 5, example_object ''gs://b/x'' 7]
   \<and> resolveObjects (load_DefaultConfig ''/tmp'') (example_env\<lparr>EvRange := \<lambda>m. rev (map snd m)\<rparr>) [''gs://b/*'', ''gs://b/a''] =
       Inr [example_object ''gs://b/a'' 5, example_object ''gs://b/x'' 7]"
  using resolveObjects_result [OF example_limits, of "[''gs://b/*'', ''gs://b/a'']"
      "[example_object ''gs://b/a'' 5, example_object ''gs://b/x'' 7]" "\<lambda>m. rev (map snd m)"] example_resolved
  by (simp add: lawful_range_def)

section \<open>What a download delivers\<close>

text \<open>The local files of a finished download are the resolved objects in order, and the total is the exact sum.\<close>

definition downloaded_as :: "LocalObject \<Rightarrow> ObjectInfo \<Rightarrow> bool" where
  "downloaded_as l x \<longleftrightarrow> LlFingerprint l = objectFingerprint x \<and> LlSize l = OiSize x \<and> \<not> blank (LlPath l)"

lemma blank_member: "blank s \<Longrightarrow> c \<in> set s \<Longrightarrow> ascii_space c \<or> 128 \<le> (of_char c :: nat)"
  by (induction s rule: blank.induct) (auto simp: space2_def space3_def Let_def split: if_splits)

lemma local_path_not_blank: "\<not> blank (local_path workspace i)"
proof
  assume "blank (local_path workspace i)"
  then have "ascii_space (CHR ''/'') \<or> 128 \<le> (of_char (CHR ''/'') :: nat)"
    by (rule blank_member) (simp add: local_path_def)
  then show False by (simp add: ascii_space_def)
qed

lemma download_step:
  assumes "download c env workspace i (x # xs) b = (Inr local, downloaded)"
  obtains l rest where "local = l # rest" "downloaded_as l x" "0 \<le> OiSize x" "OiSize x \<le> wrap64 (LfMaxTotalBytes c - b)"
    "download c env workspace (Suc i) xs (i64_add b (OiSize x)) = (Inr rest, downloaded)"
proof -
  have "0 \<le> written" if "copy_limited c a = (written, err)" for a written err
    using that by (auto simp: copy_limited_def Let_def split: if_splits)
  then show ?thesis using assms that
    by (auto simp: Let_def downloaded_as_def local_path_not_blank split: option.splits prod.splits sum.splits if_splits)
qed

lemma download_result:
  assumes "limits_ok c" "download c env workspace i objects b = (Inr local, downloaded)" "0 \<le> b" "b \<le> LfMaxTotalBytes c"
  shows "list_all2 downloaded_as local objects \<and> downloaded = b + sum_list (map OiSize objects) \<and> downloaded \<le> LfMaxTotalBytes c"
  using assms(2-4)
proof (induction objects arbitrary: i b local)
  case (Cons x xs)
  have limit: "in_i64 (LfMaxTotalBytes c)" using assms(1) by (simp add: limits_ok_def)
  then have room: "wrap64 (LfMaxTotalBytes c - b) = LfMaxTotalBytes c - b"
    using Cons.prems by (intro wrap64_id) (simp add: in_i64_def)
  obtain l rest where l: "local = l # rest" "downloaded_as l x" "0 \<le> OiSize x" "OiSize x \<le> LfMaxTotalBytes c - b"
    "download c env workspace (Suc i) xs (i64_add b (OiSize x)) = (Inr rest, downloaded)"
    by (rule download_step [OF Cons.prems(1)]) (simp add: room)
  moreover have "i64_add b (OiSize x) = b + OiSize x" using l limit Cons.prems by (intro i64_add_exact) (auto simp: in_i64_def)
  ultimately show ?case using Cons.IH [of "Suc i" "b + OiSize x" rest] Cons.prems by simp
qed simp

end
