(* ===== verification/Load_Service.thy ===== *)
theory Load_Service
  imports Load_Repository Load_Sources
begin

text \<open>
  \<open>internal/loadjob/application/service.go\<close>: submitting, reading and executing load jobs over the sources of \<open>Load_Sources\<close>.

  The ports of the service are arguments: the job repository of \<open>Load_Repository\<close>, and a loader whose planning calls return a plan or
  an error and whose execution acts on a warehouse state.
\<close>

section \<open>Ports\<close>

record 'w Loader =
  LdPlanSchema :: "SchemaIntent \<Rightarrow> go_error + SchemaPlan"
  LdPlanLoad :: "LoadPlanRequest \<Rightarrow> go_error + LoadPlan"
  LdExecuteLoad :: "LoadPlan \<Rightarrow> LocalObject list \<Rightarrow> 'w \<Rightarrow> (int \<times> go_error option) \<times> 'w"

record ('r, 'w) LoadService =
  SvJobs :: "'r LoadJobRepository"
  SvLoader :: "'w Loader"
  SvConfig :: LoadServiceConfig

text \<open>The flag tells whether every dependency is set.\<close>

definition load_NewService :: "bool \<Rightarrow> 'r LoadJobRepository \<Rightarrow> 'w Loader \<Rightarrow> LoadServiceConfig \<Rightarrow> go_error + ('r, 'w) LoadService" where
  "load_NewService all_set jobs loader c =
     (if \<not> all_set then Inl [LoadErrInvalid]
      else case LoadServiceConfig_Validate c of Some e \<Rightarrow> Inl e
      | None \<Rightarrow> Inr \<lparr>SvJobs = jobs, SvLoader = loader, SvConfig = c\<rparr>)"

section \<open>Comparisons and digests\<close>

definition effective_mode :: "string \<Rightarrow> string" where
  "effective_mode m = (let u = strings_ToUpper m in if u = [] then ''NULLABLE'' else u)"

fun load_sameOptionalInt64 :: "int option \<Rightarrow> int option \<Rightarrow> bool" where
  "load_sameOptionalInt64 (Some a) (Some b) \<longleftrightarrow> a = b"
| "load_sameOptionalInt64 a b \<longleftrightarrow> a = None \<and> b = None"

fun schemasEqual :: "Field list \<Rightarrow> Field list \<Rightarrow> bool" where
  "schemasEqual [] [] \<longleftrightarrow> True"
| "schemasEqual (MkField n t m d p s r fs # ls) (MkField n' t' m' d' p' s' r' fs' # rs) \<longleftrightarrow>
     length ls = length rs
     \<and> strings_EqualFold n n' \<and> strings_EqualFold t t' \<and> effective_mode m = effective_mode m'
     \<and> load_sameOptionalInt64 p p' \<and> load_sameOptionalInt64 s s' \<and> r = r' \<and> schemasEqual fs fs' \<and> schemasEqual ls rs"
| "schemasEqual _ _ \<longleftrightarrow> False"

definition CapabilityParquetNestedRepeatedV1 :: string where
  "CapabilityParquetNestedRepeatedV1 = ''load.parquet.nested-repeated.unsupported-v1''"

definition CapabilityDecimalRoundingV1 :: string where
  "CapabilityDecimalRoundingV1 = ''load.decimal-rounding.unsupported-v1''"

definition strings_Contains :: "string \<Rightarrow> string \<Rightarrow> bool" where
  "strings_Contains s t \<longleftrightarrow> list_ex (prefix t) (suffixes s)"

definition error_mentions :: "go_error \<Rightarrow> string \<Rightarrow> bool" where
  "error_mentions e t \<longleftrightarrow> list_ex (\<lambda>s. strings_Contains (sentinel_text s) t) e"

definition translateCatalogSchemaError :: "go_error \<Rightarrow> go_error" where
  "translateCatalogSchemaError e =
     (if errors_Is e ErrUnsupported then [LoadErrUnsupported, ErrText CapabilityEngineSchemaV1] @ error_as_text e
      else if errors_Is e ErrInvalid then LoadErrInvalid # error_as_text e
      else if errors_Is e ErrPrecondition then LoadErrPrecondition # error_as_text e
      else e)"

definition terminalError :: "go_error \<Rightarrow> string \<times> string" where
  "terminalError e =
     (if errors_Is e LoadErrUnsupported then
        (if error_mentions e CapabilityParquetNestedRepeatedV1
         then (''notImplemented'', ''the requested load-job feature is not implemented; capability='' @ CapabilityParquetNestedRepeatedV1)
         else if error_mentions e CapabilityDecimalRoundingV1
         then (''notImplemented'', ''the requested load-job feature is not implemented; capability='' @ CapabilityDecimalRoundingV1)
         else (''notImplemented'', ''the requested load-job feature is not implemented''))
      else if errors_Is e LoadErrInvalid then (''invalid'', ''the load configuration or source schema is invalid'')
      else if errors_Is e LoadErrNotFound then (''notFound'', ''a requested load source or destination was not found'')
      else if errors_Is e LoadErrConflict then (''duplicate'', ''the load job conflicts with an existing resource'')
      else if errors_Is e LoadErrPrecondition then (''conditionNotMet'', ''a load-job precondition was not met'')
      else if errors_Is e ContextDeadlineExceeded \<or> errors_Is e ContextCanceled
      then (''backendError'', ''the load job exceeded its configured execution deadline'')
      else (''backendError'', ''the load job failed in the local backend''))"

section \<open>Running a job\<close>

definition resolved :: "ObjectInfo \<Rightarrow> ResolvedObject" where
  "resolved x = \<lparr>RoFingerprint = objectFingerprint x, RoSize = OiSize x\<rparr>"

text \<open>The part of \<open>run\<close> before the file system and the warehouse are touched: the table, the plans and the objects.\<close>

definition run_plan ::
  "('r, 'w) LoadService \<Rightarrow> ExecutionEnv \<Rightarrow> LoadJob \<Rightarrow> go_error + LoadPlan \<times> ObjectInfo list" where
  "run_plan s env job =
     (let c = LjConfiguration job in
      if LcSourceFormat c \<noteq> FormatParquet then Inl [LoadErrUnsupported]
      else if LcAutodetect c \<or> LcSchemaUpdateOptions c \<noteq> [] \<or> LcIgnoreUnknownValues c \<or> LcMaxBadRecords c \<noteq> 0
              \<or> LcUnsupportedOptions c \<noteq> []
      then Inl [LoadErrUnsupported]
      else case EvGetTable env (LcDestination c) of Inl e \<Rightarrow> Inl e
      | Inr table \<Rightarrow>
        if LoLocation table \<noteq> [] \<and> \<not> strings_EqualFold (LoLocation table) (LrLocation (LjReference job)) then Inl [LoadErrInvalid]
        else if LcSchema c \<noteq> [] \<and> \<not> schemasEqual (LcSchema c) (LoSchema table) then Inl [LoadErrInvalid]
        else case NewSchemaIntent \<lparr>SidOperation = SchemaOperationValidate, SidTarget = catalog_reference (LoReference table),
                    SidBeforeSchema = [], SidAfterSchema = LoSchema table, SidAdditions = []\<rparr> of
          Inl e \<Rightarrow> Inl (translateCatalogSchemaError e)
        | Inr intent \<Rightarrow>
        (case LdPlanSchema (SvLoader s) intent of Inl e \<Rightarrow> Inl (translateCatalogSchemaError e)
         | Inr schemaPlan \<Rightarrow>
         (case resolveObjects (SvConfig s) env (LcSourceURIs c) of Inl e \<Rightarrow> Inl e
          | Inr objects \<Rightarrow>
          (case LdPlanLoad (SvLoader s) \<lparr>LqDestination = table, LqSchemaPlan = schemaPlan, LqSourceFormat = LcSourceFormat c,
                  LqWriteDisposition = LcWriteDisposition c, LqObjects = map resolved objects\<rparr> of
             Inl e \<Rightarrow> Inl e
           | Inr plan \<Rightarrow> Inr (plan, objects)))))"

text \<open>The part of \<open>run\<close> inside the workspace, and what the deferred clean-up makes of its error.\<close>

definition run_workspace ::
  "('r, 'w) LoadService \<Rightarrow> ExecutionEnv \<Rightarrow> LoadPlan \<Rightarrow> ObjectInfo list \<Rightarrow> string \<Rightarrow> 'w \<Rightarrow> (LoadStatistics \<times> go_error option) \<times> 'w" where
  "run_workspace s env plan objects workspace w =
     (let statistics = no_statistics\<lparr>LsInputFiles := int (length objects)\<rparr> in
      case download (SvConfig s) env workspace 0 objects 0 of
        (Inl e, downloaded) \<Rightarrow> ((statistics\<lparr>LsInputBytes := downloaded\<rparr>, Some e), w)
      | (Inr local, downloaded) \<Rightarrow>
        (case LdExecuteLoad (SvLoader s) plan local w of
           ((rows, Some e), w') \<Rightarrow> ((statistics\<lparr>LsInputBytes := downloaded, LsOutputRows := rows\<rparr>, Some e), w')
         | ((rows, None), w') \<Rightarrow>
             ((statistics\<lparr>LsInputBytes := downloaded, LsOutputRows := rows, LsOutputBytes := downloaded\<rparr>, EvRemoveAll env), w')))"

definition load_run ::
  "('r, 'w) LoadService \<Rightarrow> ExecutionEnv \<Rightarrow> LoadJob \<Rightarrow> 'w \<Rightarrow> (LoadStatistics \<times> go_error option) \<times> 'w" where
  "load_run s env job w =
     (case run_plan s env job of Inl e \<Rightarrow> ((no_statistics, Some e), w)
      | Inr (plan, objects) \<Rightarrow>
        let statistics = no_statistics\<lparr>LsInputFiles := int (length objects)\<rparr> in
        case EvMkdirTemp env of Inl e \<Rightarrow> ((statistics, Some e), w)
        | Inr workspace \<Rightarrow>
          (case EvChmod env of Some e \<Rightarrow> ((statistics, Some e), w)
           | None \<Rightarrow> run_workspace s env plan objects workspace w))"

section \<open>The operations of the service\<close>

text \<open>The reference and the configuration of a submission, with the defaults filled in.\<close>

definition submitted_reference :: "('r, 'w) LoadService \<Rightarrow> string \<Rightarrow> LoadJobReference \<Rightarrow> LoadJobReference" where
  "submitted_reference s fresh reference =
     (let ref1 = (if LrJobID reference = [] then reference\<lparr>LrJobID := ''job_'' @ fresh\<rparr> else reference) in
      if LrLocation ref1 = [] then ref1\<lparr>LrLocation := LfDefaultLocation (SvConfig s)\<rparr> else ref1)"

definition submitted_configuration :: "LoadJobReference \<Rightarrow> LoadConfiguration \<Rightarrow> LoadConfiguration" where
  "submitted_configuration reference configuration =
     (if LtProjectID (LcDestination configuration) = []
      then configuration\<lparr>LcDestination := (LcDestination configuration)\<lparr>LtProjectID := LrProjectID reference\<rparr>\<rparr>
      else configuration)"

text \<open>The answer of \<open>Submit\<close> and the job of the goroutine it starts, if it starts one.\<close>

definition load_Submit ::
  "('r, 'w) LoadService \<Rightarrow> string \<Rightarrow> time \<Rightarrow> LoadJobReference \<Rightarrow> LoadConfiguration \<Rightarrow> 'r
    \<Rightarrow> (go_error + LoadJob) \<times> LoadJob option \<times> 'r" where
  "load_Submit s fresh now reference configuration r =
     (let ref = submitted_reference s fresh reference in
      case NewJob ref (submitted_configuration ref configuration) now of Inl e \<Rightarrow> (Inl e, None, r)
      | Inr job \<Rightarrow>
        (case JrCreateOrGet (SvJobs s) job r of
           (Inl e, r') \<Rightarrow> (Inl e, None, r')
         | (Inr (stored, created), r') \<Rightarrow>
           if \<not> created then
             (if LjConfigurationDigest stored \<noteq> LjConfigurationDigest job then (Inl [LoadErrConflict], None, r')
              else (Inr stored, None, r'))
           else (Inr stored, Some (LoadJob_Clone stored), r')))"

definition load_Get :: "('r, 'w) LoadService \<Rightarrow> LoadJobReference \<Rightarrow> 'r \<Rightarrow> (go_error + LoadJob) \<times> 'r" where
  "load_Get s reference r =
     JrGet (SvJobs s) (if LrLocation reference = [] then reference\<lparr>LrLocation := LfDefaultLocation (SvConfig s)\<rparr> else reference) r"

definition load_List :: "('r, 'w) LoadService \<Rightarrow> string \<Rightarrow> string \<Rightarrow> 'r \<Rightarrow> (go_error + LoadJob list) \<times> 'r" where
  "load_List s project location r = JrList (SvJobs s) project location r"

text \<open>
  \<open>execute\<close> in the two pieces between which other requests see the job: it is marked RUNNING, and it is run and
  marked DONE. A failed first piece ends the goroutine.
\<close>

definition execute_start :: "('r, 'w) LoadService \<Rightarrow> ExecutionEnv \<Rightarrow> LoadJob \<Rightarrow> 'r \<Rightarrow> LoadJob option \<times> 'r" where
  "execute_start s env job r =
     (case LoadJob_Start (EvStartedAt env) job of Inl e \<Rightarrow> (None, r)
      | Inr running \<Rightarrow>
        (case JrUpdate (SvJobs s) running r of (Some e, r') \<Rightarrow> (None, r') | (None, r') \<Rightarrow> (Some running, r')))"

definition ended_job :: "LoadStatistics \<Rightarrow> go_error option \<Rightarrow> time \<Rightarrow> LoadJob \<Rightarrow> LoadJob" where
  "ended_job statistics err now job =
     (case (case err of None \<Rightarrow> LoadJob_Complete statistics now job
            | Some e \<Rightarrow> (case terminalError e of (reason, message) \<Rightarrow> LoadJob_Fail reason message statistics now job)) of
        Inl _ \<Rightarrow> job | Inr j \<Rightarrow> j)"

definition execute_finish :: "('r, 'w) LoadService \<Rightarrow> ExecutionEnv \<Rightarrow> LoadJob \<Rightarrow> 'r \<Rightarrow> 'w \<Rightarrow> go_error option \<times> 'r \<times> 'w" where
  "execute_finish s env job r w =
     (case load_run s env job w of
        ((statistics, err), w') \<Rightarrow>
          (case JrUpdate (SvJobs s) (ended_job statistics err (EvEndedAt env) job) r of (failure, r') \<Rightarrow> (failure, r', w')))"

definition load_execute :: "('r, 'w) LoadService \<Rightarrow> ExecutionEnv \<Rightarrow> LoadJob \<Rightarrow> 'r \<Rightarrow> 'w \<Rightarrow> 'r \<times> 'w" where
  "load_execute s env job r w =
     (case execute_start s env job r of
        (None, r') \<Rightarrow> (r', w)
      | (Some running, r') \<Rightarrow> snd (execute_finish s env running r' w))"

end
