(* ===== verification/Load_Runs.thy ===== *)
theory Load_Runs
  imports Load_Service
begin

text \<open>
  The life of load jobs while requests, job goroutines and restarts interleave. A submission that creates a job starts a
  goroutine; the goroutine first marks the job RUNNING and later runs it and marks it DONE; every repository call may fail; a restart
  forgets the goroutines and reopens the repository.

  The invariants are proved once, over the contract of a job repository extended with what a restart keeps, and hold for the
  process-local repository and for the SQLite table.
\<close>

section \<open>Steps\<close>

record ('r, 'w) LoadWorld =
  LwJobs :: 'r
  LwWarehouse :: 'w
  LwPending :: "LoadJob list"
  LwRunning :: "LoadJob list"
  LwRun :: "LoadJobReference list"

text \<open>
  \<open>LwRun\<close> lists the jobs that were ever given to \<open>run\<close>, in order. The strings of a submitted configuration are UTF-8, because it was
  decoded from JSON. What a crash does to the warehouse is left open.
\<close>

definition configuration_text :: "LoadConfiguration \<Rightarrow> bool" where
  "configuration_text c \<longleftrightarrow> json_valid_strings (configuration_document (normalizeConfiguration c))"

definition list_of_option :: "'a option \<Rightarrow> 'a list" where
  "list_of_option x = (case x of None \<Rightarrow> [] | Some a \<Rightarrow> [a])"

text \<open>The steps of the goroutines, and all steps.\<close>

inductive load_work :: "('r, 'w) LoadService \<Rightarrow> ('r, 'w) LoadWorld \<Rightarrow> ('r, 'w) LoadWorld \<Rightarrow> bool"
  for s :: "('r, 'w) LoadService" where
  start:
    "LwPending x = before @ job # after \<Longrightarrow> execute_start s env job (LwJobs x) = (running, r) \<Longrightarrow>
     load_work s x (x\<lparr>LwJobs := r, LwPending := before @ after, LwRunning := LwRunning x @ list_of_option running,
       LwRun := LwRun x @ map LjReference (list_of_option running)\<rparr>)"
| finish:
    "LwRunning x = before @ job # after \<Longrightarrow> execute_finish s env job (LwJobs x) (LwWarehouse x) = (failure, r, w) \<Longrightarrow>
     load_work s x (x\<lparr>LwJobs := r, LwWarehouse := w, LwRunning := before @ after\<rparr>)"

inductive load_step ::
  "('r, 'w) LoadService \<Rightarrow> (time \<Rightarrow> 'r \<Rightarrow> 'r option) \<Rightarrow> ('r, 'w) LoadWorld \<Rightarrow> ('r, 'w) LoadWorld \<Rightarrow> bool"
  for s :: "('r, 'w) LoadService" and reopen :: "time \<Rightarrow> 'r \<Rightarrow> 'r option" where
  submit:
    "configuration_text (submitted_configuration (submitted_reference s fresh reference) configuration) \<Longrightarrow>
     load_Submit s fresh now reference configuration (LwJobs x) = (answer, started, r) \<Longrightarrow>
     load_step s reopen x (x\<lparr>LwJobs := r, LwPending := LwPending x @ list_of_option started\<rparr>)"
| get: "load_Get s reference (LwJobs x) = (answer, r) \<Longrightarrow> load_step s reopen x (x\<lparr>LwJobs := r\<rparr>)"
| list: "load_List s project location (LwJobs x) = (answers, r) \<Longrightarrow> load_step s reopen x (x\<lparr>LwJobs := r\<rparr>)"
| work: "load_work s x y \<Longrightarrow> load_step s reopen x y"
| restart:
    "reopen now (LwJobs x) = Some r \<Longrightarrow>
     load_step s reopen x (x\<lparr>LwJobs := r, LwWarehouse := w, LwPending := [], LwRunning := []\<rparr>)"

definition load_start :: "'r \<Rightarrow> 'w \<Rightarrow> ('r, 'w) LoadWorld" where
  "load_start r w = \<lparr>LwJobs = r, LwWarehouse = w, LwPending = [], LwRunning = [], LwRun = []\<rparr>"

section \<open>Progress of a job\<close>

definition job_progressed :: "LoadJob \<Rightarrow> LoadJob \<Rightarrow> bool" where
  "job_progressed j j' \<longleftrightarrow>
     LjReference j' = LjReference j \<and> LjConfiguration j' = LjConfiguration j \<and> LjConfigurationDigest j' = LjConfigurationDigest j
     \<and> LjCreatedAt j' = LjCreatedAt j \<and> (LjStartedAt j \<noteq> None \<longrightarrow> LjStartedAt j' = LjStartedAt j)
     \<and> (j' = j \<or> LjState j = JobPending \<and> LjState j' \<noteq> JobPending \<or> LjState j = JobRunning \<and> LjState j' = JobDone)"

lemma job_progressed_refl [simp]: "job_progressed j j" by (simp add: job_progressed_def)

lemma job_progressed_trans: "job_progressed a b \<Longrightarrow> job_progressed b c \<Longrightarrow> job_progressed a c"
  by (auto simp: job_progressed_def)

lemma LoadJob_Start_progress:
  "LoadJob_Start now j = Inr j' \<Longrightarrow> job_ok j \<Longrightarrow> LjState j = JobPending \<and> LjState j' = JobRunning \<and> job_progressed j j'"
  by (auto simp: LoadJob_Start_def job_progressed_def job_ok_def job_progress_def split: if_splits)

lemma ended_job_progress:
  assumes "LjState j = JobRunning" "job_ok j"
  shows "LjState (ended_job statistics err now j) = JobDone" "job_progressed j (ended_job statistics err now j)"
    "job_ok (ended_job statistics err now j)"
  using assms
  by (auto simp: ended_job_def LoadJob_Complete_def LoadJob_Fail_def job_progressed_def job_ok_def job_progress_def
      split: option.splits prod.splits)

lemma interrupted_job_progress:
  "LjState (interrupted_job now j) = JobDone" "job_progressed j (interrupted_job now j)"
  "job_ok j \<Longrightarrow> job_ok (interrupted_job now j)"
  by (auto simp: interrupted_job_def job_progressed_def job_ok_def job_progress_def intro: LoadJobState.exhaust)

lemma job_text_progressed: "job_progressed j j' \<Longrightarrow> job_text j' = job_text j"
  by (simp add: job_progressed_def job_text_def)

section \<open>The contract of a restart\<close>

text \<open>
  After a restart every remaining job is done, and it is a job of before, which progressed. A durable repository keeps all jobs.
\<close>

locale load_jobs_restart = load_jobs +
  fixes reopen :: "time \<Rightarrow> 'a \<Rightarrow> 'a option"
  assumes reopen_jobs:
    "ok r \<Longrightarrow> reopen now r = Some r' \<Longrightarrow>
       ok r' \<and> (\<forall>k j'. view r' k = Some j' \<longrightarrow> LjState j' = JobDone \<and> (\<exists>j. view r k = Some j \<and> job_progressed j j'))"
begin

definition goroutine_ok :: "'a \<Rightarrow> LoadJobState \<Rightarrow> LoadJob \<Rightarrow> bool" where
  "goroutine_ok r state j \<longleftrightarrow> view r (key (LjReference j)) = Some j \<and> LjState j = state"

definition world_ok :: "('a, 'w) LoadWorld \<Rightarrow> bool" where
  "world_ok x \<longleftrightarrow>
     ok (LwJobs x) \<and> list_all (goroutine_ok (LwJobs x) JobPending) (LwPending x)
     \<and> list_all (goroutine_ok (LwJobs x) JobRunning) (LwRunning x)
     \<and> distinct (map (\<lambda>j. key (LjReference j)) (LwPending x @ LwRunning x))"

text \<open>The effect of each operation on the view.\<close>

lemma submit_effect:
  assumes "SvJobs s = repo" "ok r" "configuration_text (submitted_configuration (submitted_reference s fresh reference) configuration)"
    and "load_Submit s fresh now reference configuration r = (answer, started, r')"
  obtains (same) "ok r'" "view r' = view r" "started = None"
    | (created) j where "ok r'" "job_ok j" "job_text j" "LjState j = JobPending" "view r (key (LjReference j)) = None"
        "view r' = (view r)(key (LjReference j) \<mapsto> j)" "started = None \<or> started = Some j \<and> answer = Inr j"
proof (cases "NewJob (submitted_reference s fresh reference)
    (submitted_configuration (submitted_reference s fresh reference) configuration) now")
  case (Inl e)
  then show thesis using assms same by (auto simp: load_Submit_def Let_def)
next
  case NewJob: (Inr job)
  have job: "job_ok job" "job_text job" "LjState job = JobPending"
    using NewJob_ok [OF NewJob] NewJob assms(3) by (auto simp: NewJob_Inr job_text_def configuration_text_def)
  obtain res r1 where res: "JrCreateOrGet repo job r = (res, r1)" by fastforce
  show thesis
  proof (cases res)
    case (Inl e)
    then have "r' = r1" "started = None" using assms(1,4) NewJob res by (auto simp: load_Submit_def Let_def)
    moreover have "ok r1 \<and> (view r1 = view r \<or> view r (key (LjReference job)) = None \<and> view r1 = (view r)(key (LjReference job) \<mapsto> job))"
      using create_failed [OF assms(2) job(1,2)] res Inl by simp
    ultimately show thesis using same created [of job] job by metis
  next
    case (Inr found)
    then obtain stored flag where found: "JrCreateOrGet repo job r = (Inr (stored, flag), r1)" using res by (cases found) auto
    show thesis
    proof (cases flag)
      case True
      have new: "ok r1" "stored = job" "view r (key (LjReference job)) = None" "view r1 = (view r)(key (LjReference job) \<mapsto> job)"
        using create_new [OF assms(2) job(1,2)] found True by auto
      have "r' = r1" "started = Some job" "answer = Inr job"
        using assms(1,4) NewJob found True new(2) LoadJob_Clone_ok [OF job(1)] by (auto simp: load_Submit_def Let_def)
      with new job show thesis by (intro created [of job]) auto
    next
      case False
      have "ok r1" "view r1 = view r" using create_found [OF assms(2) job(1,2)] found False by auto
      moreover have "r' = r1" "started = None"
        using assms(1,4) NewJob found False by (auto simp: load_Submit_def Let_def split: if_splits)
      ultimately show thesis by (intro same) auto
    qed
  qed
qed

lemma start_effect:
  assumes "SvJobs s = repo" "ok r" "view r (key (LjReference j)) = Some j" "execute_start s env j r = (running, r')"
  obtains (same) "ok r'" "view r' = view r" "running = None"
    | (updated) j' where "ok r'" "LjState j = JobPending" "LjState j' = JobRunning" "job_progressed j j'"
        "view r' = (view r)(key (LjReference j) \<mapsto> j')" "running = Some j'"
proof (cases "LoadJob_Start (EvStartedAt env) j")
  case (Inl e)
  then show thesis using assms same by (simp add: execute_start_def)
next
  case (Inr j')
  have j: "job_ok j" "job_text j" using view_job [OF assms(2,3)] by auto
  note progress = LoadJob_Start_progress [OF Inr j(1)]
  have j': "job_ok j'" "job_text j'" "LjReference j' = LjReference j"
    using LoadJob_Start_ok [OF Inr j(1)] job_text_progressed progress j by (auto simp: job_progressed_def)
  obtain failure r1 where u: "JrUpdate repo j' r = (failure, r1)" by fastforce
  show thesis
  proof (cases failure)
    case None
    then have "r' = r1" "running = Some j'" using assms(1,4) Inr u by (auto simp: execute_start_def)
    moreover have "ok r1" "view r1 = (view r)(key (LjReference j) \<mapsto> j')" using update [OF assms(2) j'(1,2)] u None j'(3) by auto
    ultimately show thesis using progress by (intro updated) auto
  next
    case (Some e)
    then have "r' = r1" "running = None" using assms(1,4) Inr u by (auto simp: execute_start_def)
    moreover have "ok r1" "view r1 = view r" using update_failed [OF assms(2) j'(1,2)] u Some by auto
    ultimately show thesis by (intro same) auto
  qed
qed

lemma finish_effect:
  assumes "SvJobs s = repo" "ok r" "view r (key (LjReference j)) = Some j" "LjState j = JobRunning"
    and "execute_finish s env j r w = (failure, r', w')"
  obtains (same) "ok r'" "view r' = view r" "failure \<noteq> None"
    | (updated) j' where "ok r'" "LjState j' = JobDone" "job_progressed j j'" "view r' = (view r)(key (LjReference j) \<mapsto> j')" "failure = None"
proof -
  obtain statistics err w1 where run: "load_run s env j w = ((statistics, err), w1)" by (metis prod.exhaust)
  define j' where "j' = ended_job statistics err (EvEndedAt env) j"
  have j: "job_ok j" "job_text j" using view_job [OF assms(2,3)] by auto
  note progress = ended_job_progress [OF assms(4) j(1), of statistics err "EvEndedAt env", folded j'_def]
  have j': "job_ok j'" "job_text j'" "LjReference j' = LjReference j"
    using progress(2,3) job_text_progressed [OF progress(2)] j(2) unfolding job_progressed_def by blast+
  have u: "JrUpdate repo j' r = (failure, r')" using assms(1,5) run by (auto simp: execute_finish_def j'_def split: prod.splits)
  show thesis
  proof (cases failure)
    case None
    then have "ok r'" "view r' = (view r)(key (LjReference j) \<mapsto> j')" using update [OF assms(2) j'(1,2)] u j'(3) by auto
    then show thesis using progress(1,2) None by (intro updated) auto
  next
    case (Some e)
    then have "ok r'" "view r' = view r" using update_failed [OF assms(2) j'(1,2)] u by auto
    then show thesis using Some by (intro same) auto
  qed
qed

lemma read_effect:
  assumes "SvJobs s = repo" "ok r"
  shows "load_Get s reference r = (answer, r') \<Longrightarrow> ok r' \<and> view r' = view r"
    and "load_List s project location r = (answers, r') \<Longrightarrow> ok r' \<and> view r' = view r"
  using get [OF assms(2)] list [OF assms(2)] by (auto simp: load_Get_def load_List_def assms(1))

text \<open>The view after a step, and the goroutines.\<close>

lemma world_ok_same:
  assumes "world_ok x" "ok (LwJobs y)" "view (LwJobs y) = view (LwJobs x)"
    and "set (LwPending y) \<subseteq> set (LwPending x)" "set (LwRunning y) \<subseteq> set (LwRunning x)"
    and "distinct (map (\<lambda>j. key (LjReference j)) (LwPending y @ LwRunning y))"
  shows "world_ok y"
proof -
  have "goroutine_ok (LwJobs y) = goroutine_ok (LwJobs x)" using assms(3) by (intro ext) (simp add: goroutine_ok_def)
  then show ?thesis using assms by (auto simp: world_ok_def list_all_iff)
qed

lemma world_ok_distinct: "world_ok x \<Longrightarrow> distinct (map (\<lambda>j. key (LjReference j)) (LwPending x @ LwRunning x))"
  by (simp add: world_ok_def)

lemma world_ok_changed:
  assumes x: "world_ok x" and y: "ok (LwJobs y)" "view (LwJobs y) = (view (LwJobs x))(key (LjReference j) \<mapsto> j)"
    and lists: "LwPending y = P @ pn" "LwRunning y = R @ rn" "set P \<subseteq> set (LwPending x)" "set R \<subseteq> set (LwRunning x)"
    and others: "key (LjReference j) \<notin> (\<lambda>j. key (LjReference j)) ` set (P @ R)" "distinct (map (\<lambda>j. key (LjReference j)) (P @ R))"
    and new: "pn = [] \<and> rn = [] \<or> pn = [j] \<and> rn = [] \<and> LjState j = JobPending \<or> pn = [] \<and> rn = [j] \<and> LjState j = JobRunning"
  shows "world_ok y"
proof -
  have apart: "key (LjReference i) \<noteq> key (LjReference j)" if "i \<in> set P \<or> i \<in> set R" for i
    using that others(1) by (metis image_eqI set_append UnI1 UnI2)
  have keep: "goroutine_ok (LwJobs y) state i" if "goroutine_ok (LwJobs x) state i" "i \<in> set (P @ R)" for state i
    using that(1) y(2) apart [of i] that(2) by (auto simp: goroutine_ok_def)
  have "\<forall>i \<in> set P. goroutine_ok (LwJobs y) JobPending i" using x lists(3) keep unfolding world_ok_def list_all_iff by fastforce
  moreover have "\<forall>i \<in> set R. goroutine_ok (LwJobs y) JobRunning i" using x lists(4) keep unfolding world_ok_def list_all_iff by fastforce
  moreover have "goroutine_ok (LwJobs y) (LjState j) j" using y(2) by (simp add: goroutine_ok_def)
  moreover have "distinct (map (\<lambda>j. key (LjReference j)) ((P @ pn) @ R @ rn))"
  proof -
    have "mset (map (\<lambda>j. key (LjReference j)) ((P @ pn) @ R @ rn)) = mset (map (\<lambda>j. key (LjReference j)) (P @ R))
        \<or> mset (map (\<lambda>j. key (LjReference j)) ((P @ pn) @ R @ rn)) = mset (map (\<lambda>j. key (LjReference j)) ((P @ R) @ [j]))"
      using new by (elim disjE) simp_all
    moreover have "distinct (map (\<lambda>j. key (LjReference j)) ((P @ R) @ [j]))" using others by (simp add: image_Un)
    ultimately show ?thesis using others(2) mset_eq_imp_distinct_iff by blast
  qed
  ultimately show ?thesis using y(1) new unfolding world_ok_def lists(1,2) list_all_iff by auto
qed

lemma work_world_ok:
  assumes "load_work s x y" "SvJobs s = repo" "world_ok x"
  shows "world_ok y"
  using assms(1)
proof cases
  case (start before job after env running r)
  have x: "ok (LwJobs x)" "view (LwJobs x) (key (LjReference job)) = Some job"
    using assms(3) start(2) by (auto simp: world_ok_def goroutine_ok_def)
  show ?thesis
  proof (rule start_effect [OF assms(2) x start(3)])
    assume "ok r" "view r = view (LwJobs x)" "running = None"
    then show ?thesis using start(1,2) world_ok_distinct [OF assms(3)] by (intro world_ok_same [OF assms(3)]) (auto simp: list_of_option_def)
  next
    fix j'
    assume j': "ok r" "LjState j' = JobRunning" "job_progressed job j'" "view r = (view (LwJobs x))(key (LjReference job) \<mapsto> j')" "running = Some j'"
    have ref: "LjReference j' = LjReference job" using j'(3) by (simp add: job_progressed_def)
    show ?thesis
      by (rule world_ok_changed [OF assms(3), of y j' "before @ after" "[]" "LwRunning x" "[j']"])
        (use j' ref world_ok_distinct [OF assms(3)] start(1,2) in \<open>auto simp: list_of_option_def\<close>)
  qed
next
  case (finish before job after env failure r w)
  have x: "ok (LwJobs x)" "view (LwJobs x) (key (LjReference job)) = Some job" "LjState job = JobRunning"
    using assms(3) finish(2) by (auto simp: world_ok_def goroutine_ok_def)
  show ?thesis
  proof (rule finish_effect [OF assms(2) x finish(3)])
    assume "ok r" "view r = view (LwJobs x)"
    then show ?thesis using finish(1,2) world_ok_distinct [OF assms(3)] by (intro world_ok_same [OF assms(3)]) auto
  next
    fix j'
    assume j': "ok r" "job_progressed job j'" "view r = (view (LwJobs x))(key (LjReference job) \<mapsto> j')"
    have ref: "LjReference j' = LjReference job" using j'(2) by (simp add: job_progressed_def)
    show ?thesis
      by (rule world_ok_changed [OF assms(3), of y j' "LwPending x" "[]" "before @ after" "[]"])
        (use j' ref world_ok_distinct [OF assms(3)] finish(1,2) in auto)
  qed
qed

lemma step_world_ok:
  assumes "load_step s reopen x y" "SvJobs s = repo" "world_ok x"
  shows "world_ok y"
  using assms(1)
proof cases
  case (submit fresh reference configuration now answer started r)
  have x: "ok (LwJobs x)" using assms(3) by (simp add: world_ok_def)
  show ?thesis
  proof (rule submit_effect [OF assms(2) x submit(2,3)])
    assume "ok r" "view r = view (LwJobs x)" "started = None"
    then show ?thesis using submit(1) world_ok_distinct [OF assms(3)] by (intro world_ok_same [OF assms(3)]) (auto simp: list_of_option_def)
  next
    fix j
    assume j: "ok r" "LjState j = JobPending" "view (LwJobs x) (key (LjReference j)) = None"
      "view r = (view (LwJobs x))(key (LjReference j) \<mapsto> j)" "started = None \<or> started = Some j \<and> answer = Inr j"
    have free: "key (LjReference j) \<notin> (\<lambda>j. key (LjReference j)) ` set (LwPending x @ LwRunning x)"
      using assms(3) j(3) by (auto simp: world_ok_def list_all_iff goroutine_ok_def)
    show ?thesis
      by (rule world_ok_changed [OF assms(3), of y j "LwPending x" "list_of_option started" "LwRunning x" "[]"])
        (use j free world_ok_distinct [OF assms(3)] submit(1) in \<open>auto simp: list_of_option_def\<close>)
  qed
next
  case (get reference answer r)
  have x: "ok (LwJobs x)" using assms(3) by (simp add: world_ok_def)
  then show ?thesis using get(1) read_effect(1) [OF assms(2) x get(2)] world_ok_distinct [OF assms(3)]
    by (intro world_ok_same [OF assms(3)]) auto
next
  case (list project location answers r)
  have x: "ok (LwJobs x)" using assms(3) by (simp add: world_ok_def)
  then show ?thesis using list(1) read_effect(2) [OF assms(2) x list(2)] world_ok_distinct [OF assms(3)]
    by (intro world_ok_same [OF assms(3)]) auto
next
  case work
  then show ?thesis using work_world_ok assms(2,3) by blast
next
  case (restart now r w)
  then show ?thesis using assms(3) reopen_jobs [of "LwJobs x" now r] by (simp add: world_ok_def)
qed

text \<open>What the goroutines do to the view: a job moves on or nothing changes.\<close>

lemma work_view:
  assumes "load_work s x y" "SvJobs s = repo" "world_ok x"
  obtains (same) "view (LwJobs y) = view (LwJobs x)" "LwRun y = LwRun x"
    | (started) j j' where "view (LwJobs x) (key (LjReference j)) = Some j" "LjState j = JobPending" "LjState j' = JobRunning"
        "job_progressed j j'" "view (LwJobs y) = (view (LwJobs x))(key (LjReference j) \<mapsto> j')" "LwRun y = LwRun x @ [LjReference j]"
    | (ended) j j' where "view (LwJobs x) (key (LjReference j)) = Some j" "LjState j' = JobDone"
        "job_progressed j j'" "view (LwJobs y) = (view (LwJobs x))(key (LjReference j) \<mapsto> j')" "LwRun y = LwRun x"
  using assms(1)
proof cases
  case (start before job after env running r)
  have x: "ok (LwJobs x)" "view (LwJobs x) (key (LjReference job)) = Some job"
    using assms(3) start(2) by (auto simp: world_ok_def goroutine_ok_def)
  show thesis
  proof (rule start_effect [OF assms(2) x start(3)])
    assume "view r = view (LwJobs x)" "running = None"
    then show thesis using start(1) by (intro same) (simp_all add: list_of_option_def)
  next
    fix j'
    assume j': "LjState job = JobPending" "LjState j' = JobRunning" "job_progressed job j'"
      "view r = (view (LwJobs x))(key (LjReference job) \<mapsto> j')" "running = Some j'"
    then show thesis using start(1) x(2) by (intro started [of job j']) (simp_all add: list_of_option_def job_progressed_def)
  qed
next
  case (finish before job after env failure r w)
  have x: "ok (LwJobs x)" "view (LwJobs x) (key (LjReference job)) = Some job" "LjState job = JobRunning"
    using assms(3) finish(2) by (auto simp: world_ok_def goroutine_ok_def)
  show thesis
  proof (rule finish_effect [OF assms(2) x finish(3)])
    assume "view r = view (LwJobs x)"
    then show thesis using finish(1) by (intro same) simp_all
  next
    fix j'
    assume "LjState j' = JobDone" "job_progressed job j'" "view r = (view (LwJobs x))(key (LjReference job) \<mapsto> j')"
    then show thesis using finish(1) x(2) by (intro ended [of job j']) simp_all
  qed
qed

end

text \<open>Jobs appear PENDING, and from then on they stay and progress.\<close>

definition view_progressed :: "('k \<rightharpoonup> LoadJob) \<Rightarrow> ('k \<rightharpoonup> LoadJob) \<Rightarrow> bool" where
  "view_progressed v v' \<longleftrightarrow>
     (\<forall>k j. v k = Some j \<longrightarrow> (\<exists>j'. v' k = Some j' \<and> job_progressed j j'))"

lemma view_progressed_refl [simp]: "view_progressed v v" by (simp add: view_progressed_def)

lemma view_progressed_trans: "view_progressed u v \<Longrightarrow> view_progressed v w \<Longrightarrow> view_progressed u w"
  unfolding view_progressed_def using job_progressed_trans by blast

lemma view_progressed_update:
  "v k = None \<or> (\<exists>j. v k = Some j \<and> job_progressed j j') \<Longrightarrow> view_progressed v (v(k \<mapsto> j'))"
  by (auto simp: view_progressed_def)

lemma progressed_not_pending: "job_progressed j j' \<Longrightarrow> LjState j \<noteq> JobPending \<Longrightarrow> LjState j' \<noteq> JobPending"
  by (auto simp: job_progressed_def)

lemma progressed_done: "job_progressed j j' \<Longrightarrow> LjState j = JobDone \<Longrightarrow> j' = j"
  by (auto simp: job_progressed_def)

locale durable_load_jobs = load_jobs_restart +
  assumes reopen_keeps: "ok r \<Longrightarrow> reopen now r = Some r' \<Longrightarrow> dom (view r) \<subseteq> dom (view r')"
begin

lemma step_progress:
  assumes "load_step s reopen x y" "SvJobs s = repo" "world_ok x"
  shows "view_progressed (view (LwJobs x)) (view (LwJobs y))"
  using assms(1)
proof cases
  case (submit fresh reference configuration now answer started r)
  have x: "ok (LwJobs x)" using assms(3) by (simp add: world_ok_def)
  show ?thesis
    by (rule submit_effect [OF assms(2) x submit(2,3)]) (use submit(1) in \<open>auto intro: view_progressed_update\<close>)
next
  case (get reference answer r)
  have x: "ok (LwJobs x)" using assms(3) by (simp add: world_ok_def)
  show ?thesis using get(1) read_effect(1) [OF assms(2) x get(2)] by simp
next
  case (list project location answers r)
  have x: "ok (LwJobs x)" using assms(3) by (simp add: world_ok_def)
  show ?thesis using list(1) read_effect(2) [OF assms(2) x list(2)] by simp
next
  case work
  show ?thesis by (rule work_view [OF work assms(2,3)]) (auto intro: view_progressed_update)
next
  case (restart now r w)
  have x: "ok (LwJobs x)" using assms(3) by (simp add: world_ok_def)
  show ?thesis unfolding view_progressed_def
  proof (intro allI impI)
    fix k j assume j: "view (LwJobs x) k = Some j"
    then obtain j' where "view r k = Some j'" using reopen_keeps [OF x restart(2)] by blast
    then show "\<exists>j'. view (LwJobs y) k = Some j' \<and> job_progressed j j'"
      using reopen_jobs [OF x restart(2)] j restart(1) by fastforce
  qed
qed

lemma steps_progress:
  assumes "(load_step s reopen)\<^sup>*\<^sup>* x y" "SvJobs s = repo" "world_ok x"
  shows "world_ok y \<and> view_progressed (view (LwJobs x)) (view (LwJobs y))"
  using assms(1)
proof (induction rule: rtranclp_induct)
  case (step y z)
  then show ?case using step_world_ok [OF _ assms(2)] step_progress [OF _ assms(2)] view_progressed_trans by blast
qed (use assms(3) in simp)

text \<open>The jobs that were run are known to the repository and not PENDING, so none is run again.\<close>

definition runs_ok :: "('a, 'w) LoadWorld \<Rightarrow> bool" where
  "runs_ok x \<longleftrightarrow>
     distinct (map key (LwRun x)) \<and> (\<forall>reference \<in> set (LwRun x). \<exists>j. view (LwJobs x) (key reference) = Some j \<and> LjState j \<noteq> JobPending)"

lemma runs_ok_keep:
  assumes "runs_ok x" "view_progressed (view (LwJobs x)) (view (LwJobs y))" "LwRun y = LwRun x"
  shows "runs_ok y"
  using assms progressed_not_pending unfolding runs_ok_def view_progressed_def by metis

lemma step_runs_ok:
  assumes "load_step s reopen x y" "SvJobs s = repo" "world_ok x" "runs_ok x"
  shows "runs_ok y"
proof -
  note keep = runs_ok_keep [OF assms(4) step_progress [OF assms(1-3)]]
  from assms(1) show ?thesis
  proof cases
    case work
    then show ?thesis
    proof (rule work_view [OF _ assms(2,3)])
      fix j j'
      assume j: "view (LwJobs x) (key (LjReference j)) = Some j" "LjState j = JobPending" "LjState j' = JobRunning"
        "view (LwJobs y) = (view (LwJobs x))(key (LjReference j) \<mapsto> j')" "LwRun y = LwRun x @ [LjReference j]"
      have "key (LjReference j) \<notin> key ` set (LwRun x)" using assms(4) j(1,2) unfolding runs_ok_def by force
      then show ?thesis using assms(4) j unfolding runs_ok_def by auto
    qed (use keep in auto)
  qed (use keep in auto)
qed

lemma steps_runs_ok:
  assumes "(load_step s reopen)\<^sup>*\<^sup>* x y" "SvJobs s = repo" "world_ok x" "runs_ok x"
  shows "runs_ok y"
  using assms(1)
proof (induction rule: rtranclp_induct)
  case (step y z)
  then show ?case using step_runs_ok [OF _ assms(2)] steps_progress [OF _ assms(2,3)] by blast
qed (use assms(4) in simp)

lemma start_ok: "ok r \<Longrightarrow> world_ok (load_start r w) \<and> runs_ok (load_start r w)"
  by (simp add: load_start_def world_ok_def runs_ok_def)

end

section \<open>Goroutines end\<close>

definition statistics_ok :: "LoadStatistics \<Rightarrow> bool" where
  "statistics_ok st \<longleftrightarrow> 0 \<le> LsInputFiles st \<and> 0 \<le> LsInputBytes st \<and> 0 \<le> LsOutputBytes st \<and> 0 \<le> LsOutputRows st"

lemma copy_limited_nonneg: "copy_limited c a = (written, err) \<Longrightarrow> 0 \<le> written"
  by (auto simp: copy_limited_def Let_def split: if_splits)

lemma download_nonneg:
  assumes "limits_ok c" "0 \<le> b" "b \<le> LfMaxTotalBytes c" "download c env workspace i objects b = (res, downloaded)"
  shows "0 \<le> downloaded"
  using assms(2-4)
proof (induction objects arbitrary: i b res)
  case (Cons x xs)
  obtain written err where copied: "copy_limited c (EvDownload env i) = (written, err)" by fastforce
  have nonneg: "0 \<le> written" using copy_limited_nonneg [OF copied] .
  have room: "wrap64 (LfMaxTotalBytes c - b) = LfMaxTotalBytes c - b" "in_i64 (LfMaxTotalBytes c)"
    using assms(1) Cons.prems by (auto intro!: wrap64_id simp: limits_ok_def in_i64_def)
  show ?case
  proof (cases "downloaded = b")
    case False
    then have within: "written \<le> LfMaxTotalBytes c - b"
      using Cons.prems(3) copied room(1) by (auto simp: Let_def split: option.splits sum.splits if_splits)
    then have next_total: "i64_add b written = b + written"
      using nonneg room(2) Cons.prems by (intro i64_add_exact) (auto simp: in_i64_def)
    have "downloaded = b + written \<or> (\<exists>res'. download c env workspace (Suc i) xs (b + written) = (res', downloaded))"
      using Cons.prems(3) False copied next_total by (auto simp: Let_def split: option.splits sum.splits if_splits prod.splits)
    then show ?thesis using Cons.IH [of "b + written" "Suc i"] Cons.prems nonneg within by auto
  qed (use Cons.prems in simp)
qed simp

definition loader_counts :: "'w Loader \<Rightarrow> bool" where
  "loader_counts loader \<longleftrightarrow> (\<forall>plan local w. 0 \<le> fst (fst (LdExecuteLoad loader plan local w)))"

lemma load_run_statistics:
  assumes "limits_ok (SvConfig s)" "loader_counts (SvLoader s)" "load_run s env job w = ((statistics, err), w')"
  shows "statistics_ok statistics"
proof -
  have "0 \<le> LfMaxTotalBytes (SvConfig s)"
    using assms(1) by (auto simp: limits_ok_def LoadServiceConfig_Validate_def split: if_splits)
  then have downloaded: "0 \<le> downloaded" if "download (SvConfig s) env workspace 0 objects 0 = (res, downloaded)"
    for workspace objects res downloaded
    using download_nonneg [OF assms(1) _ _ that] by simp
  have rows: "0 \<le> n" if "LdExecuteLoad (SvLoader s) plan local w = ((n, e), w1)" for plan local n e w1
    using assms(2) that unfolding loader_counts_def by (metis fst_conv)
  show ?thesis using assms(3) downloaded rows
    by (auto simp: load_run_def run_workspace_def statistics_ok_def no_statistics_def Let_def
        split: sum.splits prod.splits option.splits)
qed

definition goroutines_left :: "('r, 'w) LoadWorld \<Rightarrow> nat" where
  "goroutines_left x = 2 * length (LwPending x) + length (LwRunning x)"

lemma work_decreases: "load_work s x y \<Longrightarrow> goroutines_left y < goroutines_left x"
  by (auto simp: load_work.simps goroutines_left_def list_of_option_def split: option.splits)

lemma work_possible:
  assumes "goroutines_left x \<noteq> 0"
  shows "\<exists>y. load_work s x y"
proof (cases "LwPending x")
  case (Cons job after)
  then show ?thesis
    by (metis load_work.start [of x "[]" job after] append_Nil prod.exhaust)
next
  case Nil
  then obtain job after where "LwRunning x = [] @ job # after"
    using assms by (cases "LwRunning x") (auto simp: goroutines_left_def)
  then show ?thesis by (metis load_work.finish prod.exhaust)
qed

text \<open>Every goroutine can be run to its end.\<close>

lemma work_terminates: "\<exists>z. (load_work s)\<^sup>*\<^sup>* x z \<and> goroutines_left z = 0"
proof (induction "goroutines_left x" arbitrary: x rule: less_induct)
  case less
  show ?case
  proof (cases "goroutines_left x = 0")
    case False
    then obtain y where y: "load_work s x y" using work_possible by blast
    then obtain z where "(load_work s)\<^sup>*\<^sup>* y z" "goroutines_left z = 0" using less work_decreases by blast
    with y show ?thesis by (meson converse_rtranclp_into_rtranclp)
  qed blast
qed

text \<open>A repository that answers: while it is healthy, an update of a stored job succeeds.\<close>

locale answering_load_jobs = durable_load_jobs +
  fixes healthy :: "'a \<Rightarrow> bool"
  assumes healthy_update:
    "ok r \<Longrightarrow> healthy r \<Longrightarrow> view r (key (LjReference j)) = Some j \<Longrightarrow> job_progressed j j' \<Longrightarrow> job_ok j' \<Longrightarrow>
     LjStatistics j' = LjStatistics j \<or> statistics_ok (LjStatistics j') \<Longrightarrow> \<exists>r'. JrUpdate repo j' r = (None, r') \<and> healthy r'"
begin

text \<open>The keys that are still worked on or done.\<close>

definition served :: "('a, 'w) LoadWorld \<Rightarrow> 'b set" where
  "served x = (\<lambda>j. key (LjReference j)) ` set (LwPending x @ LwRunning x) \<union> {k. \<exists>j. view (LwJobs x) k = Some j \<and> LjState j = JobDone}"

lemma ended_job_statistics:
  "LjState j = JobRunning \<Longrightarrow> LjStatistics (ended_job statistics err now j) = statistics"
  by (auto simp: ended_job_def LoadJob_Complete_def LoadJob_Fail_def split: option.splits prod.splits)

lemma work_healthy:
  assumes "load_work s x y" "SvJobs s = repo" "world_ok x" "healthy (LwJobs x)" "limits_ok (SvConfig s)" "loader_counts (SvLoader s)"
  shows "healthy (LwJobs y) \<and> served x \<subseteq> served y"
  using assms(1)
proof cases
  case (start before job after env running r)
  have x: "ok (LwJobs x)" "view (LwJobs x) (key (LjReference job)) = Some job" "LjState job = JobPending"
    using assms(3) start(2) by (auto simp: world_ok_def goroutine_ok_def)
  have job: "job_ok job" using view_job [OF x(1,2)] by blast
  obtain j' where j': "LoadJob_Start (EvStartedAt env) job = Inr j'" "LjStatistics j' = LjStatistics job"
    using x(3) by (auto simp: LoadJob_Start_def)
  note progress = LoadJob_Start_progress [OF j'(1) job]
  obtain r1 where r1: "JrUpdate repo j' (LwJobs x) = (None, r1)" "healthy r1"
    using healthy_update [OF x(1) assms(4) x(2)] progress LoadJob_Start_ok [OF j'(1) job] j'(2) by blast
  then have step: "r = r1" "running = Some j'" using start(3) assms(2) j'(1) by (auto simp: execute_start_def)
  have "LjReference j' = LjReference job" using progress by (simp add: job_progressed_def)
  moreover have "view r = (view (LwJobs x))(key (LjReference job) \<mapsto> j')"
    by (rule start_effect [OF assms(2) x(1,2) start(3)]) (use step in auto)
  ultimately have "served x \<subseteq> served y"
    using start(1,2) step x(2,3) by (auto simp: served_def list_of_option_def)
  then show ?thesis using start(1) step r1 by simp
next
  case (finish before job after env failure r w)
  have x: "ok (LwJobs x)" "view (LwJobs x) (key (LjReference job)) = Some job" "LjState job = JobRunning"
    using assms(3) finish(2) by (auto simp: world_ok_def goroutine_ok_def)
  have job: "job_ok job" using view_job [OF x(1,2)] by blast
  obtain statistics err w1 where run: "load_run s env job (LwWarehouse x) = ((statistics, err), w1)" by (metis prod.exhaust)
  define j' where "j' = ended_job statistics err (EvEndedAt env) job"
  have "LjStatistics j' = statistics" using ended_job_statistics [OF x(3)] by (simp add: j'_def)
  then have "\<exists>r1. JrUpdate repo j' (LwJobs x) = (None, r1) \<and> healthy r1"
    using ended_job_progress [OF x(3) job] load_run_statistics [OF assms(5,6) run]
    by (intro healthy_update [OF x(1) assms(4) x(2)]) (simp_all add: j'_def)
  then obtain r1 where r1: "JrUpdate repo j' (LwJobs x) = (None, r1)" "healthy r1" by blast
  then have step: "r = r1" "failure = None" using finish(3) assms(2) run by (auto simp: execute_finish_def j'_def split: prod.splits)
  obtain j'' where "LjState j'' = JobDone" "view r = (view (LwJobs x))(key (LjReference job) \<mapsto> j'')"
    by (rule finish_effect [OF assms(2) x finish(3)]) (use step in auto)
  then have "served x \<subseteq> served y" using finish(1,2) x(2,3) by (auto simp: served_def)
  then show ?thesis using finish(1) step r1 by simp
qed

lemma works_healthy:
  assumes "(load_work s)\<^sup>*\<^sup>* x y" "SvJobs s = repo" "world_ok x" "healthy (LwJobs x)" "limits_ok (SvConfig s)" "loader_counts (SvLoader s)"
  shows "world_ok y \<and> healthy (LwJobs y) \<and> served x \<subseteq> served y"
  using assms(1)
proof (induction rule: rtranclp_induct)
  case (step y z)
  then show ?case using work_healthy [OF _ assms(2) _ _ assms(5,6)] work_world_ok [OF _ assms(2)] by blast
qed (use assms(3,4) in simp)

lemma goroutines_finish:
  assumes "(load_work s)\<^sup>*\<^sup>* x z" "goroutines_left z = 0" "SvJobs s = repo" "world_ok x" "healthy (LwJobs x)"
    and "limits_ok (SvConfig s)" "loader_counts (SvLoader s)" "j \<in> set (LwPending x @ LwRunning x)"
  shows "\<exists>j'. view (LwJobs z) (key (LjReference j)) = Some j' \<and> LjState j' = JobDone"
proof -
  have "key (LjReference j) \<in> served z" using works_healthy [OF assms(1,3-7)] assms(8) unfolding served_def by blast
  then show ?thesis using assms(2) by (auto simp: served_def goroutines_left_def)
qed

end

section \<open>The two repositories\<close>

text \<open>The process-local repository starts empty; within a process there is no restart, and it always answers.\<close>

interpretation memory_restart: load_jobs_restart memory_jobs memory_ok jobKey gm_get "(=)" "\<lambda>_ _. Some []"
  by unfold_locales (auto simp: memory_ok_def)

interpretation memory_process: answering_load_jobs memory_jobs memory_ok jobKey gm_get "(=)" "\<lambda>_ _. None" "\<lambda>_. True"
proof
  fix r :: MemoryJobRepository and j j'
  assume "gm_get r (jobKey (LjReference j)) = Some j" "job_progressed j j'"
  then show "\<exists>r'. JrUpdate memory_jobs j' r = (None, r') \<and> True"
    by (simp add: memory_jobs_def memory_Update_def job_progressed_def)
qed simp_all

text \<open>The table is reopened by reconciling the jobs that were interrupted; it answers while no statement fails.\<close>

definition sqlite_reopen :: "time \<Rightarrow> LoadDB \<Rightarrow> LoadDB option" where
  "sqlite_reopen now db = (case reconcileInterruptedJobs now db of (None, db') \<Rightarrow> Some db' | (Some _, _) \<Rightarrow> None)"

lemma sqlite_reopen_rows:
  assumes "sqlite_reopen now db = Some db'"
  shows "LdRows db' = map (\<lambda>(k, j). (k, interrupted_job now j)) (LdRows db)"
    and "load_view db' k = map_option (interrupted_job now) (load_view db k)"
proof -
  obtain f db1 where f: "next_fault db = (f, db1)" by (cases "next_fault db")
  then show rows: "LdRows db' = map (\<lambda>(k, j). (k, interrupted_job now j)) (LdRows db)"
    using assms by (auto simp: sqlite_reopen_def reconcileInterruptedJobs_def split: option.splits)
  show "load_view db' k = map_option (interrupted_job now) (load_view db k)"
    unfolding rows by (simp add: map_of_map)
qed

lemma sqlite_reopen_ok:
  assumes "sqlite_ok db" "sqlite_reopen now db = Some db'"
  shows "sqlite_ok db'"
proof -
  have "map fst (LdRows db') = map fst (LdRows db)" unfolding sqlite_reopen_rows(1) [OF assms(2)] by auto
  moreover have "k = load_key (LjReference j') \<and> job_ok j' \<and> job_text j' \<and> load_jobs_CHECK j' \<and> validateLoadJobReference (LjReference j') = None"
    if j': "load_view db' k = Some j'" for k j'
  proof -
    obtain j where j: "load_view db k = Some j" "j' = interrupted_job now j"
      using j' sqlite_reopen_rows(2) [OF assms(2), of k] by auto
    note facts = sqlite_okD [OF assms(1) j(1)]
    have "load_jobs_CHECK j'" using facts j(2) by (auto simp: load_jobs_CHECK_def interrupted_job_def)
    moreover have "LjReference j' = LjReference j" "job_text j' = job_text j" "job_ok j'"
      using interrupted_job_progress(2,3) [of j now] facts j(2) job_text_progressed by (auto simp: job_progressed_def)
    ultimately show ?thesis using facts by simp
  qed
  ultimately show ?thesis using assms(1) unfolding sqlite_ok_def by auto
qed

lemma sqlite_update_answers:
  assumes "sqlite_ok db" "LdFaults db = []" "load_view db (load_key (LjReference j)) = Some j" "job_progressed j j'" "job_ok j'"
    and "LjStatistics j' = LjStatistics j \<or> statistics_ok (LjStatistics j')"
  shows "\<exists>db'. JrUpdate sqlite_jobs j' db = (None, db') \<and> LdFaults db' = []"
proof -
  note facts = sqlite_okD [OF assms(1,3)]
  have same: "LjReference j' = LjReference j" "LjConfigurationDigest j' = LjConfigurationDigest j"
    using assms(4) by (auto simp: job_progressed_def)
  have "encodeLoadJob j' = Inr j'" using facts same job_ok_NewJob [OF assms(5), of "LjCreatedAt j'"] by (simp add: encodeLoadJob_def)
  moreover have "load_jobs_CHECK j'"
  proof -
    have "LjState j' = JobPending \<and> LjStartedAt j' = None \<and> LjEndedAt j' = None
        \<or> LjState j' = JobRunning \<and> LjStartedAt j' \<noteq> None \<and> LjEndedAt j' = None \<or> LjState j' = JobDone \<and> LjEndedAt j' \<noteq> None"
      using assms(5) unfolding job_ok_def job_progress_def by (cases "LjState j'") simp_all
    then show ?thesis using facts same assms(6) unfolding load_jobs_CHECK_def statistics_ok_def by metis
  qed
  ultimately show ?thesis
    using assms(2,3) same(1) by (simp add: sqlite_jobs_def sqlite_UpdateLoadJob_def next_fault_def)
qed

interpretation sqlite_process:
  answering_load_jobs sqlite_jobs sqlite_ok load_key load_view "\<lambda>a b. strings_ToUpper a = strings_ToUpper b" sqlite_reopen
    "\<lambda>db. LdFaults db = []"
proof
  fix r r' and now :: time
  assume r: "sqlite_ok r" "sqlite_reopen now r = Some r'"
  show "sqlite_ok r' \<and> (\<forall>k j'. load_view r' k = Some j' \<longrightarrow> LjState j' = JobDone \<and> (\<exists>j. load_view r k = Some j \<and> job_progressed j j'))"
    using sqlite_reopen_ok [OF r] sqlite_reopen_rows(2) [OF r(2)] interrupted_job_progress(1,2) by auto
  show "dom (load_view r) \<subseteq> dom (load_view r')" using sqlite_reopen_rows(2) [OF r(2)] by auto
qed (rule sqlite_update_answers)

section \<open>Load jobs in SQLite\<close>

lemma sqlite_reachable:
  assumes "SvJobs s = sqlite_jobs" "sqlite_ok db" "(load_step s sqlite_reopen)\<^sup>*\<^sup>* (load_start db w) x"
  shows "sqlite_process.world_ok x" "sqlite_process.runs_ok x"
  using sqlite_process.start_ok [OF assms(2), of w] sqlite_process.steps_progress [OF assms(3,1)]
    sqlite_process.steps_runs_ok [OF assms(3,1)] by simp_all

text \<open>
  C34. A load job runs at most once: in every sequence of submissions, reads, goroutine steps and restarts on the SQLite
  repository, however often its statements fail and whatever the restarts interrupt, no two of the jobs that were given to \<open>run\<close> have
  the same project, location, ignoring case, and ID, and none of them is PENDING again.
\<close>

theorem load_job_runs_at_most_once:
  assumes "SvJobs s = sqlite_jobs" and "sqlite_ok db" and "(load_step s sqlite_reopen)\<^sup>*\<^sup>* (load_start db w) x"
  shows "distinct (map load_key (LwRun x))
    \<and> (\<forall>reference \<in> set (LwRun x). \<exists>j. load_view (LwJobs x) (load_key reference) = Some j \<and> LjState j \<noteq> JobPending)"
  using sqlite_reachable(2) [OF assms] unfolding sqlite_process.runs_ok_def .

lemma validateUniqueSchemaFields_error: "validateUniqueSchemaFields seen fs = Some e \<Longrightarrow> e = [LoadErrInvalid]"
  by (induction seen fs rule: validateUniqueSchemaFields.induct) (auto simp: Let_def split: if_splits option.splits)

lemma NewJob_error: "NewJob ref c now = Inl e \<Longrightarrow> e \<noteq> [LoadErrConflict]"
  by (auto simp: NewJob_def Let_def validateReference_def ValidateConfiguration_def ValidateSchema_def
      dest: validateUniqueSchemaFields_error split: option.splits if_splits)

lemma sqlite_CreateOrGet_error: "sqlite_CreateOrGetLoadJob j db = (Inl e, db') \<Longrightarrow> e \<noteq> [LoadErrConflict]"
  by (auto simp: sqlite_CreateOrGetLoadJob_def sqlite_GetLoadJob_def encodeLoadJob_def validateLoadJobReference_def loadJobRepositoryError_def
      Let_def dest: NewJob_error split: sum.splits option.splits if_splits prod.splits)


text \<open>
  C35. The stored jobs keep their type and only move forward: every job in the table is well formed (a normalized and valid
  configuration, the digest of this configuration, and times and error that fit its state), and whatever happens later, restarts
  included, the job is still stored, with the same reference, configuration, digest and creation time, in the same or a later state;
  a job that is DONE never changes again.
\<close>

theorem load_jobs_move_forward:
  assumes "SvJobs s = sqlite_jobs" and "sqlite_ok db" and "(load_step s sqlite_reopen)\<^sup>*\<^sup>* (load_start db w) x"
    and "(load_step s sqlite_reopen)\<^sup>*\<^sup>* x y" and "load_view (LwJobs x) k = Some j"
  shows "job_ok j \<and> (\<exists>j'. load_view (LwJobs y) k = Some j' \<and> job_ok j' \<and> job_progressed j j' \<and> (LjState j = JobDone \<longrightarrow> j' = j))"
proof -
  have x: "sqlite_process.world_ok x" by (rule sqlite_reachable(1) [OF assms(1-3)])
  then have y: "sqlite_process.world_ok y" "view_progressed (load_view (LwJobs x)) (load_view (LwJobs y))"
    using sqlite_process.steps_progress [OF assms(4,1)] by blast+
  then obtain j' where j': "load_view (LwJobs y) k = Some j'" "job_progressed j j'" using assms(5) unfolding view_progressed_def by blast
  have "job_ok j" "job_ok j'"
    using x y(1) assms(5) j'(1) sqlite_okD unfolding sqlite_process.world_ok_def by blast+
  then show ?thesis using j' progressed_done by blast
qed

text \<open>
  C36. The goroutines of load jobs end: every step of a goroutine reduces twice the number of waiting jobs plus the number of running
  jobs, so no sequence of such steps goes on for ever and the goroutines can always be run to their end; and when they have
  ended and SQLite answered, every job that had a goroutine is DONE.
\<close>

theorem load_goroutines_end:
  assumes "SvJobs s = sqlite_jobs" and "sqlite_ok db" and "limits_ok (SvConfig s)" and "loader_counts (SvLoader s)"
    and "(load_step s sqlite_reopen)\<^sup>*\<^sup>* (load_start db w) x"
  shows "(\<forall>y. load_work s x y \<longrightarrow> goroutines_left y < goroutines_left x)
    \<and> (\<exists>z. (load_work s)\<^sup>*\<^sup>* x z \<and> goroutines_left z = 0)
    \<and> (\<forall>z j. LdFaults (LwJobs x) = [] \<longrightarrow> (load_work s)\<^sup>*\<^sup>* x z \<longrightarrow> goroutines_left z = 0 \<longrightarrow> j \<in> set (LwPending x @ LwRunning x) \<longrightarrow>
         (\<exists>j'. load_view (LwJobs z) (load_key (LjReference j)) = Some j' \<and> LjState j' = JobDone))"
proof -
  have "sqlite_process.world_ok x" by (rule sqlite_reachable(1) [OF assms(1,2,5)])
  then show ?thesis
    using work_decreases work_terminates sqlite_process.goroutines_finish [OF _ _ assms(1) _ _ assms(3,4)] by blast
qed

section \<open>An example\<close>

lemma sqlite_length_hex:
  assumes "list_all is_hex s"
  shows "sqlite_length s = length s"
proof -
  have "list_all is_hex s \<Longrightarrow> sqlite_length_from False s = length s"
    by (induction s) (auto simp: is_hex_def)
  with assms show ?thesis by (simp add: sqlite_length_def)
qed

lemma sqlite_creates:
  assumes "LdFaults db = []" "load_view db (load_key (LjReference j)) = None" "job_ok j" "job_text j"
    and "validateLoadJobReference (LjReference j) = None" "load_jobs_CHECK j" "rfc3339_year (LjCreatedAt j)" "LjState j = JobPending"
  shows "sqlite_CreateOrGetLoadJob j db = (Inr (j, True), db\<lparr>LdRows := gm_put (load_key (LjReference j)) j (LdRows db)\<rparr>)"
proof -
  have times: "LjStartedAt j = None" "LjEndedAt j = None" using assms(3,8) by (auto simp: job_ok_def job_progress_def)
  have "encodeLoadJob j = Inr j" using assms(3,5) job_ok_NewJob [OF assms(3), of "LjCreatedAt j"] by (simp add: encodeLoadJob_def)
  moreover have "scanLoadJob j = Inr j"
    using assms(3,4,7) times job_ok_NewJob [OF assms(3), of "LjCreatedAt j"]
    by (simp add: scanLoadJob_def decodeTime_def decodeOptionalTime_def job_text_def stored_configuration_valid)
  ultimately show ?thesis using assms(1,2,5,6)
    by (simp add: sqlite_CreateOrGetLoadJob_def sqlite_GetLoadJob_def next_fault_def Let_def)
qed

definition example_configuration :: LoadConfiguration where
  "example_configuration =
     \<lparr>LcSourceURIs = [''gs://b/a''], LcDestination = LoReference example_table, LcSourceFormat = FormatParquet,
      LcWriteDisposition = WriteTruncate, LcCreateDisposition = CreateNever, LcSchema = [], LcAutodetect = False,
      LcSchemaUpdateOptions = [], LcIgnoreUnknownValues = False, LcMaxBadRecords = 0, LcUnsupportedOptions = []\<rparr>"

definition example_reference :: LoadJobReference where
  "example_reference = \<lparr>LrProjectID = ''project'', LrLocation = ''US'', LrJobID = ''j''\<rparr>"

definition example_submitted :: LoadJob where
  "example_submitted =
     \<lparr>LjReference = example_reference, LjConfiguration = example_configuration,
      LjConfigurationDigest = ConfigurationDigest example_configuration, LjState = JobPending, LjError = None,
      LjStatistics = no_statistics, LjCreatedAt = 10, LjStartedAt = None, LjEndedAt = None\<rparr>"

definition example_service :: "(LoadDB, nat) LoadService" where
  "example_service =
     \<lparr>SvJobs = sqlite_jobs,
      SvLoader = \<lparr>LdPlanSchema = \<lambda>_. Inl [ErrUnsupported], LdPlanLoad = \<lambda>_. Inl [LoadErrInvalid], LdExecuteLoad = \<lambda>_ _ w. ((0, None), w)\<rparr>,
      SvConfig = load_DefaultConfig ''/tmp''\<rparr>"

lemma example_configuration_ok:
  "normalizeConfiguration example_configuration = example_configuration" "ValidateConfiguration example_configuration = None"
  "json_valid_strings (configuration_document example_configuration)" "validateReference example_reference = None"
  "validateLoadJobReference example_reference = None"
  by code_simp+

lemma example_submitted_ok: "job_ok example_submitted" "job_text example_submitted" "load_jobs_CHECK example_submitted"
  "NewJob example_reference example_configuration 10 = Inr example_submitted"
proof -
  show "NewJob example_reference example_configuration 10 = Inr example_submitted"
    by (simp add: NewJob_Inr example_configuration_ok example_submitted_def)
  then show "job_ok example_submitted" by (rule NewJob_ok)
  show "job_text example_submitted" by (simp add: job_text_def example_submitted_def example_configuration_ok)
  have "sqlite_length (ConfigurationDigest example_configuration) = 64"
    by (simp add: ConfigurationDigest_def sqlite_length_hex json_digest_hex)
  moreover have "0 < sqlite_length (strings_ToUpper (LrLocation example_reference))" "0 < sqlite_length (LrLocation example_reference)"
    "0 < sqlite_length (LrJobID example_reference)" by code_simp+
  ultimately show "load_jobs_CHECK example_submitted"
    by (simp add: load_jobs_CHECK_def example_submitted_def no_statistics_def)
qed

lemma example_submitted_fields [simp]: "LjReference example_submitted = example_reference" "LjState example_submitted = JobPending"
  "LjCreatedAt example_submitted = 10"
  by (simp_all add: example_submitted_def)

definition example_world :: "(LoadDB, nat) LoadWorld" where
  "example_world = load_start \<lparr>LdRows = [], LdFaults = []\<rparr> 0"

definition example_waiting :: "(LoadDB, nat) LoadWorld" where
  "example_waiting =
     example_world\<lparr>LwJobs := \<lparr>LdRows = [(load_key example_reference, example_submitted)], LdFaults = []\<rparr>, LwPending := [example_submitted]\<rparr>"

lemma example_ready: "SvJobs example_service = sqlite_jobs" "sqlite_ok \<lparr>LdRows = [], LdFaults = []\<rparr>"
  "limits_ok (SvConfig example_service)" "loader_counts (SvLoader example_service)"
  using example_limits(1) by (simp_all add: example_service_def sqlite_ok_def loader_counts_def)

lemma example_same: "submitted_reference example_service [] example_reference = example_reference"
  "submitted_configuration example_reference example_configuration = example_configuration"
  by (simp_all add: submitted_reference_def example_reference_def submitted_configuration_def example_configuration_def example_table_def)

lemma example_submit: "(load_step example_service sqlite_reopen)\<^sup>*\<^sup>* example_world example_waiting"
proof -
  have "sqlite_CreateOrGetLoadJob example_submitted \<lparr>LdRows = [], LdFaults = []\<rparr> =
      (Inr (example_submitted, True), \<lparr>LdRows = [(load_key example_reference, example_submitted)], LdFaults = []\<rparr>)"
    by (subst sqlite_creates)
      (simp_all add: example_submitted_ok example_configuration_ok rfc3339_year_def)
  then have "load_Submit example_service [] 10 example_reference example_configuration (LwJobs example_world) =
      (Inr example_submitted, Some example_submitted, \<lparr>LdRows = [(load_key example_reference, example_submitted)], LdFaults = []\<rparr>)"
    using example_ready(1)
    by (simp add: load_Submit_def example_same example_submitted_ok LoadJob_Clone_ok sqlite_jobs_def example_world_def load_start_def Let_def)
  moreover have "configuration_text (submitted_configuration (submitted_reference example_service [] example_reference) example_configuration)"
    by (simp add: example_same configuration_text_def example_configuration_ok)
  ultimately have "load_step example_service sqlite_reopen example_world example_waiting"
    using load_step.submit [of example_service "[]" example_reference example_configuration 10 example_world "Inr example_submitted" "Some example_submitted"]
    by (simp add: example_waiting_def list_of_option_def example_world_def load_start_def)
  then show ?thesis by (rule r_into_rtranclp)
qed

lemma example_start: "\<exists>x. load_work example_service example_waiting x \<and> LwRun x = [example_reference]"
proof -
  obtain running where j': "LoadJob_Start 20 example_submitted = Inr running"
    "LjStatistics running = LjStatistics example_submitted" "LjReference running = example_reference"
    by (auto simp: LoadJob_Start_def example_submitted_def)
  have "load_view (LwJobs example_waiting) (load_key (LjReference example_submitted)) = Some example_submitted"
    by (simp add: example_waiting_def example_submitted_def)
  moreover have "sqlite_ok (LwJobs example_waiting)"
    using sqlite_reachable(1) [OF example_ready(1,2) example_submit [unfolded example_world_def]]
    by (simp add: sqlite_process.world_ok_def)
  ultimately obtain db where "JrUpdate sqlite_jobs running (LwJobs example_waiting) = (None, db)"
    using sqlite_update_answers [of "LwJobs example_waiting" example_submitted running] j' LoadJob_Start_progress [OF j'(1) example_submitted_ok(1)]
      LoadJob_Start_ok [OF j'(1) example_submitted_ok(1)] by (auto simp: example_waiting_def)
  then have "execute_start example_service example_env example_submitted (LwJobs example_waiting) = (Some running, db)"
    using j'(1) example_ready(1) by (simp add: execute_start_def example_env_def)
  then show ?thesis
    using load_work.start [of example_waiting "[]" example_submitted "[]" example_service example_env "Some running" db] j'(3)
    by (force simp: example_waiting_def example_world_def load_start_def list_of_option_def)
qed

theorem load_job_runs_at_most_once_witness:
  "\<exists>x. (load_step example_service sqlite_reopen)\<^sup>*\<^sup>* example_world x \<and> LwRun x = [example_reference]
     \<and> distinct (map load_key (LwRun x))
     \<and> (\<exists>j. load_view (LwJobs x) (load_key example_reference) = Some j \<and> LjState j \<noteq> JobPending)"
proof -
  obtain x where x: "load_work example_service example_waiting x" "LwRun x = [example_reference]" using example_start by blast
  have "(load_step example_service sqlite_reopen)\<^sup>*\<^sup>* example_world x"
    using example_submit load_step.work [OF x(1), of sqlite_reopen] by (rule rtranclp.rtrancl_into_rtrancl)
  then show ?thesis
    using load_job_runs_at_most_once [OF example_ready(1,2), of 0 x] x(2) by (auto simp: example_world_def)
qed

theorem load_jobs_move_forward_witness:
  "job_ok example_submitted
   \<and> (\<exists>x j'. load_work example_service example_waiting x \<and> load_view (LwJobs x) (load_key example_reference) = Some j'
        \<and> job_ok j' \<and> job_progressed example_submitted j')"
proof -
  obtain x where x: "load_work example_service example_waiting x" using example_start by blast
  have "load_view (LwJobs example_waiting) (load_key example_reference) = Some example_submitted" by (simp add: example_waiting_def)
  from load_jobs_move_forward [OF example_ready(1,2) example_submit [unfolded example_world_def]
      r_into_rtranclp [of "load_step example_service sqlite_reopen", OF load_step.work, OF x] this]
  show ?thesis using x by blast
qed

theorem load_goroutines_end_witness:
  "\<exists>z j'. (load_work example_service)\<^sup>*\<^sup>* example_waiting z \<and> goroutines_left z = 0
     \<and> load_view (LwJobs z) (load_key example_reference) = Some j' \<and> LjState j' = JobDone"
proof -
  have "LdFaults (LwJobs example_waiting) = []" "example_submitted \<in> set (LwPending example_waiting @ LwRunning example_waiting)"
    "LjReference example_submitted = example_reference"
    by (simp_all add: example_waiting_def example_submitted_def)
  then show ?thesis
    using load_goroutines_end [OF example_ready example_submit [unfolded example_world_def]] by metis
qed

lemma example_resubmit:
  "load_Submit example_service [] 10 example_reference example_configuration (LwJobs example_waiting) =
     (Inr example_submitted, None, LwJobs example_waiting)"
proof -
  have "scanLoadJob example_submitted = Inr example_submitted" "encodeLoadJob example_submitted = Inr example_submitted"
    using job_ok_NewJob [OF example_submitted_ok(1), of 10] example_submitted_ok(2) example_configuration_ok(5)
    by (simp_all add: scanLoadJob_def encodeLoadJob_def decodeTime_def decodeOptionalTime_def job_text_def stored_configuration_valid
        rfc3339_year_def example_submitted_def)
  then have "sqlite_CreateOrGetLoadJob example_submitted (LwJobs example_waiting) = (Inr (example_submitted, False), LwJobs example_waiting)"
    by (simp add: sqlite_CreateOrGetLoadJob_def sqlite_GetLoadJob_def next_fault_def example_waiting_def example_submitted_ok
        example_configuration_ok Let_def)
  then show ?thesis
    using example_ready(1) by (simp add: load_Submit_def example_same example_submitted_ok sqlite_jobs_def Let_def)
qed


end
