(* ===== verification/Duckdb_Warehouse.thy ===== *)
theory Duckdb_Warehouse
  imports Load_Plan Engine_Planner
begin

text \<open>
  \<open>internal/adapters/duckdb\<close>: \<open>warehouse.go\<close>, \<open>schema_planning.go\<close> and \<open>capabilities.go\<close>, the physical tables of the warehouse
  and the statements that create, drop and widen them.

  DuckDB itself is an argument: a record of what a statement, a transaction and a query answer. The adapter opens one
  connection, so a transaction is a state of its own that becomes the database when it commits and is forgotten when it
  rolls back. The statements are the texts the code builds.
\<close>

section \<open>Names and quoting\<close>

definition hex_EncodeToString :: "string \<Rightarrow> string" where
  "hex_EncodeToString s = concat (map (\<lambda>c. [hex_char (of_char c div 16), hex_char (of_char c mod 16)]) s)"

definition physicalSchema :: "string \<Rightarrow> string \<Rightarrow> string" where
  "physicalSchema projectID datasetID = ''bq_'' @ hex_EncodeToString projectID @ ''_'' @ hex_EncodeToString datasetID"

fun double_char :: "char \<Rightarrow> string \<Rightarrow> string" where
  "double_char q [] = []"
| "double_char q (c # cs) = (if c = q then [q, q] else [c]) @ double_char q cs"

definition quoteIdentifier :: "string \<Rightarrow> string" where
  "quoteIdentifier identifier = CHR 0x22 # double_char (CHR 0x22) identifier @ [CHR 0x22]"

definition quoteSQLString :: "string \<Rightarrow> string" where
  "quoteSQLString v = CHR 0x27 # double_char (CHR 0x27) v @ [CHR 0x27]"

definition physical_table :: "string \<Rightarrow> string \<Rightarrow> string \<Rightarrow> string" where
  "physical_table projectID datasetID tableID =
     quoteIdentifier (physicalSchema projectID datasetID) @ ''.'' @ quoteIdentifier tableID"

section \<open>Physical types\<close>

definition decimal_type :: "DecimalParameters \<Rightarrow> string" where
  "decimal_type p = ''DECIMAL('' @ FormatInt (DpPrecision p) @ '','' @ FormatInt (DpScale p) @ '')''"

definition plain_type :: "string \<Rightarrow> string option" where
  "plain_type t =
     map_of [(''BOOL'', ''BOOLEAN''), (''BOOLEAN'', ''BOOLEAN''), (''INT64'', ''BIGINT''), (''INTEGER'', ''BIGINT''),
       (''FLOAT64'', ''DOUBLE''), (''FLOAT'', ''DOUBLE''), (''STRING'', ''VARCHAR''), (''BYTES'', ''BLOB''), (''DATE'', ''DATE''),
       (''DATETIME'', ''TIMESTAMP''), (''TIME'', ''TIME''), (''TIMESTAMP'', ''TIMESTAMPTZ''), (''JSON'', ''JSON'')] t"

definition mode_suffix :: "string \<Rightarrow> string" where
  "mode_suffix m = (if strings_EqualFold m ''REPEATED'' then ''[]'' else [])"

fun duckDBType :: "Field \<Rightarrow> go_error + string"
and duckDBMembers :: "Field list \<Rightarrow> go_error + string list" where
  "duckDBType (MkField n t m d p s r fs) =
     (case Field_Validate (MkField n t m d p s r fs) of Some e \<Rightarrow> Inl e
      | None \<Rightarrow>
        let u = strings_ToUpper t in
        case plain_type u of Some text \<Rightarrow> Inr (text @ mode_suffix m)
        | None \<Rightarrow>
          if u = ''NUMERIC'' \<or> u = ''BIGNUMERIC'' then
            (case EffectiveDecimalParameters (MkField n t m d p s r fs) of Inl e \<Rightarrow> Inl e
             | Inr parameters \<Rightarrow> Inr (decimal_type parameters @ mode_suffix m))
          else if u = ''RECORD'' \<or> u = ''STRUCT'' then
            (case duckDBMembers fs of Inl e \<Rightarrow> Inl e
             | Inr members \<Rightarrow> Inr (''STRUCT('' @ strings_Join members '', '' @ '')'' @ mode_suffix m))
          else Inl [ErrInvalid])"
| "duckDBMembers [] = Inr []"
| "duckDBMembers (f # fs) =
     (case duckDBType f of Inl e \<Rightarrow> Inl e
      | Inr text \<Rightarrow> (case duckDBMembers fs of Inl e \<Rightarrow> Inl e
         | Inr members \<Rightarrow> Inr ((quoteIdentifier (FName f) @ '' '' @ text) # members)))"

section \<open>The engine\<close>

text \<open>
  A scanned value is a string, bytes or something else. A description of a query is its number of columns, its rows, and the
  error that ends the iteration.
\<close>

datatype DbValue = DbString string | DbBytes string | DbOther

record ('w, 'x) DuckDB =
  DkVersion :: "go_error + string"
  DkPing :: "go_error option"
  DkExec :: "string \<Rightarrow> 'w \<Rightarrow> go_error option \<times> 'w"
  DkBegin :: "'w \<Rightarrow> go_error + 'x"
  DkTxExec :: "string \<Rightarrow> 'x \<Rightarrow> go_error option \<times> 'x"
  DkTxDescribe :: "string \<Rightarrow> 'x \<Rightarrow> go_error + nat \<times> DbValue list list \<times> go_error option"
  DkTxCount :: "string \<Rightarrow> 'x \<Rightarrow> go_error + int"
  DkTxExists :: "string \<Rightarrow> 'x \<Rightarrow> go_error + bool"
  DkTxCommit :: "'x \<Rightarrow> 'w \<Rightarrow> go_error option \<times> 'w"

text \<open>The texts that are trimmed come from DuckDB and hold ASCII white space only.\<close>

fun trim_left :: "string \<Rightarrow> string" where
  "trim_left [] = []"
| "trim_left (c # cs) = (if ascii_space c then trim_left cs else c # cs)"

definition strings_TrimSpace :: "string \<Rightarrow> string" where
  "strings_TrimSpace s = rev (trim_left (rev (trim_left s)))"

definition duckdb_descriptor :: "Identity \<Rightarrow> CapabilitiesDescriptor" where
  "duckdb_descriptor identity =
     \<lparr>CdIdentity = identity,
      CdDecimal = \<lparr>DmSupported = True, DmMaxPrecision = SparkDecimalMaxPrecision, DmMaxScale = SparkDecimalMaxScale\<rparr>,
      CdComposite = \<lparr>CmMaxStructDepth = 15, CmMaxListDepth = 15\<rparr>,
      CdTransactions = [(TransactionScopeSingleTable, True), (TransactionScopeMultiTable, True)],
      CdAtomicReplacements = [(AtomicReplacementTable, True), (AtomicReplacementPartition, True)],
      CdInspection = [(InspectionTableShape, True)],
      CdDDL = [(DDLCreateTable, \<lparr>DcGuarantee = AtomicPhysicalStatement, DcMaxFieldPathDepth = 0\<rparr>),
        (DDLDropTable, \<lparr>DcGuarantee = AtomicPhysicalStatement, DcMaxFieldPathDepth = 0\<rparr>),
        (DDLAddColumn, \<lparr>DcGuarantee = AtomicPhysicalTable, DcMaxFieldPathDepth = 15\<rparr>),
        (DDLDropColumn, \<lparr>DcGuarantee = AtomicPhysicalStatement, DcMaxFieldPathDepth = 1\<rparr>),
        (DDLRenameColumn, \<lparr>DcGuarantee = AtomicPhysicalStatement, DcMaxFieldPathDepth = 1\<rparr>),
        (DDLChangeColumnType, \<lparr>DcGuarantee = AtomicPhysicalStatement, DcMaxFieldPathDepth = 1\<rparr>)]\<rparr>"

definition newDuckDBCapabilities :: "('w, 'x) DuckDB \<Rightarrow> go_error + Capabilities" where
  "newDuckDBCapabilities db =
     (case DkVersion db of Inl e \<Rightarrow> Inl e
      | Inr raw \<Rightarrow>
        (case NewIdentity ''duckdb'' (strings_TrimPrefix (strings_TrimPrefix (strings_TrimSpace raw) ''v'') ''V'') of
           Inl e \<Rightarrow> Inl e
         | Inr identity \<Rightarrow> NewCapabilities (duckdb_descriptor identity)))"

text \<open>The adapter's side of a schema plan; a done context is left to the engine.\<close>

fun ValidateSchemaIntent_fields :: "Field list \<Rightarrow> go_error option" where
  "ValidateSchemaIntent_fields [] = None"
| "ValidateSchemaIntent_fields (f # fs) =
     (case duckDBType f of Inl e \<Rightarrow> Some e | Inr _ \<Rightarrow> ValidateSchemaIntent_fields fs)"

definition ValidateSchemaIntent :: "SchemaIntent \<Rightarrow> go_error option" where
  "ValidateSchemaIntent intent = ValidateSchemaIntent_fields (SiAfterSchema intent)"

record Warehouse =
  WhCapabilities :: Capabilities
  WhSchemaPlanner :: "SchemaPlanner option"
  WhDDLPlanner :: "Planner option"
  WhLoadPlanner :: "LoadPlanner option"

definition Warehouse_PlanSchema :: "Warehouse \<Rightarrow> SchemaIntent \<Rightarrow> go_error + SchemaPlan" where
  "Warehouse_PlanSchema w intent =
     (case WhSchemaPlanner w of None \<Rightarrow> Inl [ErrPrecondition] | Some planner \<Rightarrow> SchemaPlanner_Plan planner intent)"

section \<open>Datasets and tables\<close>

definition CreateDataset :: "('w, 'x) DuckDB \<Rightarrow> string \<Rightarrow> string \<Rightarrow> 'w \<Rightarrow> go_error option \<times> 'w" where
  "CreateDataset db projectID datasetID w =
     DkExec db (''CREATE SCHEMA '' @ quoteIdentifier (physicalSchema projectID datasetID)) w"

definition DropDataset :: "('w, 'x) DuckDB \<Rightarrow> string \<Rightarrow> string \<Rightarrow> 'w \<Rightarrow> go_error option \<times> 'w" where
  "DropDataset db projectID datasetID w =
     DkExec db (''DROP SCHEMA '' @ quoteIdentifier (physicalSchema projectID datasetID) @ '' CASCADE'') w"

fun table_columns :: "Field list \<Rightarrow> go_error + string list" where
  "table_columns [] = Inr []"
| "table_columns (f # fs) =
     (case duckDBType f of Inl e \<Rightarrow> Inl e
      | Inr text \<Rightarrow>
        (case table_columns fs of Inl e \<Rightarrow> Inl e
         | Inr columns \<Rightarrow>
           Inr ((quoteIdentifier (FName f) @ '' '' @ text
                 @ (if strings_EqualFold (FMode f) ''REQUIRED'' then '' NOT NULL'' else [])) # columns)))"

definition createTable :: "('w, 'x) DuckDB \<Rightarrow> DomainTableReference \<Rightarrow> Field list \<Rightarrow> 'w \<Rightarrow> go_error option \<times> 'w" where
  "createTable db target schema w =
     (case table_columns schema of Inl e \<Rightarrow> (Some e, w)
      | Inr columns \<Rightarrow>
        DkExec db (''CREATE TABLE '' @ physical_table (DrProjectID target) (DrDatasetID target) (DrTableID target)
                   @ '' ('' @ strings_Join columns '', '' @ '')'') w)"

definition create_intent :: "DomainTableReference \<Rightarrow> Field list \<Rightarrow> go_error + SchemaIntent" where
  "create_intent target schema =
     NewSchemaIntent \<lparr>SidOperation = SchemaOperationCreate, SidTarget = target, SidBeforeSchema = [],
       SidAfterSchema = schema, SidAdditions = []\<rparr>"

text \<open>A nil schema planner in \<open>ValidateBinding\<close> is the zero planner, which refuses.\<close>

definition validate_binding :: "Warehouse \<Rightarrow> SchemaPlan \<Rightarrow> SchemaIntent \<Rightarrow> go_error option" where
  "validate_binding w plan intent =
     (case WhSchemaPlanner w of None \<Rightarrow> Some (invalid_descriptor ''schema'' ''schema.planner'')
      | Some planner \<Rightarrow> SchemaPlanner_ValidateBinding planner plan intent)"

definition CreatePlannedTable ::
  "Warehouse \<Rightarrow> ('w, 'x) DuckDB \<Rightarrow> SchemaPlan \<Rightarrow> DomainTableReference \<Rightarrow> Field list \<Rightarrow> 'w \<Rightarrow> go_error option \<times> 'w" where
  "CreatePlannedTable wh db plan target schema w =
     (case create_intent target schema of Inl e \<Rightarrow> (Some e, w)
      | Inr intent \<Rightarrow>
        (case validate_binding wh plan intent of Some e \<Rightarrow> (Some e, w) | None \<Rightarrow> createTable db target schema w))"

definition CreateTable :: "Warehouse \<Rightarrow> ('w, 'x) DuckDB \<Rightarrow> DomainTableReference \<Rightarrow> Field list \<Rightarrow> 'w \<Rightarrow> go_error option \<times> 'w" where
  "CreateTable wh db target schema w =
     (case create_intent target schema of Inl e \<Rightarrow> (Some e, w)
      | Inr intent \<Rightarrow>
        (case Warehouse_PlanSchema wh intent of Inl e \<Rightarrow> (Some e, w)
         | Inr plan \<Rightarrow> CreatePlannedTable wh db plan target schema w))"

definition DropTable :: "('w, 'x) DuckDB \<Rightarrow> string \<Rightarrow> string \<Rightarrow> string \<Rightarrow> 'w \<Rightarrow> go_error option \<times> 'w" where
  "DropTable db projectID datasetID tableID w =
     DkExec db (''DROP TABLE IF EXISTS '' @ physical_table projectID datasetID tableID) w"

section \<open>Schema additions\<close>

text \<open>The loop of \<open>repeatedAncestorRoot\<close> over the components before the last, \<open>root\<close> set once the first is found.\<close>

fun repeated_ancestor :: "Field option \<Rightarrow> Field list \<Rightarrow> string list \<Rightarrow> Field option" where
  "repeated_ancestor anc fs [] = None"
| "repeated_ancestor anc fs (component # path) =
     (case find (\<lambda>f. FName f = component) fs of None \<Rightarrow> None
      | Some current \<Rightarrow>
        let anc' = (case anc of None \<Rightarrow> current | Some r \<Rightarrow> r) in
        if strings_EqualFold (FMode current) ''REPEATED'' then Some anc'
        else repeated_ancestor (Some anc') (FFields current) path)"

definition repeatedAncestorRoot :: "Field list \<Rightarrow> string list \<Rightarrow> Field option" where
  "repeatedAncestorRoot schema path = (if length path < 2 then None else repeated_ancestor None schema (butlast path))"

text \<open>The statements of the additions, up to the first addition that has none.\<close>

fun addition_statements :: "string \<Rightarrow> Field list \<Rightarrow> string list \<Rightarrow> SchemaAddition list \<Rightarrow> string list \<times> go_error option" where
  "addition_statements tableName schema retyped [] = ([], None)"
| "addition_statements tableName schema retyped (a # as) =
     (if SaPath a = [] then ([], Some [ErrInvalid])
      else case repeatedAncestorRoot schema (SaPath a) of
        Some anc \<Rightarrow>
          if FName anc \<in> set retyped then addition_statements tableName schema retyped as
          else (case duckDBType anc of Inl e \<Rightarrow> ([], Some e)
            | Inr text \<Rightarrow>
              (case addition_statements tableName schema (FName anc # retyped) as of
                 (rest, err) \<Rightarrow>
                   ((''ALTER TABLE '' @ tableName @ '' ALTER COLUMN '' @ quoteIdentifier (FName anc) @ '' TYPE '' @ text) # rest, err)))
      | None \<Rightarrow>
          (case duckDBType (SaField a) of Inl e \<Rightarrow> ([], Some e)
           | Inr text \<Rightarrow>
             (case addition_statements tableName schema retyped as of
                (rest, err) \<Rightarrow>
                  ((''ALTER TABLE '' @ tableName @ '' ADD COLUMN '' @ strings_Join (map quoteIdentifier (SaPath a)) ''.'' @ '' '' @ text) # rest,
                   err))))"

fun exec_all :: "('w, 'x) DuckDB \<Rightarrow> string list \<Rightarrow> 'x \<Rightarrow> go_error option \<times> 'x" where
  "exec_all db [] x = (None, x)"
| "exec_all db (s # ss) x = (case DkTxExec db s x of (Some e, x') \<Rightarrow> (Some e, x') | (None, x') \<Rightarrow> exec_all db ss x')"

definition ApplySchemaAdditions ::
  "('w, 'x) DuckDB \<Rightarrow> DomainTableReference \<Rightarrow> Field list \<Rightarrow> SchemaAddition list \<Rightarrow> 'w \<Rightarrow> go_error option \<times> 'w" where
  "ApplySchemaAdditions db target schema additions w =
     (if additions = [] then (None, w)
      else case DkBegin db w of Inl e \<Rightarrow> (Some e, w)
      | Inr x \<Rightarrow>
        (case addition_statements (physical_table (DrProjectID target) (DrDatasetID target) (DrTableID target)) schema [] additions of
           (statements, planned) \<Rightarrow>
             (case exec_all db statements x of
                (Some e, _) \<Rightarrow> (Some e, w)
              | (None, x') \<Rightarrow> (case planned of Some e \<Rightarrow> (Some e, w) | None \<Rightarrow> DkTxCommit db x' w))))"

definition ApplyPlannedSchemaAdditions ::
  "Warehouse \<Rightarrow> ('w, 'x) DuckDB \<Rightarrow> SchemaPlan \<Rightarrow> DomainTableReference \<Rightarrow> Field list \<Rightarrow> SchemaAddition list \<Rightarrow> 'w
    \<Rightarrow> go_error option \<times> 'w" where
  "ApplyPlannedSchemaAdditions wh db plan target schema additions w =
     (if WhSchemaPlanner wh = None then (Some [ErrPrecondition], w)
      else case NewSchemaIntent \<lparr>SidOperation = SchemaOperationAddColumns, SidTarget = target,
                  SidBeforeSchema = SiBeforeSchema (SqIntent plan), SidAfterSchema = schema, SidAdditions = additions\<rparr> of
        Inl e \<Rightarrow> (Some e, w)
      | Inr intent \<Rightarrow>
        (case validate_binding wh plan intent of Some e \<Rightarrow> (Some e, w)
         | None \<Rightarrow> ApplySchemaAdditions db target schema additions w))"

section \<open>Reading names back\<close>

text \<open>
  How SQL reads a quoted text after its opening quote: a doubled quote is a quote, a single one ends the text.
\<close>

fun unquote :: "char \<Rightarrow> string \<Rightarrow> (string \<times> string) option" where
  "unquote q [] = None"
| "unquote q [c] = (if c = q then Some ([], []) else None)"
| "unquote q (c # d # cs) =
     (if c \<noteq> q then (case unquote q (d # cs) of None \<Rightarrow> None | Some (s, rest) \<Rightarrow> Some (c # s, rest))
      else if d = q then (case unquote q cs of None \<Rightarrow> None | Some (s, rest) \<Rightarrow> Some (q # s, rest))
      else Some ([], d # cs))"

lemma unquote_step: "c \<noteq> q \<Longrightarrow> cs \<noteq> [] \<Longrightarrow> unquote q (c # cs) = (case unquote q cs of None \<Rightarrow> None | Some (s, rest) \<Rightarrow> Some (c # s, rest))"
  by (cases cs) auto

lemma unquote_double_char:
  assumes "rest = [] \<or> hd rest \<noteq> q"
  shows "unquote q (double_char q s @ q # rest) = Some (s, rest)"
proof (induction s)
  case Nil
  then show ?case using assms by (cases rest) auto
next
  case (Cons c cs)
  then show ?case by (cases "c = q") (simp_all add: unquote_step)
qed

definition read_identifier :: "string \<Rightarrow> (string \<times> string) option" where
  "read_identifier text = (case text of c # cs \<Rightarrow> if c = CHR 0x22 then unquote (CHR 0x22) cs else None | [] \<Rightarrow> None)"

lemma read_quoteIdentifier:
  "rest = [] \<or> hd rest \<noteq> CHR 0x22 \<Longrightarrow> read_identifier (quoteIdentifier s @ rest) = Some (s, rest)"
  by (simp add: read_identifier_def quoteIdentifier_def unquote_double_char)

lemma quoteIdentifier_inj: "quoteIdentifier a = quoteIdentifier b \<longleftrightarrow> a = b"
  using read_quoteIdentifier [of "[]"] by (metis option.inject prod.inject)

text \<open>The decoder of a physical schema name.\<close>

definition hex_value :: "char \<Rightarrow> nat option" where
  "hex_value c = (let n = of_char c :: nat in if 48 \<le> n \<and> n \<le> 57 then Some (n - 48) else if 97 \<le> n \<and> n \<le> 102 then Some (n - 87) else None)"

fun hex_DecodeString :: "string \<Rightarrow> string option" where
  "hex_DecodeString [] = Some []"
| "hex_DecodeString [c] = None"
| "hex_DecodeString (c # d # cs) =
     (case (hex_value c, hex_value d, hex_DecodeString cs) of
        (Some a, Some b, Some s) \<Rightarrow> Some (char_of (16 * a + b) # s)
      | _ \<Rightarrow> None)"

definition read_schema :: "string \<Rightarrow> (string \<times> string) option" where
  "read_schema s =
     (case strings_Split (CHR ''_'') s of
        [b, p, d] \<Rightarrow>
          if b \<noteq> ''bq'' then None
          else (case (hex_DecodeString p, hex_DecodeString d) of (Some p, Some d) \<Rightarrow> Some (p, d) | _ \<Rightarrow> None)
      | _ \<Rightarrow> None)"

definition read_table :: "string \<Rightarrow> ((string \<times> string \<times> string) \<times> string) option" where
  "read_table text =
     (case read_identifier text of
        Some (schema, c # rest) \<Rightarrow>
          if c \<noteq> CHR ''.'' then None
          else (case (read_schema schema, read_identifier rest) of
              (Some (p, d), Some (t, rest)) \<Rightarrow> Some ((p, d, t), rest) | _ \<Rightarrow> None)
      | _ \<Rightarrow> None)"

lemma hex_value_hex_char [simp]: "n < 16 \<Longrightarrow> hex_value (hex_char n) = Some n"
  by (auto simp: hex_value_def hex_char_def Let_def)

lemma of_char_div_16 [simp]: "of_char c div 16 < (16 :: nat)"
  using nat_of_char_less_256 [of c] by linarith

lemma hex_DecodeString_Encode [simp]: "hex_DecodeString (hex_EncodeToString s) = Some s"
  by (induction s) (simp_all add: hex_EncodeToString_def)

lemma hex_no_underscore: "CHR ''_'' \<notin> set (hex_EncodeToString s)"
proof -
  have "hex_value (CHR ''_'') = None" by (simp add: hex_value_def)
  then have "CHR ''_'' \<noteq> hex_char n" if "n < 16" for n using hex_value_hex_char [OF that] by auto
  then have "CHR ''_'' \<noteq> hex_char (of_char c div 16)" "CHR ''_'' \<noteq> hex_char (of_char c mod 16)" for c by simp_all
  then show ?thesis by (auto simp: hex_EncodeToString_def)
qed

lemma read_physicalSchema [simp]: "read_schema (physicalSchema p d) = Some (p, d)"
proof -
  have "physicalSchema p d = ''bq'' @ CHR ''_'' # hex_EncodeToString p @ CHR ''_'' # hex_EncodeToString d"
    by (simp add: physicalSchema_def)
  then have "strings_Split (CHR ''_'') (physicalSchema p d) = [''bq'', hex_EncodeToString p, hex_EncodeToString d]"
    by (simp only:) (subst strings_Split_append, simp, simp add: strings_Split_append strings_Split_nosep hex_no_underscore)
  then show ?thesis by (simp add: read_schema_def)
qed

text \<open>
  C38. The name under which a table is stored reads back as the project, the dataset and the table it was built from, whatever
  bytes they hold, and the reader stops exactly at its end: different tables never share a physical table, and no identifier can
  leave its quotes.
\<close>

theorem physical_table_reads_back:
  assumes "rest = [] \<or> hd rest \<noteq> CHR 0x22"
  shows "read_table (physical_table p d t @ rest) = Some ((p, d, t), rest)"
proof -
  have "read_identifier (quoteIdentifier (physicalSchema p d) @ CHR ''.'' # quoteIdentifier t @ rest)
      = Some (physicalSchema p d, CHR ''.'' # quoteIdentifier t @ rest)"
    by (rule read_quoteIdentifier) simp
  then show ?thesis using assms by (simp add: read_table_def physical_table_def read_quoteIdentifier)
qed

theorem physical_table_reads_back_witness:
  "read_table (physical_table ''p'' ''d'' [CHR ''a'', CHR 0x22, CHR ''b''] @ '' (id)'') = Some ((''p'', ''d'', [CHR ''a'', CHR 0x22, CHR ''b'']), '' (id)'')"
  by (rule physical_table_reads_back) simp

section \<open>Which fields have a physical type\<close>

lemma duckDBMembers_Inr: "(\<exists>ms. duckDBMembers fs = Inr ms) \<longleftrightarrow> (\<forall>f \<in> set fs. \<exists>t. duckDBType f = Inr t)"
  by (induction fs) (auto split: sum.splits)

lemma plain_type_scalar:
  "(plain_type u \<noteq> None) \<longleftrightarrow> u \<in> set scalar_types - {''NUMERIC'', ''BIGNUMERIC''}"
  unfolding plain_type_def scalar_types_def by (auto split: if_splits)

text \<open>The physical type exists exactly for the fields that the domain accepts, at every depth.\<close>

lemma duckDBType_accepts: "(\<exists>t. duckDBType f = Inr t) \<longleftrightarrow> Field_Validate f = None"
proof (induction f)
  case (MkField n t m d p s r fs)
  let ?f = "MkField n t m d p s r fs"
  show ?case
  proof (cases "Field_Validate ?f")
    case None
    then have head: "Field_Validate_head ?f = None" and nested: "\<forall>g \<in> set fs. Field_Validate g = None"
      using Field_Validate_iff [of ?f] by auto
    have members: "\<exists>ms. duckDBMembers fs = Inr ms" using nested MkField.IH duckDBMembers_Inr by blast
    have decimal: "\<exists>parameters. EffectiveDecimalParameters ?f = Inr parameters"
      if "strings_ToUpper t = ''NUMERIC'' \<or> strings_ToUpper t = ''BIGNUMERIC''"
      using head that by (auto simp: Field_Validate_head_def Let_def split: if_splits sum.splits)
    have "strings_ToUpper t \<in> set field_types" using head by (auto simp: Field_Validate_head_def Let_def split: if_splits)
    then have kind: "plain_type (strings_ToUpper t) \<noteq> None \<or> strings_ToUpper t \<in> {''NUMERIC'', ''BIGNUMERIC'', ''RECORD'', ''STRUCT''}"
      using plain_type_scalar [of "strings_ToUpper t"] by (auto simp: field_types_def)
    show ?thesis using None members decimal kind
      by (auto simp del: Field_Validate.simps simp: Let_def split: option.splits)
  next
    case (Some e)
    then show ?thesis by (simp del: Field_Validate.simps)
  qed
qed

end
