(* ===== verification/Duckdb_Load.thy ===== *)
theory Duckdb_Load
  imports Duckdb_Warehouse Load_Service
begin

text \<open>
  \<open>internal/adapters/duckdb\<close>: \<open>load_planning.go\<close> and \<open>load.go\<close>, the loader behind the load jobs. A load reads the local files into a
  temporary table, checks its shape and its required columns against the destination, and moves the rows in one transaction.
\<close>

section \<open>Planning\<close>

definition classifyLoadSchemaPlanningError :: "go_error \<Rightarrow> go_error" where
  "classifyLoadSchemaPlanningError e =
     (if errors_Is e ErrUnsupported then UnsupportedLoadPlan CapabilityEngineSchemaV1
      else if errors_Is e ErrInvalid then InvalidLoadPlan
      else StaleLoadPlan)"

fun load_physical_types :: "Field list \<Rightarrow> go_error + string list" where
  "load_physical_types [] = Inr []"
| "load_physical_types (f # fs) =
     (if FFields f \<noteq> [] \<or> strings_EqualFold (FMode f) ''REPEATED''
      then Inl (UnsupportedLoadPlan CapabilityParquetNestedRepeatedV1)
      else case duckDBType f of Inl e \<Rightarrow> Inl (classifyLoadSchemaPlanningError e)
      | Inr text \<Rightarrow> (case load_physical_types fs of Inl e \<Rightarrow> Inl e | Inr texts \<Rightarrow> Inr (text # texts)))"

text \<open>The adapter's side of a load plan; a done context is left to the engine.\<close>

definition ValidateLoadRequest :: "SchemaPlanner option \<Rightarrow> LoadPlanRequest \<Rightarrow> go_error + string" where
  "ValidateLoadRequest schemaPlanner request =
     (case schemaPlanner of None \<Rightarrow> Inl StaleLoadPlan
      | Some planner \<Rightarrow>
        (case NewSchemaIntent \<lparr>SidOperation = SchemaOperationValidate,
                SidTarget = catalog_reference (LoReference (LqDestination request)), SidBeforeSchema = [],
                SidAfterSchema = LoSchema (LqDestination request), SidAdditions = []\<rparr> of
           Inl e \<Rightarrow> Inl (classifyLoadSchemaPlanningError e)
         | Inr intent \<Rightarrow>
           (case SchemaPlanner_ValidateBinding planner (LqSchemaPlan request) intent of
              Some e \<Rightarrow> Inl (classifyLoadSchemaPlanningError e)
            | None \<Rightarrow>
              if LqSourceFormat request \<noteq> FormatParquet then Inl (UnsupportedLoadPlan ''LOAD_SOURCE_PARQUET'')
              else (case load_physical_types (LoSchema (LqDestination request)) of Inl e \<Rightarrow> Inl e
                | Inr physicalTypes \<Rightarrow>
                  Inr (json_digest (JObject [(''modelVersion'', JString ''duckdb-parquet-load-plan-v1''),
                    (''physicalTypes'', JArray (map JString physicalTypes)),
                    (''sourceFormat'', JString (LqSourceFormat request)),
                    (''writeDisposition'', JString (LqWriteDisposition request))]))))))"

text \<open>
  \<open>New\<close>: the capabilities, the planners and the ping. The three issuers are the fresh pointers of the planners; the adapter of the DDL
  planner reads the database, so it is given here and at every later call as it is at that time.
\<close>

definition NewWarehouse :: "('w, 'x) DuckDB \<Rightarrow> AdapterPlanner \<Rightarrow> issuer \<Rightarrow> issuer \<Rightarrow> issuer \<Rightarrow> go_error + Warehouse" where
  "NewWarehouse db ddl_adapter schema_issuer load_issuer ddl_issuer =
     (case newDuckDBCapabilities db of Inl e \<Rightarrow> Inl e
      | Inr c \<Rightarrow>
        (case NewSchemaPlanner schema_issuer c (Some ValidateSchemaIntent) of Inl e \<Rightarrow> Inl e
         | Inr planner \<Rightarrow>
           (case NewLoadPlanner load_issuer c (Some (ValidateLoadRequest (Some planner))) of Inl e \<Rightarrow> Inl e
            | Inr loads \<Rightarrow>
              (case NewPlanner ddl_issuer c (Some ddl_adapter) of Inl e \<Rightarrow> Inl e
               | Inr ddl \<Rightarrow>
                 (case DkPing db of Some e \<Rightarrow> Inl e
                  | None \<Rightarrow> Inr \<lparr>WhCapabilities = c, WhSchemaPlanner = Some planner, WhDDLPlanner = Some ddl,
                                 WhLoadPlanner = Some loads\<rparr>)))))"

definition Warehouse_PlanLoad :: "Warehouse \<Rightarrow> LoadPlanRequest \<Rightarrow> go_error + LoadPlan" where
  "Warehouse_PlanLoad wh request =
     (case WhLoadPlanner wh of None \<Rightarrow> Inl [LoadErrPrecondition] | Some planner \<Rightarrow> LoadPlanner_Plan planner request)"

section \<open>The shape of the files\<close>

record stagingColumn =
  ScName :: string
  ScTypeName :: string

fun databaseString :: "DbValue \<Rightarrow> string option" where
  "databaseString (DbString s) = Some s"
| "databaseString (DbBytes s) = Some s"
| "databaseString DbOther = None"

fun staging_columns :: "DbValue list list \<Rightarrow> go_error + stagingColumn list" where
  "staging_columns [] = Inr []"
| "staging_columns ((n # t # others) # rows) =
     (case (databaseString n, databaseString t) of
        (Some name, Some text) \<Rightarrow>
          (case staging_columns rows of Inl e \<Rightarrow> Inl e
           | Inr columns \<Rightarrow> Inr (\<lparr>ScName = name, ScTypeName = strings_ToUpper text\<rparr> # columns))
      | _ \<Rightarrow> Inl [LoadErrInvalid])"
| "staging_columns (_ # rows) = Inl [LoadErrInvalid]"

definition describeStaging :: "('w, 'x) DuckDB \<Rightarrow> string \<Rightarrow> 'x \<Rightarrow> go_error + stagingColumn list" where
  "describeStaging db staging x =
     (case DkTxDescribe db (''DESCRIBE SELECT * FROM '' @ quoteIdentifier staging) x of Inl e \<Rightarrow> Inl e
      | Inr (width, rows, failure) \<Rightarrow>
        if width < 2 then Inl [LoadErrInvalid]
        else (case staging_columns rows of Inl e \<Rightarrow> Inl e
          | Inr columns \<Rightarrow> (case failure of Some e \<Rightarrow> Inl e | None \<Rightarrow> Inr columns)))"

text \<open>\<open>^DECIMAL\(([0-9]+),([0-9]+)\)$\<close> and the two submatches.\<close>

definition decimalPattern :: "string \<Rightarrow> (string \<times> string) option" where
  "decimalPattern s =
     (if \<not> strings_HasPrefix s ''DECIMAL('' then None
      else
        let rest = drop 8 s; a = takeWhile is_digit rest; remaining = dropWhile is_digit rest in
        case remaining of [] \<Rightarrow> None
        | c # tail \<Rightarrow>
          if a = [] \<or> c \<noteq> CHR '','' then None
          else let b = takeWhile is_digit tail in
            if b \<noteq> [] \<and> dropWhile is_digit tail = '')'' then Some (a, b) else None)"

text \<open>\<open>strconv.Atoi\<close> of digits with its error ignored: out of range it returns the greatest value.\<close>

definition Atoi_ignored :: "string \<Rightarrow> int" where
  "Atoi_ignored digits = min (int (digits_value digits)) (2 ^ 63 - 1)"

definition integer_source :: "string \<Rightarrow> bool" where
  "integer_source source \<longleftrightarrow> source \<in> {''TINYINT'', ''SMALLINT'', ''INTEGER'', ''BIGINT''}"

definition decimal_target :: "Field \<Rightarrow> string \<Rightarrow> go_error + string" where
  "decimal_target field source =
     (case EffectiveDecimalParameters field of
        Inl e \<Rightarrow> Inl ((if errors_Is e ErrUnsupported then LoadErrUnsupported else LoadErrInvalid) # error_as_text e)
      | Inr parameters \<Rightarrow>
        if integer_source source then Inr (decimal_type parameters)
        else (case decimalPattern source of
            Some (p, s) \<Rightarrow>
              if Atoi_ignored s \<le> DpScale parameters
                 \<and> Atoi_ignored p - Atoi_ignored s \<le> DpPrecision parameters - DpScale parameters
              then Inr (decimal_type parameters)
              else Inl [LoadErrUnsupported, ErrText CapabilityDecimalRoundingV1]
          | None \<Rightarrow> Inl [LoadErrUnsupported, ErrText CapabilityDecimalRoundingV1]))"

definition accepts_source :: "string \<Rightarrow> string \<Rightarrow> bool" where
  "accepts_source target source \<longleftrightarrow>
     (if target \<in> {''BOOL'', ''BOOLEAN''} then source = ''BOOLEAN''
      else if target \<in> {''INT64'', ''INTEGER''} then integer_source source
      else if target \<in> {''FLOAT64'', ''FLOAT''}
      then integer_source source \<or> source = ''FLOAT'' \<or> source = ''DOUBLE'' \<or> decimalPattern source \<noteq> None
      else if target = ''STRING'' then source = ''VARCHAR''
      else if target = ''BYTES'' then source = ''BLOB''
      else if target = ''DATE'' then source = ''DATE''
      else if target = ''TIME'' then strings_HasPrefix source ''TIME'' \<and> \<not> strings_Contains source ''ZONE''
      else if target = ''DATETIME'' then strings_HasPrefix source ''TIMESTAMP'' \<and> \<not> strings_Contains source ''ZONE''
      else strings_HasPrefix source ''TIMESTAMP'')"

definition cast_type :: "string \<Rightarrow> string option" where
  "cast_type target =
     map_of [(''BOOL'', ''BOOLEAN''), (''BOOLEAN'', ''BOOLEAN''), (''INT64'', ''BIGINT''), (''INTEGER'', ''BIGINT''),
       (''FLOAT64'', ''DOUBLE''), (''FLOAT'', ''DOUBLE''), (''STRING'', ''VARCHAR''), (''BYTES'', ''BLOB''), (''DATE'', ''DATE''),
       (''TIME'', ''TIME''), (''DATETIME'', ''TIMESTAMP''), (''TIMESTAMP'', ''TIMESTAMPTZ'')] target"

definition validatedTargetType :: "Field \<Rightarrow> string \<Rightarrow> go_error + string" where
  "validatedTargetType field sourceType =
     (let target = strings_ToUpper (FType field); source = strings_ToUpper (strings_TrimSpace sourceType) in
      if target \<in> {''NUMERIC'', ''BIGNUMERIC''} then decimal_target field source
      else case cast_type target of
        Some text \<Rightarrow> if accepts_source target source then Inr text else Inl [LoadErrInvalid]
      | None \<Rightarrow>
        if target \<in> {''GEOGRAPHY'', ''JSON'', ''RECORD'', ''STRUCT''} then Inl [LoadErrUnsupported] else Inl [LoadErrInvalid])"

fun index_columns :: "stagingColumn list \<Rightarrow> (string, stagingColumn) gomap \<Rightarrow> (string, stagingColumn) gomap option" where
  "index_columns [] byName = Some byName"
| "index_columns (column # columns) byName =
     (let key = strings_ToLower (ScName column) in
      if gm_get byName key \<noteq> None then None else index_columns columns (gm_put key column byName))"

fun load_expressions :: "(string, stagingColumn) gomap \<Rightarrow> Field list \<Rightarrow> go_error + (string \<times> string) list" where
  "load_expressions byName [] = Inr []"
| "load_expressions byName (field # fs) =
     (case gm_get byName (strings_ToLower (FName field)) of None \<Rightarrow> Inl [LoadErrInvalid]
      | Some column \<Rightarrow>
        (case validatedTargetType field (ScTypeName column) of Inl e \<Rightarrow> Inl e
         | Inr targetType \<Rightarrow>
           (case load_expressions byName fs of Inl e \<Rightarrow> Inl e
            | Inr rest \<Rightarrow>
              Inr ((''CAST('' @ quoteIdentifier (ScName column) @ '' AS '' @ targetType @ '')'', quoteIdentifier (FName field)) # rest))))"

text \<open>The select expressions and the destination columns.\<close>

definition validateLoadShape :: "Field list \<Rightarrow> stagingColumn list \<Rightarrow> go_error + string list \<times> string list" where
  "validateLoadShape schema columns =
     (if length schema \<noteq> length columns then Inl [LoadErrInvalid]
      else case index_columns columns [] of None \<Rightarrow> Inl [LoadErrInvalid]
      | Some byName \<Rightarrow>
        (case load_expressions byName schema of Inl e \<Rightarrow> Inl e | Inr pairs \<Rightarrow> Inr (map fst pairs, map snd pairs)))"

section \<open>Executing a plan\<close>

definition staging_name :: "nat \<Rightarrow> string" where
  "staging_name sequence = ''bqemu_load_'' @ format_nat sequence"

definition create_staging :: "string \<Rightarrow> LocalObject list \<Rightarrow> string" where
  "create_staging staging objects =
     ''CREATE TEMP TABLE '' @ quoteIdentifier staging @ '' AS SELECT * FROM read_parquet(['' @
     strings_Join (map (\<lambda>object. quoteSQLString (LlPath object)) objects) '', '' @ ''], union_by_name=false)''"

definition load_normalizeMode :: "string \<Rightarrow> string" where
  "load_normalizeMode m = (if m = [] then ''NULLABLE'' else strings_ToUpper m)"

fun required_fields :: "('w, 'x) DuckDB \<Rightarrow> string \<Rightarrow> Field list \<Rightarrow> 'x \<Rightarrow> go_error option" where
  "required_fields db staging [] x = None"
| "required_fields db staging (field # fs) x =
     (if \<not> strings_EqualFold (load_normalizeMode (FMode field)) ''REQUIRED'' then required_fields db staging fs x
      else case DkTxCount db (''SELECT count(*) FROM '' @ quoteIdentifier staging @ '' WHERE '' @ quoteIdentifier (FName field) @ '' IS NULL'') x of
        Inl e \<Rightarrow> Some e
      | Inr nullRows \<Rightarrow> if nullRows \<noteq> 0 then Some [LoadErrInvalid] else required_fields db staging fs x)"

definition apply_disposition :: "('w, 'x) DuckDB \<Rightarrow> string \<Rightarrow> string \<Rightarrow> 'x \<Rightarrow> go_error option \<times> 'x" where
  "apply_disposition db disposition destination x =
     (if disposition = WriteEmpty then
        (case DkTxExists db (''SELECT EXISTS(SELECT 1 FROM '' @ destination @ '' LIMIT 1)'') x of Inl e \<Rightarrow> (Some e, x)
         | Inr True \<Rightarrow> (Some [LoadErrPrecondition], x)
         | Inr False \<Rightarrow> (None, x))
      else if disposition = WriteTruncate then DkTxExec db (''DELETE FROM '' @ destination) x
      else if disposition = WriteAppend then (None, x)
      else (Some [LoadErrInvalid], x))"

definition insert_statement :: "string \<Rightarrow> string list \<Rightarrow> string list \<Rightarrow> string \<Rightarrow> string" where
  "insert_statement destination columns expressions staging =
     ''INSERT INTO '' @ destination @ '' ('' @ strings_Join columns '', '' @ '') SELECT '' @ strings_Join expressions '', '' @
     '' FROM '' @ quoteIdentifier staging"

definition load_destination :: "LoadTableReference \<Rightarrow> string" where
  "load_destination r = physical_table (LtProjectID r) (LtDatasetID r) (LtTableID r)"

text \<open>The transaction from its first statement to the last before the commit: the rows counted so far, and the error.\<close>

definition load_transaction ::
  "('w, 'x) DuckDB \<Rightarrow> string \<Rightarrow> LoadPlanRequest \<Rightarrow> LocalObject list \<Rightarrow> 'x \<Rightarrow> (int \<times> go_error option) \<times> 'x" where
  "load_transaction db staging request objects x =
     (let schema = LoSchema (LqDestination request); destination = load_destination (LoReference (LqDestination request)) in
      case DkTxExec db (create_staging staging objects) x of (Some e, x) \<Rightarrow> ((0, Some e), x)
      | (None, x) \<Rightarrow>
      (case describeStaging db staging x of Inl e \<Rightarrow> ((0, Some e), x)
       | Inr columns \<Rightarrow>
       (case validateLoadShape schema columns of Inl e \<Rightarrow> ((0, Some e), x)
        | Inr (expressions, destinationColumns) \<Rightarrow>
        (case required_fields db staging schema x of Some e \<Rightarrow> ((0, Some e), x)
         | None \<Rightarrow>
         (case DkTxCount db (''SELECT count(*) FROM '' @ quoteIdentifier staging) x of Inl e \<Rightarrow> ((0, Some e), x)
          | Inr rows \<Rightarrow>
          (case apply_disposition db (LqWriteDisposition request) destination x of (Some e, x) \<Rightarrow> ((rows, Some e), x)
           | (None, x) \<Rightarrow>
           (case DkTxExec db (insert_statement destination destinationColumns expressions staging) x of
              (Some e, x) \<Rightarrow> ((rows, Some e), x)
            | (None, x) \<Rightarrow>
            (case DkTxExec db (''DROP TABLE '' @ quoteIdentifier staging) x of
               (Some e, x) \<Rightarrow> ((rows, Some e), x)
             | (None, x) \<Rightarrow> ((rows, None), x)))))))))"

definition ExecuteLoad ::
  "Warehouse \<Rightarrow> ('w, 'x) DuckDB \<Rightarrow> nat \<Rightarrow> LoadPlan \<Rightarrow> LocalObject list \<Rightarrow> 'w \<Rightarrow> (int \<times> go_error option) \<times> 'w" where
  "ExecuteLoad wh db sequence plan objects w =
     (case WhLoadPlanner wh of None \<Rightarrow> ((0, Some [LoadErrPrecondition]), w)
      | Some planner \<Rightarrow>
        (case ValidateExecution planner plan objects of Inl e \<Rightarrow> ((0, Some e), w)
         | Inr request \<Rightarrow>
           (case DkBegin db w of Inl e \<Rightarrow> ((0, Some e), w)
            | Inr x \<Rightarrow>
              (case load_transaction db (staging_name sequence) request objects x of
                 ((rows, Some e), _) \<Rightarrow> ((rows, Some e), w)
               | ((rows, None), x') \<Rightarrow> (case DkTxCommit db x' w of (err, w') \<Rightarrow> ((rows, err), w'))))))"

definition duckdb_loader :: "Warehouse \<Rightarrow> ('w, 'x) DuckDB \<Rightarrow> nat \<Rightarrow> 'w Loader" where
  "duckdb_loader wh db sequence =
     \<lparr>LdPlanSchema = Warehouse_PlanSchema wh, LdPlanLoad = Warehouse_PlanLoad wh, LdExecuteLoad = ExecuteLoad wh db sequence\<rparr>"

end
