(* ===== verification/Load_Behaviour.thy ===== *)
theory Load_Behaviour
  imports Duckdb_Load
begin

text \<open>
  What a load job does to its table: the casts of a load are the types of the columns, the files the service hands to the warehouse
  pass the checks of the plan they were planned with, and a job loads its rows once or leaves the table as it was.
\<close>

section \<open>The casts of a load\<close>

lemma cast_type_plain: "cast_type u = Some text \<Longrightarrow> plain_type u = Some text"
proof -
  assume "cast_type u = Some text"
  then have "(u, text) \<in> set [(''BOOL'', ''BOOLEAN''), (''BOOLEAN'', ''BOOLEAN''), (''INT64'', ''BIGINT''), (''INTEGER'', ''BIGINT''),
       (''FLOAT64'', ''DOUBLE''), (''FLOAT'', ''DOUBLE''), (''STRING'', ''VARCHAR''), (''BYTES'', ''BLOB''), (''DATE'', ''DATE''),
       (''TIME'', ''TIME''), (''DATETIME'', ''TIMESTAMP''), (''TIMESTAMP'', ''TIMESTAMPTZ'')]" (is "_ \<in> set ?casts")
    unfolding cast_type_def by (rule map_of_SomeD)
  moreover have "list_all (\<lambda>(u, text). plain_type u = Some text) ?casts" by code_simp
  ultimately show ?thesis unfolding list_all_iff by blast
qed

lemma validatedTargetType_duckDBType:
  assumes "duckDBType f = Inr text" "\<not> strings_EqualFold (FMode f) ''REPEATED''" "validatedTargetType f source = Inr target"
  shows "target = text"
proof (cases f)
  case (MkField n t m d p s r fs)
  have valid: "Field_Validate f = None" using assms(1) duckDBType_accepts by blast
  show ?thesis
  proof (cases "strings_ToUpper t \<in> {''NUMERIC'', ''BIGNUMERIC''}")
    case True
    then have "plain_type (strings_ToUpper t) = None" by (auto simp: plain_type_def)
    then show ?thesis using True assms valid MkField
      by (auto simp del: Field_Validate.simps simp: validatedTargetType_def decimal_target_def mode_suffix_def Let_def
          split: sum.splits option.splits if_splits)
  next
    case False
    then obtain u where "cast_type (strings_ToUpper t) = Some u" "target = u"
      using assms(3) MkField by (auto simp: validatedTargetType_def Let_def split: option.splits if_splits)
    then show ?thesis using assms valid MkField cast_type_plain [of "strings_ToUpper t"]
      by (simp del: Field_Validate.simps add: mode_suffix_def Let_def)
  qed
qed

lemma index_columns_get:
  "index_columns columns byName = Some result \<Longrightarrow> gm_get result k = Some c \<Longrightarrow>
   c \<in> set columns \<and> strings_ToLower (ScName c) = k \<or> gm_get byName k = Some c"
  by (induction columns arbitrary: byName) (fastforce simp: Let_def split: if_splits)+

lemma index_columns_distinct:
  "index_columns columns byName = Some result \<Longrightarrow>
   distinct (map (strings_ToLower \<circ> ScName) columns) \<and> (\<forall>c \<in> set columns. gm_get byName (strings_ToLower (ScName c)) = None)"
  by (induction columns arbitrary: byName) (fastforce simp: Let_def split: if_splits)+

definition load_cast :: "stagingColumn \<Rightarrow> string \<Rightarrow> string" where
  "load_cast column text = ''CAST('' @ quoteIdentifier (ScName column) @ '' AS '' @ text @ '')''"

lemma load_expressions_casts:
  assumes "load_expressions byName schema = Inr pairs" "load_physical_types schema = Inr types"
  shows "map snd pairs = map (quoteIdentifier \<circ> FName) schema
    \<and> (\<exists>sources. length sources = length schema \<and> map fst pairs = map2 load_cast sources types
        \<and> list_all2 (\<lambda>column f. gm_get byName (strings_ToLower (FName f)) = Some column) sources schema)"
  using assms
proof (induction schema arbitrary: pairs types)
  case (Cons f fs)
  obtain column target rest where c: "gm_get byName (strings_ToLower (FName f)) = Some column"
    "validatedTargetType f (ScTypeName column) = Inr target" "load_expressions byName fs = Inr rest"
    "pairs = (load_cast column target, quoteIdentifier (FName f)) # rest"
    using Cons.prems(1) by (auto simp: load_cast_def split: option.splits sum.splits)
  obtain physical texts where ty: "duckDBType f = Inr physical" "\<not> strings_EqualFold (FMode f) ''REPEATED''"
    "load_physical_types fs = Inr texts" "types = physical # texts"
    using Cons.prems(2) by (auto split: sum.splits if_splits)
  have "target = physical" using validatedTargetType_duckDBType [OF ty(1,2) c(2)] .
  moreover obtain sources where "length sources = length fs" "map fst rest = map2 load_cast sources texts"
    "list_all2 (\<lambda>column f. gm_get byName (strings_ToLower (FName f)) = Some column) sources fs"
    "map snd rest = map (quoteIdentifier \<circ> FName) fs"
    using Cons.IH [OF c(3) ty(3)] by blast
  ultimately show ?case using c ty by (intro conjI exI [of _ "column # sources"]) simp_all
qed simp

text \<open>
  When the shape of the files fits a planned destination, the insert lists the destination's columns in order, and reads each
  from the one file column of the same name, ignoring case, cast to the very type the destination column was created with; with distinct
  destination names every file column is read exactly once.
\<close>

theorem load_casts_are_column_types:
  assumes "validateLoadShape schema columns = Inr (expressions, destinations)"
    and "load_physical_types schema = Inr types"
  shows "destinations = map (quoteIdentifier \<circ> FName) schema
    \<and> map duckDBType schema = map Inr types
    \<and> (\<exists>sources. expressions = map2 load_cast sources types \<and> set sources \<subseteq> set columns
        \<and> map (strings_ToLower \<circ> ScName) sources = map (strings_ToLower \<circ> FName) schema
        \<and> (distinct (map (strings_ToLower \<circ> FName) schema) \<longrightarrow> mset sources = mset columns))"
proof -
  obtain byName pairs where i: "index_columns columns [] = Some byName" "load_expressions byName schema = Inr pairs"
    "expressions = map fst pairs" "destinations = map snd pairs" "length schema = length columns"
    using assms(1) by (auto simp: validateLoadShape_def split: option.splits sum.splits if_splits)
  obtain sources where s: "length sources = length schema" "map fst pairs = map2 load_cast sources types"
    "list_all2 (\<lambda>column f. gm_get byName (strings_ToLower (FName f)) = Some column) sources schema"
    and d: "map snd pairs = map (quoteIdentifier \<circ> FName) schema"
    using load_expressions_casts [OF i(2) assms(2)] by blast
  have found: "c \<in> set columns \<and> strings_ToLower (ScName c) = strings_ToLower (FName f)"
    if "gm_get byName (strings_ToLower (FName f)) = Some c" for c f
    using index_columns_get [OF i(1) that] by simp
  have subset: "set sources \<subseteq> set columns" using s(3) found by (fastforce simp: list_all2_conv_all_nth in_set_conv_nth)
  have names: "map (strings_ToLower \<circ> ScName) sources = map (strings_ToLower \<circ> FName) schema"
    using s(1,3) found by (intro nth_equalityI) (auto simp: list_all2_conv_all_nth)
  have "mset sources = mset columns" if "distinct (map (strings_ToLower \<circ> FName) schema)"
  proof -
    have "distinct sources" "distinct columns"
      using that names index_columns_distinct [OF i(1)] by (metis distinct_map)+
    moreover have "set sources = set columns"
      using subset calculation s(1) i(5) by (intro card_subset_eq) (simp_all add: distinct_card)
    ultimately show ?thesis by (simp add: set_eq_iff_mset_eq_distinct)
  qed
  moreover have "map duckDBType schema = map Inr types"
    using assms(2) by (induction schema arbitrary: types) (auto split: sum.splits if_splits)
  ultimately show ?thesis using i(3,4) s(2) d subset names by blast
qed

definition example_fields :: "Field list" where
  "example_fields = [MkField ''id'' ''INT64'' ''REQUIRED'' [] None None [] [], MkField ''n'' ''NUMERIC'' [] [] None None [] []]"

definition example_columns :: "stagingColumn list" where
  "example_columns = [\<lparr>ScName = ''N'', ScTypeName = ''DECIMAL(10,2)''\<rparr>, \<lparr>ScName = ''ID'', ScTypeName = ''INTEGER''\<rparr>]"

lemma example_shape:
  "validateLoadShape example_fields example_columns =
     Inr (map2 load_cast (rev example_columns) [''BIGINT'', ''DECIMAL(38,9)''], map quoteIdentifier [''id'', ''n''])"
  "load_physical_types example_fields = Inr [''BIGINT'', ''DECIMAL(38,9)'']"
  by code_simp+

theorem load_casts_are_column_types_witness:
  "validateLoadShape example_fields example_columns =
     Inr (map2 load_cast (rev example_columns) [''BIGINT'', ''DECIMAL(38,9)''], map quoteIdentifier [''id'', ''n''])
   \<and> map duckDBType example_fields = map Inr [''BIGINT'', ''DECIMAL(38,9)'']"
  using load_casts_are_column_types [OF example_shape] example_shape(1) by blast

text \<open>A TIME column takes a TIMESTAMP column of a file, because the type names share a prefix.\<close>

lemma time_column_takes_timestamps:
  "validatedTargetType (MkField ''at'' ''TIME'' [] [] None None [] []) ''TIMESTAMP'' = Inr ''TIME''"
  by code_simp

section \<open>From the plan to the warehouse\<close>

definition load_request :: "LoadConfiguration \<Rightarrow> LoadTable \<Rightarrow> SchemaPlan \<Rightarrow> ObjectInfo list \<Rightarrow> LoadPlanRequest" where
  "load_request c table schemaPlan objects =
     \<lparr>LqDestination = table, LqSchemaPlan = schemaPlan, LqSourceFormat = LcSourceFormat c,
      LqWriteDisposition = LcWriteDisposition c, LqObjects = map resolved objects\<rparr>"

lemma run_plan_Inr:
  assumes "run_plan s env job = Inr (plan, objects)"
  obtains table schemaPlan where
    "EvGetTable env (LcDestination (LjConfiguration job)) = Inr table"
    "resolveObjects (SvConfig s) env (LcSourceURIs (LjConfiguration job)) = Inr objects"
    "LdPlanLoad (SvLoader s) (load_request (LjConfiguration job) table schemaPlan objects) = Inr plan"
  using assms that by (auto simp: run_plan_def load_request_def Let_def split: if_splits sum.splits)

lemma Warehouse_PlanLoad_Inr:
  assumes "Warehouse_PlanLoad wh request = Inr plan"
  obtains planner where "WhLoadPlanner wh = Some planner" "LoadPlanner_Plan planner request = Inr plan"
  using assms that by (auto simp: Warehouse_PlanLoad_def split: option.splits)

lemma downloaded_matches: "list_all2 downloaded_as local objects \<Longrightarrow> list_all2 local_object_matches local (map resolved objects)"
  by (auto simp: list_all2_conv_all_nth downloaded_as_def local_object_matches_def resolved_def)

lemma prepared_load:
  assumes "limits_ok (SvConfig s)" "SvLoader s = duckdb_loader wh db sequence"
    and "run_plan s env job = Inr (plan, objects)" "download (SvConfig s) env workspace 0 objects 0 = (Inr local, downloaded)"
  obtains planner table schemaPlan where
    "EvGetTable env (LcDestination (LjConfiguration job)) = Inr table"
    "resolveObjects (SvConfig s) env (LcSourceURIs (LjConfiguration job)) = Inr objects"
    "WhLoadPlanner wh = Some planner"
    "ValidateExecution planner plan local = Inr (load_request (LjConfiguration job) table schemaPlan objects)"
    "list_all2 downloaded_as local objects" "downloaded = sum_list (map OiSize objects)" "downloaded \<le> LfMaxTotalBytes (SvConfig s)"
proof -
  obtain table schemaPlan where t: "EvGetTable env (LcDestination (LjConfiguration job)) = Inr table"
    "resolveObjects (SvConfig s) env (LcSourceURIs (LjConfiguration job)) = Inr objects"
    "Warehouse_PlanLoad wh (load_request (LjConfiguration job) table schemaPlan objects) = Inr plan"
    using run_plan_Inr [OF assms(3)] assms(2) by (auto simp: duckdb_loader_def)
  obtain planner where p: "WhLoadPlanner wh = Some planner"
    "LoadPlanner_Plan planner (load_request (LjConfiguration job) table schemaPlan objects) = Inr plan"
    by (rule Warehouse_PlanLoad_Inr [OF t(3)])
  have "0 \<le> LfMaxTotalBytes (SvConfig s)"
    using assms(1) by (auto simp: limits_ok_def LoadServiceConfig_Validate_def split: if_splits)
  then have d: "list_all2 downloaded_as local objects" "downloaded = sum_list (map OiSize objects)"
    "downloaded \<le> LfMaxTotalBytes (SvConfig s)"
    using download_result [OF assms(1,4)] by simp_all
  have "list_all2 local_object_matches local (LqObjects (load_request (LjConfiguration job) table schemaPlan objects))"
    using downloaded_matches [OF d(1)] by (simp add: load_request_def)
  from that [OF t(1,2) p(1) ValidateExecution_planned [OF p(2) this] d] show ?thesis .
qed

section \<open>Flat loads\<close>

lemma NewWarehouse_Inr:
  assumes "NewWarehouse db ddl a b d = Inr wh"
  obtains identity c planner where "NewCapabilities (duckdb_descriptor identity) = Inr c"
    "planner = \<lparr>SlCapabilities = c, SlAdapter = Some ValidateSchemaIntent, SlIssuer = Some a\<rparr>"
    "WhSchemaPlanner wh = Some planner"
    "WhLoadPlanner wh = Some \<lparr>LnCapabilities = c, LnAdapter = Some (ValidateLoadRequest (Some planner)), LnIssuer = Some b\<rparr>"
proof -
  obtain c where c: "newDuckDBCapabilities db = Inr c" using assms by (auto simp: NewWarehouse_def split: sum.splits)
  then obtain identity where i: "NewCapabilities (duckdb_descriptor identity) = Inr c"
    by (auto simp: newDuckDBCapabilities_def split: sum.splits)
  note same = NewCapabilities_describes [OF i]
  show thesis using assms c same
    by (intro that [OF i refl]) (auto simp: NewWarehouse_def NewSchemaPlanner_def NewLoadPlanner_def NewPlanner_def split: if_splits option.splits)
qed

lemma duckdb_capabilities:
  assumes "NewCapabilities (duckdb_descriptor identity) = Inr c"
  shows "SupportsTransaction c TransactionScopeSingleTable" "SupportsAtomicReplacement c AtomicReplacementTable"
    "CmMaxStructDepth (CpComposite c) = 15" "CmMaxListDepth (CpComposite c) = 15"
    "DmSupported (CpDecimal c)" "DmMaxPrecision (CpDecimal c) = 38" "DmMaxScale (CpDecimal c) = 38"
  using NewCapabilities_fields [OF assms]
  by (simp_all add: duckdb_descriptor_def SupportsTransaction_def SupportsAtomicReplacement_def
      SparkDecimalMaxPrecision_def SparkDecimalMaxScale_def)

definition flat_field :: "Field \<Rightarrow> bool" where
  "flat_field f \<longleftrightarrow> FFields f = [] \<and> \<not> isRepeatedField f"

lemma field_chains_flat: "list_all flat_field fs \<Longrightarrow> field_chains fs = map (\<lambda>f. [f]) fs"
  by (induction fs rule: field_chains.induct) (auto simp: flat_field_def)

lemma decimal_supported_valid:
  assumes "NewCapabilities (duckdb_descriptor identity) = Inr c" "Field_Validate f = None"
  shows "decimal_supported c f"
proof (cases "isDecimalField f")
  case True
  then have "strings_ToUpper (FType f) \<in> {''NUMERIC'', ''BIGNUMERIC''}"
    by (auto simp: isDecimalField_def strings_EqualFold_upper strings_ToUpper_def upper_char_def)
  moreover have "Field_Validate_head f = None" using assms(2) Field_Validate_iff by blast
  ultimately obtain p where p: "EffectiveDecimalParameters f = Inr p"
    by (auto simp: Field_Validate_head_def Let_def split: if_splits sum.splits)
  show ?thesis
    using EffectiveDecimalParameters_bounds [OF p] duckdb_capabilities [OF assms(1)] p by (simp add: decimal_supported_def)
qed (simp add: decimal_supported_def)

lemma flat_schema_supported:
  assumes "NewCapabilities (duckdb_descriptor identity) = Inr c" "list_all flat_field schema" "schema_ok schema"
  shows "validateLogicalFieldsForOperation c operation schema 0 0 = None"
proof -
  have "Field_Validate f = None" if "f \<in> set schema" for f
    using assms(3) that schema_ok.simps [of schema] schema_ok_Field_Validate by blast
  then have "chain_supported c 0 0 [f]" if "f \<in> set schema" for f
    using that assms(2) duckdb_capabilities [OF assms(1)] decimal_supported_valid [OF assms(1)]
    by (simp add: chain_supported_def)
  then show ?thesis
    using validateLogicalFields_chains [of 0 c 0 operation schema] duckdb_capabilities [OF assms(1)] field_chains_flat [OF assms(2)]
    by simp
qed

lemma flat_schema_types: "list_all flat_field schema \<Longrightarrow> schema_ok schema \<Longrightarrow>
  ValidateSchemaIntent_fields schema = None \<and> (\<exists>types. load_physical_types schema = Inr types)"
proof (induction schema)
  case (Cons f fs)
  then have "Field_Validate f = None" using schema_ok_Field_Validate by auto
  then obtain physical where "duckDBType f = Inr physical" using duckDBType_accepts by blast
  with Cons show ?case by (auto simp: flat_field_def isRepeatedField_def)
qed simp

lemma validate_intent:
  assumes "Table_Validate (logical_table target schema) = None"
  obtains intent where "NewSchemaIntent \<lparr>SidOperation = SchemaOperationValidate, SidTarget = target, SidBeforeSchema = [],
      SidAfterSchema = schema, SidAdditions = []\<rparr> = Inr intent"
    "SiOperation intent = SchemaOperationValidate" "SiTarget intent = target" "SiAfterSchema intent = schema"
    "SchemaIntent_validate intent = None"
proof -
  have "validateFieldList [MkField ''placeholder'' ''STRING'' [] [] None None [] []] = None" by code_simp
  then have "validateTableReference target = None"
    using assms by (auto simp: validateTableReference_def Table_Validate_def logical_table_def split: if_splits)
  then show thesis using assms that
    by (auto simp: NewSchemaIntent_def validateSchemaIntentTransition_def validateLogicalTableSchema_def validSchemaOperation_def
        CloneFields_id SchemaIntent_validate_None schemaIntentFingerprint_def intent_document_def Let_def)
qed

text \<open>The resolved objects of a request pass the checks of the planner when no two have one digest.\<close>

lemma check_objects_resolved:
  "list_all (\<lambda>x. 0 \<le> OiSize x) objects \<Longrightarrow> distinct (map objectFingerprint objects) \<Longrightarrow>
   set seen \<inter> objectFingerprint ` set objects = {} \<Longrightarrow> check_objects seen (map resolved objects) = None"
  by (induction objects arbitrary: seen) (auto simp: resolved_def fingerprintValid_def objectFingerprint_def)

lemma flat_load_planned:
  assumes wh: "NewWarehouse db ddl a b d = Inr wh"
    and table: "Table_Validate (logical_table (catalog_reference (LoReference table)) (LoSchema table)) = None"
      "list_all flat_field (LoSchema table)"
    and c: "LcSourceFormat c = FormatParquet" "validWriteDisposition (LcWriteDisposition c)"
    and objects: "objects \<noteq> []" "list_all (\<lambda>x. 0 \<le> OiSize x) objects" "distinct (map objectFingerprint objects)"
  obtains intent schemaPlan plan where
    "NewSchemaIntent \<lparr>SidOperation = SchemaOperationValidate, SidTarget = catalog_reference (LoReference table), SidBeforeSchema = [],
       SidAfterSchema = LoSchema table, SidAdditions = []\<rparr> = Inr intent"
    "Warehouse_PlanSchema wh intent = Inr schemaPlan"
    "Warehouse_PlanLoad wh (load_request c table schemaPlan objects) = Inr plan"
proof -
  obtain identity caps planner where w: "NewCapabilities (duckdb_descriptor identity) = Inr caps"
    "planner = \<lparr>SlCapabilities = caps, SlAdapter = Some ValidateSchemaIntent, SlIssuer = Some a\<rparr>"
    "WhSchemaPlanner wh = Some planner"
    "WhLoadPlanner wh = Some \<lparr>LnCapabilities = caps, LnAdapter = Some (ValidateLoadRequest (Some planner)), LnIssuer = Some b\<rparr>"
    by (rule NewWarehouse_Inr [OF wh])
  have ok: "schema_ok (LoSchema table)"
    using table(1) by (auto simp: Table_Validate_def logical_table_def validateFieldList_iff split: if_splits)
  obtain types where types: "load_physical_types (LoSchema table) = Inr types"
    and adapter: "ValidateSchemaIntent_fields (LoSchema table) = None"
    using flat_schema_types [OF table(2) ok] by blast
  obtain intent where i: "NewSchemaIntent \<lparr>SidOperation = SchemaOperationValidate, SidTarget = catalog_reference (LoReference table),
      SidBeforeSchema = [], SidAfterSchema = LoSchema table, SidAdditions = []\<rparr> = Inr intent"
    "SiOperation intent = SchemaOperationValidate" "SiTarget intent = catalog_reference (LoReference table)"
    "SiAfterSchema intent = LoSchema table" "SchemaIntent_validate intent = None"
    by (rule validate_intent [OF table(1)])
  have planned: "\<exists>schemaPlan. SchemaPlanner_Plan planner intent = Inr schemaPlan"
    using w(2) i adapter flat_schema_supported [OF w(1) table(2) ok]
    by (auto simp: SchemaPlanner_Plan_def ValidateSchemaIntent_def validateSchemaOperationCapabilities_def Let_def)
  then obtain schemaPlan where sp: "SchemaPlanner_Plan planner intent = Inr schemaPlan" by blast
  note sealed = sp [unfolded SchemaPlanner_Plan_Inr]
  have binding: "SchemaPlanner_ValidateBinding planner schemaPlan intent = None"
    using sealed w(2) by (auto simp: SchemaPlanner_ValidateBinding_None)
  let ?request = "load_request c table schemaPlan objects"
  have "SqFingerprint schemaPlan \<noteq> []" using sealed by (simp add: schemaPlanFingerprint_def)
  then have "validateLoadPlanRequest caps ?request = None"
    using sealed w(2) i table(1) c objects duckdb_capabilities [OF w(1)] check_objects_resolved [of objects "[]"]
    by (auto simp: validateLoadPlanRequest_def load_request_def Let_def validSourceFormat_def)
  moreover have "\<exists>d. ValidateLoadRequest (Some planner) ?request = Inr d \<and> fingerprintValid d"
    using i(1) binding types c(1)
    by (simp add: ValidateLoadRequest_def load_request_def fingerprintValid_def json_digest_hex)
  ultimately have "\<exists>plan. Warehouse_PlanLoad wh ?request = Inr plan"
    using w(4) by (auto simp: Warehouse_PlanLoad_def LoadPlanner_Plan_def Let_def)
  with that [OF i(1)] sp w(3) show thesis by (auto simp: Warehouse_PlanSchema_def)
qed

lemma download_sizes:
  "download c env workspace i objects bytes = (Inr local, downloaded) \<Longrightarrow> list_all (\<lambda>x. 0 \<le> OiSize x) objects"
proof (induction objects arbitrary: i bytes local)
  case (Cons x xs)
  show ?case by (rule download_step [OF Cons.prems]) (use Cons.IH in auto)
qed simp

text \<open>The configurations that the load service implements.\<close>

definition plain_load :: "LoadConfiguration \<Rightarrow> bool" where
  "plain_load c \<longleftrightarrow>
     LcSourceFormat c = FormatParquet \<and> \<not> LcAutodetect c \<and> LcSchemaUpdateOptions c = [] \<and> \<not> LcIgnoreUnknownValues c
     \<and> LcMaxBadRecords c = 0 \<and> LcUnsupportedOptions c = [] \<and> validWriteDisposition (LcWriteDisposition c)"

text \<open>A table that fits a job: in its location, with the requested schema if there is one, valid and without nested or repeated fields.\<close>

definition flat_destination :: "LoadJob \<Rightarrow> LoadTable \<Rightarrow> bool" where
  "flat_destination job table \<longleftrightarrow>
     (LoLocation table = [] \<or> strings_EqualFold (LoLocation table) (LrLocation (LjReference job)))
     \<and> (LcSchema (LjConfiguration job) = [] \<or> schemasEqual (LcSchema (LjConfiguration job)) (LoSchema table))
     \<and> Table_Validate (logical_table (catalog_reference (LoReference table)) (LoSchema table)) = None
     \<and> list_all flat_field (LoSchema table)"

lemma flat_load_ready:
  assumes "limits_ok (SvConfig s)" and loader: "SvLoader s = duckdb_loader wh db sequence" and "NewWarehouse db ddl a b d = Inr wh"
    and plain: "plain_load (LjConfiguration job)"
    and table: "EvGetTable env (LcDestination (LjConfiguration job)) = Inr table" "flat_destination job table"
    and objects: "resolveObjects (SvConfig s) env (LcSourceURIs (LjConfiguration job)) = Inr objects"
      "objects \<noteq> []" "distinct (map objectFingerprint objects)"
    and down: "download (SvConfig s) env workspace 0 objects 0 = (Inr local, downloaded)"
  shows "\<exists>plan planner request.
      run_plan s env job = Inr (plan, objects) \<and> WhLoadPlanner wh = Some planner
    \<and> ValidateExecution planner plan local = Inr request \<and> LqDestination request = table
    \<and> LqWriteDisposition request = LcWriteDisposition (LjConfiguration job) \<and> LqObjects request = map resolved objects
    \<and> downloaded = sum_list (map OiSize objects)"
proof -
  obtain intent schemaPlan plan where p:
    "NewSchemaIntent \<lparr>SidOperation = SchemaOperationValidate, SidTarget = catalog_reference (LoReference table), SidBeforeSchema = [],
       SidAfterSchema = LoSchema table, SidAdditions = []\<rparr> = Inr intent"
    "Warehouse_PlanSchema wh intent = Inr schemaPlan"
    "Warehouse_PlanLoad wh (load_request (LjConfiguration job) table schemaPlan objects) = Inr plan"
  proof (rule flat_load_planned [OF assms(3), of table "LjConfiguration job" objects])
  qed (use table plain objects download_sizes [OF down] in \<open>auto simp: flat_destination_def plain_load_def\<close>)
  have planned: "run_plan s env job = Inr (plan, objects)"
    using p plain table objects(1) loader
    by (auto simp: run_plan_def plain_load_def flat_destination_def duckdb_loader_def load_request_def Let_def)
  obtain planner found schemaPlan where "EvGetTable env (LcDestination (LjConfiguration job)) = Inr found"
    "WhLoadPlanner wh = Some planner"
    "ValidateExecution planner plan local = Inr (load_request (LjConfiguration job) found schemaPlan objects)"
    "downloaded = sum_list (map OiSize objects)"
    by (rule prepared_load [OF assms(1) loader planned down])
  then show ?thesis using planned table(1) by (intro exI conjI) (assumption | simp add: load_request_def)+
qed

text \<open>
  C37. No check of the emulator stands between a plain load and the warehouse: when a Parquet load without options has a valid
  destination without nested or repeated fields, and its objects are found and downloaded, then the warehouse that was opened on
  DuckDB plans the schema and the load, and the check before the execution accepts the downloaded files for exactly this
  destination, disposition and set of objects. Planning fails only if two objects have the same SHA-256 digest.
\<close>

theorem flat_load_reaches_the_warehouse:
  assumes "limits_ok (SvConfig s)" and "SvLoader s = duckdb_loader wh db sequence" and "NewWarehouse db ddl a b d = Inr wh"
    and "plain_load (LjConfiguration job)"
    and "EvGetTable env (LcDestination (LjConfiguration job)) = Inr table" and "flat_destination job table"
    and "resolveObjects (SvConfig s) env (LcSourceURIs (LjConfiguration job)) = Inr objects"
    and "objects \<noteq> []" and "distinct (map objectFingerprint objects)"
    and "download (SvConfig s) env workspace 0 objects 0 = (Inr local, downloaded)"
  shows "\<exists>plan planner request.
      run_plan s env job = Inr (plan, objects) \<and> WhLoadPlanner wh = Some planner
    \<and> ValidateExecution planner plan local = Inr request \<and> LqDestination request = table
    \<and> LqWriteDisposition request = LcWriteDisposition (LjConfiguration job) \<and> LqObjects request = map resolved objects
    \<and> downloaded = sum_list (map OiSize objects)"
  using assms by (rule flat_load_ready)

section \<open>What a job does to its table\<close>

text \<open>
  What the statements of a load do in DuckDB, for the rows of the destination in the database and in a transaction, and the rows
  staged in a transaction, as the destination will hold them: \<open>file_rows\<close> are the rows that the files contain.
\<close>

definition loads_as_documented ::
  "('w, 'x) DuckDB \<Rightarrow> ('w \<Rightarrow> 'row list) \<Rightarrow> ('x \<Rightarrow> 'row list) \<Rightarrow> ('x \<Rightarrow> 'row list) \<Rightarrow> (LocalObject list \<Rightarrow> 'row list)
    \<Rightarrow> string \<Rightarrow> string \<Rightarrow> Field list \<Rightarrow> bool" where
  "loads_as_documented db rows tx_rows staged file_rows destination staging schema \<longleftrightarrow>
     (\<forall>w x. DkBegin db w = Inr x \<longrightarrow> tx_rows x = rows w)
   \<and> (\<forall>objects x x'. DkTxExec db (create_staging staging objects) x = (None, x') \<longrightarrow>
        tx_rows x' = tx_rows x \<and> staged x' = file_rows objects)
   \<and> (\<forall>x n. DkTxCount db (''SELECT count(*) FROM '' @ quoteIdentifier staging) x = Inr n \<longrightarrow> n = int (length (staged x)))
   \<and> (\<forall>x b. DkTxExists db (''SELECT EXISTS(SELECT 1 FROM '' @ destination @ '' LIMIT 1)'') x = Inr b \<longrightarrow> b = (tx_rows x \<noteq> []))
   \<and> (\<forall>x x'. DkTxExec db (''DELETE FROM '' @ destination) x = (None, x') \<longrightarrow> tx_rows x' = [] \<and> staged x' = staged x)
   \<and> (\<forall>columns expressions destinations x x'. validateLoadShape schema columns = Inr (expressions, destinations) \<longrightarrow>
        DkTxExec db (insert_statement destination destinations expressions staging) x = (None, x') \<longrightarrow>
        tx_rows x' = tx_rows x @ staged x)
   \<and> (\<forall>x x'. DkTxExec db (''DROP TABLE '' @ quoteIdentifier staging) x = (None, x') \<longrightarrow> tx_rows x' = tx_rows x)
   \<and> (\<forall>x w w'. DkTxCommit db x w = (None, w') \<longrightarrow> rows w' = tx_rows x)
   \<and> (\<forall>x w w' e. DkTxCommit db x w = (Some e, w') \<longrightarrow> rows w' = rows w)"

lemma loads_as_documentedD:
  assumes "loads_as_documented db rows tx_rows staged file_rows destination staging schema"
  shows "DkBegin db w = Inr x \<Longrightarrow> tx_rows x = rows w"
    "DkTxExec db (create_staging staging objects) x = (None, x') \<Longrightarrow> tx_rows x' = tx_rows x \<and> staged x' = file_rows objects"
    "DkTxCount db (''SELECT count(*) FROM '' @ quoteIdentifier staging) x = Inr n \<Longrightarrow> n = int (length (staged x))"
    "DkTxExists db (''SELECT EXISTS(SELECT 1 FROM '' @ destination @ '' LIMIT 1)'') x = Inr b \<Longrightarrow> b = (tx_rows x \<noteq> [])"
    "DkTxExec db (''DELETE FROM '' @ destination) x = (None, x') \<Longrightarrow> tx_rows x' = [] \<and> staged x' = staged x"
    "validateLoadShape schema columns = Inr (expressions, destinations) \<Longrightarrow>
     DkTxExec db (insert_statement destination destinations expressions staging) x = (None, x') \<Longrightarrow> tx_rows x' = tx_rows x @ staged x"
    "DkTxExec db (''DROP TABLE '' @ quoteIdentifier staging) x = (None, x') \<Longrightarrow> tx_rows x' = tx_rows x"
    "DkTxCommit db x w = (None, w') \<Longrightarrow> rows w' = tx_rows x"
    "DkTxCommit db x w = (Some e, w') \<Longrightarrow> rows w' = rows w"
  using assms unfolding loads_as_documented_def by - meson+

text \<open>The contents a load leaves, and when its disposition allows it.\<close>

definition loaded :: "string \<Rightarrow> 'row list \<Rightarrow> 'row list \<Rightarrow> 'row list \<Rightarrow> bool" where
  "loaded disposition before files result \<longleftrightarrow>
     (disposition = WriteAppend \<and> result = before @ files
      \<or> disposition = WriteTruncate \<and> result = files
      \<or> disposition = WriteEmpty \<and> before = [] \<and> result = files)"

lemma apply_disposition_loads:
  assumes "loads_as_documented db rows tx_rows staged file_rows destination staging schema"
    and "apply_disposition db disposition destination x = (None, x')"
  shows "loaded disposition (tx_rows x) files (tx_rows x' @ files)" "staged x' = staged x"
  using assms(2) loads_as_documentedD(4,5) [OF assms(1)]
  by (auto simp: apply_disposition_def loaded_def split: if_splits sum.splits bool.splits)

lemma load_transaction_loads:
  assumes law: "loads_as_documented db rows tx_rows staged file_rows (load_destination (LoReference (LqDestination request))) staging
      (LoSchema (LqDestination request))"
    and "load_transaction db staging request objects x = ((n, None), x')"
  shows "n = int (length (file_rows objects))
    \<and> loaded (LqWriteDisposition request) (tx_rows x) (file_rows objects) (tx_rows x')"
proof -
  obtain x1 columns expressions destinations x2 x3 where steps:
    "DkTxExec db (create_staging staging objects) x = (None, x1)"
    "validateLoadShape (LoSchema (LqDestination request)) columns = Inr (expressions, destinations)"
    "DkTxCount db (''SELECT count(*) FROM '' @ quoteIdentifier staging) x1 = Inr n"
    "apply_disposition db (LqWriteDisposition request) (load_destination (LoReference (LqDestination request))) x1 = (None, x2)"
    "DkTxExec db (insert_statement (load_destination (LoReference (LqDestination request))) destinations expressions staging) x2 = (None, x3)"
    "DkTxExec db (''DROP TABLE '' @ quoteIdentifier staging) x3 = (None, x')"
    using assms(2) by (auto simp: load_transaction_def Let_def split: option.splits sum.splits prod.splits)
  note laws = loads_as_documentedD [OF law]
  have "tx_rows x1 = tx_rows x" "staged x1 = file_rows objects" using laws(2) [OF steps(1)] by simp_all
  moreover have "tx_rows x' = tx_rows x2 @ staged x2" using laws(6) [OF steps(2,5)] laws(7) [OF steps(6)] by simp
  ultimately show ?thesis
    using apply_disposition_loads(1) [OF law steps(4), of "file_rows objects"] apply_disposition_loads(2) [OF law steps(4)]
      laws(3) [OF steps(3)] by simp
qed

lemma ExecuteLoad_loads:
  assumes "WhLoadPlanner wh = Some planner" "ValidateExecution planner plan objects = Inr request"
    and law: "loads_as_documented db rows tx_rows staged file_rows (load_destination (LoReference (LqDestination request)))
      (staging_name sequence) (LoSchema (LqDestination request))"
    and "ExecuteLoad wh db sequence plan objects w = ((n, err), w')"
  shows "case err of Some e \<Rightarrow> rows w' = rows w
    | None \<Rightarrow> n = int (length (file_rows objects)) \<and> loaded (LqWriteDisposition request) (rows w) (file_rows objects) (rows w')"
proof (cases "\<exists>x x' m. DkBegin db w = Inr x \<and> load_transaction db (staging_name sequence) request objects x = ((m, None), x')")
  case True
  then obtain x x' m where x: "DkBegin db w = Inr x"
    "load_transaction db (staging_name sequence) request objects x = ((m, None), x')" by blast
  then have commit: "DkTxCommit db x' w = (err, w')" "m = n"
    using assms(1,2,4) by (auto simp: ExecuteLoad_def split: prod.splits)
  then show ?thesis
    using load_transaction_loads [OF law x(2)] loads_as_documentedD(1) [OF law x(1)]
      loads_as_documentedD(8,9) [OF law] by (auto split: option.splits)
next
  case False
  then have "w' = w \<and> err \<noteq> None"
    using assms(1,2,4) by (auto simp: ExecuteLoad_def split: sum.splits prod.splits option.splits)
  then show ?thesis by auto
qed

lemma load_run_cases:
  assumes "load_run s env job w = ((statistics, err), w')"
  obtains (early) "w' = w" "err \<noteq> None"
    | (executed) plan objects workspace local downloaded n failure where
      "run_plan s env job = Inr (plan, objects)"
      "download (SvConfig s) env workspace 0 objects 0 = (Inr local, downloaded)"
      "LdExecuteLoad (SvLoader s) plan local w = ((n, failure), w')" "LsOutputRows statistics = n"
      "err = (case failure of None \<Rightarrow> EvRemoveAll env | Some e \<Rightarrow> Some e)"
proof (cases "run_plan s env job")
  case (Inl e)
  then show thesis using assms by (intro early) (auto simp: load_run_def)
next
  case (Inr planned)
  then obtain plan objects where plan: "run_plan s env job = Inr (plan, objects)" by (cases planned) auto
  show thesis
  proof (cases "\<exists>workspace local downloaded. EvMkdirTemp env = Inr workspace \<and> EvChmod env = None
      \<and> download (SvConfig s) env workspace 0 objects 0 = (Inr local, downloaded)")
    case True
    then obtain workspace local downloaded where ready: "EvMkdirTemp env = Inr workspace" "EvChmod env = None"
      "download (SvConfig s) env workspace 0 objects 0 = (Inr local, downloaded)" by blast
    obtain n failure w1 where result: "LdExecuteLoad (SvLoader s) plan local w = ((n, failure), w1)" by (metis prod.exhaust)
    show thesis using assms plan ready result
      by (intro executed [OF plan ready(3), of n failure])
        (auto simp: load_run_def run_workspace_def Let_def split: option.splits)
  next
    case False
    then show thesis using assms plan
      by (intro early) (auto simp: load_run_def run_workspace_def Let_def split: sum.splits prod.splits option.splits, metis)
  qed
qed


section \<open>An example\<close>

text \<open>A database that holds the rows of one table and understands the statements of a load by their first letters.\<close>

definition example_exec :: "string \<Rightarrow> nat list \<times> nat list \<Rightarrow> go_error option \<times> nat list \<times> nat list" where
  "example_exec text x =
     (if take 2 text = ''CR'' then (None, fst x, [1, 2])
      else if take 2 text = ''DE'' then (None, [], snd x)
      else if take 2 text = ''IN'' then (None, fst x @ snd x, snd x)
      else (None, x))"

definition example_duckdb :: "(nat list, nat list \<times> nat list) DuckDB" where
  "example_duckdb =
     \<lparr>DkVersion = Inr ''v1.4.0'', DkPing = None, DkExec = \<lambda>_ w. (None, w), DkBegin = \<lambda>w. Inr (w, []), DkTxExec = example_exec,
      DkTxDescribe = \<lambda>_ _. Inr (2, [[DbString ''id'', DbString ''BIGINT'']], None),
      DkTxCount = \<lambda>text x. Inr (if strings_HasSuffix text ''NULL'' then 0 else int (length (snd x))),
      DkTxExists = \<lambda>_ x. Inr (fst x \<noteq> []), DkTxCommit = \<lambda>x _. (None, fst x)\<rparr>"

lemma example_documented:
  "loads_as_documented example_duckdb (\<lambda>w. w) fst snd (\<lambda>_. [1, 2]) (load_destination (LoReference example_table)) (staging_name 7)
     (LoSchema example_table)"
proof -
  have "\<not> strings_HasSuffix (''SELECT count(*) FROM '' @ quoteIdentifier (staging_name 7)) ''NULL''" by code_simp
  then show ?thesis
    by (simp add: loads_as_documented_def example_duckdb_def example_exec_def create_staging_def insert_statement_def)
qed

definition example_load :: LoadJob where
  "example_load =
     \<lparr>LjReference = \<lparr>LrProjectID = ''p'', LrLocation = ''US'', LrJobID = ''j''\<rparr>,
      LjConfiguration = \<lparr>LcSourceURIs = [''gs://b/a''], LcDestination = LoReference example_table, LcSourceFormat = FormatParquet,
        LcWriteDisposition = WriteTruncate, LcCreateDisposition = CreateNever, LcSchema = [], LcAutodetect = False,
        LcSchemaUpdateOptions = [], LcIgnoreUnknownValues = False, LcMaxBadRecords = 0, LcUnsupportedOptions = []\<rparr>,
      LjConfigurationDigest = [], LjState = JobRunning, LjError = None, LjStatistics = no_statistics,
      LjCreatedAt = 10, LjStartedAt = Some 20, LjEndedAt = None\<rparr>"

definition example_ddl :: AdapterPlanner where
  "example_ddl = \<lparr>ApPlanTableMutation = \<lambda>_. Inl [ErrUnsupported], ApPlanDataReplacement = \<lambda>_. Inl [ErrUnsupported]\<rparr>"

lemma warehouse_opens:
  assumes "DkVersion db = Inr ''v1.4.0''" "DkPing db = None"
  shows "\<exists>wh. NewWarehouse db example_ddl 0 1 2 = Inr wh"
proof -
  let ?identity = "\<lparr>IdID = ''duckdb'', IdVersion = ''1.4.0''\<rparr>"
  have "NewIdentity ''duckdb'' (strings_TrimPrefix (strings_TrimPrefix (strings_TrimSpace ''v1.4.0'') ''v'') ''V'') = Inr ?identity"
    by code_simp
  then have opened: "newDuckDBCapabilities db = NewCapabilities (duckdb_descriptor ?identity)"
    by (simp add: newDuckDBCapabilities_def assms)
  have "Identity_validate ?identity = None" by code_simp
  then have "\<exists>c. NewCapabilities (duckdb_descriptor ?identity) = Inr c"
    unfolding NewCapabilities_Inr
    by (simp add: duckdb_descriptor_def invalid_decimal_def SparkDecimalMaxPrecision_def SparkDecimalMaxScale_def
        validTransactionScope_def validAtomicReplacementScope_def validInspectionScope_def valid_ddl_entry_def
        validDDLOperation_def validDDLGuarantee_def ddlUsesFieldPath_def)
  then obtain c where c: "NewCapabilities (duckdb_descriptor ?identity) = Inr c" by blast
  have "CpFingerprint c \<noteq> []" using NewCapabilities_fields(8) [OF c] by (simp add: capabilitiesFingerprint_def)
  then show ?thesis using opened NewCapabilities_describes [OF c] c
    by (simp add: NewWarehouse_def NewSchemaPlanner_def NewLoadPlanner_def NewPlanner_def assms)
qed

lemma example_warehouse: "\<exists>wh. NewWarehouse example_duckdb example_ddl 0 1 2 = Inr wh"
  by (rule warehouse_opens) (simp_all add: example_duckdb_def)

definition example_loads :: "Warehouse \<Rightarrow> (MemoryJobRepository, nat list) LoadService" where
  "example_loads wh =
     \<lparr>SvJobs = memory_jobs, SvLoader = duckdb_loader wh example_duckdb 7, SvConfig = load_DefaultConfig ''/tmp''\<rparr>"

lemma example_source:
  "resolveObjects (load_DefaultConfig ''/tmp'') example_env [''gs://b/a''] = Inr [example_object ''gs://b/a'' 5]" by code_simp

lemma example_files:
  "download (load_DefaultConfig ''/tmp'') example_env ''/tmp/bqemu-load-1'' 0 [example_object ''gs://b/a'' 5] 0 =
     (Inr [\<lparr>LlPath = ''/tmp/bqemu-load-1/000000.parquet'', LlFingerprint = objectFingerprint (example_object ''gs://b/a'' 5), LlSize = 5\<rparr>], 5)"
proof -
  have "copy_limited (load_DefaultConfig ''/tmp'') (EvDownload example_env 0) = (5, None)" by code_simp
  moreover have "local_path ''/tmp/bqemu-load-1'' 0 = ''/tmp/bqemu-load-1/000000.parquet''" by code_simp
  ultimately show ?thesis
    by (simp add: example_env_def example_download_def load_DefaultConfig_def example_object_def i64_add_def wrap64_def Let_def)
qed

lemma example_fits:
  "plain_load (LjConfiguration example_load)" "flat_destination example_load example_table"
  "EvGetTable example_env (LcDestination (LjConfiguration example_load)) = Inr example_table"
  by code_simp+

theorem flat_load_reaches_the_warehouse_witness:
  "\<exists>wh plan planner request. NewWarehouse example_duckdb example_ddl 0 1 2 = Inr wh
     \<and> run_plan (example_loads wh) example_env example_load = Inr (plan, [example_object ''gs://b/a'' 5])
     \<and> WhLoadPlanner wh = Some planner
     \<and> ValidateExecution planner plan [\<lparr>LlPath = ''/tmp/bqemu-load-1/000000.parquet'',
          LlFingerprint = objectFingerprint (example_object ''gs://b/a'' 5), LlSize = 5\<rparr>] = Inr request
     \<and> LqDestination request = example_table \<and> LqWriteDisposition request = WriteTruncate"
proof -
  obtain wh where wh: "NewWarehouse example_duckdb example_ddl 0 1 2 = Inr wh" using example_warehouse by blast
  have "limits_ok (SvConfig (example_loads wh))" using example_limits(1) by (simp add: example_loads_def)
  from flat_load_reaches_the_warehouse [OF this _ wh example_fits(1,3,2), of "7" "[example_object ''gs://b/a'' 5]" "''/tmp/bqemu-load-1''"]
  show ?thesis using wh example_source example_files
    by (force simp: example_loads_def example_load_def)
qed

lemma example_transaction:
  assumes "LqDestination request = example_table" "LqWriteDisposition request = WriteTruncate"
  shows "load_transaction example_duckdb (staging_name 7) request objects ([9], []) = ((2, None), ([1, 2], [1, 2]))"
proof -
  have shape: "\<exists>columns. describeStaging example_duckdb (staging_name 7) x = Inr columns \<and> (\<exists>e d. validateLoadShape (LoSchema example_table) columns = Inr (e, d))" for x
  proof -
    have "\<exists>e d. validateLoadShape (LoSchema example_table) [\<lparr>ScName = ''id'', ScTypeName = ''BIGINT''\<rparr>] = Inr (e, d)"
      by (intro exI [of _ "[load_cast \<lparr>ScName = ''id'', ScTypeName = ''BIGINT''\<rparr> ''BIGINT'']"] exI [of _ "[quoteIdentifier ''id'']"]) code_simp
    moreover have "describeStaging example_duckdb (staging_name 7) x = Inr [\<lparr>ScName = ''id'', ScTypeName = ''BIGINT''\<rparr>]"
      by (simp add: describeStaging_def example_duckdb_def strings_ToUpper_def upper_char_def)
    ultimately show ?thesis by blast
  qed
  have "required_fields example_duckdb (staging_name 7) (LoSchema example_table) x = None" for x
    by code_simp
  moreover have "\<not> strings_HasSuffix (''SELECT count(*) FROM '' @ quoteIdentifier (staging_name 7)) ''NULL''" by code_simp
  ultimately show ?thesis using assms shape [of "([9], [1, 2])"]
    by (auto simp: load_transaction_def Let_def example_duckdb_def example_exec_def create_staging_def insert_statement_def
        apply_disposition_def)
qed

lemma example_run:
  assumes "NewWarehouse example_duckdb example_ddl 0 1 2 = Inr wh"
  shows "load_run (example_loads wh) example_env example_load [9] =
    ((\<lparr>LsInputFiles = 1, LsInputBytes = 5, LsOutputBytes = 5, LsOutputRows = 2\<rparr>, None), [1, 2])"
proof -
  have "limits_ok (SvConfig (example_loads wh))" using example_limits(1) by (simp add: example_loads_def)
  from flat_load_ready [OF this _ assms example_fits(1,3,2), of "7" "[example_object ''gs://b/a'' 5]" "''/tmp/bqemu-load-1''"]
  obtain plan planner request where r: "run_plan (example_loads wh) example_env example_load = Inr (plan, [example_object ''gs://b/a'' 5])"
    "WhLoadPlanner wh = Some planner"
    "ValidateExecution planner plan [\<lparr>LlPath = ''/tmp/bqemu-load-1/000000.parquet'',
          LlFingerprint = objectFingerprint (example_object ''gs://b/a'' 5), LlSize = 5\<rparr>] = Inr request"
    "LqDestination request = example_table" "LqWriteDisposition request = WriteTruncate"
    using example_source example_files by (force simp: example_loads_def example_load_def)
  have "DkBegin example_duckdb [9] = Inr ([9], [])" "DkTxCommit example_duckdb ([1, 2], [1, 2]) [9] = (None, [1, 2])"
    by (simp_all add: example_duckdb_def)
  then have "ExecuteLoad wh example_duckdb 7 plan [\<lparr>LlPath = ''/tmp/bqemu-load-1/000000.parquet'',
          LlFingerprint = objectFingerprint (example_object ''gs://b/a'' 5), LlSize = 5\<rparr>] [9] = ((2, None), [1, 2])"
    using r(2,3) example_transaction [OF r(4,5)] by (simp add: ExecuteLoad_def)
  moreover have "EvMkdirTemp example_env = Inr ''/tmp/bqemu-load-1''" "EvChmod example_env = None" "EvRemoveAll example_env = None"
    by (simp_all add: example_env_def)
  ultimately show ?thesis using r(1) example_files
    by (simp add: load_run_def run_workspace_def Let_def example_loads_def duckdb_loader_def no_statistics_def)
qed


end
