(* ===== verification/Catalog_Repository.thy ===== *)
theory Catalog_Repository
  imports Domain_Catalog "HOL-Library.List_Lexorder" "HOL-Library.Char_ord"
begin

text \<open>
  The catalog metadata behind its port: \<open>internal/ports/catalog.go\<close> with its contract as the locale \<open>catalog_repository\<close>, and
  the process-local repository of \<open>internal/adapters/memory/catalog.go\<close>.

  The contract is stated over a view of three partial maps. Every stored entity is valid and filed under its own names, a
  dataset needs its project and a table its dataset; deleting a parent deletes its children. Repository values are cloned at every
  boundary, so an entity is the value that was stored.
\<close>

section \<open>The port\<close>

record 'c CatalogRepository =
  CrCreateProject :: "Project \<Rightarrow> 'c \<Rightarrow> go_error option \<times> 'c"
  CrGetProject :: "string \<Rightarrow> 'c \<Rightarrow> (go_error + Project) \<times> 'c"
  CrListProjects :: "'c \<Rightarrow> (go_error + Project list) \<times> 'c"
  CrDeleteProject :: "string \<Rightarrow> 'c \<Rightarrow> go_error option \<times> 'c"
  CrCreateDataset :: "Dataset \<Rightarrow> 'c \<Rightarrow> go_error option \<times> 'c"
  CrUpdateDataset :: "Dataset \<Rightarrow> 'c \<Rightarrow> go_error option \<times> 'c"
  CrGetDataset :: "string \<Rightarrow> string \<Rightarrow> 'c \<Rightarrow> (go_error + Dataset) \<times> 'c"
  CrListDatasets :: "string \<Rightarrow> 'c \<Rightarrow> (go_error + Dataset list) \<times> 'c"
  CrDeleteDataset :: "string \<Rightarrow> string \<Rightarrow> 'c \<Rightarrow> go_error option \<times> 'c"
  CrCreateTable :: "Table \<Rightarrow> 'c \<Rightarrow> go_error option \<times> 'c"
  CrUpdateTable :: "Table \<Rightarrow> 'c \<Rightarrow> go_error option \<times> 'c"
  CrGetTable :: "string \<Rightarrow> string \<Rightarrow> string \<Rightarrow> 'c \<Rightarrow> (go_error + Table) \<times> 'c"
  CrListTables :: "string \<Rightarrow> string \<Rightarrow> 'c \<Rightarrow> (go_error + Table list) \<times> 'c"
  CrDeleteTable :: "string \<Rightarrow> string \<Rightarrow> string \<Rightarrow> 'c \<Rightarrow> go_error option \<times> 'c"

section \<open>The contract\<close>

abbreviation dataset_id :: "Dataset \<Rightarrow> string \<times> string" where
  "dataset_id d \<equiv> (DsProjectID d, DsID d)"

abbreviation table_id :: "Table \<Rightarrow> string \<times> string \<times> string" where
  "table_id t \<equiv> (TbProjectID t, TbDatasetID t, TbID t)"

text \<open>A Go map has no order; as a value it is listed by its keys.\<close>

definition labels_listed :: "(string, string) gomap option \<Rightarrow> bool" where
  "labels_listed labels \<longleftrightarrow> (case labels of None \<Rightarrow> True | Some m \<Rightarrow> sorted (map fst m) \<and> distinct (map fst m))"

definition project_ok :: "Project \<Rightarrow> bool" where
  "project_ok p \<longleftrightarrow> Project_Validate p = None"

definition dataset_ok :: "Dataset \<Rightarrow> bool" where
  "dataset_ok d \<longleftrightarrow> Dataset_Validate d = None \<and> labels_listed (DsLabels d)"

definition table_ok :: "Table \<Rightarrow> bool" where
  "table_ok t \<longleftrightarrow> Table_Validate t = None \<and> labels_listed (TbLabels t)"

record CatalogView =
  VwProjects :: "string \<rightharpoonup> Project"
  VwDatasets :: "string \<times> string \<rightharpoonup> Dataset"
  VwTables :: "string \<times> string \<times> string \<rightharpoonup> Table"

definition catalog_ok :: "CatalogView \<Rightarrow> bool" where
  "catalog_ok v \<longleftrightarrow>
     (\<forall>k p. VwProjects v k = Some p \<longrightarrow> project_ok p \<and> PrID p = k)
     \<and> (\<forall>k d. VwDatasets v k = Some d \<longrightarrow> dataset_ok d \<and> dataset_id d = k \<and> VwProjects v (fst k) \<noteq> None)
     \<and> (\<forall>p d k t. VwTables v (p, d, k) = Some t \<longrightarrow> table_ok t \<and> table_id t = (p, d, k) \<and> VwDatasets v (p, d) \<noteq> None)"

definition put_project :: "Project \<Rightarrow> CatalogView \<Rightarrow> CatalogView" where
  "put_project p v = v\<lparr>VwProjects := (VwProjects v)(PrID p \<mapsto> p)\<rparr>"

definition put_dataset :: "Dataset \<Rightarrow> CatalogView \<Rightarrow> CatalogView" where
  "put_dataset d v = v\<lparr>VwDatasets := (VwDatasets v)(dataset_id d \<mapsto> d)\<rparr>"

definition put_table :: "Table \<Rightarrow> CatalogView \<Rightarrow> CatalogView" where
  "put_table t v = v\<lparr>VwTables := (VwTables v)(table_id t \<mapsto> t)\<rparr>"

definition without_project :: "string \<Rightarrow> CatalogView \<Rightarrow> CatalogView" where
  "without_project i v =
     \<lparr>VwProjects = (VwProjects v)(i := None),
      VwDatasets = (\<lambda>(p, d). if p = i then None else VwDatasets v (p, d)),
      VwTables = (\<lambda>(p, d, t). if p = i then None else VwTables v (p, d, t))\<rparr>"

definition without_dataset :: "string \<Rightarrow> string \<Rightarrow> CatalogView \<Rightarrow> CatalogView" where
  "without_dataset i j v =
     v\<lparr>VwDatasets := (VwDatasets v)((i, j) := None),
       VwTables := (\<lambda>(p, d, t). if p = i \<and> d = j then None else VwTables v (p, d, t))\<rparr>"

definition without_table :: "string \<Rightarrow> string \<Rightarrow> string \<Rightarrow> CatalogView \<Rightarrow> CatalogView" where
  "without_table i j k v = v\<lparr>VwTables := (VwTables v)((i, j, k) := None)\<rparr>"

lemmas catalog_view_defs =
  put_project_def put_dataset_def put_table_def without_project_def without_dataset_def without_table_def

text \<open>What a call that writes and a call that reads promise; \<open>gone\<close> is what an error that wraps \<open>ErrNotFound\<close> reports.\<close>

definition writes ::
  "('c \<Rightarrow> bool) \<Rightarrow> ('c \<Rightarrow> CatalogView) \<Rightarrow> ('c \<Rightarrow> go_error option \<times> 'c) \<Rightarrow> (CatalogView \<Rightarrow> bool) \<Rightarrow> (CatalogView \<Rightarrow> bool)
    \<Rightarrow> (CatalogView \<Rightarrow> CatalogView) \<Rightarrow> bool" where
  "writes ok view call pre gone change \<longleftrightarrow>
     (\<forall>c res c'. ok c \<longrightarrow> call c = (res, c') \<longrightarrow>
        ok c' \<and> (case res of None \<Rightarrow> pre (view c) \<and> view c' = change (view c)
                 | Some e \<Rightarrow> view c' = view c \<and> (errors_Is e ErrNotFound \<longrightarrow> gone (view c))))"

definition reads ::
  "('c \<Rightarrow> bool) \<Rightarrow> ('c \<Rightarrow> CatalogView) \<Rightarrow> ('c \<Rightarrow> (go_error + 'a) \<times> 'c) \<Rightarrow> (CatalogView \<Rightarrow> 'a \<Rightarrow> bool) \<Rightarrow> (CatalogView \<Rightarrow> bool)
    \<Rightarrow> bool" where
  "reads ok view call result gone \<longleftrightarrow>
     (\<forall>c res c'. ok c \<longrightarrow> call c = (res, c') \<longrightarrow>
        ok c' \<and> view c' = view c
        \<and> (case res of Inr x \<Rightarrow> result (view c) x | Inl e \<Rightarrow> errors_Is e ErrNotFound \<longrightarrow> gone (view c)))"

definition listing :: "('a \<Rightarrow> string) \<Rightarrow> ('k \<rightharpoonup> 'a) \<Rightarrow> ('k \<Rightarrow> bool) \<Rightarrow> 'a list \<Rightarrow> bool" where
  "listing name m wanted xs \<longleftrightarrow>
     sorted_wrt (\<lambda>a b. name a < name b) xs \<and> set xs = {x. \<exists>k. wanted k \<and> m k = Some x}"

locale catalog_repository =
  fixes repo :: "'c CatalogRepository"
    and ok :: "'c \<Rightarrow> bool"
    and view :: "'c \<Rightarrow> CatalogView"
  assumes view_ok: "ok c \<Longrightarrow> catalog_ok (view c)"
    and create_project: "project_ok p \<Longrightarrow>
      writes ok view (CrCreateProject repo p) (\<lambda>v. VwProjects v (PrID p) = None) (\<lambda>v. False) (put_project p)"
    and get_project: "reads ok view (CrGetProject repo i) (\<lambda>v p. VwProjects v i = Some p) (\<lambda>v. VwProjects v i = None)"
    and list_projects: "reads ok view (CrListProjects repo) (\<lambda>v. listing PrID (VwProjects v) (\<lambda>k. True)) (\<lambda>v. False)"
    and delete_project:
      "writes ok view (CrDeleteProject repo i) (\<lambda>v. VwProjects v i \<noteq> None) (\<lambda>v. VwProjects v i = None) (without_project i)"
    and create_dataset: "dataset_ok d \<Longrightarrow>
      writes ok view (CrCreateDataset repo d) (\<lambda>v. VwProjects v (DsProjectID d) \<noteq> None \<and> VwDatasets v (dataset_id d) = None)
        (\<lambda>v. VwProjects v (DsProjectID d) = None) (put_dataset d)"
    and update_dataset: "dataset_ok d \<Longrightarrow>
      writes ok view (CrUpdateDataset repo d) (\<lambda>v. VwDatasets v (dataset_id d) \<noteq> None) (\<lambda>v. VwDatasets v (dataset_id d) = None)
        (put_dataset d)"
    and get_dataset:
      "reads ok view (CrGetDataset repo i j) (\<lambda>v d. VwDatasets v (i, j) = Some d) (\<lambda>v. VwDatasets v (i, j) = None)"
    and list_datasets:
      "reads ok view (CrListDatasets repo i) (\<lambda>v. listing DsID (VwDatasets v) (\<lambda>k. fst k = i)) (\<lambda>v. VwProjects v i = None)"
    and delete_dataset:
      "writes ok view (CrDeleteDataset repo i j) (\<lambda>v. VwDatasets v (i, j) \<noteq> None) (\<lambda>v. VwDatasets v (i, j) = None)
        (without_dataset i j)"
    and create_table: "table_ok t \<Longrightarrow>
      writes ok view (CrCreateTable repo t) (\<lambda>v. VwDatasets v (TbProjectID t, TbDatasetID t) \<noteq> None \<and> VwTables v (table_id t) = None)
        (\<lambda>v. VwDatasets v (TbProjectID t, TbDatasetID t) = None) (put_table t)"
    and update_table: "table_ok t \<Longrightarrow>
      writes ok view (CrUpdateTable repo t) (\<lambda>v. VwTables v (table_id t) \<noteq> None) (\<lambda>v. VwTables v (table_id t) = None) (put_table t)"
    and get_table:
      "reads ok view (CrGetTable repo i j k) (\<lambda>v t. VwTables v (i, j, k) = Some t) (\<lambda>v. VwTables v (i, j, k) = None)"
    and list_tables:
      "reads ok view (CrListTables repo i j) (\<lambda>v. listing TbID (VwTables v) (\<lambda>k. fst k = i \<and> fst (snd k) = j))
        (\<lambda>v. VwDatasets v (i, j) = None)"
    and delete_table:
      "writes ok view (CrDeleteTable repo i j k) (\<lambda>v. VwTables v (i, j, k) \<noteq> None) (\<lambda>v. VwTables v (i, j, k) = None)
        (without_table i j k)"

text \<open>The changes keep a catalog valid; each repository uses this to show its own invariant.\<close>

lemma catalog_ok_put_project: "catalog_ok v \<Longrightarrow> project_ok p \<Longrightarrow> catalog_ok (put_project p v)"
  by (auto simp: catalog_ok_def put_project_def)

lemma catalog_ok_put_dataset:
  "catalog_ok v \<Longrightarrow> dataset_ok d \<Longrightarrow> VwProjects v (DsProjectID d) \<noteq> None \<Longrightarrow> catalog_ok (put_dataset d v)"
  by (auto simp: catalog_ok_def put_dataset_def)

lemma catalog_ok_put_table:
  "catalog_ok v \<Longrightarrow> table_ok t \<Longrightarrow> VwDatasets v (TbProjectID t, TbDatasetID t) \<noteq> None \<Longrightarrow> catalog_ok (put_table t v)"
  by (auto simp: catalog_ok_def put_table_def)

lemma catalog_ok_without_project: "catalog_ok v \<Longrightarrow> catalog_ok (without_project i v)"
  by (auto simp: catalog_ok_def without_project_def)

lemma catalog_ok_without_dataset: "catalog_ok v \<Longrightarrow> catalog_ok (without_dataset i j v)"
  by (auto simp: catalog_ok_def without_dataset_def)

lemma catalog_ok_without_table: "catalog_ok v \<Longrightarrow> catalog_ok (without_table i j k v)"
  by (auto simp: catalog_ok_def without_table_def)

lemmas catalog_ok_changes =
  catalog_ok_put_project catalog_ok_put_dataset catalog_ok_put_table catalog_ok_without_project catalog_ok_without_dataset
  catalog_ok_without_table

lemma catalog_ok_update_dataset:
  "catalog_ok v \<Longrightarrow> dataset_ok d \<Longrightarrow> VwDatasets v (dataset_id d) \<noteq> None \<Longrightarrow> catalog_ok (put_dataset d v)"
  by (rule catalog_ok_put_dataset) (auto simp: catalog_ok_def)

lemma catalog_ok_update_table:
  "catalog_ok v \<Longrightarrow> table_ok t \<Longrightarrow> VwTables v (table_id t) \<noteq> None \<Longrightarrow> catalog_ok (put_table t v)"
  by (rule catalog_ok_put_table) (auto simp: catalog_ok_def)

section \<open>The process-local repository\<close>

record MemoryCatalog =
  McProjects :: "(string, Project) gomap"
  McDatasets :: "(string, Dataset) gomap"
  McTables :: "(string, Table) gomap"

definition memory_NewCatalogRepository :: MemoryCatalog where
  "memory_NewCatalogRepository = \<lparr>McProjects = [], McDatasets = [], McTables = []\<rparr>"

definition datasetKey :: "string \<Rightarrow> string \<Rightarrow> string" where
  "datasetKey projectID datasetID = projectID @ ''/'' @ datasetID"

definition tableKey :: "string \<Rightarrow> string \<Rightarrow> string \<Rightarrow> string" where
  "tableKey projectID datasetID tableID = datasetKey projectID datasetID @ ''/'' @ tableID"

definition memory_CreateProject :: "Project \<Rightarrow> MemoryCatalog \<Rightarrow> go_error option \<times> MemoryCatalog" where
  "memory_CreateProject p r =
     (if gm_get (McProjects r) (PrID p) \<noteq> None then (Some [ErrConflict], r)
      else (None, r\<lparr>McProjects := gm_put (PrID p) p (McProjects r)\<rparr>))"

definition memory_GetProject :: "string \<Rightarrow> MemoryCatalog \<Rightarrow> (go_error + Project) \<times> MemoryCatalog" where
  "memory_GetProject i r =
     (case gm_get (McProjects r) i of None \<Rightarrow> (Inl [ErrNotFound], r) | Some p \<Rightarrow> (Inr p, r))"

definition memory_ListProjects :: "MemoryCatalog \<Rightarrow> (go_error + Project list) \<times> MemoryCatalog" where
  "memory_ListProjects r = (Inr (sort_key PrID (map snd (McProjects r))), r)"

definition memory_DeleteProject :: "string \<Rightarrow> MemoryCatalog \<Rightarrow> go_error option \<times> MemoryCatalog" where
  "memory_DeleteProject i r =
     (if gm_get (McProjects r) i = None then (Some [ErrNotFound], r)
      else (None, \<lparr>McProjects = gm_del i (McProjects r),
                   McDatasets = filter (\<lambda>(_, d). DsProjectID d \<noteq> i) (McDatasets r),
                   McTables = filter (\<lambda>(_, t). TbProjectID t \<noteq> i) (McTables r)\<rparr>))"

definition memory_CreateDataset :: "Dataset \<Rightarrow> MemoryCatalog \<Rightarrow> go_error option \<times> MemoryCatalog" where
  "memory_CreateDataset d r =
     (if gm_get (McProjects r) (DsProjectID d) = None then (Some [ErrNotFound], r)
      else let key = datasetKey (DsProjectID d) (DsID d) in
        if gm_get (McDatasets r) key \<noteq> None then (Some [ErrConflict], r)
        else (None, r\<lparr>McDatasets := gm_put key d (McDatasets r)\<rparr>))"

definition memory_UpdateDataset :: "Dataset \<Rightarrow> MemoryCatalog \<Rightarrow> go_error option \<times> MemoryCatalog" where
  "memory_UpdateDataset d r =
     (let key = datasetKey (DsProjectID d) (DsID d) in
      if gm_get (McDatasets r) key = None then (Some [ErrNotFound], r)
      else (None, r\<lparr>McDatasets := gm_put key d (McDatasets r)\<rparr>))"

definition memory_GetDataset :: "string \<Rightarrow> string \<Rightarrow> MemoryCatalog \<Rightarrow> (go_error + Dataset) \<times> MemoryCatalog" where
  "memory_GetDataset i j r =
     (case gm_get (McDatasets r) (datasetKey i j) of None \<Rightarrow> (Inl [ErrNotFound], r) | Some d \<Rightarrow> (Inr d, r))"

definition memory_ListDatasets :: "string \<Rightarrow> MemoryCatalog \<Rightarrow> (go_error + Dataset list) \<times> MemoryCatalog" where
  "memory_ListDatasets i r =
     (if gm_get (McProjects r) i = None then (Inl [ErrNotFound], r)
      else (Inr (sort_key DsID (filter (\<lambda>d. DsProjectID d = i) (map snd (McDatasets r)))), r))"

definition memory_DeleteDataset :: "string \<Rightarrow> string \<Rightarrow> MemoryCatalog \<Rightarrow> go_error option \<times> MemoryCatalog" where
  "memory_DeleteDataset i j r =
     (let key = datasetKey i j in
      if gm_get (McDatasets r) key = None then (Some [ErrNotFound], r)
      else (None, r\<lparr>McTables := filter (\<lambda>(_, t). TbProjectID t = i \<longrightarrow> TbDatasetID t \<noteq> j) (McTables r),
                    McDatasets := gm_del key (McDatasets r)\<rparr>))"

definition memory_CreateTable :: "Table \<Rightarrow> MemoryCatalog \<Rightarrow> go_error option \<times> MemoryCatalog" where
  "memory_CreateTable t r =
     (if gm_get (McDatasets r) (datasetKey (TbProjectID t) (TbDatasetID t)) = None then (Some [ErrNotFound], r)
      else let key = tableKey (TbProjectID t) (TbDatasetID t) (TbID t) in
        if gm_get (McTables r) key \<noteq> None then (Some [ErrConflict], r)
        else (None, r\<lparr>McTables := gm_put key t (McTables r)\<rparr>))"

definition memory_UpdateTable :: "Table \<Rightarrow> MemoryCatalog \<Rightarrow> go_error option \<times> MemoryCatalog" where
  "memory_UpdateTable t r =
     (let key = tableKey (TbProjectID t) (TbDatasetID t) (TbID t) in
      if gm_get (McTables r) key = None then (Some [ErrNotFound], r)
      else (None, r\<lparr>McTables := gm_put key t (McTables r)\<rparr>))"

definition memory_GetTable :: "string \<Rightarrow> string \<Rightarrow> string \<Rightarrow> MemoryCatalog \<Rightarrow> (go_error + Table) \<times> MemoryCatalog" where
  "memory_GetTable i j k r =
     (case gm_get (McTables r) (tableKey i j k) of None \<Rightarrow> (Inl [ErrNotFound], r) | Some t \<Rightarrow> (Inr t, r))"

definition memory_ListTables :: "string \<Rightarrow> string \<Rightarrow> MemoryCatalog \<Rightarrow> (go_error + Table list) \<times> MemoryCatalog" where
  "memory_ListTables i j r =
     (if gm_get (McDatasets r) (datasetKey i j) = None then (Inl [ErrNotFound], r)
      else (Inr (sort_key TbID (filter (\<lambda>t. TbProjectID t = i \<and> TbDatasetID t = j) (map snd (McTables r)))), r))"

definition memory_DeleteTable :: "string \<Rightarrow> string \<Rightarrow> string \<Rightarrow> MemoryCatalog \<Rightarrow> go_error option \<times> MemoryCatalog" where
  "memory_DeleteTable i j k r =
     (let key = tableKey i j k in
      if gm_get (McTables r) key = None then (Some [ErrNotFound], r)
      else (None, r\<lparr>McTables := gm_del key (McTables r)\<rparr>))"

definition memory_catalog :: "MemoryCatalog CatalogRepository" where
  "memory_catalog =
     \<lparr>CrCreateProject = memory_CreateProject, CrGetProject = memory_GetProject, CrListProjects = memory_ListProjects,
      CrDeleteProject = memory_DeleteProject, CrCreateDataset = memory_CreateDataset, CrUpdateDataset = memory_UpdateDataset,
      CrGetDataset = memory_GetDataset, CrListDatasets = memory_ListDatasets, CrDeleteDataset = memory_DeleteDataset,
      CrCreateTable = memory_CreateTable, CrUpdateTable = memory_UpdateTable, CrGetTable = memory_GetTable,
      CrListTables = memory_ListTables, CrDeleteTable = memory_DeleteTable\<rparr>"

section \<open>The process-local repository keeps the contract\<close>

lemma project_no_slash: "projectIDPattern s \<Longrightarrow> CHR ''/'' \<notin> set s"
  by (auto simp: projectIDPattern_def list_all_iff is_lower_def in_class_def is_digit_def split: list.splits)

lemma resource_no_slash: "resourceIDPattern s \<Longrightarrow> CHR ''/'' \<notin> set s"
  by (auto simp: resourceIDPattern_def list_all_iff is_alpha_def in_class_def is_digit_def split: list.splits)

lemma dataset_ok_names: "dataset_ok d \<Longrightarrow> CHR ''/'' \<notin> set (DsProjectID d) \<and> CHR ''/'' \<notin> set (DsID d)"
  by (auto simp: dataset_ok_def Dataset_Validate_def dest: project_no_slash resource_no_slash split: if_splits)

lemma table_ok_names:
  "table_ok t \<Longrightarrow> CHR ''/'' \<notin> set (TbProjectID t) \<and> CHR ''/'' \<notin> set (TbDatasetID t) \<and> CHR ''/'' \<notin> set (TbID t)"
  by (auto simp: table_ok_def Table_Validate_def dest: project_no_slash resource_no_slash split: if_splits)

text \<open>A key with as many separators as its parts demand has no separator in a part.\<close>

lemma datasetKey_eq:
  assumes "datasetKey i j = datasetKey p d" "CHR ''/'' \<notin> set p" "CHR ''/'' \<notin> set d"
  shows "i = p \<and> j = d"
proof -
  have "strings_Split (CHR ''/'') i @ strings_Split (CHR ''/'') j = [p, d]"
    using arg_cong [OF assms(1), of "strings_Split (CHR ''/'')"] assms(2,3)
    by (simp add: datasetKey_def strings_Split_sep strings_Split_nosep)
  then show ?thesis
    by (cases "strings_Split (CHR ''/'') i") (auto simp: append_eq_Cons_conv Cons_eq_append_conv dest: strings_Split_single)
qed

lemma tableKey_eq:
  assumes "tableKey i j k = tableKey p d t" "CHR ''/'' \<notin> set p" "CHR ''/'' \<notin> set d" "CHR ''/'' \<notin> set t"
  shows "i = p \<and> j = d \<and> k = t"
proof -
  have "strings_Split (CHR ''/'') i @ strings_Split (CHR ''/'') j @ strings_Split (CHR ''/'') k = [p, d, t]"
    using arg_cong [OF assms(1), of "strings_Split (CHR ''/'')"] assms(2-4)
    by (simp add: tableKey_def datasetKey_def strings_Split_sep strings_Split_nosep)
  then show ?thesis
    by (cases "strings_Split (CHR ''/'') i"; cases "strings_Split (CHR ''/'') j"; cases "strings_Split (CHR ''/'') k")
       (auto simp: append_eq_Cons_conv Cons_eq_append_conv dest: strings_Split_single)
qed

definition memory_view :: "MemoryCatalog \<Rightarrow> CatalogView" where
  "memory_view r =
     \<lparr>VwProjects = gm_get (McProjects r), VwDatasets = (\<lambda>(p, d). gm_get (McDatasets r) (datasetKey p d)),
      VwTables = (\<lambda>(p, d, t). gm_get (McTables r) (tableKey p d t))\<rparr>"

definition memory_catalog_ok :: "MemoryCatalog \<Rightarrow> bool" where
  "memory_catalog_ok r \<longleftrightarrow>
     gm_ok (McProjects r) \<and> gm_ok (McDatasets r) \<and> gm_ok (McTables r) \<and> catalog_ok (memory_view r)
     \<and> (\<forall>k d. gm_get (McDatasets r) k = Some d \<longrightarrow> k = datasetKey (DsProjectID d) (DsID d))
     \<and> (\<forall>k t. gm_get (McTables r) k = Some t \<longrightarrow> k = tableKey (TbProjectID t) (TbDatasetID t) (TbID t))"

declare map_of_eq_Some_iff [simp del]

lemma gm_ok_filter: "gm_ok m \<Longrightarrow> gm_ok (filter P m)"
  by (induction m) auto

lemma sort_key_strict: "distinct (map name xs) \<Longrightarrow> sorted_wrt (\<lambda>a b. name a < name b) (sort_key name xs)"
  for name :: "'a \<Rightarrow> string"
  using strict_sorted_iff [of "map name (sort_key name xs)"] sorted_sort_key [of name xs]
  by (simp add: sorted_wrt_map distinct_map del: sorted_sort_key)

lemma gm_values: "gm_ok m \<Longrightarrow> set (map snd m) = {x. \<exists>k. gm_get m k = Some x}"
  by (force simp: gm_get_in)

lemma sort_key_gomap:
  fixes name :: "'a \<Rightarrow> string"
  assumes "gm_ok m" and named: "\<And>k k' x x'. gm_get m k = Some x \<Longrightarrow> gm_get m k' = Some x' \<Longrightarrow> P x \<Longrightarrow> P x' \<Longrightarrow> name x = name x' \<Longrightarrow> k = k'"
  shows "sorted_wrt (\<lambda>a b. name a < name b) (sort_key name (filter P (map snd m)))"
    and "set (sort_key name (filter P (map snd m))) = {x. P x \<and> (\<exists>k. gm_get m k = Some x)}"
proof -
  have inj: "a = b" if "a \<in> set m" "b \<in> set m" "P (snd a)" "P (snd b)" "name (snd a) = name (snd b)" for a b
    using that named [of "fst a" "snd a" "fst b" "snd b"] assms(1) by (metis gm_get_in option.inject prod.collapse)
  have "distinct (map (\<lambda>a. name (snd a)) (filter (\<lambda>a. P (snd a)) m))"
    using inj assms(1) by (auto simp: distinct_map inj_on_def)
  then have "distinct (map name (filter P (map snd m)))" by (simp add: filter_map o_def)
  then show "sorted_wrt (\<lambda>a b. name a < name b) (sort_key name (filter P (map snd m)))" by (rule sort_key_strict)
  show "set (sort_key name (filter P (map snd m))) = {x. P x \<and> (\<exists>k. gm_get m k = Some x)}"
    using gm_values [OF assms(1)] by auto
qed

lemma memory_view_put:
  "memory_view (r\<lparr>McProjects := gm_put (PrID p) p (McProjects r)\<rparr>) = put_project p (memory_view r)"
  "dataset_ok d \<Longrightarrow>
     memory_view (r\<lparr>McDatasets := gm_put (datasetKey (DsProjectID d) (DsID d)) d (McDatasets r)\<rparr>) = put_dataset d (memory_view r)"
  "table_ok t \<Longrightarrow>
     memory_view (r\<lparr>McTables := gm_put (tableKey (TbProjectID t) (TbDatasetID t) (TbID t)) t (McTables r)\<rparr>) = put_table t (memory_view r)"
  by (auto simp: memory_view_def put_project_def put_dataset_def put_table_def fun_eq_iff
      dest: datasetKey_eq tableKey_eq dest!: dataset_ok_names table_ok_names)

lemma memory_catalog_ok_put:
  assumes "memory_catalog_ok r"
  shows "project_ok p \<Longrightarrow> memory_catalog_ok (r\<lparr>McProjects := gm_put (PrID p) p (McProjects r)\<rparr>)"
    and "dataset_ok d \<Longrightarrow> VwProjects (memory_view r) (DsProjectID d) \<noteq> None \<Longrightarrow>
      memory_catalog_ok (r\<lparr>McDatasets := gm_put (datasetKey (DsProjectID d) (DsID d)) d (McDatasets r)\<rparr>)"
    and "table_ok t \<Longrightarrow> VwDatasets (memory_view r) (TbProjectID t, TbDatasetID t) \<noteq> None \<Longrightarrow>
      memory_catalog_ok (r\<lparr>McTables := gm_put (tableKey (TbProjectID t) (TbDatasetID t) (TbID t)) t (McTables r)\<rparr>)"
  using assms by (simp_all add: memory_catalog_ok_def memory_view_put catalog_ok_changes)

lemma memory_view_remove:
  assumes "memory_catalog_ok r"
  shows "memory_view \<lparr>McProjects = gm_del i (McProjects r), McDatasets = filter (\<lambda>(_, d). DsProjectID d \<noteq> i) (McDatasets r),
      McTables = filter (\<lambda>(_, t). TbProjectID t \<noteq> i) (McTables r)\<rparr> = without_project i (memory_view r)"
    and "gm_get (McDatasets r) (datasetKey i j) \<noteq> None \<Longrightarrow>
      memory_view (r\<lparr>McTables := filter (\<lambda>(_, t). TbProjectID t = i \<longrightarrow> TbDatasetID t \<noteq> j) (McTables r),
        McDatasets := gm_del (datasetKey i j) (McDatasets r)\<rparr>) = without_dataset i j (memory_view r)"
    and "gm_get (McTables r) (tableKey i j k) \<noteq> None \<Longrightarrow>
      memory_view (r\<lparr>McTables := gm_del (tableKey i j k) (McTables r)\<rparr>) = without_table i j k (memory_view r)"
proof -
  have ok: "gm_ok (McDatasets r)" "gm_ok (McTables r)"
    and ds: "\<And>p d x. gm_get (McDatasets r) (datasetKey p d) = Some x \<Longrightarrow> dataset_ok x \<and> DsProjectID x = p \<and> DsID x = d"
    and tb: "\<And>p d t x. gm_get (McTables r) (tableKey p d t) = Some x \<Longrightarrow>
      table_ok x \<and> TbProjectID x = p \<and> TbDatasetID x = d \<and> TbID x = t"
    using assms by (auto simp: memory_catalog_ok_def catalog_ok_def memory_view_def)
  show "memory_view \<lparr>McProjects = gm_del i (McProjects r), McDatasets = filter (\<lambda>(_, d). DsProjectID d \<noteq> i) (McDatasets r),
      McTables = filter (\<lambda>(_, t). TbProjectID t \<noteq> i) (McTables r)\<rparr> = without_project i (memory_view r)"
    by (auto simp: memory_view_def without_project_def fun_eq_iff gm_get_filter ok dest: ds tb split: option.splits)
  show "memory_view (r\<lparr>McTables := filter (\<lambda>(_, t). TbProjectID t = i \<longrightarrow> TbDatasetID t \<noteq> j) (McTables r),
      McDatasets := gm_del (datasetKey i j) (McDatasets r)\<rparr>) = without_dataset i j (memory_view r)"
    if "gm_get (McDatasets r) (datasetKey i j) \<noteq> None"
  proof -
    have "CHR ''/'' \<notin> set i \<and> CHR ''/'' \<notin> set j" using that ds dataset_ok_names by blast
    then have "datasetKey p d = datasetKey i j \<longleftrightarrow> p = i \<and> d = j" for p d using datasetKey_eq by blast
    then show ?thesis
      by (auto simp: memory_view_def without_dataset_def fun_eq_iff gm_get_filter ok dest: tb split: option.splits)
  qed
  show "memory_view (r\<lparr>McTables := gm_del (tableKey i j k) (McTables r)\<rparr>) = without_table i j k (memory_view r)"
    if "gm_get (McTables r) (tableKey i j k) \<noteq> None"
  proof -
    have "CHR ''/'' \<notin> set i \<and> CHR ''/'' \<notin> set j \<and> CHR ''/'' \<notin> set k" using that tb table_ok_names by blast
    then have "tableKey p d t = tableKey i j k \<longleftrightarrow> p = i \<and> d = j \<and> t = k" for p d t using tableKey_eq by blast
    then show ?thesis by (auto simp: memory_view_def without_table_def fun_eq_iff)
  qed
qed

lemma memory_catalog_ok_remove:
  assumes "memory_catalog_ok r"
  shows "memory_catalog_ok \<lparr>McProjects = gm_del i (McProjects r), McDatasets = filter (\<lambda>(_, d). DsProjectID d \<noteq> i) (McDatasets r),
      McTables = filter (\<lambda>(_, t). TbProjectID t \<noteq> i) (McTables r)\<rparr>"
    and "gm_get (McDatasets r) (datasetKey i j) \<noteq> None \<Longrightarrow>
      memory_catalog_ok (r\<lparr>McTables := filter (\<lambda>(_, t). TbProjectID t = i \<longrightarrow> TbDatasetID t \<noteq> j) (McTables r),
        McDatasets := gm_del (datasetKey i j) (McDatasets r)\<rparr>)"
    and "gm_get (McTables r) (tableKey i j k) \<noteq> None \<Longrightarrow>
      memory_catalog_ok (r\<lparr>McTables := gm_del (tableKey i j k) (McTables r)\<rparr>)"
  using assms memory_view_remove [OF assms]
  by (auto simp: memory_catalog_ok_def catalog_ok_changes gm_get_filter gm_ok_filter split: option.splits if_splits)

lemma memory_listing:
  assumes "memory_catalog_ok r"
  shows "listing PrID (VwProjects (memory_view r)) (\<lambda>k. True) (sort_key PrID (map snd (McProjects r)))"
    and "listing DsID (VwDatasets (memory_view r)) (\<lambda>k. fst k = i)
      (sort_key DsID (filter (\<lambda>d. DsProjectID d = i) (map snd (McDatasets r))))"
    and "listing TbID (VwTables (memory_view r)) (\<lambda>k. fst k = i \<and> fst (snd k) = j)
      (sort_key TbID (filter (\<lambda>t. TbProjectID t = i \<and> TbDatasetID t = j) (map snd (McTables r))))"
proof -
  note inv = assms [unfolded memory_catalog_ok_def]
  have pr: "gm_get (McProjects r) k = Some x \<Longrightarrow> k = PrID x" for k x
    using inv by (auto simp: catalog_ok_def memory_view_def)
  show "listing PrID (VwProjects (memory_view r)) (\<lambda>k. True) (sort_key PrID (map snd (McProjects r)))"
    using sort_key_gomap [of "McProjects r" "\<lambda>_. True" PrID] inv pr by (auto simp: listing_def memory_view_def)
  have ds: "gm_get (McDatasets r) k = Some x \<longleftrightarrow> (\<exists>p d. k = datasetKey p d \<and> VwDatasets (memory_view r) (p, d) = Some x)" for k x
    using inv by (auto simp: memory_view_def)
  have ds': "VwDatasets (memory_view r) (p, d) = Some x \<Longrightarrow> p = DsProjectID x \<and> d = DsID x" for p d x
    using inv by (auto simp: catalog_ok_def)
  show "listing DsID (VwDatasets (memory_view r)) (\<lambda>k. fst k = i)
      (sort_key DsID (filter (\<lambda>d. DsProjectID d = i) (map snd (McDatasets r))))"
    using sort_key_gomap [of "McDatasets r" "\<lambda>d. DsProjectID d = i" DsID] inv ds' by (fastforce simp: listing_def ds)
  have tb: "gm_get (McTables r) k = Some x \<longleftrightarrow> (\<exists>p d t. k = tableKey p d t \<and> VwTables (memory_view r) (p, d, t) = Some x)" for k x
    using inv by (fastforce simp: memory_view_def)
  have tb': "VwTables (memory_view r) (p, d, t) = Some x \<Longrightarrow> p = TbProjectID x \<and> d = TbDatasetID x \<and> t = TbID x" for p d t x
    using inv by (auto simp: catalog_ok_def)
  show "listing TbID (VwTables (memory_view r)) (\<lambda>k. fst k = i \<and> fst (snd k) = j)
      (sort_key TbID (filter (\<lambda>t. TbProjectID t = i \<and> TbDatasetID t = j) (map snd (McTables r))))"
    using sort_key_gomap [of "McTables r" "\<lambda>t. TbProjectID t = i \<and> TbDatasetID t = j" TbID] inv tb' by (fastforce simp: listing_def tb)
qed

lemma memory_view_get:
  "VwProjects (memory_view r) i = gm_get (McProjects r) i"
  "VwDatasets (memory_view r) (i, j) = gm_get (McDatasets r) (datasetKey i j)"
  "VwTables (memory_view r) (i, j, k) = gm_get (McTables r) (tableKey i j k)"
  by (simp_all add: memory_view_def)

lemma memory_parents:
  assumes "memory_catalog_ok r"
  shows "gm_get (McDatasets r) (datasetKey i j) = Some d \<Longrightarrow> gm_get (McProjects r) i \<noteq> None"
    and "gm_get (McTables r) (tableKey i j k) = Some t \<Longrightarrow> gm_get (McDatasets r) (datasetKey i j) \<noteq> None"
  using assms by (auto simp: memory_catalog_ok_def catalog_ok_def memory_view_def)

lemma memory_catalog_ok_update:
  "memory_catalog_ok r \<Longrightarrow> dataset_ok d \<Longrightarrow> gm_get (McDatasets r) (datasetKey (DsProjectID d) (DsID d)) \<noteq> None \<Longrightarrow>
     memory_catalog_ok (r\<lparr>McDatasets := gm_put (datasetKey (DsProjectID d) (DsID d)) d (McDatasets r)\<rparr>)"
  "memory_catalog_ok r \<Longrightarrow> table_ok t \<Longrightarrow> gm_get (McTables r) (tableKey (TbProjectID t) (TbDatasetID t) (TbID t)) \<noteq> None \<Longrightarrow>
     memory_catalog_ok (r\<lparr>McTables := gm_put (tableKey (TbProjectID t) (TbDatasetID t) (TbID t)) t (McTables r)\<rparr>)"
  by (rule memory_catalog_ok_put; auto simp: memory_view_get dest: memory_parents)+

interpretation memory_catalog: catalog_repository memory_catalog memory_catalog_ok memory_view
proof (unfold_locales, unfold memory_catalog_def CatalogRepository.simps)
  show "catalog_ok (memory_view c)" if "memory_catalog_ok c" for c using that by (simp add: memory_catalog_ok_def)
qed (auto intro: memory_catalog_ok_update simp: writes_def reads_def errors_Is_def memory_view_get memory_view_put memory_view_remove memory_catalog_ok_put
      memory_catalog_ok_remove memory_listing memory_CreateProject_def memory_GetProject_def memory_ListProjects_def
      memory_DeleteProject_def memory_CreateDataset_def memory_UpdateDataset_def memory_GetDataset_def memory_ListDatasets_def
      memory_DeleteDataset_def memory_CreateTable_def memory_UpdateTable_def memory_GetTable_def memory_ListTables_def
      memory_DeleteTable_def Let_def split: option.splits if_splits)

end
