(* ===== verification/Tabledata.thy ===== *)
theory Tabledata
  imports Sha256
begin

text \<open>
  \<open>internal/tabledata/canonical.go\<close>: the canonical bytes of a table data row, their budget, and the page accumulator of
  \<open>tabledata.list\<close>. The lemmas show that the canonical bytes of a row identify it, whatever follows them, and that a page keeps its
  budget except for one row that is within the row limit.

  The values that the reader returns are a datatype, one constructor for each kind that \<open>writeValue\<close> tells apart: an integer by its
  64 bits, a float by its IEEE 754 bits, an instant by its RFC 3339 text in UTC. Pointers and interfaces are followed, so a value is never one.
\<close>

section \<open>Canonical bytes\<close>

datatype CellValue =
    CellNull
  | CellBool bool
  | CellInt int
  | CellUint nat
  | CellFloat nat
  | CellTime string
  | CellString string
  | CellBytes string
  | CellList "CellValue list"
  | CellMap "(string \<times> CellValue) list"
  | CellOther

record CanonicalWriter =
  CwrMaximum :: int
  CwrBytes :: int
  CwrDigest :: string

definition errCanonicalLimit :: go_error where
  "errCanonicalLimit = errors_New ''canonical byte limit exceeded''"

definition canonical_write :: "string \<Rightarrow> CanonicalWriter \<Rightarrow> go_error + CanonicalWriter" where
  "canonical_write v w =
     (if 0 < CwrMaximum w \<and> CwrMaximum w - CwrBytes w < int (length v) then Inl errCanonicalLimit
      else Inr (w\<lparr>CwrBytes := CwrBytes w + int (length v), CwrDigest := CwrDigest w @ v\<rparr>))"

text \<open>\<open>binary.BigEndian.PutUint64\<close>.\<close>

fun big_endian :: "nat \<Rightarrow> nat \<Rightarrow> string" where
  "big_endian 0 n = []"
| "big_endian (Suc k) n = big_endian k (n div 256) @ [char_of (n mod 256)]"

definition PutUint64 :: "nat \<Rightarrow> string" where
  "PutUint64 n = big_endian 8 n"

definition writeTag :: "char \<Rightarrow> CanonicalWriter \<Rightarrow> go_error + CanonicalWriter" where
  "writeTag tag w = canonical_write [tag] w"

definition writeNumber :: "char \<Rightarrow> nat \<Rightarrow> CanonicalWriter \<Rightarrow> go_error + CanonicalWriter" where
  "writeNumber tag number w = canonical_write (tag # PutUint64 number) w"

definition canonicalChunkBytes :: nat where
  "canonicalChunkBytes = 32768"

function write_chunks :: "string \<Rightarrow> CanonicalWriter \<Rightarrow> go_error + CanonicalWriter" where
  "write_chunks v w =
     (if v = [] then Inr w
      else let chunk = (if canonicalChunkBytes < length v then canonicalChunkBytes else length v) in
        case canonical_write (take chunk v) w of Inl e \<Rightarrow> Inl e | Inr w' \<Rightarrow> write_chunks (drop chunk v) w')"
  by pat_completeness auto
termination
  by (relation "measure (\<lambda>(v, w). length v)") (auto simp: canonicalChunkBytes_def)

declare write_chunks.simps [simp del]

definition canonical_writeString :: "string \<Rightarrow> CanonicalWriter \<Rightarrow> go_error + CanonicalWriter" where
  "canonical_writeString v w = (case writeNumber (CHR ''l'') (length v) w of Inl e \<Rightarrow> Inl e | Inr w' \<Rightarrow> write_chunks v w')"

definition writeTagged :: "char \<Rightarrow> string \<Rightarrow> CanonicalWriter \<Rightarrow> go_error + CanonicalWriter" where
  "writeTagged tag v w = (case writeTag tag w of Inl e \<Rightarrow> Inl e | Inr w' \<Rightarrow> canonical_writeString v w')"

definition uint64 :: "int \<Rightarrow> nat" where
  "uint64 i = nat (i mod 2 ^ 64)"

fun writeValue :: "CellValue \<Rightarrow> CanonicalWriter \<Rightarrow> go_error + CanonicalWriter"
and writeValues :: "CellValue list \<Rightarrow> CanonicalWriter \<Rightarrow> go_error + CanonicalWriter"
and writeEntries :: "(string \<times> CellValue) list \<Rightarrow> CanonicalWriter \<Rightarrow> go_error + CanonicalWriter" where
  "writeValue CellNull w = writeTag (CHR ''n'') w"
| "writeValue (CellTime t) w = writeTagged (CHR ''t'') t w"
| "writeValue (CellBool b) w = canonical_write [CHR ''b'', if b then CHR 0x01 else CHR 0x00] w"
| "writeValue (CellInt i) w = writeNumber (CHR ''i'') (uint64 i) w"
| "writeValue (CellUint n) w = writeNumber (CHR ''u'') n w"
| "writeValue (CellFloat n) w = writeNumber (CHR ''f'') n w"
| "writeValue (CellString s) w = writeTagged (CHR ''s'') s w"
| "writeValue (CellBytes s) w = writeTagged (CHR ''x'') s w"
| "writeValue (CellList vs) w =
     (case writeNumber (CHR ''a'') (length vs) w of Inl e \<Rightarrow> Inl e | Inr w' \<Rightarrow> writeValues vs w')"
| "writeValue (CellMap es) w =
     (case writeNumber (CHR ''m'') (length es) w of Inl e \<Rightarrow> Inl e | Inr w' \<Rightarrow> writeEntries es w')"
| "writeValue CellOther w = Inl (errors_New ''unsupported canonical value type'')"
| "writeValues [] w = Inr w"
| "writeValues (v # vs) w = (case writeValue v w of Inl e \<Rightarrow> Inl e | Inr w' \<Rightarrow> writeValues vs w')"
| "writeEntries [] w = Inr w"
| "writeEntries ((k, v) # es) w =
     (case canonical_writeString k w of Inl e \<Rightarrow> Inl e
      | Inr w1 \<Rightarrow> (case writeValue v w1 of Inl e \<Rightarrow> Inl e | Inr w2 \<Rightarrow> writeEntries es w2))"

definition ErrRowTooLarge :: go_error where
  "ErrRowTooLarge = errors_New ''table data row exceeds configured byte limit''"

definition ErrResponseTooLarge :: go_error where
  "ErrResponseTooLarge = errors_New ''table data response exceeds configured byte limit''"

text \<open>The byte count of a row and the bytes its digest is taken of.\<close>

definition measureRow :: "CellValue list \<Rightarrow> int \<Rightarrow> go_error + int \<times> string" where
  "measureRow row maximum =
     (case writeValue (CellList row) \<lparr>CwrMaximum = maximum, CwrBytes = 0, CwrDigest = []\<rparr> of
        Inl e \<Rightarrow> Inl (if e = errCanonicalLimit then ErrRowTooLarge else e)
      | Inr w \<Rightarrow> Inr (CwrBytes w, CwrDigest w))"

section \<open>Pages\<close>

record Accumulator =
  AcMaximum :: int
  AcRows :: nat
  AcBytes :: int
  AcDigest :: string

definition NewAccumulator :: "int \<Rightarrow> Accumulator" where
  "NewAccumulator maximum =
     \<lparr>AcMaximum = maximum, AcRows = 0, AcBytes = 0, AcDigest = ''bqemu-tabledata-canonical-page-v1'' @ [CHR 0x00]\<rparr>"

definition sha256_Sum256 :: "string \<Rightarrow> string" where
  "sha256_Sum256 s =
     concat (map (\<lambda>w. map char_of (be_bytes 4 (unat w))) (sha_blocks sha_init (be_words (sha_pad (map of_char s)))))"

definition accumulate :: "int \<Rightarrow> string \<Rightarrow> int \<Rightarrow> Accumulator \<Rightarrow> Accumulator" where
  "accumulate rowBytes row charge a =
     a\<lparr>AcRows := Suc (AcRows a), AcBytes := i64_add (AcBytes a) charge,
       AcDigest := AcDigest a @ PutUint64 (uint64 rowBytes) @ sha256_Sum256 row\<rparr>"

definition Accumulator_Add :: "CellValue list \<Rightarrow> int \<Rightarrow> Accumulator \<Rightarrow> (go_error + bool) \<times> Accumulator" where
  "Accumulator_Add row maximumRowBytes a =
     (case measureRow row maximumRowBytes of Inl e \<Rightarrow> (Inl e, a)
      | Inr (rowBytes, bytes) \<Rightarrow>
        (let charge = i64_add rowBytes 8 in
         if charge < rowBytes \<or> (0 < AcMaximum a \<and> AcMaximum a - AcBytes a < charge) then
           (if AcRows a = 0 \<and> (maximumRowBytes \<le> 0 \<or> rowBytes \<le> maximumRowBytes)
            then (Inr True, accumulate rowBytes bytes charge a)
            else if AcRows a = 0 then (Inl ErrResponseTooLarge, a)
            else (Inr False, a))
         else (Inr True, accumulate rowBytes bytes charge a)))"

record Metrics =
  MtRows :: nat
  MtBytes :: int
  MtDigest :: string

definition Accumulator_Metrics :: "Accumulator \<Rightarrow> Metrics" where
  "Accumulator_Metrics a =
     \<lparr>MtRows = AcRows a, MtBytes = AcBytes a, MtDigest = ''sha256:'' @ sha256_hex (AcDigest a)\<rparr>"

section \<open>The canonical bytes identify a row\<close>

definition enc_string :: "string \<Rightarrow> string" where
  "enc_string s = CHR ''l'' # PutUint64 (length s) @ s"

fun enc :: "CellValue \<Rightarrow> string"
and encs :: "CellValue list \<Rightarrow> string"
and enc_entries :: "(string \<times> CellValue) list \<Rightarrow> string" where
  "enc CellNull = ''n''"
| "enc (CellTime t) = CHR ''t'' # enc_string t"
| "enc (CellBool b) = [CHR ''b'', if b then CHR 0x01 else CHR 0x00]"
| "enc (CellInt i) = CHR ''i'' # PutUint64 (uint64 i)"
| "enc (CellUint n) = CHR ''u'' # PutUint64 n"
| "enc (CellFloat n) = CHR ''f'' # PutUint64 n"
| "enc (CellString s) = CHR ''s'' # enc_string s"
| "enc (CellBytes s) = CHR ''x'' # enc_string s"
| "enc (CellList vs) = CHR ''a'' # PutUint64 (length vs) @ encs vs"
| "enc (CellMap es) = CHR ''m'' # PutUint64 (length es) @ enc_entries es"
| "enc CellOther = []"
| "encs [] = []"
| "encs (v # vs) = enc v @ encs vs"
| "enc_entries [] = []"
| "enc_entries ((k, v) # es) = enc_string k @ enc v @ enc_entries es"

text \<open>Values whose numbers and lengths have 64 bits.\<close>

definition short :: "'a list \<Rightarrow> bool" where
  "short xs \<longleftrightarrow> length xs < 2 ^ 64"

fun cell_ok :: "CellValue \<Rightarrow> bool" where
  "cell_ok CellNull \<longleftrightarrow> True"
| "cell_ok (CellTime t) \<longleftrightarrow> short t"
| "cell_ok (CellBool b) \<longleftrightarrow> True"
| "cell_ok (CellInt i) \<longleftrightarrow> in_i64 i"
| "cell_ok (CellUint n) \<longleftrightarrow> n < 2 ^ 64"
| "cell_ok (CellFloat n) \<longleftrightarrow> n < 2 ^ 64"
| "cell_ok (CellString s) \<longleftrightarrow> short s"
| "cell_ok (CellBytes s) \<longleftrightarrow> short s"
| "cell_ok (CellList vs) \<longleftrightarrow> short vs \<and> list_all cell_ok vs"
| "cell_ok (CellMap es) \<longleftrightarrow> short es \<and> list_all (\<lambda>(k, v). short k \<and> cell_ok v) es"
| "cell_ok CellOther \<longleftrightarrow> False"

definition room :: "CanonicalWriter \<Rightarrow> bool" where
  "room w \<longleftrightarrow> (0 < CwrMaximum w \<longrightarrow> CwrBytes w \<le> CwrMaximum w)"

lemma canonical_write_append:
  "canonical_write (a @ b) w = (case canonical_write a w of Inl e \<Rightarrow> Inl e | Inr w' \<Rightarrow> canonical_write b w')"
  by (auto simp: canonical_write_def)

lemma canonical_write_Nil: "room w \<Longrightarrow> canonical_write [] w = Inr w"
  by (auto simp: canonical_write_def room_def)

lemma canonical_write_room: "canonical_write v w = Inr w' \<Longrightarrow> room w'"
  by (auto simp: canonical_write_def room_def split: if_splits)

lemma write_chunks_write: "room w \<Longrightarrow> write_chunks v w = canonical_write v w"
proof (induction v w rule: write_chunks.induct)
  case (1 v w)
  let ?n = "if canonicalChunkBytes < length v then canonicalChunkBytes else length v"
  show ?case
  proof (cases "v = []")
    case True
    then show ?thesis using 1(2) by (simp add: write_chunks.simps canonical_write_Nil)
  next
    case False
    have "write_chunks v w = (case canonical_write (take ?n v) w of Inl e \<Rightarrow> Inl e | Inr w' \<Rightarrow> canonical_write (drop ?n v) w')"
      using False 1(1) [OF False] canonical_write_room by (subst write_chunks.simps) (auto simp: Let_def split: sum.splits)
    then show ?thesis using canonical_write_append [of "take ?n v" "drop ?n v" w] by simp
  qed
qed

lemma canonical_writeString_write: "canonical_writeString s w = canonical_write (enc_string s) w"
  using canonical_write_append [of "CHR ''l'' # PutUint64 (length s)" s w] canonical_write_room
  by (auto simp: canonical_writeString_def writeNumber_def enc_string_def write_chunks_write split: sum.splits)

lemma writeTagged_write: "writeTagged tag s w = canonical_write (tag # enc_string s) w"
  using canonical_write_append [of "[tag]" "enc_string s" w]
  by (simp add: writeTagged_def writeTag_def canonical_writeString_write cong: sum.case_cong)

lemma writeValue_write:
  "cell_ok v \<Longrightarrow> writeValue v w = canonical_write (enc v) w"
  "list_all cell_ok vs \<Longrightarrow> room w \<Longrightarrow> writeValues vs w = canonical_write (encs vs) w"
  "list_all (\<lambda>(k, v). short k \<and> cell_ok v) es \<Longrightarrow> room w \<Longrightarrow> writeEntries es w = canonical_write (enc_entries es) w"
proof (induction v w and vs w and es w rule: writeValue_writeValues_writeEntries.induct)
  case (9 vs w)
  then show ?case
    using canonical_write_append [of "CHR ''a'' # PutUint64 (length vs)" "encs vs" w] canonical_write_room
    by (auto simp: writeNumber_def split: sum.splits)
next
  case (10 es w)
  then show ?case
    using canonical_write_append [of "CHR ''m'' # PutUint64 (length es)" "enc_entries es" w] canonical_write_room
    by (auto simp: writeNumber_def split: sum.splits)
next
  case (13 v vs w)
  then show ?case using canonical_write_append [of "enc v" "encs vs" w] canonical_write_room by (auto split: sum.splits)
next
  case (15 k v es w)
  then show ?case
    using canonical_write_append [of "enc_string k" "enc v @ enc_entries es" w] canonical_write_append [of "enc v" "enc_entries es"]
      canonical_write_room
    by (auto simp: canonical_writeString_write split: sum.splits)
qed (simp_all add: writeTag_def writeNumber_def writeTagged_write canonical_write_Nil)

lemma big_endian_length [simp]: "length (big_endian k n) = k"
  by (induction k arbitrary: n) simp_all

lemma big_endian_inj: "m < 256 ^ k \<Longrightarrow> n < 256 ^ k \<Longrightarrow> big_endian k m = big_endian k n \<Longrightarrow> m = n"
proof (induction k arbitrary: m n)
  case (Suc k)
  then have "m div 256 = n div 256" "(char_of (m mod 256) :: char) = char_of (n mod 256)"
    by (auto simp: less_mult_imp_div_less mult.commute)
  moreover from this(2) have "m mod 256 = n mod 256"
    by (metis of_char_of mod_mod_trivial)
  ultimately show ?case by (metis mult_div_mod_eq)
qed simp

lemma PutUint64_eq: "m < 2 ^ 64 \<Longrightarrow> n < 2 ^ 64 \<Longrightarrow> PutUint64 m @ x = PutUint64 n @ y \<longleftrightarrow> m = n \<and> x = y"
  using big_endian_inj [of m 8 n] by (auto simp: PutUint64_def)

lemma uint64_inj: "in_i64 a \<Longrightarrow> in_i64 b \<Longrightarrow> uint64 a = uint64 b \<Longrightarrow> a = b"
proof -
  assume i64: "in_i64 a" "in_i64 b" and "uint64 a = uint64 b"
  then have "a mod 2 ^ 64 = b mod 2 ^ 64" by (simp add: uint64_def)
  then have "wrap64 a = wrap64 b" by (rule wrap64_cong)
  with i64 show "a = b" by simp
qed

lemma PutUint64_uint64_eq:
  "in_i64 a \<Longrightarrow> in_i64 b \<Longrightarrow> PutUint64 (uint64 a) @ x = PutUint64 (uint64 b) @ y \<longleftrightarrow> a = b \<and> x = y"
  using PutUint64_eq [of "uint64 a" "uint64 b" x y] uint64_inj [of a b] by (auto simp: uint64_def nat_less_iff)

lemma enc_string_eq: "short s \<Longrightarrow> short t \<Longrightarrow> enc_string s @ x = enc_string t @ y \<longleftrightarrow> s = t \<and> x = y"
  by (auto simp: enc_string_def PutUint64_eq short_def)

lemma enc_eq:
  "cell_ok v \<Longrightarrow> cell_ok v' \<Longrightarrow> enc v @ x = enc v' @ y \<Longrightarrow> v = v' \<and> x = y"
  "list_all cell_ok vs \<Longrightarrow> list_all cell_ok vs' \<Longrightarrow> length vs = length vs' \<Longrightarrow> encs vs @ x = encs vs' @ y \<Longrightarrow> vs = vs' \<and> x = y"
  "list_all (\<lambda>(k, v). short k \<and> cell_ok v) es \<Longrightarrow> list_all (\<lambda>(k, v). short k \<and> cell_ok v) es' \<Longrightarrow> length es = length es' \<Longrightarrow>
     enc_entries es @ x = enc_entries es' @ y \<Longrightarrow> es = es' \<and> x = y"
proof (induction v and vs and es arbitrary: v' x y and vs' x y and es' x y rule: enc_encs_enc_entries.induct)
  case (4 i)
  then show ?case by (cases v') (auto simp: PutUint64_uint64_eq)
next
  case 1
  then show ?case by (cases v') (auto simp: PutUint64_eq enc_string_eq split: if_splits)
next
  case (2 t)
  then show ?case by (cases v') (auto simp: PutUint64_eq enc_string_eq split: if_splits)
next
  case (3 b)
  then show ?case by (cases v') (auto simp: PutUint64_eq enc_string_eq split: if_splits)
next
  case (5 n)
  then show ?case by (cases v') (auto simp: PutUint64_eq enc_string_eq split: if_splits)
next
  case (6 n)
  then show ?case by (cases v') (auto simp: PutUint64_eq enc_string_eq split: if_splits)
next
  case (7 s)
  then show ?case by (cases v') (auto simp: PutUint64_eq enc_string_eq split: if_splits)
next
  case (8 s)
  then show ?case by (cases v') (auto simp: PutUint64_eq enc_string_eq split: if_splits)
next
  case (9 vs)
  then show ?case by (cases v') (auto simp: PutUint64_eq short_def)
next
  case (10 es)
  then show ?case by (cases v') (auto simp: PutUint64_eq short_def)
next
  case (13 v vs)
  then obtain u us where u: "vs' = u # us" by (cases vs') auto
  then have "enc v @ encs vs @ x = enc u @ encs us @ y" using 13(6) by simp
  then have "v = u" "encs vs @ x = encs us @ y" using 13(1) [of u "encs vs @ x"] 13(3,4) u by auto
  with u show ?case using 13(2) [of us x y] 13(3-5) by auto
next
  case (15 k v es)
  then obtain j u us where u: "es' = (j, u) # us" by (cases es') auto
  then have "enc_string k @ enc v @ enc_entries es @ x = enc_string j @ enc u @ enc_entries us @ y" using 15(6) by simp
  then have "k = j" "enc v @ enc_entries es @ x = enc u @ enc_entries us @ y" using 15(3,4) u by (simp_all add: enc_string_eq)
  then have "k = j" "v = u" "enc_entries es @ x = enc_entries us @ y" using 15(1) [of u "enc_entries es @ x"] 15(3,4) u by auto
  with u show ?case using 15(2) [of us x y] 15(3-5) by auto
qed simp_all

lemma measureRow_enc:
  assumes "cell_ok (CellList row)"
  shows "measureRow row maximum =
    (if 0 < maximum \<and> maximum < int (length (enc (CellList row))) then Inl ErrRowTooLarge
     else Inr (int (length (enc (CellList row))), enc (CellList row)))"
  unfolding measureRow_def writeValue_write(1) [OF assms] canonical_write_def
  by (simp del: enc.simps writeValue.simps)



section \<open>A page keeps its budget\<close>

text \<open>Adding the rows of a page in order, up to the first that does not fit.\<close>

fun add_rows :: "CellValue list list \<Rightarrow> int \<Rightarrow> Accumulator \<Rightarrow> (go_error + CellValue list list) \<times> Accumulator" where
  "add_rows [] limit a = (Inr [], a)"
| "add_rows (row # rows) limit a =
     (case Accumulator_Add row limit a of
        (Inl e, a') \<Rightarrow> (Inl e, a')
      | (Inr False, a') \<Rightarrow> (Inr [], a')
      | (Inr True, a') \<Rightarrow>
        (case add_rows rows limit a' of (Inl e, a'') \<Rightarrow> (Inl e, a'') | (Inr kept, a'') \<Rightarrow> (Inr (row # kept), a'')))"

abbreviation row_charge :: "CellValue list \<Rightarrow> int" where
  "row_charge row \<equiv> int (length (enc (CellList row))) + 8"

lemma Accumulator_Add_result:
  assumes "cell_ok (CellList row)" "0 < limit" "limit < 2 ^ 60" "0 \<le> AcBytes a" "AcBytes a < 2 ^ 61" "0 < AcMaximum a"
    and "Accumulator_Add row limit a = (Inr added, a')"
  shows "row_charge row \<le> limit + 8"
    and "added \<Longrightarrow> AcRows a' = Suc (AcRows a) \<and> AcBytes a' = AcBytes a + row_charge row \<and> AcMaximum a' = AcMaximum a
      \<and> (AcRows a = 0 \<or> AcBytes a' \<le> AcMaximum a)"
    and "\<not> added \<Longrightarrow> a' = a \<and> AcRows a \<noteq> 0"
proof -
  have small: "row_charge row - 8 \<le> limit" and m: "measureRow row limit = Inr (row_charge row - 8, enc (CellList row))"
    using assms(2,7) unfolding Accumulator_Add_def measureRow_enc [OF assms(1)] by (auto simp del: enc.simps split: if_splits)
  have exact: "i64_add (row_charge row - 8) 8 = row_charge row" "i64_add (AcBytes a) (row_charge row) = AcBytes a + row_charge row"
    using small assms(3-5) by (simp_all add: i64_add_exact in_i64_def del: enc.simps)
  show "row_charge row \<le> limit + 8" using small by simp
  show "added \<Longrightarrow> AcRows a' = Suc (AcRows a) \<and> AcBytes a' = AcBytes a + row_charge row \<and> AcMaximum a' = AcMaximum a
      \<and> (AcRows a = 0 \<or> AcBytes a' \<le> AcMaximum a)"
    and "\<not> added \<Longrightarrow> a' = a \<and> AcRows a \<noteq> 0"
    using assms(6,7) exact unfolding Accumulator_Add_def m by (auto simp: accumulate_def Let_def simp del: enc.simps split: if_splits)
qed

lemma add_rows_budget:
  assumes "list_all (\<lambda>row. cell_ok (CellList row)) rows" "0 < limit" "limit < 2 ^ 60" "0 < AcMaximum a" "AcMaximum a < 2 ^ 60"
    and "0 \<le> AcBytes a" "AcRows a = 0 \<and> AcBytes a = 0 \<or> AcRows a = 1 \<and> AcBytes a \<le> limit + 8 \<or> AcRows a \<noteq> 0 \<and> AcBytes a \<le> AcMaximum a"
    and "add_rows rows limit a = (Inr kept, a')"
  shows "prefix kept rows \<and> (kept = [] \<longrightarrow> rows = [] \<or> AcRows a \<noteq> 0)
    \<and> list_all (\<lambda>row. int (length (enc (CellList row))) \<le> limit) kept
    \<and> AcRows a' = AcRows a + length kept \<and> AcBytes a' = AcBytes a + sum_list (map row_charge kept)
    \<and> (kept \<noteq> [] \<longrightarrow> AcRows a' \<noteq> 1 \<longrightarrow> AcBytes a' \<le> AcMaximum a)"
  using assms
proof (induction rows arbitrary: a kept)
  case (Cons row rows)
  obtain res a1 where add: "Accumulator_Add row limit a = (res, a1)" by (cases "Accumulator_Add row limit a")
  then obtain added where res: "res = Inr added" using Cons.prems(8) by (cases res) auto
  have facts: "AcBytes a < 2 ^ 61" using Cons.prems(3,5,7) by auto
  note added = Accumulator_Add_result [OF _ Cons.prems(2,3,6) facts Cons.prems(4) add [unfolded res]]
  have ok: "cell_ok (CellList row)" using Cons.prems(1) by simp
  show ?case
  proof (cases added)
    case True
    then obtain kept' where rest: "add_rows rows limit a1 = (Inr kept', a')" and kept: "kept = row # kept'"
      using Cons.prems(8) add res by (auto split: prod.splits sum.splits)
    have a1: "AcRows a1 = Suc (AcRows a)" "AcBytes a1 = AcBytes a + row_charge row" "AcMaximum a1 = AcMaximum a"
      "AcRows a = 0 \<or> AcBytes a1 \<le> AcMaximum a" "row_charge row \<le> limit + 8"
      using added(1,2) [OF ok] True by auto
    have "prefix kept' rows \<and> (kept' = [] \<longrightarrow> rows = [] \<or> AcRows a1 \<noteq> 0)
      \<and> list_all (\<lambda>row. int (length (enc (CellList row))) \<le> limit) kept'
      \<and> AcRows a' = AcRows a1 + length kept' \<and> AcBytes a' = AcBytes a1 + sum_list (map row_charge kept')
      \<and> (kept' \<noteq> [] \<longrightarrow> AcRows a' \<noteq> 1 \<longrightarrow> AcBytes a' \<le> AcMaximum a1)"
      using a1 Cons.prems(1-7) by (intro Cons.IH [OF _ _ _ _ _ _ _ rest]) (auto simp del: enc.simps)
    then show ?thesis using a1 kept by (auto simp del: enc.simps)
  next
    case False
    then show ?thesis using Cons.prems(8) add res added(3) [OF ok] by auto
  qed
qed auto

text \<open>The rows that fit are the rows of a page of their own, so a second check of a page accepts it.\<close>

lemma Accumulator_Add_full: "Accumulator_Add row limit a = (Inr False, a') \<Longrightarrow> a' = a"
  by (auto simp: Accumulator_Add_def Let_def split: sum.splits prod.splits if_splits)

lemma add_rows_again: "add_rows rows limit a = (Inr kept, a') \<Longrightarrow> add_rows kept limit a = (Inr kept, a')"
  by (induction rows arbitrary: a kept) (auto dest: Accumulator_Add_full split: prod.splits sum.splits bool.splits)

text \<open>
  C12. The rows of a page are the first of the rows that were read, in order; at least one of them, unless there was none; each within the row
  limit; and the charge of the page stays within the page budget, except that its only row may exceed it. Checking the page again under the
  same limits accepts it, as the catalog service does with the page of its reader.
\<close>

theorem page_keeps_budget:
  assumes "list_all (\<lambda>row. cell_ok (CellList row)) rows" "0 < maximum" "0 < limit" "limit < 2 ^ 60" "maximum < 2 ^ 60"
    and "add_rows rows limit (NewAccumulator maximum) = (Inr kept, a)"
  shows "prefix kept rows \<and> (kept = [] \<longrightarrow> rows = [])
    \<and> list_all (\<lambda>row. int (length (enc (CellList row))) \<le> limit) kept
    \<and> AcRows a = length kept \<and> AcBytes a = sum_list (map (\<lambda>row. int (length (enc (CellList row))) + 8) kept)
    \<and> (length kept \<noteq> 1 \<longrightarrow> AcBytes a \<le> maximum)
    \<and> add_rows kept limit (NewAccumulator maximum) = (Inr kept, a)"
  using add_rows_again [OF assms(6)] add_rows_budget [OF assms(1,3,4) _ _ _ _ assms(6)] assms(2,5) by (cases kept) (auto simp: NewAccumulator_def simp del: enc.simps)

theorem page_keeps_budget_witness:
  "prefix [[CellUint 7]] [[CellUint 7], [CellUint 8]]
   \<and> add_rows [[CellUint 7]] 50 (NewAccumulator 40) = (Inr [[CellUint 7]], snd (add_rows [[CellUint 7], [CellUint 8]] 50 (NewAccumulator 40)))"
proof -
  have ok: "cell_ok (CellList [CellUint 7])" "cell_ok (CellList [CellUint 8])" by (simp_all add: short_def)
  have m: "measureRow [CellUint 7] 50 = Inr (18, enc (CellList [CellUint 7]))" "measureRow [CellUint 8] 50 = Inr (18, enc (CellList [CellUint 8]))"
    unfolding measureRow_enc [OF ok(1)] measureRow_enc [OF ok(2)] by (simp_all add: PutUint64_def)
  have "add_rows [[CellUint 7], [CellUint 8]] 50 (NewAccumulator 40)
      = (Inr [[CellUint 7]], accumulate 18 (enc (CellList [CellUint 7])) 26 (NewAccumulator 40))"
    by (simp add: Accumulator_Add_def m NewAccumulator_def accumulate_def i64_add_exact in_i64_def del: enc.simps)
  then show ?thesis
    using page_keeps_budget [of "[[CellUint 7], [CellUint 8]]" 40 50 "[[CellUint 7]]"] ok by simp
qed

end
