(* ===== verification/Catalog_Service.thy ===== *)
theory Catalog_Service
  imports Catalog_Repository Tabledata Schema_Evolution Engine_Schema
begin

text \<open>
  \<open>internal/application/catalog.go\<close>, \<open>metadata_update.go\<close> and \<open>context_mutex.go\<close>: the catalog service, which keeps the
  metadata of a repository in step with the storage of a warehouse. Storage is created before its metadata is published and dropped again
  when publication fails; deletions drop the storage first; an expired table is removed when it is met.

  The ports are records of functions on their own states. The clock is a sequence of readings; the state counts how many were taken. Every
  request but the reads of projects and datasets runs under one lock, so a request is one transition; its admission, which a done context can
  refuse, is an argument. The compensation deadline bounds calls whose answers are the port's; log records are left out.
\<close>

section \<open>Ports and state\<close>

record 'w CatalogStorage =
  StCreateDataset :: "string \<Rightarrow> string \<Rightarrow> 'w \<Rightarrow> go_error option \<times> 'w"
  StDropDataset :: "string \<Rightarrow> string \<Rightarrow> 'w \<Rightarrow> go_error option \<times> 'w"
  StPlanSchema :: "SchemaIntent \<Rightarrow> go_error + SchemaPlan"
  StCreatePlannedTable :: "SchemaPlan \<Rightarrow> Table \<Rightarrow> 'w \<Rightarrow> go_error option \<times> 'w"
  StApplyPlannedSchemaAdditions :: "SchemaPlan \<Rightarrow> Table \<Rightarrow> SchemaAddition list \<Rightarrow> 'w \<Rightarrow> go_error option \<times> 'w"
  StDropTable :: "string \<Rightarrow> string \<Rightarrow> string \<Rightarrow> 'w \<Rightarrow> go_error option \<times> 'w"

record TableDataReadRequest =
  RqReference :: DomainTableReference
  RqSchema :: "Field list"
  RqOffset :: int
  RqLimit :: int
  RqMaxResponseBytes :: int
  RqMaxRowBytes :: int

record TableDataPage =
  PgRows :: "CellValue list list"
  PgTotalRows :: int
  PgSchema :: "Field list"
  PgMaxResponseBytes :: int
  PgMaxRowBytes :: int

record ('c, 'w) CatalogService =
  SvCatalog :: "'c CatalogRepository"
  SvWarehouse :: "'w CatalogStorage"
  SvTableDataReader :: "(TableDataReadRequest \<Rightarrow> 'w \<Rightarrow> go_error + TableDataPage) option"
  SvClock :: "nat \<Rightarrow> time"
  SvDefaultLocation :: string
  SvMaxTableDataPageRows :: int
  SvMaxTableDataResponseBytes :: int
  SvMaxTableDataRowBytes :: int

definition NewCatalogService :: "'c CatalogRepository \<Rightarrow> 'w CatalogStorage \<Rightarrow> (nat \<Rightarrow> time) \<Rightarrow> ('c, 'w) CatalogService" where
  "NewCatalogService catalog warehouse clock =
     \<lparr>SvCatalog = catalog, SvWarehouse = warehouse, SvTableDataReader = None, SvClock = clock, SvDefaultLocation = ''US'',
      SvMaxTableDataPageRows = 10000, SvMaxTableDataResponseBytes = 10000000, SvMaxTableDataRowBytes = 100000000\<rparr>"

text \<open>The options of the constructor; one that sets nothing sensible is ignored.\<close>

definition WithDefaultLocation :: "string \<Rightarrow> ('c, 'w) CatalogService \<Rightarrow> ('c, 'w) CatalogService" where
  "WithDefaultLocation location s = (if location \<noteq> [] then s\<lparr>SvDefaultLocation := location\<rparr> else s)"

definition WithTableDataReader ::
  "(TableDataReadRequest \<Rightarrow> 'w \<Rightarrow> go_error + TableDataPage) option \<Rightarrow> ('c, 'w) CatalogService \<Rightarrow> ('c, 'w) CatalogService" where
  "WithTableDataReader reader s = s\<lparr>SvTableDataReader := reader\<rparr>"

definition WithMaxTableDataPageRows :: "int \<Rightarrow> ('c, 'w) CatalogService \<Rightarrow> ('c, 'w) CatalogService" where
  "WithMaxTableDataPageRows maximum s = (if 0 < maximum then s\<lparr>SvMaxTableDataPageRows := maximum\<rparr> else s)"

definition WithMaxTableDataResponseBytes :: "int \<Rightarrow> ('c, 'w) CatalogService \<Rightarrow> ('c, 'w) CatalogService" where
  "WithMaxTableDataResponseBytes maximum s = (if 0 < maximum then s\<lparr>SvMaxTableDataResponseBytes := maximum\<rparr> else s)"

definition WithMaxTableDataRowBytes :: "int \<Rightarrow> ('c, 'w) CatalogService \<Rightarrow> ('c, 'w) CatalogService" where
  "WithMaxTableDataRowBytes maximum s = (if 0 < maximum then s\<lparr>SvMaxTableDataRowBytes := maximum\<rparr> else s)"

record ('c, 'w) CatalogState =
  CsCatalog :: 'c
  CsStorage :: 'w
  CsTicks :: nat

definition on_catalog :: "('c \<Rightarrow> 'a \<times> 'c) \<Rightarrow> ('c, 'w) CatalogState \<Rightarrow> 'a \<times> ('c, 'w) CatalogState" where
  "on_catalog call s = (case call (CsCatalog s) of (res, c) \<Rightarrow> (res, s\<lparr>CsCatalog := c\<rparr>))"

definition on_storage :: "('w \<Rightarrow> 'a \<times> 'w) \<Rightarrow> ('c, 'w) CatalogState \<Rightarrow> 'a \<times> ('c, 'w) CatalogState" where
  "on_storage call s = (case call (CsStorage s) of (res, w) \<Rightarrow> (res, s\<lparr>CsStorage := w\<rparr>))"

definition clock_Now :: "('c, 'w) CatalogService \<Rightarrow> ('c, 'w) CatalogState \<Rightarrow> time \<times> ('c, 'w) CatalogState" where
  "clock_Now sv s = (SvClock sv (CsTicks s), s\<lparr>CsTicks := Suc (CsTicks s)\<rparr>)"

section \<open>The lock\<close>

text \<open>
  \<open>contextMutex\<close>: a channel that holds one permit. \<open>LockContext\<close> reads the context, then waits until the context is done or the permit
  is there, and reads the context again when it has the permit; \<open>None\<close> is a call that still waits.
\<close>

datatype Selected = SelectDone | SelectPermit

definition LockContext :: "go_error option \<Rightarrow> Selected \<Rightarrow> go_error option \<Rightarrow> bool \<Rightarrow> (go_error option \<times> bool) option" where
  "LockContext entry sel err permit =
     (case entry of Some e \<Rightarrow> Some (Some e, permit)
      | None \<Rightarrow>
        (case sel of
           SelectDone \<Rightarrow> (case err of Some e \<Rightarrow> Some (Some e, permit) | None \<Rightarrow> None)
         | SelectPermit \<Rightarrow>
           if \<not> permit then None
           else (case err of Some e \<Rightarrow> Some (Some e, True) | None \<Rightarrow> Some (None, False))))"

text \<open>A full channel blocks the second permit.\<close>

definition Unlock :: "bool \<Rightarrow> bool option" where
  "Unlock permit = (if permit then None else Some True)"

section \<open>Schema planning\<close>

definition table_reference :: "Table \<Rightarrow> DomainTableReference" where
  "table_reference t = \<lparr>DrProjectID = TbProjectID t, DrDatasetID = TbDatasetID t, DrTableID = TbID t\<rparr>"

definition planEngineSchema :: "'w CatalogStorage \<Rightarrow> SchemaIntentDescriptor \<Rightarrow> go_error + SchemaPlan" where
  "planEngineSchema planner descriptor =
     (case NewSchemaIntent descriptor of Inl e \<Rightarrow> Inl e
      | Inr intent \<Rightarrow>
        (case StPlanSchema planner intent of Inr plan \<Rightarrow> Inr plan
         | Inl e \<Rightarrow> if errors_Is e ErrUnsupported then Inl ([ErrUnsupported, ErrText CapabilityEngineSchemaV1] @ error_as_text e) else Inl e))"

section \<open>Expiration\<close>

definition tableExpired :: "Table \<Rightarrow> time \<Rightarrow> bool" where
  "tableExpired t now \<longleftrightarrow> (case TbExpirationTime t of None \<Rightarrow> False | Some e \<Rightarrow> \<not> now < e)"

text \<open>The storage of a table that is dropped is gone, or was never there.\<close>

definition dropTableStorage ::
  "('c, 'w) CatalogService \<Rightarrow> string \<Rightarrow> string \<Rightarrow> string \<Rightarrow> ('c, 'w) CatalogState \<Rightarrow> go_error option \<times> ('c, 'w) CatalogState" where
  "dropTableStorage sv p d t s =
     (case on_storage (StDropTable (SvWarehouse sv) p d t) s of
        (Some e, s1) \<Rightarrow> (if errors_Is e ErrNotFound then None else Some e, s1)
      | (None, s1) \<Rightarrow> (None, s1))"

definition removeExpiredTableLocked ::
  "('c, 'w) CatalogService \<Rightarrow> string \<Rightarrow> string \<Rightarrow> string \<Rightarrow> ('c, 'w) CatalogState \<Rightarrow> (go_error + bool) \<times> ('c, 'w) CatalogState" where
  "removeExpiredTableLocked sv p d t s =
     (case on_catalog (CrGetTable (SvCatalog sv) p d t) s of
        (Inl e, s1) \<Rightarrow> (if errors_Is e ErrNotFound then (Inr True, s1) else (Inl e, s1))
      | (Inr table, s1) \<Rightarrow>
        (case clock_Now sv s1 of (now, s2) \<Rightarrow>
           if \<not> tableExpired table now then (Inr False, s2)
           else (case dropTableStorage sv p d t s2 of
               (Some e, s3) \<Rightarrow> (Inl e, s3)
             | (None, s3) \<Rightarrow>
               (case on_catalog (CrDeleteTable (SvCatalog sv) p d t) s3 of
                  (Some e, s4) \<Rightarrow> (if errors_Is e ErrNotFound then (Inr True, s4) else (Inl e, s4))
                | (None, s4) \<Rightarrow> (Inr True, s4)))))"

definition getTableLocked ::
  "('c, 'w) CatalogService \<Rightarrow> string \<Rightarrow> string \<Rightarrow> string \<Rightarrow> ('c, 'w) CatalogState \<Rightarrow> (go_error + Table) \<times> ('c, 'w) CatalogState" where
  "getTableLocked sv p d t s =
     (case on_catalog (CrGetTable (SvCatalog sv) p d t) s of
        (Inl e, s1) \<Rightarrow> (Inl e, s1)
      | (Inr table, s1) \<Rightarrow>
        (case clock_Now sv s1 of (now, s2) \<Rightarrow>
           if \<not> tableExpired table now then (Inr table, s2)
           else (case removeExpiredTableLocked sv p d t s2 of
               (Inl e, s3) \<Rightarrow> (Inl e, s3)
             | (Inr removed, s3) \<Rightarrow>
               if \<not> removed then on_catalog (CrGetTable (SvCatalog sv) p d t) s3 else (Inl [ErrNotFound], s3))))"

fun live_tables ::
  "('c, 'w) CatalogService \<Rightarrow> Table list \<Rightarrow> ('c, 'w) CatalogState \<Rightarrow> (go_error + Table list) \<times> ('c, 'w) CatalogState" where
  "live_tables sv [] s = (Inr [], s)"
| "live_tables sv (t # ts) s =
     (case clock_Now sv s of (now, s1) \<Rightarrow>
        if \<not> tableExpired t now then
          (case live_tables sv ts s1 of (Inl e, s2) \<Rightarrow> (Inl e, s2) | (Inr live, s2) \<Rightarrow> (Inr (t # live), s2))
        else (case removeExpiredTableLocked sv (TbProjectID t) (TbDatasetID t) (TbID t) s1 of
            (Inl e, s2) \<Rightarrow> (Inl e, s2)
          | (Inr removed, s2) \<Rightarrow>
            if removed then live_tables sv ts s2
            else (case on_catalog (CrGetTable (SvCatalog sv) (TbProjectID t) (TbDatasetID t) (TbID t)) s2 of
                (Inl e, s3) \<Rightarrow> (Inl e, s3)
              | (Inr current, s3) \<Rightarrow>
                (case live_tables sv ts s3 of (Inl e, s4) \<Rightarrow> (Inl e, s4) | (Inr live, s4) \<Rightarrow> (Inr (current # live), s4)))))"

definition listTablesLocked ::
  "('c, 'w) CatalogService \<Rightarrow> string \<Rightarrow> string \<Rightarrow> ('c, 'w) CatalogState \<Rightarrow> (go_error + Table list) \<times> ('c, 'w) CatalogState" where
  "listTablesLocked sv p d s =
     (case on_catalog (CrListTables (SvCatalog sv) p d) s of (Inl e, s1) \<Rightarrow> (Inl e, s1) | (Inr ts, s1) \<Rightarrow> live_tables sv ts s1)"

section \<open>Projects and datasets\<close>

definition CreateProject :: "('c, 'w) CatalogService \<Rightarrow> Project \<Rightarrow> ('c, 'w) CatalogState \<Rightarrow> (go_error + Project) \<times> ('c, 'w) CatalogState" where
  "CreateProject sv project s =
     (case Project_Validate project of Some e \<Rightarrow> (Inl e, s)
      | None \<Rightarrow>
        (case clock_Now sv s of (now, s1) \<Rightarrow>
           let project = project\<lparr>PrCreatedAt := now, PrUpdatedAt := now\<rparr> in
           case on_catalog (CrCreateProject (SvCatalog sv) project) s1 of
             (Some e, s2) \<Rightarrow> (Inl e, s2) | (None, s2) \<Rightarrow> (Inr project, s2)))"

fun drop_datasets ::
  "('c, 'w) CatalogService \<Rightarrow> string \<Rightarrow> Dataset list \<Rightarrow> ('c, 'w) CatalogState \<Rightarrow> go_error option \<times> ('c, 'w) CatalogState" where
  "drop_datasets sv p [] s = (None, s)"
| "drop_datasets sv p (d # ds) s =
     (case on_storage (StDropDataset (SvWarehouse sv) p (DsID d)) s of (Some e, s1) \<Rightarrow> (Some e, s1) | (None, s1) \<Rightarrow> drop_datasets sv p ds s1)"

definition DeleteProject :: "('c, 'w) CatalogService \<Rightarrow> string \<Rightarrow> ('c, 'w) CatalogState \<Rightarrow> go_error option \<times> ('c, 'w) CatalogState" where
  "DeleteProject sv p s =
     (case on_catalog (CrListDatasets (SvCatalog sv) p) s of (Inl e, s1) \<Rightarrow> (Some e, s1)
      | (Inr ds, s1) \<Rightarrow>
        (case drop_datasets sv p ds s1 of (Some e, s2) \<Rightarrow> (Some e, s2)
         | (None, s2) \<Rightarrow> on_catalog (CrDeleteProject (SvCatalog sv) p) s2))"

definition compensate_dataset :: go_error where
  "compensate_dataset = errors_New ''compensate unpublished dataset storage''"

definition compensate_table :: go_error where
  "compensate_table = errors_New ''compensate unpublished table storage''"

definition publish_dataset :: "('c, 'w) CatalogService \<Rightarrow> Dataset \<Rightarrow> ('c, 'w) CatalogState \<Rightarrow> (go_error + Dataset) \<times> ('c, 'w) CatalogState" where
  "publish_dataset sv dataset s =
     (case on_storage (StCreateDataset (SvWarehouse sv) (DsProjectID dataset) (DsID dataset)) s of (Some e, s1) \<Rightarrow> (Inl e, s1)
      | (None, s1) \<Rightarrow>
        (case on_catalog (CrCreateDataset (SvCatalog sv) dataset) s1 of (None, s2) \<Rightarrow> (Inr dataset, s2)
         | (Some e, s2) \<Rightarrow>
           (case on_storage (StDropDataset (SvWarehouse sv) (DsProjectID dataset) (DsID dataset)) s2 of
              (Some cleanup, s3) \<Rightarrow> (Inl (errors_Join e (compensate_dataset @ cleanup)), s3)
            | (None, s3) \<Rightarrow> (Inl e, s3))))"

definition createDataset :: "('c, 'w) CatalogService \<Rightarrow> Dataset \<Rightarrow> ('c, 'w) CatalogState \<Rightarrow> (go_error + Dataset) \<times> ('c, 'w) CatalogState" where
  "createDataset sv dataset s =
     (case Dataset_Validate dataset of Some e \<Rightarrow> (Inl e, s)
      | None \<Rightarrow>
      (case on_catalog (CrGetProject (SvCatalog sv) (DsProjectID dataset)) s of (Inl e, s1) \<Rightarrow> (Inl e, s1)
       | (Inr _, s1) \<Rightarrow>
       (case on_catalog (CrGetDataset (SvCatalog sv) (DsProjectID dataset) (DsID dataset)) s1 of
          (Inr _, s2) \<Rightarrow> (Inl [ErrConflict], s2)
        | (Inl e, s2) \<Rightarrow>
          if \<not> errors_Is e ErrNotFound then (Inl e, s2)
          else case clock_Now sv s2 of (now, s3) \<Rightarrow>
            publish_dataset sv (dataset\<lparr>DsLocation := (if DsLocation dataset = [] then SvDefaultLocation sv else DsLocation dataset),
              DsCreatedAt := now, DsUpdatedAt := now\<rparr>) s3)))"

definition validateAnonymousDataset :: "Dataset \<Rightarrow> string \<Rightarrow> go_error + Dataset" where
  "validateAnonymousDataset dataset location =
     (if \<not> DsHidden dataset then Inl [ErrConflict]
      else if \<not> strings_EqualFold (DsLocation dataset) location then Inl [ErrInvalid]
      else Inr dataset)"

definition EnsureAnonymousDataset ::
  "('c, 'w) CatalogService \<Rightarrow> string \<Rightarrow> string \<Rightarrow> string \<Rightarrow> ('c, 'w) CatalogState \<Rightarrow> (go_error + Dataset) \<times> ('c, 'w) CatalogState" where
  "EnsureAnonymousDataset sv p d location s =
     (case on_catalog (CrGetDataset (SvCatalog sv) p d) s of
        (Inr dataset, s1) \<Rightarrow> (validateAnonymousDataset dataset location, s1)
      | (Inl e, s1) \<Rightarrow>
        if \<not> errors_Is e ErrNotFound then (Inl e, s1)
        else createDataset sv \<lparr>DsProjectID = p, DsID = d, DsFriendlyName = [], DsDescription = [], DsLocation = location, DsLabels = None,
               DefaultTableExpirationMs = None, DefaultPartitionExpirationMs = None, DsCreatedAt = 0, DsUpdatedAt = 0, DsHidden = True\<rparr> s1)"

definition DeleteDataset ::
  "('c, 'w) CatalogService \<Rightarrow> string \<Rightarrow> string \<Rightarrow> bool \<Rightarrow> ('c, 'w) CatalogState \<Rightarrow> go_error option \<times> ('c, 'w) CatalogState" where
  "DeleteDataset sv p d deleteContents s =
     (case on_catalog (CrGetDataset (SvCatalog sv) p d) s of (Inl e, s1) \<Rightarrow> (Some e, s1)
      | (Inr _, s1) \<Rightarrow>
      (case listTablesLocked sv p d s1 of (Inl e, s2) \<Rightarrow> (Some e, s2)
       | (Inr ts, s2) \<Rightarrow>
         if ts \<noteq> [] \<and> \<not> deleteContents then (Some [ErrConflict], s2)
         else (case on_storage (StDropDataset (SvWarehouse sv) p d) s2 of (Some e, s3) \<Rightarrow> (Some e, s3)
           | (None, s3) \<Rightarrow> on_catalog (CrDeleteDataset (SvCatalog sv) p d) s3)))"

section \<open>Tables\<close>

definition create_descriptor :: "string \<Rightarrow> Table \<Rightarrow> SchemaIntentDescriptor" where
  "create_descriptor operation t =
     \<lparr>SidOperation = operation, SidTarget = table_reference t, SidBeforeSchema = [], SidAfterSchema = TbSchema t, SidAdditions = []\<rparr>"

text \<open>The table that is about to be created must be absent; an expired one is removed.\<close>

definition clear_expired :: "('c, 'w) CatalogService \<Rightarrow> Table \<Rightarrow> ('c, 'w) CatalogState \<Rightarrow> go_error option \<times> ('c, 'w) CatalogState" where
  "clear_expired sv t s =
     (case on_catalog (CrGetTable (SvCatalog sv) (TbProjectID t) (TbDatasetID t) (TbID t)) s of
        (Inr existing, s1) \<Rightarrow>
          (case clock_Now sv s1 of (now, s2) \<Rightarrow>
             if \<not> tableExpired existing now then (Some [ErrConflict], s2)
             else (case removeExpiredTableLocked sv (TbProjectID t) (TbDatasetID t) (TbID t) s2 of
                 (Inl e, s3) \<Rightarrow> (Some e, s3) | (Inr _, s3) \<Rightarrow> (None, s3)))
      | (Inl e, s1) \<Rightarrow> (if errors_Is e ErrNotFound then None else Some e, s1))"

text \<open>\<open>now.Add(time.Duration(ms) * time.Millisecond)\<close>: the product is an \<open>int64\<close>.\<close>

definition default_expiration :: "time \<Rightarrow> int \<Rightarrow> time" where
  "default_expiration now ms = now + wrap64 (ms * 1000000)"

definition table_defaults :: "Dataset \<Rightarrow> time \<Rightarrow> Table \<Rightarrow> Table" where
  "table_defaults dataset now t =
     t\<lparr>TbType := (if TbType t = [] then ''TABLE'' else TbType t), TbLocation := DsLocation dataset,
       TbExpirationTime := (case (TbExpirationTime t, DefaultTableExpirationMs dataset) of
           (None, Some ms) \<Rightarrow> Some (default_expiration now ms) | (e, _) \<Rightarrow> e),
       TbTimePartitioning := (case (TbTimePartitioning t, DefaultPartitionExpirationMs dataset) of
           (Some tp, Some ms) \<Rightarrow> Some (if TpExpirationMs tp = 0 then tp\<lparr>TpExpirationMs := ms\<rparr> else tp) | (tp, _) \<Rightarrow> tp),
       TbCreatedAt := now, TbUpdatedAt := now\<rparr>"

definition publish_table ::
  "('c, 'w) CatalogService \<Rightarrow> SchemaPlan \<Rightarrow> Table \<Rightarrow> ('c, 'w) CatalogState \<Rightarrow> (go_error + Table) \<times> ('c, 'w) CatalogState" where
  "publish_table sv plan t s =
     (case on_storage (StCreatePlannedTable (SvWarehouse sv) plan t) s of (Some e, s1) \<Rightarrow> (Inl e, s1)
      | (None, s1) \<Rightarrow>
        (case on_catalog (CrCreateTable (SvCatalog sv) t) s1 of (None, s2) \<Rightarrow> (Inr t, s2)
         | (Some e, s2) \<Rightarrow>
           (case on_storage (StDropTable (SvWarehouse sv) (TbProjectID t) (TbDatasetID t) (TbID t)) s2 of
              (Some cleanup, s3) \<Rightarrow> (Inl (errors_Join e (compensate_table @ cleanup)), s3)
            | (None, s3) \<Rightarrow> (Inl e, s3))))"

definition catalog_CreateTable :: "('c, 'w) CatalogService \<Rightarrow> Table \<Rightarrow> ('c, 'w) CatalogState \<Rightarrow> (go_error + Table) \<times> ('c, 'w) CatalogState" where
  "catalog_CreateTable sv t s =
     (case Table_Validate t of Some e \<Rightarrow> (Inl e, s)
      | None \<Rightarrow>
      (case planEngineSchema (SvWarehouse sv) (create_descriptor SchemaOperationCreate t) of Inl e \<Rightarrow> (Inl e, s)
       | Inr plan \<Rightarrow>
       (case on_catalog (CrGetDataset (SvCatalog sv) (TbProjectID t) (TbDatasetID t)) s of (Inl e, s1) \<Rightarrow> (Inl e, s1)
        | (Inr dataset, s1) \<Rightarrow>
        (case clear_expired sv t s1 of (Some e, s2) \<Rightarrow> (Inl e, s2)
         | (None, s2) \<Rightarrow>
         (case clock_Now sv s2 of (now, s3) \<Rightarrow> publish_table sv plan (table_defaults dataset now t) s3)))))"

definition catalog_GetTable ::
  "('c, 'w) CatalogService \<Rightarrow> string \<Rightarrow> string \<Rightarrow> string \<Rightarrow> ('c, 'w) CatalogState \<Rightarrow> (go_error + Table) \<times> ('c, 'w) CatalogState" where
  "catalog_GetTable sv p d t s = getTableLocked sv p d t s"

definition PublishMaterializedTable :: "('c, 'w) CatalogService \<Rightarrow> Table \<Rightarrow> ('c, 'w) CatalogState \<Rightarrow> go_error option \<times> ('c, 'w) CatalogState" where
  "PublishMaterializedTable sv t s =
     (case Table_Validate t of Some e \<Rightarrow> (Some e, s)
      | None \<Rightarrow>
      (case planEngineSchema (SvWarehouse sv) (create_descriptor SchemaOperationValidate t) of Inl e \<Rightarrow> (Some e, s)
       | Inr _ \<Rightarrow>
       (case on_catalog (CrGetDataset (SvCatalog sv) (TbProjectID t) (TbDatasetID t)) s of (Inl e, s1) \<Rightarrow> (Some e, s1)
        | (Inr dataset, s1) \<Rightarrow>
        (case clear_expired sv t s1 of (Some e, s2) \<Rightarrow> (Some e, s2)
         | (None, s2) \<Rightarrow>
         (case clock_Now sv s2 of (now, s3) \<Rightarrow>
            on_catalog (CrCreateTable (SvCatalog sv)
              (t\<lparr>TbType := ''TABLE'', TbLocation := DsLocation dataset, TbCreatedAt := now, TbUpdatedAt := now\<rparr>)) s3)))))"

definition catalog_DeleteTable ::
  "('c, 'w) CatalogService \<Rightarrow> string \<Rightarrow> string \<Rightarrow> string \<Rightarrow> ('c, 'w) CatalogState \<Rightarrow> go_error option \<times> ('c, 'w) CatalogState" where
  "catalog_DeleteTable sv p d t s =
     (case on_catalog (CrGetTable (SvCatalog sv) p d t) s of (Inl e, s1) \<Rightarrow> (Some e, s1)
      | (Inr _, s1) \<Rightarrow>
        (case dropTableStorage sv p d t s1 of (Some e, s2) \<Rightarrow> (Some e, s2)
         | (None, s2) \<Rightarrow> on_catalog (CrDeleteTable (SvCatalog sv) p d t) s2))"

section \<open>Metadata updates\<close>

text \<open>A patch value that is not set is \<open>None\<close>.\<close>

record DatasetPatch =
  DpFriendlyName :: "string option"
  DpDescription :: "string option"
  DpLabels :: "(string, string) gomap option option"
  DpTableExpirationMs :: "int option option"
  DpPartitionExpirationMs :: "int option option"

record TablePatch =
  TpaFriendlyName :: "string option"
  TpaDescription :: "string option"
  TpaLabels :: "(string, string) gomap option option"
  TpaExpirationTime :: "time option option"
  TpaSchema :: "Field list option"

definition patched :: "'a option \<Rightarrow> 'a \<Rightarrow> 'a" where
  "patched v current = (case v of None \<Rightarrow> current | Some x \<Rightarrow> x)"

definition UpdateDataset ::
  "('c, 'w) CatalogService \<Rightarrow> string \<Rightarrow> string \<Rightarrow> DatasetPatch \<Rightarrow> ('c, 'w) CatalogState \<Rightarrow> (go_error + Dataset) \<times> ('c, 'w) CatalogState" where
  "UpdateDataset sv p d patch s =
     (case on_catalog (CrGetDataset (SvCatalog sv) p d) s of (Inl e, s1) \<Rightarrow> (Inl e, s1)
      | (Inr dataset, s1) \<Rightarrow>
        let dataset = dataset\<lparr>DsFriendlyName := patched (DpFriendlyName patch) (DsFriendlyName dataset),
              DsDescription := patched (DpDescription patch) (DsDescription dataset),
              DsLabels := patched (DpLabels patch) (DsLabels dataset),
              DefaultTableExpirationMs := patched (DpTableExpirationMs patch) (DefaultTableExpirationMs dataset),
              DefaultPartitionExpirationMs := patched (DpPartitionExpirationMs patch) (DefaultPartitionExpirationMs dataset)\<rparr> in
        case Dataset_Validate dataset of Some e \<Rightarrow> (Inl e, s1)
        | None \<Rightarrow>
          (case clock_Now sv s1 of (now, s2) \<Rightarrow>
             let dataset = dataset\<lparr>DsUpdatedAt := now\<rparr> in
             case on_catalog (CrUpdateDataset (SvCatalog sv) dataset) s2 of (Some e, s3) \<Rightarrow> (Inl e, s3) | (None, s3) \<Rightarrow> (Inr dataset, s3)))"

text \<open>The patched table and the fields it adds.\<close>

definition patch_table :: "TablePatch \<Rightarrow> Table \<Rightarrow> go_error + Table \<times> SchemaAddition list" where
  "patch_table patch t =
     (let t1 = t\<lparr>TbFriendlyName := patched (TpaFriendlyName patch) (TbFriendlyName t),
            TbDescription := patched (TpaDescription patch) (TbDescription t), TbLabels := patched (TpaLabels patch) (TbLabels t),
            TbExpirationTime := patched (TpaExpirationTime patch) (TbExpirationTime t)\<rparr> in
      case (case TpaSchema patch of None \<Rightarrow> Inr (t1, [])
            | Some schema \<Rightarrow>
              (case ValidateSchemaEvolution (TbSchema t) schema of Inl e \<Rightarrow> Inl e
               | Inr additions \<Rightarrow> Inr (t1\<lparr>TbSchema := CloneFields schema\<rparr>, additions))) of
        Inl e \<Rightarrow> Inl e
      | Inr (t2, additions) \<Rightarrow> (case Table_Validate t2 of Some e \<Rightarrow> Inl e | None \<Rightarrow> Inr (t2, additions)))"

definition patch_descriptor :: "Field list \<Rightarrow> Table \<Rightarrow> SchemaAddition list \<Rightarrow> SchemaIntentDescriptor" where
  "patch_descriptor before t additions =
     \<lparr>SidOperation = (if additions \<noteq> [] then SchemaOperationAddColumns else SchemaOperationValidate), SidTarget = table_reference t,
      SidBeforeSchema = (if additions \<noteq> [] then CloneFields before else []), SidAfterSchema = TbSchema t, SidAdditions = additions\<rparr>"

text \<open>Without a schema in the patch there is nothing to plan.\<close>

definition plan_patch :: "'w CatalogStorage \<Rightarrow> TablePatch \<Rightarrow> Field list \<Rightarrow> Table \<Rightarrow> SchemaAddition list \<Rightarrow> go_error + SchemaPlan option" where
  "plan_patch planner patch before t additions =
     (if TpaSchema patch = None then Inr None
      else case planEngineSchema planner (patch_descriptor before t additions) of Inl e \<Rightarrow> Inl e | Inr plan \<Rightarrow> Inr (Some plan))"

definition apply_patch_additions ::
  "('c, 'w) CatalogService \<Rightarrow> SchemaPlan option \<Rightarrow> Table \<Rightarrow> SchemaAddition list \<Rightarrow> ('c, 'w) CatalogState \<Rightarrow> go_error option \<times> ('c, 'w) CatalogState" where
  "apply_patch_additions sv plan t additions s =
     (case plan of
        Some schemaPlan \<Rightarrow>
          if additions \<noteq> [] then on_storage (StApplyPlannedSchemaAdditions (SvWarehouse sv) schemaPlan t additions) s else (None, s)
      | None \<Rightarrow> (None, s))"

definition catalog_UpdateTable ::
  "('c, 'w) CatalogService \<Rightarrow> string \<Rightarrow> string \<Rightarrow> string \<Rightarrow> TablePatch \<Rightarrow> ('c, 'w) CatalogState \<Rightarrow> (go_error + Table) \<times> ('c, 'w) CatalogState" where
  "catalog_UpdateTable sv p d i patch s =
     (case on_catalog (CrGetTable (SvCatalog sv) p d i) s of (Inl e, s1) \<Rightarrow> (Inl e, s1)
      | (Inr t, s1) \<Rightarrow>
      (case clock_Now sv s1 of (now, s2) \<Rightarrow>
         if tableExpired t now then
           (case removeExpiredTableLocked sv p d i s2 of (Inl e, s3) \<Rightarrow> (Inl e, s3) | (Inr _, s3) \<Rightarrow> (Inl [ErrNotFound], s3))
         else case patch_table patch t of Inl e \<Rightarrow> (Inl e, s2)
         | Inr (t1, additions) \<Rightarrow>
         (case plan_patch (SvWarehouse sv) patch (TbSchema t) t1 additions of Inl e \<Rightarrow> (Inl e, s2)
          | Inr plan \<Rightarrow>
          (case apply_patch_additions sv plan t1 additions s2 of (Some e, s3) \<Rightarrow> (Inl e, s3)
           | (None, s3) \<Rightarrow>
           (case clock_Now sv s3 of (updated, s4) \<Rightarrow>
              let t2 = t1\<lparr>TbUpdatedAt := updated\<rparr> in
              case on_catalog (CrUpdateTable (SvCatalog sv) t2) s4 of (Some e, s5) \<Rightarrow> (Inl e, s5) | (None, s5) \<Rightarrow> (Inr t2, s5))))))"

section \<open>Table data\<close>

definition ErrTableDataAdapterContract :: go_error where
  "ErrTableDataAdapterContract = errors_New ''table data reader violated table data adapter contract''"

definition validateTableDataPage :: "TableDataPage \<Rightarrow> int \<Rightarrow> int \<Rightarrow> go_error option" where
  "validateTableDataPage page offset limit =
     (if PgTotalRows page < 0 then Some ErrTableDataAdapterContract
      else if limit < int (length (PgRows page)) then Some ErrTableDataAdapterContract
      else let remaining = (if offset < PgTotalRows page then PgTotalRows page - offset else 0) in
        if remaining < int (length (PgRows page)) then Some ErrTableDataAdapterContract else None)"

fun check_budget :: "CellValue list list \<Rightarrow> int \<Rightarrow> Accumulator \<Rightarrow> go_error option" where
  "check_budget [] limit a = None"
| "check_budget (row # rows) limit a =
     (case Accumulator_Add row limit a of
        (Inr True, a') \<Rightarrow> check_budget rows limit a'
      | _ \<Rightarrow> Some ErrTableDataAdapterContract)"

definition data_limit :: "('c, 'w) CatalogService \<Rightarrow> int option \<Rightarrow> int" where
  "data_limit sv maximum =
     (case maximum of None \<Rightarrow> SvMaxTableDataPageRows sv
      | Some v \<Rightarrow> if SvMaxTableDataPageRows sv < v then SvMaxTableDataPageRows sv else v)"

text \<open>\<open>admitted\<close> is what waiting for the lock under the operation's deadline answers.\<close>

definition ListTableData ::
  "('c, 'w) CatalogService \<Rightarrow> go_error option \<Rightarrow> string \<Rightarrow> string \<Rightarrow> string \<Rightarrow> int \<Rightarrow> int option \<Rightarrow> ('c, 'w) CatalogState
    \<Rightarrow> (go_error + TableDataPage) \<times> ('c, 'w) CatalogState" where
  "ListTableData sv admitted p d i offset maximum s =
     (if offset < 0 then (Inl [ErrInvalid], s)
      else if (case maximum of None \<Rightarrow> False | Some v \<Rightarrow> v < 0) then (Inl [ErrInvalid], s)
      else let limit = data_limit sv maximum in
      case SvTableDataReader sv of None \<Rightarrow> (Inl (errors_New ''table data reader is not configured''), s)
      | Some reader \<Rightarrow>
      (case admitted of Some e \<Rightarrow> (Inl e, s)
       | None \<Rightarrow>
       (case getTableLocked sv p d i s of (Inl e, s1) \<Rightarrow> (Inl e, s1)
        | (Inr table, s1) \<Rightarrow>
        (case reader \<lparr>RqReference = \<lparr>DrProjectID = p, DrDatasetID = d, DrTableID = i\<rparr>, RqSchema = CloneFields (TbSchema table), RqOffset = offset,
                RqLimit = limit, RqMaxResponseBytes = SvMaxTableDataResponseBytes sv, RqMaxRowBytes = SvMaxTableDataRowBytes sv\<rparr> (CsStorage s1) of
           Inl e \<Rightarrow> (Inl e, s1)
         | Inr page \<Rightarrow>
           (case validateTableDataPage page offset limit of Some e \<Rightarrow> (Inl e, s1)
            | None \<Rightarrow>
            (case check_budget (PgRows page) (SvMaxTableDataRowBytes sv) (NewAccumulator (SvMaxTableDataResponseBytes sv)) of
               Some e \<Rightarrow> (Inl e, s1)
             | None \<Rightarrow>
               (Inr (page\<lparr>PgSchema := CloneFields (TbSchema table), PgMaxResponseBytes := SvMaxTableDataResponseBytes sv,
                  PgMaxRowBytes := SvMaxTableDataRowBytes sv\<rparr>), s1)))))))"

section \<open>Requests\<close>

datatype CatalogRequest =
    RequestCreateProject Project
  | RequestDeleteProject string
  | RequestCreateDataset Dataset
  | RequestEnsureAnonymousDataset string string string
  | RequestUpdateDataset string string DatasetPatch
  | RequestDeleteDataset string string bool
  | RequestCreateTable Table
  | RequestPublishMaterializedTable Table
  | RequestGetTable string string string
  | RequestListTables string string
  | RequestUpdateTable string string string TablePatch
  | RequestDeleteTable string string string
  | RequestListTableData string string string int "int option"

text \<open>A request and the error it ends with, if it ends with one.\<close>

definition failure :: "(go_error + 'a) \<times> 's \<Rightarrow> go_error option \<times> 's" where
  "failure r = (case r of (Inl e, s) \<Rightarrow> (Some e, s) | (Inr _, s) \<Rightarrow> (None, s))"

fun serve_catalog :: "('c, 'w) CatalogService \<Rightarrow> CatalogRequest \<Rightarrow> ('c, 'w) CatalogState \<Rightarrow> go_error option \<times> ('c, 'w) CatalogState" where
  "serve_catalog sv (RequestCreateProject project) s = failure (CreateProject sv project s)"
| "serve_catalog sv (RequestDeleteProject p) s = DeleteProject sv p s"
| "serve_catalog sv (RequestCreateDataset dataset) s = failure (createDataset sv dataset s)"
| "serve_catalog sv (RequestEnsureAnonymousDataset p d location) s = failure (EnsureAnonymousDataset sv p d location s)"
| "serve_catalog sv (RequestUpdateDataset p d patch) s = failure (UpdateDataset sv p d patch s)"
| "serve_catalog sv (RequestDeleteDataset p d deleteContents) s = DeleteDataset sv p d deleteContents s"
| "serve_catalog sv (RequestCreateTable t) s = failure (catalog_CreateTable sv t s)"
| "serve_catalog sv (RequestPublishMaterializedTable t) s = PublishMaterializedTable sv t s"
| "serve_catalog sv (RequestGetTable p d i) s = failure (catalog_GetTable sv p d i s)"
| "serve_catalog sv (RequestListTables p d) s = failure (listTablesLocked sv p d s)"
| "serve_catalog sv (RequestUpdateTable p d i patch) s = failure (catalog_UpdateTable sv p d i patch s)"
| "serve_catalog sv (RequestDeleteTable p d i) s = catalog_DeleteTable sv p d i s"
| "serve_catalog sv (RequestListTableData p d i offset maximum) s = failure (ListTableData sv None p d i offset maximum s)"

text \<open>A request under the lock: a done context refuses it before it touches anything.\<close>

definition locked :: "go_error option \<Rightarrow> ('s \<Rightarrow> go_error option \<times> 's) \<Rightarrow> 's \<Rightarrow> go_error option \<times> 's" where
  "locked admitted request s = (case admitted of Some e \<Rightarrow> (Some e, s) | None \<Rightarrow> request s)"

fun serve_catalog_all ::
  "('c, 'w) CatalogService \<Rightarrow> (go_error option \<times> CatalogRequest) list \<Rightarrow> ('c, 'w) CatalogState \<Rightarrow> go_error option list \<times> ('c, 'w) CatalogState" where
  "serve_catalog_all sv [] s = ([], s)"
| "serve_catalog_all sv ((admitted, r) # rs) s =
     (case locked admitted (serve_catalog sv r) s of (res, s1) \<Rightarrow> (case serve_catalog_all sv rs s1 of (results, s2) \<Rightarrow> (res # results, s2)))"

end
