(* ===== verification/Catalog_Behaviour.thy ===== *)
theory Catalog_Behaviour
  imports Catalog_Service
begin

text \<open>
  What the catalog service keeps: there is never storage without its metadata, whatever the repository and the warehouse answer, unless a
  compensation was reported to have failed. Proved once over the contract of a repository (\<open>catalog_repository\<close>) and the contract of
  a storage (\<open>catalog_storage\<close>), whose composition with the service is the locale \<open>catalog_service\<close>.
\<close>

section \<open>The contract of the storage\<close>

text \<open>
  The storage is seen as its datasets and its tables, which are told apart by their lower-cased names. A call that fails changes
  neither; dropping a dataset drops its tables.
\<close>

abbreviation folded :: "string \<Rightarrow> string" where
  "folded \<equiv> strings_ToLower"

definition storage_call ::
  "('w \<Rightarrow> 'd set) \<Rightarrow> ('w \<Rightarrow> 't set) \<Rightarrow> ('w \<Rightarrow> go_error option \<times> 'w) \<Rightarrow> ('d set \<Rightarrow> 'd set) \<Rightarrow> ('t set \<Rightarrow> 't set) \<Rightarrow> bool" where
  "storage_call datasets tables call ds ts \<longleftrightarrow>
     (\<forall>w res w'. call w = (res, w') \<longrightarrow>
        (case res of None \<Rightarrow> datasets w' = ds (datasets w) \<and> tables w' = ts (tables w)
         | Some e \<Rightarrow> datasets w' = datasets w \<and> tables w' = tables w))"

locale catalog_storage =
  fixes stg :: "'w CatalogStorage"
    and datasets :: "'w \<Rightarrow> (string \<times> string) set"
    and tables :: "'w \<Rightarrow> (string \<times> string \<times> string) set"
  assumes create_dataset_storage: "storage_call datasets tables (StCreateDataset stg p d) (insert (p, d)) (\<lambda>ts. ts)"
    and drop_dataset_storage:
      "storage_call datasets tables (StDropDataset stg p d) (\<lambda>ds. ds - {(p, d)}) (\<lambda>ts. {x \<in> ts. \<not> (fst x = p \<and> fst (snd x) = d)})"
    and create_table_storage: "storage_call datasets tables (StCreatePlannedTable stg plan t) (\<lambda>ds. ds)
      (insert (TbProjectID t, TbDatasetID t, folded (TbID t)))"
    and additions_storage: "storage_call datasets tables (StApplyPlannedSchemaAdditions stg plan t additions) (\<lambda>ds. ds) (\<lambda>ts. ts)"
    and drop_table_storage: "storage_call datasets tables (StDropTable stg p d i) (\<lambda>ds. ds) (\<lambda>ts. ts - {(p, d, folded i)})"
    and drop_table_not_found: "StDropTable stg p d i w = (Some e, w') \<Longrightarrow> errors_Is e ErrNotFound \<Longrightarrow> (p, d, folded i) \<notin> tables w"

section \<open>The service over both contracts\<close>

definition orphan_free :: "CatalogView \<Rightarrow> (string \<times> string) set \<Rightarrow> (string \<times> string \<times> string) set \<Rightarrow> bool" where
  "orphan_free v ds ts \<longleftrightarrow>
     (\<forall>k \<in> ds. VwDatasets v k \<noteq> None)
     \<and> (\<forall>(p, d, k) \<in> ts. \<exists>i. VwTables v (p, d, i) \<noteq> None \<and> folded i = k)"

lemma orphan_free_table:
  assumes "orphan_free v ds ts" "(p, d, k) \<in> ts"
  obtains i where "VwTables v (p, d, i) \<noteq> None" "folded i = k"
proof -
  have "case (p, d, k) of (p, d, k) \<Rightarrow> \<exists>i. VwTables v (p, d, i) \<noteq> None \<and> folded i = k"
    using assms unfolding orphan_free_def by (elim conjE bspec)
  then show ?thesis using that by (simp only: prod.case) blast
qed

lemma orphan_free_dataset: "orphan_free v ds ts \<Longrightarrow> k \<in> ds \<Longrightarrow> VwDatasets v k \<noteq> None"
  by (simp add: orphan_free_def)

lemma orphan_freeI:
  assumes "\<And>k. k \<in> ds \<Longrightarrow> VwDatasets v k \<noteq> None" "\<And>p d k. (p, d, k) \<in> ts \<Longrightarrow> \<exists>i. VwTables v (p, d, i) \<noteq> None \<and> folded i = k"
  shows "orphan_free v ds ts"
  using assms by (auto simp: orphan_free_def)

lemma orphan_free_insert:
  "orphan_free v ds ts \<Longrightarrow> orphan_free (v\<lparr>VwDatasets := (VwDatasets v)(k \<mapsto> d)\<rparr>) (insert k ds) ts"
  by (simp add: orphan_free_def)

lemma orphan_free_mono:
  assumes "orphan_free v ds ts" "ds' \<subseteq> ds" "ts' \<subseteq> ts"
    and "\<And>k. VwDatasets v k \<noteq> None \<Longrightarrow> VwDatasets v' k \<noteq> None" "\<And>k. VwTables v k \<noteq> None \<Longrightarrow> VwTables v' k \<noteq> None"
  shows "orphan_free v' ds' ts'"
  unfolding orphan_free_def
proof (intro conjI ballI, goal_cases)
  case (1 k)
  then show ?case using assms(1,2,4) unfolding orphan_free_def by blast
next
  case (2 x)
  obtain p d k where x: "x = (p, d, k)" by (cases x)
  then have "(p, d, k) \<in> ts" using assms(3) 2 by blast
  then obtain i where "VwTables v (p, d, i) \<noteq> None" "folded i = k" using orphan_free_table [OF assms(1)] by blast
  then show ?case using assms(5) x by blast
qed

definition compensated :: "go_error \<Rightarrow> bool" where
  "compensated e \<longleftrightarrow> ErrText ''compensate unpublished dataset storage'' \<notin> set e \<and> ErrText ''compensate unpublished table storage'' \<notin> set e"

definition request_listed :: "CatalogRequest \<Rightarrow> bool" where
  "request_listed r \<longleftrightarrow>
     (case r of
        RequestCreateDataset d \<Rightarrow> labels_listed (DsLabels d)
      | RequestCreateTable t \<Rightarrow> labels_listed (TbLabels t)
      | RequestPublishMaterializedTable t \<Rightarrow> labels_listed (TbLabels t)
      | RequestUpdateDataset _ _ patch \<Rightarrow> (case DpLabels patch of None \<Rightarrow> True | Some m \<Rightarrow> labels_listed m)
      | RequestUpdateTable _ _ _ patch \<Rightarrow> (case TpaLabels patch of None \<Rightarrow> True | Some m \<Rightarrow> labels_listed m)
      | _ \<Rightarrow> True)"

locale catalog_service = catalog_repository "SvCatalog sv" ok view + catalog_storage "SvWarehouse sv" datasets tables
  for sv :: "('c, 'w) CatalogService" and ok :: "'c \<Rightarrow> bool" and view :: "'c \<Rightarrow> CatalogView"
    and datasets :: "'w \<Rightarrow> (string \<times> string) set" and tables :: "'w \<Rightarrow> (string \<times> string \<times> string) set"
begin

definition catalog_kept :: "('c, 'w) CatalogState \<Rightarrow> bool" where
  "catalog_kept s \<longleftrightarrow> ok (CsCatalog s) \<and> orphan_free (view (CsCatalog s)) (datasets (CsStorage s)) (tables (CsStorage s))"

abbreviation vw :: "('c, 'w) CatalogState \<Rightarrow> CatalogView" where
  "vw s \<equiv> view (CsCatalog s)"

lemma on_catalog_reads:
  assumes "reads ok view call result gone" "catalog_kept s" "on_catalog call s = (res, s')"
  shows "catalog_kept s'" "vw s' = vw s" "CsStorage s' = CsStorage s" "CsTicks s' = CsTicks s"
    "case res of Inr x \<Rightarrow> result (vw s) x | Inl e \<Rightarrow> errors_Is e ErrNotFound \<longrightarrow> gone (vw s)"
proof -
  obtain c where c: "call (CsCatalog s) = (res, c)" "s' = s\<lparr>CsCatalog := c\<rparr>"
    using assms(3) by (auto simp: on_catalog_def split: prod.splits)
  have "ok c \<and> view c = vw s \<and> (case res of Inr x \<Rightarrow> result (vw s) x | Inl e \<Rightarrow> errors_Is e ErrNotFound \<longrightarrow> gone (vw s))"
    using assms(1,2) c(1) unfolding reads_def catalog_kept_def by blast
  then show "catalog_kept s'" "vw s' = vw s" "CsStorage s' = CsStorage s" "CsTicks s' = CsTicks s"
    "case res of Inr x \<Rightarrow> result (vw s) x | Inl e \<Rightarrow> errors_Is e ErrNotFound \<longrightarrow> gone (vw s)"
    using c(2) assms(2) by (simp_all add: catalog_kept_def)
qed

lemma on_catalog_writes:
  assumes "writes ok view call pre gone change" "ok (CsCatalog s)" "on_catalog call s = (res, s')"
  shows "ok (CsCatalog s')" "CsStorage s' = CsStorage s" "CsTicks s' = CsTicks s"
    "case res of None \<Rightarrow> pre (vw s) \<and> vw s' = change (vw s) | Some e \<Rightarrow> vw s' = vw s \<and> (errors_Is e ErrNotFound \<longrightarrow> gone (vw s))"
  using assms by (auto simp: writes_def on_catalog_def split: prod.splits)

lemma on_storage_call:
  assumes "storage_call datasets tables call ds ts" "on_storage call s = (res, s')"
  shows "CsCatalog s' = CsCatalog s" "CsTicks s' = CsTicks s"
    "case res of None \<Rightarrow> datasets (CsStorage s') = ds (datasets (CsStorage s)) \<and> tables (CsStorage s') = ts (tables (CsStorage s))
     | Some e \<Rightarrow> datasets (CsStorage s') = datasets (CsStorage s) \<and> tables (CsStorage s') = tables (CsStorage s)"
  using assms by (auto simp: storage_call_def on_storage_def split: prod.splits)

lemma clock_keeps:
  assumes "clock_Now sv s = (now, s')"
  shows "catalog_kept s' = catalog_kept s" "CsCatalog s' = CsCatalog s" "CsStorage s' = CsStorage s"
  using assms by (auto simp: clock_Now_def catalog_kept_def)

text \<open>Less storage and more metadata keep the invariant.\<close>

lemma catalog_kept_more:
  assumes "catalog_kept s" "ok (CsCatalog s')" "datasets (CsStorage s') \<subseteq> datasets (CsStorage s)" "tables (CsStorage s') \<subseteq> tables (CsStorage s)"
    and "\<And>k. VwDatasets (vw s) k \<noteq> None \<Longrightarrow> VwDatasets (vw s') k \<noteq> None" "\<And>k. VwTables (vw s) k \<noteq> None \<Longrightarrow> VwTables (vw s') k \<noteq> None"
  shows "catalog_kept s'"
  using assms orphan_free_mono [of "vw s" "datasets (CsStorage s)" "tables (CsStorage s)"] by (simp add: catalog_kept_def)

lemma drop_table_keeps:
  assumes "catalog_kept s" "dropTableStorage sv p d i s = (res, s')"
  shows "catalog_kept s'" "CsCatalog s' = CsCatalog s" "CsTicks s' = CsTicks s" "res = None \<Longrightarrow> (p, d, folded i) \<notin> tables (CsStorage s')"
proof -
  obtain r s1 where call: "on_storage (StDropTable (SvWarehouse sv) p d i) s = (r, s1)" by (cases "on_storage (StDropTable (SvWarehouse sv) p d i) s")
  note c = on_storage_call [OF drop_table_storage call]
  have s': "s' = s1" "res = (case r of None \<Rightarrow> None | Some e \<Rightarrow> if errors_Is e ErrNotFound then None else Some e)"
    using assms(2) call by (auto simp: dropTableStorage_def split: option.splits)
  have missing: "(p, d, folded i) \<notin> tables (CsStorage s)" if "r = Some e" "errors_Is e ErrNotFound" for e
    using drop_table_not_found call that by (auto simp: on_storage_def split: prod.splits)
  show "CsCatalog s' = CsCatalog s" "CsTicks s' = CsTicks s" using c s' by auto
  show "catalog_kept s'"
    using assms(1) c s' by (intro catalog_kept_more [of s s']) (auto simp: catalog_kept_def split: option.splits)
  show "res = None \<Longrightarrow> (p, d, folded i) \<notin> tables (CsStorage s')"
    using c(3) s' missing by (auto split: option.splits if_splits)
qed

lemma delete_table_keeps:
  assumes "catalog_kept s" "(p, d, folded i) \<notin> tables (CsStorage s)" "on_catalog (CrDeleteTable (SvCatalog sv) p d i) s = (res, s')"
  shows "catalog_kept s'"
proof -
  have okc: "ok (CsCatalog s)" and free: "orphan_free (vw s) (datasets (CsStorage s)) (tables (CsStorage s))"
    using assms(1) by (auto simp: catalog_kept_def)
  note c = on_catalog_writes [OF delete_table okc assms(3)]
  have "orphan_free (without_table p d i (vw s)) (datasets (CsStorage s)) (tables (CsStorage s))"
    unfolding orphan_free_def
  proof (intro conjI ballI, goal_cases)
    case (1 k)
    then show ?case using free by (simp add: orphan_free_def without_table_def)
  next
    case (2 x)
    obtain p' d' k where x: "x = (p', d', k)" by (cases x)
    obtain j where "VwTables (vw s) (p', d', j) \<noteq> None" "folded j = k" using orphan_free_table [OF free] 2 x by blast
    moreover have "(p', d', j) \<noteq> (p, d, i)" using assms(2) 2 x \<open>folded j = k\<close> by auto
    ultimately show ?case using x by (auto simp: without_table_def intro!: exI [of _ j])
  qed
  then show ?thesis using c free by (auto simp: catalog_kept_def split: option.splits)
qed

lemma removeExpired_keeps:
  assumes "catalog_kept s" "removeExpiredTableLocked sv p d i s = (res, s')"
  shows "catalog_kept s'"
proof -
  obtain r1 s1 where get: "on_catalog (CrGetTable (SvCatalog sv) p d i) s = (r1, s1)" by (cases "on_catalog (CrGetTable (SvCatalog sv) p d i) s")
  note g = on_catalog_reads [OF get_table assms(1) get]
  show ?thesis
  proof (cases r1)
    case (Inl e)
    then show ?thesis using assms(2) g get by (auto simp: removeExpiredTableLocked_def split: if_splits)
  next
    case (Inr t)
    obtain now s2 where now: "clock_Now sv s1 = (now, s2)" by (cases "clock_Now sv s1")
    have s2: "catalog_kept s2" using clock_keeps [OF now] g by simp
    obtain r3 s3 where drp: "dropTableStorage sv p d i s2 = (r3, s3)" by (cases "dropTableStorage sv p d i s2")
    obtain r4 s4 where del: "on_catalog (CrDeleteTable (SvCatalog sv) p d i) s3 = (r4, s4)"
      by (cases "on_catalog (CrDeleteTable (SvCatalog sv) p d i) s3")
    note d3 = drop_table_keeps [OF s2 drp]
    have "r3 = None \<Longrightarrow> catalog_kept s4" using delete_table_keeps [OF d3(1) _ del] d3(4) by blast
    then show ?thesis
      using assms(2) get Inr now s2 drp del d3(1) by (auto simp: removeExpiredTableLocked_def split: if_splits option.splits)
  qed
qed

lemma getTable_keeps:
  assumes "catalog_kept s" "getTableLocked sv p d i s = (res, s')"
  shows "catalog_kept s'"
proof -
  obtain r1 s1 where get: "on_catalog (CrGetTable (SvCatalog sv) p d i) s = (r1, s1)" by (cases "on_catalog (CrGetTable (SvCatalog sv) p d i) s")
  obtain now s2 where now: "clock_Now sv s1 = (now, s2)" by (cases "clock_Now sv s1")
  have s2: "catalog_kept s1" "catalog_kept s2" using on_catalog_reads(1) [OF get_table assms(1) get] clock_keeps [OF now] by simp_all
  obtain r3 s3 where rem: "removeExpiredTableLocked sv p d i s2 = (r3, s3)" by (cases "removeExpiredTableLocked sv p d i s2")
  have s3: "catalog_kept s3" by (rule removeExpired_keeps [OF s2(2) rem])
  obtain r4 s4 where again: "on_catalog (CrGetTable (SvCatalog sv) p d i) s3 = (r4, s4)" by (cases "on_catalog (CrGetTable (SvCatalog sv) p d i) s3")
  have s4: "catalog_kept s4" by (rule on_catalog_reads(1) [OF get_table s3 again])
  show ?thesis using assms(2) get now rem again s2 s3 s4 by (auto simp: getTableLocked_def split: sum.splits if_splits)
qed

lemma live_tables_keeps: "catalog_kept s \<Longrightarrow> live_tables sv ts s = (res, s') \<Longrightarrow> catalog_kept s'"
proof (induction ts arbitrary: s res s')
  case (Cons t ts)
  let ?rem = "removeExpiredTableLocked sv (TbProjectID t) (TbDatasetID t) (TbID t)"
  let ?get = "on_catalog (CrGetTable (SvCatalog sv) (TbProjectID t) (TbDatasetID t) (TbID t))"
  obtain now s1 where now: "clock_Now sv s = (now, s1)" by (cases "clock_Now sv s")
  have s1: "catalog_kept s1" using clock_keeps [OF now] Cons.prems(1) by simp
  obtain r2 s2 where rem: "?rem s1 = (r2, s2)" by (cases "?rem s1")
  have s2: "catalog_kept s2" by (rule removeExpired_keeps [OF s1 rem])
  obtain r3 s3 where get: "?get s2 = (r3, s3)" by (cases "?get s2")
  have s3: "catalog_kept s3" by (rule on_catalog_reads(1) [OF get_table s2 get])
  obtain ra sa rb sb rc sc where
    rest: "live_tables sv ts s1 = (ra, sa)" "live_tables sv ts s2 = (rb, sb)" "live_tables sv ts s3 = (rc, sc)" by (meson surj_pair)
  have "catalog_kept sa" "catalog_kept sb" "catalog_kept sc"
    using Cons.IH [OF s1 rest(1)] Cons.IH [OF s2 rest(2)] Cons.IH [OF s3 rest(3)] by simp_all
  then show ?case using Cons.prems(2) now rem get rest s2 s3 by (auto split: sum.splits if_splits)
qed simp

lemma listTables_keeps:
  assumes "catalog_kept s" "listTablesLocked sv p d s = (res, s')"
  shows "catalog_kept s'"
proof -
  obtain r1 s1 where lst: "on_catalog (CrListTables (SvCatalog sv) p d) s = (r1, s1)" by (cases "on_catalog (CrListTables (SvCatalog sv) p d) s")
  have s1: "catalog_kept s1" by (rule on_catalog_reads(1) [OF list_tables assms(1) lst])
  show ?thesis
  proof (cases r1)
    case (Inr ts)
    then show ?thesis using assms(2) lst live_tables_keeps [OF s1] by (simp add: listTablesLocked_def)
  qed (use assms(2) lst s1 in \<open>simp add: listTablesLocked_def\<close>)
qed

lemma project_writes_keep:
  assumes "catalog_kept s" "project_ok project" "on_catalog (CrCreateProject (SvCatalog sv) project) s = (res, s')"
  shows "catalog_kept s'"
proof -
  have okc: "ok (CsCatalog s)" using assms(1) by (simp add: catalog_kept_def)
  note c = on_catalog_writes [OF create_project [OF assms(2)] okc assms(3)]
  show ?thesis using c by (intro catalog_kept_more [OF assms(1)]) (auto simp: put_project_def split: option.splits)
qed

lemma CreateProject_keeps:
  assumes "catalog_kept s" "CreateProject sv project s = (res, s')"
  shows "catalog_kept s'"
proof (cases "Project_Validate project")
  case None
  obtain now s1 where now: "clock_Now sv s = (now, s1)" by (cases "clock_Now sv s")
  let ?p = "project\<lparr>PrCreatedAt := now, PrUpdatedAt := now\<rparr>"
  obtain r2 s2 where put: "on_catalog (CrCreateProject (SvCatalog sv) ?p) s1 = (r2, s2)" by (cases "on_catalog (CrCreateProject (SvCatalog sv) ?p) s1")
  have "project_ok ?p" using None by (simp add: project_ok_def Project_Validate_def)
  then have "catalog_kept s2" using project_writes_keep [OF _ _ put] clock_keeps [OF now] assms(1) by simp
  then show ?thesis using assms(2) None now put by (auto simp: CreateProject_def split: option.splits)
qed (use assms in \<open>simp add: CreateProject_def\<close>)

lemma drop_datasets_effect:
  "drop_datasets sv p ds s = (res, s') \<Longrightarrow>
     CsCatalog s' = CsCatalog s
     \<and> datasets (CsStorage s') \<subseteq> datasets (CsStorage s) \<and> tables (CsStorage s') \<subseteq> tables (CsStorage s)
     \<and> (res = None \<longrightarrow> (\<forall>d k. d \<in> set ds \<longrightarrow> (p, DsID d) \<notin> datasets (CsStorage s') \<and> (p, DsID d, k) \<notin> tables (CsStorage s')))"
proof (induction ds arbitrary: s)
  case (Cons e ds)
  obtain r1 s1 where drp: "on_storage (StDropDataset (SvWarehouse sv) p (DsID e)) s = (r1, s1)"
    by (cases "on_storage (StDropDataset (SvWarehouse sv) p (DsID e)) s")
  note c = on_storage_call [OF drop_dataset_storage drp]
  show ?case
  proof (cases r1)
    case None
    then have ih: "drop_datasets sv p ds s1 = (res, s')" using Cons.prems drp by simp
    show ?thesis using Cons.IH [OF ih] c None by auto
  next
    case (Some x)
    then show ?thesis using Cons.prems drp c by auto
  qed
qed auto

lemma DeleteProject_keeps:
  assumes "catalog_kept s" "DeleteProject sv p s = (res, s')"
  shows "catalog_kept s'"
proof -
  obtain r1 s1 where lst: "on_catalog (CrListDatasets (SvCatalog sv) p) s = (r1, s1)" by (cases "on_catalog (CrListDatasets (SvCatalog sv) p) s")
  note l = on_catalog_reads [OF list_datasets assms(1) lst]
  show ?thesis
  proof (cases r1)
    case (Inl e)
    then show ?thesis using assms(2) lst l(1) by (simp add: DeleteProject_def)
  next
    case (Inr ds)
    obtain r2 s2 where drp: "drop_datasets sv p ds s1 = (r2, s2)" by (cases "drop_datasets sv p ds s1")
    note d = drop_datasets_effect [OF drp, THEN conjunct1] drop_datasets_effect [OF drp, THEN conjunct2, THEN conjunct1]
      drop_datasets_effect [OF drp, THEN conjunct2, THEN conjunct2, THEN conjunct1]
      drop_datasets_effect [OF drp, THEN conjunct2, THEN conjunct2, THEN conjunct2, rule_format]
    have s2: "catalog_kept s2" using d(1-3) l(1) by (intro catalog_kept_more [OF l(1)]) (auto simp: catalog_kept_def)
    then have okc: "ok (CsCatalog s2)" and free: "orphan_free (vw s2) (datasets (CsStorage s2)) (tables (CsStorage s2))"
      by (simp_all add: catalog_kept_def)
    have listed: "\<exists>x \<in> set ds. DsID x = d" if some: "VwDatasets (vw s2) (p, d) \<noteq> None" for d
    proof -
      obtain x where x: "VwDatasets (vw s2) (p, d) = Some x" using some by blast
      then have "x \<in> set ds" using l(2,5) d(1) Inr by (auto simp: listing_def)
      moreover have "DsID x = d" using view_ok [OF okc] x by (auto simp: catalog_ok_def)
      ultimately show ?thesis by blast
    qed
    obtain r3 s3 where del: "on_catalog (CrDeleteProject (SvCatalog sv) p) s2 = (r3, s3)" by (cases "on_catalog (CrDeleteProject (SvCatalog sv) p) s2")
    note w = on_catalog_writes [OF delete_project okc del]
    have "catalog_kept s3" if none: "r2 = None"
    proof -
      have "orphan_free (without_project p (vw s2)) (datasets (CsStorage s2)) (tables (CsStorage s2))"
      proof (rule orphan_freeI)
        fix k assume k: "k \<in> datasets (CsStorage s2)"
        obtain q e where ke: "k = (q, e)" by (cases k)
        have some: "VwDatasets (vw s2) (q, e) \<noteq> None" using orphan_free_dataset [OF free k] ke by simp
        have "q \<noteq> p" using listed [of e] d(4) [OF none] some k ke by blast
        then show "VwDatasets (without_project p (vw s2)) k \<noteq> None" using some ke by (simp add: without_project_def)
      next
        fix q e k assume k: "(q, e, k) \<in> tables (CsStorage s2)"
        obtain i where i: "VwTables (vw s2) (q, e, i) \<noteq> None" "folded i = k" using orphan_free_table [OF free k] .
        then have "VwDatasets (vw s2) (q, e) \<noteq> None" using view_ok [OF okc] unfolding catalog_ok_def by blast
        then have "q \<noteq> p" using listed [of e] d(4) [OF none] k by blast
        then show "\<exists>i. VwTables (without_project p (vw s2)) (q, e, i) \<noteq> None \<and> folded i = k"
          using i by (auto simp: without_project_def)
      qed
      then show ?thesis using w free by (auto simp: catalog_kept_def split: option.splits)
    qed
    then show ?thesis using assms(2) lst Inr drp del s2 by (auto simp: DeleteProject_def split: option.splits)
  qed
qed

lemma publish_dataset_keeps:
  assumes "catalog_kept s" "dataset_ok ds" "publish_dataset sv ds s = (res, s')" "\<And>e. res = Inl e \<Longrightarrow> compensated e"
    and absent: "VwDatasets (vw s) (dataset_id ds) = None"
  shows "catalog_kept s'"
proof -
  have okc: "ok (CsCatalog s)" and free: "orphan_free (vw s) (datasets (CsStorage s)) (tables (CsStorage s))"
    using assms(1) by (simp_all add: catalog_kept_def)
  obtain r1 s1 where cre: "on_storage (StCreateDataset (SvWarehouse sv) (DsProjectID ds) (DsID ds)) s = (r1, s1)"
    by (cases "on_storage (StCreateDataset (SvWarehouse sv) (DsProjectID ds) (DsID ds)) s")
  note c1 = on_storage_call [OF create_dataset_storage cre]
  have ok1: "ok (CsCatalog s1)" using okc c1 by simp
  obtain r2 s2 where put: "on_catalog (CrCreateDataset (SvCatalog sv) ds) s1 = (r2, s2)" by (cases "on_catalog (CrCreateDataset (SvCatalog sv) ds) s1")
  note c2 = on_catalog_writes [OF create_dataset [OF assms(2)] ok1 put]
  obtain r3 s3 where drp: "on_storage (StDropDataset (SvWarehouse sv) (DsProjectID ds) (DsID ds)) s2 = (r3, s3)"
    by (cases "on_storage (StDropDataset (SvWarehouse sv) (DsProjectID ds) (DsID ds)) s2")
  note c3 = on_storage_call [OF drop_dataset_storage drp]
  have failed: "catalog_kept s1" if "r1 = Some e" for e
    using c1 that by (intro catalog_kept_more [OF assms(1)]) (auto simp: okc)
  have published: "catalog_kept s2" if "r1 = None" "r2 = None"
  proof -
    have "orphan_free (put_dataset ds (vw s)) (insert (dataset_id ds) (datasets (CsStorage s))) (tables (CsStorage s))"
      by (rule orphan_free_mono [OF orphan_free_insert [OF free]]) (auto simp: put_dataset_def)
    then show ?thesis using that c1 c2 by (simp add: catalog_kept_def)
  qed
  have dropped: "catalog_kept s3" if "r1 = None" "r2 = Some e" "r3 = None" for e
    using that c1 c2 c3 by (intro catalog_kept_more [OF assms(1)]) auto
  have "r3 = None" if "r1 = None" "r2 = Some e" for e
    using assms(3,4) that cre put drp by (cases r3) (auto simp: publish_dataset_def compensated_def compensate_dataset_def)
  then show ?thesis
    using assms(3) cre put drp failed published dropped by (cases r1; cases r2) (auto simp: publish_dataset_def)
qed

lemma createDataset_keeps:
  assumes "catalog_kept s" "labels_listed (DsLabels ds)" "createDataset sv ds s = (res, s')" "\<And>e. res = Inl e \<Longrightarrow> compensated e"
  shows "catalog_kept s'"
proof (cases "Dataset_Validate ds")
  case None
  obtain r1 s1 where pro: "on_catalog (CrGetProject (SvCatalog sv) (DsProjectID ds)) s = (r1, s1)"
    by (cases "on_catalog (CrGetProject (SvCatalog sv) (DsProjectID ds)) s")
  note c1 = on_catalog_reads [OF get_project assms(1) pro]
  obtain r2 s2 where get: "on_catalog (CrGetDataset (SvCatalog sv) (DsProjectID ds) (DsID ds)) s1 = (r2, s2)"
    by (cases "on_catalog (CrGetDataset (SvCatalog sv) (DsProjectID ds) (DsID ds)) s1")
  note c2 = on_catalog_reads [OF get_dataset c1(1) get]
  obtain now s3 where now: "clock_Now sv s2 = (now, s3)" by (cases "clock_Now sv s2")
  let ?d = "ds\<lparr>DsLocation := (if DsLocation ds = [] then SvDefaultLocation sv else DsLocation ds), DsCreatedAt := now, DsUpdatedAt := now\<rparr>"
  have ok: "dataset_ok ?d" using None assms(2) by (auto simp: dataset_ok_def Dataset_Validate_def split: if_splits)
  have pub: "catalog_kept s'" if "publish_dataset sv ?d s3 = (res, s')" "r2 = Inl e" "errors_Is e ErrNotFound" for e
    using publish_dataset_keeps [OF _ ok that(1)] assms(4) c2 clock_keeps [OF now] that(2,3) by simp
  show ?thesis
    using assms(3) None pro get now c1(1) c2(1) pub by (auto simp: createDataset_def simp del: if_split split: sum.splits if_splits)
qed (use assms in \<open>simp add: createDataset_def\<close>)

lemma EnsureAnonymousDataset_keeps:
  assumes "catalog_kept s" "EnsureAnonymousDataset sv p d location s = (res, s')" "\<And>e. res = Inl e \<Longrightarrow> compensated e"
  shows "catalog_kept s'"
proof -
  obtain r1 s1 where get: "on_catalog (CrGetDataset (SvCatalog sv) p d) s = (r1, s1)" by (cases "on_catalog (CrGetDataset (SvCatalog sv) p d) s")
  have s1: "catalog_kept s1" by (rule on_catalog_reads(1) [OF get_dataset assms(1) get])
  show ?thesis
  proof (cases "\<exists>e. r1 = Inl e \<and> errors_Is e ErrNotFound")
    case True
    then show ?thesis using assms(2,3) get by (auto simp: EnsureAnonymousDataset_def labels_listed_def intro: createDataset_keeps [OF s1, rotated])
  qed (use assms(2) get s1 in \<open>auto simp: EnsureAnonymousDataset_def split: sum.splits if_splits\<close>)
qed

lemma DeleteDataset_keeps:
  assumes "catalog_kept s" "DeleteDataset sv p d deleteContents s = (res, s')"
  shows "catalog_kept s'"
proof -
  obtain r1 s1 where get: "on_catalog (CrGetDataset (SvCatalog sv) p d) s = (r1, s1)" by (cases "on_catalog (CrGetDataset (SvCatalog sv) p d) s")
  have s1: "catalog_kept s1" by (rule on_catalog_reads(1) [OF get_dataset assms(1) get])
  obtain r2 s2 where lst: "listTablesLocked sv p d s1 = (r2, s2)" by (cases "listTablesLocked sv p d s1")
  have s2: "catalog_kept s2" by (rule listTables_keeps [OF s1 lst])
  obtain r3 s3 where drp: "on_storage (StDropDataset (SvWarehouse sv) p d) s2 = (r3, s3)" by (cases "on_storage (StDropDataset (SvWarehouse sv) p d) s2")
  note c3 = on_storage_call [OF drop_dataset_storage drp]
  have s3: "catalog_kept s3" using c3 s2 by (intro catalog_kept_more [OF s2]) (auto simp: catalog_kept_def split: option.splits)
  then have ok3: "ok (CsCatalog s3)" and free: "orphan_free (vw s3) (datasets (CsStorage s3)) (tables (CsStorage s3))"
    by (simp_all add: catalog_kept_def)
  obtain r4 s4 where del: "on_catalog (CrDeleteDataset (SvCatalog sv) p d) s3 = (r4, s4)" by (cases "on_catalog (CrDeleteDataset (SvCatalog sv) p d) s3")
  note c4 = on_catalog_writes [OF delete_dataset ok3 del]
  have "catalog_kept s4" if "r3 = None"
  proof -
    have gone: "(p, d) \<notin> datasets (CsStorage s3)" "(p, d, k) \<notin> tables (CsStorage s3)" for k using c3(3) that by auto
    have "orphan_free (without_dataset p d (vw s3)) (datasets (CsStorage s3)) (tables (CsStorage s3))"
    proof (rule orphan_freeI)
      fix k assume "k \<in> datasets (CsStorage s3)"
      then show "VwDatasets (without_dataset p d (vw s3)) k \<noteq> None"
        using gone(1) orphan_free_dataset [OF free] by (auto simp: without_dataset_def)
    next
      fix q e k assume k: "(q, e, k) \<in> tables (CsStorage s3)"
      obtain i where i: "VwTables (vw s3) (q, e, i) \<noteq> None" "folded i = k" using orphan_free_table [OF free k] .
      have "\<not> (q = p \<and> e = d)" using gone(2) k by blast
      then show "\<exists>i. VwTables (without_dataset p d (vw s3)) (q, e, i) \<noteq> None \<and> folded i = k"
        using i by (intro exI [of _ i]) (auto simp: without_dataset_def)
    qed
    then show ?thesis using c4 free by (auto simp: catalog_kept_def split: option.splits)
  qed
  then show ?thesis using assms(2) get lst drp del s1 s2 s3 by (auto simp: DeleteDataset_def split: sum.splits if_splits option.splits)
qed

lemma clear_expired_keeps:
  assumes "catalog_kept s" "clear_expired sv t s = (res, s')"
  shows "catalog_kept s'"
proof -
  let ?get = "on_catalog (CrGetTable (SvCatalog sv) (TbProjectID t) (TbDatasetID t) (TbID t))"
  let ?rem = "removeExpiredTableLocked sv (TbProjectID t) (TbDatasetID t) (TbID t)"
  obtain r1 s1 where get: "?get s = (r1, s1)" by (cases "?get s")
  obtain now s2 where now: "clock_Now sv s1 = (now, s2)" by (cases "clock_Now sv s1")
  have s2: "catalog_kept s1" "catalog_kept s2" using on_catalog_reads(1) [OF get_table assms(1) get] clock_keeps [OF now] by simp_all
  obtain r3 s3 where rem: "?rem s2 = (r3, s3)" by (cases "?rem s2")
  have s3: "catalog_kept s3" by (rule removeExpired_keeps [OF s2(2) rem])
  show ?thesis using assms(2) get now rem s2 s3 by (auto simp: clear_expired_def split: sum.splits if_splits)
qed

lemma create_table_keeps:
  assumes "catalog_kept s" "table_ok t" "on_catalog (CrCreateTable (SvCatalog sv) t) s = (res, s')"
  shows "catalog_kept s'"
proof -
  have okc: "ok (CsCatalog s)" using assms(1) by (simp add: catalog_kept_def)
  note c = on_catalog_writes [OF create_table [OF assms(2)] okc assms(3)]
  show ?thesis using c by (intro catalog_kept_more [OF assms(1)]) (auto simp: put_table_def split: option.splits)
qed

lemma publish_table_keeps:
  assumes "catalog_kept s" "table_ok t" "publish_table sv plan t s = (res, s')" "\<And>e. res = Inl e \<Longrightarrow> compensated e"
  shows "catalog_kept s'"
proof -
  have okc: "ok (CsCatalog s)" and free: "orphan_free (vw s) (datasets (CsStorage s)) (tables (CsStorage s))"
    using assms(1) by (simp_all add: catalog_kept_def)
  let ?key = "(TbProjectID t, TbDatasetID t, folded (TbID t))"
  obtain r1 s1 where cre: "on_storage (StCreatePlannedTable (SvWarehouse sv) plan t) s = (r1, s1)"
    by (cases "on_storage (StCreatePlannedTable (SvWarehouse sv) plan t) s")
  note c1 = on_storage_call [OF create_table_storage cre]
  have ok1: "ok (CsCatalog s1)" using okc c1 by simp
  obtain r2 s2 where put: "on_catalog (CrCreateTable (SvCatalog sv) t) s1 = (r2, s2)" by (cases "on_catalog (CrCreateTable (SvCatalog sv) t) s1")
  note c2 = on_catalog_writes [OF create_table [OF assms(2)] ok1 put]
  let ?drop = "on_storage (StDropTable (SvWarehouse sv) (TbProjectID t) (TbDatasetID t) (TbID t))"
  obtain r3 s3 where drp: "?drop s2 = (r3, s3)" by (cases "?drop s2")
  note c3 = on_storage_call [OF drop_table_storage drp]
  have failed: "catalog_kept s1" if "r1 = Some e" for e
    using c1 that by (intro catalog_kept_more [OF assms(1)]) (auto simp: okc)
  have published: "catalog_kept s2" if "r1 = None" "r2 = None"
  proof -
    have "orphan_free (put_table t (vw s)) (datasets (CsStorage s)) (insert ?key (tables (CsStorage s)))"
    proof (rule orphan_freeI)
      fix q e k assume k: "(q, e, k) \<in> insert ?key (tables (CsStorage s))"
      show "\<exists>i. VwTables (put_table t (vw s)) (q, e, i) \<noteq> None \<and> folded i = k"
      proof (cases "(q, e, k) = ?key")
        case False
        then obtain i where "VwTables (vw s) (q, e, i) \<noteq> None" "folded i = k" using orphan_free_table [OF free] k by blast
        then show ?thesis by (intro exI [of _ i]) (simp add: put_table_def)
      qed (auto simp: put_table_def)
    qed (use free in \<open>simp add: put_table_def orphan_free_dataset\<close>)
    then show ?thesis using that c1 c2 by (simp add: catalog_kept_def)
  qed
  have dropped: "catalog_kept s3" if "r1 = None" "r2 = Some e" "r3 = None" for e
    using that c1 c2 c3 by (intro catalog_kept_more [OF assms(1)]) auto
  have "r3 = None" if "r1 = None" "r2 = Some e" for e
    using assms(3,4) that cre put drp by (cases r3) (auto simp: publish_table_def compensated_def compensate_table_def)
  then show ?thesis
    using assms(3) cre put drp failed published dropped by (cases r1; cases r2) (auto simp: publish_table_def)
qed

lemma Table_Validate_same:
  "TbProjectID u = TbProjectID t \<Longrightarrow> TbDatasetID u = TbDatasetID t \<Longrightarrow> TbID u = TbID t \<Longrightarrow> TbSchema u = TbSchema t
    \<Longrightarrow> Table_Validate u = Table_Validate t"
  by (simp add: Table_Validate_def)

lemma table_ok_same:
  "table_ok t \<Longrightarrow> TbProjectID u = TbProjectID t \<Longrightarrow> TbDatasetID u = TbDatasetID t \<Longrightarrow> TbID u = TbID t \<Longrightarrow> TbSchema u = TbSchema t
    \<Longrightarrow> TbLabels u = TbLabels t \<Longrightarrow> table_ok u"
  using Table_Validate_same [of u t] by (simp add: table_ok_def)

lemma table_ok_times: "table_ok t \<Longrightarrow> table_ok (t\<lparr>TbType := y, TbLocation := l, TbCreatedAt := a, TbUpdatedAt := b\<rparr>)"
  by (erule table_ok_same) simp_all

lemma table_defaults_ok: "table_ok t \<Longrightarrow> table_ok (table_defaults dataset now t)"
  by (erule table_ok_same) (simp_all add: table_defaults_def)

lemma CreateTable_keeps:
  assumes "catalog_kept s" "labels_listed (TbLabels t)" "catalog_CreateTable sv t s = (res, s')" "\<And>e. res = Inl e \<Longrightarrow> compensated e"
  shows "catalog_kept s'"
proof (cases "Table_Validate t = None \<and> (\<exists>plan. planEngineSchema (SvWarehouse sv) (create_descriptor SchemaOperationCreate t) = Inr plan)")
  case True
  then obtain plan where valid: "Table_Validate t = None" and plan: "planEngineSchema (SvWarehouse sv) (create_descriptor SchemaOperationCreate t) = Inr plan"
    by blast
  have ok: "table_ok t" using valid assms(2) by (simp add: table_ok_def)
  let ?get = "on_catalog (CrGetDataset (SvCatalog sv) (TbProjectID t) (TbDatasetID t))"
  obtain r1 s1 where get: "?get s = (r1, s1)" by (cases "?get s")
  have s1: "catalog_kept s1" by (rule on_catalog_reads(1) [OF get_dataset assms(1) get])
  obtain r2 s2 where clr: "clear_expired sv t s1 = (r2, s2)" by (cases "clear_expired sv t s1")
  have s2: "catalog_kept s2" by (rule clear_expired_keeps [OF s1 clr])
  obtain now s3 where now: "clock_Now sv s2 = (now, s3)" by (cases "clock_Now sv s2")
  have s3: "catalog_kept s3" using s2 clock_keeps [OF now] by simp
  have pub: "catalog_kept s'" if "publish_table sv plan (table_defaults dataset now t) s3 = (res, s')" for dataset
    by (rule publish_table_keeps [OF s3 table_defaults_ok [OF ok] that assms(4)])
  show ?thesis using assms(3) valid plan get clr now s1 s2 pub by (auto simp: catalog_CreateTable_def split: sum.splits option.splits)
qed (use assms(1,3) in \<open>auto simp: catalog_CreateTable_def split: sum.splits option.splits\<close>)

lemma PublishMaterializedTable_keeps:
  assumes "catalog_kept s" "labels_listed (TbLabels t)" "PublishMaterializedTable sv t s = (res, s')"
  shows "catalog_kept s'"
proof (cases "Table_Validate t = None \<and> (\<exists>plan. planEngineSchema (SvWarehouse sv) (create_descriptor SchemaOperationValidate t) = Inr plan)")
  case True
  then obtain plan where valid: "Table_Validate t = None" and plan: "planEngineSchema (SvWarehouse sv) (create_descriptor SchemaOperationValidate t) = Inr plan"
    by blast
  have ok: "table_ok t" using valid assms(2) by (simp add: table_ok_def)
  let ?get = "on_catalog (CrGetDataset (SvCatalog sv) (TbProjectID t) (TbDatasetID t))"
  obtain r1 s1 where get: "?get s = (r1, s1)" by (cases "?get s")
  have s1: "catalog_kept s1" by (rule on_catalog_reads(1) [OF get_dataset assms(1) get])
  obtain r2 s2 where clr: "clear_expired sv t s1 = (r2, s2)" by (cases "clear_expired sv t s1")
  have s2: "catalog_kept s2" by (rule clear_expired_keeps [OF s1 clr])
  obtain now s3 where now: "clock_Now sv s2 = (now, s3)" by (cases "clock_Now sv s2")
  have s3: "catalog_kept s3" using s2 clock_keeps [OF now] by simp
  have put: "catalog_kept s'"
    if "on_catalog (CrCreateTable (SvCatalog sv) (t\<lparr>TbType := ''TABLE'', TbLocation := l, TbCreatedAt := now, TbUpdatedAt := now\<rparr>)) s3 = (res, s')" for l
    by (rule create_table_keeps [OF s3 table_ok_times [OF ok] that])
  show ?thesis using assms(3) valid plan get clr now s1 s2 put by (auto simp: PublishMaterializedTable_def split: sum.splits option.splits)
qed (use assms(1,3) in \<open>auto simp: PublishMaterializedTable_def split: sum.splits option.splits\<close>)

lemma DeleteTable_keeps:
  assumes "catalog_kept s" "catalog_DeleteTable sv p d i s = (res, s')"
  shows "catalog_kept s'"
proof -
  obtain r1 s1 where get: "on_catalog (CrGetTable (SvCatalog sv) p d i) s = (r1, s1)" by (cases "on_catalog (CrGetTable (SvCatalog sv) p d i) s")
  have s1: "catalog_kept s1" by (rule on_catalog_reads(1) [OF get_table assms(1) get])
  obtain r2 s2 where drp: "dropTableStorage sv p d i s1 = (r2, s2)" by (cases "dropTableStorage sv p d i s1")
  note c2 = drop_table_keeps [OF s1 drp]
  obtain r3 s3 where del: "on_catalog (CrDeleteTable (SvCatalog sv) p d i) s2 = (r3, s3)" by (cases "on_catalog (CrDeleteTable (SvCatalog sv) p d i) s2")
  have "r2 = None \<Longrightarrow> catalog_kept s3" using delete_table_keeps [OF c2(1) _ del] c2(4) by blast
  then show ?thesis using assms(2) get drp del s1 c2(1) by (auto simp: catalog_DeleteTable_def split: sum.splits option.splits)
qed

lemma updates_keep:
  assumes "catalog_kept s"
  shows "dataset_ok ds \<Longrightarrow> on_catalog (CrUpdateDataset (SvCatalog sv) ds) s = (res, s') \<Longrightarrow> catalog_kept s'"
    and "table_ok t \<Longrightarrow> on_catalog (CrUpdateTable (SvCatalog sv) t) s = (res, s') \<Longrightarrow> catalog_kept s'"
proof -
  have okc: "ok (CsCatalog s)" using assms by (simp add: catalog_kept_def)
  show "catalog_kept s'" if "dataset_ok ds" "on_catalog (CrUpdateDataset (SvCatalog sv) ds) s = (res, s')"
    using on_catalog_writes [OF update_dataset [OF that(1)] okc that(2)]
    by (intro catalog_kept_more [OF assms]) (auto simp: put_dataset_def split: option.splits)
  show "catalog_kept s'" if "table_ok t" "on_catalog (CrUpdateTable (SvCatalog sv) t) s = (res, s')"
    using on_catalog_writes [OF update_table [OF that(1)] okc that(2)]
    by (intro catalog_kept_more [OF assms]) (auto simp: put_table_def split: option.splits)
qed

lemma UpdateDataset_keeps:
  assumes "catalog_kept s" "case DpLabels patch of None \<Rightarrow> True | Some m \<Rightarrow> labels_listed m" "UpdateDataset sv p d patch s = (res, s')"
  shows "catalog_kept s'"
proof -
  obtain r1 s1 where get: "on_catalog (CrGetDataset (SvCatalog sv) p d) s = (r1, s1)" by (cases "on_catalog (CrGetDataset (SvCatalog sv) p d) s")
  note c1 = on_catalog_reads [OF get_dataset assms(1) get]
  obtain now s2 where now: "clock_Now sv s1 = (now, s2)" by (cases "clock_Now sv s1")
  have s2: "catalog_kept s2" using c1(1) clock_keeps [OF now] by simp
  show ?thesis
  proof (cases r1)
    case (Inl e)
    then show ?thesis using assms(3) get c1(1) by (simp add: UpdateDataset_def)
  next
    case (Inr ds)
    let ?d = "ds\<lparr>DsFriendlyName := patched (DpFriendlyName patch) (DsFriendlyName ds), DsDescription := patched (DpDescription patch) (DsDescription ds),
      DsLabels := patched (DpLabels patch) (DsLabels ds),
      DefaultTableExpirationMs := patched (DpTableExpirationMs patch) (DefaultTableExpirationMs ds),
      DefaultPartitionExpirationMs := patched (DpPartitionExpirationMs patch) (DefaultPartitionExpirationMs ds)\<rparr>"
    have "VwDatasets (vw s) (p, d) = Some ds" using c1(5) Inr by simp
    then have "labels_listed (DsLabels ds)" using view_ok assms(1) unfolding catalog_kept_def catalog_ok_def dataset_ok_def by blast
    then have listed: "labels_listed (DsLabels (?d\<lparr>DsUpdatedAt := now\<rparr>))" using assms(2) by (simp add: patched_def split: option.splits)
    have ok: "dataset_ok (?d\<lparr>DsUpdatedAt := now\<rparr>)" if "Dataset_Validate ?d = None"
      using listed that by (simp add: dataset_ok_def Dataset_Validate_def split: if_splits)
    obtain r3 s3 where put: "on_catalog (CrUpdateDataset (SvCatalog sv) (?d\<lparr>DsUpdatedAt := now\<rparr>)) s2 = (r3, s3)"
      by (cases "on_catalog (CrUpdateDataset (SvCatalog sv) (?d\<lparr>DsUpdatedAt := now\<rparr>)) s2")
    have s3: "catalog_kept s3" if "Dataset_Validate ?d = None" by (rule updates_keep(1) [OF s2 ok [OF that] put])
    show ?thesis
    proof (cases "Dataset_Validate ?d")
      case None
      have "UpdateDataset sv p d patch s = (case r3 of Some e \<Rightarrow> (Inl e, s3) | None \<Rightarrow> (Inr (?d\<lparr>DsUpdatedAt := now\<rparr>), s3))"
        unfolding UpdateDataset_def Let_def get prod.case Inr sum.case None option.case now put by (simp split: option.splits)
      then show ?thesis using s3 [OF None] assms(3) by (cases r3) simp_all
    next
      case (Some e)
      have "UpdateDataset sv p d patch s = (Inl e, s1)"
        unfolding UpdateDataset_def Let_def get prod.case Inr sum.case Some option.case by simp
      then show ?thesis using c1(1) assms(3) by simp
    qed
  qed
qed

lemma patch_table_ok:
  assumes "patch_table patch t = Inr (u, additions)" "labels_listed (TbLabels t)"
    and "case TpaLabels patch of None \<Rightarrow> True | Some m \<Rightarrow> labels_listed m"
  shows "table_ok u"
  using assms by (auto simp: patch_table_def table_ok_def patched_def Let_def split: sum.splits option.splits)

lemma apply_patch_additions_keeps:
  assumes "catalog_kept s" "apply_patch_additions sv plan t additions s = (res, s')"
  shows "catalog_kept s'"
proof (cases "\<exists>pl. plan = Some pl \<and> additions \<noteq> []")
  case True
  then obtain pl where pl: "plan = Some pl" "additions \<noteq> []" by blast
  then have call: "on_storage (StApplyPlannedSchemaAdditions (SvWarehouse sv) pl t additions) s = (res, s')"
    using assms(2) by (simp add: apply_patch_additions_def)
  show ?thesis
    using on_storage_call [OF additions_storage call] assms(1)
    by (intro catalog_kept_more [OF assms(1)]) (auto simp: catalog_kept_def split: option.splits)
qed (use assms in \<open>auto simp: apply_patch_additions_def split: option.splits if_splits\<close>)

lemma UpdateTable_keeps:
  assumes "catalog_kept s" "case TpaLabels patch of None \<Rightarrow> True | Some m \<Rightarrow> labels_listed m" "catalog_UpdateTable sv p d i patch s = (res, s')"
  shows "catalog_kept s'"
proof -
  obtain r1 s1 where get: "on_catalog (CrGetTable (SvCatalog sv) p d i) s = (r1, s1)" by (cases "on_catalog (CrGetTable (SvCatalog sv) p d i) s")
  note c1 = on_catalog_reads [OF get_table assms(1) get]
  obtain now s2 where now: "clock_Now sv s1 = (now, s2)" by (cases "clock_Now sv s1")
  have s2: "catalog_kept s2" using c1(1) clock_keeps [OF now] by simp
  obtain r3 s3 where rem: "removeExpiredTableLocked sv p d i s2 = (r3, s3)" by (cases "removeExpiredTableLocked sv p d i s2")
  have s3: "catalog_kept s3" by (rule removeExpired_keeps [OF s2 rem])
  have written: "catalog_kept s'"
    if t: "r1 = Inr t" "patch_table patch t = Inr (u, additions)" and app: "apply_patch_additions sv plan u additions s2 = (None, s4)"
      and upd: "clock_Now sv s4 = (updated, s5)" and put: "on_catalog (CrUpdateTable (SvCatalog sv) (u\<lparr>TbUpdatedAt := updated\<rparr>)) s5 = (r6, s')"
    for t u additions plan s4 updated s5 r6
  proof -
    have "VwTables (vw s) (p, d, i) = Some t" using c1(5) t(1) by simp
    then have "labels_listed (TbLabels t)" using view_ok assms(1) unfolding catalog_kept_def catalog_ok_def table_ok_def by blast
    then have "table_ok u" by (rule patch_table_ok [OF t(2) _ assms(2)])
    then have ok: "table_ok (u\<lparr>TbUpdatedAt := updated\<rparr>)" by (rule table_ok_same) simp_all
    have "catalog_kept s5" using apply_patch_additions_keeps [OF s2 app] clock_keeps [OF upd] by simp
    then show ?thesis by (rule updates_keep(2) [OF _ ok put])
  qed
  show ?thesis
    using assms(3) get now rem s2 s3 c1(1) written apply_patch_additions_keeps [OF s2]
    unfolding catalog_UpdateTable_def Let_def
    by (auto split: sum.splits if_splits prod.splits option.splits)
qed

lemma ListTableData_keeps:
  assumes "catalog_kept s" "ListTableData sv admitted p d i offset maximum s = (res, s')"
  shows "catalog_kept s'"
proof -
  obtain r1 s1 where get: "getTableLocked sv p d i s = (r1, s1)" by (cases "getTableLocked sv p d i s")
  have "catalog_kept s1" by (rule getTable_keeps [OF assms(1) get])
  then show ?thesis using assms get unfolding ListTableData_def Let_def by (auto split: sum.splits if_splits option.splits)
qed

lemma serve_catalog_keeps:
  assumes "catalog_kept s" "request_listed r" "serve_catalog sv r s = (res, s')" "\<And>e. res = Some e \<Longrightarrow> compensated e"
  shows "catalog_kept s'"
proof (cases r)
  case (RequestCreateDataset ds)
  then show ?thesis using assms createDataset_keeps [OF assms(1)]
    by (fastforce simp: request_listed_def failure_def split: prod.splits sum.splits)
next
  case (RequestEnsureAnonymousDataset p d location)
  then show ?thesis using assms EnsureAnonymousDataset_keeps [OF assms(1)]
    by (fastforce simp: failure_def split: prod.splits sum.splits)
next
  case (RequestCreateTable t)
  then show ?thesis using assms CreateTable_keeps [OF assms(1)]
    by (fastforce simp: request_listed_def failure_def split: prod.splits sum.splits)
qed (use assms(2,3) CreateProject_keeps [OF assms(1)] DeleteProject_keeps [OF assms(1)] UpdateDataset_keeps [OF assms(1)]
    DeleteDataset_keeps [OF assms(1)] PublishMaterializedTable_keeps [OF assms(1)] getTable_keeps [OF assms(1)] listTables_keeps [OF assms(1)]
    UpdateTable_keeps [OF assms(1)] DeleteTable_keeps [OF assms(1)] ListTableData_keeps [OF assms(1)] in
    \<open>auto simp: request_listed_def failure_def catalog_GetTable_def split: prod.splits sum.splits\<close>)

lemma serve_catalog_all_keeps:
  "catalog_kept s \<Longrightarrow> list_all (\<lambda>x. request_listed (snd x)) rs \<Longrightarrow> serve_catalog_all sv rs s = (results, s')
    \<Longrightarrow> (\<And>e. Some e \<in> set results \<Longrightarrow> compensated e) \<Longrightarrow> catalog_kept s'"
proof (induction rs arbitrary: s results s')
  case (Cons x rs)
  obtain a r where x: "x = (a, r)" by (cases x)
  obtain r1 s1 where req: "locked a (serve_catalog sv r) s = (r1, s1)" by (cases "locked a (serve_catalog sv r) s")
  obtain rest s2 where all: "serve_catalog_all sv rs s1 = (rest, s2)" by (cases "serve_catalog_all sv rs s1")
  have res: "results = r1 # rest" "s' = s2" using Cons.prems(3) x req all by simp_all
  have "catalog_kept s1"
    using serve_catalog_keeps [OF Cons.prems(1), of r] Cons.prems(1,2,4) x req res
    by (cases a) (auto simp: locked_def)
  then show ?case using Cons.IH [OF _ _ all] Cons.prems(2,4) res x by simp
qed simp

end

end
