(* ===== verification/Catalog_Expiry.thy ===== *)
theory Catalog_Expiry
  imports Catalog_Behaviour
begin

text \<open>
  Expiration, creation and deletion in the catalog service, over the same contracts: a table that is served has not expired, nothing but
  expired tables is removed by a read, a listing is what the catalog holds afterwards, a table that was created is stored under its own
  name with the dataset's defaults, and a dataset with live tables is not deleted unless its contents may be.
\<close>

text \<open>A clock that does not run backwards.\<close>

definition steady :: "('c, 'w) CatalogService \<Rightarrow> bool" where
  "steady sv \<longleftrightarrow> (\<forall>m n. m \<le> n \<longrightarrow> SvClock sv m \<le> SvClock sv n)"

lemma expired_later: "tableExpired t a \<Longrightarrow> a \<le> b \<Longrightarrow> tableExpired t b"
  by (auto simp: tableExpired_def split: option.splits)

context catalog_service
begin

text \<open>What sweeping expired tables may do to the catalog.\<close>

definition swept :: "('c, 'w) CatalogState \<Rightarrow> ('c, 'w) CatalogState \<Rightarrow> bool" where
  "swept s s' \<longleftrightarrow>
     CsTicks s \<le> CsTicks s' \<and> VwProjects (vw s') = VwProjects (vw s) \<and> VwDatasets (vw s') = VwDatasets (vw s)
     \<and> (\<forall>k. VwTables (vw s') k = VwTables (vw s) k
          \<or> (VwTables (vw s') k = None
             \<and> (\<exists>t n. VwTables (vw s) k = Some t \<and> CsTicks s \<le> n \<and> n < CsTicks s' \<and> tableExpired t (SvClock sv n))))"

lemma swept_refl: "vw s' = vw s \<Longrightarrow> CsTicks s \<le> CsTicks s' \<Longrightarrow> swept s s'"
  by (simp add: swept_def)

lemma swept_trans:
  assumes "swept a b" "swept b c"
  shows "swept a c"
  unfolding swept_def
proof (intro conjI allI)
  fix k
  have ab: "CsTicks a \<le> CsTicks b" and bc: "CsTicks b \<le> CsTicks c" using assms by (simp_all add: swept_def)
  consider "VwTables (vw b) k = VwTables (vw a) k"
    | t n where "VwTables (vw b) k = None" "VwTables (vw a) k = Some t" "CsTicks a \<le> n" "n < CsTicks b" "tableExpired t (SvClock sv n)"
    using assms(1) unfolding swept_def by blast
  then show "VwTables (vw c) k = VwTables (vw a) k
      \<or> (VwTables (vw c) k = None
         \<and> (\<exists>t n. VwTables (vw a) k = Some t \<and> CsTicks a \<le> n \<and> n < CsTicks c \<and> tableExpired t (SvClock sv n)))"
  proof cases
    case 1
    then show ?thesis using assms(2) ab unfolding swept_def by (metis order_trans)
  next
    case 2
    have "VwTables (vw c) k = None" using assms(2) 2(1) unfolding swept_def by metis
    then show ?thesis using 2 bc by (meson order_less_le_trans)
  qed
qed (use assms in \<open>auto simp: swept_def\<close>)

lemma clock_reading:
  assumes "clock_Now sv s = (now, s')"
  shows "now = SvClock sv (CsTicks s)" "CsTicks s' = Suc (CsTicks s)" "swept s s'"
  using assms by (auto simp: clock_Now_def swept_def)

lemma removeExpired_effect:
  assumes "catalog_kept s" "removeExpiredTableLocked sv p d i s = (res, s')"
  shows "swept s s'" "k \<noteq> (p, d, i) \<Longrightarrow> VwTables (vw s') k = VwTables (vw s) k"
    "res = Inr True \<Longrightarrow> VwTables (vw s') (p, d, i) = None"
    "res = Inr False \<Longrightarrow> \<exists>t. VwTables (vw s) (p, d, i) = Some t \<and> \<not> tableExpired t (SvClock sv (CsTicks s))"
proof -
  obtain r1 s1 where get: "on_catalog (CrGetTable (SvCatalog sv) p d i) s = (r1, s1)" by (cases "on_catalog (CrGetTable (SvCatalog sv) p d i) s")
  note g = on_catalog_reads [OF get_table assms(1) get]
  obtain now s2 where now: "clock_Now sv s1 = (now, s2)" by (cases "clock_Now sv s1")
  have s2: "catalog_kept s2" "vw s2 = vw s" "CsTicks s2 = Suc (CsTicks s)" "now = SvClock sv (CsTicks s)"
    using clock_keeps [OF now] clock_reading [OF now] g by simp_all
  obtain r3 s3 where drp: "dropTableStorage sv p d i s2 = (r3, s3)" by (cases "dropTableStorage sv p d i s2")
  note d3 = drop_table_keeps [OF s2(1) drp]
  have ok3: "ok (CsCatalog s3)" using d3(1) by (simp add: catalog_kept_def)
  obtain r4 s4 where del: "on_catalog (CrDeleteTable (SvCatalog sv) p d i) s3 = (r4, s4)"
    by (cases "on_catalog (CrDeleteTable (SvCatalog sv) p d i) s3")
  note d4 = on_catalog_writes [OF delete_table ok3 del]
  have vw3: "vw s3 = vw s" "CsTicks s4 = Suc (CsTicks s)" using d3 s2 d4 by simp_all
  have vw4: "vw s4 = (if r4 = None then without_table p d i (vw s) else vw s)" using d4(4) vw3 by (auto split: option.splits)
  have gone: "VwTables (vw s) (p, d, i) = None" if "r4 = Some e" "errors_Is e ErrNotFound" for e using d4(4) vw3 that by simp
  show "swept s s'" "k \<noteq> (p, d, i) \<Longrightarrow> VwTables (vw s') k = VwTables (vw s) k"
    "res = Inr True \<Longrightarrow> VwTables (vw s') (p, d, i) = None"
    "res = Inr False \<Longrightarrow> \<exists>t. VwTables (vw s) (p, d, i) = Some t \<and> \<not> tableExpired t (SvClock sv (CsTicks s))"
  proof (goal_cases)
    case 1
    then show ?case
      using assms(2) get now drp del g s2 d3 vw3 vw4
      by (auto simp: removeExpiredTableLocked_def swept_def without_table_def split: sum.splits if_splits option.splits)
  next
    case 2
    then show ?case
      using assms(2) get now drp del g s2 d3 vw3 vw4
      by (auto simp: removeExpiredTableLocked_def without_table_def split: sum.splits if_splits option.splits)
  next
    case 3
    then show ?case
      using assms(2) get now drp del g s2 d3 vw3 vw4 gone
      by (auto simp: removeExpiredTableLocked_def without_table_def split: sum.splits if_splits option.splits)
  next
    case 4
    then show ?case
      using assms(2) get now drp del g s2
      by (auto simp: removeExpiredTableLocked_def split: sum.splits if_splits option.splits)
  qed
qed

lemma getTable_effect:
  assumes "catalog_kept s" "getTableLocked sv p d i s = (res, s')"
  shows "swept s s'" "k \<noteq> (p, d, i) \<Longrightarrow> VwTables (vw s') k = VwTables (vw s) k"
    "res = Inr t \<Longrightarrow> steady sv \<Longrightarrow> VwTables (vw s) (p, d, i) = Some t \<and> \<not> tableExpired t (SvClock sv (CsTicks s)) \<and> vw s' = vw s"
proof -
  obtain r1 s1 where get: "on_catalog (CrGetTable (SvCatalog sv) p d i) s = (r1, s1)" by (cases "on_catalog (CrGetTable (SvCatalog sv) p d i) s")
  note g = on_catalog_reads [OF get_table assms(1) get]
  obtain now s2 where now: "clock_Now sv s1 = (now, s2)" by (cases "clock_Now sv s1")
  have s2: "catalog_kept s2" "vw s2 = vw s" "CsTicks s2 = Suc (CsTicks s)" "now = SvClock sv (CsTicks s)"
    using clock_keeps [OF now] clock_reading [OF now] g by simp_all
  have sw2: "swept s s2" "swept s s1" using s2 g by (simp_all add: swept_refl)
  obtain r3 s3 where rem: "removeExpiredTableLocked sv p d i s2 = (r3, s3)" by (cases "removeExpiredTableLocked sv p d i s2")
  note e3 = removeExpired_effect [OF s2(1) rem]
  have s3: "catalog_kept s3" by (rule removeExpired_keeps [OF s2(1) rem])
  obtain r4 s4 where again: "on_catalog (CrGetTable (SvCatalog sv) p d i) s3 = (r4, s4)" by (cases "on_catalog (CrGetTable (SvCatalog sv) p d i) s3")
  note g4 = on_catalog_reads [OF get_table s3 again]
  have sw3: "swept s s3" by (rule swept_trans [OF sw2(1) e3(1)])
  have sw4: "swept s s4" by (rule swept_trans [OF sw3 swept_refl]) (use g4 in simp_all)
  show "swept s s'" using assms(2) get now rem again sw2 sw3 sw4 by (auto simp: getTableLocked_def split: sum.splits if_splits)
  show "VwTables (vw s') k = VwTables (vw s) k" if "k \<noteq> (p, d, i)"
    using assms(2) get now rem again s2 g g4 e3(2) [OF that] by (auto simp: getTableLocked_def split: sum.splits if_splits)
  show "VwTables (vw s) (p, d, i) = Some t \<and> \<not> tableExpired t (SvClock sv (CsTicks s)) \<and> vw s' = vw s" if "res = Inr t" "steady sv"
  proof -
    have "SvClock sv (CsTicks s) \<le> SvClock sv (Suc (CsTicks s))" using that(2) by (simp add: steady_def)
    then have "r3 \<noteq> Inr False" if "r1 = Inr u" "tableExpired u now" for u
      using e3(4) g(5) s2 that expired_later by auto
    then show ?thesis using assms(2) that(1) get now rem again s2 g by (auto simp: getTableLocked_def split: sum.splits if_splits)
  qed
qed

lemma live_tables_effect:
  assumes "steady sv"
  shows "catalog_kept s \<Longrightarrow> live_tables sv ts s = (res, s') \<Longrightarrow> distinct (map table_id ts)
    \<Longrightarrow> (\<And>t. t \<in> set ts \<Longrightarrow> VwTables (vw s) (table_id t) = Some t) \<Longrightarrow>
    swept s s' \<and> (\<forall>k. k \<notin> table_id ` set ts \<longrightarrow> VwTables (vw s') k = VwTables (vw s) k)
    \<and> (\<forall>live. res = Inr live \<longrightarrow>
         live = filter (\<lambda>t. VwTables (vw s') (table_id t) \<noteq> None) ts \<and> (\<forall>t \<in> set live. \<not> tableExpired t (SvClock sv (CsTicks s))))"
proof (induction ts arbitrary: s res s')
  case Nil
  then show ?case by (auto simp: swept_refl)
next
  case (Cons t ts)
  let ?rem = "removeExpiredTableLocked sv (TbProjectID t) (TbDatasetID t) (TbID t)"
  have here: "VwTables (vw s) (table_id t) = Some t" and fresh: "table_id t \<notin> table_id ` set ts"
    using Cons.prems(3,4) by auto
  obtain now s1 where now: "clock_Now sv s = (now, s1)" by (cases "clock_Now sv s")
  have s1: "catalog_kept s1" "vw s1 = vw s" "CsTicks s1 = Suc (CsTicks s)" "now = SvClock sv (CsTicks s)" "swept s s1"
    using clock_keeps [OF now] clock_reading [OF now] Cons.prems(1) by simp_all
  have later: "SvClock sv (CsTicks s) \<le> SvClock sv n" if "CsTicks s \<le> n" for n using assms that by (simp add: steady_def)
  show ?case
  proof (cases "tableExpired t now")
    case False
    obtain r2 s2 where rest: "live_tables sv ts s1 = (r2, s2)" by (cases "live_tables sv ts s1")
    have d: "distinct (map table_id ts)" using Cons.prems(3) by simp
    have same: "VwTables (vw s1) (table_id u) = Some u" if "u \<in> set ts" for u using Cons.prems(4) [of u] s1(2) that by simp
    note ih = Cons.IH [OF s1(1) rest d same]
    have eff: "swept s1 s2" "k \<notin> table_id ` set ts \<Longrightarrow> VwTables (vw s2) k = VwTables (vw s) k"
      "r2 = Inr live \<Longrightarrow> live = filter (\<lambda>t. VwTables (vw s2) (table_id t) \<noteq> None) ts \<and> (\<forall>t \<in> set live. \<not> tableExpired t (SvClock sv (Suc (CsTicks s))))"
      for k live using ih unfolding s1(2,3) by blast+
    have res: "s' = s2" "res = (case r2 of Inl e \<Rightarrow> Inl e | Inr live \<Rightarrow> Inr (t # live))"
      using Cons.prems(2) now False rest by (auto split: sum.splits)
    have kept_t: "VwTables (vw s2) (table_id t) = Some t" using eff(2) [OF fresh] here by simp
    have "\<not> tableExpired u (SvClock sv (CsTicks s))" if "r2 = Inr live" "u \<in> set live" for u live
      using eff(3) [OF that(1)] that(2) expired_later [of u _ "SvClock sv (Suc (CsTicks s))"] later [of "Suc (CsTicks s)"] by auto
    then show ?thesis
    proof (intro conjI allI impI, goal_cases)
      case 1
      then show ?case using swept_trans [OF s1(5) eff(1)] res by simp
    next
      case (2 k)
      then show ?case using eff(2) [of k] res by simp
    next
      case (3 live)
      then show ?case using res eff(3) kept_t by (auto split: sum.splits)
    next
      case (4 live)
      then show ?case using res False s1(4) by (auto split: sum.splits)
    qed
  next
    case True
    obtain r2 s2 where rem: "?rem s1 = (r2, s2)" by (cases "?rem s1")
    note e2 = removeExpired_effect [OF s1(1) rem]
    have s2: "catalog_kept s2" "swept s s2" by (rule removeExpired_keeps [OF s1(1) rem], rule swept_trans [OF s1(5) e2(1)])
    have "r2 \<noteq> Inr False" using e2(4) s1 here True later [of "Suc (CsTicks s)"] expired_later by auto
    then consider e where "r2 = Inl e" | "r2 = Inr True" by (cases r2) auto
    then show ?thesis
    proof cases
      case 1
      then have "s' = s2" "res = Inl e" using Cons.prems(2) now True rem by auto
      then show ?thesis using s2 e2(2) s1(2) by auto
    next
      case 2
      obtain r3 s3 where rest: "live_tables sv ts s2 = (r3, s3)" by (cases "live_tables sv ts s2")
      have same: "VwTables (vw s2) (table_id u) = Some u" if "u \<in> set ts" for u
        using e2(2) [of "table_id u"] s1(2) Cons.prems(4) [of u] fresh that by (auto simp: image_iff)
      have d: "distinct (map table_id ts)" using Cons.prems(3) by simp
      note ih = Cons.IH [OF s2(1) rest d same]
      have res: "s' = s3" "res = r3" using Cons.prems(2) now True rem 2 rest by auto
      have gone: "VwTables (vw s3) (table_id t) = None" using ih fresh e2(3) [OF 2] by simp
      have tick: "CsTicks s \<le> CsTicks s2" using s2(2) by (simp add: swept_def)
      have fresh_live: "\<forall>u \<in> set live. \<not> tableExpired u (SvClock sv (CsTicks s))" if "r3 = Inr live" for live
        using ih that later [OF tick] expired_later [of _ _ "SvClock sv (CsTicks s2)"] by blast
      show ?thesis
      proof (intro conjI allI impI)
        show "swept s s'" using ih swept_trans [OF s2(2)] res by blast
      next
        fix k assume "k \<notin> table_id ` set (t # ts)"
        then show "VwTables (vw s') k = VwTables (vw s) k" using ih [THEN conjunct2, THEN conjunct1, rule_format, of k] e2(2) [of k] s1(2) res by simp
      next
        fix live assume live: "res = Inr live"
        then show "live = filter (\<lambda>t. VwTables (vw s') (table_id t) \<noteq> None) (t # ts)" using ih res gone by auto
        show "\<forall>t \<in> set live. \<not> tableExpired t (SvClock sv (CsTicks s))" using fresh_live live res by blast
      qed
    qed
  qed
qed

lemma listTables_effect:
  assumes "catalog_kept s" "listTablesLocked sv p d s = (res, s')" "steady sv"
  shows "swept s s'" "fst k \<noteq> p \<or> fst (snd k) \<noteq> d \<Longrightarrow> VwTables (vw s') k = VwTables (vw s) k"
    "res = Inr ts \<Longrightarrow> listing TbID (VwTables (vw s')) (\<lambda>k. fst k = p \<and> fst (snd k) = d) ts
       \<and> (\<forall>t \<in> set ts. \<not> tableExpired t (SvClock sv (CsTicks s)))"
proof -
  obtain r1 s1 where lst: "on_catalog (CrListTables (SvCatalog sv) p d) s = (r1, s1)" by (cases "on_catalog (CrListTables (SvCatalog sv) p d) s")
  note l = on_catalog_reads [OF list_tables assms(1) lst]
  have goal: "swept s s' \<and> (\<forall>k. fst k \<noteq> p \<or> fst (snd k) \<noteq> d \<longrightarrow> VwTables (vw s') k = VwTables (vw s) k)
    \<and> (\<forall>ts. res = Inr ts \<longrightarrow> listing TbID (VwTables (vw s')) (\<lambda>k. fst k = p \<and> fst (snd k) = d) ts
       \<and> (\<forall>t \<in> set ts. \<not> tableExpired t (SvClock sv (CsTicks s))))"
  proof (cases r1)
    case (Inl e)
    then show ?thesis using assms(2) lst l by (auto simp: listTablesLocked_def swept_refl)
  next
    case (Inr xs)
    have xs: "listing TbID (VwTables (vw s)) (\<lambda>k. fst k = p \<and> fst (snd k) = d) xs" using l(5) Inr by simp
    have live: "live_tables sv xs s1 = (res, s')" using assms(2) lst Inr by (simp add: listTablesLocked_def)
    have names: "table_id t = (a, b, c)" if "VwTables (vw s) (a, b, c) = Some t" for a b c t
      using view_ok assms(1) that unfolding catalog_kept_def catalog_ok_def by blast
    have stored: "VwTables (vw s1) (table_id t) = Some t" "TbProjectID t = p" "TbDatasetID t = d" if t: "t \<in> set xs" for t
    proof -
      obtain a b c where k: "a = p" "b = d" "VwTables (vw s) (a, b, c) = Some t" using xs t by (auto simp: listing_def)
      then show "VwTables (vw s1) (table_id t) = Some t" "TbProjectID t = p" "TbDatasetID t = d" using names [OF k(3)] l(2) by auto
    qed
    have sorted: "sorted_wrt (\<lambda>a b. TbID a < TbID b) xs" using xs by (simp add: listing_def)
    have "distinct (map TbID xs)" using sorted by (induction xs) auto
    then have d: "distinct (map table_id xs)" by (auto simp: distinct_map inj_on_def)
    note eff = live_tables_effect [OF assms(3) l(1) live d stored(1)]
    have other: "VwTables (vw s') k = VwTables (vw s) k" if "fst k \<noteq> p \<or> fst (snd k) \<noteq> d" for k
    proof -
      have "k \<notin> table_id ` set xs" using that stored(2,3) by auto
      then show ?thesis using eff [THEN conjunct2, THEN conjunct1, rule_format] l(2) by simp
    qed
    have "listing TbID (VwTables (vw s')) (\<lambda>k. fst k = p \<and> fst (snd k) = d) ts" if "res = Inr ts" for ts
    proof -
      have ts: "ts = filter (\<lambda>t. VwTables (vw s') (table_id t) \<noteq> None) xs" using eff that by blast
      have sub: "VwTables (vw s') k = Some t \<Longrightarrow> VwTables (vw s) k = Some t" for k t
        using eff l(2) unfolding swept_def by (metis option.distinct(1))
      have keep: "VwTables (vw s') (table_id t) = Some t" if "t \<in> set xs" "VwTables (vw s') (table_id t) \<noteq> None" for t
        using that sub [of "table_id t"] stored(1) [OF that(1)] l(2) by auto
      have "set ts = {x. \<exists>k. (fst k = p \<and> fst (snd k) = d) \<and> VwTables (vw s') k = Some x}"
      proof (intro equalityI subsetI CollectI)
        fix t assume "t \<in> set ts"
        then have t: "t \<in> set xs" "VwTables (vw s') (table_id t) = Some t" using ts keep by auto
        then show "\<exists>k. (fst k = p \<and> fst (snd k) = d) \<and> VwTables (vw s') k = Some t" using stored(2,3) [OF t(1)] by auto
      next
        fix t assume "t \<in> {x. \<exists>k. (fst k = p \<and> fst (snd k) = d) \<and> VwTables (vw s') k = Some x}"
        then obtain c where c: "VwTables (vw s') (p, d, c) = Some t" by auto
        then have "t \<in> set xs" using xs sub [OF c] by (auto simp: listing_def)
        moreover have "table_id t = (p, d, c)" using names [OF sub [OF c]] .
        ultimately show "t \<in> set ts" using ts c by simp
      qed
      moreover have "sorted_wrt (\<lambda>a b. TbID a < TbID b) ts" using sorted ts by (simp add: sorted_wrt_filter)
      ultimately show ?thesis by (simp add: listing_def)
    qed
    moreover have "swept s s'" using eff swept_trans [OF swept_refl [of s1 s]] l by simp
    ultimately show ?thesis using other eff l(4) by auto
  qed
  then show "swept s s'" "fst k \<noteq> p \<or> fst (snd k) \<noteq> d \<Longrightarrow> VwTables (vw s') k = VwTables (vw s) k"
    "res = Inr ts \<Longrightarrow> listing TbID (VwTables (vw s')) (\<lambda>k. fst k = p \<and> fst (snd k) = d) ts
       \<and> (\<forall>t \<in> set ts. \<not> tableExpired t (SvClock sv (CsTicks s)))" by blast+
qed

lemma clear_expired_effect:
  assumes "catalog_kept s" "clear_expired sv t s = (res, s')"
  shows "swept s s'" "k \<noteq> table_id t \<Longrightarrow> VwTables (vw s') k = VwTables (vw s) k"
    "res = None \<Longrightarrow> steady sv \<Longrightarrow> VwTables (vw s') (table_id t) = None"
proof -
  let ?get = "on_catalog (CrGetTable (SvCatalog sv) (TbProjectID t) (TbDatasetID t) (TbID t))"
  let ?rem = "removeExpiredTableLocked sv (TbProjectID t) (TbDatasetID t) (TbID t)"
  obtain r1 s1 where get: "?get s = (r1, s1)" by (cases "?get s")
  note g = on_catalog_reads [OF get_table assms(1) get]
  obtain now s2 where now: "clock_Now sv s1 = (now, s2)" by (cases "clock_Now sv s1")
  have s2: "catalog_kept s2" "vw s2 = vw s" "CsTicks s2 = Suc (CsTicks s)" "now = SvClock sv (CsTicks s)"
    using clock_keeps [OF now] clock_reading [OF now] g by simp_all
  have sw2: "swept s s2" "swept s s1" using s2 g by (simp_all add: swept_refl)
  obtain r3 s3 where rem: "?rem s2 = (r3, s3)" by (cases "?rem s2")
  note e3 = removeExpired_effect [OF s2(1) rem]
  have sw3: "swept s s3" by (rule swept_trans [OF sw2(1) e3(1)])
  show "swept s s'" using assms(2) get now rem sw2 sw3 by (auto simp: clear_expired_def split: sum.splits if_splits)
  show "VwTables (vw s') k = VwTables (vw s) k" if "k \<noteq> table_id t"
    using assms(2) get now rem s2 g e3(2) [OF that] by (auto simp: clear_expired_def split: sum.splits if_splits)
  show "VwTables (vw s') (table_id t) = None" if "res = None" "steady sv"
  proof -
    have "SvClock sv (CsTicks s) \<le> SvClock sv (Suc (CsTicks s))" using that(2) by (simp add: steady_def)
    then have "r3 \<noteq> Inr False" if "r1 = Inr u" "tableExpired u now" for u
      using e3(4) g(5) s2 that expired_later by auto
    then show ?thesis using assms(2) that(1) get now rem s2 g e3(3)
      by (auto simp: clear_expired_def split: sum.splits if_splits)
  qed
qed

lemma publish_table_effect:
  assumes "catalog_kept s" "table_ok t" "publish_table sv plan t s = (Inr u, s')"
  shows "u = t" "vw s' = put_table t (vw s)" "VwTables (vw s) (table_id t) = None" "CsTicks s' = CsTicks s"
    "tables (CsStorage s') = insert (TbProjectID t, TbDatasetID t, folded (TbID t)) (tables (CsStorage s))"
    "datasets (CsStorage s') = datasets (CsStorage s)"
proof -
  obtain r1 s1 where cre: "on_storage (StCreatePlannedTable (SvWarehouse sv) plan t) s = (r1, s1)"
    by (cases "on_storage (StCreatePlannedTable (SvWarehouse sv) plan t) s")
  note c1 = on_storage_call [OF create_table_storage cre]
  have ok1: "ok (CsCatalog s1)" using assms(1) c1 by (simp add: catalog_kept_def)
  obtain r2 s2 where put: "on_catalog (CrCreateTable (SvCatalog sv) t) s1 = (r2, s2)" by (cases "on_catalog (CrCreateTable (SvCatalog sv) t) s1")
  note c2 = on_catalog_writes [OF create_table [OF assms(2)] ok1 put]
  have r: "r1 = None" "r2 = None" "s' = s2" "u = t"
    using assms(3) cre put by (auto simp: publish_table_def split: option.splits prod.splits)
  then show "u = t" "vw s' = put_table t (vw s)" "VwTables (vw s) (table_id t) = None" "CsTicks s' = CsTicks s"
    "tables (CsStorage s') = insert (TbProjectID t, TbDatasetID t, folded (TbID t)) (tables (CsStorage s))"
    "datasets (CsStorage s') = datasets (CsStorage s)"
    using c1 c2 by simp_all
qed

lemma CreateTable_effect:
  assumes "catalog_kept s" "labels_listed (TbLabels t)" "catalog_CreateTable sv t s = (Inr u, s')"
  shows "\<exists>dataset n. VwDatasets (vw s) (TbProjectID t, TbDatasetID t) = Some dataset \<and> CsTicks s \<le> n \<and> n < CsTicks s'
      \<and> u = table_defaults dataset (SvClock sv n) t"
    "VwTables (vw s') = (VwTables (vw s))(table_id t \<mapsto> u)" "VwDatasets (vw s') = VwDatasets (vw s)"
    "\<forall>old. VwTables (vw s) (table_id t) = Some old \<longrightarrow> (\<exists>n. CsTicks s \<le> n \<and> n < CsTicks s' \<and> tableExpired old (SvClock sv n))"
    "(TbProjectID t, TbDatasetID t, folded (TbID t)) \<in> tables (CsStorage s')"
proof -
  obtain plan where valid: "Table_Validate t = None" and plan: "planEngineSchema (SvWarehouse sv) (create_descriptor SchemaOperationCreate t) = Inr plan"
    using assms(3) by (auto simp: catalog_CreateTable_def split: option.splits sum.splits)
  have ok: "table_ok t" using valid assms(2) by (simp add: table_ok_def)
  let ?get = "on_catalog (CrGetDataset (SvCatalog sv) (TbProjectID t) (TbDatasetID t))"
  obtain r1 s1 where get: "?get s = (r1, s1)" by (cases "?get s")
  note g = on_catalog_reads [OF get_dataset assms(1) get]
  obtain r2 s2 where clr: "clear_expired sv t s1 = (r2, s2)" by (cases "clear_expired sv t s1")
  note c = clear_expired_effect [OF g(1) clr] clear_expired_keeps [OF g(1) clr]
  obtain now s3 where now: "clock_Now sv s2 = (now, s3)" by (cases "clock_Now sv s2")
  note n = clock_reading [OF now] clock_keeps [OF now]
  obtain dataset where ds: "r1 = Inr dataset" and r2: "r2 = None" and pub: "publish_table sv plan (table_defaults dataset now t) s3 = (Inr u, s')"
    using assms(3) valid plan get clr now by (auto simp: catalog_CreateTable_def split: option.splits sum.splits)
  have s3: "catalog_kept s3" "vw s3 = vw s2" "CsTicks s3 = Suc (CsTicks s2)" using c(4) n by simp_all
  note p = publish_table_effect [OF s3(1) table_defaults_ok [OF ok] pub]
  have key: "table_id (table_defaults dataset now t) = table_id t" by (simp add: table_defaults_def)
  have stored: "VwDatasets (vw s) (TbProjectID t, TbDatasetID t) = Some dataset" using g(5) ds by simp
  have ticks: "CsTicks s \<le> CsTicks s2" "CsTicks s' = Suc (CsTicks s2)" using c(1) g p(4) s3(3) by (simp_all add: swept_def)
  show "\<exists>dataset n. VwDatasets (vw s) (TbProjectID t, TbDatasetID t) = Some dataset \<and> CsTicks s \<le> n \<and> n < CsTicks s'
      \<and> u = table_defaults dataset (SvClock sv n) t"
    using stored ticks p(1) n(1) by (intro exI [of _ dataset] exI [of _ "CsTicks s2"]) simp
  have gone: "VwTables (vw s2) (table_id t) = None" using p(3) key s3(2) by simp
  have same: "VwTables (vw s2) k = VwTables (vw s) k" if "k \<noteq> table_id t" for k using c(2) [OF that] g(2) by simp
  show "VwTables (vw s') = (VwTables (vw s))(table_id t \<mapsto> u)"
  proof (rule ext)
    fix k show "VwTables (vw s') k = ((VwTables (vw s))(table_id t \<mapsto> u)) k"
      using p(1,2) s3(2) key same [of k] by (cases "k = table_id t") (simp_all add: put_table_def)
  qed
  show "VwDatasets (vw s') = VwDatasets (vw s)" using p(2) s3(2) c(1) g(2) by (simp add: put_table_def swept_def)
  show "\<forall>old. VwTables (vw s) (table_id t) = Some old \<longrightarrow> (\<exists>n. CsTicks s \<le> n \<and> n < CsTicks s' \<and> tableExpired old (SvClock sv n))"
  proof (intro allI impI)
    fix old assume old: "VwTables (vw s) (table_id t) = Some old"
    have "swept s1 s2" by (rule c(1))
    then obtain x m where "VwTables (vw s1) (table_id t) = Some x" "CsTicks s1 \<le> m" "m < CsTicks s2" "tableExpired x (SvClock sv m)"
      unfolding swept_def using gone old g(2) by (metis option.distinct(1))
    then show "\<exists>n. CsTicks s \<le> n \<and> n < CsTicks s' \<and> tableExpired old (SvClock sv n)"
      using old g(2,4) ticks by (intro exI [of _ m]) simp
  qed
  have ids: "TbProjectID (table_defaults dataset now t) = TbProjectID t" "TbDatasetID (table_defaults dataset now t) = TbDatasetID t"
    "TbID (table_defaults dataset now t) = TbID t" by (simp_all add: table_defaults_def)
  show "(TbProjectID t, TbDatasetID t, folded (TbID t)) \<in> tables (CsStorage s')" using p(5) unfolding ids by simp
qed

lemma DeleteDataset_effect:
  assumes "catalog_kept s" "steady sv" "DeleteDataset sv p d deleteContents s = (None, s')"
  shows "VwDatasets (vw s) (p, d) \<noteq> None" "VwDatasets (vw s') = (VwDatasets (vw s))((p, d) := None)"
    "VwTables (vw s') = (\<lambda>k. if fst k = p \<and> fst (snd k) = d then None else VwTables (vw s) k)"
    "(p, d) \<notin> datasets (CsStorage s')" "(p, d, k) \<notin> tables (CsStorage s')"
    "\<not> deleteContents \<Longrightarrow> VwTables (vw s) (p, d, i) = Some t \<Longrightarrow> \<exists>n. CsTicks s \<le> n \<and> n < CsTicks s' \<and> tableExpired t (SvClock sv n)"
proof -
  obtain r1 s1 where get: "on_catalog (CrGetDataset (SvCatalog sv) p d) s = (r1, s1)" by (cases "on_catalog (CrGetDataset (SvCatalog sv) p d) s")
  note g = on_catalog_reads [OF get_dataset assms(1) get]
  obtain r2 s2 where lst: "listTablesLocked sv p d s1 = (r2, s2)" by (cases "listTablesLocked sv p d s1")
  note l = listTables_effect [OF g(1) lst assms(2)] listTables_keeps [OF g(1) lst]
  obtain r3 s3 where drp: "on_storage (StDropDataset (SvWarehouse sv) p d) s2 = (r3, s3)" by (cases "on_storage (StDropDataset (SvWarehouse sv) p d) s2")
  note c3 = on_storage_call [OF drop_dataset_storage drp]
  have ok3: "ok (CsCatalog s3)" using l(4) c3 by (simp add: catalog_kept_def)
  obtain r4 s4 where del: "on_catalog (CrDeleteDataset (SvCatalog sv) p d) s3 = (r4, s4)" by (cases "on_catalog (CrDeleteDataset (SvCatalog sv) p d) s3")
  note c4 = on_catalog_writes [OF delete_dataset ok3 del]
  obtain ds ts where r: "r1 = Inr ds" "r2 = Inr ts" "r3 = None" "r4 = None" "s' = s4" "ts = [] \<or> deleteContents"
    using assms(3) get lst drp del by (auto simp: DeleteDataset_def split: sum.splits if_splits option.splits)
  have vw4: "vw s' = without_dataset p d (vw s2)" using c4(4) c3(1) r by simp
  have sw: "swept s s2" by (rule swept_trans [OF swept_refl l(1)]) (use g in simp_all)
  show "VwDatasets (vw s) (p, d) \<noteq> None" using g(5) r(1) by simp
  show "VwDatasets (vw s') = (VwDatasets (vw s))((p, d) := None)" using vw4 sw by (simp add: without_dataset_def swept_def)
  show "VwTables (vw s') = (\<lambda>k. if fst k = p \<and> fst (snd k) = d then None else VwTables (vw s) k)"
  proof (rule ext)
    fix k show "VwTables (vw s') k = (if fst k = p \<and> fst (snd k) = d then None else VwTables (vw s) k)"
      using vw4 l(2) [of k] g(2) by (cases k) (auto simp: without_dataset_def)
  qed
  show "(p, d) \<notin> datasets (CsStorage s')" "(p, d, k) \<notin> tables (CsStorage s')" using c3(3) c4(2) r by simp_all
  show "\<exists>n. CsTicks s \<le> n \<and> n < CsTicks s' \<and> tableExpired t (SvClock sv n)"
    if refuse: "\<not> deleteContents" and old: "VwTables (vw s) (p, d, i) = Some t"
  proof -
    have "listing TbID (VwTables (vw s2)) (\<lambda>k. fst k = p \<and> fst (snd k) = d) []" using l(3) r refuse by auto
    then have "VwTables (vw s2) (p, d, i) = None" by (cases "VwTables (vw s2) (p, d, i)") (auto simp: listing_def)
    then obtain x n where "VwTables (vw s) (p, d, i) = Some x" "CsTicks s \<le> n" "n < CsTicks s2" "tableExpired x (SvClock sv n)"
      using sw old unfolding swept_def by (metis option.distinct(1))
    then show ?thesis using old c3(2) c4(3) r(5) by (intro exI [of _ n]) simp
  qed
qed

end

end
