(* ===== verification/Catalog_Sqlite.thy ===== *)
theory Catalog_Sqlite
  imports Catalog_Repository Sqlite
begin

text \<open>
  The durable catalog of \<open>internal/adapters/sqlite/catalog.go\<close> over the tables of migration 1 in
  \<open>internal/adapters/sqlite/state.go\<close>. A nested schema is stored as one row for each field, with its dotted path, the path of its parent
  and its place among its siblings, and is rebuilt from them. The lemmas show that every valid table passes the constraints and reads
  back as it was stored, and that the repository keeps the contract \<open>catalog_repository\<close>.

  The rows that reference a dataset or a table with ON DELETE CASCADE are kept in the row they reference; a transaction sees one engine
  error at most, which awaits it in the database record and rolls it back. An empty list of clustering fields is nil.
\<close>

section \<open>The tables\<close>

record FieldRow =
  FrwPath :: string
  FrwParent :: "string option"
  FrwOrdinal :: nat
  FrwName :: string
  FrwType :: string
  FrwMode :: string
  FrwDescription :: string
  FrwPrecision :: "int option"
  FrwScale :: "int option"
  FrwRoundingMode :: string

record TableRow =
  TrwFriendlyName :: string
  TrwDescription :: string
  TrwLabelsPresent :: bool
  TrwType :: string
  TrwLocation :: string
  TrwExpirationTime :: "time option"
  TrwTimePresent :: bool
  TrwTimeType :: "string option"
  TrwTimeField :: "string option"
  TrwTimeExpiration :: "int option"
  TrwRangePresent :: bool
  TrwRangeField :: "string option"
  TrwRangeStart :: "int option"
  TrwRangeEnd :: "int option"
  TrwRangeInterval :: "int option"
  TrwClusteringPresent :: bool
  TrwCreatedAt :: time
  TrwUpdatedAt :: time
  TrwLabels :: "(string, string) gomap"
  TrwClustering :: "(nat \<times> string) list"
  TrwFields :: "FieldRow list"

record DatasetRow =
  DrwFriendlyName :: string
  DrwDescription :: string
  DrwLocation :: string
  DrwLabelsPresent :: bool
  DrwTableExpiration :: "int option"
  DrwPartitionExpiration :: "int option"
  DrwCreatedAt :: time
  DrwUpdatedAt :: time
  DrwHidden :: bool
  DrwLabels :: "(string, string) gomap"

record CatalogDB =
  CxProjects :: "(string, Project) gomap"
  CxDatasets :: "(string \<times> string, DatasetRow) gomap"
  CxTables :: "(string \<times> string \<times> string, TableRow) gomap"
  CxFaults :: "go_error option list"

definition all_or_none :: "bool \<Rightarrow> bool list \<Rightarrow> bool" where
  "all_or_none present columns \<longleftrightarrow> (if present then list_all (\<lambda>c. c) columns else list_all Not columns)"

definition tables_CHECK :: "TableRow \<Rightarrow> bool" where
  "tables_CHECK row \<longleftrightarrow>
     all_or_none (TrwTimePresent row) [TrwTimeType row \<noteq> None, TrwTimeField row \<noteq> None, TrwTimeExpiration row \<noteq> None]
     \<and> all_or_none (TrwRangePresent row)
         [TrwRangeField row \<noteq> None, TrwRangeStart row \<noteq> None, TrwRangeEnd row \<noteq> None, TrwRangeInterval row \<noteq> None]"

definition table_fields_CHECK :: "FieldRow \<Rightarrow> bool" where
  "table_fields_CHECK row \<longleftrightarrow>
     0 < sqlite_length (FrwPath row) \<and> 0 < sqlite_length (FrwName row)
     \<and> (case FrwPrecision row of None \<Rightarrow> True | Some p \<Rightarrow> 1 \<le> p \<and> p \<le> 38)
     \<and> (case FrwScale row of None \<Rightarrow> True | Some s \<Rightarrow> 0 \<le> s \<and> s \<le> 38)
     \<and> FrwRoundingMode row \<in> {[], RoundingModeUnspecified, RoundingModeHalfAwayFromZero, RoundingModeHalfEven}"

definition table_fields_parent_insert :: "FieldRow list \<Rightarrow> FieldRow \<Rightarrow> bool" where
  "table_fields_parent_insert rows row \<longleftrightarrow>
     (case FrwParent row of None \<Rightarrow> True
      | Some p \<Rightarrow> list_ex (\<lambda>r. FrwPath r = p \<and> strings_ToUpper (FrwType r) \<in> {''RECORD'', ''STRUCT''}) rows)"

definition field_parent :: "FieldRow \<Rightarrow> string" where
  "field_parent row = (case FrwParent row of None \<Rightarrow> [] | Some p \<Rightarrow> p)"

definition constraint_failed :: go_error where
  "constraint_failed = errors_New ''constraint failed''"

definition insert_field_row :: "FieldRow \<Rightarrow> FieldRow list \<Rightarrow> go_error + FieldRow list" where
  "insert_field_row row rows =
     (if \<not> table_fields_parent_insert rows row \<or> \<not> table_fields_CHECK row
         \<or> list_ex (\<lambda>r. FrwPath r = FrwPath row) rows
         \<or> list_ex (\<lambda>r. field_parent r = field_parent row \<and> FrwOrdinal r = FrwOrdinal row) rows
      then Inl constraint_failed else Inr (rows @ [row]))"

section \<open>Writing a schema\<close>

fun insertFields :: "string \<Rightarrow> nat \<Rightarrow> Field list \<Rightarrow> FieldRow list \<Rightarrow> go_error + FieldRow list" where
  "insertFields parentPath ordinal [] rows = Inr rows"
| "insertFields parentPath ordinal (MkField n t m d p s r nested # rest) rows =
     (let path = (if parentPath \<noteq> [] then parentPath @ ''.'' @ n else n) in
      case insert_field_row \<lparr>FrwPath = path, FrwParent = (if parentPath \<noteq> [] then Some parentPath else None), FrwOrdinal = ordinal,
             FrwName = n, FrwType = t, FrwMode = m, FrwDescription = d, FrwPrecision = p, FrwScale = s, FrwRoundingMode = r\<rparr> rows of
        Inl e \<Rightarrow> Inl e
      | Inr rows1 \<Rightarrow>
        (case insertFields path 0 nested rows1 of Inl e \<Rightarrow> Inl e
         | Inr rows2 \<Rightarrow> insertFields parentPath (Suc ordinal) rest rows2))"

fun validateFieldPath :: "Field list \<Rightarrow> go_error option" where
  "validateFieldPath [] = None"
| "validateFieldPath (MkField n t m d p s r nested # rest) =
     (if CHR ''.'' \<in> set n then Some [ErrInvalid]
      else case validateFieldPath nested of Some e \<Rightarrow> Some e | None \<Rightarrow> validateFieldPath rest)"

definition label_rows :: "(string, string) gomap option \<Rightarrow> (string, string) gomap" where
  "label_rows labels = (case labels of None \<Rightarrow> [] | Some m \<Rightarrow> sort_key fst m)"

definition tableColumnValues :: "Table \<Rightarrow> TableRow" where
  "tableColumnValues t =
     \<lparr>TrwFriendlyName = TbFriendlyName t, TrwDescription = TbDescription t, TrwLabelsPresent = (TbLabels t \<noteq> None),
      TrwType = TbType t, TrwLocation = TbLocation t, TrwExpirationTime = TbExpirationTime t,
      TrwTimePresent = (TbTimePartitioning t \<noteq> None), TrwTimeType = map_option TpType (TbTimePartitioning t),
      TrwTimeField = map_option TpField (TbTimePartitioning t), TrwTimeExpiration = map_option TpExpirationMs (TbTimePartitioning t),
      TrwRangePresent = (TbRangePartitioning t \<noteq> None), TrwRangeField = map_option RpField (TbRangePartitioning t),
      TrwRangeStart = map_option (\<lambda>p. RgStart (RpRange p)) (TbRangePartitioning t),
      TrwRangeEnd = map_option (\<lambda>p. RgEnd (RpRange p)) (TbRangePartitioning t),
      TrwRangeInterval = map_option (\<lambda>p. RgInterval (RpRange p)) (TbRangePartitioning t),
      TrwClusteringPresent = (TbClusteringFields t \<noteq> []), TrwCreatedAt = TbCreatedAt t, TrwUpdatedAt = TbUpdatedAt t,
      TrwLabels = [], TrwClustering = [], TrwFields = []\<rparr>"

definition insertTableChildren :: "Table \<Rightarrow> TableRow \<Rightarrow> go_error + TableRow" where
  "insertTableChildren t row =
     (case insertFields [] 0 (TbSchema t) [] of Inl e \<Rightarrow> Inl e
      | Inr rows \<Rightarrow>
        Inr (row\<lparr>TrwLabels := label_rows (TbLabels t), TrwClustering := enumerate 0 (TbClusteringFields t), TrwFields := rows\<rparr>))"

text \<open>The row of a table and the rows below it, which an insertion writes and an update writes anew.\<close>

definition write_table :: "Table \<Rightarrow> CatalogDB \<Rightarrow> go_error + CatalogDB" where
  "write_table t db =
     (let row = tableColumnValues t in
      if \<not> tables_CHECK row then Inl constraint_failed
      else case insertTableChildren t row of Inl e \<Rightarrow> Inl e
      | Inr row' \<Rightarrow> Inr (db\<lparr>CxTables := gm_put (table_id t) row' (CxTables db)\<rparr>))"

definition dataset_row :: "Dataset \<Rightarrow> DatasetRow" where
  "dataset_row d =
     \<lparr>DrwFriendlyName = DsFriendlyName d, DrwDescription = DsDescription d, DrwLocation = DsLocation d,
      DrwLabelsPresent = (DsLabels d \<noteq> None), DrwTableExpiration = DefaultTableExpirationMs d,
      DrwPartitionExpiration = DefaultPartitionExpirationMs d, DrwCreatedAt = DsCreatedAt d, DrwUpdatedAt = DsUpdatedAt d,
      DrwHidden = DsHidden d, DrwLabels = label_rows (DsLabels d)\<rparr>"

section \<open>Reading a schema\<close>

definition children :: "FieldRow list \<Rightarrow> string \<Rightarrow> FieldRow list" where
  "children rows parent = sort_key FrwOrdinal (filter (\<lambda>r. field_parent r = parent) rows)"

definition row_field :: "FieldRow \<Rightarrow> Field list \<Rightarrow> Field" where
  "row_field r nested =
     MkField (FrwName r) (FrwType r) (FrwMode r) (FrwDescription r) (FrwPrecision r) (FrwScale r) (FrwRoundingMode r) nested"

text \<open>
  The closure \<open>build\<close> of \<open>loadFields\<close> on the children of one field. Every level of the recursion visits a path that was not
  visited before, so the number of rows bounds its depth.
\<close>

fun build :: "nat \<Rightarrow> FieldRow list \<Rightarrow> FieldRow list \<Rightarrow> nat \<Rightarrow> string list \<Rightarrow> go_error + Field list \<times> string list" where
  "build depth rows [] expected visited = Inr ([], visited)"
| "build 0 rows (r # rs) expected visited = Inl (errors_New ''too deep'')"
| "build (Suc depth) rows (r # rs) expected visited =
     (if FrwOrdinal r \<noteq> expected then Inl (errors_New ''field ordinals are not contiguous'')
      else if FrwPath r \<in> set visited then Inl (errors_New ''field hierarchy contains a cycle'')
      else case build depth rows (children rows (FrwPath r)) 0 (FrwPath r # visited) of Inl e \<Rightarrow> Inl e
      | Inr (nested, visited1) \<Rightarrow>
        (case build (Suc depth) rows rs (Suc expected) visited1 of Inl e \<Rightarrow> Inl e
         | Inr (fs, visited2) \<Rightarrow> Inr (row_field r nested # fs, visited2)))"

definition loadFields :: "FieldRow list \<Rightarrow> go_error + Field list" where
  "loadFields rows =
     (if rows = [] then Inl (errors_New ''table schema has no fields'')
      else case build (Suc (length rows)) rows (children rows []) 0 [] of Inl e \<Rightarrow> Inl e
      | Inr (fs, visited) \<Rightarrow>
        if length visited \<noteq> length (remdups (map FrwPath rows)) then Inl (errors_New ''unreachable nested field'') else Inr fs)"

definition loadLabels :: "bool \<Rightarrow> (string, string) gomap \<Rightarrow> go_error + (string, string) gomap option" where
  "loadLabels present rows =
     (if \<not> present \<and> rows \<noteq> [] then Inl (errors_New ''label presence marker is inconsistent'')
      else Inr (if present then Some (sort_key fst rows) else None))"

fun contiguous :: "nat \<Rightarrow> (nat \<times> string) list \<Rightarrow> bool" where
  "contiguous expected [] \<longleftrightarrow> True"
| "contiguous expected ((ordinal, _) # rows) \<longleftrightarrow> ordinal = expected \<and> contiguous (Suc expected) rows"

definition loadClustering :: "bool \<Rightarrow> (nat \<times> string) list \<Rightarrow> go_error + string list" where
  "loadClustering present rows =
     (let ordered = sort_key fst rows in
      if \<not> contiguous 0 ordered then Inl (errors_New ''clustering ordinals are not contiguous'')
      else if \<not> present \<and> ordered \<noteq> [] then Inl (errors_New ''clustering presence marker is inconsistent'')
      else Inr (map snd ordered))"

definition time_partitioning :: "TableRow \<Rightarrow> go_error + TimePartitioning option" where
  "time_partitioning row =
     (if TrwTimePresent row then
        (case (TrwTimeType row, TrwTimeField row, TrwTimeExpiration row) of
           (Some t, Some f, Some e) \<Rightarrow> Inr (Some \<lparr>TpType = t, TpField = f, TpExpirationMs = e\<rparr>)
         | _ \<Rightarrow> Inl (errors_New ''time partitioning presence marker is inconsistent''))
      else Inr None)"

definition range_partitioning :: "TableRow \<Rightarrow> go_error + RangePartitioning option" where
  "range_partitioning row =
     (if TrwRangePresent row then
        (case (TrwRangeField row, TrwRangeStart row, TrwRangeEnd row, TrwRangeInterval row) of
           (Some f, Some a, Some b, Some i) \<Rightarrow> Inr (Some \<lparr>RpField = f, RpRange = \<lparr>RgStart = a, RgEnd = b, RgInterval = i\<rparr>\<rparr>)
         | _ \<Rightarrow> Inl (errors_New ''range partitioning presence marker is inconsistent''))
      else Inr None)"

text \<open>\<open>scanTable\<close>: the columns of a row as a table without children.\<close>

definition stored_columns ::
  "string \<times> string \<times> string \<Rightarrow> TableRow \<Rightarrow> TimePartitioning option \<Rightarrow> RangePartitioning option \<Rightarrow> Table" where
  "stored_columns k row timeP rangeP =
     \<lparr>TbProjectID = fst k, TbDatasetID = fst (snd k), TbID = snd (snd k), TbFriendlyName = TrwFriendlyName row,
      TbDescription = TrwDescription row, TbLabels = None, TbType = TrwType row, TbSchema = [],
      TbLocation = TrwLocation row, TbExpirationTime = TrwExpirationTime row, TbTimePartitioning = timeP,
      TbRangePartitioning = rangeP, TbClusteringFields = [], TbCreatedAt = TrwCreatedAt row, TbUpdatedAt = TrwUpdatedAt row\<rparr>"

definition scanTable :: "string \<times> string \<times> string \<Rightarrow> TableRow \<Rightarrow> go_error + Table" where
  "scanTable k row =
     (case decodeTime (TrwCreatedAt row) of Inl e \<Rightarrow> Inl e
      | Inr created \<Rightarrow>
      (case decodeTime (TrwUpdatedAt row) of Inl e \<Rightarrow> Inl e
       | Inr updated \<Rightarrow>
       (case decodeOptionalTime (TrwExpirationTime row) of Inl e \<Rightarrow> Inl e
        | Inr expiration \<Rightarrow>
        (case time_partitioning row of Inl e \<Rightarrow> Inl e
         | Inr timeP \<Rightarrow>
         (case range_partitioning row of Inl e \<Rightarrow> Inl e
          | Inr rangeP \<Rightarrow>
            Inr ((stored_columns k row timeP rangeP)\<lparr>TbExpirationTime := expiration, TbCreatedAt := created, TbUpdatedAt := updated\<rparr>))))))"

definition loadTableChildren :: "TableRow \<Rightarrow> Table \<Rightarrow> go_error + Table" where
  "loadTableChildren row t =
     (case loadLabels (TrwLabelsPresent row) (TrwLabels row) of Inl e \<Rightarrow> Inl e
      | Inr labels \<Rightarrow>
      (case loadClustering (TrwClusteringPresent row) (TrwClustering row) of Inl e \<Rightarrow> Inl e
       | Inr clustering \<Rightarrow>
       (case loadFields (TrwFields row) of Inl e \<Rightarrow> Inl e
        | Inr schema \<Rightarrow>
          (let table = t\<lparr>TbLabels := labels, TbClusteringFields := clustering, TbSchema := schema\<rparr> in
           case Table_Validate table of Some e \<Rightarrow> Inl e | None \<Rightarrow> Inr table))))"

definition read_stored_table :: "string \<times> string \<times> string \<Rightarrow> TableRow \<Rightarrow> go_error + Table" where
  "read_stored_table k row = (case scanTable k row of Inl e \<Rightarrow> Inl e | Inr t \<Rightarrow> loadTableChildren row t)"

definition scanDataset :: "string \<times> string \<Rightarrow> DatasetRow \<Rightarrow> go_error + Dataset" where
  "scanDataset k row =
     (case decodeTime (DrwCreatedAt row) of Inl e \<Rightarrow> Inl e
      | Inr created \<Rightarrow>
      (case decodeTime (DrwUpdatedAt row) of Inl e \<Rightarrow> Inl e
       | Inr updated \<Rightarrow>
         Inr \<lparr>DsProjectID = fst k, DsID = snd k, DsFriendlyName = DrwFriendlyName row, DsDescription = DrwDescription row,
              DsLocation = DrwLocation row, DsLabels = None, DefaultTableExpirationMs = DrwTableExpiration row,
              DefaultPartitionExpirationMs = DrwPartitionExpiration row, DsCreatedAt = created, DsUpdatedAt = updated,
              DsHidden = DrwHidden row\<rparr>))"

definition read_dataset :: "string \<times> string \<Rightarrow> DatasetRow \<Rightarrow> go_error + Dataset" where
  "read_dataset k row =
     (case scanDataset k row of Inl e \<Rightarrow> Inl e
      | Inr d \<Rightarrow> (case loadLabels (DrwLabelsPresent row) (DrwLabels row) of Inl e \<Rightarrow> Inl e | Inr labels \<Rightarrow> Inr (d\<lparr>DsLabels := labels\<rparr>)))"

definition scanProject :: "Project \<Rightarrow> go_error + Project" where
  "scanProject row =
     (case decodeTime (PrCreatedAt row) of Inl e \<Rightarrow> Inl e
      | Inr created \<Rightarrow> (case decodeTime (PrUpdatedAt row) of Inl e \<Rightarrow> Inl e
         | Inr updated \<Rightarrow> Inr (row\<lparr>PrCreatedAt := created, PrUpdatedAt := updated\<rparr>)))"

section \<open>The repository\<close>

definition next_catalog_fault :: "CatalogDB \<Rightarrow> go_error option \<times> CatalogDB" where
  "next_catalog_fault db = (case CxFaults db of [] \<Rightarrow> (None, db) | f # fs \<Rightarrow> (f, db\<lparr>CxFaults := fs\<rparr>))"

definition catalog_repositoryError :: "go_error \<Rightarrow> go_error" where
  "catalog_repositoryError e = (if e = [ContextCanceled] \<or> e = [ContextDeadlineExceeded] then e else [ErrBackend])"

definition catalog_write :: "(CatalogDB \<Rightarrow> go_error + CatalogDB) \<Rightarrow> CatalogDB \<Rightarrow> go_error option \<times> CatalogDB" where
  "catalog_write mutate db =
     (case next_catalog_fault db of
        (Some e, db1) \<Rightarrow> (Some (catalog_repositoryError e), db1)
      | (None, db1) \<Rightarrow>
        (case mutate db1 of
           Inr db2 \<Rightarrow> (None, db2)
         | Inl e \<Rightarrow>
             (Some (if errors_Is e ErrNotFound \<or> errors_Is e ErrConflict \<or> errors_Is e ErrInvalid \<or> errors_Is e ErrUnsupported
                    then e else catalog_repositoryError e), db1)))"

definition catalog_read :: "(CatalogDB \<Rightarrow> go_error + 'a) \<Rightarrow> CatalogDB \<Rightarrow> (go_error + 'a) \<times> CatalogDB" where
  "catalog_read query db =
     (case next_catalog_fault db of
        (Some e, db1) \<Rightarrow> (Inl (catalog_repositoryError e), db1)
      | (None, db1) \<Rightarrow>
        (case query db1 of
           Inr x \<Rightarrow> (Inr x, db1)
         | Inl e \<Rightarrow> (Inl (if e = [ErrNotFound] then e else catalog_repositoryError e), db1)))"

fun read_all :: "('a \<Rightarrow> go_error + 'b) \<Rightarrow> 'a list \<Rightarrow> go_error + 'b list" where
  "read_all f [] = Inr []"
| "read_all f (x # xs) =
     (case f x of Inl e \<Rightarrow> Inl e | Inr y \<Rightarrow> (case read_all f xs of Inl e \<Rightarrow> Inl e | Inr ys \<Rightarrow> Inr (y # ys)))"

definition sqlite_CreateProject :: "Project \<Rightarrow> CatalogDB \<Rightarrow> go_error option \<times> CatalogDB" where
  "sqlite_CreateProject p db =
     (case Project_Validate p of Some e \<Rightarrow> (Some e, db)
      | None \<Rightarrow> catalog_write (\<lambda>db.
          if gm_get (CxProjects db) (PrID p) \<noteq> None then Inl [ErrConflict]
          else Inr (db\<lparr>CxProjects := gm_put (PrID p) p (CxProjects db)\<rparr>)) db)"

definition sqlite_GetProject :: "string \<Rightarrow> CatalogDB \<Rightarrow> (go_error + Project) \<times> CatalogDB" where
  "sqlite_GetProject i =
     catalog_read (\<lambda>db. case gm_get (CxProjects db) i of None \<Rightarrow> Inl [ErrNotFound] | Some row \<Rightarrow> scanProject row)"

definition sqlite_ListProjects :: "CatalogDB \<Rightarrow> (go_error + Project list) \<times> CatalogDB" where
  "sqlite_ListProjects = catalog_read (\<lambda>db. read_all scanProject (sort_key PrID (map snd (CxProjects db))))"

definition sqlite_DeleteProject :: "string \<Rightarrow> CatalogDB \<Rightarrow> go_error option \<times> CatalogDB" where
  "sqlite_DeleteProject i = catalog_write (\<lambda>db.
     if gm_get (CxProjects db) i = None then Inl [ErrNotFound]
     else Inr (db\<lparr>CxProjects := gm_del i (CxProjects db), CxDatasets := filter (\<lambda>(k, _). fst k \<noteq> i) (CxDatasets db),
                  CxTables := filter (\<lambda>(k, _). fst k \<noteq> i) (CxTables db)\<rparr>))"

definition sqlite_CreateDataset :: "Dataset \<Rightarrow> CatalogDB \<Rightarrow> go_error option \<times> CatalogDB" where
  "sqlite_CreateDataset d db =
     (case Dataset_Validate d of Some e \<Rightarrow> (Some e, db)
      | None \<Rightarrow> catalog_write (\<lambda>db.
          if gm_get (CxProjects db) (DsProjectID d) = None then Inl [ErrNotFound]
          else if gm_get (CxDatasets db) (dataset_id d) \<noteq> None then Inl [ErrConflict]
          else Inr (db\<lparr>CxDatasets := gm_put (dataset_id d) (dataset_row d) (CxDatasets db)\<rparr>)) db)"

definition sqlite_UpdateDataset :: "Dataset \<Rightarrow> CatalogDB \<Rightarrow> go_error option \<times> CatalogDB" where
  "sqlite_UpdateDataset d db =
     (case Dataset_Validate d of Some e \<Rightarrow> (Some e, db)
      | None \<Rightarrow> catalog_write (\<lambda>db.
          if gm_get (CxDatasets db) (dataset_id d) = None then Inl [ErrNotFound]
          else Inr (db\<lparr>CxDatasets := gm_put (dataset_id d) (dataset_row d) (CxDatasets db)\<rparr>)) db)"

definition sqlite_GetDataset :: "string \<Rightarrow> string \<Rightarrow> CatalogDB \<Rightarrow> (go_error + Dataset) \<times> CatalogDB" where
  "sqlite_GetDataset i j =
     catalog_read (\<lambda>db. case gm_get (CxDatasets db) (i, j) of None \<Rightarrow> Inl [ErrNotFound] | Some row \<Rightarrow> read_dataset (i, j) row)"

definition sqlite_ListDatasets :: "string \<Rightarrow> CatalogDB \<Rightarrow> (go_error + Dataset list) \<times> CatalogDB" where
  "sqlite_ListDatasets i = catalog_read (\<lambda>db.
     if gm_get (CxProjects db) i = None then Inl [ErrNotFound]
     else read_all (\<lambda>(k, row). read_dataset k row) (sort_key (\<lambda>(k, _). snd k) (filter (\<lambda>(k, _). fst k = i) (CxDatasets db))))"

definition sqlite_DeleteDataset :: "string \<Rightarrow> string \<Rightarrow> CatalogDB \<Rightarrow> go_error option \<times> CatalogDB" where
  "sqlite_DeleteDataset i j = catalog_write (\<lambda>db.
     if gm_get (CxDatasets db) (i, j) = None then Inl [ErrNotFound]
     else Inr (db\<lparr>CxDatasets := gm_del (i, j) (CxDatasets db),
                  CxTables := filter (\<lambda>(k, _). fst k = i \<longrightarrow> fst (snd k) \<noteq> j) (CxTables db)\<rparr>))"

definition checked_table :: "Table \<Rightarrow> go_error option" where
  "checked_table t = (case Table_Validate t of Some e \<Rightarrow> Some e | None \<Rightarrow> validateFieldPath (TbSchema t))"

definition sqlite_CreateTable :: "Table \<Rightarrow> CatalogDB \<Rightarrow> go_error option \<times> CatalogDB" where
  "sqlite_CreateTable t db =
     (case checked_table t of Some e \<Rightarrow> (Some e, db)
      | None \<Rightarrow> catalog_write (\<lambda>db.
          if gm_get (CxDatasets db) (TbProjectID t, TbDatasetID t) = None then Inl [ErrNotFound]
          else if gm_get (CxTables db) (table_id t) \<noteq> None then Inl [ErrConflict]
          else write_table t db) db)"

definition sqlite_UpdateTable :: "Table \<Rightarrow> CatalogDB \<Rightarrow> go_error option \<times> CatalogDB" where
  "sqlite_UpdateTable t db =
     (case checked_table t of Some e \<Rightarrow> (Some e, db)
      | None \<Rightarrow> catalog_write (\<lambda>db.
          if gm_get (CxTables db) (table_id t) = None then Inl [ErrNotFound] else write_table t db) db)"

definition sqlite_GetTable :: "string \<Rightarrow> string \<Rightarrow> string \<Rightarrow> CatalogDB \<Rightarrow> (go_error + Table) \<times> CatalogDB" where
  "sqlite_GetTable i j k =
     catalog_read (\<lambda>db. case gm_get (CxTables db) (i, j, k) of None \<Rightarrow> Inl [ErrNotFound] | Some row \<Rightarrow> read_stored_table (i, j, k) row)"

definition sqlite_ListTables :: "string \<Rightarrow> string \<Rightarrow> CatalogDB \<Rightarrow> (go_error + Table list) \<times> CatalogDB" where
  "sqlite_ListTables i j = catalog_read (\<lambda>db.
     if gm_get (CxDatasets db) (i, j) = None then Inl [ErrNotFound]
     else read_all (\<lambda>(k, row). read_stored_table k row)
            (sort_key (\<lambda>(k, _). snd (snd k)) (filter (\<lambda>(k, _). fst k = i \<and> fst (snd k) = j) (CxTables db))))"

definition sqlite_DeleteTable :: "string \<Rightarrow> string \<Rightarrow> string \<Rightarrow> CatalogDB \<Rightarrow> go_error option \<times> CatalogDB" where
  "sqlite_DeleteTable i j k = catalog_write (\<lambda>db.
     if gm_get (CxTables db) (i, j, k) = None then Inl [ErrNotFound]
     else Inr (db\<lparr>CxTables := gm_del (i, j, k) (CxTables db)\<rparr>))"

definition sqlite_catalog :: "CatalogDB CatalogRepository" where
  "sqlite_catalog =
     \<lparr>CrCreateProject = sqlite_CreateProject, CrGetProject = sqlite_GetProject, CrListProjects = sqlite_ListProjects,
      CrDeleteProject = sqlite_DeleteProject, CrCreateDataset = sqlite_CreateDataset, CrUpdateDataset = sqlite_UpdateDataset,
      CrGetDataset = sqlite_GetDataset, CrListDatasets = sqlite_ListDatasets, CrDeleteDataset = sqlite_DeleteDataset,
      CrCreateTable = sqlite_CreateTable, CrUpdateTable = sqlite_UpdateTable, CrGetTable = sqlite_GetTable,
      CrListTables = sqlite_ListTables, CrDeleteTable = sqlite_DeleteTable\<rparr>"

section \<open>A schema reads back as it was written\<close>

text \<open>Paths by their components; the root is the empty path.\<close>

definition path_of :: "string list \<Rightarrow> string" where
  "path_of cs = strings_Join cs ''.''"

definition names_ok :: "string list \<Rightarrow> bool" where
  "names_ok cs \<longleftrightarrow> (\<forall>c \<in> set cs. c \<noteq> [] \<and> CHR ''.'' \<notin> set c)"

definition components :: "string \<Rightarrow> string list" where
  "components p = (if p = [] then [] else strings_Split (CHR ''.'') p)"

lemma path_of_snoc: "cs \<noteq> [] \<Longrightarrow> path_of (cs @ [n]) = path_of cs @ ''.'' @ n"
proof (induction cs)
  case (Cons c cs)
  then show ?case by (cases cs) (simp_all add: path_of_def)
qed simp

lemma path_of_Nil [simp]: "path_of [] = []" by (simp add: path_of_def)

lemma path_of_empty: "names_ok cs \<Longrightarrow> path_of cs = [] \<longleftrightarrow> cs = []"
  by (cases cs; cases "tl cs") (auto simp: names_ok_def path_of_def)

lemma components_path_of [simp]: "names_ok cs \<Longrightarrow> components (path_of cs) = cs"
  using path_of_empty [of cs] strings_Split_Join [of cs "CHR ''.''"]
  by (auto simp: components_def path_of_def names_ok_def list_all_iff)

lemma path_of_inj: "names_ok cs \<Longrightarrow> names_ok ds \<Longrightarrow> path_of cs = path_of ds \<longleftrightarrow> cs = ds"
  using components_path_of by metis

definition field_row :: "string list \<Rightarrow> nat \<Rightarrow> Field \<Rightarrow> FieldRow" where
  "field_row cs ordinal f =
     \<lparr>FrwPath = path_of (cs @ [FName f]), FrwParent = (if cs = [] then None else Some (path_of cs)), FrwOrdinal = ordinal,
      FrwName = FName f, FrwType = FType f, FrwMode = FMode f, FrwDescription = FDescription f, FrwPrecision = FPrecision f,
      FrwScale = FScale f, FrwRoundingMode = FRoundingMode f\<rparr>"

fun field_rows :: "string list \<Rightarrow> nat \<Rightarrow> Field list \<Rightarrow> FieldRow list" where
  "field_rows cs ordinal [] = []"
| "field_rows cs ordinal (MkField n t m d p s r nested # rest) =
     field_row cs ordinal (MkField n t m d p s r nested) # field_rows (cs @ [n]) 0 nested @ field_rows cs (Suc ordinal) rest"

definition sibling_rows :: "string list \<Rightarrow> nat \<Rightarrow> Field list \<Rightarrow> FieldRow list" where
  "sibling_rows cs ordinal fs = map (\<lambda>(i, f). field_row cs i f) (enumerate ordinal fs)"

text \<open>What a validated schema gives: non-empty names without dots, distinct among siblings.\<close>

function named :: "Field list \<Rightarrow> bool" where
  "named fs \<longleftrightarrow> names_ok (map FName fs) \<and> distinct (map FName fs) \<and> (\<forall>f \<in> set fs. named (FFields f))"
  by pat_completeness auto
termination
proof (relation "measure (size_list size)")
  fix fs :: "Field list" and f assume "f \<in> set fs"
  moreover have "size_list size (FFields f) < size f" by (cases f) simp
  ultimately show "(FFields f, fs) \<in> measure (size_list size)"
    using size_list_estimation [of f fs "size_list size (FFields f)" size] by simp
qed simp

declare named.simps [simp del]

lemma named_Nil [simp]: "named []" by (simp add: named.simps [of "[]"] names_ok_def)

lemma named_Cons [simp]:
  "named (f # fs) \<longleftrightarrow> FName f \<noteq> [] \<and> CHR ''.'' \<notin> set (FName f) \<and> FName f \<notin> FName ` set fs \<and> named (FFields f) \<and> named fs"
  unfolding named.simps [of "f # fs"] named.simps [of fs] by (auto simp: names_ok_def)

lemma resource_no_dot: "resourceIDPattern s \<Longrightarrow> s \<noteq> [] \<and> CHR ''.'' \<notin> set s"
  by (auto simp: resourceIDPattern_def list_all_iff is_alpha_def in_class_def is_digit_def split: list.splits)

lemma schema_ok_named: "schema_ok fs \<Longrightarrow> named fs"
proof (induction fs rule: CloneFields.induct)
  case (2 n t m d p s r nested rest)
  then have "resourceIDPattern n" by (auto simp: Field_Validate_head_def Let_def split: if_splits)
  with 2 show ?case by (auto dest: resource_no_dot)
qed simp

lemma named_validateFieldPath: "named fs \<Longrightarrow> validateFieldPath fs = None"
  by (induction fs rule: validateFieldPath.induct) simp_all

lemma field_row_simps [simp]:
  "FrwPath (field_row cs k f) = path_of (cs @ [FName f])" "FrwOrdinal (field_row cs k f) = k"
  "field_parent (field_row cs k f) = path_of cs"
  by (simp_all add: field_row_def field_parent_def)

lemma names_ok_append [simp]: "names_ok (cs @ ds) \<longleftrightarrow> names_ok cs \<and> names_ok ds"
  by (auto simp: names_ok_def)

lemma names_ok_Cons [simp]: "names_ok (c # cs) \<longleftrightarrow> c \<noteq> [] \<and> CHR ''.'' \<notin> set c \<and> names_ok cs"
  by (auto simp: names_ok_def)

lemma names_ok_Nil [simp]: "names_ok []" by (simp add: names_ok_def)

text \<open>Every row of a forest lies below one of its roots.\<close>

lemma field_rows_below:
  "names_ok cs \<Longrightarrow> named fs \<Longrightarrow> r \<in> set (field_rows cs k fs) \<Longrightarrow>
     \<exists>n \<in> FName ` set fs. prefix (cs @ [n]) (components (FrwPath r))
       \<and> (field_parent r = path_of cs \<or> prefix (cs @ [n]) (components (field_parent r)))"
proof (induction cs k fs rule: field_rows.induct)
  case (2 cs k n t m d p s r' nested rest)
  show ?case
  proof (cases "r \<in> set (field_rows (cs @ [n]) 0 nested)")
    case True
    then obtain x where "prefix (cs @ [n, x]) (components (FrwPath r))"
      "field_parent r = path_of (cs @ [n]) \<or> prefix (cs @ [n, x]) (components (field_parent r))"
      using 2 by auto
    then show ?thesis using 2(3,4) append_prefixD [of "cs @ [n]" "[x]"] by auto
  next
    case False
    then show ?thesis using 2 by auto
  qed
qed simp

lemma prefix_sibling: "prefix (cs @ [n]) xs \<Longrightarrow> prefix (cs @ [m]) xs \<Longrightarrow> n = m"
  by (auto simp: prefix_def)

lemma not_prefix_self: "\<not> prefix (cs @ [n]) cs"
  by (auto simp: prefix_def)

lemma sibling_rows_Cons [simp]:
  "sibling_rows cs k [] = []" "sibling_rows cs k (f # fs) = field_row cs k f # sibling_rows cs (Suc k) fs"
  by (simp_all add: sibling_rows_def)

lemma field_rows_children:
  "names_ok cs \<Longrightarrow> named fs \<Longrightarrow> filter (\<lambda>r. field_parent r = path_of cs) (field_rows cs k fs) = sibling_rows cs k fs"
proof (induction cs k fs rule: field_rows.induct)
  case (2 cs k n t m d p s r' nested rest)
  have "field_parent r \<noteq> path_of cs" if "r \<in> set (field_rows (cs @ [n]) 0 nested)" for r
    using field_rows_below [of "cs @ [n]" nested r 0] that 2(3,4) not_prefix_self [of cs n] append_prefixD [of "cs @ [n]"]
    by (auto simp: path_of_inj)
  then have "filter (\<lambda>r. field_parent r = path_of cs) (field_rows (cs @ [n]) 0 nested) = []" by (simp add: filter_empty_conv)
  with 2 show ?case by simp
qed simp

lemma sibling_rows_sorted: "sort_key FrwOrdinal (sibling_rows cs k fs) = sibling_rows cs k fs"
proof -
  have "sorted (map FrwOrdinal (sibling_rows cs k fs))"
    by (induction fs arbitrary: k) (auto simp: sibling_rows_def in_set_enumerate_eq)
  then show ?thesis by (simp add: sort_key_id_if_sorted)
qed

text \<open>\<open>forest rows cs fs\<close>: the rows hold \<open>fs\<close> and everything below as the children of the path \<open>cs\<close>.\<close>

function forest :: "FieldRow list \<Rightarrow> string list \<Rightarrow> Field list \<Rightarrow> bool" where
  "forest rows cs fs \<longleftrightarrow>
     children rows (path_of cs) = sibling_rows cs 0 fs \<and> (\<forall>f \<in> set fs. forest rows (cs @ [FName f]) (FFields f))"
  by pat_completeness auto
termination
proof (relation "measure (\<lambda>(rows, cs, fs). size_list size fs)")
  fix fs :: "Field list" and f :: Field and rows :: "FieldRow list" and cs assume "f \<in> set fs"
  moreover have "size_list size (FFields f) < size f" by (cases f) simp
  ultimately show "((rows, cs @ [FName f], FFields f), rows, cs, fs) \<in> measure (\<lambda>(rows, cs, fs). size_list size fs)"
    using size_list_estimation [of f fs "size_list size (FFields f)" size] by simp
qed simp

declare forest.simps [simp del]

lemma forest_inside:
  assumes "names_ok cs" "named fs"
    and "\<And>r f. r \<in> set before \<union> set after \<Longrightarrow> f \<in> set fs \<Longrightarrow> \<not> prefix (cs @ [FName f]) (components (field_parent r))"
  shows "\<forall>f \<in> set fs. forest (before @ field_rows cs k fs @ after) (cs @ [FName f]) (FFields f)"
  using assms
proof (induction cs k fs arbitrary: before after rule: field_rows.induct)
  case (2 cs k n t m d p s r' nested rest)
  let ?row = "field_row cs k (MkField n t m d p s r' nested)"
  let ?nested = "field_rows (cs @ [n]) 0 nested" and ?rest = "field_rows cs (Suc k) rest"
  have names: "names_ok cs" "names_ok (cs @ [n])" "named nested" "named rest" "n \<notin> FName ` set rest"
    using 2(3,4) by auto
  have rest: "\<not> prefix (cs @ [n]) (components (field_parent r))" if "r \<in> set ?rest" for r
    using field_rows_below [OF names(1,4) that] names(1,5) not_prefix_self [of cs n]
    by (metis components_path_of image_eqI prefix_sibling)
  have below: "prefix (cs @ [n]) (components (field_parent r))" if "r \<in> set ?nested" for r
    using field_rows_below [OF names(2,3) that] names(2) append_prefixD [of "cs @ [n]"] by auto
  let ?all = "before @ (?row # ?nested @ ?rest) @ after"
  have outer: "filter (\<lambda>r. field_parent r = path_of (cs @ [n])) xs = []"
    if "\<And>r. r \<in> set xs \<Longrightarrow> \<not> prefix (cs @ [n]) (components (field_parent r))" for xs
  proof -
    have "field_parent r \<noteq> path_of (cs @ [n])" if "r \<in> set xs" for r
    proof
      assume "field_parent r = path_of (cs @ [n])"
      then have "components (field_parent r) = cs @ [n]" using components_path_of [OF names(2)] by simp
      with \<open>r \<in> set xs\<close> \<open>\<And>r. r \<in> set xs \<Longrightarrow> \<not> prefix (cs @ [n]) (components (field_parent r))\<close> show False by fastforce
    qed
    then show ?thesis by (simp add: filter_empty_conv)
  qed
  have before: "filter (\<lambda>r. field_parent r = path_of (cs @ [n])) before = []"
    and after: "filter (\<lambda>r. field_parent r = path_of (cs @ [n])) after = []"
    using 2(5) [of _ "MkField n t m d p s r' nested"] by (auto intro!: outer)
  have "children ?all (path_of (cs @ [n])) = sibling_rows (cs @ [n]) 0 nested"
    using before after outer [of ?rest] rest names(1,2)
      field_rows_children [OF names(2,3), of 0] sibling_rows_sorted
    by (simp add: children_def path_of_inj)
  moreover have "\<forall>f \<in> set nested. forest ?all ((cs @ [n]) @ [FName f]) (FFields f)"
  proof -
    have outside: "\<not> prefix (cs @ [n]) (components (field_parent r))" if "r \<in> set (before @ [?row]) \<union> set (?rest @ after)" for r
    proof -
      have "r \<in> set before \<union> set after \<or> r = ?row \<or> r \<in> set ?rest" using that by auto
      then show ?thesis
        using 2(5) [of r "MkField n t m d p s r' nested"] rest [of r] not_prefix_self [of cs n] names(1) by auto
    qed
    have "\<not> prefix ((cs @ [n]) @ [FName f]) (components (field_parent r))"
      if "r \<in> set (before @ [?row]) \<union> set (?rest @ after)" for r f
      using outside [OF that] append_prefixD by blast
    from 2(1) [OF names(2,3), of "before @ [?row]" "?rest @ after", OF this] show ?thesis by simp
  qed
  ultimately have first: "forest ?all (cs @ [n]) nested" by (simp add: forest.simps [of _ "cs @ [n]"])
  have "\<forall>f \<in> set rest. forest ?all (cs @ [FName f]) (FFields f)"
  proof -
    have "\<not> prefix (cs @ [FName f]) (components (field_parent r))"
      if "r \<in> set (before @ ?row # ?nested) \<union> set after" "f \<in> set rest" for r f
    proof -
      have "r \<in> set before \<union> set after \<or> r = ?row \<or> r \<in> set ?nested" using that(1) by auto
      moreover have "FName f \<noteq> n" using that(2) names(5) by auto
      ultimately show ?thesis
        using 2(5) [of r f] that(2) below [of r] names(1) not_prefix_self [of cs "FName f"] prefix_sibling [of cs n _ "FName f"] by auto
    qed
    from 2(2) [OF names(1,4), of "before @ ?row # ?nested" after, OF this] show ?thesis by simp
  qed
  with first show ?case by simp
qed simp

lemma forest_field_rows: "named fs \<Longrightarrow> forest (field_rows [] 0 fs) [] fs"
  using forest_inside [of "[]" fs "[]" "[]" 0] field_rows_children [of "[]" fs 0] sibling_rows_sorted [of "[]" 0 fs]
  by (simp add: forest.simps [of _ "[]"] children_def)

lemma row_field_row [simp]: "row_field (field_row cs k f) (FFields f) = f"
  by (cases f) (simp add: row_field_def field_row_def)

lemma build_forest:
  assumes "names_ok cs" "named fs" "\<forall>f \<in> set fs. forest rows (cs @ [FName f]) (FFields f)"
    "length (field_rows cs k fs) < depth" "distinct (map FrwPath (field_rows cs k fs) @ visited)"
  shows "build depth rows (sibling_rows cs k fs) k visited = Inr (fs, rev (map FrwPath (field_rows cs k fs)) @ visited)"
  using assms
proof (induction cs k fs arbitrary: depth visited rule: field_rows.induct)
  case (2 cs k n t m d p s r' nested rest)
  let ?f = "MkField n t m d p s r' nested"
  obtain depth' where depth: "depth = Suc depth'" using 2(6) by (cases depth) auto
  have forest: "children rows (path_of (cs @ [n])) = sibling_rows (cs @ [n]) 0 nested"
    "\<forall>f \<in> set nested. forest rows ((cs @ [n]) @ [FName f]) (FFields f)"
    using 2(5) forest.simps [of rows "cs @ [n]" nested] by auto
  have nested: "build depth' rows (sibling_rows (cs @ [n]) 0 nested) 0 (path_of (cs @ [n]) # visited)
      = Inr (nested, rev (map FrwPath (field_rows (cs @ [n]) 0 nested)) @ path_of (cs @ [n]) # visited)"
    by (rule 2(1)) (use 2(3,4,6,7) depth forest in auto)
  have rest: "build depth rows (sibling_rows cs (Suc k) rest) (Suc k) (rev (map FrwPath (field_rows (cs @ [n]) 0 nested)) @ path_of (cs @ [n]) # visited)
      = Inr (rest, rev (map FrwPath (field_rows cs (Suc k) rest)) @ rev (map FrwPath (field_rows (cs @ [n]) 0 nested)) @ path_of (cs @ [n]) # visited)"
    by (rule 2(2)) (use 2(3-7) in auto)
  have "path_of (cs @ [n]) \<notin> set visited" using 2(7) by auto
  with nested rest forest(1) show ?case using row_field_row [of cs k ?f] by (simp add: depth)
qed simp

lemma field_rows_distinct: "names_ok cs \<Longrightarrow> named fs \<Longrightarrow> distinct (map FrwPath (field_rows cs k fs))"
proof (induction cs k fs rule: field_rows.induct)
  case (2 cs k n t m d p s r' nested rest)
  have names: "names_ok cs" "names_ok (cs @ [n])" "named nested" "named rest" "n \<notin> FName ` set rest"
    using 2(3,4) by auto
  have rest: "\<not> prefix (cs @ [n]) (components (FrwPath r))" if "r \<in> set (field_rows cs (Suc k) rest)" for r
    using field_rows_below [OF names(1,4) that] names(5) prefix_sibling by metis
  have below: "prefix (cs @ [n]) (components (FrwPath r)) \<and> components (FrwPath r) \<noteq> cs @ [n]"
    if r: "r \<in> set (field_rows (cs @ [n]) 0 nested)" for r
  proof -
    obtain x where "prefix ((cs @ [n]) @ [x]) (components (FrwPath r))" using field_rows_below [OF names(2,3) r] by blast
    then show ?thesis using append_prefixD not_prefix_self by metis
  qed
  have "path_of (cs @ [n]) \<notin> FrwPath ` (set (field_rows (cs @ [n]) 0 nested) \<union> set (field_rows cs (Suc k) rest))"
  proof
    assume "path_of (cs @ [n]) \<in> FrwPath ` (set (field_rows (cs @ [n]) 0 nested) \<union> set (field_rows cs (Suc k) rest))"
    then obtain r where r: "path_of (cs @ [n]) = FrwPath r" "r \<in> set (field_rows (cs @ [n]) 0 nested) \<union> set (field_rows cs (Suc k) rest)"
      by (rule imageE)
    then have "components (FrwPath r) = cs @ [n]" using components_path_of [OF names(2)] by simp
    with r(2) show False using rest [of r] below [of r] by auto
  qed
  moreover have "FrwPath ` set (field_rows (cs @ [n]) 0 nested) \<inter> FrwPath ` set (field_rows cs (Suc k) rest) = {}"
    using rest below by fastforce
  ultimately show ?case using 2(1) [OF names(2,3)] 2(2) [OF names(1,4)] by (simp add: image_Un)
qed simp

lemma loadFields_field_rows:
  assumes "named fs" "fs \<noteq> []"
  shows "loadFields (field_rows [] 0 fs) = Inr fs"
proof -
  have "field_rows [] 0 fs \<noteq> []" using assms(2) by (cases fs rule: CloneFields.cases) auto
  moreover have "build (Suc (length (field_rows [] 0 fs))) (field_rows [] 0 fs) (children (field_rows [] 0 fs) []) 0 []
      = Inr (fs, rev (map FrwPath (field_rows [] 0 fs)))"
    using build_forest [of "[]" fs "field_rows [] 0 fs" 0 _ "[]"] forest_field_rows [OF assms(1)] assms(1) field_rows_distinct [of "[]" fs 0]
    by (simp add: forest.simps [of _ "[]"])
  moreover have "length (remdups (map FrwPath (field_rows [] 0 fs))) = length (field_rows [] 0 fs)"
    using field_rows_distinct [of "[]" fs 0] assms(1) length_remdups_eq [of "map FrwPath (field_rows [] 0 fs)"] by simp
  ultimately show ?thesis by (simp add: loadFields_def)
qed

text \<open>The rows of a valid schema pass every constraint.\<close>

lemma sqlite_length_pos: "s \<noteq> [] \<Longrightarrow> hd s \<noteq> CHR 0x00 \<Longrightarrow> 0 < sqlite_length s"
  by (cases s) (simp_all add: sqlite_length_def)

lemma resource_hd: "resourceIDPattern s \<Longrightarrow> hd s \<noteq> CHR 0x00"
  by (auto simp: resourceIDPattern_def is_alpha_def in_class_def split: list.splits)

lemma path_of_hd: "names_ok cs \<Longrightarrow> cs \<noteq> [] \<Longrightarrow> hd (path_of cs) = hd (hd cs)"
  by (cases cs; cases "tl cs") (auto simp: path_of_def)

lemma Field_head_facts:
  assumes "Field_Validate_head f = None"
  shows "resourceIDPattern (FName f)"
    and "case FPrecision f of None \<Rightarrow> True | Some p \<Rightarrow> 1 \<le> p \<and> p \<le> 38"
    and "case FScale f of None \<Rightarrow> True | Some s \<Rightarrow> 0 \<le> s \<and> s \<le> 38"
    and "FRoundingMode f \<in> {[], RoundingModeUnspecified, RoundingModeHalfAwayFromZero, RoundingModeHalfEven}"
    and "FFields f \<noteq> [] \<Longrightarrow> strings_ToUpper (FType f) \<in> {''RECORD'', ''STRUCT''}"
  using assms
  by (auto simp: Field_Validate_head_def EffectiveDecimalParameters_def EffectiveRoundingMode_def SparkDecimalMaxPrecision_def
      SparkDecimalMaxScale_def Let_def split: if_splits option.splits sum.splits)

definition resources :: "string list \<Rightarrow> bool" where
  "resources cs \<longleftrightarrow> (\<forall>c \<in> set cs. resourceIDPattern c)"

lemma resources_names_ok: "resources cs \<Longrightarrow> names_ok cs"
  by (auto simp: resources_def names_ok_def dest: resource_no_dot)

lemma field_row_CHECK:
  assumes "Field_Validate_head f = None" "resources cs"
  shows "table_fields_CHECK (field_row cs k f)"
proof -
  have names: "names_ok (cs @ [FName f])" "\<forall>c \<in> set (cs @ [FName f]). resourceIDPattern c"
    using Field_head_facts(1) [OF assms(1)] assms(2) resources_names_ok [of "cs @ [FName f]"] by (auto simp: resources_def)
  then have "hd (path_of (cs @ [FName f])) \<noteq> CHR 0x00"
    using path_of_hd [OF names(1)] resource_hd by (cases cs) auto
  then have "0 < sqlite_length (path_of (cs @ [FName f]))"
    using path_of_empty [OF names(1)] by (intro sqlite_length_pos) auto
  moreover have "0 < sqlite_length (FName f)"
    using resource_hd resource_no_dot Field_head_facts(1) [OF assms(1)] by (intro sqlite_length_pos) auto
  ultimately show ?thesis
    using Field_head_facts(2-4) [OF assms(1)] by (simp add: table_fields_CHECK_def field_row_def)
qed

text \<open>\<open>free rows cs k fs\<close>: the rows leave room for \<open>fs\<close> below the path \<open>cs\<close>, from the place \<open>k\<close> on.\<close>

definition free :: "FieldRow list \<Rightarrow> string list \<Rightarrow> nat \<Rightarrow> Field list \<Rightarrow> bool" where
  "free rows cs k fs \<longleftrightarrow>
     (\<forall>r \<in> set rows. (\<forall>f \<in> set fs. \<not> prefix (cs @ [FName f]) (components (FrwPath r)))
        \<and> (field_parent r = path_of cs \<longrightarrow> FrwOrdinal r < k) \<and> prefix (components (field_parent r)) (components (FrwPath r)))
     \<and> (fs \<noteq> [] \<longrightarrow> cs \<noteq> [] \<longrightarrow>
          (\<exists>r \<in> set rows. FrwPath r = path_of cs \<and> strings_ToUpper (FrwType r) \<in> {''RECORD'', ''STRUCT''}))"

lemma insert_field_row_free:
  assumes "free rows cs k (f # fs)" "Field_Validate_head f = None" "resources cs"
  shows "insert_field_row (field_row cs k f) rows = Inr (rows @ [field_row cs k f])"
proof -
  have names: "names_ok (cs @ [FName f])"
    using assms(2,3) Field_head_facts(1) resources_names_ok [of "cs @ [FName f]"] by (auto simp: resources_def)
  have "FrwPath r \<noteq> path_of (cs @ [FName f])" if "r \<in> set rows" for r
    using assms(1) that components_path_of [OF names] by (auto simp: free_def)
  moreover have "table_fields_parent_insert rows (field_row cs k f)"
    using assms(1) by (auto simp: free_def table_fields_parent_insert_def field_row_def list_ex_iff)
  ultimately show ?thesis
    using assms(1) field_row_CHECK [OF assms(2,3)] by (fastforce simp: insert_field_row_def free_def list_ex_iff)
qed

lemma field_rows_parent:
  "names_ok cs \<Longrightarrow> named fs \<Longrightarrow> r \<in> set (field_rows cs k fs) \<Longrightarrow> prefix (components (field_parent r)) (components (FrwPath r))"
  by (induction cs k fs rule: field_rows.induct) auto

lemma free_nested:
  assumes free: "free rows cs k (f # rest)" and ok: "Field_Validate_head f = None" and cs: "names_ok (cs @ [FName f])"
  shows "free (rows @ [field_row cs k f]) (cs @ [FName f]) 0 (FFields f)"
proof -
  have old: "\<not> prefix (cs @ [FName f]) (components (FrwPath r)) \<and> prefix (components (field_parent r)) (components (FrwPath r))"
    if "r \<in> set rows" for r using that free by (auto simp: free_def)
  have old': "\<not> prefix ((cs @ [FName f]) @ [x]) (components (FrwPath r)) \<and> field_parent r \<noteq> path_of (cs @ [FName f])"
    if "r \<in> set rows" for r x
    using old [OF that] append_prefixD components_path_of [OF cs] by fastforce
  have "names_ok cs" using cs by simp
  then have new: "\<not> prefix ((cs @ [FName f]) @ [x]) (components (path_of (cs @ [FName f]))) \<and> path_of cs \<noteq> path_of (cs @ [FName f])
      \<and> prefix (components (path_of cs)) (components (path_of (cs @ [FName f])))" for x
    using cs not_prefix_self [of "cs @ [FName f]"] path_of_inj [of cs "cs @ [FName f]"] components_path_of [OF cs] by auto
  show ?thesis
    using old old' new Field_head_facts(5) [OF ok] unfolding free_def by (auto simp: field_row_def field_parent_def)
qed

lemma free_rest:
  assumes free: "free rows cs k (f # rest)" and cs: "names_ok (cs @ [FName f])" and named: "named (FFields f)" "FName f \<notin> FName ` set rest"
  shows "free ((rows @ [field_row cs k f]) @ field_rows (cs @ [FName f]) 0 (FFields f)) cs (Suc k) rest"
proof -
  have "names_ok cs" using cs by simp
  have ne: "FName g \<noteq> FName f" if "g \<in> set rest" for g using named(2) that by (metis image_eqI)
  have below: "prefix (cs @ [FName f]) (components (FrwPath r)) \<and> prefix (cs @ [FName f]) (components (field_parent r))"
    if r: "r \<in> set (field_rows (cs @ [FName f]) 0 (FFields f))" for r
  proof -
    obtain x where "prefix ((cs @ [FName f]) @ [x]) (components (FrwPath r))"
      "field_parent r = path_of (cs @ [FName f]) \<or> prefix ((cs @ [FName f]) @ [x]) (components (field_parent r))"
      using field_rows_below [OF cs named(1) r] by blast
    then show ?thesis using append_prefixD components_path_of [OF cs] by (metis prefix_order.refl)
  qed
  have nested: "\<not> prefix (cs @ [FName g]) (components (FrwPath r)) \<and> field_parent r \<noteq> path_of cs"
    if r: "r \<in> set (field_rows (cs @ [FName f]) 0 (FFields f))" and g: "g \<in> set rest" for r g
    using below [OF r] ne [OF g] prefix_sibling not_prefix_self components_path_of [OF \<open>names_ok cs\<close>] by metis
  have row: "\<not> prefix (cs @ [FName g]) (components (path_of (cs @ [FName f])))" if "g \<in> set rest" for g
    using components_path_of [OF cs] ne [OF that] by auto
  have parents: "field_parent r \<noteq> path_of cs" if "r \<in> set (field_rows (cs @ [FName f]) 0 (FFields f))" for r
    using below [OF that] not_prefix_self components_path_of [OF \<open>names_ok cs\<close>] by metis
  have rows: "(\<forall>g \<in> set rest. \<not> prefix (cs @ [FName g]) (components (FrwPath r)))
      \<and> (field_parent r = path_of cs \<longrightarrow> FrwOrdinal r < Suc k) \<and> prefix (components (field_parent r)) (components (FrwPath r))"
    if r: "r \<in> set ((rows @ [field_row cs k f]) @ field_rows (cs @ [FName f]) 0 (FFields f))" for r
  proof -
    consider "r \<in> set rows" | "r = field_row cs k f" | "r \<in> set (field_rows (cs @ [FName f]) 0 (FFields f))" using r by auto
    then show ?thesis
    proof cases
      case 1
      with free show ?thesis by (fastforce simp: free_def)
    next
      case 2
      then show ?thesis using row components_path_of [OF cs] \<open>names_ok cs\<close> by auto
    next
      case 3
      then show ?thesis using nested parents field_rows_parent [OF cs named(1)] by blast
    qed
  qed
  moreover have "\<exists>r \<in> set rows. FrwPath r = path_of cs \<and> strings_ToUpper (FrwType r) \<in> {''RECORD'', ''STRUCT''}" if "cs \<noteq> []"
    using free that by (simp add: free_def)
  ultimately show ?thesis unfolding free_def by auto
qed

lemma insertFields_field_rows:
  assumes "resources cs" "schema_ok fs" "free rows cs k fs"
  shows "insertFields (path_of cs) k fs rows = Inr (rows @ field_rows cs k fs)"
  using assms
proof (induction cs k fs arbitrary: rows rule: field_rows.induct)
  case (2 cs k n t m d p s r' nested rest)
  let ?f = "MkField n t m d p s r' nested"
  let ?row = "field_row cs k ?f" and ?nested = "field_rows (cs @ [n]) 0 nested"
  have head: "Field_Validate_head ?f = None" "schema_ok nested" "schema_ok rest" using 2(4) by auto
  have named: "named (?f # rest)" using schema_ok_named [OF 2(4)] .
  have cs: "resources (cs @ [n])" "names_ok cs" "names_ok (cs @ [n])"
    using Field_head_facts(1) [OF head(1)] 2(3) resources_names_ok [of cs] resources_names_ok [of "cs @ [n]"] by (auto simp: resources_def)
  have row: "\<lparr>FrwPath = (if path_of cs \<noteq> [] then path_of cs @ ''.'' @ n else n), FrwParent = (if path_of cs \<noteq> [] then Some (path_of cs) else None),
      FrwOrdinal = k, FrwName = n, FrwType = t, FrwMode = m, FrwDescription = d, FrwPrecision = p, FrwScale = s, FrwRoundingMode = r'\<rparr> = ?row"
    "(if path_of cs \<noteq> [] then path_of cs @ ''.'' @ n else n) = path_of (cs @ [n])"
    using path_of_empty [OF cs(2)] path_of_snoc [of cs n] by (auto simp: field_row_def path_of_def)
  have nested: "insertFields (path_of (cs @ [n])) 0 nested (rows @ [?row]) = Inr ((rows @ [?row]) @ ?nested)"
    using free_nested [OF 2(5) head(1)] cs(3) by (intro 2(1) [OF cs(1) head(2)]) simp
  have rest: "insertFields (path_of cs) (Suc k) rest ((rows @ [?row]) @ ?nested) = Inr (((rows @ [?row]) @ ?nested) @ field_rows cs (Suc k) rest)"
    using free_rest [OF 2(5)] cs(3) named by (intro 2(2) [OF 2(3) head(3)]) simp
  show ?case
    using insert_field_row_free [OF 2(5) head(1) 2(3)] nested rest row by (simp add: Let_def)
qed simp

section \<open>Stored entities\<close>

definition table_row :: "Table \<Rightarrow> TableRow" where
  "table_row t = (tableColumnValues t)\<lparr>TrwLabels := label_rows (TbLabels t), TrwClustering := enumerate 0 (TbClusteringFields t),
     TrwFields := field_rows [] 0 (TbSchema t)\<rparr>"

lemma table_ok_schema: "table_ok t \<Longrightarrow> schema_ok (TbSchema t) \<and> TbSchema t \<noteq> []"
  by (auto simp: table_ok_def Table_Validate_def validateFieldList_iff split: if_splits)

lemma write_table_row:
  assumes "table_ok t"
  shows "write_table t db = Inr (db\<lparr>CxTables := gm_put (table_id t) (table_row t) (CxTables db)\<rparr>)"
proof -
  have "insertFields [] 0 (TbSchema t) [] = Inr (field_rows [] 0 (TbSchema t))"
    using insertFields_field_rows [of "[]" "TbSchema t" "[]" 0] table_ok_schema [OF assms] by (simp add: resources_def free_def)
  then show ?thesis
    by (cases "TbTimePartitioning t"; cases "TbRangePartitioning t")
       (simp_all add: write_table_def insertTableChildren_def tables_CHECK_def all_or_none_def tableColumnValues_def table_row_def Let_def)
qed

lemma checked_table_ok: "table_ok t \<Longrightarrow> checked_table t = None"
  using table_ok_schema [of t]
  by (auto simp: checked_table_def table_ok_def intro: named_validateFieldPath schema_ok_named split: option.splits)

lemma loadLabels_rows: "labels_listed labels \<Longrightarrow> loadLabels (labels \<noteq> None) (label_rows labels) = Inr labels"
  by (auto simp: loadLabels_def label_rows_def labels_listed_def sort_key_id_if_sorted split: option.splits)

lemma loadClustering_rows: "loadClustering (fs \<noteq> []) (enumerate 0 fs) = Inr fs"
proof -
  have "sort_key fst (enumerate k fs) = enumerate k fs" for k
    by (simp add: sort_key_id_if_sorted map_fst_enumerate)
  moreover have "contiguous k (enumerate k fs)" for k by (induction fs arbitrary: k) simp_all
  ultimately show ?thesis by (simp add: loadClustering_def Let_def map_snd_enumerate)
qed

definition times_ok :: "Table \<Rightarrow> bool" where
  "times_ok t \<longleftrightarrow> rfc3339_year (TbCreatedAt t) \<and> rfc3339_year (TbUpdatedAt t)
     \<and> (case TbExpirationTime t of None \<Rightarrow> True | Some e \<Rightarrow> rfc3339_year e)"

lemma partitioning_rows:
  "time_partitioning (table_row t) = Inr (TbTimePartitioning t)" "range_partitioning (table_row t) = Inr (TbRangePartitioning t)"
  by (cases "TbTimePartitioning t"; cases "TbRangePartitioning t";
      simp add: time_partitioning_def range_partitioning_def table_row_def tableColumnValues_def)+

lemma table_row_times [simp]:
  "TrwCreatedAt (table_row t) = TbCreatedAt t" "TrwUpdatedAt (table_row t) = TbUpdatedAt t"
  "TrwExpirationTime (table_row t) = TbExpirationTime t"
  by (simp_all add: table_row_def tableColumnValues_def)

lemma loadTableChildren_row:
  assumes "table_ok t"
  shows "loadTableChildren (table_row t) (stored_columns (table_id t) (table_row t) (TbTimePartitioning t) (TbRangePartitioning t)) = Inr t"
proof -
  have "loadFields (field_rows [] 0 (TbSchema t)) = Inr (TbSchema t)"
    using table_ok_schema [OF assms] by (auto intro: loadFields_field_rows schema_ok_named)
  moreover have "loadLabels (TbLabels t \<noteq> None) (label_rows (TbLabels t)) = Inr (TbLabels t)"
    by (rule loadLabels_rows) (use assms in \<open>simp add: table_ok_def\<close>)
  moreover have "(stored_columns (table_id t) (table_row t) (TbTimePartitioning t) (TbRangePartitioning t))
      \<lparr>TbLabels := TbLabels t, TbClusteringFields := TbClusteringFields t, TbSchema := TbSchema t\<rparr> = t"
    by (simp add: stored_columns_def table_row_def tableColumnValues_def)
  moreover have "TrwLabelsPresent (table_row t) = (TbLabels t \<noteq> None)" "TrwLabels (table_row t) = label_rows (TbLabels t)"
    "TrwClusteringPresent (table_row t) = (TbClusteringFields t \<noteq> [])" "TrwClustering (table_row t) = enumerate 0 (TbClusteringFields t)"
    "TrwFields (table_row t) = field_rows [] 0 (TbSchema t)" "Table_Validate t = None"
    using assms by (auto simp: table_row_def tableColumnValues_def table_ok_def)
  ultimately show ?thesis using loadClustering_rows [of "TbClusteringFields t"] by (simp add: loadTableChildren_def Let_def)
qed

lemma read_stored_table_row:
  assumes "table_ok t"
  shows "read_stored_table (table_id t) (table_row t) = (if times_ok t then Inr t else Inl (errors_New ''decode persisted timestamp''))"
proof (cases "times_ok t")
  case True
  then have "scanTable (table_id t) (table_row t)
      = Inr (stored_columns (table_id t) (table_row t) (TbTimePartitioning t) (TbRangePartitioning t))"
    by (auto simp: scanTable_def partitioning_rows decodeTime_def decodeOptionalTime_def times_ok_def stored_columns_def split: option.splits)
  with True show ?thesis by (simp add: read_stored_table_def loadTableChildren_row [OF assms])
next
  case False
  then have "scanTable (table_id t) (table_row t) = Inl (errors_New ''decode persisted timestamp'')"
    by (auto simp: scanTable_def partitioning_rows decodeTime_def decodeOptionalTime_def times_ok_def split: option.splits)
  with False show ?thesis by (simp add: read_stored_table_def)
qed

lemma read_dataset_row:
  assumes "dataset_ok d"
  shows "read_dataset (dataset_id d) (dataset_row d)
    = (if rfc3339_year (DsCreatedAt d) \<and> rfc3339_year (DsUpdatedAt d) then Inr d else Inl (errors_New ''decode persisted timestamp''))"
proof -
  have "loadLabels (DsLabels d \<noteq> None) (label_rows (DsLabels d)) = Inr (DsLabels d)"
    by (rule loadLabels_rows) (use assms in \<open>simp add: dataset_ok_def\<close>)
  then show ?thesis by (simp add: read_dataset_def scanDataset_def dataset_row_def decodeTime_def)
qed

text \<open>What a row stands for, whether or not its times can be read.\<close>

definition stored_table :: "string \<times> string \<times> string \<Rightarrow> TableRow \<Rightarrow> Table option" where
  "stored_table k row =
     (case (time_partitioning row, range_partitioning row) of
        (Inr timeP, Inr rangeP) \<Rightarrow>
          (case loadTableChildren row (stored_columns k row timeP rangeP) of Inr t \<Rightarrow> Some t | Inl _ \<Rightarrow> None)
      | _ \<Rightarrow> None)"

definition stored_dataset :: "string \<times> string \<Rightarrow> DatasetRow \<Rightarrow> Dataset option" where
  "stored_dataset k row =
     (case loadLabels (DrwLabelsPresent row) (DrwLabels row) of Inl _ \<Rightarrow> None
      | Inr labels \<Rightarrow>
        Some \<lparr>DsProjectID = fst k, DsID = snd k, DsFriendlyName = DrwFriendlyName row, DsDescription = DrwDescription row,
              DsLocation = DrwLocation row, DsLabels = labels, DefaultTableExpirationMs = DrwTableExpiration row,
              DefaultPartitionExpirationMs = DrwPartitionExpiration row, DsCreatedAt = DrwCreatedAt row, DsUpdatedAt = DrwUpdatedAt row,
              DsHidden = DrwHidden row\<rparr>)"

lemma stored_table_row: "table_ok t \<Longrightarrow> stored_table (table_id t) (table_row t) = Some t"
  by (simp add: stored_table_def partitioning_rows loadTableChildren_row)

lemma stored_dataset_row:
  assumes "dataset_ok d"
  shows "stored_dataset (dataset_id d) (dataset_row d) = Some d"
proof -
  have "loadLabels (DsLabels d \<noteq> None) (label_rows (DsLabels d)) = Inr (DsLabels d)"
    by (rule loadLabels_rows) (use assms in \<open>simp add: dataset_ok_def\<close>)
  then show ?thesis by (simp add: stored_dataset_def dataset_row_def)
qed

definition sqlite_view :: "CatalogDB \<Rightarrow> CatalogView" where
  "sqlite_view db =
     \<lparr>VwProjects = gm_get (CxProjects db),
      VwDatasets = (\<lambda>k. Option.bind (gm_get (CxDatasets db) k) (stored_dataset k)),
      VwTables = (\<lambda>k. Option.bind (gm_get (CxTables db) k) (stored_table k))\<rparr>"

definition sqlite_catalog_ok :: "CatalogDB \<Rightarrow> bool" where
  "sqlite_catalog_ok db \<longleftrightarrow>
     gm_ok (CxProjects db) \<and> gm_ok (CxDatasets db) \<and> gm_ok (CxTables db) \<and> catalog_ok (sqlite_view db)
     \<and> (\<forall>k row. gm_get (CxDatasets db) k = Some row \<longrightarrow> (\<exists>d. dataset_ok d \<and> dataset_id d = k \<and> row = dataset_row d))
     \<and> (\<forall>k row. gm_get (CxTables db) k = Some row \<longrightarrow> (\<exists>t. table_ok t \<and> table_id t = k \<and> row = table_row t))"

lemma sqlite_view_put:
  "sqlite_view (db\<lparr>CxProjects := gm_put (PrID p) p (CxProjects db)\<rparr>) = put_project p (sqlite_view db)"
  "dataset_ok d \<Longrightarrow> sqlite_view (db\<lparr>CxDatasets := gm_put (dataset_id d) (dataset_row d) (CxDatasets db)\<rparr>) = put_dataset d (sqlite_view db)"
  "table_ok t \<Longrightarrow> sqlite_view (db\<lparr>CxTables := gm_put (table_id t) (table_row t) (CxTables db)\<rparr>) = put_table t (sqlite_view db)"
  using stored_dataset_row [of d] stored_table_row [of t]
  by (auto simp: sqlite_view_def put_project_def put_dataset_def put_table_def fun_eq_iff)

lemma sqlite_view_remove:
  assumes "sqlite_catalog_ok db"
  shows "sqlite_view (db\<lparr>CxProjects := gm_del i (CxProjects db), CxDatasets := filter (\<lambda>(k, _). fst k \<noteq> i) (CxDatasets db),
      CxTables := filter (\<lambda>(k, _). fst k \<noteq> i) (CxTables db)\<rparr>) = without_project i (sqlite_view db)"
    and "sqlite_view (db\<lparr>CxDatasets := gm_del (i, j) (CxDatasets db),
      CxTables := filter (\<lambda>(k, _). fst k = i \<longrightarrow> fst (snd k) \<noteq> j) (CxTables db)\<rparr>) = without_dataset i j (sqlite_view db)"
    and "sqlite_view (db\<lparr>CxTables := gm_del (i, j, k) (CxTables db)\<rparr>) = without_table i j k (sqlite_view db)"
  using assms
  by (auto simp: sqlite_catalog_ok_def sqlite_view_def without_project_def without_dataset_def without_table_def fun_eq_iff
      gm_get_filter split: option.splits)

lemma sqlite_catalog_ok_put:
  assumes "sqlite_catalog_ok db"
  shows "project_ok p \<Longrightarrow> sqlite_catalog_ok (db\<lparr>CxProjects := gm_put (PrID p) p (CxProjects db)\<rparr>)"
    and "dataset_ok d \<Longrightarrow> VwProjects (sqlite_view db) (DsProjectID d) \<noteq> None \<Longrightarrow>
      sqlite_catalog_ok (db\<lparr>CxDatasets := gm_put (dataset_id d) (dataset_row d) (CxDatasets db)\<rparr>)"
    and "table_ok t \<Longrightarrow> VwDatasets (sqlite_view db) (TbProjectID t, TbDatasetID t) \<noteq> None \<Longrightarrow>
      sqlite_catalog_ok (db\<lparr>CxTables := gm_put (table_id t) (table_row t) (CxTables db)\<rparr>)"
  using assms by (auto simp: sqlite_catalog_ok_def sqlite_view_put catalog_ok_changes)

lemma sqlite_catalog_ok_remove:
  assumes "sqlite_catalog_ok db"
  shows "sqlite_catalog_ok (db\<lparr>CxProjects := gm_del i (CxProjects db), CxDatasets := filter (\<lambda>(k, _). fst k \<noteq> i) (CxDatasets db),
      CxTables := filter (\<lambda>(k, _). fst k \<noteq> i) (CxTables db)\<rparr>)"
    and "sqlite_catalog_ok (db\<lparr>CxDatasets := gm_del (i, j) (CxDatasets db),
      CxTables := filter (\<lambda>(k, _). fst k = i \<longrightarrow> fst (snd k) \<noteq> j) (CxTables db)\<rparr>)"
    and "sqlite_catalog_ok (db\<lparr>CxTables := gm_del (i, j, k) (CxTables db)\<rparr>)"
  using assms sqlite_view_remove [OF assms]
  by (auto simp: sqlite_catalog_ok_def catalog_ok_changes gm_get_filter gm_ok_filter split: option.splits if_splits)

section \<open>The durable repository keeps the contract\<close>

lemma read_all_Inr: "read_all f xs = Inr ys \<Longrightarrow> (\<And>x y. x \<in> set xs \<Longrightarrow> f x = Inr y \<Longrightarrow> y = g x) \<Longrightarrow> ys = map g xs"
  by (induction xs arbitrary: ys) (auto split: sum.splits)

lemma read_all_listing:
  fixes name :: "'a \<Rightarrow> string"
  assumes m: "gm_ok m" and read: "read_all (\<lambda>(k, row). rd k row) (sort_key (\<lambda>(k, _). nm k) (filter (\<lambda>(k, _). P k) m)) = Inr ys"
    and rows: "\<And>k row. gm_get m k = Some row \<Longrightarrow>
      \<exists>x. stored k row = Some x \<and> name x = nm k \<and> (\<forall>y. rd k row = Inr y \<longrightarrow> y = x)"
    and nm: "\<And>k k'. P k \<Longrightarrow> P k' \<Longrightarrow> nm k = nm k' \<Longrightarrow> k = k'"
  shows "listing name (\<lambda>k. Option.bind (gm_get m k) (stored k)) P ys"
proof -
  let ?rows = "sort_key (\<lambda>(k, _). nm k) (filter (\<lambda>(k, _). P k) m)"
  have stored: "\<exists>x. stored k row = Some x \<and> name x = nm k \<and> (\<forall>y. rd k row = Inr y \<longrightarrow> y = x)" "P k" "gm_get m k = Some row"
    if "(k, row) \<in> set ?rows" for k row
    using that rows [of k row] m by (auto simp: gm_get_in)
  have ys: "ys = map (\<lambda>(k, row). the (stored k row)) ?rows"
  proof (rule read_all_Inr [OF read])
    fix x y assume x: "x \<in> set ?rows" "(case x of (k, row) \<Rightarrow> rd k row) = Inr y"
    obtain k row where [simp]: "x = (k, row)" by (cases x rule: prod.exhaust)
    show "y = (case x of (k, row) \<Rightarrow> the (stored k row))" using stored(1) [of k row] x by auto
  qed
  have inj: "a = b" if "a \<in> set m" "b \<in> set m" "P (fst a)" "P (fst b)" "nm (fst a) = nm (fst b)" for a b
    using that nm [of "fst a" "fst b"] m by (metis gm_get_in option.inject prod.collapse)
  have "distinct (map (\<lambda>(k, _). nm k) (filter (\<lambda>(k, _). P k) m))"
    unfolding case_prod_unfold distinct_map
  proof
    show "distinct (filter (\<lambda>a. P (fst a)) m)" using m by (auto simp: distinct_map)
    show "inj_on (\<lambda>a. nm (fst a)) (set (filter (\<lambda>a. P (fst a)) m))" by (rule inj_onI) (use inj in simp)
  qed
  then have "sorted_wrt (\<lambda>a b. (case a of (k, _) \<Rightarrow> nm k) < (case b of (k, _) \<Rightarrow> nm k)) ?rows" by (rule sort_key_strict)
  moreover have "name (case a of (k, row) \<Rightarrow> the (stored k row)) = (case a of (k, _) \<Rightarrow> nm k)" if "a \<in> set ?rows" for a
  proof -
    obtain k row where [simp]: "a = (k, row)" by (cases a rule: prod.exhaust)
    show ?thesis using stored(1) [of k row] that by auto
  qed
  ultimately have "sorted_wrt (\<lambda>a b. name a < name b) ys"
    unfolding ys sorted_wrt_map
    using sorted_wrt_mono_rel [of ?rows "\<lambda>a b. (case a of (k, _) \<Rightarrow> nm k) < (case b of (k, _) \<Rightarrow> nm k)"] by simp
  moreover have "set ys = {x. \<exists>k. P k \<and> Option.bind (gm_get m k) (stored k) = Some x}"
  proof -
    have rows: "(k, row) \<in> set ?rows \<longleftrightarrow> P k \<and> gm_get m k = Some row" for k row using m by (auto simp: gm_get_in)
    have "x \<in> set ys \<longleftrightarrow> (\<exists>k row. (k, row) \<in> set ?rows \<and> x = the (stored k row))" for x unfolding ys by auto
    then have "x \<in> set ys \<longleftrightarrow> (\<exists>k row. P k \<and> gm_get m k = Some row \<and> stored k row = Some x)" for x
      using stored(1) unfolding rows by (metis option.sel)
    then show ?thesis by (auto simp: bind_eq_Some_conv)
  qed
  ultimately show ?thesis by (simp add: listing_def)
qed

lemma sqlite_catalog_rows:
  assumes "sqlite_catalog_ok db"
  shows "gm_get (CxDatasets db) k = Some row \<Longrightarrow>
      \<exists>d. stored_dataset k row = Some d \<and> dataset_id d = k \<and> (\<forall>y. read_dataset k row = Inr y \<longrightarrow> y = d)"
    and "gm_get (CxTables db) k' = Some row' \<Longrightarrow>
      \<exists>t. stored_table k' row' = Some t \<and> table_id t = k' \<and> (\<forall>y. read_stored_table k' row' = Inr y \<longrightarrow> y = t)"
  using assms unfolding sqlite_catalog_ok_def
  by (metis read_dataset_row stored_dataset_row Inl_Inr_False sum.inject(2),
      metis read_stored_table_row stored_table_row Inl_Inr_False sum.inject(2))

lemma sqlite_view_get:
  assumes "sqlite_catalog_ok db"
  shows "VwProjects (sqlite_view db) i = gm_get (CxProjects db) i"
    and "VwDatasets (sqlite_view db) (i, j) = None \<longleftrightarrow> gm_get (CxDatasets db) (i, j) = None"
    and "VwTables (sqlite_view db) (i, j, k) = None \<longleftrightarrow> gm_get (CxTables db) (i, j, k) = None"
  using sqlite_catalog_rows(1) [OF assms, of "(i, j)"] sqlite_catalog_rows(2) [OF assms, of "(i, j, k)"]
  by (fastforce simp: sqlite_view_def split: bind_splits)+

lemma sqlite_view_present:
  assumes "sqlite_catalog_ok db"
  shows "(\<exists>d. VwDatasets (sqlite_view db) (i, j) = Some d) \<longleftrightarrow> gm_get (CxDatasets db) (i, j) \<noteq> None"
    and "(\<exists>t. VwTables (sqlite_view db) (i, j, k) = Some t) \<longleftrightarrow> gm_get (CxTables db) (i, j, k) \<noteq> None"
  using sqlite_view_get(2,3) [OF assms, symmetric] by simp_all

lemma sqlite_fault: "sqlite_catalog_ok (db\<lparr>CxFaults := fs\<rparr>) = sqlite_catalog_ok db" "sqlite_view (db\<lparr>CxFaults := fs\<rparr>) = sqlite_view db"
  by (simp_all add: sqlite_catalog_ok_def sqlite_view_def)

lemma next_catalog_fault_keeps:
  assumes "next_catalog_fault db = (f, db')"
  shows "sqlite_catalog_ok db' = sqlite_catalog_ok db" "sqlite_view db' = sqlite_view db"
  using assms by (auto simp: next_catalog_fault_def sqlite_fault split: list.splits)

lemma catalog_repositoryError_not_found: "\<not> errors_Is (catalog_repositoryError e) ErrNotFound"
  by (auto simp: catalog_repositoryError_def errors_Is_def)

lemma catalog_write_writes:
  assumes "\<And>db. sqlite_catalog_ok db \<Longrightarrow>
      (case mutate db of
         Inr db' \<Rightarrow> sqlite_catalog_ok db' \<and> pre (sqlite_view db) \<and> sqlite_view db' = change (sqlite_view db)
       | Inl e \<Rightarrow> errors_Is e ErrNotFound \<longrightarrow> gone (sqlite_view db))"
  shows "writes sqlite_catalog_ok sqlite_view (catalog_write mutate) pre gone change"
  unfolding writes_def
proof (intro allI impI)
  fix db res db' assume db: "sqlite_catalog_ok db" and call: "catalog_write mutate db = (res, db')"
  obtain f db1 where f: "next_catalog_fault db = (f, db1)" by (cases "next_catalog_fault db")
  note keeps = next_catalog_fault_keeps [OF f]
  show "sqlite_catalog_ok db' \<and> (case res of None \<Rightarrow> pre (sqlite_view db) \<and> sqlite_view db' = change (sqlite_view db)
      | Some e \<Rightarrow> sqlite_view db' = sqlite_view db \<and> (errors_Is e ErrNotFound \<longrightarrow> gone (sqlite_view db)))"
    using call assms [of db1] db keeps
    by (auto simp: catalog_write_def f catalog_repositoryError_not_found split: option.splits sum.splits if_splits)
qed

lemma catalog_read_reads:
  assumes "\<And>db. sqlite_catalog_ok db \<Longrightarrow>
      (case query db of Inr x \<Rightarrow> result (sqlite_view db) x | Inl e \<Rightarrow> e = [ErrNotFound] \<longrightarrow> gone (sqlite_view db))"
  shows "reads sqlite_catalog_ok sqlite_view (catalog_read query) result gone"
  unfolding reads_def
proof (intro allI impI)
  fix db res db' assume db: "sqlite_catalog_ok db" and call: "catalog_read query db = (res, db')"
  obtain f db1 where f: "next_catalog_fault db = (f, db1)" by (cases "next_catalog_fault db")
  note keeps = next_catalog_fault_keeps [OF f]
  show "sqlite_catalog_ok db' \<and> sqlite_view db' = sqlite_view db
      \<and> (case res of Inr x \<Rightarrow> result (sqlite_view db) x | Inl e \<Rightarrow> errors_Is e ErrNotFound \<longrightarrow> gone (sqlite_view db))"
    using call assms [of db1] db keeps
    by (auto simp: catalog_read_def f catalog_repositoryError_not_found split: option.splits sum.splits if_splits)
qed

lemma sqlite_parents:
  assumes "sqlite_catalog_ok db"
  shows "VwDatasets (sqlite_view db) (i, j) \<noteq> None \<Longrightarrow> VwProjects (sqlite_view db) i \<noteq> None"
    and "VwTables (sqlite_view db) (i, j, k) \<noteq> None \<Longrightarrow> VwDatasets (sqlite_view db) (i, j) \<noteq> None"
  using assms by (auto simp: sqlite_catalog_ok_def catalog_ok_def)

lemma decode_not_found: "decodeTime t = Inl e \<Longrightarrow> e \<noteq> [ErrNotFound]"
  by (auto simp: decodeTime_def split: if_splits)

lemma sqlite_lookup:
  assumes "sqlite_catalog_ok db"
  shows "gm_get (CxDatasets db) (i, j) = Some row \<Longrightarrow> read_dataset (i, j) row = Inr d \<Longrightarrow> VwDatasets (sqlite_view db) (i, j) = Some d"
    and "gm_get (CxTables db) (i, j, k) = Some row' \<Longrightarrow> read_stored_table (i, j, k) row' = Inr t \<Longrightarrow> VwTables (sqlite_view db) (i, j, k) = Some t"
  using sqlite_catalog_rows(1) [OF assms, of "(i, j)"] sqlite_catalog_rows(2) [OF assms, of "(i, j, k)"] by (fastforce simp: sqlite_view_def)+

lemma sqlite_write_contracts:
  "project_ok p \<Longrightarrow>
    writes sqlite_catalog_ok sqlite_view (sqlite_CreateProject p) (\<lambda>v. VwProjects v (PrID p) = None) (\<lambda>v. False) (put_project p)"
  "writes sqlite_catalog_ok sqlite_view (sqlite_DeleteProject i) (\<lambda>v. VwProjects v i \<noteq> None) (\<lambda>v. VwProjects v i = None) (without_project i)"
  "dataset_ok d \<Longrightarrow>
    writes sqlite_catalog_ok sqlite_view (sqlite_CreateDataset d) (\<lambda>v. VwProjects v (DsProjectID d) \<noteq> None \<and> VwDatasets v (dataset_id d) = None)
      (\<lambda>v. VwProjects v (DsProjectID d) = None) (put_dataset d)"
  "dataset_ok d \<Longrightarrow>
    writes sqlite_catalog_ok sqlite_view (sqlite_UpdateDataset d) (\<lambda>v. VwDatasets v (dataset_id d) \<noteq> None)
      (\<lambda>v. VwDatasets v (dataset_id d) = None) (put_dataset d)"
  "writes sqlite_catalog_ok sqlite_view (sqlite_DeleteDataset i j) (\<lambda>v. VwDatasets v (i, j) \<noteq> None) (\<lambda>v. VwDatasets v (i, j) = None)
    (without_dataset i j)"
  "table_ok t \<Longrightarrow>
    writes sqlite_catalog_ok sqlite_view (sqlite_CreateTable t)
      (\<lambda>v. VwDatasets v (TbProjectID t, TbDatasetID t) \<noteq> None \<and> VwTables v (table_id t) = None)
      (\<lambda>v. VwDatasets v (TbProjectID t, TbDatasetID t) = None) (put_table t)"
  "table_ok t \<Longrightarrow>
    writes sqlite_catalog_ok sqlite_view (sqlite_UpdateTable t) (\<lambda>v. VwTables v (table_id t) \<noteq> None) (\<lambda>v. VwTables v (table_id t) = None)
      (put_table t)"
  "writes sqlite_catalog_ok sqlite_view (sqlite_DeleteTable i j k) (\<lambda>v. VwTables v (i, j, k) \<noteq> None) (\<lambda>v. VwTables v (i, j, k) = None)
    (without_table i j k)"
proof -
  have update: "sqlite_catalog_ok (db\<lparr>CxDatasets := gm_put (dataset_id d) (dataset_row d) (CxDatasets db)\<rparr>)"
    if "sqlite_catalog_ok db" "dataset_ok d" "gm_get (CxDatasets db) (dataset_id d) \<noteq> None" for db d
    using that sqlite_parents(1) [OF that(1), of "DsProjectID d" "DsID d"] sqlite_view_get(2) [OF that(1), of "DsProjectID d" "DsID d"]
    by (intro sqlite_catalog_ok_put) auto
  have update_table: "sqlite_catalog_ok (db\<lparr>CxTables := gm_put (table_id t) (table_row t) (CxTables db)\<rparr>)"
    if "sqlite_catalog_ok db" "table_ok t" "gm_get (CxTables db) (table_id t) \<noteq> None" for db t
    using that sqlite_parents(2) [OF that(1), of "TbProjectID t" "TbDatasetID t" "TbID t"]
      sqlite_view_get(3) [OF that(1), of "TbProjectID t" "TbDatasetID t" "TbID t"]
    by (intro sqlite_catalog_ok_put) auto
  note simps = errors_Is_def sqlite_view_get sqlite_view_present sqlite_view_put sqlite_view_remove sqlite_catalog_ok_put sqlite_catalog_ok_remove
    write_table_row checked_table_ok
  show "project_ok p \<Longrightarrow>
      writes sqlite_catalog_ok sqlite_view (sqlite_CreateProject p) (\<lambda>v. VwProjects v (PrID p) = None) (\<lambda>v. False) (put_project p)"
    unfolding sqlite_CreateProject_def project_ok_def
    by (simp, rule catalog_write_writes) (auto simp: simps project_ok_def split: if_splits)
  show "writes sqlite_catalog_ok sqlite_view (sqlite_DeleteProject i) (\<lambda>v. VwProjects v i \<noteq> None) (\<lambda>v. VwProjects v i = None) (without_project i)"
    unfolding sqlite_DeleteProject_def by (rule catalog_write_writes) (auto simp: simps)
  show "dataset_ok d \<Longrightarrow>
      writes sqlite_catalog_ok sqlite_view (sqlite_CreateDataset d) (\<lambda>v. VwProjects v (DsProjectID d) \<noteq> None \<and> VwDatasets v (dataset_id d) = None)
        (\<lambda>v. VwProjects v (DsProjectID d) = None) (put_dataset d)"
    unfolding sqlite_CreateDataset_def by (simp add: dataset_ok_def, rule catalog_write_writes) (auto simp: simps dataset_ok_def)
  show "dataset_ok d \<Longrightarrow>
      writes sqlite_catalog_ok sqlite_view (sqlite_UpdateDataset d) (\<lambda>v. VwDatasets v (dataset_id d) \<noteq> None)
        (\<lambda>v. VwDatasets v (dataset_id d) = None) (put_dataset d)"
    unfolding sqlite_UpdateDataset_def by (simp add: dataset_ok_def, rule catalog_write_writes) (auto simp: simps dataset_ok_def intro: update)
  show "writes sqlite_catalog_ok sqlite_view (sqlite_DeleteDataset i j) (\<lambda>v. VwDatasets v (i, j) \<noteq> None) (\<lambda>v. VwDatasets v (i, j) = None)
      (without_dataset i j)"
    unfolding sqlite_DeleteDataset_def by (rule catalog_write_writes) (auto simp: simps)
  show "table_ok t \<Longrightarrow>
      writes sqlite_catalog_ok sqlite_view (sqlite_CreateTable t)
        (\<lambda>v. VwDatasets v (TbProjectID t, TbDatasetID t) \<noteq> None \<and> VwTables v (table_id t) = None)
        (\<lambda>v. VwDatasets v (TbProjectID t, TbDatasetID t) = None) (put_table t)"
    unfolding sqlite_CreateTable_def by (simp add: checked_table_ok, rule catalog_write_writes) (auto simp: simps)
  show "table_ok t \<Longrightarrow>
      writes sqlite_catalog_ok sqlite_view (sqlite_UpdateTable t) (\<lambda>v. VwTables v (table_id t) \<noteq> None) (\<lambda>v. VwTables v (table_id t) = None)
        (put_table t)"
    unfolding sqlite_UpdateTable_def by (simp add: checked_table_ok, rule catalog_write_writes) (auto simp: simps intro: update_table)
  show "writes sqlite_catalog_ok sqlite_view (sqlite_DeleteTable i j k) (\<lambda>v. VwTables v (i, j, k) \<noteq> None) (\<lambda>v. VwTables v (i, j, k) = None)
      (without_table i j k)"
    unfolding sqlite_DeleteTable_def by (rule catalog_write_writes) (auto simp: simps)
qed

lemma read_not_found:
  "scanProject row = Inl e \<Longrightarrow> e \<noteq> [ErrNotFound]"
  "dataset_ok d \<Longrightarrow> read_dataset (dataset_id d) (dataset_row d) = Inl e \<Longrightarrow> e \<noteq> [ErrNotFound]"
  "table_ok t \<Longrightarrow> read_stored_table (table_id t) (table_row t) = Inl e \<Longrightarrow> e \<noteq> [ErrNotFound]"
  by (auto simp: scanProject_def decodeTime_def read_dataset_row read_stored_table_row split: if_splits)

lemma sqlite_row_errors:
  assumes "sqlite_catalog_ok db"
  shows "gm_get (CxDatasets db) k = Some row \<Longrightarrow> read_dataset k row \<noteq> Inl [ErrNotFound]"
    and "gm_get (CxTables db) k' = Some row' \<Longrightarrow> read_stored_table k' row' \<noteq> Inl [ErrNotFound]"
  using assms read_not_found(2,3) unfolding sqlite_catalog_ok_def by metis+

lemma read_all_not_found:
  "read_all f xs = Inl e \<Longrightarrow> (\<And>x e. x \<in> set xs \<Longrightarrow> f x = Inl e \<Longrightarrow> e \<noteq> [ErrNotFound]) \<Longrightarrow> e \<noteq> [ErrNotFound]"
  by (induction xs) (auto split: sum.splits)

lemma scanProject_Inr: "scanProject row = Inr p \<Longrightarrow> p = row"
  by (auto simp: scanProject_def decodeTime_def split: if_splits)

lemma sqlite_read_contracts:
  "reads sqlite_catalog_ok sqlite_view (sqlite_GetProject i) (\<lambda>v p. VwProjects v i = Some p) (\<lambda>v. VwProjects v i = None)"
  "reads sqlite_catalog_ok sqlite_view sqlite_ListProjects (\<lambda>v. listing PrID (VwProjects v) (\<lambda>k. True)) (\<lambda>v. False)"
  "reads sqlite_catalog_ok sqlite_view (sqlite_GetDataset i j) (\<lambda>v d. VwDatasets v (i, j) = Some d) (\<lambda>v. VwDatasets v (i, j) = None)"
  "reads sqlite_catalog_ok sqlite_view (sqlite_ListDatasets i) (\<lambda>v. listing DsID (VwDatasets v) (\<lambda>k. fst k = i)) (\<lambda>v. VwProjects v i = None)"
  "reads sqlite_catalog_ok sqlite_view (sqlite_GetTable i j k) (\<lambda>v t. VwTables v (i, j, k) = Some t) (\<lambda>v. VwTables v (i, j, k) = None)"
  "reads sqlite_catalog_ok sqlite_view (sqlite_ListTables i j) (\<lambda>v. listing TbID (VwTables v) (\<lambda>k. fst k = i \<and> fst (snd k) = j))
    (\<lambda>v. VwDatasets v (i, j) = None)"
proof -
  show "reads sqlite_catalog_ok sqlite_view (sqlite_GetProject i) (\<lambda>v p. VwProjects v i = Some p) (\<lambda>v. VwProjects v i = None)"
    unfolding sqlite_GetProject_def
    by (rule catalog_read_reads) (auto simp: sqlite_view_get dest: scanProject_Inr read_not_found split: option.splits sum.splits)
  show "reads sqlite_catalog_ok sqlite_view sqlite_ListProjects (\<lambda>v. listing PrID (VwProjects v) (\<lambda>k. True)) (\<lambda>v. False)"
    unfolding sqlite_ListProjects_def
  proof (rule catalog_read_reads)
    fix db assume db: "sqlite_catalog_ok db"
    then have names: "gm_get (CxProjects db) k = Some p \<Longrightarrow> k = PrID p" for k p
      by (auto simp: sqlite_catalog_ok_def catalog_ok_def sqlite_view_def)
    have "listing PrID (gm_get (CxProjects db)) (\<lambda>k. True) (sort_key PrID (map snd (CxProjects db)))"
      using sort_key_gomap [of "CxProjects db" "\<lambda>_. True" PrID] names db by (auto simp: listing_def sqlite_catalog_ok_def)
    then show "case read_all scanProject (sort_key PrID (map snd (CxProjects db))) of
        Inl e \<Rightarrow> e = [ErrNotFound] \<longrightarrow> False | Inr ps \<Rightarrow> listing PrID (VwProjects (sqlite_view db)) (\<lambda>k. True) ps"
      using read_all_Inr [of scanProject _ _ "\<lambda>x. x"] read_all_not_found [of scanProject] read_not_found(1) scanProject_Inr
      by (fastforce simp: sqlite_view_def split: sum.splits)
  qed
  show "reads sqlite_catalog_ok sqlite_view (sqlite_GetDataset i j) (\<lambda>v d. VwDatasets v (i, j) = Some d) (\<lambda>v. VwDatasets v (i, j) = None)"
    unfolding sqlite_GetDataset_def
  proof (rule catalog_read_reads)
    fix db assume db: "sqlite_catalog_ok db"
    have "e \<noteq> [ErrNotFound]" if "gm_get (CxDatasets db) (i, j) = Some row" "read_dataset (i, j) row = Inl e" for row e
      using that sqlite_row_errors(1) [OF db] by auto
    then show "case case gm_get (CxDatasets db) (i, j) of None \<Rightarrow> Inl [ErrNotFound] | Some row \<Rightarrow> read_dataset (i, j) row of
        Inl e \<Rightarrow> e = [ErrNotFound] \<longrightarrow> VwDatasets (sqlite_view db) (i, j) = None | Inr d \<Rightarrow> VwDatasets (sqlite_view db) (i, j) = Some d"
      using sqlite_lookup(1) [OF db] sqlite_view_get(2) [OF db] by (auto split: option.splits sum.splits)
  qed
  show "reads sqlite_catalog_ok sqlite_view (sqlite_GetTable i j k) (\<lambda>v t. VwTables v (i, j, k) = Some t) (\<lambda>v. VwTables v (i, j, k) = None)"
    unfolding sqlite_GetTable_def
  proof (rule catalog_read_reads)
    fix db assume db: "sqlite_catalog_ok db"
    have "e \<noteq> [ErrNotFound]" if "gm_get (CxTables db) (i, j, k) = Some row" "read_stored_table (i, j, k) row = Inl e" for row e
      using that sqlite_row_errors(2) [OF db] by auto
    then show "case case gm_get (CxTables db) (i, j, k) of None \<Rightarrow> Inl [ErrNotFound] | Some row \<Rightarrow> read_stored_table (i, j, k) row of
        Inl e \<Rightarrow> e = [ErrNotFound] \<longrightarrow> VwTables (sqlite_view db) (i, j, k) = None | Inr t \<Rightarrow> VwTables (sqlite_view db) (i, j, k) = Some t"
      using sqlite_lookup(2) [OF db] sqlite_view_get(3) [OF db] by (auto split: option.splits sum.splits)
  qed
  show "reads sqlite_catalog_ok sqlite_view (sqlite_ListDatasets i) (\<lambda>v. listing DsID (VwDatasets v) (\<lambda>k. fst k = i)) (\<lambda>v. VwProjects v i = None)"
    unfolding sqlite_ListDatasets_def
  proof (rule catalog_read_reads)
    fix db assume db: "sqlite_catalog_ok db"
    let ?rows = "sort_key (\<lambda>(k, _). snd k) (filter (\<lambda>(k, _). fst k = i) (CxDatasets db))"
    have e: "e \<noteq> [ErrNotFound]" if "read_all (\<lambda>(k, row). read_dataset k row) ?rows = Inl e" for e
      using that by (rule read_all_not_found) (use db sqlite_row_errors(1) [OF db] in \<open>auto simp: sqlite_catalog_ok_def gm_get_in\<close>)
    have xs: "listing DsID (VwDatasets (sqlite_view db)) (\<lambda>k. fst k = i) ds" if "read_all (\<lambda>(k, row). read_dataset k row) ?rows = Inr ds" for ds
      using read_all_listing [OF _ that, of stored_dataset DsID] sqlite_catalog_rows(1) [OF db] db
      by (fastforce simp: sqlite_view_def sqlite_catalog_ok_def prod_eq_iff)
    show "case if gm_get (CxProjects db) i = None then Inl [ErrNotFound] else read_all (\<lambda>(k, row). read_dataset k row) ?rows of
        Inl e \<Rightarrow> e = [ErrNotFound] \<longrightarrow> VwProjects (sqlite_view db) i = None
      | Inr ds \<Rightarrow> listing DsID (VwDatasets (sqlite_view db)) (\<lambda>k. fst k = i) ds"
      using e xs sqlite_view_get(1) [OF db] by (auto split: sum.splits)
  qed
  show "reads sqlite_catalog_ok sqlite_view (sqlite_ListTables i j) (\<lambda>v. listing TbID (VwTables v) (\<lambda>k. fst k = i \<and> fst (snd k) = j))
      (\<lambda>v. VwDatasets v (i, j) = None)"
    unfolding sqlite_ListTables_def
  proof (rule catalog_read_reads)
    fix db assume db: "sqlite_catalog_ok db"
    let ?rows = "sort_key (\<lambda>(k, _). snd (snd k)) (filter (\<lambda>(k, _). fst k = i \<and> fst (snd k) = j) (CxTables db))"
    have e: "e \<noteq> [ErrNotFound]" if "read_all (\<lambda>(k, row). read_stored_table k row) ?rows = Inl e" for e
      using that by (rule read_all_not_found) (use db sqlite_row_errors(2) [OF db] in \<open>auto simp: sqlite_catalog_ok_def gm_get_in\<close>)
    have xs: "listing TbID (VwTables (sqlite_view db)) (\<lambda>k. fst k = i \<and> fst (snd k) = j) ts"
      if "read_all (\<lambda>(k, row). read_stored_table k row) ?rows = Inr ts" for ts
      using read_all_listing [OF _ that, of stored_table TbID] sqlite_catalog_rows(2) [OF db] db
      by (fastforce simp: sqlite_view_def sqlite_catalog_ok_def prod_eq_iff)
    show "case if gm_get (CxDatasets db) (i, j) = None then Inl [ErrNotFound] else read_all (\<lambda>(k, row). read_stored_table k row) ?rows of
        Inl e \<Rightarrow> e = [ErrNotFound] \<longrightarrow> VwDatasets (sqlite_view db) (i, j) = None
      | Inr ts \<Rightarrow> listing TbID (VwTables (sqlite_view db)) (\<lambda>k. fst k = i \<and> fst (snd k) = j) ts"
      using e xs sqlite_view_get(2) [OF db] by (auto split: sum.splits)
  qed
qed

interpretation sqlite_catalog: catalog_repository sqlite_catalog sqlite_catalog_ok sqlite_view
  by (unfold_locales, unfold sqlite_catalog_def CatalogRepository.simps)
     (rule sqlite_write_contracts sqlite_read_contracts | simp add: sqlite_catalog_ok_def)+

section \<open>A database that answers\<close>

lemma sqlite_reads:
  assumes "sqlite_catalog_ok db" "CxFaults db = []"
  shows "VwDatasets (sqlite_view db) (i, j) = Some d \<Longrightarrow> rfc3339_year (DsCreatedAt d) \<Longrightarrow> rfc3339_year (DsUpdatedAt d)
      \<Longrightarrow> sqlite_GetDataset i j db = (Inr d, db)"
    and "VwTables (sqlite_view db) (i, j, k) = Some t \<Longrightarrow> sqlite_GetTable i j k db = (if times_ok t then Inr t else Inl [ErrBackend], db)"
    and "VwTables (sqlite_view db) (i, j, k) = None \<Longrightarrow> sqlite_GetTable i j k db = (Inl [ErrNotFound], db)"
proof -
  assume d: "VwDatasets (sqlite_view db) (i, j) = Some d" "rfc3339_year (DsCreatedAt d)" "rfc3339_year (DsUpdatedAt d)"
  then obtain row where row: "gm_get (CxDatasets db) (i, j) = Some row" "stored_dataset (i, j) row = Some d"
    by (auto simp: sqlite_view_def split: bind_splits)
  obtain e where e: "dataset_ok e" "dataset_id e = (i, j)" "row = dataset_row e"
    using assms(1) row(1) unfolding sqlite_catalog_ok_def by blast
  have "stored_dataset (dataset_id e) (dataset_row e) = Some e" by (rule stored_dataset_row [OF e(1)])
  then have "e = d" using row(2) e(2,3) by simp
  then have "read_dataset (i, j) row = Inr d" using read_dataset_row [OF e(1)] e(2,3) d(2,3) by simp
  then show "sqlite_GetDataset i j db = (Inr d, db)"
    using row(1) assms(2) by (simp add: sqlite_GetDataset_def catalog_read_def next_catalog_fault_def)
next
  assume "VwTables (sqlite_view db) (i, j, k) = Some t"
  then obtain row where row: "gm_get (CxTables db) (i, j, k) = Some row" "stored_table (i, j, k) row = Some t"
    by (auto simp: sqlite_view_def split: bind_splits)
  obtain u where u: "table_ok u" "table_id u = (i, j, k)" "row = table_row u"
    using assms(1) row(1) unfolding sqlite_catalog_ok_def by blast
  have "stored_table (table_id u) (table_row u) = Some u" by (rule stored_table_row [OF u(1)])
  then have "u = t" using row(2) u(2,3) by simp
  then have "read_stored_table (i, j, k) row = (if times_ok t then Inr t else Inl (errors_New ''decode persisted timestamp''))"
    using read_stored_table_row [OF u(1)] u(2,3) by simp
  then show "sqlite_GetTable i j k db = (if times_ok t then Inr t else Inl [ErrBackend], db)"
    using row(1) assms(2) by (simp add: sqlite_GetTable_def catalog_read_def next_catalog_fault_def catalog_repositoryError_def)
next
  assume "VwTables (sqlite_view db) (i, j, k) = None"
  then show "sqlite_GetTable i j k db = (Inl [ErrNotFound], db)"
    using assms sqlite_view_get(3) [OF assms(1)] by (simp add: sqlite_GetTable_def catalog_read_def next_catalog_fault_def)
qed

lemma sqlite_creates_table:
  assumes "sqlite_catalog_ok db" "CxFaults db = []" "table_ok t"
    and "VwDatasets (sqlite_view db) (TbProjectID t, TbDatasetID t) \<noteq> None" "VwTables (sqlite_view db) (table_id t) = None"
  shows "\<exists>db'. sqlite_CreateTable t db = (None, db') \<and> sqlite_catalog_ok db' \<and> CxFaults db' = [] \<and> sqlite_view db' = put_table t (sqlite_view db)"
proof -
  let ?db = "db\<lparr>CxTables := gm_put (table_id t) (table_row t) (CxTables db)\<rparr>"
  have present: "gm_get (CxDatasets db) (TbProjectID t, TbDatasetID t) \<noteq> None" "gm_get (CxTables db) (table_id t) = None"
    using assms(4,5) sqlite_view_get(2,3) [OF assms(1)] by auto
  have call: "sqlite_CreateTable t db = (None, ?db)"
    using present checked_table_ok [OF assms(3)] write_table_row [OF assms(3)] assms(2)
    by (simp add: sqlite_CreateTable_def catalog_write_def next_catalog_fault_def)
  have "writes sqlite_catalog_ok sqlite_view (sqlite_CreateTable t)
      (\<lambda>v. VwDatasets v (TbProjectID t, TbDatasetID t) \<noteq> None \<and> VwTables v (table_id t) = None)
      (\<lambda>v. VwDatasets v (TbProjectID t, TbDatasetID t) = None) (put_table t)"
    using sqlite_catalog.create_table [OF assms(3)] by (simp add: sqlite_catalog_def)
  then have "sqlite_catalog_ok ?db \<and> sqlite_view ?db = put_table t (sqlite_view db)"
    using assms(1) call unfolding writes_def by fastforce
  then show ?thesis using call assms(2) by simp
qed

text \<open>
  C10. A table that the SQLite catalog accepts is read back exactly as it was written, its nested schema, its labels, its partitioning
  and its clustering included, from the rows of four SQL tables. The one exception is a time outside the years of RFC 3339, which is
  written and can then never be read.
\<close>

theorem sqlite_table_reads_back:
  assumes "sqlite_catalog_ok db" "CxFaults db = []" "table_ok t"
    and "VwDatasets (sqlite_view db) (TbProjectID t, TbDatasetID t) \<noteq> None" "VwTables (sqlite_view db) (table_id t) = None"
  shows "\<exists>db'. sqlite_CreateTable t db = (None, db') \<and> sqlite_catalog_ok db'
    \<and> sqlite_GetTable (TbProjectID t) (TbDatasetID t) (TbID t) db' = (if times_ok t then Inr t else Inl [ErrBackend], db')"
proof -
  obtain db' where db: "sqlite_CreateTable t db = (None, db')" "sqlite_catalog_ok db'" "CxFaults db' = []" "sqlite_view db' = put_table t (sqlite_view db)"
    using sqlite_creates_table [OF assms] by blast
  then show ?thesis using sqlite_reads(2) [OF db(2,3)] by (simp add: put_table_def)
qed

definition sample_project :: Project where
  "sample_project = \<lparr>PrID = ''demo-project'', PrFriendlyName = [], PrDescription = [], PrCreatedAt = 1, PrUpdatedAt = 1\<rparr>"

definition sample_dataset :: Dataset where
  "sample_dataset = \<lparr>DsProjectID = ''demo-project'', DsID = ''events'', DsFriendlyName = [], DsDescription = [], DsLocation = ''US'',
     DsLabels = Some [(''env'', ''dev''), (''team'', ''a'')], DefaultTableExpirationMs = Some 3600000, DefaultPartitionExpirationMs = None,
     DsCreatedAt = 5, DsUpdatedAt = 5, DsHidden = False\<rparr>"

definition sample_catalog :: CatalogDB where
  "sample_catalog =
     \<lparr>CxProjects = [(''demo-project'', sample_project)],
      CxDatasets = [(dataset_id sample_dataset, dataset_row sample_dataset)], CxTables = [], CxFaults = []\<rparr>"

lemma sample_dataset_ok: "dataset_ok sample_dataset" by code_simp

lemma sample_view:
  "sqlite_view sample_catalog =
     \<lparr>VwProjects = [''demo-project'' \<mapsto> sample_project],
      VwDatasets = [dataset_id sample_dataset \<mapsto> sample_dataset], VwTables = Map.empty\<rparr>"
  using stored_dataset_row [OF sample_dataset_ok] by (auto simp: sqlite_view_def sample_catalog_def fun_eq_iff)

lemma sample_catalog_ok: "sqlite_catalog_ok sample_catalog"
proof -
  have "Project_Validate sample_project = None" by code_simp
  then have "catalog_ok (sqlite_view sample_catalog)"
    using sample_dataset_ok by (simp add: catalog_ok_def sample_view project_ok_def sample_dataset_def sample_project_def)
  then show ?thesis using sample_dataset_ok
    by (auto simp: sqlite_catalog_ok_def sample_catalog_def split: if_splits)
qed

definition sample_clicks :: Table where
  "sample_clicks = \<lparr>TbProjectID = ''demo-project'', TbDatasetID = ''events'', TbID = ''clicks'', TbFriendlyName = [], TbDescription = ''raw'',
     TbLabels = Some [(''env'', ''dev'')], TbType = ''TABLE'', TbSchema = [MkField ''id'' ''INT64'' ''REQUIRED'' [] None None [] [],
       MkField ''tags'' ''RECORD'' ''REPEATED'' [] None None [] [MkField ''k'' ''STRING'' [] [] None None [] [], MkField ''v'' ''NUMERIC'' [] [] (Some 10) (Some 2) [] []]],
     TbLocation = ''US'', TbExpirationTime = None, TbTimePartitioning = None, TbRangePartitioning = None, TbClusteringFields = [''id''],
     TbCreatedAt = 7, TbUpdatedAt = 8\<rparr>"

theorem sqlite_table_reads_back_witness:
  "\<exists>db. sqlite_CreateTable sample_clicks sample_catalog = (None, db)
     \<and> sqlite_GetTable ''demo-project'' ''events'' ''clicks'' db = (Inr sample_clicks, db)"
proof -
  have ids: "TbProjectID sample_clicks = ''demo-project''" "TbDatasetID sample_clicks = ''events''" "TbID sample_clicks = ''clicks''"
    by (simp_all add: sample_clicks_def)
  have ok: "table_ok sample_clicks" and times: "times_ok sample_clicks" by code_simp+
  have "CxFaults sample_catalog = []" by (simp add: sample_catalog_def)
  moreover have "VwDatasets (sqlite_view sample_catalog) (TbProjectID sample_clicks, TbDatasetID sample_clicks) \<noteq> None"
    "VwTables (sqlite_view sample_catalog) (table_id sample_clicks) = None"
    by (simp_all add: ids sample_view sample_dataset_def)
  ultimately show ?thesis using sqlite_table_reads_back [OF sample_catalog_ok _ ok] times unfolding ids by auto
qed

end
