(* ===== verification/Catalog_Duckdb.thy ===== *)
theory Catalog_Duckdb
  imports Catalog_Expiry Catalog_Sqlite Load_Behaviour
begin

text \<open>
  The catalog service as \<open>cmd/emulator/main.go\<close> assembles it: the SQLite catalog in front of the DuckDB warehouse. DuckDB's documented effect of
  the statements the warehouse sends is the named hypothesis \<open>ddl_as_documented\<close>; under it the warehouse meets the contract of a catalog
  storage, and the theorems of the service hold for the assembled one.
\<close>

section \<open>The warehouse as the storage of a catalog\<close>

definition duckdb_storage :: "Warehouse \<Rightarrow> ('w, 'x) DuckDB \<Rightarrow> 'w CatalogStorage" where
  "duckdb_storage wh db =
     \<lparr>StCreateDataset = CreateDataset db, StDropDataset = DropDataset db, StPlanSchema = Warehouse_PlanSchema wh,
      StCreatePlannedTable = (\<lambda>plan t. CreatePlannedTable wh db plan (table_reference t) (TbSchema t)),
      StApplyPlannedSchemaAdditions = (\<lambda>plan t. ApplyPlannedSchemaAdditions wh db plan (table_reference t) (TbSchema t)),
      StDropTable = DropTable db\<rparr>"

section \<open>DuckDB's data definition statements\<close>

text \<open>
  A database holds schemas and tables, whose names are compared without case. A statement that fails changes nothing, and its error is not
  one of the emulator's. A transaction starts from the database; altering tables in it adds and drops none; its commit makes its
  tables the database's or fails.
\<close>

definition ddl_as_documented ::
  "('w, 'x) DuckDB \<Rightarrow> ('w \<Rightarrow> string set) \<Rightarrow> ('w \<Rightarrow> (string \<times> string) set) \<Rightarrow> ('x \<Rightarrow> string set) \<Rightarrow> ('x \<Rightarrow> (string \<times> string) set) \<Rightarrow> bool" where
  "ddl_as_documented db schemas tables tx_schemas tx_tables \<longleftrightarrow>
     (\<forall>n. storage_call schemas tables (DkExec db (''CREATE SCHEMA '' @ quoteIdentifier n)) (insert (folded n)) (\<lambda>ts. ts))
     \<and> (\<forall>n. storage_call schemas tables (DkExec db (''DROP SCHEMA '' @ quoteIdentifier n @ '' CASCADE''))
           (\<lambda>ss. ss - {folded n}) (\<lambda>ts. {x \<in> ts. fst x \<noteq> folded n}))
     \<and> (\<forall>n t columns. storage_call schemas tables (DkExec db (''CREATE TABLE '' @ quoteIdentifier n @ ''.'' @ quoteIdentifier t @ '' ('' @ columns @ '')''))
           (\<lambda>ss. ss) (insert (folded n, folded t)))
     \<and> (\<forall>n t. storage_call schemas tables (DkExec db (''DROP TABLE IF EXISTS '' @ quoteIdentifier n @ ''.'' @ quoteIdentifier t))
           (\<lambda>ss. ss) (\<lambda>ts. ts - {(folded n, folded t)}))
     \<and> (\<forall>statement w e w'. DkExec db statement w = (Some e, w') \<longrightarrow> \<not> errors_Is e ErrNotFound)
     \<and> (\<forall>w x. DkBegin db w = Inr x \<longrightarrow> tx_schemas x = schemas w \<and> tx_tables x = tables w)
     \<and> (\<forall>statement x e x'. DkTxExec db (''ALTER TABLE '' @ statement) x = (e, x') \<longrightarrow> tx_schemas x' = tx_schemas x \<and> tx_tables x' = tx_tables x)
     \<and> (\<forall>x w e w'. DkTxCommit db x w = (e, w') \<longrightarrow>
           (if e = None then schemas w' = tx_schemas x \<and> tables w' = tx_tables x else schemas w' = schemas w \<and> tables w' = tables w))"

definition duckdb_datasets :: "('w \<Rightarrow> string set) \<Rightarrow> 'w \<Rightarrow> (string \<times> string) set" where
  "duckdb_datasets schemas w = {(p, d). physicalSchema p d \<in> schemas w}"

definition duckdb_tables :: "('w \<Rightarrow> (string \<times> string) set) \<Rightarrow> 'w \<Rightarrow> (string \<times> string \<times> string) set" where
  "duckdb_tables tables w = {(p, d, k). (physicalSchema p d, k) \<in> tables w}"

lemma physicalSchema_inj [simp]: "physicalSchema p d = physicalSchema p' d' \<longleftrightarrow> p = p' \<and> d = d'"
  by (metis option.inject prod.inject read_physicalSchema)

lemma lower_hex:
  assumes "n < 16"
  shows "lower_char (hex_char n) = hex_char n"
proof -
  have "list_all (\<lambda>n. lower_char (hex_char n) = hex_char n) [0..<16]" by code_simp
  then show ?thesis using assms by (simp add: list_all_iff)
qed

lemma folded_hex: "folded (hex_EncodeToString s) = hex_EncodeToString s"
  by (induction s) (simp_all add: hex_EncodeToString_def strings_ToLower_def lower_hex)

lemma folded_append: "folded (a @ b) = folded a @ folded b"
  by (simp add: strings_ToLower_def)

lemma folded_physicalSchema [simp]: "folded (physicalSchema p d) = physicalSchema p d"
  unfolding physicalSchema_def folded_append folded_hex by (simp add: strings_ToLower_def lower_char_def)

text \<open>Names of datasets and tables carry the calls over from schema names.\<close>

lemma storage_call_named:
  assumes "storage_call schemas tables call ss ts"
    and "\<And>S. {(p, d). physicalSchema p d \<in> ss S} = ds {(p, d). physicalSchema p d \<in> S}"
    and "\<And>T. {(p, d, k). (physicalSchema p d, k) \<in> ts T} = us {(p, d, k). (physicalSchema p d, k) \<in> T}"
  shows "storage_call (duckdb_datasets schemas) (duckdb_tables tables) call ds us"
  using assms unfolding storage_call_def duckdb_datasets_def duckdb_tables_def by (fastforce split: option.splits)

lemma ddl_statements:
  assumes ddl: "ddl_as_documented db schemas tables tx_schemas tx_tables"
  shows "storage_call schemas tables (CreateDataset db p d) (insert (physicalSchema p d)) (\<lambda>ts. ts)"
    "storage_call schemas tables (DropDataset db p d) (\<lambda>ss. ss - {physicalSchema p d}) (\<lambda>ts. {x \<in> ts. fst x \<noteq> physicalSchema p d})"
    "storage_call schemas tables (DkExec db (''CREATE TABLE '' @ physical_table p d i @ '' ('' @ columns @ '')'')) (\<lambda>ss. ss)
       (insert (physicalSchema p d, folded i))"
    "storage_call schemas tables (DropTable db p d i) (\<lambda>ss. ss) (\<lambda>ts. ts - {(physicalSchema p d, folded i)})"
  using ddl [unfolded ddl_as_documented_def, THEN conjunct1, rule_format, of "physicalSchema p d"]
    ddl [unfolded ddl_as_documented_def, THEN conjunct2, THEN conjunct1, rule_format, of "physicalSchema p d"]
    ddl [unfolded ddl_as_documented_def, THEN conjunct2, THEN conjunct2, THEN conjunct1, rule_format, of "physicalSchema p d" i columns]
    ddl [unfolded ddl_as_documented_def, THEN conjunct2, THEN conjunct2, THEN conjunct2, THEN conjunct1, rule_format, of "physicalSchema p d" i]
  unfolding CreateDataset_def [abs_def] DropDataset_def [abs_def] DropTable_def [abs_def] physical_table_def folded_physicalSchema append_assoc
  by - (assumption+)

lemma exec_all_alter:
  assumes "ddl_as_documented db schemas tables tx_schemas tx_tables" "list_all (\<lambda>s. \<exists>rest. s = ''ALTER TABLE '' @ rest) ss"
    "exec_all db ss x = (res, x')"
  shows "tx_schemas x' = tx_schemas x \<and> tx_tables x' = tx_tables x"
  using assms(2,3)
proof (induction ss arbitrary: x)
  case (Cons s ss)
  obtain rest where s: "s = ''ALTER TABLE '' @ rest" using Cons.prems(1) by auto
  obtain r1 x1 where ex: "DkTxExec db s x = (r1, x1)" by (cases "DkTxExec db s x")
  have same: "tx_schemas x1 = tx_schemas x \<and> tx_tables x1 = tx_tables x"
    using assms(1) ex unfolding s ddl_as_documented_def by blast
  show ?case using Cons.prems ex same Cons.IH by (cases r1) auto
qed simp

lemma addition_statements_alter:
  "addition_statements name schema retyped as = (ss, err) \<Longrightarrow> list_all (\<lambda>s. \<exists>rest. s = ''ALTER TABLE '' @ rest) ss"
proof (induction name schema retyped "as" arbitrary: ss err rule: addition_statements.induct)
  case (2 name schema retyped a as)
  then show ?case by (auto split: if_splits option.splits sum.splits prod.splits)
qed simp

lemma additions_named:
  assumes ddl: "ddl_as_documented db schemas tables tx_schemas tx_tables"
  shows "storage_call schemas tables (ApplyPlannedSchemaAdditions wh db plan target schema additions) (\<lambda>ss. ss) (\<lambda>ts. ts)"
  unfolding storage_call_def
proof (intro allI impI)
  fix w res w' assume call: "ApplyPlannedSchemaAdditions wh db plan target schema additions w = (res, w')"
  have "schemas w' = schemas w \<and> tables w' = tables w" if call: "ApplySchemaAdditions db target schema additions w = (res, w')" for res w'
  proof (cases "additions = [] \<or> (\<exists>e. DkBegin db w = Inl e)")
    case True
    then have "w' = w" using call by (auto simp: ApplySchemaAdditions_def split: if_splits)
    then show ?thesis by simp
  next
    case False
    then obtain x where x: "DkBegin db w = Inr x" and some: "additions \<noteq> []" by (cases "DkBegin db w") auto
    let ?name = "physical_table (DrProjectID target) (DrDatasetID target) (DrTableID target)"
    obtain ss planned where st: "addition_statements ?name schema [] additions = (ss, planned)" by (cases "addition_statements ?name schema [] additions")
    obtain r1 x1 where ex: "exec_all db ss x = (r1, x1)" by (cases "exec_all db ss x")
    have same: "tx_schemas x1 = schemas w \<and> tx_tables x1 = tables w"
      using exec_all_alter [OF ddl addition_statements_alter [OF st] ex] ddl x unfolding ddl_as_documented_def by metis
    show ?thesis
    proof (cases "r1 = None \<and> planned = None")
      case True
      then have "DkTxCommit db x1 w = (res, w')" using call x some st ex by (simp add: ApplySchemaAdditions_def)
      then show ?thesis using ddl same unfolding ddl_as_documented_def by metis
    next
      case False
      then have "w' = w" using call x some st ex by (auto simp: ApplySchemaAdditions_def split: option.splits)
      then show ?thesis by simp
    qed
  qed
  then show "case res of None \<Rightarrow> schemas w' = schemas w \<and> tables w' = tables w | Some e \<Rightarrow> schemas w' = schemas w \<and> tables w' = tables w"
    using call by (auto simp: ApplyPlannedSchemaAdditions_def split: if_splits sum.splits option.splits)
qed

lemma create_planned_named:
  assumes ddl: "ddl_as_documented db schemas tables tx_schemas tx_tables"
  shows "storage_call schemas tables (CreatePlannedTable wh db plan target schema) (\<lambda>ss. ss)
    (insert (physicalSchema (DrProjectID target) (DrDatasetID target), folded (DrTableID target)))"
  unfolding storage_call_def
proof (intro allI impI)
  fix w res w' assume call: "CreatePlannedTable wh db plan target schema w = (res, w')"
  let ?create = "\<lambda>columns. ''CREATE TABLE '' @ physical_table (DrProjectID target) (DrDatasetID target) (DrTableID target) @ '' ('' @ columns @ '')''"
  have create: "createTable db target schema w = (r, v) \<Longrightarrow> (\<exists>e. r = Some e \<and> v = w) \<or> (\<exists>columns. DkExec db (?create columns) w = (r, v))" for r v
    by (auto simp: createTable_def split: sum.splits)
  consider e where "res = Some e" "w' = w" | columns where "DkExec db (?create columns) w = (res, w')"
  proof (cases "\<exists>intent. create_intent target schema = Inr intent \<and> validate_binding wh plan intent = None")
    case True
    then have "createTable db target schema w = (res, w')" using call by (auto simp: CreatePlannedTable_def)
    then show ?thesis using create that by blast
  next
    case False
    then consider e where "create_intent target schema = Inl e"
      | intent e where "create_intent target schema = Inr intent" "validate_binding wh plan intent = Some e"
      by (metis not_None_eq old.sum.exhaust)
    then show ?thesis
    proof cases
      case (1 e)
      then show ?thesis using call that(1) [of e] by (simp add: CreatePlannedTable_def)
    next
      case (2 intent e)
      then show ?thesis using call that(1) [of e] by (simp add: CreatePlannedTable_def)
    qed
  qed
  then show "case res of
      None \<Rightarrow> schemas w' = schemas w
        \<and> tables w' = insert (physicalSchema (DrProjectID target) (DrDatasetID target), folded (DrTableID target)) (tables w)
    | Some e \<Rightarrow> schemas w' = schemas w \<and> tables w' = tables w"
  proof cases
    case 2
    then show ?thesis using ddl_statements(3) [OF ddl, of "DrProjectID target" "DrDatasetID target" "DrTableID target" columns] unfolding storage_call_def by blast
  qed simp
qed

lemma duckdb_storage_contract:
  assumes ddl: "ddl_as_documented db schemas tables tx_schemas tx_tables"
  shows "catalog_storage (duckdb_storage wh db) (duckdb_datasets schemas) (duckdb_tables tables)"
proof
  fix p d
  show "storage_call (duckdb_datasets schemas) (duckdb_tables tables) (StCreateDataset (duckdb_storage wh db) p d) (insert (p, d)) (\<lambda>ts. ts)"
    unfolding duckdb_storage_def CatalogStorage.simps by (rule storage_call_named [OF ddl_statements(1) [OF ddl]]) auto
  show "storage_call (duckdb_datasets schemas) (duckdb_tables tables) (StDropDataset (duckdb_storage wh db) p d) (\<lambda>ds. ds - {(p, d)})
      (\<lambda>ts. {x \<in> ts. \<not> (fst x = p \<and> fst (snd x) = d)})"
    unfolding duckdb_storage_def CatalogStorage.simps by (rule storage_call_named [OF ddl_statements(2) [OF ddl]]) auto
next
  fix plan t
  show "storage_call (duckdb_datasets schemas) (duckdb_tables tables) (StCreatePlannedTable (duckdb_storage wh db) plan t) (\<lambda>ds. ds)
      (insert (TbProjectID t, TbDatasetID t, folded (TbID t)))"
    unfolding duckdb_storage_def CatalogStorage.simps by (rule storage_call_named [OF create_planned_named [OF ddl]]) (auto simp: table_reference_def)
  fix additions
  show "storage_call (duckdb_datasets schemas) (duckdb_tables tables) (StApplyPlannedSchemaAdditions (duckdb_storage wh db) plan t additions)
      (\<lambda>ds. ds) (\<lambda>ts. ts)"
    unfolding duckdb_storage_def CatalogStorage.simps by (rule storage_call_named [OF additions_named [OF ddl]]) auto
next
  fix p d i
  show "storage_call (duckdb_datasets schemas) (duckdb_tables tables) (StDropTable (duckdb_storage wh db) p d i) (\<lambda>ds. ds) (\<lambda>ts. ts - {(p, d, folded i)})"
    unfolding duckdb_storage_def CatalogStorage.simps by (rule storage_call_named [OF ddl_statements(4) [OF ddl]]) auto
  fix w e w'
  assume "StDropTable (duckdb_storage wh db) p d i w = (Some e, w')" "errors_Is e ErrNotFound"
  then show "(p, d, folded i) \<notin> duckdb_tables tables w"
    using ddl unfolding duckdb_storage_def CatalogStorage.simps DropTable_def ddl_as_documented_def by blast
qed

section \<open>The assembled service\<close>

text \<open>\<open>composeCatalogService\<close> of \<open>cmd/emulator/main.go\<close>, with the settings of the configuration it reads.\<close>

record CatalogConfig =
  CfLocation :: string
  CfMaxPageRows :: int
  CfMaxResponseBytes :: int
  CfMaxRowBytes :: int

definition composeCatalogService ::
  "CatalogConfig \<Rightarrow> 'c CatalogRepository \<Rightarrow> 'w CatalogStorage \<Rightarrow> (TableDataReadRequest \<Rightarrow> 'w \<Rightarrow> go_error + TableDataPage) option
    \<Rightarrow> (nat \<Rightarrow> time) \<Rightarrow> ('c, 'w) CatalogService" where
  "composeCatalogService cfg repository storage tableData clock =
     WithMaxTableDataRowBytes (CfMaxRowBytes cfg) (WithMaxTableDataResponseBytes (CfMaxResponseBytes cfg)
       (WithMaxTableDataPageRows (CfMaxPageRows cfg) (WithTableDataReader tableData
         (WithDefaultLocation (CfLocation cfg) (NewCatalogService repository storage clock)))))"

lemma composeCatalogService_ports [simp]:
  "SvCatalog (composeCatalogService cfg repository storage tableData clock) = repository"
  "SvWarehouse (composeCatalogService cfg repository storage tableData clock) = storage"
  "SvClock (composeCatalogService cfg repository storage tableData clock) = clock"
  by (simp_all add: composeCatalogService_def NewCatalogService_def WithMaxTableDataRowBytes_def WithMaxTableDataResponseBytes_def
      WithMaxTableDataPageRows_def WithTableDataReader_def WithDefaultLocation_def)

abbreviation emulator_catalog ::
  "CatalogConfig \<Rightarrow> Warehouse \<Rightarrow> ('w, 'x) DuckDB \<Rightarrow> (TableDataReadRequest \<Rightarrow> 'w \<Rightarrow> go_error + TableDataPage) option \<Rightarrow> (nat \<Rightarrow> time)
    \<Rightarrow> (CatalogDB, 'w) CatalogService" where
  "emulator_catalog cfg wh db tableData clock \<equiv> composeCatalogService cfg sqlite_catalog (duckdb_storage wh db) tableData clock"

lemma emulator_catalog_service:
  assumes "ddl_as_documented db schemas tables tx_schemas tx_tables"
  shows "catalog_service (emulator_catalog cfg wh db tableData clock) sqlite_catalog_ok sqlite_view (duckdb_datasets schemas) (duckdb_tables tables)"
  unfolding catalog_service_def composeCatalogService_ports
  using sqlite_catalog.catalog_repository_axioms duckdb_storage_contract [OF assms] by blast

definition emulator_kept :: "('w \<Rightarrow> string set) \<Rightarrow> ('w \<Rightarrow> (string \<times> string) set) \<Rightarrow> (CatalogDB, 'w) CatalogState \<Rightarrow> bool" where
  "emulator_kept schemas tables s \<longleftrightarrow>
     sqlite_catalog_ok (CsCatalog s)
     \<and> orphan_free (sqlite_view (CsCatalog s)) (duckdb_datasets schemas (CsStorage s)) (duckdb_tables tables (CsStorage s))"

lemma emulator_kept_iff:
  assumes "ddl_as_documented db schemas tables tx_schemas tx_tables"
  shows "catalog_service.catalog_kept sqlite_catalog_ok sqlite_view (duckdb_datasets schemas) (duckdb_tables tables) s = emulator_kept schemas tables s"
  using catalog_service.catalog_kept_def [OF emulator_catalog_service [OF assms]] by (simp add: emulator_kept_def)

section \<open>A database that understands the statements\<close>

text \<open>
  A small database that reads the five statements of the warehouse by their grammar and keeps the names of its schemas and tables; it
  refuses what DuckDB refuses. It shows that the documented behaviour can be had, and it is the engine of the examples.
\<close>

record Names =
  NmSchemas :: "string list"
  NmTables :: "(string \<times> string) list"

definition after :: "string \<Rightarrow> string \<Rightarrow> string option" where
  "after start text = (if take (length start) text = start then Some (drop (length start) text) else None)"

lemma after_append [simp]: "after start (start @ rest) = Some rest"
  by (simp add: after_def)

definition read_qualified :: "string \<Rightarrow> (string \<times> string \<times> string) option" where
  "read_qualified text =
     (case read_identifier text of
        Some (n, c # rest) \<Rightarrow>
          if c \<noteq> CHR ''.'' then None else (case read_identifier rest of Some (t, rest') \<Rightarrow> Some (n, t, rest') | None \<Rightarrow> None)
      | _ \<Rightarrow> None)"

lemma read_qualified_quoted:
  assumes "rest = [] \<or> hd rest \<noteq> CHR 0x22"
  shows "read_qualified (quoteIdentifier n @ CHR ''.'' # quoteIdentifier t @ rest) = Some (n, t, rest)"
  using assms by (simp add: read_qualified_def read_quoteIdentifier)

definition refused :: "Names \<Rightarrow> go_error option \<times> Names" where
  "refused w = (Some (errors_New ''Catalog Error''), w)"

definition names_exec :: "string \<Rightarrow> Names \<Rightarrow> go_error option \<times> Names" where
  "names_exec statement w =
     (case after ''CREATE SCHEMA '' statement of
        Some rest \<Rightarrow>
          (case read_identifier rest of
             Some (n, _) \<Rightarrow> if folded n \<in> set (NmSchemas w) then refused w else (None, w\<lparr>NmSchemas := folded n # NmSchemas w\<rparr>)
           | None \<Rightarrow> refused w)
      | None \<Rightarrow>
     (case after ''DROP SCHEMA '' statement of
        Some rest \<Rightarrow>
          (case read_identifier rest of
             Some (n, _) \<Rightarrow>
               if folded n \<notin> set (NmSchemas w) then refused w
               else (None, \<lparr>NmSchemas = removeAll (folded n) (NmSchemas w), NmTables = filter (\<lambda>x. fst x \<noteq> folded n) (NmTables w)\<rparr>)
           | None \<Rightarrow> refused w)
      | None \<Rightarrow>
     (case after ''CREATE TABLE '' statement of
        Some rest \<Rightarrow>
          (case read_qualified rest of
             Some (n, t, _) \<Rightarrow>
               if folded n \<notin> set (NmSchemas w) \<or> (folded n, folded t) \<in> set (NmTables w) then refused w
               else (None, w\<lparr>NmTables := (folded n, folded t) # NmTables w\<rparr>)
           | None \<Rightarrow> refused w)
      | None \<Rightarrow>
     (case after ''DROP TABLE IF EXISTS '' statement of
        Some rest \<Rightarrow>
          (case read_qualified rest of
             Some (n, t, _) \<Rightarrow> (None, w\<lparr>NmTables := removeAll (folded n, folded t) (NmTables w)\<rparr>)
           | None \<Rightarrow> refused w)
      | None \<Rightarrow> refused w))))"

definition names_duckdb :: "(Names, Names) DuckDB" where
  "names_duckdb =
     \<lparr>DkVersion = Inr ''v1.4.0'', DkPing = None, DkExec = names_exec, DkBegin = Inr, DkTxExec = \<lambda>_ x. (None, x),
      DkTxDescribe = \<lambda>_ _. Inr (0, [], None), DkTxCount = \<lambda>_ _. Inr 0, DkTxExists = \<lambda>_ _. Inr False, DkTxCommit = \<lambda>x _. (None, x)\<rparr>"

lemma names_create_schema:
  "names_exec (''CREATE SCHEMA '' @ quoteIdentifier n) w =
     (if folded n \<in> set (NmSchemas w) then refused w else (None, w\<lparr>NmSchemas := folded n # NmSchemas w\<rparr>))"
  using read_quoteIdentifier [of "[]" n] by (simp add: names_exec_def after_def)

lemma names_drop_schema:
  "names_exec (''DROP SCHEMA '' @ quoteIdentifier n @ '' CASCADE'') w =
     (if folded n \<notin> set (NmSchemas w) then refused w
      else (None, \<lparr>NmSchemas = removeAll (folded n) (NmSchemas w), NmTables = filter (\<lambda>x. fst x \<noteq> folded n) (NmTables w)\<rparr>))"
  using read_quoteIdentifier [of "'' CASCADE''" n] by (simp add: names_exec_def after_def)

lemma names_create_table:
  "names_exec (''CREATE TABLE '' @ quoteIdentifier n @ ''.'' @ quoteIdentifier t @ '' ('' @ columns) w =
     (if folded n \<notin> set (NmSchemas w) \<or> (folded n, folded t) \<in> set (NmTables w) then refused w
      else (None, w\<lparr>NmTables := (folded n, folded t) # NmTables w\<rparr>))"
  using read_qualified_quoted [of "'' ('' @ columns" n t] by (simp add: names_exec_def after_def)

lemma names_drop_table:
  "names_exec (''DROP TABLE IF EXISTS '' @ quoteIdentifier n @ ''.'' @ quoteIdentifier t) w =
     (None, w\<lparr>NmTables := removeAll (folded n, folded t) (NmTables w)\<rparr>)"
  using read_qualified_quoted [of "[]" n t] by (simp add: names_exec_def after_def)

lemma names_errors: "names_exec statement w = (Some e, w') \<Longrightarrow> \<not> errors_Is e ErrNotFound"
  by (auto simp: names_exec_def refused_def errors_Is_def split: option.splits if_splits)

abbreviation name_schemas :: "Names \<Rightarrow> string set" where
  "name_schemas w \<equiv> set (NmSchemas w)"

abbreviation name_tables :: "Names \<Rightarrow> (string \<times> string) set" where
  "name_tables w \<equiv> set (NmTables w)"

lemma names_documented: "ddl_as_documented names_duckdb name_schemas name_tables name_schemas name_tables"
proof -
  have engine: "DkExec names_duckdb = names_exec" "DkBegin names_duckdb = Inr" "DkTxExec names_duckdb = (\<lambda>_ x. (None, x))"
    "DkTxCommit names_duckdb = (\<lambda>x _. (None, x))" by (simp_all add: names_duckdb_def)
  show ?thesis
    unfolding ddl_as_documented_def storage_call_def engine names_create_schema names_drop_schema names_create_table names_drop_table refused_def
    by (auto dest: names_errors split: if_splits)
qed

interpretation names_catalog: catalog_service "composeCatalogService cfg sqlite_catalog (duckdb_storage wh names_duckdb) tableData clock"
  sqlite_catalog_ok sqlite_view "duckdb_datasets name_schemas" "duckdb_tables name_tables"
  by (rule emulator_catalog_service [OF names_documented])

section \<open>Creating a table of a flat schema\<close>

text \<open>DuckDB accepts a well-formed \<open>CREATE TABLE\<close> in a schema that it has, for a name that it does not have.\<close>

definition creates_tables :: "('w, 'x) DuckDB \<Rightarrow> ('w \<Rightarrow> string set) \<Rightarrow> ('w \<Rightarrow> (string \<times> string) set) \<Rightarrow> bool" where
  "creates_tables db schemas tables \<longleftrightarrow>
     (\<forall>p d i fs columns w. table_columns fs = Inr columns \<longrightarrow> columns \<noteq> [] \<longrightarrow> physicalSchema p d \<in> schemas w
        \<longrightarrow> (physicalSchema p d, folded i) \<notin> tables w
        \<longrightarrow> fst (DkExec db (''CREATE TABLE '' @ physical_table p d i @ '' ('' @ strings_Join columns '', '' @ '')'') w) = None)"

lemma flat_table_columns: "list_all flat_field schema \<Longrightarrow> schema_ok schema \<Longrightarrow> \<exists>columns. table_columns schema = Inr columns \<and> length columns = length schema"
proof (induction schema)
  case (Cons f fs)
  then have "Field_Validate f = None" using schema_ok_Field_Validate by auto
  then obtain physical where "duckDBType f = Inr physical" using duckDBType_accepts by blast
  with Cons show ?case by auto
qed simp

lemma flat_table_planned:
  assumes wh: "NewWarehouse db ddl a b c = Inr wh" and valid: "Table_Validate t = None" and flat: "list_all flat_field (TbSchema t)"
  obtains plan where "planEngineSchema (duckdb_storage wh db) (create_descriptor SchemaOperationCreate t) = Inr plan"
    "\<And>w. CreatePlannedTable wh db plan (table_reference t) (TbSchema t) w = createTable db (table_reference t) (TbSchema t) w"
proof -
  obtain identity caps planner where w: "NewCapabilities (duckdb_descriptor identity) = Inr caps"
    "planner = \<lparr>SlCapabilities = caps, SlAdapter = Some ValidateSchemaIntent, SlIssuer = Some a\<rparr>" "WhSchemaPlanner wh = Some planner"
    by (rule NewWarehouse_Inr [OF wh])
  have table: "Table_Validate (logical_table (table_reference t) (TbSchema t)) = None"
    using valid by (simp add: Table_Validate_def logical_table_def table_reference_def split: if_splits)
  have ok: "schema_ok (TbSchema t)" using valid by (auto simp: Table_Validate_def validateFieldList_iff split: if_splits)
  have "validateFieldList [MkField ''placeholder'' ''STRING'' [] [] None None [] []] = None" by code_simp
  then have target: "validateTableReference (table_reference t) = None"
    using valid by (auto simp: validateTableReference_def Table_Validate_def logical_table_def table_reference_def split: if_splits)
  let ?d = "create_descriptor SchemaOperationCreate t"
  obtain intent where i: "NewSchemaIntent ?d = Inr intent" "SiOperation intent = SchemaOperationCreate" "SiAfterSchema intent = TbSchema t"
    "SchemaIntent_validate intent = None"
    using table target
    by (auto simp: create_descriptor_def NewSchemaIntent_def validateSchemaIntentTransition_def validateLogicalTableSchema_def
        validSchemaOperation_def CloneFields_id SchemaIntent_validate_None schemaIntentFingerprint_def intent_document_def Let_def)
  have "Capabilities_DDL caps DDLCreateTable = Some \<lparr>DcGuarantee = AtomicPhysicalStatement, DcMaxFieldPathDepth = 0\<rparr>"
    using NewCapabilities_fields(4) [OF w(1)] by (simp add: Capabilities_DDL_def duckdb_descriptor_def)
  then have supported: "validateSchemaOperationCapabilities caps intent = None"
    using i(2) by (simp add: validateSchemaOperationCapabilities_def ddlGuaranteeSatisfies_def)
  have "\<exists>plan. SchemaPlanner_Plan planner intent = Inr plan"
    using w(2) i supported flat_schema_types [OF flat ok] flat_schema_supported [OF w(1) flat ok]
    by (auto simp: SchemaPlanner_Plan_def ValidateSchemaIntent_def Let_def)
  then obtain plan where plan: "SchemaPlanner_Plan planner intent = Inr plan" by blast
  have "SchemaPlanner_ValidateBinding planner plan intent = None"
    using plan [unfolded SchemaPlanner_Plan_Inr] w(2) by (auto simp: SchemaPlanner_ValidateBinding_None)
  then have bound: "CreatePlannedTable wh db plan (table_reference t) (TbSchema t) w = createTable db (table_reference t) (TbSchema t) w" for w
    using i(1) w(3) by (simp add: CreatePlannedTable_def create_intent_def create_descriptor_def validate_binding_def)
  have "planEngineSchema (duckdb_storage wh db) ?d = Inr plan"
    using i(1) plan w(3) by (simp add: planEngineSchema_def duckdb_storage_def Warehouse_PlanSchema_def)
  then show thesis using bound that by blast
qed

lemma flat_table_created:
  assumes wh: "NewWarehouse db adapter a b c = Inr wh" and ddl: "ddl_as_documented db schemas tables tx_schemas tx_tables"
    and accepts: "creates_tables db schemas tables" and kept: "emulator_kept schemas tables s" and quiet: "CxFaults (CsCatalog s) = []"
    and t: "table_ok t" "list_all flat_field (TbSchema t)"
    and ds: "VwDatasets (sqlite_view (CsCatalog s)) (TbProjectID t, TbDatasetID t) = Some dataset"
      "rfc3339_year (DsCreatedAt dataset)" "rfc3339_year (DsUpdatedAt dataset)"
      "physicalSchema (TbProjectID t) (TbDatasetID t) \<in> schemas (CsStorage s)"
    and free: "VwTables (sqlite_view (CsCatalog s)) (table_id t) = None"
      "(physicalSchema (TbProjectID t) (TbDatasetID t), folded (TbID t)) \<notin> tables (CsStorage s)"
    and u: "u = table_defaults dataset (clock (CsTicks s)) t" "times_ok u" "\<not> tableExpired u (clock (Suc (CsTicks s)))"
  shows "\<exists>s1 s2. catalog_CreateTable (emulator_catalog cfg wh db tableData clock) t s = (Inr u, s1)
    \<and> catalog_GetTable (emulator_catalog cfg wh db tableData clock) (TbProjectID t) (TbDatasetID t) (TbID t) s1 = (Inr u, s2)"
proof -
  let ?sv = "emulator_catalog cfg wh db tableData clock"
  have valid: "Table_Validate t = None" using t(1) by (simp add: table_ok_def)
  obtain plan where plan: "planEngineSchema (duckdb_storage wh db) (create_descriptor SchemaOperationCreate t) = Inr plan"
    and bound: "\<And>w. CreatePlannedTable wh db plan (table_reference t) (TbSchema t) w = createTable db (table_reference t) (TbSchema t) w"
    using flat_table_planned [OF wh valid t(2)] by blast
  have okc: "sqlite_catalog_ok (CsCatalog s)" using kept by (simp add: emulator_kept_def)
  have get: "on_catalog (sqlite_GetDataset (TbProjectID t) (TbDatasetID t)) s = (Inr dataset, s)"
    using sqlite_reads(1) [OF okc quiet ds(1-3)] by (simp add: on_catalog_def)
  have clear: "clear_expired ?sv t s = (None, s)"
    using sqlite_reads(3) [OF okc quiet free(1)] by (simp add: clear_expired_def on_catalog_def sqlite_catalog_def errors_Is_def)
  let ?s = "s\<lparr>CsTicks := Suc (CsTicks s)\<rparr>"
  have same: "table_reference u = table_reference t" "TbSchema u = TbSchema t" "table_id u = table_id t"
    "TbProjectID u = TbProjectID t" "TbDatasetID u = TbDatasetID t" "TbID u = TbID t"
    using u(1) by (simp_all add: table_defaults_def table_reference_def)
  have schema: "schema_ok (TbSchema t)" "TbSchema t \<noteq> []"
    using valid by (auto simp: Table_Validate_def validateFieldList_iff split: if_splits)
  obtain columns where columns: "table_columns (TbSchema t) = Inr columns" "columns \<noteq> []"
    using flat_table_columns [OF t(2) schema(1)] schema(2) by force
  let ?create = "''CREATE TABLE '' @ physical_table (TbProjectID t) (TbDatasetID t) (TbID t) @ '' ('' @ strings_Join columns '', '' @ '')''"
  obtain w where w: "DkExec db ?create (CsStorage s) = (None, w)"
    using accepts columns ds(4) free(2) unfolding creates_tables_def by (metis prod.collapse)
  have stored: "on_storage (CreatePlannedTable wh db plan (table_reference u) (TbSchema u)) ?s = (None, ?s\<lparr>CsStorage := w\<rparr>)"
    unfolding same on_storage_def bound using columns(1) w by (simp add: createTable_def table_reference_def)
  have ok: "table_ok u" unfolding u(1) using t(1) by (rule catalog_service.table_defaults_ok [OF emulator_catalog_service [OF ddl]])
  obtain c' where c: "sqlite_CreateTable u (CsCatalog s) = (None, c')" "sqlite_catalog_ok c'" "CxFaults c' = []"
      "sqlite_view c' = put_table u (sqlite_view (CsCatalog s))"
    using sqlite_creates_table [OF okc quiet ok] ds(1) free(1) unfolding same by auto
  let ?s1 = "?s\<lparr>CsStorage := w, CsCatalog := c'\<rparr>"
  have "publish_table ?sv plan u ?s = (Inr u, ?s1)"
    using stored c(1) by (simp add: publish_table_def duckdb_storage_def sqlite_catalog_def on_catalog_def)
  then have "catalog_CreateTable ?sv t s = (Inr u, ?s1)"
    using valid plan get clear u(1) by (simp add: catalog_CreateTable_def sqlite_catalog_def clock_Now_def)
  moreover have "VwTables (sqlite_view c') (TbProjectID t, TbDatasetID t, TbID t) = Some u"
    unfolding c(4) by (simp add: put_table_def same)
  then have "catalog_GetTable ?sv (TbProjectID t) (TbDatasetID t) (TbID t) ?s1 = (Inr u, ?s1\<lparr>CsTicks := Suc (Suc (CsTicks s))\<rparr>)"
    using sqlite_reads(2) [OF c(2,3)] u(2,3) by (simp add: catalog_GetTable_def getTableLocked_def on_catalog_def sqlite_catalog_def clock_Now_def)
  ultimately show ?thesis by blast
qed

section \<open>What the assembled catalog promises\<close>

text \<open>
  C4. Whatever sequence of requests the catalog serves, whatever faults SQLite and DuckDB answer with, there is never a DuckDB schema
  without its dataset or a DuckDB table without a table of its name in the SQLite catalog, and the catalog stays valid, unless a request
  reported that a compensation failed.
\<close>

theorem emulator_keeps_no_orphans:
  assumes "ddl_as_documented db schemas tables tx_schemas tx_tables" "emulator_kept schemas tables s"
    and "list_all (\<lambda>x. request_listed (snd x)) rs" "serve_catalog_all (emulator_catalog cfg wh db tableData clock) rs s = (results, s')"
    and "list_all (\<lambda>r. case r of None \<Rightarrow> True | Some e \<Rightarrow> compensated e) results"
  shows "emulator_kept schemas tables s'"
proof -
  note service = emulator_catalog_service [OF assms(1), of cfg wh tableData clock]
  have "compensated e" if "Some e \<in> set results" for e using assms(5) that by (auto simp: list_all_iff)
  then show ?thesis
    using catalog_service.serve_catalog_all_keeps [OF service _ assms(3,4)] assms(2) emulator_kept_iff [OF assms(1)] by simp
qed


text \<open>
  C8. A listing of a dataset is exactly the tables that the catalog holds of it afterwards, in the order of their names, and none of them had
  expired when the listing began; a table that the listing removed had expired.
\<close>

theorem emulator_lists_live_tables:
  assumes "ddl_as_documented db schemas tables tx_schemas tx_tables" "emulator_kept schemas tables s"
    and "\<And>m n. m \<le> n \<Longrightarrow> clock m \<le> clock n"
    and "listTablesLocked (emulator_catalog cfg wh db tableData clock) p d s = (Inr ts, s')"
  shows "sorted_wrt (\<lambda>a b. TbID a < TbID b) ts \<and> set ts = {t. \<exists>i. VwTables (sqlite_view (CsCatalog s')) (p, d, i) = Some t}
    \<and> list_all (\<lambda>t. \<not> tableExpired t (clock (CsTicks s))) ts
    \<and> (\<forall>k. VwTables (sqlite_view (CsCatalog s')) k = VwTables (sqlite_view (CsCatalog s)) k
         \<or> (\<exists>t n. VwTables (sqlite_view (CsCatalog s)) k = Some t \<and> CsTicks s \<le> n \<and> n < CsTicks s' \<and> tableExpired t (clock n)))"
proof -
  note service = emulator_catalog_service [OF assms(1), of cfg wh tableData clock]
  have kept: "catalog_service.catalog_kept sqlite_catalog_ok sqlite_view (duckdb_datasets schemas) (duckdb_tables tables) s"
    using assms(2) emulator_kept_iff [OF assms(1)] by simp
  have steady: "steady (emulator_catalog cfg wh db tableData clock)" using assms(3) by (simp add: steady_def)
  note eff = catalog_service.listTables_effect [OF service kept assms(4) steady]
  have "VwTables (sqlite_view (CsCatalog s')) k = VwTables (sqlite_view (CsCatalog s)) k
      \<or> (\<exists>t n. VwTables (sqlite_view (CsCatalog s)) k = Some t \<and> CsTicks s \<le> n \<and> n < CsTicks s' \<and> tableExpired t (clock n))" for k
    using eff(1) unfolding catalog_service.swept_def [OF service] composeCatalogService_ports by blast
  then show ?thesis using eff(3) by (auto simp: listing_def list_all_iff)
qed




section \<open>Examples\<close>

definition sample_stale :: Table where
  "sample_stale = sample_clicks\<lparr>TbID := ''stale'', TbExpirationTime := Some 50\<rparr>"

definition sample_shop :: CatalogDB where
  "sample_shop = sample_catalog\<lparr>CxTables := [(table_id sample_clicks, table_row sample_clicks), (table_id sample_stale, table_row sample_stale)]\<rparr>"

definition sample_names :: "string list \<Rightarrow> Names" where
  "sample_names ts =
     \<lparr>NmSchemas = [physicalSchema ''demo-project'' ''events''], NmTables = map (\<lambda>t. (physicalSchema ''demo-project'' ''events'', t)) ts\<rparr>"

definition sample_clock :: "nat \<Rightarrow> time" where
  "sample_clock n = 100 + int n"

definition shop_config :: CatalogConfig where
  "shop_config = \<lparr>CfLocation = ''EU'', CfMaxPageRows = 100, CfMaxResponseBytes = 1000, CfMaxRowBytes = 100\<rparr>"

lemma sample_ids [simp]:
  "TbProjectID sample_clicks = ''demo-project''" "TbDatasetID sample_clicks = ''events''" "TbID sample_clicks = ''clicks''"
  "TbProjectID sample_stale = ''demo-project''" "TbDatasetID sample_stale = ''events''" "TbID sample_stale = ''stale''"
  "DsProjectID sample_dataset = ''demo-project''" "DsID sample_dataset = ''events''"
  by (simp_all add: sample_clicks_def sample_stale_def sample_dataset_def)

lemma sample_tables_ok: "table_ok sample_clicks" "table_ok sample_stale" "times_ok sample_clicks" "times_ok sample_stale"
  by code_simp+

lemma sample_shop_view: "sqlite_view sample_shop = put_table sample_clicks (put_table sample_stale (sqlite_view sample_catalog))"
  using stored_table_row [OF sample_tables_ok(1)] stored_table_row [OF sample_tables_ok(2)]
  by (simp add: sqlite_view_def sample_shop_def sample_catalog_def put_table_def fun_eq_iff)

lemma sample_shop_tables: "VwTables (sqlite_view sample_shop) =
    [(''demo-project'', ''events'', ''stale'') \<mapsto> sample_stale, (''demo-project'', ''events'', ''clicks'') \<mapsto> sample_clicks]"
  "VwDatasets (sqlite_view sample_shop) (''demo-project'', ''events'') = Some sample_dataset"
  by (simp_all add: sample_shop_view put_table_def sample_view)

lemma sample_shop_ok: "sqlite_catalog_ok sample_shop"
proof -
  have old: "catalog_ok (sqlite_view sample_catalog)" using sample_catalog_ok by (simp add: sqlite_catalog_ok_def)
  have "catalog_ok (put_table sample_stale (sqlite_view sample_catalog))"
    by (rule catalog_ok_put_table [OF old sample_tables_ok(2)]) (simp add: sample_view)
  then have "catalog_ok (sqlite_view sample_shop)"
    unfolding sample_shop_view by (rule catalog_ok_put_table [OF _ sample_tables_ok(1)]) (simp add: sample_view put_table_def)
  then show ?thesis using sample_dataset_ok sample_tables_ok
    by (auto simp: sqlite_catalog_ok_def sample_shop_def sample_catalog_def split: if_splits)
qed

lemma sample_storage:
  "duckdb_datasets name_schemas (sample_names ts) = {(''demo-project'', ''events'')}"
  "duckdb_tables name_tables (sample_names ts) = (\<lambda>t. (''demo-project'', ''events'', t)) ` set ts"
  by (auto simp: duckdb_datasets_def duckdb_tables_def sample_names_def)

definition shop_state :: "(CatalogDB, Names) CatalogState" where
  "shop_state = \<lparr>CsCatalog = sample_shop, CsStorage = sample_names [''clicks'', ''stale''], CsTicks = 0\<rparr>"

lemma sample_kept: "emulator_kept name_schemas name_tables shop_state"
proof -
  have folded: "folded ''clicks'' = ''clicks''" "folded ''stale'' = ''stale''" by code_simp+
  have "orphan_free (sqlite_view sample_shop) {(''demo-project'', ''events'')} ((\<lambda>t. (''demo-project'', ''events'', t)) ` {''clicks'', ''stale''})"
  proof (rule orphan_freeI)
    fix p d k assume k: "(p, d, k) \<in> (\<lambda>t. (''demo-project'', ''events'', t)) ` {''clicks'', ''stale''}"
    then have "VwTables (sqlite_view sample_shop) (p, d, k) \<noteq> None \<and> folded k = k" using folded by (auto simp: sample_shop_tables)
    then show "\<exists>i. VwTables (sqlite_view sample_shop) (p, d, i) \<noteq> None \<and> folded i = k" by blast
  qed (use sample_shop_tables(2) in auto)
  then show ?thesis using sample_shop_ok sample_storage [of "[''clicks'', ''stale'']"] by (simp add: emulator_kept_def shop_state_def)
qed

lemma sample_clock_steady: "m \<le> n \<Longrightarrow> sample_clock m \<le> sample_clock n"
  by (simp add: sample_clock_def)

abbreviation sample_service :: "Warehouse \<Rightarrow> (CatalogDB, Names) CatalogService" where
  "sample_service wh \<equiv> emulator_catalog shop_config wh names_duckdb None sample_clock"

lemma sample_quiet: "CxFaults sample_shop = []"
  by (simp add: sample_shop_def sample_catalog_def)

lemma sample_expiry: "\<not> tableExpired sample_clicks now" "tableExpired sample_stale now \<longleftrightarrow> 50 \<le> now"
  by (auto simp: tableExpired_def sample_clicks_def sample_stale_def)

lemma sample_reads:
  "sqlite_GetTable ''demo-project'' ''events'' ''clicks'' sample_shop = (Inr sample_clicks, sample_shop)"
  "sqlite_GetTable ''demo-project'' ''events'' ''stale'' sample_shop = (Inr sample_stale, sample_shop)"
  "sqlite_GetDataset ''demo-project'' ''events'' sample_shop = (Inr sample_dataset, sample_shop)"
proof -
  have years: "rfc3339_year (DsCreatedAt sample_dataset)" "rfc3339_year (DsUpdatedAt sample_dataset)" by code_simp+
  show "sqlite_GetDataset ''demo-project'' ''events'' sample_shop = (Inr sample_dataset, sample_shop)"
    by (rule sqlite_reads(1) [OF sample_shop_ok sample_quiet sample_shop_tables(2) years])
  show "sqlite_GetTable ''demo-project'' ''events'' ''clicks'' sample_shop = (Inr sample_clicks, sample_shop)"
    "sqlite_GetTable ''demo-project'' ''events'' ''stale'' sample_shop = (Inr sample_stale, sample_shop)"
    using sqlite_reads(2) [OF sample_shop_ok sample_quiet] sample_tables_ok by (simp_all add: sample_shop_tables)
qed

lemma sample_listing: "sqlite_ListTables ''demo-project'' ''events'' sample_shop = (Inr [sample_clicks, sample_stale], sample_shop)"
proof -
  have "''clicks'' < (''stale'' :: string)" by code_simp
  then have "sort_key (\<lambda>(k, _). snd (snd k)) (CxTables sample_shop) = CxTables sample_shop"
    by (simp add: sample_shop_def)
  moreover have "filter (\<lambda>(k, _). fst k = ''demo-project'' \<and> fst (snd k) = ''events'') (CxTables sample_shop) = CxTables sample_shop"
    by (simp add: sample_shop_def)
  moreover have "read_all (\<lambda>(k, row). read_stored_table k row) (CxTables sample_shop) = Inr [sample_clicks, sample_stale]"
    using read_stored_table_row [OF sample_tables_ok(1)] read_stored_table_row [OF sample_tables_ok(2)] sample_tables_ok(3,4)
    by (simp add: sample_shop_def)
  moreover have "gm_get (CxDatasets sample_shop) (''demo-project'', ''events'') \<noteq> None" by (simp add: sample_shop_def sample_catalog_def)
  ultimately show ?thesis by (simp add: sqlite_ListTables_def catalog_read_def next_catalog_fault_def sample_quiet)
qed

definition swept_shop :: CatalogDB where
  "swept_shop = sample_shop\<lparr>CxTables := gm_del (''demo-project'', ''events'', ''stale'') (CxTables sample_shop)\<rparr>"

lemma sample_removal:
  "removeExpiredTableLocked (sample_service wh) ''demo-project'' ''events'' ''stale'' (shop_state\<lparr>CsTicks := n\<rparr>)
     = (Inr True, \<lparr>CsCatalog = swept_shop, CsStorage = sample_names [''clicks''], CsTicks = Suc n\<rparr>)"
proof -
  have folded: "folded ''stale'' = ''stale''" by code_simp
  have drp: "DropTable names_duckdb ''demo-project'' ''events'' ''stale'' (sample_names [''clicks'', ''stale'']) = (None, sample_names [''clicks''])"
    unfolding DropTable_def physical_table_def using names_drop_table [of "physicalSchema ''demo-project'' ''events''" "''stale''"]
    by (simp add: names_duckdb_def sample_names_def folded)
  have del: "sqlite_DeleteTable ''demo-project'' ''events'' ''stale'' sample_shop = (None, swept_shop)"
    by (simp add: sqlite_DeleteTable_def catalog_write_def next_catalog_fault_def sample_quiet swept_shop_def) (simp add: sample_shop_def)
  have "tableExpired sample_stale (sample_clock n)" by (simp add: sample_expiry sample_clock_def)
  then show ?thesis
    by (simp add: removeExpiredTableLocked_def on_catalog_def sqlite_catalog_def shop_state_def sample_reads clock_Now_def dropTableStorage_def
        on_storage_def duckdb_storage_def drp del)
qed

lemma sample_lists:
  "listTablesLocked (sample_service wh) ''demo-project'' ''events'' shop_state
     = (Inr [sample_clicks], \<lparr>CsCatalog = swept_shop, CsStorage = sample_names [''clicks''], CsTicks = 3\<rparr>)"
  using sample_removal [of wh 2]
  by (simp add: listTablesLocked_def on_catalog_def sqlite_catalog_def shop_state_def sample_listing clock_Now_def sample_expiry sample_clock_def numeral_eq_Suc)

definition sample_orders :: Table where
  "sample_orders = sample_clicks\<lparr>TbID := ''Orders'', TbType := [], TbSchema := [MkField ''id'' ''INT64'' ''REQUIRED'' [] None None [] []]\<rparr>"

lemma sample_orders_simps [simp]:
  "TbProjectID sample_orders = ''demo-project''" "TbDatasetID sample_orders = ''events''" "TbID sample_orders = ''Orders''"
  "TbSchema sample_orders = [MkField ''id'' ''INT64'' ''REQUIRED'' [] None None [] []]"
  by (simp_all add: sample_orders_def)

lemma sample_orders_ok: "table_ok sample_orders" "list_all flat_field (TbSchema sample_orders)"
  by code_simp+

lemma names_create_tables: "creates_tables names_duckdb name_schemas name_tables"
proof -
  have engine: "DkExec names_duckdb = names_exec" by (simp add: names_duckdb_def)
  show ?thesis unfolding creates_tables_def engine physical_table_def append_assoc names_create_table folded_physicalSchema by simp
qed

lemma names_warehouse: "\<exists>wh. NewWarehouse names_duckdb example_ddl 0 1 2 = Inr wh"
  by (rule warehouse_opens) (simp_all add: names_duckdb_def)


theorem emulator_lists_live_tables_witness:
  "\<exists>wh s. NewWarehouse names_duckdb example_ddl 0 1 2 = Inr wh
     \<and> listTablesLocked (sample_service wh) ''demo-project'' ''events'' shop_state = (Inr [sample_clicks], s)
     \<and> {t. \<exists>i. VwTables (sqlite_view (CsCatalog s)) (''demo-project'', ''events'', i) = Some t} = {sample_clicks}
     \<and> tableExpired sample_stale 100"
proof -
  obtain wh where wh: "NewWarehouse names_duckdb example_ddl 0 1 2 = Inr wh" using names_warehouse by blast
  show ?thesis
    using emulator_lists_live_tables [OF names_documented sample_kept sample_clock_steady sample_lists [of wh]] wh sample_lists [of wh] sample_expiry(2) [of 100]
    by auto
qed

lemma sample_orders_facts:
  "times_ok (table_defaults sample_dataset 100 sample_orders)" "\<not> tableExpired (table_defaults sample_dataset 100 sample_orders) 101"
  "rfc3339_year (DsCreatedAt sample_dataset)" "rfc3339_year (DsUpdatedAt sample_dataset)" "folded ''Orders'' = ''orders''"
  by code_simp+

lemmas sample_state_simps = shop_state_def sample_shop_tables sample_names_def sample_clock_def sample_quiet


lemma sample_orders_created:
  "\<exists>wh s u. NewWarehouse names_duckdb example_ddl 0 1 2 = Inr wh \<and> catalog_CreateTable (sample_service wh) sample_orders shop_state = (Inr u, s)"
proof -
  obtain wh where wh: "NewWarehouse names_duckdb example_ddl 0 1 2 = Inr wh" using names_warehouse by blast
  have "\<exists>s1 s2. catalog_CreateTable (sample_service wh) sample_orders shop_state = (Inr (table_defaults sample_dataset 100 sample_orders), s1)
      \<and> catalog_GetTable (sample_service wh) (TbProjectID sample_orders) (TbDatasetID sample_orders) (TbID sample_orders) s1
        = (Inr (table_defaults sample_dataset 100 sample_orders), s2)"
    by (rule flat_table_created [OF wh names_documented names_create_tables sample_kept _ sample_orders_ok _ sample_orders_facts(3,4)])
       (use sample_orders_facts in \<open>simp_all add: sample_state_simps\<close>)
  then show ?thesis using wh by blast
qed



definition full_shop :: "(CatalogDB, Names) CatalogState" where
  "full_shop = shop_state\<lparr>CsCatalog := sample_shop\<lparr>CxFaults := [None, None, Some (errors_New ''database or disk is full'')]\<rparr>\<rparr>"

lemma full_shop_kept: "emulator_kept name_schemas name_tables full_shop"
  using sample_kept by (simp add: emulator_kept_def full_shop_def shop_state_def sqlite_fault)

lemma sample_orders_stored:
  "\<exists>w. createTable names_duckdb (table_reference sample_orders) (TbSchema sample_orders) (sample_names [''clicks'', ''stale'']) = (None, w)"
proof -
  have "schema_ok (TbSchema sample_orders)"
    using sample_orders_ok(1) by (auto simp: table_ok_def Table_Validate_def validateFieldList_iff simp del: sample_orders_simps split: if_splits)
  then obtain columns where columns: "table_columns (TbSchema sample_orders) = Inr columns" using flat_table_columns [OF sample_orders_ok(2)] by blast
  have "\<exists>w. names_exec (''CREATE TABLE '' @ physical_table ''demo-project'' ''events'' ''Orders'' @ '' ('' @ rest) (sample_names [''clicks'', ''stale'']) = (None, w)"
    for rest unfolding physical_table_def append_assoc names_create_table by (simp add: sample_names_def sample_orders_facts(5))
  then show ?thesis using columns by (simp del: sample_orders_simps(4) add: createTable_def names_duckdb_def table_reference_def)
qed

lemma sample_compensation:
  assumes "NewWarehouse names_duckdb example_ddl 0 1 2 = Inr wh"
  shows "\<exists>s. catalog_CreateTable (sample_service wh) sample_orders full_shop = (Inl [ErrBackend], s)"
proof -
  have valid: "Table_Validate sample_orders = None" using sample_orders_ok(1) by (simp add: table_ok_def)
  obtain plan where plan: "planEngineSchema (duckdb_storage wh names_duckdb) (create_descriptor SchemaOperationCreate sample_orders) = Inr plan"
    and bound: "\<And>w. CreatePlannedTable wh names_duckdb plan (table_reference sample_orders) (TbSchema sample_orders) w
      = createTable names_duckdb (table_reference sample_orders) (TbSchema sample_orders) w"
    using flat_table_planned [OF assms valid sample_orders_ok(2)] by blast
  let ?db = "\<lambda>fs. sample_shop\<lparr>CxFaults := fs\<rparr>"
  let ?u = "table_defaults sample_dataset 100 sample_orders"
  have reads: "sqlite_GetDataset ''demo-project'' ''events'' (?db (None # fs)) = (Inr sample_dataset, ?db fs)"
    "sqlite_GetTable ''demo-project'' ''events'' ''Orders'' (?db (None # fs)) = (Inl [ErrNotFound], ?db fs)" for fs
    using read_dataset_row [OF sample_dataset_ok] sample_orders_facts(3,4)
    by (simp_all add: sqlite_GetDataset_def sqlite_GetTable_def catalog_read_def next_catalog_fault_def sample_shop_def sample_catalog_def)
  have "checked_table ?u = None"
    by (rule checked_table_ok, rule catalog_service.table_defaults_ok [OF emulator_catalog_service [OF names_documented] sample_orders_ok(1)])
  then have fault: "sqlite_CreateTable ?u (?db [Some (errors_New ''database or disk is full'')]) = (Some [ErrBackend], ?db [])"
    by (simp add: sqlite_CreateTable_def catalog_write_def next_catalog_fault_def catalog_repositoryError_def)
  have same: "table_reference ?u = table_reference sample_orders" "TbSchema ?u = TbSchema sample_orders"
    "TbProjectID ?u = ''demo-project''" "TbDatasetID ?u = ''events''" "TbID ?u = ''Orders''"
    by (simp_all add: table_defaults_def table_reference_def)
  obtain w where "createTable names_duckdb (table_reference sample_orders) (TbSchema sample_orders) (sample_names [''clicks'', ''stale'']) = (None, w)"
    using sample_orders_stored by blast
  then have w: "CreatePlannedTable wh names_duckdb plan (table_reference sample_orders) (TbSchema sample_orders)
      (sample_names [''clicks'', ''stale'']) = (None, w)" unfolding bound .
  have drop: "fst (DropTable names_duckdb ''demo-project'' ''events'' ''Orders'' w) = None"
  proof -
    have engine: "DkExec names_duckdb = names_exec" by (simp add: names_duckdb_def)
    show ?thesis unfolding DropTable_def physical_table_def engine append_assoc names_drop_table by simp
  qed
  show ?thesis
    using valid plan reads fault w drop same
    by (cases "DropTable names_duckdb ''demo-project'' ''events'' ''Orders'' w")
       (simp add: catalog_CreateTable_def full_shop_def shop_state_def on_catalog_def sqlite_catalog_def clear_expired_def errors_Is_def
        clock_Now_def sample_clock_def publish_table_def on_storage_def duckdb_storage_def)
qed

theorem emulator_keeps_no_orphans_witness:
  "\<exists>wh s. NewWarehouse names_duckdb example_ddl 0 1 2 = Inr wh
     \<and> serve_catalog_all (sample_service wh) [(None, RequestCreateTable sample_orders)] full_shop = ([Some [ErrBackend]], s)
     \<and> emulator_kept name_schemas name_tables s"
proof -
  obtain wh where wh: "NewWarehouse names_duckdb example_ddl 0 1 2 = Inr wh" using names_warehouse by blast
  obtain s where "catalog_CreateTable (sample_service wh) sample_orders full_shop = (Inl [ErrBackend], s)"
    using sample_compensation [OF wh] by blast
  then have run: "serve_catalog_all (sample_service wh) [(None, RequestCreateTable sample_orders)] full_shop = ([Some [ErrBackend]], s)"
    by (simp add: locked_def failure_def)
  have "list_all (\<lambda>x. request_listed (snd x)) [(None :: go_error option, RequestCreateTable sample_orders)]" by code_simp
  then show ?thesis
    using emulator_keeps_no_orphans [OF names_documented full_shop_kept _ run] wh run by (auto simp: compensated_def)
qed


end
