(* ===== verification/Spec2Isabelle.thy ===== *)
theory Spec2Isabelle
  imports Domain_Catalog Schema_Evolution Write_Service_Behaviour Read_Creation Engine_Planner Load_Runs Load_Behaviour Catalog_Duckdb
begin

text \<open>
  A verification library for go-bemu, a local emulator of BigQuery: REST and gRPC transports over application services, which keep their
  metadata in SQLite and their rows in DuckDB.

  \<^bold>\<open>The program.\<close> A client writes rows through the Storage Write API, through load jobs and through queries, and reads
  them through the Storage Read API. Each service is written against ports. The Storage Write service (\<open>internal/storagewrite\<close>)
  keeps its streams in memory and in a SQLite ledger and hands the rows to a storage coordinator. The Storage Read service
  (\<open>internal/storageread\<close>) freezes a table in a snapshot, splits it into streams and serves them, within a budget of snapshot
  bytes. The load job service (\<open>internal/loadjob\<close>) resolves and downloads objects and loads them in one warehouse transaction. The
  catalog service (\<open>internal/application\<close>) keeps projects, datasets and tables in a repository and their storage in the warehouse.
  The engine package (\<open>internal/engine\<close>) seals what a warehouse may do, into capabilities, schema plans and table mutations that
  are checked again when they are applied.

  \<^bold>\<open>The theories.\<close>

  \<^item> \<open>Prelude\<close>: Go's \<open>int64\<close>, time, maps, errors and string functions. \<open>Sha256\<close> and \<open>Json\<close>: the digests and the
    JSON bytes they are taken of, with the reading lemmas that make a document injective. \<open>Sqlite\<close>: what the SQLite adapters share.
  \<^item> \<open>Domain_Catalog\<close>, \<open>Schema_Evolution\<close>: \<open>internal/domain/{catalog,decimal,schema_evolution}.go\<close>. The
    lemmas give the shape of a validated schema, exact decimal rounding, and what an accepted schema change adds.
  \<^item> \<open>Write_Domain\<close>, \<open>Write_Service\<close>, \<open>Write_Lifecycle\<close>, \<open>Write_Repository\<close>: the Storage Write service
    and \<open>internal/adapters/sqlite/write_state.go\<close>. \<open>Write_Ledger_Spec\<close> is the abstract ledger of three maps and the refinement of
    the SQLite transactions to it; \<open>Write_Ledger\<close>, \<open>Write_Service_Ledger\<close>, \<open>Write_Commit_Ledger\<close> and
    \<open>Write_Sqlite_Ledger\<close> prove every request against the contract \<open>write_ledger\<close> and interpret it; \<open>Write_Restart\<close>,
    \<open>Write_Service_Runs\<close> and \<open>Write_Service_Behaviour\<close> hold the invariant of all runs, recovery and what requests do.
  \<^item> \<open>Read_Domain\<close>, \<open>Read_Ports\<close>, \<open>Read_Service\<close>, \<open>Read_Rows\<close>, \<open>Read_Repository\<close>: the Storage Read
    service and \<open>internal/adapters/sqlite/read_sessions.go\<close>. \<open>Read_Admission\<close> interleaves the pieces of its requests that
    run under the lock and proves the byte budget; \<open>Read_Session_Ledger\<close> that memory and tables agree; \<open>Read_Creation\<close> that a
    session that is built is stored.
  \<^item> \<open>Engine_Capabilities\<close>, \<open>Engine_Schema\<close>, \<open>Engine_Plan\<close>, \<open>Engine_Planner\<close>: all of
    \<open>internal/engine\<close>. A plan is bound to its issuer, to its input and to the state it was made for, and the applied plans keep the
    physical state of a table consistent.
  \<^item> \<open>Load_Domain\<close>, \<open>Load_Repository\<close>, \<open>Load_Plan\<close>, \<open>Load_Sources\<close>, \<open>Load_Service\<close>: \<open>internal/loadjob\<close>
    and \<open>internal/adapters/sqlite/load_jobs.go\<close>. \<open>Load_Runs\<close> interleaves submissions, goroutines, failures and restarts.
    \<open>Load_Behaviour\<close> composes a job with the warehouse.
  \<^item> \<open>Duckdb_Warehouse\<close>, \<open>Duckdb_Load\<close>: \<open>internal/adapters/duckdb/{warehouse,capabilities,schema_planning,load,load_planning}.go\<close>.
  \<^item> \<open>Catalog_Repository\<close>, \<open>Catalog_Sqlite\<close>: the catalog port with its contract, the process-local catalog of
    \<open>internal/adapters/memory/catalog.go\<close> and the SQLite catalog of \<open>internal/adapters/sqlite/catalog.go\<close>, whose rows are shown to
    read back as the tables they were written from. \<open>Tabledata\<close>: \<open>internal/tabledata/canonical.go\<close>, the bytes that identify a row and
    the byte budget of a page.
  \<^item> \<open>Catalog_Service\<close>: \<open>internal/application/{catalog,metadata_update,context_mutex}.go\<close>. \<open>Catalog_Behaviour\<close> proves, over
    the contracts of repository and storage, that no request leaves storage without metadata; \<open>Catalog_Expiry\<close> what reads, listings,
    creations and deletions do as tables expire; \<open>Catalog_Duckdb\<close> assembles the service as \<open>cmd/emulator/main.go\<close> does, over SQLite
    and DuckDB.

  \<^bold>\<open>Interfaces.\<close> Every contract between components is a locale over the operations the client calls, with the client's
  lemmas proved inside it, and is interpreted on the models of the code: the Storage Write ledger, the read session ledger, the load job
  repositories, the catalog repositories and the storage of the catalog. DuckDB's documented effect of data definition statements is the
  hypothesis \<open>ddl_as_documented\<close>; a small database that parses these statements meets it and runs the examples.

  \<^bold>\<open>Modelling.\<close> Structs are records, tagged values datatypes, operations functions that return their result with the changed
  state, errors values. An error is the list of the sentinels it wraps, with the variable texts the code looks at; the fixed words of
  messages are left out, and so are log records. \<open>int64\<close> values are integers with the wrap-around written where the code can
  overflow; times are nanoseconds. The ledgers of write streams and read sessions store times as \<open>UnixNano\<close>, the catalog and the jobs as
  RFC 3339, which is readable for the years 0 to 9999. A Go map is an association list with distinct keys; where the code ranges over a map,
  the order is a parameter or the result is shown not to depend on it. Cloned values are values; nil and empty slices are told apart where
  the code tells them apart. Digests are SHA-256 of the JSON bytes the code hashes. Recursion over schemas is structural or measured; where a
  Go loop consumes a document or a hierarchy the fuel is its length plus one or twice its length plus two, more than the steps it can
  take, and the results are proved for that fuel.

  Requests run under the lock the code takes and are atomic; the read service and the load jobs, which release it, are step relations over
  the pieces in between. SQLite statements run in their transaction; the fault that awaits each call is a list in the
  database record and rolls the call back. Code outside of the repository is a parameter with its documented behaviour as a named
  hypothesis: the clock, random identifiers, the object store, the file system, DuckDB (a record of answers to statements, one connection,
  a transaction being a state of its own), and the storage coordinator and the snapshots behind their ports.

  The catalog's clock is a sequence of readings, counted in the state; labels, being a Go map, are listed by their keys; an empty list of
  clustering fields is nil. In table data a float is its IEEE bits and an instant its RFC 3339 text.

  \<^bold>\<open>Not modelled.\<close> The query path (the query language, its jobs, the DDL statements of queries and their DuckDB renderers), the DuckDB
  coordinator of Storage Write and the read snapshots are behind the ports of the modelled services. The transports, the configuration and the start-up of the process are glue over net/http, gRPC and generated
  types; observability writes logs; the GoogleSQL adapter maps the trees of a third-party parser; Arrow and Avro encodings are third-party
  code; the token issuer, the contract manifests and the test helpers are tools beside the running program.
\<close>

end
